(* ===== verification/Prelude.thy ===== *)
theory Prelude
  imports Main "HOL-Library.List_Lexorder" "HOL-Library.Char_ord"
begin

text \<open>
  Shared vocabulary of the development: the exceptions the modelled TypeScript modules throw and
  the result type that carries them, the JavaScript number and string primitives the schemas
  check (safe integers, length bounds, \<open>trim\<close>, the checksum pattern), and the generic list
  lemmas the component theories use.  Everything a component may want in its simplifier set is
  declared \<open>[simp]\<close> here or collected in one of the named collections below.
\<close>


section \<open>Exceptions and results\<close>

text \<open>
  Each constructor is one of the error classes of the source; the string is the \<open>code\<close> field
  (or the message of a plain \<open>Error\<close>).  \<open>ZodError\<close> is what \<open>Schema.parse\<close> throws.
\<close>

datatype exn =
    ZodError
  | JsError string
  | TypeError
  | RangeError
  | RuntimePolicyError string
  | RuntimeLedgerError string
  | QueueError string
  | NativeOnceStateError string
  | NativeRecurringStateError string
  | NativeCalendarStateError string
  | NativeOnceWorkspaceError string
  | SandboxNetworkError string
  | BridgeJournalError string

type_synonym 'a result = "exn + 'a"

text \<open>\<open>andThen\<close> sequences two statements: the second runs only if the first did not throw.\<close>

definition andThen :: "'e + 'a \<Rightarrow> ('a \<Rightarrow> 'e + 'b) \<Rightarrow> 'e + 'b" where
  "andThen m f = (case m of Inl e \<Rightarrow> Inl e | Inr x \<Rightarrow> f x)"

definition isOk :: "'e + 'a \<Rightarrow> bool" where
  "isOk r = (case r of Inl _ \<Rightarrow> False | Inr _ \<Rightarrow> True)"

lemma andThen_simps [simp]:
  "andThen (Inl e) f = Inl e"
  "andThen (Inr x) f = f x"
  by (simp_all add: andThen_def)

lemma andThen_Inr_iff: "andThen m f = Inr y \<longleftrightarrow> (\<exists>x. m = Inr x \<and> f x = Inr y)"
  by (cases m) simp_all

lemma andThen_Inl_iff:
  "andThen m f = Inl e \<longleftrightarrow> m = Inl e \<or> (\<exists>x. m = Inr x \<and> f x = Inl e)"
  by (cases m) simp_all

lemma andThen_InrE [elim]:
  assumes "andThen m f = Inr y"
  obtains x where "m = Inr x" "f x = Inr y"
  using assms by (auto simp: andThen_Inr_iff)

lemma andThen_assoc: "andThen (andThen m f) g = andThen m (\<lambda>x. andThen (f x) g)"
  by (cases m) simp_all

lemma ex_unit_iff: "(\<exists>u :: unit. Q u) \<longleftrightarrow> Q ()"
  by (metis unit.exhaust)

lemma isOk_simps [simp]: "isOk (Inr x)" "\<not> isOk (Inl e)"
  by (simp_all add: isOk_def)

lemma isOk_iff: "isOk r \<longleftrightarrow> (\<exists>x. r = Inr x)"
  by (cases r) simp_all

text \<open>A guard that throws unless its condition holds: \<open>if (!cond) throw e\<close>.\<close>

definition need :: "bool \<Rightarrow> exn \<Rightarrow> unit result" where
  "need c e = (if c then Inr () else Inl e)"

lemma need_simps [simp]:
  "need True e = Inr ()"
  "need False e = Inl e"
  "need c e = Inr u \<longleftrightarrow> c"
  "need c e = Inl e' \<longleftrightarrow> \<not> c \<and> e' = e"
  by (auto simp: need_def)

lemma andThen_need_Inr [simp]: "andThen (need c e) f = Inr y \<longleftrightarrow> c \<and> f () = Inr y"
  by (cases c) simp_all

section \<open>JavaScript numbers and strings\<close>

text \<open>
  Numbers are the mathematical integers; where the code asks \<open>Number.isSafeInteger\<close> the bound
  \<open>2\<^sup>5\<^sup>3 - 1\<close> is written out.  Strings are lists of code units below 256.
\<close>

abbreviation MAX_SAFE_INTEGER :: int where
  "MAX_SAFE_INTEGER \<equiv> 9007199254740991"

definition isSafeInteger :: "int \<Rightarrow> bool" where
  "isSafeInteger n \<longleftrightarrow> - MAX_SAFE_INTEGER \<le> n \<and> n \<le> MAX_SAFE_INTEGER"

text \<open>\<open>z.number().int()\<close> of zod 4 accepts the safe integers.\<close>

definition zNonneg :: "int \<Rightarrow> bool" where
  "zNonneg n \<longleftrightarrow> isSafeInteger n \<and> 0 \<le> n"

definition zPositive :: "int \<Rightarrow> bool" where
  "zPositive n \<longleftrightarrow> isSafeInteger n \<and> 0 < n"

definition lenIn :: "nat \<Rightarrow> nat \<Rightarrow> string \<Rightarrow> bool" where
  "lenIn lo hi s \<longleftrightarrow> lo \<le> length s \<and> length s \<le> hi"

definition isWhite :: "char \<Rightarrow> bool" where
  "isWhite c \<longleftrightarrow> (let n = of_char c :: nat in (9 \<le> n \<and> n \<le> 13) \<or> n = 32 \<or> n = 160)"

definition trim :: "string \<Rightarrow> string" where
  "trim s = rev (dropWhile isWhite (rev (dropWhile isWhite s)))"

lemma dropWhile_hd_False: "dropWhile P xs = y # ys \<Longrightarrow> \<not> P y"
  by (induction xs) (auto split: if_splits)

lemma dropWhile_rev_dropWhile:
  "dropWhile P (rev (dropWhile P (rev (dropWhile P s)))) = rev (dropWhile P (rev (dropWhile P s)))"
proof (cases "rev (dropWhile P (rev (dropWhile P s)))")
  case Nil
  show ?thesis unfolding Nil by simp
next
  case (Cons y ys)
  obtain zs where zs: "rev (dropWhile P s) = zs @ dropWhile P (rev (dropWhile P s))"
    by (metis takeWhile_dropWhile_id)
  then have "dropWhile P s = (y # ys) @ rev zs"
    by (metis Cons rev_append rev_rev_ident)
  then have "\<not> P y" by (auto dest: dropWhile_hd_False)
  with Cons show ?thesis by simp
qed

lemma dropWhile_idem [simp]: "dropWhile P (dropWhile P xs) = dropWhile P xs"
  by (induction xs) auto

lemma trim_trim [simp]: "trim (trim s) = trim s"
  unfolding trim_def by (simp only: dropWhile_rev_dropWhile rev_rev_ident dropWhile_idem)

definition isHexLower :: "char \<Rightarrow> bool" where
  "isHexLower c \<longleftrightarrow> c \<in> set ''0123456789abcdef''"

text \<open>\<open>ChecksumSchema\<close> of contracts/src/runs.ts: the pattern \<open>^sha256:[a-f0-9]{64}$\<close>.\<close>

definition checksumOk :: "string \<Rightarrow> bool" where
  "checksumOk s \<longleftrightarrow> length s = 71 \<and> take 7 s = ''sha256:'' \<and> list_all isHexLower (drop 7 s)"

definition optAll :: "('a \<Rightarrow> bool) \<Rightarrow> 'a option \<Rightarrow> bool" where
  "optAll p x = (case x of None \<Rightarrow> True | Some v \<Rightarrow> p v)"

lemma optAll_simps [simp]: "optAll p None" "optAll p (Some v) = p v"
  by (simp_all add: optAll_def)

lemma optAll_True [simp]: "optAll (\<lambda>v. True) x"
  by (cases x) simp_all

text \<open>\<open>a ?? b\<close>: the left operand unless it is null.\<close>

definition orElse :: "'a option \<Rightarrow> 'a \<Rightarrow> 'a" where
  "orElse x d = (case x of None \<Rightarrow> d | Some v \<Rightarrow> v)"

lemma orElse_simps [simp]: "orElse None d = d" "orElse (Some v) d = v"
  by (simp_all add: orElse_def)

definition startsWith :: "string \<Rightarrow> string \<Rightarrow> bool" where
  "startsWith s p \<longleftrightarrow> take (length p) s = p"

definition endsWith :: "string \<Rightarrow> string \<Rightarrow> bool" where
  "endsWith s p \<longleftrightarrow> length p \<le> length s \<and> drop (length s - length p) s = p"

text \<open>\<open>s.split(c)\<close> for a single separator character.\<close>

fun splitOn :: "char \<Rightarrow> string \<Rightarrow> string list" where
  "splitOn c [] = [[]]"
| "splitOn c (x # xs) =
     (if x = c then [] # splitOn c xs
      else (case splitOn c xs of [] \<Rightarrow> [[x]] | s # ss \<Rightarrow> (x # s) # ss))"

definition isLowerAlnum :: "char \<Rightarrow> bool" where
  "isLowerAlnum c \<longleftrightarrow> (let n = (of_char c :: nat) in (48 \<le> n \<and> n \<le> 57) \<or> (97 \<le> n \<and> n \<le> 122))"

definition isDigitChar :: "char \<Rightarrow> bool" where
  "isDigitChar c \<longleftrightarrow> (let n = (of_char c :: nat) in 48 \<le> n \<and> n \<le> 57)"

section \<open>Runs of a fallible step\<close>

text \<open>A sequence of inputs given to a step one after the other; an exception stops the run.\<close>

fun runAll :: "('s \<Rightarrow> 'i \<Rightarrow> 'e + 's) \<Rightarrow> 's \<Rightarrow> 'i list \<Rightarrow> 'e + 's" where
  "runAll step s [] = Inr s"
| "runAll step s (i # is) = andThen (step s i) (\<lambda>s'. runAll step s' is)"

lemma runAll_append:
  "runAll step s (xs @ ys) = andThen (runAll step s xs) (\<lambda>s'. runAll step s' ys)"
  by (induction xs arbitrary: s) (simp_all add: andThen_assoc)

lemma runAll_ConsE:
  assumes "runAll step s (i # is) = Inr s'"
  obtains t where "step s i = Inr t" "runAll step t is = Inr s'"
  using assms by (auto simp: andThen_Inr_iff)

text \<open>
  The contract between a state machine and its clients: an invariant and a preorder that every
  accepted step keeps.  The clients rely on what follows for whole runs.
\<close>

locale step_machine =
  fixes step :: "'s \<Rightarrow> 'i \<Rightarrow> 'e + 's"
    and inv :: "'s \<Rightarrow> bool"
    and older :: "'s \<Rightarrow> 's \<Rightarrow> bool"
  assumes inv_step: "step s i = Inr s' \<Longrightarrow> inv s \<Longrightarrow> inv s'"
    and older_step: "step s i = Inr s' \<Longrightarrow> inv s \<Longrightarrow> older s s'"
    and older_refl: "older s s"
    and older_trans: "older a b \<Longrightarrow> older b c \<Longrightarrow> older a c"
begin

lemma run_inv: "runAll step s is = Inr s' \<Longrightarrow> inv s \<Longrightarrow> inv s'"
  by (induction "is" arbitrary: s) (auto elim!: runAll_ConsE dest: inv_step simp del: runAll.simps(2))

lemma run_older: "runAll step s is = Inr s' \<Longrightarrow> inv s \<Longrightarrow> older s s'"
proof (induction "is" arbitrary: s)
  case (Cons i "is")
  then obtain t where "step s i = Inr t" "runAll step t is = Inr s'" by (elim runAll_ConsE)
  then show ?case using Cons inv_step older_step older_trans by metis
qed (simp add: older_refl)

end

text \<open>
  A machine with a phase that is entered by one particular input and never left: that input is
  accepted at most once in a run.
\<close>

locale once_machine =
  fixes step :: "'s \<Rightarrow> 'i \<Rightarrow> 'e + 's"
    and entered :: "'s \<Rightarrow> bool"
    and trigger :: 'i
  assumes stays: "step s i = Inr s' \<Longrightarrow> entered s \<Longrightarrow> entered s'"
    and enters: "step s trigger = Inr s' \<Longrightarrow> \<not> entered s \<and> entered s'"
begin

lemma run_stays: "runAll step s is = Inr s' \<Longrightarrow> entered s \<Longrightarrow> entered s' \<and> trigger \<notin> set is"
proof (induction "is" arbitrary: s)
  case (Cons i "is")
  then obtain t where "step s i = Inr t" "runAll step t is = Inr s'" by (elim runAll_ConsE)
  then show ?case using Cons.IH [of t] Cons.prems(2) stays enters by auto
qed simp

lemma run_once:
  "runAll step s is = Inr s' \<Longrightarrow>
     length (filter (\<lambda>i. i = trigger) is) \<le> 1 \<and> (trigger \<in> set is \<longrightarrow> \<not> entered s \<and> entered s')"
proof (induction "is" arbitrary: s)
  case (Cons i "is")
  then obtain t where t: "step s i = Inr t" "runAll step t is = Inr s'" by (elim runAll_ConsE)
  show ?case
  proof (cases "i = trigger")
    case True
    then have "entered t" "\<not> entered s" using enters t(1) by auto
    then have "entered s'" "trigger \<notin> set is" using run_stays [OF t(2)] by auto
    moreover from this have "filter (\<lambda>i. i = trigger) is = []" by (auto simp: filter_empty_conv)
    ultimately show ?thesis using True \<open>\<not> entered s\<close> by simp
  next
    case False
    then show ?thesis using Cons.IH [OF t(2)] stays [OF t(1)] by auto
  qed
qed simp

end

text \<open>
  A store under optimistic concurrency: a write names the version it was prepared against, is accepted
  only at exactly that version, and moves the store to the next one.
\<close>

locale versioned_store =
  fixes apply_write :: "'s \<Rightarrow> 'w \<Rightarrow> 'e + 's"
    and version :: "'s \<Rightarrow> int"
    and expected :: "'w \<Rightarrow> int"
  assumes accept: "apply_write s w = Inr s' \<Longrightarrow> expected w = version s \<and> version s' = version s + 1"
begin

lemma run_version: "runAll apply_write s ws = Inr s' \<Longrightarrow> version s' = version s + int (length ws)"
  by (induction ws arbitrary: s) (auto elim!: runAll_ConsE dest!: accept simp del: runAll.simps(2))

lemma run_expected:
  "runAll apply_write s ws = Inr s' \<Longrightarrow> i < length ws \<Longrightarrow> expected (ws ! i) = version s + int i"
proof (induction ws arbitrary: s i)
  case (Cons w ws)
  then obtain t where t: "apply_write s w = Inr t" "runAll apply_write t ws = Inr s'" by (elim runAll_ConsE)
  then show ?case using Cons.IH [OF t(2)] Cons.prems(2) accept [OF t(1)] by (cases i) auto
qed simp

lemma run_distinct: "runAll apply_write s ws = Inr s' \<Longrightarrow> distinct (map expected ws)"
  by (simp add: distinct_conv_nth run_expected)

text \<open>No lost update: a write prepared against an earlier version is refused from then on.\<close>

lemma stale_write:
  assumes "runAll apply_write s ws = Inr s'" "expected w < version s + int (length ws)"
  shows "\<exists>e. apply_write s' w = Inl e"
proof (cases "apply_write s' w")
  case (Inr t)
  then show ?thesis using accept [OF Inr] run_version [OF assms(1)] assms(2) by simp
qed simp

end

section \<open>Tables that grow\<close>

text \<open>The rows are still there, in order and first, a row differing only as \<open>R\<close> allows.\<close>

definition grows :: "('a \<Rightarrow> 'a \<Rightarrow> bool) \<Rightarrow> 'a list \<Rightarrow> 'a list \<Rightarrow> bool" where
  "grows R xs ys \<longleftrightarrow> length xs \<le> length ys \<and> list_all2 R xs (take (length xs) ys)"

lemma grows_append [simp]: "(\<And>x. R x x) \<Longrightarrow> grows R xs (xs @ ys)"
  by (simp add: grows_def list_all2_refl)

lemma grows_refl: "(\<And>x. R x x) \<Longrightarrow> grows R xs xs"
  using grows_append [of R xs "[]"] by simp

lemma grows_map: "(\<And>x. x \<in> set xs \<Longrightarrow> R x (f x)) \<Longrightarrow> grows R xs (map f xs)"
  by (simp add: grows_def list_all2_conv_all_nth)

lemma grows_trans:
  assumes "\<And>x y z. R x y \<Longrightarrow> R y z \<Longrightarrow> R x z" "grows R xs ys" "grows R ys zs"
  shows "grows R xs zs"
proof -
  have "list_all2 R (take (length xs) ys) (take (length xs) (take (length ys) zs))"
    using assms(3) unfolding grows_def by (blast intro: list_all2_takeI)
  then show ?thesis
    using assms(2,3) list_all2_trans [of R R R, OF assms(1)] by (force simp: grows_def min_def)
qed

lemma grows_member: "grows R xs ys \<Longrightarrow> x \<in> set xs \<Longrightarrow> \<exists>y \<in> set ys. R x y"
  by (auto simp: grows_def in_set_conv_nth list_all2_conv_all_nth) (metis less_le_trans nth_mem nth_take)

lemma grows_image: "grows R xs ys \<Longrightarrow> (\<And>x y. R x y \<Longrightarrow> f x = f y) \<Longrightarrow> v \<in> f ` set xs \<Longrightarrow> v \<in> f ` set ys"
  by (metis (no_types, lifting) grows_member image_iff)

text \<open>
  Transactions on a store: a call answers and changes the store, or throws and leaves it.  The log of a
  run holds every call with its answer.
\<close>

fun runCalls :: "('c \<Rightarrow> 's \<Rightarrow> 'e + ('r \<times> 's)) \<Rightarrow> 'c list \<Rightarrow> 's \<Rightarrow> ('c \<times> ('e + 'r)) list \<times> 's" where
  "runCalls call [] s = ([], s)"
| "runCalls call (c # cs) s = (case call c s of
     Inl e \<Rightarrow> (case runCalls call cs s of (log, s') \<Rightarrow> ((c, Inl e) # log, s'))
   | Inr (r, t) \<Rightarrow> (case runCalls call cs t of (log, s') \<Rightarrow> ((c, Inr r) # log, s')))"

lemma runCalls_Cons:
  "call c s = Inl e \<Longrightarrow> runCalls call (c # cs) s = ((c, Inl e) # fst (runCalls call cs s), snd (runCalls call cs s))"
  "call c s = Inr (r, t) \<Longrightarrow> runCalls call (c # cs) s = ((c, Inr r) # fst (runCalls call cs t), snd (runCalls call cs t))"
  by (simp_all add: case_prod_unfold)

lemma runCalls_append:
  "runCalls call (xs @ ys) s = (fst (runCalls call xs s) @ fst (runCalls call ys (snd (runCalls call xs s))),
     snd (runCalls call ys (snd (runCalls call xs s))))"
proof (induction xs arbitrary: s)
  case (Cons c xs)
  then show ?case by (cases "call c s") (auto simp: case_prod_unfold)
qed simp

text \<open>The contract of a store with its clients: an invariant, and what no call takes back.\<close>

locale call_machine =
  fixes call :: "'c \<Rightarrow> 's \<Rightarrow> 'e + ('r \<times> 's)"
    and inv :: "'s \<Rightarrow> bool"
    and older :: "'s \<Rightarrow> 's \<Rightarrow> bool"
  assumes call_keeps: "call c s = Inr (r, s') \<Longrightarrow> inv s \<Longrightarrow> inv s' \<and> older s s'"
    and older_refl: "older s s"
    and older_trans: "older x y \<Longrightarrow> older y z \<Longrightarrow> older x z"
begin

lemmas ran = runCalls_Cons [where call = call]

lemma run_keeps: "inv s \<Longrightarrow> inv (snd (runCalls call cs s)) \<and> older s (snd (runCalls call cs s))"
proof (induction cs arbitrary: s)
  case (Cons c cs)
  show ?case
  proof (cases "call c s")
    case (Inl e)
    then show ?thesis using Cons by (simp add: runCalls_Cons del: runCalls.simps)
  next
    case (Inr p)
    then obtain r t where t: "call c s = Inr (r, t)" by (cases p) simp
    then show ?thesis using Cons.IH [of t] call_keeps [OF t Cons.prems] older_trans
      by (auto simp: ran(2) [OF t] simp del: runCalls.simps)
  qed
qed (simp add: older_refl)

lemma run_inv: "inv s \<Longrightarrow> inv (snd (runCalls call cs s))" and run_older: "inv s \<Longrightarrow> older s (snd (runCalls call cs s))"
  using run_keeps by auto

text \<open>Every answer of the log was given by the call, between the two ends of the run.\<close>

lemma run_answer:
  "inv s \<Longrightarrow> (c, Inr r) \<in> set (fst (runCalls call cs s)) \<Longrightarrow>
     \<exists>a b. inv a \<and> older s a \<and> call c a = Inr (r, b) \<and> older b (snd (runCalls call cs s))"
proof (induction cs arbitrary: s)
  case (Cons d cs)
  show ?case
  proof (cases "call d s")
    case (Inl e)
    then show ?thesis using Cons by (simp add: runCalls_Cons del: runCalls.simps)
  next
    case (Inr p)
    then obtain q t where t: "call d s = Inr (q, t)" by (cases p) simp
    note k = call_keeps [OF t Cons.prems(1)]
    show ?thesis
    proof (cases "(c, Inr r) \<in> set (fst (runCalls call cs t))")
      case True
      then obtain a b where "inv a" "older t a" "call c a = Inr (r, b)" "older b (snd (runCalls call cs t))"
        using Cons.IH [of t] k by blast
      then show ?thesis using k older_trans [of s t a] by (auto simp: ran(2) [OF t] simp del: runCalls.simps)
    next
      case False
      then have "c = d" "r = q" using Cons.prems(2) by (auto simp: ran(2) [OF t] simp del: runCalls.simps)
      then show ?thesis using t Cons.prems(1) older_refl run_older [of t cs] k
        by (auto simp: ran(2) [OF t] simp del: runCalls.simps)
    qed
  qed
qed simp

end

definition grantsIn :: "('c \<Rightarrow> 'r \<Rightarrow> bool) \<Rightarrow> ('c \<times> ('e + 'r)) list \<Rightarrow> nat" where
  "grantsIn granted log = length (filter (\<lambda>(c, a). case a of Inl _ \<Rightarrow> False | Inr r \<Rightarrow> granted c r) log)"

text \<open>A grant that uses something up: what is used up stays so, and the grant is given at most once.\<close>

locale grant_machine = call_machine call inv older
  for call :: "'c \<Rightarrow> 's \<Rightarrow> 'e + ('r \<times> 's)" and inv :: "'s \<Rightarrow> bool" and older :: "'s \<Rightarrow> 's \<Rightarrow> bool" +
  fixes granted :: "'c \<Rightarrow> 'r \<Rightarrow> bool"
    and spent :: "'s \<Rightarrow> bool"
  assumes grant: "call c s = Inr (r, s') \<Longrightarrow> inv s \<Longrightarrow> granted c r \<Longrightarrow> \<not> spent s \<and> spent s'"
    and spent_kept: "older s s' \<Longrightarrow> spent s \<Longrightarrow> spent s'"
begin

lemma none_when_spent: "inv s \<Longrightarrow> spent s \<Longrightarrow> grantsIn granted (fst (runCalls call cs s)) = 0"
proof (induction cs arbitrary: s)
  case (Cons c cs)
  show ?case
  proof (cases "call c s")
    case (Inl e)
    then show ?thesis using Cons by (simp add: runCalls_Cons grantsIn_def del: runCalls.simps)
  next
    case (Inr p)
    then obtain r t where t: "call c s = Inr (r, t)" by (cases p) simp
    note k = call_keeps [OF t Cons.prems(1)]
    have "\<not> granted c r" using grant [OF t Cons.prems(1)] Cons.prems(2) by blast
    then show ?thesis using Cons.IH [of t] k spent_kept [of s t] Cons.prems(2)
      by (simp add: ran(2) [OF t] grantsIn_def del: runCalls.simps)
  qed
qed (simp add: grantsIn_def)

lemma at_most_once: "inv s \<Longrightarrow> grantsIn granted (fst (runCalls call cs s)) \<le> 1"
proof (induction cs arbitrary: s)
  case (Cons c cs)
  show ?case
  proof (cases "call c s")
    case (Inl e)
    then show ?thesis using Cons by (simp add: runCalls_Cons grantsIn_def del: runCalls.simps)
  next
    case (Inr p)
    then obtain r t where t: "call c s = Inr (r, t)" by (cases p) simp
    note k = call_keeps [OF t Cons.prems]
    show ?thesis
    proof (cases "granted c r")
      case True
      then have "spent t" using grant [OF t Cons.prems] by blast
      then show ?thesis using none_when_spent [of t cs] k True
        by (simp add: ran(2) [OF t] grantsIn_def del: runCalls.simps)
    next
      case False
      then show ?thesis using Cons.IH [of t] k by (simp add: ran(2) [OF t] grantsIn_def del: runCalls.simps)
    qed
  qed
qed (simp add: grantsIn_def)

end

section \<open>Lists with distinct keys\<close>

lemma map_of_eqI_same_keys:
  assumes "map fst xs = map fst ys" "distinct (map fst xs)" "map_of xs = map_of ys"
  shows "xs = ys"
  using assms
proof (induction xs arbitrary: ys)
  case Nil
  then show ?case by simp
next
  case (Cons x xs)
  then obtain y ys' where ys: "ys = y # ys'" by (cases ys) auto
  have k: "fst x = fst y" "map fst xs = map fst ys'" using Cons.prems ys by auto
  have e: "map_of (x # xs) = map_of (y # ys')" using Cons.prems(3) unfolding ys .
  from fun_cong [OF e, of "fst x"] have "snd x = snd y" using k by simp
  then have v: "x = y" using k by (simp add: prod_eq_iff)
  have "map_of xs = map_of ys'"
  proof
    fix z
    have "map_of (x # xs) z = map_of (y # ys') z" by (rule fun_cong [OF e])
    moreover have "map_of xs (fst x) = None" "map_of ys' (fst x) = None"
      using Cons.prems(2) k by (simp_all add: map_of_eq_None_iff flip: set_map)
    ultimately show "map_of xs z = map_of ys' z"
      using v by (cases "z = fst x") (auto split: if_splits)
  qed
  then show ?case using Cons.IH [of ys'] Cons.prems k v ys by simp
qed

end
