(* ===== verification/JsonValue.thy ===== *)
theory JsonValue
  imports Prelude "HOL-Library.Word"
begin

unbundle bit_operations_syntax

text \<open>
  The JavaScript values that cross the persistence and approval boundaries, their
  \<open>JSON.stringify\<close> text, the canonical (key-sorted) text of
  packages/database/src/runtime-policy-digest.ts and the SHA-256 digest taken of it.  The main
  facts are that \<open>JSON.stringify\<close> is injective on JSON values, and that the canonical text
  determines the value up to the order of object keys.  The SHA-256 function of
  \<open>node:crypto\<close> is defined in full on 32-bit words.
\<close>

section \<open>Values\<close>

text \<open>
  \<open>JNaN\<close> is a number that is not finite, \<open>JUndefined\<close> an absent property; an object is the list of
  its own enumerable properties in insertion order.  Numbers are the integers.
\<close>

datatype jsval =
    JUndefined
  | JNull
  | JBool bool
  | JNum int
  | JNaN
  | JStr string
  | JArr "jsval list"
  | JObj "(string \<times> jsval) list"

definition jOpt :: "('a \<Rightarrow> jsval) \<Rightarrow> 'a option \<Rightarrow> jsval" where
  "jOpt f x = (case x of None \<Rightarrow> JNull | Some v \<Rightarrow> f v)"

definition jStrs :: "string list \<Rightarrow> jsval" where
  "jStrs xs = JArr (map JStr xs)"

text \<open>An optional property: present with its value, or no property at all.\<close>

definition optProp :: "string \<Rightarrow> jsval option \<Rightarrow> (string \<times> jsval) list" where
  "optProp k x = (case x of None \<Rightarrow> [] | Some v \<Rightarrow> [(k, v)])"

fun jget :: "string \<Rightarrow> jsval \<Rightarrow> jsval" where
  "jget k (JObj kvs) = (case map_of kvs k of None \<Rightarrow> JUndefined | Some v \<Rightarrow> v)"
| "jget k _ = JUndefined"

definition strOf :: "jsval \<Rightarrow> string" where
  "strOf v = (case v of JStr s \<Rightarrow> s | _ \<Rightarrow> [])"

fun jtruthy :: "jsval \<Rightarrow> bool" where
  "jtruthy JUndefined = False"
| "jtruthy JNull = False"
| "jtruthy (JBool b) = b"
| "jtruthy (JNum n) = (n \<noteq> 0)"
| "jtruthy JNaN = False"
| "jtruthy (JStr s) = (s \<noteq> [])"
| "jtruthy _ = True"

text \<open>What \<open>JSON.parse\<close> can produce: no undefined, no non-finite number, distinct keys.\<close>

fun jsonOk :: "jsval \<Rightarrow> bool" and jsonOkArr :: "jsval list \<Rightarrow> bool"
  and jsonOkObj :: "(string \<times> jsval) list \<Rightarrow> bool" where
  "jsonOk JUndefined = False"
| "jsonOk JNaN = False"
| "jsonOk (JArr xs) = jsonOkArr xs"
| "jsonOk (JObj kvs) = (distinct (map fst kvs) \<and> jsonOkObj kvs)"
| "jsonOk _ = True"
| "jsonOkArr [] = True"
| "jsonOkArr (x # xs) = (jsonOk x \<and> jsonOkArr xs)"
| "jsonOkObj [] = True"
| "jsonOkObj ((k, v) # kvs) = (jsonOk v \<and> jsonOkObj kvs)"

lemma jsonOkArr_iff: "jsonOkArr xs \<longleftrightarrow> (\<forall>x \<in> set xs. jsonOk x)"
  by (induction xs) auto

lemma jsonOkObj_iff: "jsonOkObj kvs \<longleftrightarrow> (\<forall>(k, v) \<in> set kvs. jsonOk v)"
  by (induction kvs) auto

section \<open>JSON.stringify\<close>

definition digitChar :: "nat \<Rightarrow> char" where
  "digitChar n = char_of (48 + n)"

fun natStr :: "nat \<Rightarrow> string" where
  "natStr n = (if n < 10 then [digitChar n] else natStr (n div 10) @ [digitChar (n mod 10)])"

declare natStr.simps [simp del]

definition intStr :: "int \<Rightarrow> string" where
  "intStr i = (if i < 0 then CHR ''-'' # natStr (nat (- i)) else natStr (nat i))"

definition hexChar :: "nat \<Rightarrow> char" where
  "hexChar n = ''0123456789abcdef'' ! n"

text \<open>
  The escapes of \<open>QuoteJSONString\<close>: the two-character escapes, \<open>\u00XX\<close> for the other control
  characters, and every other code unit as it is.  The code units are written by number: 34 is
  the quotation mark, 92 the backslash.
\<close>

definition escChar :: "char \<Rightarrow> string" where
  "escChar c = (let n = (of_char c :: nat) in
     if n = 34 then [CHR 0x5C, CHR 0x22]
     else if n = 92 then [CHR 0x5C, CHR 0x5C]
     else if n = 8 then [CHR 0x5C, CHR ''b'']
     else if n = 12 then [CHR 0x5C, CHR ''f'']
     else if n = 10 then [CHR 0x5C, CHR ''n'']
     else if n = 13 then [CHR 0x5C, CHR ''r'']
     else if n = 9 then [CHR 0x5C, CHR ''t'']
     else if n < 32 then [CHR 0x5C, CHR ''u'', CHR ''0'', CHR ''0'',
        hexChar (n div 16), hexChar (n mod 16)]
     else [c])"

abbreviation quoteChar :: char where "quoteChar \<equiv> CHR 0x22"

definition quote :: "string \<Rightarrow> string" where
  "quote s = quoteChar # concat (map escChar s) @ [quoteChar]"

fun stringify :: "jsval \<Rightarrow> string" and stringifyElems :: "jsval list \<Rightarrow> string"
  and stringifyProps :: "(string \<times> jsval) list \<Rightarrow> string" where
  "stringify JUndefined = ''null''"
| "stringify JNull = ''null''"
| "stringify (JBool b) = (if b then ''true'' else ''false'')"
| "stringify (JNum i) = intStr i"
| "stringify JNaN = ''null''"
| "stringify (JStr s) = quote s"
| "stringify (JArr xs) = ''['' @ stringifyElems xs @ '']''"
| "stringify (JObj kvs) = ''{'' @ stringifyProps kvs @ ''}''"
| "stringifyElems [] = []"
| "stringifyElems (x # xs) =
     stringify x @ (if xs = [] then [] else '','' @ stringifyElems xs)"
| "stringifyProps [] = []"
| "stringifyProps ((k, v) # kvs) =
     (if v = JUndefined then stringifyProps kvs
      else quote k @ '':'' @ stringify v @
        (let rest = stringifyProps kvs in if rest = [] then [] else '','' @ rest))"

section \<open>JSON.stringify is injective\<close>

lemma digitChar_value: "n < 10 \<Longrightarrow> of_char (digitChar n) = 48 + n"
  by (simp add: digitChar_def)

lemma natStr_value:
  "foldl (\<lambda>a c. a * 10 + (of_char c - 48)) 0 (natStr n) = (n :: nat)"
proof (induction n rule: natStr.induct)
  case (1 n)
  then show ?case
    by (cases "n < 10") (simp_all add: natStr.simps [of n] digitChar_value)
qed

lemma natStr_inj: "natStr m = natStr n \<Longrightarrow> m = n"
  by (metis natStr_value)

lemma natStr_digits: "c \<in> set (natStr n) \<Longrightarrow> 48 \<le> (of_char c :: nat) \<and> of_char c \<le> (57 :: nat)"
proof (induction n rule: natStr.induct)
  case (1 n)
  then show ?case
    by (cases "n < 10") (auto simp: natStr.simps [of n] digitChar_value)
qed

lemma natStr_nonempty [simp]: "natStr n \<noteq> []"
  by (simp add: natStr.simps [of n])

text \<open>The characters that may follow a complete value inside a larger text.\<close>

definition delim :: "string \<Rightarrow> bool" where
  "delim r \<longleftrightarrow> (r = [] \<or> hd r = CHR '','' \<or> hd r = CHR '']'' \<or> hd r = CHR ''}'')"

lemma delim_simps [simp]:
  "delim []" "delim (CHR '','' # r)" "delim (CHR '']'' # r)" "delim (CHR ''}'' # r)"
  by (simp_all add: delim_def)

definition numChar :: "char \<Rightarrow> bool" where
  "numChar c \<longleftrightarrow> c = CHR ''-'' \<or> (48 \<le> (of_char c :: nat) \<and> of_char c \<le> (57 :: nat))"

lemma delim_not_numChar: "delim (c # r) \<Longrightarrow> \<not> numChar c"
  by (auto simp: delim_def numChar_def)

lemma intStr_numChar: "list_all numChar (intStr i)"
  by (auto simp: intStr_def list_all_iff numChar_def dest: natStr_digits)

lemma intStr_inj: "intStr i = intStr j \<Longrightarrow> i = j"
proof -
  assume e: "intStr i = intStr j"
  have no: "hd (natStr n) \<noteq> CHR ''-''" for n
    using natStr_digits [of "hd (natStr n)" n] by auto
  show "i = j"
  proof (cases "i < 0")
    case True
    have "j < 0"
    proof (rule ccontr)
      assume "\<not> j < 0"
      then have "CHR ''-'' # natStr (nat (- i)) = natStr (nat j)"
        using e True by (simp add: intStr_def)
      then show False using no [of "nat j"] by (metis list.sel(1))
    qed
    with True e show ?thesis by (auto simp: intStr_def dest!: natStr_inj)
  next
    case False
    have "\<not> j < 0"
    proof
      assume "j < 0"
      then have "natStr (nat i) = CHR ''-'' # natStr (nat (- j))"
        using e False by (simp add: intStr_def)
      then show False using no [of "nat i"] by (metis list.sel(1))
    qed
    with False e show ?thesis by (auto simp: intStr_def dest!: natStr_inj)
  qed
qed

lemma takeWhile_num:
  assumes "list_all numChar xs" "delim r"
  shows "takeWhile numChar (xs @ r) = xs"
proof -
  have "takeWhile numChar r = []"
    using assms(2) by (cases r) (auto dest: delim_not_numChar)
  with assms(1) show ?thesis by (simp add: takeWhile_append2 list_all_iff)
qed

lemma intStr_prefix:
  assumes "intStr i @ r = intStr j @ r'" "delim r" "delim r'"
  shows "i = j \<and> r = r'"
proof -
  have "intStr i = intStr j"
    using assms takeWhile_num [OF intStr_numChar [of i], of r]
      takeWhile_num [OF intStr_numChar [of j], of r'] by metis
  with assms(1) show ?thesis by (auto dest: intStr_inj)
qed

lemma hexChar_inj: "m < 16 \<Longrightarrow> n < 16 \<Longrightarrow> hexChar m = hexChar n \<Longrightarrow> m = n"
proof -
  have "distinct ''0123456789abcdef''" by simp
  then show "m < 16 \<Longrightarrow> n < 16 \<Longrightarrow> hexChar m = hexChar n \<Longrightarrow> m = n"
    by (simp add: hexChar_def nth_eq_iff_index_eq del: nth_Cons_numeral)
qed

lemma escChar_plain: "escChar c = [c] \<or> hd (escChar c) = CHR 0x5C"
  by (simp add: escChar_def Let_def)

lemma escChar_not_quote: "hd (escChar c) \<noteq> quoteChar"
  by (auto simp: escChar_def Let_def)

lemma escChar_nonempty [simp]: "escChar c \<noteq> []"
  by (simp add: escChar_def Let_def)

definition hexVal :: "char \<Rightarrow> nat" where
  "hexVal c = (let n = (of_char c :: nat) in if n < 58 then n - 48 else n - 87)"

definition unescOne :: "string \<Rightarrow> char \<times> string" where
  "unescOne s =
     (if of_char (s ! 0) \<noteq> (92::nat) then (s ! 0, drop 1 s)
      else if s ! 1 = CHR ''u'' then (char_of (hexVal (s ! 4) * 16 + hexVal (s ! 5)), drop 6 s)
      else (if s ! 1 = CHR ''b'' then CHR 0x08 else if s ! 1 = CHR ''f'' then CHR 0x0C
        else if s ! 1 = CHR ''n'' then CHR 0x0A else if s ! 1 = CHR ''r'' then CHR 0x0D
        else if s ! 1 = CHR ''t'' then CHR 0x09 else s ! 1, drop 2 s))"

lemma hexVal_hexChar: "n < 16 \<Longrightarrow> hexVal (hexChar n) = n"
proof -
  assume "n < 16"
  then have "n \<in> set [0..<16]" by simp
  moreover have "\<forall>k \<in> set [0..<16]. hexVal (hexChar k) = k"
    by (simp add: hexVal_def hexChar_def Let_def upt_rec [of _ 16])
  ultimately show ?thesis by blast
qed

lemma char_of_char_inj: "(of_char c :: nat) = of_char d \<Longrightarrow> c = d"
  by simp

lemma of_char_special:
  "(of_char c :: nat) = 34 \<Longrightarrow> c = CHR 0x22" "(of_char c :: nat) = 92 \<Longrightarrow> c = CHR 0x5C"
  "(of_char c :: nat) = 8 \<Longrightarrow> c = CHR 0x08" "(of_char c :: nat) = 12 \<Longrightarrow> c = CHR 0x0C"
  "(of_char c :: nat) = 10 \<Longrightarrow> c = CHR 0x0A" "(of_char c :: nat) = 13 \<Longrightarrow> c = CHR 0x0D"
  "(of_char c :: nat) = 9 \<Longrightarrow> c = CHR 0x09"
  by (rule char_of_char_inj, simp)+

lemma unescOne_escChar: "unescOne (escChar c @ x) = (c, x)"
proof -
  let ?n = "of_char c :: nat"
  consider "?n \<in> {34, 92, 8, 12, 10, 13, 9}"
    | "?n < 32" "?n \<notin> {34, 92, 8, 12, 10, 13, 9}" | "32 \<le> ?n" "?n \<noteq> 34" "?n \<noteq> 92"
    by force
  then show ?thesis
  proof cases
    case 1
    then show ?thesis
      by (elim insertE emptyE) (auto simp: escChar_def unescOne_def dest!: of_char_special)
  next
    case 2
    then have "escChar c = [CHR 0x5C, CHR ''u'', CHR ''0'', CHR ''0'',
        hexChar (?n div 16), hexChar (?n mod 16)]"
      by (simp add: escChar_def Let_def)
    moreover have "hexVal (hexChar (?n div 16)) = ?n div 16" "hexVal (hexChar (?n mod 16)) = ?n mod 16"
      using 2 by (auto intro!: hexVal_hexChar)
    ultimately show ?thesis by (simp add: unescOne_def)
  next
    case 3
    then have "escChar c = [c]" by (simp add: escChar_def Let_def)
    with 3 show ?thesis by (simp add: unescOne_def)
  qed
qed

lemma escChar_prefix: "escChar c @ x = escChar d @ y \<Longrightarrow> c = d \<and> x = y"
  by (metis prod.inject unescOne_escChar)

lemma esc_prefix:
  "concat (map escChar s) @ quoteChar # r = concat (map escChar s') @ quoteChar # r'
    \<Longrightarrow> s = s' \<and> r = r'"
proof (induction s arbitrary: s')
  case Nil
  show ?case
  proof (cases s')
    case (Cons d s'')
    then have "hd (escChar d) = quoteChar" using Nil by (cases "escChar d") auto
    then show ?thesis using escChar_not_quote by blast
  qed (use Nil in simp)
next
  case (Cons c s)
  show ?case
  proof (cases s')
    case Nil
    then have "hd (escChar c) = quoteChar" using Cons.prems by (cases "escChar c") auto
    then show ?thesis using escChar_not_quote by blast
  next
    case (Cons d s'')
    then have "escChar c @ (concat (map escChar s) @ quoteChar # r)
      = escChar d @ (concat (map escChar s'') @ quoteChar # r')"
      using Cons.prems by simp
    then have "c = d \<and> concat (map escChar s) @ quoteChar # r = concat (map escChar s'') @ quoteChar # r'"
      by (rule escChar_prefix)
    then show ?thesis using Cons.IH [of s''] Cons by simp
  qed
qed

lemma quote_prefix: "quote s @ r = quote s' @ r' \<Longrightarrow> s = s' \<and> r = r'"
  by (auto simp: quote_def dest: esc_prefix)


text \<open>The first character of a text tells the kind of the value it prints.\<close>

lemma hd_intStr: "numChar (hd (intStr i))" "intStr i \<noteq> []"
  using intStr_numChar [of i] by (auto simp: intStr_def list_all_iff)

fun kindOf :: "jsval \<Rightarrow> nat" where
  "kindOf JUndefined = 0" | "kindOf JNull = 0" | "kindOf JNaN = 0"
| "kindOf (JBool b) = (if b then 1 else 2)" | "kindOf (JNum _) = 3" | "kindOf (JStr _) = 4"
| "kindOf (JArr _) = 5" | "kindOf (JObj _) = 6"

definition kindOfChar :: "char \<Rightarrow> nat" where
  "kindOfChar c = (if numChar c then 3 else if c = quoteChar then 4 else if c = CHR ''['' then 5
     else if c = CHR ''{'' then 6 else if c = CHR ''t'' then 1 else if c = CHR ''f'' then 2
     else if c = CHR ''n'' then 0 else 7)"

lemma not_numChar [simp]:
  "\<not> numChar (CHR ''n'')" "\<not> numChar (CHR ''t'')" "\<not> numChar (CHR ''f'')" "\<not> numChar quoteChar"
  "\<not> numChar (CHR ''['')" "\<not> numChar (CHR ''{'')" "\<not> numChar (CHR '']'')" "\<not> numChar (CHR ''}'')"
  by (simp_all add: numChar_def)

lemma kindOfChar_hd: "kindOfChar (hd (stringify v @ r)) = kindOf v"
proof (cases v)
  case (JNum i)
  then show ?thesis using hd_intStr by (simp add: kindOfChar_def hd_append)
qed (simp_all add: kindOfChar_def quote_def)

lemma stringify_kind: "stringify v @ r = stringify v' @ r' \<Longrightarrow> kindOf v = kindOf v'"
  by (metis kindOfChar_hd)

lemma kindOfChar_close: "kindOfChar (CHR '']'') = 7" "kindOfChar (CHR ''}'') = 7"
  by (simp_all add: kindOfChar_def)

lemma kindOf_less: "kindOf v < 7"
  by (cases v) simp_all

lemma kindOf_inv:
  "kindOf v = 3 \<Longrightarrow> \<exists>i. v = JNum i" "kindOf v = 4 \<Longrightarrow> \<exists>s. v = JStr s"
  "kindOf v = 5 \<Longrightarrow> \<exists>xs. v = JArr xs" "kindOf v = 6 \<Longrightarrow> \<exists>kvs. v = JObj kvs"
  by (cases v; simp split: if_splits)+

lemma stringify_not_close: "stringify v @ r \<noteq> CHR '']'' # r'"
  using kindOfChar_hd [of v r] kindOf_less [of v] kindOfChar_close by (metis less_irrefl list.sel(1))

lemma stringifyProps_empty:
  "jsonOkObj kvs \<Longrightarrow> stringifyProps kvs = [] \<longleftrightarrow> kvs = []"
  by (cases kvs) (auto simp: quote_def split: if_splits)

lemma elems_prefix_step:
  assumes x: "\<And>v' r r'. jsonOk x \<Longrightarrow> jsonOk v' \<Longrightarrow> stringify x @ r = stringify v' @ r' \<Longrightarrow> delim r \<Longrightarrow> delim r'
      \<Longrightarrow> x = v' \<and> r = r'"
    and xs: "\<And>xs' r r'. xs \<noteq> [] \<Longrightarrow> jsonOkArr xs \<Longrightarrow> jsonOkArr xs' \<Longrightarrow>
      stringifyElems xs @ CHR '']'' # r = stringifyElems xs' @ CHR '']'' # r' \<Longrightarrow> xs = xs' \<and> r = r'"
    and prems: "jsonOkArr (x # xs)" "jsonOkArr xs'"
      "stringifyElems (x # xs) @ CHR '']'' # r = stringifyElems xs' @ CHR '']'' # r'"
  shows "x # xs = xs' \<and> r = r'"
proof (cases xs')
  case Nil
  then show ?thesis using prems by (auto simp: stringify_not_close)
next
  case (Cons y ys)
  let ?t = "\<lambda>zs q. (if zs = [] then [] else '','' @ stringifyElems zs) @ CHR '']'' # q"
  have e: "stringify x @ ?t xs r = stringify y @ ?t ys r'" using prems Cons by simp
  have d: "delim (?t zs q)" for zs q by simp
  have "x = y \<and> ?t xs r = ?t ys r'" using x [OF _ _ e d d] prems Cons by simp
  then show ?thesis using xs [of ys r r'] prems Cons by (auto split: if_splits)
qed

lemma props_prefix_step:
  assumes v: "\<And>v' r r'. jsonOk v \<Longrightarrow> jsonOk v' \<Longrightarrow> stringify v @ r = stringify v' @ r' \<Longrightarrow> delim r \<Longrightarrow> delim r'
      \<Longrightarrow> v = v' \<and> r = r'"
    and kvs: "\<And>kvs' r r'. jsonOkObj kvs \<Longrightarrow> jsonOkObj kvs' \<Longrightarrow>
      stringifyProps kvs @ CHR ''}'' # r = stringifyProps kvs' @ CHR ''}'' # r' \<Longrightarrow> kvs = kvs' \<and> r = r'"
    and prems: "jsonOkObj ((k, v) # kvs)" "jsonOkObj kvs'"
      "stringifyProps ((k, v) # kvs) @ CHR ''}'' # r = stringifyProps kvs' @ CHR ''}'' # r'"
  shows "(k, v) # kvs = kvs' \<and> r = r'"
proof (cases kvs')
  case Nil
  then show ?thesis using prems by (cases "v = JUndefined") (auto simp: quote_def)
next
  case (Cons kv kvs'')
  obtain k' w where kv: "kv = (k', w)" by (cases kv)
  have u: "v \<noteq> JUndefined" "w \<noteq> JUndefined" using prems(1,2) Cons kv by auto
  let ?t = "\<lambda>zs q. (if stringifyProps zs = [] then [] else '','' @ stringifyProps zs) @ CHR ''}'' # q"
  have d: "delim (?t zs q)" for zs q by simp
  have "quote k @ '':'' @ stringify v @ ?t kvs r = quote k' @ '':'' @ stringify w @ ?t kvs'' r'"
    using prems(3) u Cons kv by (simp add: Let_def)
  then have k: "k = k'" and e: "stringify v @ ?t kvs r = stringify w @ ?t kvs'' r'"
    by (auto dest!: quote_prefix)
  have vw: "v = w \<and> ?t kvs r = ?t kvs'' r'" using v [OF _ _ e d d] prems Cons kv by simp
  have "kvs = kvs'' \<and> r = r'"
    using kvs [of kvs'' r r'] vw prems Cons kv stringifyProps_empty [of kvs] stringifyProps_empty [of kvs'']
    by (auto split: if_splits)
  then show ?thesis using k vw Cons kv by simp
qed

lemma stringify_prefix:
  "jsonOk v \<Longrightarrow> jsonOk v' \<Longrightarrow> stringify v @ r = stringify v' @ r' \<Longrightarrow> delim r \<Longrightarrow> delim r'
     \<Longrightarrow> v = v' \<and> r = r'"
  "jsonOkArr xs \<Longrightarrow> jsonOkArr xs' \<Longrightarrow> stringifyElems xs @ CHR '']'' # r = stringifyElems xs' @ CHR '']'' # r'
     \<Longrightarrow> xs = xs' \<and> r = r'"
  "jsonOkObj kvs \<Longrightarrow> jsonOkObj kvs' \<Longrightarrow> stringifyProps kvs @ CHR ''}'' # r = stringifyProps kvs' @ CHR ''}'' # r'
     \<Longrightarrow> kvs = kvs' \<and> r = r'"
proof (induction v and xs and kvs arbitrary: v' r r' and xs' r r' and kvs' r r'
    rule: stringify_stringifyElems_stringifyProps.induct)
  case 2
  then show ?case using stringify_kind [OF "2.prems"(3)] by (cases v') (auto split: if_splits)
next
  case (3 b)
  then show ?case
    using stringify_kind [OF "3.prems"(3)] by (cases v') (auto split: if_splits)
next
  case (4 i)
  have "kindOf v' = 3" using stringify_kind [OF "4.prems"(3)] by simp
  then obtain j where j: "v' = JNum j" using kindOf_inv by blast
  show ?case using j "4.prems" by (auto dest: intStr_prefix)
next
  case (6 s)
  have "kindOf v' = 4" using stringify_kind [OF "6.prems"(3)] by simp
  then obtain s' where j: "v' = JStr s'" using kindOf_inv by blast
  show ?case using j "6.prems" by (auto dest: quote_prefix)
next
  case (7 xs)
  have "kindOf v' = 5" using stringify_kind [OF "7.prems"(3)] by simp
  then obtain xs' where j: "v' = JArr xs'" using kindOf_inv by blast
  show ?case using j "7.prems"(1,2,3) "7.IH" [of xs' r r'] by simp
next
  case (8 kvs)
  have "kindOf v' = 6" using stringify_kind [OF "8.prems"(3)] by simp
  then obtain kvs' where j: "v' = JObj kvs'" using kindOf_inv by blast
  show ?case using j "8.prems"(1,2,3) "8.IH" [of kvs' r r'] by simp
next
  case 9
  show ?case
  proof (cases xs')
    case (Cons y ys)
    then show ?thesis using "9.prems"(3) stringify_not_close [of y _ r] by (metis append_Nil append_assoc
      stringifyElems.simps)
  qed (use "9.prems" in simp)
next
  case (10 x xs)
  show ?case by (rule elems_prefix_step [OF "10.IH" "10.prems"])
next
  case 11
  then show ?case
    by (cases kvs') (auto simp: quote_def split: if_splits)
next
  case (12 k v kvs)
  have u: "v \<noteq> JUndefined" using "12.prems"(1) by auto
  show ?case by (rule props_prefix_step [OF "12.IH"(2) [OF u] "12.IH"(3) [OF u] "12.prems"])
qed simp_all

theorem stringify_inj: "jsonOk v \<Longrightarrow> jsonOk w \<Longrightarrow> stringify v = stringify w \<Longrightarrow> v = w"
  using stringify_prefix(1) [of v w "[]" "[]"] by simp

section \<open>Values up to the order of object keys\<close>

text \<open>\<open>isDeepStrictEqual\<close> on these values: arrays elementwise, objects property by property.\<close>

fun jeq :: "jsval \<Rightarrow> jsval \<Rightarrow> bool" and jeqArr :: "jsval list \<Rightarrow> jsval list \<Rightarrow> bool"
  and jeqObj :: "(string \<times> jsval) list \<Rightarrow> (string \<times> jsval) list \<Rightarrow> bool" where
  "jeq (JArr xs) (JArr ys) = jeqArr xs ys"
| "jeq (JObj a) (JObj b) = (length a = length b \<and> jeqObj a b)"
| "jeq v w = (v = w)"
| "jeqArr [] [] = True"
| "jeqArr (x # xs) (y # ys) = (jeq x y \<and> jeqArr xs ys)"
| "jeqArr _ _ = False"
| "jeqObj [] b = True"
| "jeqObj ((k, v) # a) b =
     ((case map_of b k of None \<Rightarrow> False | Some w \<Rightarrow> jeq v w) \<and> jeqObj a b)"

lemma jeqObj_iff:
  "jeqObj a b \<longleftrightarrow> (\<forall>(k, v) \<in> set a. \<exists>w. map_of b k = Some w \<and> jeq v w)"
  by (induction a) (auto split: option.splits)

lemma jeqArr_iff: "jeqArr xs ys \<longleftrightarrow> list_all2 jeq xs ys"
proof (induction xs arbitrary: ys)
  case Nil
  then show ?case by (cases ys) auto
next
  case (Cons x xs)
  then show ?case by (cases ys) auto
qed

lemma jeq_refl [simp]: "jsonOk v \<Longrightarrow> jeq v v"
  "jsonOkArr xs \<Longrightarrow> jeqArr xs xs"
  "jsonOkObj kvs \<Longrightarrow> distinct (map fst kvs) \<Longrightarrow> jeqObj kvs kvs"
proof -
  have "(jsonOk v \<longrightarrow> jeq v v) \<and> True" for v
  proof (induction v)
    case (JArr xs)
    then show ?case by (auto simp: jeqArr_iff jsonOkArr_iff list.rel_refl_strong)
  next
    case (JObj kvs)
    then show ?case
      by (auto simp: jeqObj_iff jsonOkObj_iff) (metis (mono_tags, lifting) case_prodD snds.intros
          snd_conv)+
  qed auto
  then have v: "jsonOk v \<Longrightarrow> jeq v v" for v by blast
  show "jsonOk v \<Longrightarrow> jeq v v" by (rule v)
  show "jsonOkArr xs \<Longrightarrow> jeqArr xs xs"
    by (auto simp: jeqArr_iff jsonOkArr_iff v intro: list.rel_refl_strong)
  show "jsonOkObj kvs \<Longrightarrow> distinct (map fst kvs) \<Longrightarrow> jeqObj kvs kvs"
    by (fastforce simp: jeqObj_iff jsonOkObj_iff intro: v)
qed

text \<open>Sorting the properties of every object by a key order, as the canonical forms do.\<close>

fun insBy :: "(string \<Rightarrow> string \<Rightarrow> bool) \<Rightarrow> (string \<times> 'v) \<Rightarrow> (string \<times> 'v) list \<Rightarrow> (string \<times> 'v) list"
where
  "insBy le kv [] = [kv]"
| "insBy le kv (x # xs) = (if le (fst kv) (fst x) then kv # x # xs else x # insBy le kv xs)"

definition sortBy :: "(string \<Rightarrow> string \<Rightarrow> bool) \<Rightarrow> (string \<times> 'v) list \<Rightarrow> (string \<times> 'v) list" where
  "sortBy le kvs = foldr (insBy le) kvs []"

fun sortKeysBy :: "(string \<Rightarrow> string \<Rightarrow> bool) \<Rightarrow> jsval \<Rightarrow> jsval"
  and sortKeysArr :: "(string \<Rightarrow> string \<Rightarrow> bool) \<Rightarrow> jsval list \<Rightarrow> jsval list"
  and sortKeysProps :: "(string \<Rightarrow> string \<Rightarrow> bool) \<Rightarrow> (string \<times> jsval) list \<Rightarrow> (string \<times> jsval) list" where
  "sortKeysBy le (JArr xs) = JArr (sortKeysArr le xs)"
| "sortKeysBy le (JObj kvs) = JObj (sortBy le (sortKeysProps le kvs))"
| "sortKeysBy le v = v"
| "sortKeysArr le [] = []"
| "sortKeysArr le (x # xs) = sortKeysBy le x # sortKeysArr le xs"
| "sortKeysProps le [] = []"
| "sortKeysProps le ((k, v) # kvs) = (k, sortKeysBy le v) # sortKeysProps le kvs"

lemma set_insBy [simp]: "set (insBy le kv xs) = insert kv (set xs)"
  by (induction xs) auto

lemma set_sortBy [simp]: "set (sortBy le kvs) = set kvs"
  by (induction kvs) (auto simp: sortBy_def)

lemma length_insBy [simp]: "length (insBy le kv xs) = Suc (length xs)"
  by (induction xs) auto

lemma length_sortBy [simp]: "length (sortBy le kvs) = length kvs"
  by (induction kvs) (auto simp: sortBy_def)

lemma distinct_insBy: "distinct (map fst (insBy le kv xs)) \<longleftrightarrow> fst kv \<notin> fst ` set xs \<and> distinct (map fst xs)"
  by (induction xs) auto

lemma distinct_sortBy [simp]: "distinct (map fst (sortBy le kvs)) \<longleftrightarrow> distinct (map fst kvs)"
proof (induction kvs)
  case (Cons kv kvs)
  then show ?case using set_sortBy [of le kvs] by (simp add: sortBy_def distinct_insBy)
qed (simp add: sortBy_def)

lemma sortKeysArr_map: "sortKeysArr le xs = map (sortKeysBy le) xs"
  by (induction xs) auto

lemma sortKeysProps_map: "sortKeysProps le kvs = map (\<lambda>(k, v). (k, sortKeysBy le v)) kvs"
  by (induction kvs) auto

lemma fst_sortKeysProps [simp]: "map fst (sortKeysProps le kvs) = map fst kvs"
  by (induction kvs) auto

lemma jsonOk_sortKeys [simp]:
  "jsonOk (sortKeysBy le v) = jsonOk v"
  "jsonOkArr (sortKeysArr le xs) = jsonOkArr xs"
  "jsonOkObj (sortKeysProps le kvs) = jsonOkObj kvs"
  by (induction le v and le xs and le kvs rule: sortKeysBy_sortKeysArr_sortKeysProps.induct)
    (auto simp: jsonOkObj_iff)

text \<open>Equal sorted forms mean deeply equal values, whatever the key order sorts by.\<close>

lemma jeq_kind: "jeq v w \<Longrightarrow> kindOf v = kindOf w"
  by (cases v; cases w) auto

lemma sortKeys_eq_jeq:
  "jsonOk v \<Longrightarrow> jsonOk w \<Longrightarrow> sortKeysBy le v = sortKeysBy le w \<Longrightarrow> jeq v w"
proof (induction v arbitrary: w)
  case (JArr xs)
  then obtain ys where w: "w = JArr ys" by (cases w) auto
  then have e: "map (sortKeysBy le) xs = map (sortKeysBy le) ys"
    using JArr.prems(3) by (simp add: sortKeysArr_map)
  then have "length xs = length ys" by (rule map_eq_imp_length_eq)
  moreover have "jeq (xs ! i) (ys ! i)" if "i < length xs" for i
    using that JArr.IH [of "xs ! i" "ys ! i"] JArr.prems(1,2) e w \<open>length xs = length ys\<close>
    by (auto simp: jsonOkArr_iff) (metis nth_map)
  ultimately show ?case using w by (simp add: jeqArr_iff list_all2_conv_all_nth)
next
  case (JObj a)
  then obtain b where w: "w = JObj b" by (cases w) auto
  have d: "distinct (map fst a)" "distinct (map fst b)" using JObj.prems w by auto
  have e: "sortBy le (sortKeysProps le a) = sortBy le (sortKeysProps le b)"
    using JObj.prems(3) w by simp
  have s: "set (sortKeysProps le a) = set (sortKeysProps le b)"
    using arg_cong [OF e, of set] by simp
  have l: "length a = length b"
    using arg_cong [OF e, of length] by (simp add: sortKeysProps_map)
  have "\<exists>w. map_of b k = Some w \<and> jeq v w" if kv: "(k, v) \<in> set a" for k v
  proof -
    have "(k, sortKeysBy le v) \<in> set (sortKeysProps le b)"
      using imageI [OF kv, of "\<lambda>(k, v). (k, sortKeysBy le v)"] unfolding s [symmetric]
      by (simp add: sortKeysProps_map)
    then obtain u where u: "(k, u) \<in> set b" "sortKeysBy le u = sortKeysBy le v"
      by (auto simp: sortKeysProps_map)
    have "jsonOk v" "jsonOk u"
      using JObj.prems(1,2) kv u(1) w by (auto simp: jsonOkObj_iff)
    then have "jeq v u"
      using JObj.IH [OF kv, of v u] u(2) by simp
    then show ?thesis using u d by auto
  qed
  then show ?case using l w by (auto simp: jeqObj_iff)
qed (case_tac w; simp)+

text \<open>For a total order the converse holds too, so sorting decides deep equality.\<close>

definition totalLe :: "(string \<Rightarrow> string \<Rightarrow> bool) \<Rightarrow> bool" where
  "totalLe le \<longleftrightarrow> (\<forall>a b. le a b \<or> le b a) \<and> (\<forall>a b c. le a b \<longrightarrow> le b c \<longrightarrow> le a c)
     \<and> (\<forall>a b. le a b \<longrightarrow> le b a \<longrightarrow> a = b)"

lemma length_sortKeysProps [simp]: "length (sortKeysProps le kvs) = length kvs"
  by (simp add: sortKeysProps_map)

lemma sorted_insBy:
  assumes "totalLe le" "sorted_wrt (\<lambda>x y. le (fst x) (fst y)) xs"
  shows "sorted_wrt (\<lambda>x y. le (fst x) (fst y)) (insBy le kv xs)"
  using assms(2)
proof (induction xs)
  case (Cons x xs)
  then show ?case
    using assms(1) unfolding totalLe_def by (auto intro: Cons.IH)
qed simp

lemma sorted_sortBy: "totalLe le \<Longrightarrow> sorted_wrt (\<lambda>x y. le (fst x) (fst y)) (sortBy le kvs)"
  by (induction kvs) (auto simp: sortBy_def intro: sorted_insBy)

lemma sorted_wrt_unique:
  assumes "totalLe le"
    and "sorted_wrt (\<lambda>x y. le (fst x) (fst y)) xs" "sorted_wrt (\<lambda>x y. le (fst x) (fst y)) ys"
    and "distinct (map fst xs)" "distinct (map fst ys)" "set xs = set ys"
  shows "xs = ys"
  using assms(2-)
proof (induction xs arbitrary: ys)
  case (Cons x xs)
  then obtain y ys' where ys: "ys = y # ys'" by (cases ys) auto
  have "le (fst x) (fst y)" if "x \<noteq> y" using Cons.prems ys that by auto
  moreover have "le (fst y) (fst x)" if "x \<noteq> y" using Cons.prems ys that by auto
  ultimately have f: "fst x = fst y"
    using assms(1) unfolding totalLe_def by blast
  have "x = y"
  proof (rule ccontr)
    assume ne: "x \<noteq> y"
    then have "y \<in> set xs" using Cons.prems(5) ys by auto
    then show False using Cons.prems(3) f by (auto simp: image_iff)
  qed
  moreover have "x \<notin> set xs" "y \<notin> set ys'"
    using Cons.prems(3,4) ys by (auto simp: image_iff)
  then have "set xs = set ys'" using Cons.prems(5) ys \<open>x = y\<close> by auto
  ultimately show ?case using Cons.IH [of ys'] Cons.prems ys by simp
qed simp

lemma jeq_sortKeys_eq:
  assumes le: "totalLe le"
  shows "jsonOk v \<Longrightarrow> jsonOk w \<Longrightarrow> jeq v w \<Longrightarrow> sortKeysBy le v = sortKeysBy le w"
proof (induction v arbitrary: w)
  case (JArr xs)
  then obtain ys where w: "w = JArr ys" by (cases w) auto
  then have "list_all2 jeq xs ys" using JArr.prems(3) by (simp add: jeqArr_iff)
  then have "length xs = length ys" "\<forall>i < length xs. jeq (xs ! i) (ys ! i)"
    by (auto simp: list_all2_conv_all_nth)
  moreover have "sortKeysBy le (xs ! i) = sortKeysBy le (ys ! i)" if "i < length xs" for i
    using that JArr.IH [OF nth_mem, of i "ys ! i"] JArr.prems(1,2) calculation w
    by (auto simp: jsonOkArr_iff)
  ultimately show ?case using w by (auto simp: sortKeysArr_map intro: nth_equalityI)
next
  case (JObj a)
  then obtain b where w: "w = JObj b" by (cases w) auto
  have d: "distinct (map fst a)" "distinct (map fst b)" using JObj.prems w by auto
  have l: "length a = length b" and ab: "\<And>k v. (k, v) \<in> set a \<Longrightarrow> \<exists>u. (k, u) \<in> set b \<and> jeq v u"
    using JObj.prems(3) w by (auto simp: jeqObj_iff dest!: map_of_SomeD) 
  have sub: "set (sortKeysProps le a) \<subseteq> set (sortKeysProps le b)"
  proof (clarsimp simp: sortKeysProps_map)
    fix k v assume kv: "(k, v) \<in> set a"
    then obtain u where u: "(k, u) \<in> set b" "jeq v u" using ab by blast
    have "jsonOk v" "jsonOk u" using JObj.prems(1,2) kv u(1) w by (auto simp: jsonOkObj_iff)
    then have "sortKeysBy le v = sortKeysBy le u" using JObj.IH [OF kv, of v u] u(2) by simp
    then show "(k, sortKeysBy le v) \<in> (\<lambda>(k, v). (k, sortKeysBy le v)) ` set b" using u(1) by force
  qed
  have dp: "distinct (map fst (sortKeysProps le a))" "distinct (map fst (sortKeysProps le b))"
    using d by simp_all
  have "distinct (sortKeysProps le a)" "distinct (sortKeysProps le b)"
    using dp by (metis distinct_map)+
  then have "card (set (sortKeysProps le a)) = card (set (sortKeysProps le b))"
    using l by (simp add: distinct_card)
  then have "set (sortKeysProps le a) = set (sortKeysProps le b)"
    using sub by (simp add: card_subset_eq)
  then have "sortBy le (sortKeysProps le a) = sortBy le (sortKeysProps le b)"
    using le dp by (intro sorted_wrt_unique [of le]) (auto intro: sorted_sortBy)
  then show ?case using w by simp
qed (case_tac w; simp)+


section \<open>Canonical text and digest\<close>

text \<open>
  What may reach \<open>runtimePolicyDigest(input: unknown)\<close>: any JavaScript value.  An array has a list
  of elements, None where it has a hole; an object has a prototype and the list of its own
  enumerable properties with string keys, which is what \<open>Object.keys\<close> and a read see (an accessor
  counts as the value it returns).  \<open>Js_nonfinite\<close> is \<open>NaN\<close> and the infinities; a prototype other
  than \<open>Object.prototype\<close> and null is that of a class such as \<open>Date\<close>, \<open>Map\<close> or \<open>Error\<close>.  Cyclic
  values, on which the code overflows the stack, are left out.
\<close>

datatype JsPrototype = Proto_Object | Proto_null | Proto_class string

datatype JsValue =
    Js_undefined
  | Js_null
  | Js_boolean bool
  | Js_number int
  | Js_nonfinite
  | Js_bigint int
  | Js_string string
  | Js_symbol
  | Js_function
  | Js_array "JsValue option list"
  | Js_object JsPrototype "(string \<times> JsValue) list"

fun joinComma :: "string list \<Rightarrow> string" where
  "joinComma [] = []"
| "joinComma (s # ss) = s @ (if ss = [] then [] else '','' @ joinComma ss)"

text \<open>
  The inner function \<open>canonical\<close>: scalars as \<open>JSON.stringify\<close> prints them; arrays in order, after
  the loop that refuses a hole; plain objects with their keys in code-unit order; everything else
  throws.  \<open>map\<close> leaves a hole in its result and \<open>join\<close> prints it as the empty text.  The texts of
  the properties are computed before their keys are sorted; the code sorts first, and can fail
  with one error only.
\<close>

definition nonJsonBinding :: exn where
  "nonJsonBinding = RuntimePolicyError ''non_json_binding''"

fun canonicalInput :: "JsValue \<Rightarrow> string result"
  and canonicalInputElems :: "JsValue option list \<Rightarrow> string list result"
  and canonicalInputProps :: "(string \<times> JsValue) list \<Rightarrow> (string \<times> string) list result" where
  "canonicalInput Js_null = Inr ''null''"
| "canonicalInput (Js_string s) = Inr (quote s)"
| "canonicalInput (Js_boolean b) = Inr (if b then ''true'' else ''false'')"
| "canonicalInput (Js_number n) = Inr (intStr n)"
| "canonicalInput (Js_array xs) =
     (if list_ex (\<lambda>x. x = None) xs then Inl nonJsonBinding
      else andThen (canonicalInputElems xs) (\<lambda>ts. Inr (''['' @ joinComma ts @ '']'')))"
| "canonicalInput (Js_object proto kvs) =
     (if proto = Proto_Object
      then andThen (canonicalInputProps kvs)
        (\<lambda>ps. Inr (''{'' @ joinComma (map (\<lambda>(k, t). quote k @ '':'' @ t) (sortBy (\<le>) ps)) @ ''}''))
      else Inl nonJsonBinding)"
| "canonicalInput Js_undefined = Inl nonJsonBinding"
| "canonicalInput Js_nonfinite = Inl nonJsonBinding"
| "canonicalInput (Js_bigint i) = Inl nonJsonBinding"
| "canonicalInput Js_symbol = Inl nonJsonBinding"
| "canonicalInput Js_function = Inl nonJsonBinding"
| "canonicalInputElems [] = Inr []"
| "canonicalInputElems (None # xs) = andThen (canonicalInputElems xs) (\<lambda>ts. Inr ([] # ts))"
| "canonicalInputElems (Some x # xs) =
     andThen (canonicalInput x) (\<lambda>t. andThen (canonicalInputElems xs) (\<lambda>ts. Inr (t # ts)))"
| "canonicalInputProps [] = Inr []"
| "canonicalInputProps ((k, v) # kvs) =
     andThen (canonicalInput v) (\<lambda>t. andThen (canonicalInputProps kvs) (\<lambda>ps. Inr ((k, t) # ps)))"

text \<open>
  The values of \<open>jsval\<close> are JavaScript values without holes and foreign objects, as the schemas of
  the callers return them; \<open>canonical\<close> is the function on them.
\<close>

primrec jsOf :: "jsval \<Rightarrow> JsValue" where
  "jsOf JUndefined = Js_undefined"
| "jsOf JNull = Js_null"
| "jsOf (JBool b) = Js_boolean b"
| "jsOf (JNum n) = Js_number n"
| "jsOf JNaN = Js_nonfinite"
| "jsOf (JStr s) = Js_string s"
| "jsOf (JArr xs) = Js_array (map Some (map jsOf xs))"
| "jsOf (JObj kvs) = Js_object Proto_Object (map (map_prod (\<lambda>k. k) jsOf) kvs)"

definition canonical :: "jsval \<Rightarrow> string result" where
  "canonical v = canonicalInput (jsOf v)"

lemma map_Some_whole [simp]: "\<not> list_ex (\<lambda>x. x = None) (map Some xs)"
  by (induction xs) auto

lemma canonical_scalar [simp]:
  "canonical JNull = Inr ''null''" "canonical (JStr s) = Inr (quote s)"
  "canonical (JBool b) = Inr (if b then ''true'' else ''false'')" "canonical (JNum n) = Inr (intStr n)"
  "canonical JUndefined = Inl nonJsonBinding" "canonical JNaN = Inl nonJsonBinding"
  by (simp_all add: canonical_def)

lemma canonicalInputElems_jsOf [simp]:
  "canonicalInputElems (map Some (map jsOf (x # xs))) =
     andThen (canonical x) (\<lambda>t. andThen (canonicalInputElems (map Some (map jsOf xs))) (\<lambda>ts. Inr (t # ts)))"
  by (simp add: canonical_def)

lemma canonicalInputProps_jsOf [simp]:
  "canonicalInputProps (map (map_prod (\<lambda>k. k) jsOf) ((k, v) # kvs)) =
     andThen (canonical v) (\<lambda>t. andThen (canonicalInputProps (map (map_prod (\<lambda>k. k) jsOf) kvs)) (\<lambda>ps. Inr ((k, t) # ps)))"
  by (simp add: canonical_def)

lemma canonical_compound:
  "canonical (JArr xs) = andThen (canonicalInputElems (map Some (map jsOf xs))) (\<lambda>ts. Inr (''['' @ joinComma ts @ '']''))"
  "canonical (JObj kvs) = andThen (canonicalInputProps (map (map_prod (\<lambda>k. k) jsOf) kvs))
     (\<lambda>ps. Inr (''{'' @ joinComma (map (\<lambda>(k, t). quote k @ '':'' @ t) (sortBy (\<le>) ps)) @ ''}''))"
  by (simp_all add: canonical_def del: map_map)

lemma stringifyElems_join: "stringifyElems xs = joinComma (map stringify xs)"
  by (induction xs) auto

lemma joinComma_eq_Nil: "[] \<notin> set ss \<Longrightarrow> joinComma ss = [] \<longleftrightarrow> ss = []"
  by (cases ss) auto

lemma stringifyProps_join:
  "jsonOkObj kvs \<Longrightarrow> stringifyProps kvs = joinComma (map (\<lambda>(k, v). quote k @ '':'' @ stringify v) kvs)"
proof (induction kvs)
  case (Cons kv kvs)
  obtain k v where kv: "kv = (k, v)" by (cases kv)
  have "[] \<notin> set (map (\<lambda>(k, v). quote k @ '':'' @ stringify v) kvs)" by (auto simp: quote_def)
  then show ?case using Cons kv by (auto simp: Let_def joinComma_eq_Nil)
qed simp

lemma sortBy_map_snd: "sortBy le (map (\<lambda>(k, v). (k, f v)) kvs) = map (\<lambda>(k, v). (k, f v)) (sortBy le kvs)"
proof -
  have ins: "insBy le (k, f v) (map (\<lambda>(k, v). (k, f v)) xs) = map (\<lambda>(k, v). (k, f v)) (insBy le (k, v) xs)"
    for k v xs by (induction xs) auto
  show ?thesis by (induction kvs) (auto simp: sortBy_def ins)
qed

lemma jsonOkObj_sortBy [simp]: "jsonOkObj (sortBy le kvs) = jsonOkObj kvs"
  by (simp add: jsonOkObj_iff)

text \<open>The canonical text is the \<open>JSON.stringify\<close> text of the value with sorted keys.\<close>

lemma canonical_stringify:
  "jsonOk v \<Longrightarrow> canonical v = Inr (stringify (sortKeysBy (\<le>) v))"
  "jsonOkArr xs \<Longrightarrow> canonicalInputElems (map Some (map jsOf xs)) = Inr (map stringify (sortKeysArr (\<le>) xs))"
  "jsonOkObj kvs \<Longrightarrow> canonicalInputProps (map (map_prod (\<lambda>k. k) jsOf) kvs) =
     Inr (map (\<lambda>(k, v). (k, stringify v)) (sortKeysProps (\<le>) kvs))"
proof (induction v and xs and kvs rule: jsonOk_jsonOkArr_jsonOkObj.induct)
  case (3 xs)
  then show ?case by (simp add: canonical_compound stringifyElems_join del: map_map)
next
  case (4 kvs)
  then show ?case
    by (simp add: canonical_compound stringifyProps_join sortBy_map_snd [unfolded case_prod_unfold] case_prod_unfold
        del: map_map) (simp add: comp_def)
next
  case (7 x xs)
  then show ?case by (simp del: map_map list.map(2) canonicalInputElems.simps) simp
next
  case (9 k v kvs)
  then show ?case by (simp del: map_map list.map(2) canonicalInputProps.simps) simp
qed simp_all

theorem canonical_determines:
  assumes "jsonOk v" "jsonOk w"
  shows "canonical v = canonical w \<longleftrightarrow> jeq v w"
proof -
  have le: "totalLe ((\<le>) :: string \<Rightarrow> _)" by (auto simp: totalLe_def)
  have "canonical v = canonical w \<longleftrightarrow> sortKeysBy (\<le>) v = sortKeysBy (\<le>) w"
    using assms by (auto simp: canonical_stringify dest: stringify_inj [rotated 2])
  also have "\<dots> \<longleftrightarrow> jeq v w"
    using sortKeys_eq_jeq jeq_sortKeys_eq [OF le] assms by blast
  finally show ?thesis .
qed

section \<open>SHA-256\<close>

text \<open>\<open>createHash('sha256').update(text).digest('hex')\<close>: the text is hashed as UTF-8 bytes.\<close>

definition utf8 :: "string \<Rightarrow> nat list" where
  "utf8 s = concat (map (\<lambda>c. let n = (of_char c :: nat) in
     if n < 128 then [n] else [192 + n div 64, 128 + n mod 64]) s)"

definition sha256K :: "32 word list" where
  "sha256K = [
    1116352408, 1899447441, 3049323471, 3921009573, 961987163, 1508970993, 2453635748, 2870763221,
    3624381080, 310598401, 607225278, 1426881987, 1925078388, 2162078206, 2614888103, 3248222580,
    3835390401, 4022224774, 264347078, 604807628, 770255983, 1249150122, 1555081692, 1996064986,
    2554220882, 2821834349, 2952996808, 3210313671, 3336571891, 3584528711, 113926993, 338241895,
    666307205, 773529912, 1294757372, 1396182291, 1695183700, 1986661051, 2177026350, 2456956037,
    2730485921, 2820302411, 3259730800, 3345764771, 3516065817, 3600352804, 4094571909, 275423344,
    430227734, 506948616, 659060556, 883997877, 958139571, 1322822218, 1537002063, 1747873779,
    1955562222, 2024104815, 2227730452, 2361852424, 2428436474, 2756734187, 3204031479, 3329325298]"

definition sha256Init :: "32 word list" where
  "sha256Init = [1779033703, 3144134277, 1013904242, 2773480762, 1359893119, 2600822924, 528734635, 1541459225]"

definition beBytes :: "nat \<Rightarrow> nat \<Rightarrow> nat list" where
  "beBytes len n = map (\<lambda>i. (n div 256 ^ (len - 1 - i)) mod 256) [0..<len]"

definition sha256Pad :: "nat list \<Rightarrow> nat list" where
  "sha256Pad m = (let z = (119 - length m mod 64) mod 64 in
     m @ [128] @ replicate z 0 @ beBytes 8 (8 * length m))"

fun words32 :: "nat list \<Rightarrow> 32 word list" where
  "words32 (a # b # c # d # rest) =
     of_nat (((a * 256 + b) * 256 + c) * 256 + d) # words32 rest"
| "words32 _ = []"

definition sched1 :: "32 word list \<Rightarrow> 32 word" where
  \<comment> \<open>the next schedule word, from the list of earlier ones, latest first\<close>
  "sched1 w = (let a = w ! 14; b = w ! 1 in
     (word_rotr 17 b XOR word_rotr 19 b XOR drop_bit 10 b) + w ! 6
      + (word_rotr 7 a XOR word_rotr 18 a XOR drop_bit 3 a) + w ! 15)"

fun schedule :: "nat \<Rightarrow> 32 word list \<Rightarrow> 32 word list" where
  "schedule 0 w = rev w"
| "schedule (Suc n) w = schedule n (sched1 w # w)"

fun sha256Round :: "32 word list \<Rightarrow> 32 word \<times> 32 word \<Rightarrow> 32 word list" where
  "sha256Round [a, b, c, d, e, f, g, h] (k, w) =
     (let t1 = h + (word_rotr 6 e XOR word_rotr 11 e XOR word_rotr 25 e)
          + ((e AND f) XOR (NOT e AND g)) + k + w;
        t2 = (word_rotr 2 a XOR word_rotr 13 a XOR word_rotr 22 a)
          + ((a AND b) XOR (a AND c) XOR (b AND c))
      in [t1 + t2, a, b, c, d + t1, e, f, g])"
| "sha256Round s _ = s"

definition sha256Block :: "32 word list \<Rightarrow> 32 word list \<Rightarrow> 32 word list" where
  "sha256Block h block =
     map2 (+) h (foldl sha256Round h (zip sha256K (schedule 48 (rev block))))"

fun sha256Blocks :: "nat \<Rightarrow> 32 word list \<Rightarrow> 32 word list \<Rightarrow> 32 word list" where
  "sha256Blocks 0 h ws = h"
| "sha256Blocks (Suc n) h ws = sha256Blocks n (sha256Block h (take 16 ws)) (drop 16 ws)"

definition hexWord :: "32 word \<Rightarrow> string" where
  "hexWord w = map (\<lambda>i. hexChar (unat w div 16 ^ (7 - i) mod 16)) [0..<8]"

definition sha256hex :: "string \<Rightarrow> string" where
  "sha256hex s = (let ws = words32 (sha256Pad (utf8 s)) in
     concat (map hexWord (sha256Blocks (length ws div 16) sha256Init ws)))"

definition digestInput :: "JsValue \<Rightarrow> string result" where
  "digestInput input = andThen (canonicalInput input) (\<lambda>t. Inr (''sha256:'' @ sha256hex t))"

text \<open>The digest of a value that came out of a schema, as the other theories use it.\<close>

definition runtimePolicyDigest :: "jsval \<Rightarrow> string result" where
  "runtimePolicyDigest v = digestInput (jsOf v)"

lemma runtimePolicyDigest_def2:
  "runtimePolicyDigest v = andThen (canonical v) (\<lambda>t. Inr (''sha256:'' @ sha256hex t))"
  by (simp add: runtimePolicyDigest_def digestInput_def canonical_def)

lemma length8: "length xs = 8 \<Longrightarrow> \<exists>a b c d e f g h. xs = [a, b, c, d, e, f, g, h]"
  by (auto simp: length_Suc_conv numeral_eq_Suc)

lemma length_sha256Round: "length s = 8 \<Longrightarrow> length (sha256Round s kw) = 8"
  by (cases kw) (auto dest!: length8 simp: Let_def)

lemma length_foldl_round: "length s = 8 \<Longrightarrow> length (foldl sha256Round s kws) = 8"
  by (induction kws arbitrary: s) (auto simp: length_sha256Round)

lemma length_sha256Block: "length h = 8 \<Longrightarrow> length (sha256Block h b) = 8"
  by (simp add: sha256Block_def length_foldl_round)

lemma length_sha256Blocks: "length h = 8 \<Longrightarrow> length (sha256Blocks n h ws) = 8"
  by (induction n arbitrary: h ws) (auto simp: length_sha256Block)

lemma hexChar_isHexLower: "n < 16 \<Longrightarrow> isHexLower (hexChar n)"
  unfolding isHexLower_def hexChar_def by (rule nth_mem) simp

lemma hexWord_props: "length (hexWord w) = 8" "list_all isHexLower (hexWord w)"
  by (auto simp: hexWord_def list_all_iff intro: hexChar_isHexLower)

lemma concat_hexWord:
  "length (concat (map hexWord ws)) = 8 * length ws" "list_all isHexLower (concat (map hexWord ws))"
  by (induction ws) (auto simp: hexWord_props)

lemma sha256hex_props: "length (sha256hex s) = 64" "list_all isHexLower (sha256hex s)"
  by (simp_all add: sha256hex_def Let_def concat_hexWord length_sha256Blocks sha256Init_def)

lemma digestInput_checksum: "digestInput v = Inr d \<Longrightarrow> checksumOk d"
  by (auto simp: digestInput_def andThen_Inr_iff checksumOk_def sha256hex_props)

lemma runtimePolicyDigest_checksum: "runtimePolicyDigest v = Inr d \<Longrightarrow> checksumOk d"
  by (simp add: runtimePolicyDigest_def digestInput_checksum)

lemma runtimePolicyDigest_ok: "jsonOk v \<Longrightarrow> \<exists>d. runtimePolicyDigest v = Inr d"
  by (simp add: runtimePolicyDigest_def2 canonical_stringify)

section \<open>Reading properties of an unknown value\<close>

text \<open>
  The building blocks of \<open>z.object({...}).strict()\<close> on an unknown value: the value is an object
  and has no property outside the schema; a missing property reads as undefined.
\<close>

definition strictObject :: "string list \<Rightarrow> jsval \<Rightarrow> bool" where
  "strictObject ks v = (case v of JObj kvs \<Rightarrow> list_all (\<lambda>(k, _). k \<in> set ks) kvs | _ \<Rightarrow> False)"

fun decStr :: "jsval \<Rightarrow> string option" where
  "decStr (JStr s) = Some s" | "decStr _ = None"

fun decInt :: "jsval \<Rightarrow> int option" where
  "decInt (JNum n) = Some n" | "decInt _ = None"

fun decBool :: "jsval \<Rightarrow> bool option" where
  "decBool (JBool b) = Some b" | "decBool _ = None"

definition decNullable :: "(jsval \<Rightarrow> 'a option) \<Rightarrow> jsval \<Rightarrow> 'a option option" where
  "decNullable d v = (if v = JNull then Some None else map_option Some (d v))"

definition decEnum :: "(string \<times> 'a) list \<Rightarrow> jsval \<Rightarrow> 'a option" where
  "decEnum tbl v = (case v of JStr s \<Rightarrow> map_of tbl s | _ \<Rightarrow> None)"

lemma decNullable_jOpt [simp]:
  "decNullable decStr (jOpt JStr x) = Some x"
  by (cases x) (simp_all add: decNullable_def jOpt_def)


section \<open>Properties\<close>

text \<open>
  What JSON has no text for, judged on one value without looking into its parts, and the parts of
  a value: itself, and the parts of its elements and of its property values.
\<close>

fun nonJson :: "JsValue \<Rightarrow> bool" where
  "nonJson (Js_array xs) \<longleftrightarrow> None \<in> set xs"
| "nonJson (Js_object proto kvs) \<longleftrightarrow> proto \<noteq> Proto_Object"
| "nonJson v \<longleftrightarrow> v \<in> {Js_undefined, Js_nonfinite, Js_symbol, Js_function} \<or> (\<exists>i. v = Js_bigint i)"

inductive partOf :: "JsValue \<Rightarrow> JsValue \<Rightarrow> bool" where
  part_self: "partOf v v"
| part_elem: "partOf v x \<Longrightarrow> Some x \<in> set xs \<Longrightarrow> partOf v (Js_array xs)"
| part_prop: "partOf v x \<Longrightarrow> (k, x) \<in> set kvs \<Longrightarrow> partOf v (Js_object proto kvs)"

inductive_simps partOf_array: "partOf v (Js_array xs)"
inductive_simps partOf_object: "partOf v (Js_object proto kvs)"
inductive_simps partOf_scalar:
  "partOf v Js_undefined" "partOf v Js_null" "partOf v (Js_boolean b)" "partOf v (Js_number n)"
  "partOf v Js_nonfinite" "partOf v (Js_bigint i)" "partOf v (Js_string s)" "partOf v Js_symbol" "partOf v Js_function"

definition pureJson :: "JsValue \<Rightarrow> bool" where
  "pureJson v \<longleftrightarrow> (\<forall>w. partOf w v \<longrightarrow> \<not> nonJson w)"

lemma pureJson_array: "pureJson (Js_array xs) \<longleftrightarrow> None \<notin> set xs \<and> (\<forall>x. Some x \<in> set xs \<longrightarrow> pureJson x)"
  by (auto simp: pureJson_def partOf_array)

lemma pureJson_object: "pureJson (Js_object proto kvs) \<longleftrightarrow> proto = Proto_Object \<and> (\<forall>(k, x) \<in> set kvs. pureJson x)"
  unfolding pureJson_def partOf_object Ball_def split_paired_All prod.case by (metis nonJson.simps(2))

lemma canonicalInput_returns:
  "(\<exists>t. canonicalInput v = Inr t) \<longleftrightarrow> pureJson v"
  "(\<exists>t. canonicalInputElems xs = Inr t) \<longleftrightarrow> (\<forall>x. Some x \<in> set xs \<longrightarrow> pureJson x)"
  "(\<exists>t. canonicalInputProps kvs = Inr t) \<longleftrightarrow> (\<forall>(k, x) \<in> set kvs. pureJson x)"
proof (induction v and xs and kvs rule: canonicalInput_canonicalInputElems_canonicalInputProps.induct)
  case (5 xs)
  then show ?case by (auto simp: pureJson_array andThen_Inr_iff list_ex_iff)
next
  case (6 proto kvs)
  then show ?case by (cases "proto = Proto_Object") (auto simp: pureJson_object andThen_Inr_iff)
next
  case (14 x xs)
  have "(\<forall>y. Some y \<in> set (Some x # xs) \<longrightarrow> pureJson y) \<longleftrightarrow> pureJson x \<and> (\<forall>y. Some y \<in> set xs \<longrightarrow> pureJson y)"
    by auto
  with 14 show ?case by (cases "canonicalInput x") (auto simp: andThen_Inr_iff)
next
  case (16 k v kvs)
  then show ?case by (cases "canonicalInput v") (auto simp: andThen_Inr_iff)
qed (auto simp: pureJson_def partOf_scalar andThen_Inr_iff)

lemma canonicalInput_throws:
  "canonicalInput v = Inl e \<Longrightarrow> e = nonJsonBinding"
  "canonicalInputElems xs = Inl e \<Longrightarrow> e = nonJsonBinding"
  "canonicalInputProps kvs = Inl e \<Longrightarrow> e = nonJsonBinding"
  by (induction v and xs and kvs rule: canonicalInput_canonicalInputElems_canonicalInputProps.induct)
    (auto simp: andThen_Inl_iff split: if_splits)

lemma pureJson_jsOf: "pureJson v \<Longrightarrow> \<exists>j. v = jsOf j"
proof (induction v)
  case (Js_array xs)
  have "\<forall>x \<in> set xs. \<exists>j. x = Some (jsOf j)"
  proof
    fix x assume x: "x \<in> set xs"
    then obtain y where y: "x = Some y" using Js_array.prems unfolding pureJson_array by (metis option.exhaust)
    then have "pureJson y" using Js_array.prems x by (auto simp: pureJson_array)
    then show "\<exists>j. x = Some (jsOf j)" using Js_array.IH [OF x, of y] y by auto
  qed
  then obtain js where "xs = map (\<lambda>j. Some (jsOf j)) js" using ex_map_conv [of xs "\<lambda>j. Some (jsOf j)"] by blast
  then have "Js_array xs = jsOf (JArr js)" by simp
  then show ?case by blast
next
  case (Js_object proto kvs)
  have "\<forall>x \<in> set kvs. \<exists>q. x = map_prod (\<lambda>k. k) jsOf q"
  proof
    fix x assume x: "x \<in> set kvs"
    then have "pureJson (snd x)" using Js_object.prems by (auto simp: pureJson_object)
    then obtain j where "snd x = jsOf j" using Js_object.IH [OF x, of "snd x"] by (auto simp: snds.simps)
    then have "x = map_prod (\<lambda>k. k) jsOf (fst x, j)" by (cases x) simp
    then show "\<exists>q. x = map_prod (\<lambda>k. k) jsOf q" by blast
  qed
  then obtain qs where "kvs = map (map_prod (\<lambda>k. k) jsOf) qs" using ex_map_conv [of kvs "map_prod (\<lambda>k. k) jsOf"] by blast
  then have "Js_object proto kvs = jsOf (JObj qs)" using Js_object.prems by (simp add: pureJson_object)
  then show ?case by blast
next
  case Js_null show ?case by (metis jsOf.simps(2))
next
  case (Js_boolean b) show ?case by (metis jsOf.simps(3))
next
  case (Js_number n) show ?case by (metis jsOf.simps(4))
next
  case (Js_string s) show ?case by (metis jsOf.simps(6))
qed (auto simp: pureJson_def partOf_scalar)

text \<open>
  (C31) The digest is a well-typed function of what JSON can express.  Given any JavaScript value,
  it throws \<open>non_json_binding\<close>, and nothing else, exactly when the value has a part that JSON has no
  text for: undefined, a number that is not finite, a bigint, a symbol, a function, an array with
  a hole or an object whose prototype is not \<open>Object.prototype\<close>.  Otherwise it returns a string of
  the checksum format that every digest field of the schemas requires, and the
  input is then a plain value of \<open>jsval\<close>, whose digest it is.
\<close>

theorem digest_well_typed:
  "case digestInput input of
     Inl e \<Rightarrow> e = RuntimePolicyError ''non_json_binding'' \<and> (\<exists>part. partOf part input \<and> nonJson part)
   | Inr d \<Rightarrow> (\<nexists>part. partOf part input \<and> nonJson part) \<and> checksumOk d \<and>
       (\<exists>v. input = jsOf v \<and> runtimePolicyDigest v = Inr d)"
proof (cases "digestInput input")
  case (Inl e)
  then have c: "canonicalInput input = Inl e" by (auto simp: digestInput_def andThen_Inl_iff)
  then have "\<not> pureJson input" using canonicalInput_returns(1) [of input] by auto
  then show ?thesis using Inl canonicalInput_throws(1) [OF c] by (auto simp: pureJson_def nonJsonBinding_def)
next
  case (Inr d)
  then have p: "pureJson input" using canonicalInput_returns(1) [of input] by (auto simp: digestInput_def andThen_Inr_iff)
  then obtain v where "input = jsOf v" using pureJson_jsOf by blast
  then show ?thesis using Inr p digestInput_checksum [OF Inr] by (auto simp: pureJson_def runtimePolicyDigest_def)
qed

lemma sample_non_json:
  "digestInput (Js_object Proto_Object [(''at'', Js_object (Proto_class ''Date'') [])]) = Inl nonJsonBinding"
  "digestInput (Js_array [Some Js_null, None]) = Inl nonJsonBinding"
  "\<exists>d. digestInput (Js_object Proto_Object [(''at'', Js_array [])]) = Inr d"
  by (simp_all add: digestInput_def)

text \<open>
  (C32) The canonical text decides deep equality: two JSON values have the same text exactly when
  they are deeply equal, irrespective of the order in which the properties of their objects were
  written, and deeply equal values have the same digest.
\<close>

theorem canonical_text_decides_equality:
  assumes "jsonOk v" "jsonOk w"
  shows "(canonical v = canonical w \<longleftrightarrow> jeq v w) \<and> (jeq v w \<longrightarrow> runtimePolicyDigest v = runtimePolicyDigest w)"
  using canonical_determines [OF assms] by (metis runtimePolicyDigest_def2)

theorem canonical_text_decides_equality_witness:
  "canonical (JObj [(''a'', JNum 1), (''b'', JNull)]) = canonical (JObj [(''b'', JNull), (''a'', JNum 1)])"
  using canonical_text_decides_equality [of "JObj [(''a'', JNum 1), (''b'', JNull)]" "JObj [(''b'', JNull), (''a'', JNum 1)]"]
  by simp

end
