(* ===== verification/Identity.thy ===== *)
theory Identity
  imports JsonValue
begin

text \<open>
  packages/contracts/src/runtime-v2/identity.ts, the part of sandbox-network.ts it uses, and the
  scalar schemas of common.ts: the references a runtime operation carries (scope, task, attempt,
  execution target, content, data scope, command digests, action binding, evidence), one record
  or datatype per schema, with

  \<^item> a validity predicate per schema, the conjunction of its scalar checks and refinements;
  \<^item> an encoding into JavaScript values, in the schema's key order;
  \<^item> \<open>runtimeContractEqual\<close> on values, shown to decide equality of the typed references, and
    \<open>matchesRuntimeScope\<close>.

  What the code takes from outside the repository is a field of the record \<open>platform\<close>: zod's
  built-in UUID and datetime formats, the collation behind \<open>localeCompare\<close>, and the URL parser.
\<close>

section \<open>The platform\<close>

record urlRecord =
  url_protocol :: string
  url_origin :: string
  url_port :: string
  url_username :: string
  url_password :: string
  url_hostname :: string

record platform =
  zUuid :: "string \<Rightarrow> bool"
  zDatetime :: "string \<Rightarrow> bool"
  localeLe :: "string \<Rightarrow> string \<Rightarrow> bool"
  urlParse :: "string \<Rightarrow> urlRecord option"

section \<open>Sandbox network requests\<close>

definition SandboxHttpsOrigin :: "platform \<Rightarrow> string \<Rightarrow> bool" where
  "SandboxHttpsOrigin P value \<longleftrightarrow> length value \<le> 253 \<and>
     (case urlParse P value of
        None \<Rightarrow> False
      | Some url \<Rightarrow>
          (let host = url_hostname url in
           url_protocol url = ''https:'' \<and> url_origin url = value \<and> url_port url = [] \<and>
           url_username url = [] \<and> url_password url = [] \<and>
           host \<noteq> [] \<and> list_all (\<lambda>c. isLowerAlnum c \<or> c = CHR ''.'' \<or> c = CHR ''-'') host \<and>
           isLowerAlnum (hd host) \<and> isLowerAlnum (last host) \<and>
           CHR ''.'' \<in> set host \<and>
           \<not> list_ex (endsWith host)
              [''.localhost'', ''.local'', ''.internal'', ''.test'', ''.invalid'', ''.onion''] \<and>
           \<not> list_all (\<lambda>part. part \<noteq> [] \<and> list_all isDigitChar part) (splitOn (CHR ''.'') host) \<and>
           list_all (\<lambda>label. 0 < length label \<and> length label \<le> 63 \<and>
              hd label \<noteq> CHR ''-'' \<and> last label \<noteq> CHR ''-'') (splitOn (CHR ''.'') host)))"

text \<open>\<open>mode\<close> is the literal \<open>controlled_https\<close>, so only the origins are data.\<close>

type_synonym SandboxNetworkRequest = "string list"

definition validSandboxNetworkRequest :: "platform \<Rightarrow> SandboxNetworkRequest \<Rightarrow> bool" where
  "validSandboxNetworkRequest P origins \<longleftrightarrow>
     list_all (SandboxHttpsOrigin P) origins \<and> 1 \<le> length origins \<and> length origins \<le> 32 \<and>
     distinct origins"

definition networkJson :: "SandboxNetworkRequest \<Rightarrow> jsval" where
  "networkJson origins = JObj [(''mode'', JStr ''controlled_https''), (''origins'', jStrs origins)]"

section \<open>Scope, task and attempt\<close>

record RuntimeScope =
  sc_organizationId :: string
  sc_workspaceId :: string
  sc_projectId :: "string option"

definition validRuntimeScope :: "platform \<Rightarrow> RuntimeScope \<Rightarrow> bool" where
  "validRuntimeScope P s \<longleftrightarrow>
     zUuid P (sc_organizationId s) \<and> zUuid P (sc_workspaceId s) \<and> optAll (zUuid P) (sc_projectId s)"

definition scopeJson :: "RuntimeScope \<Rightarrow> jsval" where
  "scopeJson s = JObj [(''organizationId'', JStr (sc_organizationId s)),
     (''workspaceId'', JStr (sc_workspaceId s)), (''projectId'', jOpt JStr (sc_projectId s))]"

record FrozenConfiguration =
  fc_employeeVersionId :: "string option"
  fc_digest :: string

record RuntimeTaskRef =
  tk_scope :: RuntimeScope
  tk_chatSessionId :: "string option"
  tk_runId :: string
  tk_rootRunId :: string
  tk_parentRunId :: "string option"
  tk_frozenConfiguration :: FrozenConfiguration

definition validRuntimeTaskRef :: "platform \<Rightarrow> RuntimeTaskRef \<Rightarrow> bool" where
  "validRuntimeTaskRef P t \<longleftrightarrow>
     validRuntimeScope P (tk_scope t) \<and> optAll (zUuid P) (tk_chatSessionId t) \<and>
     zUuid P (tk_runId t) \<and> zUuid P (tk_rootRunId t) \<and> optAll (zUuid P) (tk_parentRunId t) \<and>
     optAll (zUuid P) (fc_employeeVersionId (tk_frozenConfiguration t)) \<and>
     checksumOk (fc_digest (tk_frozenConfiguration t)) \<and>
     (let isRoot = (tk_runId t = tk_rootRunId t) in
      \<not> (isRoot \<noteq> (tk_parentRunId t = None) \<or> tk_parentRunId t = Some (tk_runId t)))"

definition taskJson :: "RuntimeTaskRef \<Rightarrow> jsval" where
  "taskJson t = JObj [(''scope'', scopeJson (tk_scope t)),
     (''chatSessionId'', jOpt JStr (tk_chatSessionId t)), (''runId'', JStr (tk_runId t)),
     (''rootRunId'', JStr (tk_rootRunId t)), (''parentRunId'', jOpt JStr (tk_parentRunId t)),
     (''frozenConfiguration'', JObj [
        (''employeeVersionId'', jOpt JStr (fc_employeeVersionId (tk_frozenConfiguration t))),
        (''digest'', JStr (fc_digest (tk_frozenConfiguration t)))])]"

record RuntimeAttemptRef =
  at_operationId :: string
  at_attemptId :: string
  at_attemptNumber :: int
  at_generation :: int
  at_fence :: int

definition validRuntimeAttemptRef :: "platform \<Rightarrow> RuntimeAttemptRef \<Rightarrow> bool" where
  "validRuntimeAttemptRef P a \<longleftrightarrow>
     zUuid P (at_operationId a) \<and> zUuid P (at_attemptId a) \<and> zPositive (at_attemptNumber a) \<and>
     zNonneg (at_generation a) \<and> zPositive (at_fence a)"

definition attemptJson :: "RuntimeAttemptRef \<Rightarrow> jsval" where
  "attemptJson a = JObj [(''operationId'', JStr (at_operationId a)),
     (''attemptId'', JStr (at_attemptId a)), (''attemptNumber'', JNum (at_attemptNumber a)),
     (''generation'', JNum (at_generation a)), (''fence'', JNum (at_fence a))]"

section \<open>Execution scope\<close>

datatype ExecutionTargetKind = TK_cloud_sandbox | TK_rice_bridge | TK_cloud_mcp

definition targetKindTable :: "(string \<times> ExecutionTargetKind) list" where
  "targetKindTable = [(''cloud_sandbox'', TK_cloud_sandbox), (''rice_bridge'', TK_rice_bridge),
     (''cloud_mcp'', TK_cloud_mcp)]"

fun targetKindStr :: "ExecutionTargetKind \<Rightarrow> string" where
  "targetKindStr TK_cloud_sandbox = ''cloud_sandbox''"
| "targetKindStr TK_rice_bridge = ''rice_bridge''"
| "targetKindStr TK_cloud_mcp = ''cloud_mcp''"

datatype WorkCopyKind = WC_in_place | WC_git_worktree | WC_cloud_copy | WC_local_copy | WC_remote_service

definition workCopyTable :: "(string \<times> WorkCopyKind) list" where
  "workCopyTable = [(''in_place'', WC_in_place), (''git_worktree'', WC_git_worktree),
     (''cloud_copy'', WC_cloud_copy), (''local_copy'', WC_local_copy), (''remote_service'', WC_remote_service)]"

fun workCopyStr :: "WorkCopyKind \<Rightarrow> string" where
  "workCopyStr WC_in_place = ''in_place''"
| "workCopyStr WC_git_worktree = ''git_worktree''"
| "workCopyStr WC_cloud_copy = ''cloud_copy''"
| "workCopyStr WC_local_copy = ''local_copy''"
| "workCopyStr WC_remote_service = ''remote_service''"

record RuntimeExecutionScope =
  ex_targetId :: string
  ex_targetKind :: ExecutionTargetKind
  ex_deviceId :: "string option"
  ex_grantId :: string
  ex_grantVersion :: int
  ex_scopeDigest :: string
  ex_workCopyId :: string
  ex_workCopyKind :: WorkCopyKind

definition validRuntimeExecutionScope :: "platform \<Rightarrow> RuntimeExecutionScope \<Rightarrow> bool" where
  "validRuntimeExecutionScope P e \<longleftrightarrow>
     zUuid P (ex_targetId e) \<and> optAll (zUuid P) (ex_deviceId e) \<and> zUuid P (ex_grantId e) \<and>
     zPositive (ex_grantVersion e) \<and> checksumOk (ex_scopeDigest e) \<and> zUuid P (ex_workCopyId e) \<and>
     ((ex_targetKind e = TK_rice_bridge) = (ex_deviceId e \<noteq> None))"

definition executionJson :: "RuntimeExecutionScope \<Rightarrow> jsval" where
  "executionJson e = JObj [(''targetId'', JStr (ex_targetId e)),
     (''targetKind'', JStr (targetKindStr (ex_targetKind e))),
     (''deviceId'', jOpt JStr (ex_deviceId e)), (''grantId'', JStr (ex_grantId e)),
     (''grantVersion'', JNum (ex_grantVersion e)), (''scopeDigest'', JStr (ex_scopeDigest e)),
     (''workCopy'', JObj [(''id'', JStr (ex_workCopyId e)),
        (''kind'', JStr (workCopyStr (ex_workCopyKind e)))])]"

section \<open>Content and data scope\<close>

datatype RuntimeContentRef =
    ContentArtifact (content_id: string) (content_checksum: string)
  | ContentStorageObject (content_id: string) (content_checksum: string)
  | ContentDeliverableVersion (content_id: string) (content_objectId: string)
      (content_seriesId: string) (content_version: int) (content_checksum: string)

fun validRuntimeContentRef :: "platform \<Rightarrow> RuntimeContentRef \<Rightarrow> bool" where
  "validRuntimeContentRef P (ContentArtifact i c) = (zUuid P i \<and> checksumOk c)"
| "validRuntimeContentRef P (ContentStorageObject i c) = (zUuid P i \<and> checksumOk c)"
| "validRuntimeContentRef P (ContentDeliverableVersion i obj series v c) =
     (zUuid P i \<and> zUuid P obj \<and> zUuid P series \<and> zPositive v \<and> checksumOk c)"

fun contentJson :: "RuntimeContentRef \<Rightarrow> jsval" where
  "contentJson (ContentArtifact i c) =
     JObj [(''kind'', JStr ''artifact''), (''id'', JStr i), (''checksum'', JStr c)]"
| "contentJson (ContentStorageObject i c) =
     JObj [(''kind'', JStr ''storage_object''), (''id'', JStr i), (''checksum'', JStr c)]"
| "contentJson (ContentDeliverableVersion i obj series v c) =
     JObj [(''kind'', JStr ''deliverable_version''), (''id'', JStr i), (''objectId'', JStr obj),
       (''seriesId'', JStr series), (''version'', JNum v), (''checksum'', JStr c)]"

datatype DataPurpose = DP_model_context | DP_execution_input | DP_delivery

fun dataPurposeStr :: "DataPurpose \<Rightarrow> string" where
  "dataPurposeStr DP_model_context = ''model_context''"
| "dataPurposeStr DP_execution_input = ''execution_input''"
| "dataPurposeStr DP_delivery = ''delivery''"

datatype DataDestination =
  DD_in_place | DD_cloud_model | DD_cloud_execution | DD_local_write | DD_external_service

fun dataDestinationStr :: "DataDestination \<Rightarrow> string" where
  "dataDestinationStr DD_in_place = ''in_place''"
| "dataDestinationStr DD_cloud_model = ''cloud_model''"
| "dataDestinationStr DD_cloud_execution = ''cloud_execution''"
| "dataDestinationStr DD_local_write = ''local_write''"
| "dataDestinationStr DD_external_service = ''external_service''"

record RuntimeDataScope =
  ds_content :: RuntimeContentRef
  ds_sourceTargetId :: "string option"
  ds_purpose :: DataPurpose
  ds_destination :: DataDestination
  ds_externalNetwork :: "SandboxNetworkRequest option"
  ds_authorizationId :: string
  ds_authorizationVersion :: int

definition validRuntimeDataScope :: "platform \<Rightarrow> RuntimeDataScope \<Rightarrow> bool" where
  "validRuntimeDataScope P d \<longleftrightarrow>
     validRuntimeContentRef P (ds_content d) \<and> optAll (zUuid P) (ds_sourceTargetId d) \<and>
     optAll (validSandboxNetworkRequest P) (ds_externalNetwork d) \<and>
     zUuid P (ds_authorizationId d) \<and> zPositive (ds_authorizationVersion d) \<and>
     ((ds_destination d = DD_external_service) = (ds_externalNetwork d \<noteq> None))"

definition dataScopeJson :: "RuntimeDataScope \<Rightarrow> jsval" where
  "dataScopeJson d = JObj ([(''content'', contentJson (ds_content d)),
     (''sourceTargetId'', jOpt JStr (ds_sourceTargetId d)),
     (''purpose'', JStr (dataPurposeStr (ds_purpose d))),
     (''destination'', JStr (dataDestinationStr (ds_destination d)))]
     @ optProp ''externalNetwork'' (map_option networkJson (ds_externalNetwork d)) @
     [(''authorizationId'', JStr (ds_authorizationId d)),
      (''authorizationVersion'', JNum (ds_authorizationVersion d))])"

section \<open>Action binding and evidence\<close>

record RuntimeCommandBinding =
  cb_executableDigest :: string
  cb_argumentsDigest :: string
  cb_workingDirectoryDigest :: string
  cb_effectiveEnvironmentDigest :: string
  cb_networkPolicyDigest :: string
  cb_toolchainDigest :: string
  cb_budgetDigest :: string

definition validRuntimeCommandBinding :: "RuntimeCommandBinding \<Rightarrow> bool" where
  "validRuntimeCommandBinding c \<longleftrightarrow>
     checksumOk (cb_executableDigest c) \<and> checksumOk (cb_argumentsDigest c) \<and>
     checksumOk (cb_workingDirectoryDigest c) \<and> checksumOk (cb_effectiveEnvironmentDigest c) \<and>
     checksumOk (cb_networkPolicyDigest c) \<and> checksumOk (cb_toolchainDigest c) \<and>
     checksumOk (cb_budgetDigest c)"

definition commandBindingJson :: "RuntimeCommandBinding \<Rightarrow> jsval" where
  "commandBindingJson c = JObj [(''executableDigest'', JStr (cb_executableDigest c)),
     (''argumentsDigest'', JStr (cb_argumentsDigest c)),
     (''workingDirectoryDigest'', JStr (cb_workingDirectoryDigest c)),
     (''effectiveEnvironmentDigest'', JStr (cb_effectiveEnvironmentDigest c)),
     (''networkPolicyDigest'', JStr (cb_networkPolicyDigest c)),
     (''toolchainDigest'', JStr (cb_toolchainDigest c)),
     (''budgetDigest'', JStr (cb_budgetDigest c))]"

datatype RequesterType = RT_user | RT_service

fun requesterTypeStr :: "RequesterType \<Rightarrow> string" where
  "requesterTypeStr RT_user = ''user''"
| "requesterTypeStr RT_service = ''service''"

record RuntimeActionBinding =
  ab_task :: RuntimeTaskRef
  ab_attempt :: RuntimeAttemptRef
  ab_requestedByType :: RequesterType
  ab_requestedById :: string
  ab_policySnapshotId :: string
  ab_policyDigest :: string
  ab_execution :: RuntimeExecutionScope
  ab_action :: string
  ab_inputDigest :: string
  ab_dataScope :: "RuntimeDataScope list"
  ab_baseline :: "RuntimeContentRef list"
  ab_command :: "RuntimeCommandBinding option"

definition validRuntimeActionBinding :: "platform \<Rightarrow> RuntimeActionBinding \<Rightarrow> bool" where
  "validRuntimeActionBinding P b \<longleftrightarrow>
     validRuntimeTaskRef P (ab_task b) \<and> validRuntimeAttemptRef P (ab_attempt b) \<and>
     zUuid P (ab_requestedById b) \<and> zUuid P (ab_policySnapshotId b) \<and>
     checksumOk (ab_policyDigest b) \<and> validRuntimeExecutionScope P (ab_execution b) \<and>
     lenIn 1 160 (trim (ab_action b)) \<and> checksumOk (ab_inputDigest b) \<and>
     list_all (validRuntimeDataScope P) (ab_dataScope b) \<and> length (ab_dataScope b) \<le> 128 \<and>
     list_all (validRuntimeContentRef P) (ab_baseline b) \<and> length (ab_baseline b) \<le> 256 \<and>
     optAll validRuntimeCommandBinding (ab_command b)"

text \<open>\<open>RuntimeActionBindingSchema.parse\<close> returns the binding with its action trimmed.\<close>

definition parseRuntimeActionBinding :: "platform \<Rightarrow> RuntimeActionBinding \<Rightarrow> RuntimeActionBinding result"
where
  "parseRuntimeActionBinding P b =
     (if validRuntimeActionBinding P b then Inr (b\<lparr>ab_action := trim (ab_action b)\<rparr>) else Inl ZodError)"

definition bindingJson :: "RuntimeActionBinding \<Rightarrow> jsval" where
  "bindingJson b = JObj [(''task'', taskJson (ab_task b)), (''attempt'', attemptJson (ab_attempt b)),
     (''requestedBy'', JObj [(''type'', JStr (requesterTypeStr (ab_requestedByType b))),
        (''id'', JStr (ab_requestedById b))]),
     (''policy'', JObj [(''snapshotId'', JStr (ab_policySnapshotId b)),
        (''digest'', JStr (ab_policyDigest b))]),
     (''execution'', executionJson (ab_execution b)), (''action'', JStr (ab_action b)),
     (''inputDigest'', JStr (ab_inputDigest b)),
     (''dataScope'', JArr (map dataScopeJson (ab_dataScope b))),
     (''baseline'', JArr (map contentJson (ab_baseline b))),
     (''command'', jOpt commandBindingJson (ab_command b))]"

record RuntimeEvidenceRef =
  ev_id :: string
  ev_recordedAt :: string
  ev_digest :: string

definition validRuntimeEvidenceRef :: "platform \<Rightarrow> RuntimeEvidenceRef \<Rightarrow> bool" where
  "validRuntimeEvidenceRef P e \<longleftrightarrow>
     zUuid P (ev_id e) \<and> zDatetime P (ev_recordedAt e) \<and> checksumOk (ev_digest e)"

definition evidenceJson :: "RuntimeEvidenceRef \<Rightarrow> jsval" where
  "evidenceJson e = JObj [(''id'', JStr (ev_id e)), (''recordedAt'', JStr (ev_recordedAt e)),
     (''digest'', JStr (ev_digest e))]"

section \<open>Contract equality\<close>

text \<open>
  \<open>runtimeContractEqual\<close>: both sides with the properties of every object sorted by
  \<open>localeCompare\<close>, compared as \<open>JSON.stringify\<close> texts.
\<close>

definition runtimeContractEqual :: "platform \<Rightarrow> jsval \<Rightarrow> jsval \<Rightarrow> bool" where
  "runtimeContractEqual P left right \<longleftrightarrow>
     stringify (sortKeysBy (localeLe P) left) = stringify (sortKeysBy (localeLe P) right)"

lemma runtimeContractEqual_jeq:
  "jsonOk v \<Longrightarrow> jsonOk w \<Longrightarrow> runtimeContractEqual P v w \<Longrightarrow> jeq v w"
  unfolding runtimeContractEqual_def
  by (drule stringify_inj [rotated 2]) (auto intro: sortKeys_eq_jeq)

lemma runtimeContractEqual_refl [simp]: "runtimeContractEqual P v v"
  by (simp add: runtimeContractEqual_def)

text \<open>
  An encoding that is JSON, and that deep equality separates, makes contract equality the
  equality of the typed values.
\<close>

definition faithful :: "('a \<Rightarrow> jsval) \<Rightarrow> bool" where
  "faithful enc \<longleftrightarrow> (\<forall>x. jsonOk (enc x)) \<and> (\<forall>x y. jeq (enc x) (enc y) \<longrightarrow> x = y)"

lemma faithful_contractEqual: "faithful enc \<Longrightarrow> runtimeContractEqual P (enc x) (enc y) \<longleftrightarrow> x = y"
  unfolding faithful_def using runtimeContractEqual_jeq runtimeContractEqual_refl by blast

lemma jsonOk_jOpt [simp]: "jsonOk (jOpt f x) \<longleftrightarrow> optAll (\<lambda>v. jsonOk (f v)) x"
  by (cases x) (simp_all add: jOpt_def)

lemma jeq_jOpt_JStr [simp]: "jeq (jOpt JStr x) (jOpt JStr y) \<longleftrightarrow> x = y"
  by (cases x; cases y; simp add: jOpt_def)

lemma targetKindStr_inj [simp]: "targetKindStr a = targetKindStr b \<longleftrightarrow> a = b"
  by (cases a; cases b) simp_all

lemma workCopyStr_inj [simp]: "workCopyStr a = workCopyStr b \<longleftrightarrow> a = b"
  by (cases a; cases b) simp_all

lemma dataPurposeStr_inj [simp]: "dataPurposeStr a = dataPurposeStr b \<longleftrightarrow> a = b"
  by (cases a; cases b) simp_all

lemma dataDestinationStr_inj [simp]: "dataDestinationStr a = dataDestinationStr b \<longleftrightarrow> a = b"
  by (cases a; cases b) simp_all

lemma requesterTypeStr_inj [simp]: "requesterTypeStr a = requesterTypeStr b \<longleftrightarrow> a = b"
  by (cases a; cases b) simp_all

lemma faithful_scope: "faithful scopeJson"
  by (auto simp: faithful_def scopeJson_def)

lemma faithful_task: "faithful taskJson"
  using faithful_scope by (auto simp: faithful_def taskJson_def)

lemma faithful_attempt: "faithful attemptJson"
  by (auto simp: faithful_def attemptJson_def)

lemma faithful_execution: "faithful executionJson"
  by (auto simp: faithful_def executionJson_def)

lemma faithful_evidence: "faithful evidenceJson"
  by (auto simp: faithful_def evidenceJson_def)

lemma faithful_content: "faithful contentJson"
proof -
  have "jsonOk (contentJson x)" for x by (cases x) simp_all
  moreover have "jeq (contentJson x) (contentJson y) \<Longrightarrow> x = y" for x y by (cases x; cases y) simp_all
  ultimately show ?thesis by (simp add: faithful_def)
qed

lemma faithful_commandBinding: "faithful commandBindingJson"
  by (auto simp: faithful_def commandBindingJson_def)


lemma faithful_jeq: "faithful enc \<Longrightarrow> jeq (enc x) (enc y) \<longleftrightarrow> x = y"
  by (auto simp: faithful_def)

lemma faithful_ok: "faithful enc \<Longrightarrow> jsonOk (enc x)"
  by (simp add: faithful_def)

lemma faithful_list: "faithful enc \<Longrightarrow> faithful (\<lambda>xs. JArr (map enc xs))"
proof -
  assume f: "faithful enc"
  have "jeqArr (map enc xs) (map enc ys) \<Longrightarrow> xs = ys" for xs ys
    by (induction xs arbitrary: ys) (case_tac ys; auto simp: faithful_jeq [OF f])+
  then show ?thesis
    by (auto simp: faithful_def jsonOkArr_iff faithful_ok [OF f])
qed

lemma faithful_opt:
  assumes "faithful enc" "\<And>x. enc x \<noteq> JNull"
  shows "faithful (jOpt enc)"
proof -
  have "jeq (jOpt enc x) (jOpt enc y) \<Longrightarrow> x = y" for x y
    using assms(2) by (cases x; cases y)
      (auto simp: jOpt_def faithful_jeq [OF assms(1)] elim!: jeq.elims notE [OF assms(2), OF sym])
  then show ?thesis by (auto simp: faithful_def faithful_ok [OF assms(1)])
qed

lemma faithful_network: "faithful networkJson"
proof -
  have "jsonOkArr (map JStr xs)" for xs by (induction xs) auto
  moreover have "jeqArr (map JStr xs) (map JStr ys) \<Longrightarrow> xs = ys" for xs ys
    by (induction xs arbitrary: ys) (case_tac ys; auto)+
  ultimately show ?thesis by (auto simp: faithful_def networkJson_def jStrs_def)
qed

lemma faithful_dataScope: "faithful dataScopeJson"
proof -
  have "jsonOk (dataScopeJson x)" for x
    by (cases "ds_externalNetwork x") (auto simp: dataScopeJson_def optProp_def
        faithful_ok [OF faithful_content] faithful_ok [OF faithful_network])
  moreover have "jeq (dataScopeJson x) (dataScopeJson y) \<Longrightarrow> x = y" for x y
    by (cases "ds_externalNetwork x"; cases "ds_externalNetwork y")
      (auto simp: dataScopeJson_def optProp_def faithful_jeq [OF faithful_content]
        faithful_jeq [OF faithful_network])
  ultimately show ?thesis by (simp add: faithful_def)
qed

lemma faithful_binding: "faithful bindingJson"
proof -
  have c: "commandBindingJson x \<noteq> JNull" for x by (simp add: commandBindingJson_def)
  note parts = faithful_task faithful_attempt faithful_execution faithful_opt [OF faithful_commandBinding c]
    faithful_list [OF faithful_dataScope] faithful_list [OF faithful_content]
  have "jsonOk (bindingJson x)" for x
    using parts [THEN faithful_ok] by (simp add: bindingJson_def del: jsonOk.simps(3) jsonOk_jOpt)
  moreover have "jeq (bindingJson x) (bindingJson y) \<Longrightarrow> x = y" for x y
    using parts [THEN faithful_jeq] by (auto simp: bindingJson_def simp del: jeq.simps(1))
  ultimately show ?thesis by (simp add: faithful_def)
qed

lemmas contractEqual_simps [simp] =
  faithful_contractEqual [OF faithful_scope] faithful_contractEqual [OF faithful_task]
  faithful_contractEqual [OF faithful_attempt] faithful_contractEqual [OF faithful_execution]
  faithful_contractEqual [OF faithful_content] faithful_contractEqual [OF faithful_evidence]
  faithful_contractEqual [OF faithful_binding]

text \<open>\<open>matchesRuntimeScope\<close> parses both scopes first, so it throws on an invalid one.\<close>

definition matchesRuntimeScope :: "platform \<Rightarrow> RuntimeScope \<Rightarrow> RuntimeScope \<Rightarrow> bool result" where
  "matchesRuntimeScope P actual trusted =
     (if \<not> validRuntimeScope P actual \<or> \<not> validRuntimeScope P trusted then Inl ZodError
      else Inr (runtimeContractEqual P (scopeJson actual) (scopeJson trusted)))"


section \<open>Sample values for the witnesses\<close>

text \<open>
  A platform whose formats accept what they can cheaply decide, and one valid reference of each
  kind, on which the witnesses of the component theories evaluate the definitions.
\<close>

definition samplePlatform :: platform where
  "samplePlatform = \<lparr>zUuid = (\<lambda>s. length s = 2), zDatetime = (\<lambda>s. s \<noteq> []),
     localeLe = (\<le>), urlParse = (\<lambda>_. None)\<rparr>"

definition sampleDigest :: string where
  "sampleDigest = ''sha256:0000000000000000000000000000000000000000000000000000000000000000''"

definition sampleScope :: RuntimeScope where
  "sampleScope = \<lparr>sc_organizationId = ''o1'', sc_workspaceId = ''w1'', sc_projectId = None\<rparr>"

definition sampleTask :: RuntimeTaskRef where
  "sampleTask = \<lparr>tk_scope = sampleScope, tk_chatSessionId = None, tk_runId = ''r1'', tk_rootRunId = ''r1'',
     tk_parentRunId = None,
     tk_frozenConfiguration = \<lparr>fc_employeeVersionId = None, fc_digest = sampleDigest\<rparr>\<rparr>"

definition sampleAttempt :: RuntimeAttemptRef where
  "sampleAttempt = \<lparr>at_operationId = ''p1'', at_attemptId = ''a1'', at_attemptNumber = 1,
     at_generation = 0, at_fence = 1\<rparr>"

definition sampleExecution :: RuntimeExecutionScope where
  "sampleExecution = \<lparr>ex_targetId = ''t1'', ex_targetKind = TK_cloud_sandbox, ex_deviceId = None,
     ex_grantId = ''g1'', ex_grantVersion = 1, ex_scopeDigest = sampleDigest, ex_workCopyId = ''c1'',
     ex_workCopyKind = WC_cloud_copy\<rparr>"

definition sampleBinding :: RuntimeActionBinding where
  "sampleBinding = \<lparr>ab_task = sampleTask, ab_attempt = sampleAttempt, ab_requestedByType = RT_user,
     ab_requestedById = ''u1'', ab_policySnapshotId = ''s1'', ab_policyDigest = sampleDigest,
     ab_execution = sampleExecution, ab_action = ''cloud.process.execute'',
     ab_inputDigest = sampleDigest, ab_dataScope = [], ab_baseline = [], ab_command = None\<rparr>"

definition sampleEvidence :: RuntimeEvidenceRef where
  "sampleEvidence = \<lparr>ev_id = ''e1'', ev_recordedAt = ''2026-01-01T00:00:00Z'', ev_digest = sampleDigest\<rparr>"

lemma sampleDigest_ok [simp]: "checksumOk sampleDigest"
  by (simp add: checksumOk_def sampleDigest_def isHexLower_def)

lemma samplePlatform_simps [simp]:
  "zUuid samplePlatform s \<longleftrightarrow> length s = 2" "zDatetime samplePlatform s \<longleftrightarrow> s \<noteq> []"
  by (simp_all add: samplePlatform_def)

lemma sampleTask_ok [simp]: "validRuntimeTaskRef samplePlatform sampleTask"
  by (simp add: validRuntimeTaskRef_def validRuntimeScope_def sampleTask_def sampleScope_def)

lemma sampleBinding_ok [simp]: "validRuntimeActionBinding samplePlatform sampleBinding"
  using sampleTask_ok
  by (simp add: validRuntimeActionBinding_def sampleBinding_def validRuntimeAttemptRef_def
      sampleAttempt_def zPositive_def zNonneg_def isSafeInteger_def validRuntimeExecutionScope_def
      sampleExecution_def lenIn_def trim_def isWhite_def)

lemma sampleEvidence_ok [simp]: "validRuntimeEvidenceRef samplePlatform sampleEvidence"
  by (simp add: validRuntimeEvidenceRef_def sampleEvidence_def)

lemma sampleBinding_trimmed [simp]: "sampleBinding\<lparr>ab_action := trim (ab_action sampleBinding)\<rparr> = sampleBinding"
  by (simp add: sampleBinding_def trim_def isWhite_def)

end
