(* ===== verification/Decode.thy ===== *)
theory Decode
  imports Identity "HOL-Library.Monad_Syntax"
begin

text \<open>
  \<open>safeParse\<close> of the reference schemas of identity.ts on an unknown value: None where zod
  reports an issue.  Every decoder is shown to invert the encoding of a valid reference, and to
  accept only valid ones.
\<close>

section \<open>Decoding references\<close>

definition accept :: "('a \<Rightarrow> bool) \<Rightarrow> 'a \<Rightarrow> 'a option" where
  "accept p x = (if p x then Some x else None)"

definition shape :: "string list \<Rightarrow> jsval \<Rightarrow> unit option" where
  "shape ks v = (if strictObject ks v then Some () else None)"

definition decScope :: "platform \<Rightarrow> jsval \<Rightarrow> RuntimeScope option" where
  "decScope P v = do {
     shape [''organizationId'', ''workspaceId'', ''projectId''] v;
     oid \<leftarrow> decStr (jget ''organizationId'' v);
     w \<leftarrow> decStr (jget ''workspaceId'' v);
     p \<leftarrow> decNullable decStr (jget ''projectId'' v);
     accept (validRuntimeScope P) \<lparr>sc_organizationId = oid, sc_workspaceId = w, sc_projectId = p\<rparr> }"

definition decFrozen :: "jsval \<Rightarrow> FrozenConfiguration option" where
  "decFrozen v = do {
     shape [''employeeVersionId'', ''digest''] v;
     e \<leftarrow> decNullable decStr (jget ''employeeVersionId'' v);
     d \<leftarrow> decStr (jget ''digest'' v);
     Some \<lparr>fc_employeeVersionId = e, fc_digest = d\<rparr> }"

definition decTask :: "platform \<Rightarrow> jsval \<Rightarrow> RuntimeTaskRef option" where
  "decTask P v = do {
     shape [''scope'', ''chatSessionId'', ''runId'', ''rootRunId'', ''parentRunId'', ''frozenConfiguration''] v;
     s \<leftarrow> decScope P (jget ''scope'' v);
     c \<leftarrow> decNullable decStr (jget ''chatSessionId'' v);
     r \<leftarrow> decStr (jget ''runId'' v);
     root \<leftarrow> decStr (jget ''rootRunId'' v);
     p \<leftarrow> decNullable decStr (jget ''parentRunId'' v);
     f \<leftarrow> decFrozen (jget ''frozenConfiguration'' v);
     accept (validRuntimeTaskRef P) \<lparr>tk_scope = s, tk_chatSessionId = c, tk_runId = r, tk_rootRunId = root,
       tk_parentRunId = p, tk_frozenConfiguration = f\<rparr> }"

definition decAttempt :: "platform \<Rightarrow> jsval \<Rightarrow> RuntimeAttemptRef option" where
  "decAttempt P v = do {
     shape [''operationId'', ''attemptId'', ''attemptNumber'', ''generation'', ''fence''] v;
     oid \<leftarrow> decStr (jget ''operationId'' v);
     a \<leftarrow> decStr (jget ''attemptId'' v);
     n \<leftarrow> decInt (jget ''attemptNumber'' v);
     g \<leftarrow> decInt (jget ''generation'' v);
     f \<leftarrow> decInt (jget ''fence'' v);
     accept (validRuntimeAttemptRef P) \<lparr>at_operationId = oid, at_attemptId = a, at_attemptNumber = n,
       at_generation = g, at_fence = f\<rparr> }"

definition decExecution :: "platform \<Rightarrow> jsval \<Rightarrow> RuntimeExecutionScope option" where
  "decExecution P v = do {
     shape [''targetId'', ''targetKind'', ''deviceId'', ''grantId'', ''grantVersion'', ''scopeDigest'', ''workCopy''] v;
     t \<leftarrow> decStr (jget ''targetId'' v);
     k \<leftarrow> decEnum targetKindTable (jget ''targetKind'' v);
     d \<leftarrow> decNullable decStr (jget ''deviceId'' v);
     g \<leftarrow> decStr (jget ''grantId'' v);
     gv \<leftarrow> decInt (jget ''grantVersion'' v);
     sd \<leftarrow> decStr (jget ''scopeDigest'' v);
     shape [''id'', ''kind''] (jget ''workCopy'' v);
     wi \<leftarrow> decStr (jget ''id'' (jget ''workCopy'' v));
     wk \<leftarrow> decEnum workCopyTable (jget ''kind'' (jget ''workCopy'' v));
     accept (validRuntimeExecutionScope P) \<lparr>ex_targetId = t, ex_targetKind = k, ex_deviceId = d,
       ex_grantId = g, ex_grantVersion = gv, ex_scopeDigest = sd, ex_workCopyId = wi, ex_workCopyKind = wk\<rparr> }"

definition decEvidence :: "platform \<Rightarrow> jsval \<Rightarrow> RuntimeEvidenceRef option" where
  "decEvidence P v = do {
     shape [''id'', ''recordedAt'', ''digest''] v;
     i \<leftarrow> decStr (jget ''id'' v);
     r \<leftarrow> decStr (jget ''recordedAt'' v);
     d \<leftarrow> decStr (jget ''digest'' v);
     accept (validRuntimeEvidenceRef P) \<lparr>ev_id = i, ev_recordedAt = r, ev_digest = d\<rparr> }"

section \<open>Content, data scope, command and binding\<close>

definition decContent :: "platform \<Rightarrow> jsval \<Rightarrow> RuntimeContentRef option" where
  "decContent P v = do {
     k \<leftarrow> decStr (jget ''kind'' v);
     c \<leftarrow> (if k = ''artifact'' then do {
         shape [''kind'', ''id'', ''checksum''] v;
         i \<leftarrow> decStr (jget ''id'' v); s \<leftarrow> decStr (jget ''checksum'' v);
         Some (ContentArtifact i s) }
       else if k = ''storage_object'' then do {
         shape [''kind'', ''id'', ''checksum''] v;
         i \<leftarrow> decStr (jget ''id'' v); s \<leftarrow> decStr (jget ''checksum'' v);
         Some (ContentStorageObject i s) }
       else if k = ''deliverable_version'' then do {
         shape [''kind'', ''id'', ''objectId'', ''seriesId'', ''version'', ''checksum''] v;
         i \<leftarrow> decStr (jget ''id'' v); ob \<leftarrow> decStr (jget ''objectId'' v);
         se \<leftarrow> decStr (jget ''seriesId'' v); n \<leftarrow> decInt (jget ''version'' v);
         s \<leftarrow> decStr (jget ''checksum'' v);
         Some (ContentDeliverableVersion i ob se n s) }
       else None);
     accept (validRuntimeContentRef P) c }"

definition decArr :: "(jsval \<Rightarrow> 'a option) \<Rightarrow> jsval \<Rightarrow> 'a list option" where
  "decArr d v = (case v of JArr xs \<Rightarrow> those (map d xs) | _ \<Rightarrow> None)"

definition decOptional :: "(jsval \<Rightarrow> 'a option) \<Rightarrow> jsval \<Rightarrow> 'a option option" where
  "decOptional d v = (if v = JUndefined then Some None else map_option Some (d v))"

definition decNetwork :: "platform \<Rightarrow> jsval \<Rightarrow> SandboxNetworkRequest option" where
  "decNetwork P v = do {
     shape [''mode'', ''origins''] v;
     accept (\<lambda>m. m = JStr ''controlled_https'') (jget ''mode'' v);
     os \<leftarrow> decArr decStr (jget ''origins'' v);
     accept (validSandboxNetworkRequest P) os }"

definition dataPurposeTable :: "(string \<times> DataPurpose) list" where
  "dataPurposeTable = [(''model_context'', DP_model_context), (''execution_input'', DP_execution_input),
     (''delivery'', DP_delivery)]"

definition dataDestinationTable :: "(string \<times> DataDestination) list" where
  "dataDestinationTable = [(''in_place'', DD_in_place), (''cloud_model'', DD_cloud_model),
     (''cloud_execution'', DD_cloud_execution), (''local_write'', DD_local_write),
     (''external_service'', DD_external_service)]"

definition decDataScope :: "platform \<Rightarrow> jsval \<Rightarrow> RuntimeDataScope option" where
  "decDataScope P v = do {
     shape [''content'', ''sourceTargetId'', ''purpose'', ''destination'', ''externalNetwork'',
       ''authorizationId'', ''authorizationVersion''] v;
     c \<leftarrow> decContent P (jget ''content'' v);
     s \<leftarrow> decNullable decStr (jget ''sourceTargetId'' v);
     p \<leftarrow> decEnum dataPurposeTable (jget ''purpose'' v);
     d \<leftarrow> decEnum dataDestinationTable (jget ''destination'' v);
     n \<leftarrow> decOptional (decNetwork P) (jget ''externalNetwork'' v);
     a \<leftarrow> decStr (jget ''authorizationId'' v);
     av \<leftarrow> decInt (jget ''authorizationVersion'' v);
     accept (validRuntimeDataScope P) \<lparr>ds_content = c, ds_sourceTargetId = s, ds_purpose = p,
       ds_destination = d, ds_externalNetwork = n, ds_authorizationId = a, ds_authorizationVersion = av\<rparr> }"

definition decCommandBinding :: "jsval \<Rightarrow> RuntimeCommandBinding option" where
  "decCommandBinding v = do {
     shape [''executableDigest'', ''argumentsDigest'', ''workingDirectoryDigest'',
       ''effectiveEnvironmentDigest'', ''networkPolicyDigest'', ''toolchainDigest'', ''budgetDigest''] v;
     e \<leftarrow> decStr (jget ''executableDigest'' v);
     a \<leftarrow> decStr (jget ''argumentsDigest'' v);
     w \<leftarrow> decStr (jget ''workingDirectoryDigest'' v);
     f \<leftarrow> decStr (jget ''effectiveEnvironmentDigest'' v);
     n \<leftarrow> decStr (jget ''networkPolicyDigest'' v);
     t \<leftarrow> decStr (jget ''toolchainDigest'' v);
     b \<leftarrow> decStr (jget ''budgetDigest'' v);
     accept validRuntimeCommandBinding \<lparr>cb_executableDigest = e, cb_argumentsDigest = a,
       cb_workingDirectoryDigest = w, cb_effectiveEnvironmentDigest = f, cb_networkPolicyDigest = n,
       cb_toolchainDigest = t, cb_budgetDigest = b\<rparr> }"

definition requesterTable :: "(string \<times> RequesterType) list" where
  "requesterTable = [(''user'', RT_user), (''service'', RT_service)]"

definition decBinding :: "platform \<Rightarrow> jsval \<Rightarrow> RuntimeActionBinding option" where
  "decBinding P v = do {
     shape [''task'', ''attempt'', ''requestedBy'', ''policy'', ''execution'', ''action'', ''inputDigest'',
       ''dataScope'', ''baseline'', ''command''] v;
     t \<leftarrow> decTask P (jget ''task'' v);
     a \<leftarrow> decAttempt P (jget ''attempt'' v);
     shape [''type'', ''id''] (jget ''requestedBy'' v);
     rt \<leftarrow> decEnum requesterTable (jget ''type'' (jget ''requestedBy'' v));
     ri \<leftarrow> decStr (jget ''id'' (jget ''requestedBy'' v));
     shape [''snapshotId'', ''digest''] (jget ''policy'' v);
     ps \<leftarrow> decStr (jget ''snapshotId'' (jget ''policy'' v));
     pd \<leftarrow> decStr (jget ''digest'' (jget ''policy'' v));
     x \<leftarrow> decExecution P (jget ''execution'' v);
     act \<leftarrow> decStr (jget ''action'' v);
     i \<leftarrow> decStr (jget ''inputDigest'' v);
     ds \<leftarrow> decArr (decDataScope P) (jget ''dataScope'' v);
     bl \<leftarrow> decArr (decContent P) (jget ''baseline'' v);
     c \<leftarrow> decNullable decCommandBinding (jget ''command'' v);
     (case parseRuntimeActionBinding P \<lparr>ab_task = t, ab_attempt = a, ab_requestedByType = rt,
         ab_requestedById = ri, ab_policySnapshotId = ps, ab_policyDigest = pd, ab_execution = x,
         ab_action = act, ab_inputDigest = i, ab_dataScope = ds, ab_baseline = bl, ab_command = c\<rparr> of
        Inl _ \<Rightarrow> None | Inr b \<Rightarrow> Some b) }"

section \<open>Decoding inverts encoding\<close>

lemma accept_simps [simp]: "p x \<Longrightarrow> accept p x = Some x" "accept p x = Some y \<longleftrightarrow> p x \<and> y = x"
  by (auto simp: accept_def)

lemma shape_JObj [simp]: "shape ks (JObj kvs) = (if list_all (\<lambda>(k, _). k \<in> set ks) kvs then Some () else None)"
  by (simp add: shape_def strictObject_def)

lemma decScope_enc [simp]: "validRuntimeScope P s \<Longrightarrow> decScope P (scopeJson s) = Some s"
  by (cases s) (simp add: decScope_def scopeJson_def)

lemma decTask_enc [simp]: "validRuntimeTaskRef P t \<Longrightarrow> decTask P (taskJson t) = Some t"
proof -
  assume v: "validRuntimeTaskRef P t"
  then have "validRuntimeScope P (tk_scope t)" by (simp add: validRuntimeTaskRef_def)
  moreover have "decFrozen (JObj [(''employeeVersionId'', jOpt JStr (fc_employeeVersionId f)),
      (''digest'', JStr (fc_digest f))]) = Some f" for f
    by (cases f) (simp add: decFrozen_def)
  ultimately show ?thesis using v by (cases t) (simp add: decTask_def taskJson_def)
qed

lemma decAttempt_enc [simp]: "validRuntimeAttemptRef P a \<Longrightarrow> decAttempt P (attemptJson a) = Some a"
  by (cases a) (simp add: decAttempt_def attemptJson_def)

lemma decEnum_tables [simp]:
  "decEnum targetKindTable (JStr (targetKindStr k)) = Some k"
  "decEnum workCopyTable (JStr (workCopyStr w)) = Some w"
proof -
  show "decEnum targetKindTable (JStr (targetKindStr k)) = Some k"
    by (cases k) (simp_all add: decEnum_def targetKindTable_def)
  show "decEnum workCopyTable (JStr (workCopyStr w)) = Some w"
    by (cases w) (simp_all add: decEnum_def workCopyTable_def)
qed

lemma decExecution_enc [simp]: "validRuntimeExecutionScope P x \<Longrightarrow> decExecution P (executionJson x) = Some x"
  by (cases x) (simp add: decExecution_def executionJson_def)

lemma decEvidence_enc [simp]: "validRuntimeEvidenceRef P x \<Longrightarrow> decEvidence P (evidenceJson x) = Some x"
  by (cases x) (simp add: decEvidence_def evidenceJson_def)

lemma bind_accept: "Option.bind x (accept p) = Some y \<longleftrightarrow> x = Some y \<and> p y"
  by (cases x) auto

lemma decContent_enc [simp]: "validRuntimeContentRef P c \<Longrightarrow> decContent P (contentJson c) = Some c"
  by (cases c) (simp_all add: decContent_def)

lemma those_map: "(\<And>x. x \<in> set xs \<Longrightarrow> d (enc x) = Some x) \<Longrightarrow> those (map d (map enc xs)) = Some xs"
  by (induction xs) simp_all

lemma decArr_enc: "(\<And>x. x \<in> set xs \<Longrightarrow> d (enc x) = Some x) \<Longrightarrow> decArr d (JArr (map enc xs)) = Some xs"
  unfolding decArr_def using those_map [of xs d enc] by simp

lemma decNetwork_enc [simp]: "validSandboxNetworkRequest P n \<Longrightarrow> decNetwork P (networkJson n) = Some n"
  using decArr_enc [of n decStr JStr] by (simp add: decNetwork_def networkJson_def jStrs_def)

lemma decEnum_data_tables [simp]:
  "decEnum dataPurposeTable (JStr (dataPurposeStr p)) = Some p"
  "decEnum dataDestinationTable (JStr (dataDestinationStr d)) = Some d"
  "decEnum requesterTable (JStr (requesterTypeStr r)) = Some r"
proof -
  show "decEnum dataPurposeTable (JStr (dataPurposeStr p)) = Some p"
    by (cases p) (simp_all add: decEnum_def dataPurposeTable_def)
  show "decEnum dataDestinationTable (JStr (dataDestinationStr d)) = Some d"
    by (cases d) (simp_all add: decEnum_def dataDestinationTable_def)
  show "decEnum requesterTable (JStr (requesterTypeStr r)) = Some r"
    by (cases r) (simp_all add: decEnum_def requesterTable_def)
qed

lemma decDataScope_enc [simp]:
  assumes "validRuntimeDataScope P d"
  shows "decDataScope P (dataScopeJson d) = Some d"
proof -
  have n: "networkJson x \<noteq> JUndefined" for x by (simp add: networkJson_def)
  have "validRuntimeContentRef P (ds_content d)" "optAll (validSandboxNetworkRequest P) (ds_externalNetwork d)"
    using assms by (simp_all add: validRuntimeDataScope_def)
  then show ?thesis
    using assms n
    by (cases d; cases "ds_externalNetwork d")
      (simp_all add: decDataScope_def dataScopeJson_def optProp_def decOptional_def)
qed

lemma decCommandBinding_enc [simp]:
  "validRuntimeCommandBinding c \<Longrightarrow> decCommandBinding (commandBindingJson c) = Some c"
  by (cases c) (simp add: decCommandBinding_def commandBindingJson_def)

lemma decBinding_enc:
  assumes "parseRuntimeActionBinding P b = Inr b'"
  shows "decBinding P (bindingJson b) = Some b'"
proof -
  have v: "validRuntimeActionBinding P b" using assms by (auto simp: parseRuntimeActionBinding_def split: if_splits)
  have ds: "decArr (decDataScope P) (JArr (map dataScopeJson (ab_dataScope b))) = Some (ab_dataScope b)"
    "decArr (decContent P) (JArr (map contentJson (ab_baseline b))) = Some (ab_baseline b)"
    using v by (auto simp: validRuntimeActionBinding_def list_all_iff intro!: decArr_enc)
  have c: "decNullable decCommandBinding (jOpt commandBindingJson (ab_command b)) = Some (ab_command b)"
  proof -
    have "commandBindingJson a \<noteq> JNull" for a by (simp add: commandBindingJson_def)
    then show ?thesis
      using v by (cases "ab_command b") (auto simp: decNullable_def jOpt_def validRuntimeActionBinding_def)
  qed
  show ?thesis
    using v ds c assms
    by (cases b) (simp add: decBinding_def bindingJson_def validRuntimeActionBinding_def)
qed

lemma decBinding_valid: "decBinding P v = Some b \<Longrightarrow> validRuntimeActionBinding P b \<and> trim (ab_action b) = ab_action b"
  by (auto simp: decBinding_def bind_eq_Some_conv parseRuntimeActionBinding_def
      validRuntimeActionBinding_def split: sum.splits if_splits)

end
