(* ===== verification/IsoTime.thy ===== *)
theory IsoTime
  imports JsonValue "HOL-Library.Monad_Syntax"
begin

text \<open>
  What the code uses of the JavaScript \<open>Date\<close>: \<open>Date.parse\<close> on the date-time interchange format
  with an explicit offset (every parsed string of the repository is checked by
  \<open>TimestampSchema\<close> or was written by \<open>toISOString\<close>) and \<open>toISOString\<close>.  Time values are
  integers, milliseconds since the epoch, proleptic Gregorian.  Strings in other formats, which
  the language leaves to the implementation, are not in the domain of the model and parse to None
  (NaN).  Shown: \<open>Date.parse\<close> inverts \<open>toISOString\<close>.
\<close>

section \<open>The calendar\<close>

definition isLeapYear :: "int \<Rightarrow> bool" where
  "isLeapYear y \<longleftrightarrow> y mod 4 = 0 \<and> (y mod 100 \<noteq> 0 \<or> y mod 400 = 0)"

text \<open>Days from the epoch to the first of January of a year.\<close>

definition dayFromYear :: "int \<Rightarrow> int" where
  "dayFromYear y = 365 * (y - 1970) + ((y - 1) div 4 - (y - 1) div 100 + (y - 1) div 400 - 477)"

definition monthLengths :: "int \<Rightarrow> int list" where
  "monthLengths y = [31, if isLeapYear y then 29 else 28, 31, 30, 31, 30, 31, 31, 30, 31, 30, 31]"

definition dayNumber :: "int \<Rightarrow> nat \<Rightarrow> nat \<Rightarrow> int" where
  "dayNumber y m d = dayFromYear y + sum_list (take (m - 1) (monthLengths y)) + int d - 1"

definition msPerDay :: int where "msPerDay = 86400000"

definition yearFromDay :: "int \<Rightarrow> int" where
  "yearFromDay day = (let y = 1970 + (400 * day - 593) div 146097 in
     if dayFromYear (y + 1) \<le> day then y + 1 else y)"

fun monthAndDay :: "nat \<Rightarrow> int list \<Rightarrow> int \<Rightarrow> nat \<times> nat" where
  "monthAndDay m [] r = (m, nat r + 1)"
| "monthAndDay m (l # ls) r = (if r < l then (m, nat r + 1) else monthAndDay (m + 1) ls (r - l))"

lemma dayFromYear_bounds:
  "146097 * (y - 1970) - 506 \<le> 400 * dayFromYear y" "400 * dayFromYear y \<le> 146097 * (y - 1970) + 593"
proof -
  define n where "n = y - 1"
  have b: "4 * (n div 4) + n mod 4 = n" "100 * (n div 100) + n mod 100 = n" "400 * (n div 400) + n mod 400 = n"
    "0 \<le> n mod 4" "n mod 4 \<le> 3" "0 \<le> n mod 100" "n mod 100 \<le> 99" "0 \<le> n mod 400" "n mod 400 \<le> 399"
    using pos_mod_bound [of 4 n] pos_mod_bound [of 100 n] pos_mod_bound [of 400 n] by simp_all
  have lin: "- 506 \<le> 400 * (365 * (k - 1969) + (a - b + c - 477)) - 146097 * (k - 1969) \<and>
      400 * (365 * (k - 1969) + (a - b + c - 477)) - 146097 * (k - 1969) \<le> 593"
    if "4 * a + p = k" "100 * b + q = k" "400 * c + r = k" "0 \<le> p" "p \<le> 3" "0 \<le> q" "q \<le> 99" "0 \<le> r" "r \<le> 399"
    for a b c k p q r :: int
    using that by (simp add: algebra_simps)
  have "dayFromYear y = 365 * (n - 1969) + (n div 4 - n div 100 + n div 400 - 477)" "y - 1970 = n - 1969"
    by (simp_all add: dayFromYear_def n_def)
  then show "146097 * (y - 1970) - 506 \<le> 400 * dayFromYear y" "400 * dayFromYear y \<le> 146097 * (y - 1970) + 593"
    using lin [OF b] by simp_all
qed

lemma div_pred:
  assumes "0 < (k :: int)"
  shows "y div k = (y - 1) div k + (if y mod k = 0 then 1 else 0)"
proof -
  define q r where "q = (y - 1) div k" and "r = (y - 1) mod k"
  have y: "y = k * q + (r + 1)" and r: "0 \<le> r" "r < k"
    using assms mult_div_mod_eq [of k "y - 1"] by (auto simp: q_def r_def)
  show ?thesis
  proof (cases "r + 1 = k")
    case True
    then have "y = k * (q + 1)" using y by (simp add: algebra_simps)
    then have "y div k = q + 1" "y mod k = 0" using assms by simp_all
    then show ?thesis by (simp add: q_def)
  next
    case False
    then have "r + 1 < k" using r by simp
    then have "y div k = q" "y mod k = r + 1" using y r by (simp_all add: div_pos_pos_trivial)
    then show ?thesis using r q_def by simp
  qed
qed

lemma dayFromYear_next: "dayFromYear (y + 1) = dayFromYear y + sum_list (monthLengths y)"
proof -
  have lin: "a - b + c = a' - b' + c' + (if p \<and> (\<not> q \<or> r) then 1 else 0)"
    if "a = a' + (if p then 1 else 0)" "b = b' + (if q then 1 else 0)" "c = c' + (if r then 1 else 0)"
      "r \<longrightarrow> q" "q \<longrightarrow> p" for a b c a' b' c' :: int and p q r
    using that by (cases p; cases q; cases r) simp_all
  have m: "y mod 400 = 0 \<longrightarrow> y mod 100 = 0" "y mod 100 = 0 \<longrightarrow> y mod 4 = 0"
    using dvd_trans [of 100 400 y] dvd_trans [of 4 100 y] by (simp_all add: mod_eq_0_iff_dvd)
  note d = zero_less_numeral [THEN div_pred]
  have "y div 4 - y div 100 + y div 400 = (y - 1) div 4 - (y - 1) div 100 + (y - 1) div 400
    + (if isLeapYear y then 1 else 0)"
    unfolding isLeapYear_def by (rule lin [OF d d d m])
  then show ?thesis
    by (simp add: dayFromYear_def monthLengths_def)
qed

lemma yearFromDay:
  "dayFromYear (yearFromDay day) \<le> day \<and> day < dayFromYear (yearFromDay day + 1)"
proof -
  define y where "y = 1970 + (400 * day - 593) div 146097"
  have b: "146097 * (y - 1970) \<le> 400 * day - 593" "400 * day - 593 < 146097 * (y - 1970) + 146097"
    using mult_div_mod_eq [of 146097 "400 * day - 593"] pos_mod_bound [of 146097 "400 * day - 593"]
      pos_mod_sign [of 146097 "400 * day - 593"] unfolding y_def by simp_all
  have "dayFromYear y \<le> day" using b(1) dayFromYear_bounds(2) [of y] by simp
  moreover have "day < dayFromYear (y + 2)" using b(2) dayFromYear_bounds(1) [of "y + 2"] by simp
  ultimately show ?thesis
    unfolding yearFromDay_def y_def [symmetric] by (simp add: Let_def add.assoc)
qed

lemma monthAndDay:
  assumes "0 \<le> r" "r < sum_list ls" "monthAndDay m ls r = (m', d)" "\<forall>l \<in> set ls. l \<le> 31"
  shows "m \<le> m' \<and> m' < m + length ls \<and> 1 \<le> d \<and> d \<le> 31 \<and> sum_list (take (m' - m) ls) + int d - 1 = r"
  using assms
proof (induction m ls r rule: monthAndDay.induct)
  case (2 m l ls r)
  show ?case
  proof (cases "r < l")
    case True
    then show ?thesis using 2 by auto
  next
    case False
    from 2(1) [OF False] 2(2-) False
    have "m + 1 \<le> m' \<and> m' < m + 1 + length ls \<and> 1 \<le> d \<and> d \<le> 31 \<and>
      sum_list (take (m' - (m + 1)) ls) + int d - 1 = r - l" by simp
    moreover from this have "m' - m = Suc (m' - (m + 1))" by linarith
    ultimately show ?thesis by simp
  qed
qed simp

lemma dayNumber_inverse:
  assumes "y = yearFromDay day" "(m, d) = monthAndDay 1 (monthLengths y) (day - dayFromYear y)"
  shows "1 \<le> m \<and> m \<le> 12 \<and> 1 \<le> d \<and> d \<le> 31 \<and> dayNumber y m d = day"
proof -
  have "0 \<le> day - dayFromYear y" "day - dayFromYear y < sum_list (monthLengths y)"
    using yearFromDay [of day] dayFromYear_next [of y] assms(1) by auto
  moreover have "\<forall>l \<in> set (monthLengths y). l \<le> 31" "length (monthLengths y) = 12"
    by (auto simp: monthLengths_def)
  ultimately have "1 \<le> m \<and> m < 1 + 12 \<and> 1 \<le> d \<and> d \<le> 31 \<and>
    sum_list (take (m - 1) (monthLengths y)) + int d - 1 = day - dayFromYear y"
    using monthAndDay [of "day - dayFromYear y" "monthLengths y" 1 m d] assms(2) by simp
  then show ?thesis by (simp add: dayNumber_def)
qed

section \<open>Printing\<close>

fun padDigits :: "nat \<Rightarrow> nat \<Rightarrow> string" where
  "padDigits 0 n = []"
| "padDigits (Suc k) n = padDigits k (n div 10) @ [digitChar (n mod 10)]"

definition yearStr :: "int \<Rightarrow> string" where
  "yearStr y = (if 0 \<le> y \<and> y \<le> 9999 then padDigits 4 (nat y)
     else if y < 0 then CHR ''-'' # padDigits 6 (nat (- y)) else CHR ''+'' # padDigits 6 (nat y))"

text \<open>\<open>toISOString\<close> throws a RangeError on an invalid time value.\<close>

definition maxTime :: int where "maxTime = 8640000000000000"

definition toISOString :: "int \<Rightarrow> string option" where
  "toISOString t = (if t < - maxTime \<or> maxTime < t then None else
     let day = t div msPerDay; r = nat (t mod msPerDay); y = yearFromDay day;
         (m, d) = monthAndDay 1 (monthLengths y) (day - dayFromYear y)
     in Some (yearStr y @ ''-'' @ padDigits 2 m @ ''-'' @ padDigits 2 d @ ''T'' @
          padDigits 2 (r div 3600000) @ '':'' @ padDigits 2 (r div 60000 mod 60) @ '':'' @
          padDigits 2 (r div 1000 mod 60) @ ''.'' @ padDigits 3 (r mod 1000) @ ''Z''))"

section \<open>Parsing\<close>

definition digitVal :: "char \<Rightarrow> nat option" where
  "digitVal c = (if isDigitChar c then Some (of_char c - 48) else None)"

fun readDigits :: "nat \<Rightarrow> nat \<Rightarrow> string \<Rightarrow> (nat \<times> string) option" where
  "readDigits 0 acc s = Some (acc, s)"
| "readDigits (Suc k) acc [] = None"
| "readDigits (Suc k) acc (c # s) = do { v \<leftarrow> digitVal c; readDigits k (acc * 10 + v) s }"

fun readChar :: "char \<Rightarrow> string \<Rightarrow> string option" where
  "readChar c [] = None"
| "readChar c (x # s) = (if x = c then Some s else None)"

definition readYear :: "string \<Rightarrow> (int \<times> string) option" where
  "readYear s = (case s of
     [] \<Rightarrow> None
   | c # s' \<Rightarrow>
       if c = CHR ''+'' then map_option (\<lambda>(n, r). (int n, r)) (readDigits 6 0 s')
       else if c = CHR ''-'' then map_option (\<lambda>(n, r). (- int n, r)) (readDigits 6 0 s')
       else map_option (\<lambda>(n, r). (int n, r)) (readDigits 4 0 s))"

text \<open>Any number of fraction digits; the ones after the third are dropped.\<close>

definition readFraction :: "string \<Rightarrow> (nat \<times> string) option" where
  "readFraction s = (let ds = takeWhile isDigitChar s; rest = dropWhile isDigitChar s in
     if ds = [] then None
     else map_option (\<lambda>(n, _). (n, rest)) (readDigits 3 0 (ds @ ''00'')))"

definition readSeconds :: "string \<Rightarrow> (nat \<times> nat \<times> string) option" where
  "readSeconds s = (case readChar (CHR '':'') s of
     None \<Rightarrow> Some (0, 0, s)
   | Some s1 \<Rightarrow> do {
       (sec, s2) \<leftarrow> readDigits 2 0 s1;
       (case readChar (CHR ''.'') s2 of
          None \<Rightarrow> Some (sec, 0, s2)
        | Some s3 \<Rightarrow> do { (ms, s4) \<leftarrow> readFraction s3; Some (sec, ms, s4) }) })"

text \<open>The offset in minutes.\<close>

definition readOffset :: "string \<Rightarrow> int option" where
  "readOffset s =
     (if s = ''Z'' then Some 0
      else case s of
          [] \<Rightarrow> None
        | c # s1 \<Rightarrow> if c \<noteq> CHR ''+'' \<and> c \<noteq> CHR ''-'' then None else do {
            (h, s2) \<leftarrow> readDigits 2 0 s1;
            s3 \<leftarrow> readChar (CHR '':'') s2;
            (m, s4) \<leftarrow> readDigits 2 0 s3;
            if s4 = [] \<and> h < 24 \<and> m < 60
            then Some ((if c = CHR ''-'' then -1 else 1) * (int h * 60 + int m)) else None })"

definition dateParse :: "string \<Rightarrow> int option" where
  "dateParse s = do {
     (y, s1) \<leftarrow> readYear s;
     s2 \<leftarrow> readChar (CHR ''-'') s1;
     (mo, s3) \<leftarrow> readDigits 2 0 s2;
     s4 \<leftarrow> readChar (CHR ''-'') s3;
     (d, s5) \<leftarrow> readDigits 2 0 s4;
     s6 \<leftarrow> readChar (CHR ''T'') s5;
     (h, s7) \<leftarrow> readDigits 2 0 s6;
     s8 \<leftarrow> readChar (CHR '':'') s7;
     (mi, s9) \<leftarrow> readDigits 2 0 s8;
     (sec, ms, s10) \<leftarrow> readSeconds s9;
     off \<leftarrow> readOffset s10;
     (if 1 \<le> mo \<and> mo \<le> 12 \<and> 1 \<le> d \<and> d \<le> 31 \<and> mi < 60 \<and> sec < 60 \<and>
         (h < 24 \<or> (h = 24 \<and> mi = 0 \<and> sec = 0 \<and> ms = 0))
      then let t = dayNumber y mo d * msPerDay + int h * 3600000 + int mi * 60000 + int sec * 1000 + int ms
             - off * 60000
        in if t < - maxTime \<or> maxTime < t then None else Some t
      else None) }"

section \<open>Parsing inverts printing\<close>

lemma digitVal_digitChar [simp]: "n < 10 \<Longrightarrow> digitVal (digitChar n) = Some n"
  by (simp add: digitVal_def digitChar_def isDigitChar_def)

lemma readDigits_append:
  "readDigits (m + k) acc (xs @ s) = Option.bind (readDigits m acc xs) (\<lambda>(a, r). readDigits k a (r @ s))"
  if "length xs = m"
  using that by (induction m arbitrary: acc xs) (auto simp: length_Suc_conv bind_assoc split: bind_split)

lemma readDigits_pad:
  "readDigits k acc (padDigits k n @ s) = Some (acc * 10 ^ k + n mod 10 ^ k, s)"
proof (induction k arbitrary: n s)
  case (Suc k)
  have l: "length (padDigits k m) = k" for m by (induction k arbitrary: m) auto
  have "readDigits (k + 1) acc (padDigits k (n div 10) @ digitChar (n mod 10) # s) =
    Option.bind (readDigits k acc (padDigits k (n div 10))) (\<lambda>(a, r). readDigits 1 a (r @ digitChar (n mod 10) # s))"
    by (rule readDigits_append [OF l])
  moreover have "readDigits k acc (padDigits k (n div 10)) = Some (acc * 10 ^ k + n div 10 mod 10 ^ k, [])"
    using Suc.IH [of "n div 10" "[]"] by simp
  moreover have "10 * (n div 10 mod 10 ^ k) + n mod 10 = n mod 10 ^ Suc k"
    by (simp add: mod_mult2_eq)
  ultimately show ?case by (simp add: algebra_simps)
qed simp

lemma readChar_same [simp]: "readChar c (c # s) = Some s"
  by simp

lemma length_padDigits [simp]: "length (padDigits k n) = k"
  by (induction k arbitrary: n) auto

lemma padDigits_digits: "c \<in> set (padDigits k n) \<Longrightarrow> isDigitChar c"
  by (induction k arbitrary: n) (auto simp: isDigitChar_def digitChar_def)

lemma readYear_yearStr:
  assumes "\<bar>y\<bar> \<le> 999999"
  shows "readYear (yearStr y @ s) = Some (y, s)"
proof -
  have plain: "readYear (padDigits 4 n @ s) = map_option (\<lambda>(n, r). (int n, r)) (readDigits 4 0 (padDigits 4 n @ s))" for n
  proof -
    obtain c cs where c: "padDigits 4 n = c # cs" using length_padDigits [of 4 n] by (cases "padDigits 4 n") auto
    then have "isDigitChar c" using padDigits_digits [of c 4 n] by simp
    then have "c \<noteq> CHR ''+''" "c \<noteq> CHR ''-''" by (auto simp: isDigitChar_def)
    then show ?thesis by (simp add: readYear_def c)
  qed
  consider "0 \<le> y" "y \<le> 9999" | "y < 0" | "9999 < y" by linarith
  then show ?thesis
  proof cases
    case 1
    then show ?thesis by (simp add: yearStr_def plain readDigits_pad)
  next
    case 2
    then show ?thesis using assms by (simp add: yearStr_def readYear_def readDigits_pad)
  next
    case 3
    then show ?thesis using assms by (simp add: yearStr_def readYear_def readDigits_pad)
  qed
qed

lemma readSeconds_print:
  assumes "sec < 60" "ms < 1000"
  shows "readSeconds ('':'' @ padDigits 2 sec @ ''.'' @ padDigits 3 ms @ ''Z'') = Some (sec, ms, ''Z'')"
proof -
  have z: "takeWhile isDigitChar (padDigits 3 ms @ ''Z'') = padDigits 3 ms"
    "dropWhile isDigitChar (padDigits 3 ms @ ''Z'') = ''Z''"
    using padDigits_digits [of _ 3 ms]
    by (simp_all add: takeWhile_append2 dropWhile_append2 isDigitChar_def [of "CHR ''Z''"])
  have "padDigits 3 ms \<noteq> []" using length_padDigits [of 3 ms] by force
  then have "readFraction (padDigits 3 ms @ ''Z'') = Some (ms, ''Z'')"
    using assms(2) z by (simp add: readFraction_def readDigits_pad)
  then show ?thesis using assms(1) by (simp add: readSeconds_def readDigits_pad)
qed

lemma yearFromDay_range:
  assumes "\<bar>day\<bar> \<le> 100000001"
  shows "\<bar>yearFromDay day\<bar> \<le> 999999"
proof -
  have lin: "\<bar>y\<bar> \<le> 999999" if "a \<le> k" "k < b" "146097 * (y - 1970) - 506 \<le> 400 * a"
    "400 * b \<le> 146097 * (y + 1 - 1970) + 593" "\<bar>k\<bar> \<le> 100000001" for a b k y :: int
    using that by (simp add: abs_le_iff)
  show ?thesis
    using lin [OF _ _ dayFromYear_bounds(1) dayFromYear_bounds(2) assms] yearFromDay [of day] by blast
qed

lemma timeOfDay:
  assumes "0 \<le> (r :: int)" "r < 86400000" "n = nat r"
  shows "n div 3600000 < 24" "n div 60000 mod 60 < 60" "n div 1000 mod 60 < 60" "n mod 1000 < 1000"
    "int (n div 3600000) * 3600000 + int (n div 60000 mod 60) * 60000 + int (n div 1000 mod 60) * 1000
      + int (n mod 1000) = r"
proof -
  have n: "n < 86400000" "int n = r" using assms by auto
  show "n div 3600000 < 24" using n(1) by (simp add: less_mult_imp_div_less)
  have "n = n div 3600000 * 3600000 + n div 60000 mod 60 * 60000 + n div 1000 mod 60 * 1000 + n mod 1000"
  proof -
    have "n = n div 1000 * 1000 + n mod 1000" by simp
    moreover have "n div 1000 = n div 60000 * 60 + n div 1000 mod 60"
      using div_mult_mod_eq [of "n div 1000" 60] by (simp add: div_mult2_eq [symmetric])
    moreover have "n div 60000 = n div 3600000 * 60 + n div 60000 mod 60"
      using div_mult_mod_eq [of "n div 60000" 60] by (simp add: div_mult2_eq [symmetric])
    ultimately show ?thesis by linarith
  qed
  then have "int n = int (n div 3600000 * 3600000 + n div 60000 mod 60 * 60000 + n div 1000 mod 60 * 1000 + n mod 1000)"
    by presburger
  then show "int (n div 3600000) * 3600000 + int (n div 60000 mod 60) * 60000 + int (n div 1000 mod 60) * 1000
      + int (n mod 1000) = r" using n(2) by (simp add: algebra_simps)
qed simp_all

lemma dateParse_toISOString:
  assumes "toISOString t = Some s"
  shows "dateParse s = Some t"
proof -
  define day r y where "day = t div msPerDay" and "r = nat (t mod msPerDay)" and "y = yearFromDay day"
  obtain m d where md: "(m, d) = monthAndDay 1 (monthLengths y) (day - dayFromYear y)" by (metis surj_pair)
  have range: "\<not> (t < - maxTime \<or> maxTime < t)" using assms by (auto simp: toISOString_def split: if_splits)
  have s: "s = yearStr y @ ''-'' @ padDigits 2 m @ ''-'' @ padDigits 2 d @ ''T'' @
          padDigits 2 (r div 3600000) @ '':'' @ padDigits 2 (r div 60000 mod 60) @ '':'' @
          padDigits 2 (r div 1000 mod 60) @ ''.'' @ padDigits 3 (r mod 1000) @ ''Z''"
    using assms range md by (simp add: toISOString_def Let_def day_def r_def y_def split: prod.splits)
  have mod: "0 \<le> t mod msPerDay" "t mod msPerDay < 86400000" by (simp_all add: msPerDay_def)
  note tod = timeOfDay [OF mod r_def]
  have "\<bar>day\<bar> \<le> 100000001"
  proof -
    have "msPerDay * day + t mod msPerDay = t" by (simp add: day_def)
    with range mod have "-8640000000000000 \<le> 86400000 * day + 86400000" "86400000 * day \<le> 8640000000000000"
      unfolding maxTime_def msPerDay_def by linarith+
    then show ?thesis by linarith
  qed
  then have y: "\<bar>y\<bar> \<le> 999999" unfolding y_def by (rule yearFromDay_range)
  have dn: "1 \<le> m" "m \<le> 12" "1 \<le> d" "d \<le> 31" "dayNumber y m d = day"
    using dayNumber_inverse [OF y_def md] by simp_all
  have t: "day * msPerDay + int (r div 3600000) * 3600000 + int (r div 60000 mod 60) * 60000
      + int (r div 1000 mod 60) * 1000 + int (r mod 1000) = t"
  proof -
    have sum: "a * x + p + q + u + v = z" if "p + q + u + v = w" "a * x + w = z" for a x p q u v w z :: int
      using that by simp
    show ?thesis by (rule sum [OF tod(5)]) (simp add: day_def)
  qed
  have "readOffset ''Z'' = Some 0" by (simp add: readOffset_def)
  then show ?thesis
    unfolding s dateParse_def
    using dn tod(1-4) t range
    by (simp add: readYear_yearStr [OF y] readDigits_pad readSeconds_print [simplified] Let_def)
qed

end
