(* ===== verification/Authorization.thy ===== *)
theory Authorization
  imports Decode IsoTime
begin

text \<open>
  packages/contracts/src/authorization.ts (resource decisions for a request context and for
  delegated execution), packages/contracts/src/runtime-v2/policy.ts (the runtime policy
  calculation, relative paths, static previews) and packages/contracts/src/work-automation.ts.
  Shown: exactly when each decision allows, that a deny rule and the platform list win over
  everything else, that the member's automation setting never turns a deny into anything else or
  the other way round, and that an accepted relative path cannot leave its root.
\<close>

section \<open>Contexts and resources\<close>

datatype Actor = ActorUser string | ActorService string | ActorWorker string | ActorSystem

fun validActor :: "platform \<Rightarrow> Actor \<Rightarrow> bool" where
  "validActor P (ActorUser i) = zUuid P i"
| "validActor P (ActorService i) = zUuid P i"
| "validActor P (ActorWorker i) = zUuid P i"
| "validActor P ActorSystem = True"

datatype Visibility = Vis_private | Vis_workspace | Vis_organization

record ResourceRef =
  rf_type :: string
  rf_id :: string
  rf_organizationId :: string
  rf_workspaceId :: "string option"
  rf_ownerId :: "string option"
  rf_visibility :: Visibility
  rf_archivedAt :: "string option"

definition validResourceRef :: "platform \<Rightarrow> ResourceRef \<Rightarrow> bool" where
  "validResourceRef P r \<longleftrightarrow> lenIn 1 64 (rf_type r) \<and> zUuid P (rf_id r) \<and> zUuid P (rf_organizationId r) \<and>
     optAll (zUuid P) (rf_workspaceId r) \<and> optAll (zUuid P) (rf_ownerId r) \<and>
     optAll (zDatetime P) (rf_archivedAt r)"

datatype Role = Role_admin | Role_member | Role_viewer

datatype Action =
    Act_resource_read | Act_resource_write | Act_resource_share | Act_resource_delete
  | Act_job_execute | Act_approval_decide | Act_settings_manage | Act_secret_use

record Membership =
  mb_id :: string
  mb_userId :: string
  mb_organizationId :: string
  mb_workspaceId :: "string option"
  mb_role :: Role
  mb_active :: bool

definition validMembership :: "platform \<Rightarrow> Membership \<Rightarrow> bool" where
  "validMembership P m \<longleftrightarrow> zUuid P (mb_id m) \<and> zUuid P (mb_userId m) \<and> zUuid P (mb_organizationId m) \<and>
     optAll (zUuid P) (mb_workspaceId m)"

record RequestContext =
  rc_requestId :: string
  rc_sessionId :: string
  rc_actor :: Actor
  rc_organizationId :: string
  rc_workspaceId :: "string option"
  rc_memberships :: "Membership list"
  rc_authenticatedAt :: string

text \<open>The picked fields, and the whole schema.\<close>

definition validPickedContext :: "platform \<Rightarrow> RequestContext \<Rightarrow> bool" where
  "validPickedContext P c \<longleftrightarrow> zUuid P (rc_requestId c) \<and> validActor P (rc_actor c) \<and>
     zUuid P (rc_organizationId c) \<and> optAll (zUuid P) (rc_workspaceId c) \<and>
     list_all (validMembership P) (rc_memberships c)"

definition validRequestContext :: "platform \<Rightarrow> RequestContext \<Rightarrow> bool" where
  "validRequestContext P c \<longleftrightarrow> validPickedContext P c \<and> zUuid P (rc_sessionId c) \<and>
     zDatetime P (rc_authenticatedAt c)"

record PolicyGrant =
  pg_resourceType :: string
  pg_action :: Action
  pg_workspaceId :: "string option"

record PolicySnapshot =
  ps_id :: string
  ps_organizationId :: string
  ps_subjectId :: string
  ps_version :: int
  ps_issuedAt :: string
  ps_expiresAt :: string
  ps_memberships :: "Membership list"
  ps_grants :: "PolicyGrant list"

definition validPolicyGrant :: "platform \<Rightarrow> PolicyGrant \<Rightarrow> bool" where
  "validPolicyGrant P g \<longleftrightarrow> lenIn 1 64 (pg_resourceType g) \<and> optAll (zUuid P) (pg_workspaceId g)"

definition validPolicySnapshot :: "platform \<Rightarrow> PolicySnapshot \<Rightarrow> bool" where
  "validPolicySnapshot P s \<longleftrightarrow> zUuid P (ps_id s) \<and> zUuid P (ps_organizationId s) \<and> zUuid P (ps_subjectId s) \<and>
     zPositive (ps_version s) \<and> zDatetime P (ps_issuedAt s) \<and> zDatetime P (ps_expiresAt s) \<and>
     list_all (validMembership P) (ps_memberships s) \<and> list_all (validPolicyGrant P) (ps_grants s)"

record ExecutionContext =
  xc_executionId :: string
  xc_runId :: string
  xc_jobId :: string
  xc_worker :: Actor
  xc_delegatedBy :: Actor
  xc_organizationId :: string
  xc_workspaceId :: "string option"
  xc_policySnapshot :: PolicySnapshot
  xc_startedAt :: string

definition validExecutionContext :: "platform \<Rightarrow> ExecutionContext \<Rightarrow> bool" where
  "validExecutionContext P c \<longleftrightarrow> zUuid P (xc_executionId c) \<and> zUuid P (xc_runId c) \<and> zUuid P (xc_jobId c) \<and>
     validActor P (xc_worker c) \<and> (\<exists>i. xc_worker c = ActorWorker i) \<and>
     validActor P (xc_delegatedBy c) \<and>
     ((\<exists>i. xc_delegatedBy c = ActorUser i) \<or> (\<exists>i. xc_delegatedBy c = ActorService i)) \<and>
     zUuid P (xc_organizationId c) \<and> optAll (zUuid P) (xc_workspaceId c) \<and>
     validPolicySnapshot P (xc_policySnapshot c) \<and> zDatetime P (xc_startedAt c)"

section \<open>Decisions\<close>

datatype AuthorizationReason =
    Allowed_owner | Allowed_membership | Allowed_explicit_grant
  | Denied_unauthenticated_actor | Denied_tenant_mismatch | Denied_workspace_mismatch
  | Denied_private_resource | Denied_archived_resource | Denied_role

record AuthorizationDecision =
  ad_allowed :: bool
  ad_reason :: AuthorizationReason

abbreviation allowedBy :: "AuthorizationReason \<Rightarrow> AuthorizationDecision" where
  "allowedBy r \<equiv> \<lparr>ad_allowed = True, ad_reason = r\<rparr>"

abbreviation deniedBy :: "AuthorizationReason \<Rightarrow> AuthorizationDecision" where
  "deniedBy r \<equiv> \<lparr>ad_allowed = False, ad_reason = r\<rparr>"

text \<open>A nullable string in a condition: null and the empty string are falsy.\<close>

definition truthyStr :: "string option \<Rightarrow> bool" where
  "truthyStr x \<longleftrightarrow> x \<noteq> None \<and> x \<noteq> Some []"

definition authorizeResource ::
  "platform \<Rightarrow> ResourceRef \<Rightarrow> Action \<Rightarrow> RequestContext \<Rightarrow> AuthorizationDecision result" where
  "authorizeResource P resource action context =
     (if \<not> validResourceRef P resource \<or> \<not> validPickedContext P context then Inl ZodError
      else case rc_actor context of
          ActorUser uid \<Rightarrow> Inr (
            if rf_organizationId resource \<noteq> rc_organizationId context then deniedBy Denied_tenant_mismatch
            else if truthyStr (rf_archivedAt resource) \<and> action \<noteq> Act_resource_read
              then deniedBy Denied_archived_resource
            else if rf_ownerId resource = Some uid then allowedBy Allowed_owner
            else if rf_visibility resource = Vis_private then deniedBy Denied_private_resource
            else
              let memberships = filter (\<lambda>m. mb_active m \<and> mb_userId m = uid \<and>
                    mb_organizationId m = rc_organizationId context) (rc_memberships context);
                  workspaceMemberships = filter (\<lambda>m. mb_workspaceId m = None \<or>
                    mb_workspaceId m = rf_workspaceId resource) memberships;
                  hasRole = (\<lambda>roles. list_ex (\<lambda>m. mb_role m \<in> set roles) workspaceMemberships)
              in if truthyStr (rf_workspaceId resource) \<and> length workspaceMemberships = 0
                   then deniedBy Denied_workspace_mismatch
                 else if action = Act_resource_read \<and> hasRole [Role_admin, Role_member, Role_viewer]
                   then allowedBy Allowed_membership
                 else deniedBy Denied_role)
        | _ \<Rightarrow> Inr (deniedBy Denied_unauthenticated_actor))"

definition authorize ::
  "platform \<Rightarrow> ResourceRef \<Rightarrow> Action \<Rightarrow> RequestContext \<Rightarrow> AuthorizationDecision result" where
  "authorize P resource action context =
     (if \<not> validRequestContext P context then Inl ZodError
      else authorizeResource P resource action context)"

text \<open>\<open>Date.parse\<close> of an unparsable time is NaN, and no comparison with NaN holds.\<close>

definition authorizeExecution ::
  "platform \<Rightarrow> ResourceRef \<Rightarrow> Action \<Rightarrow> ExecutionContext \<Rightarrow> int \<Rightarrow> AuthorizationDecision result" where
  "authorizeExecution P resource action context now =
     (if \<not> validResourceRef P resource \<or> \<not> validExecutionContext P context then Inl ZodError
      else let policy = xc_policySnapshot context in
        if xc_organizationId context \<noteq> ps_organizationId policy \<or>
           ps_organizationId policy \<noteq> rf_organizationId resource
          then Inr (deniedBy Denied_tenant_mismatch)
        else if xc_workspaceId context \<noteq> None \<and> rf_workspaceId resource \<noteq> xc_workspaceId context
          then Inr (deniedBy Denied_workspace_mismatch)
        else if (case dateParse (ps_expiresAt policy) of None \<Rightarrow> False | Some t \<Rightarrow> t \<le> now)
          then Inr (deniedBy Denied_role)
        else if rf_visibility resource = Vis_private \<and> rf_ownerId resource \<noteq> Some (ps_subjectId policy)
          then Inr (deniedBy Denied_private_resource)
        else if list_ex (\<lambda>g. pg_action g = action \<and> pg_resourceType g = rf_type resource \<and>
            (pg_workspaceId g = None \<or> pg_workspaceId g = rf_workspaceId resource)) (ps_grants policy)
          then Inr (allowedBy Allowed_explicit_grant)
        else Inr (deniedBy Denied_role))"

section \<open>Runtime policy\<close>

datatype PolicyEffect = Effect_deny | Effect_ask | Effect_allow
datatype PolicyMode = Mode_execute | Mode_plan_only

record PolicyRule =
  pr_action :: string
  pr_effect :: PolicyEffect

record RuntimePolicyControls =
  pc_version :: int
  pc_enabled :: bool
  pc_mode :: PolicyMode
  pc_rules :: "PolicyRule list"

definition validRuntimePolicyControls :: "RuntimePolicyControls \<Rightarrow> bool" where
  "validRuntimePolicyControls c \<longleftrightarrow> zPositive (pc_version c) \<and>
     list_all (\<lambda>r. lenIn 1 160 (pr_action r)) (pc_rules c) \<and> length (pc_rules c) \<le> 128"

definition effectTable :: "(string \<times> PolicyEffect) list" where
  "effectTable = [(''deny'', Effect_deny), (''ask'', Effect_ask), (''allow'', Effect_allow)]"

definition modeTable :: "(string \<times> PolicyMode) list" where
  "modeTable = [(''execute'', Mode_execute), (''plan_only'', Mode_plan_only)]"

definition decRule :: "jsval \<Rightarrow> PolicyRule option" where
  "decRule v = do {
     shape [''action'', ''effect''] v;
     a \<leftarrow> decStr (jget ''action'' v);
     e \<leftarrow> decEnum effectTable (jget ''effect'' v);
     Some \<lparr>pr_action = a, pr_effect = e\<rparr> }"

definition decControls :: "jsval \<Rightarrow> RuntimePolicyControls option" where
  "decControls v = do {
     shape [''version'', ''enabled'', ''mode'', ''rules''] v;
     n \<leftarrow> decInt (jget ''version'' v);
     e \<leftarrow> decBool (jget ''enabled'' v);
     m \<leftarrow> decEnum modeTable (jget ''mode'' v);
     r \<leftarrow> decArr decRule (jget ''rules'' v);
     accept validRuntimePolicyControls \<lparr>pc_version = n, pc_enabled = e, pc_mode = m, pc_rules = r\<rparr> }"

record RuntimePolicyDecision =
  pd_effect :: PolicyEffect
  pd_reason :: string

definition runtimeGovernedActions :: "string list" where
  "runtimeGovernedActions = [''assistant.delegate'', ''local.fs.list'', ''local.fs.search'', ''local.fs.read'',
     ''local.fs.write'', ''local.fs.mkdir'', ''local.file.inspect'', ''local.file.import'', ''local.file.save'',
     ''local.file.open'', ''local.file.reveal'', ''local.file.derive'', ''local.process.execute'',
     ''local.python.execute'', ''local.pdf.read'', ''local.fs.changeset'', ''cloud.process.execute'',
     ''cloud.mcp.call'', ''local.mcp.discover'', ''local.mcp.call'', ''cloud.browser.act'',
     ''cloud.browser.observe'', ''local.browser.act'', ''local.browser.observe'']"

definition readActions :: "string list" where
  "readActions = [''local.pdf.read'', ''local.fs.list'', ''local.fs.search'', ''local.fs.read'',
     ''local.file.inspect'', ''cloud.browser.observe'', ''local.browser.observe'']"

record WorkAutomation =
  wa_cloud :: bool
  wa_computer :: bool

definition defaultWorkAutomation :: WorkAutomation where
  "defaultWorkAutomation = \<lparr>wa_cloud = True, wa_computer = True\<rparr>"

datatype AutomationGroup = Group_cloud | Group_computer

definition workAutomationGroup :: "string \<Rightarrow> AutomationGroup option" where
  "workAutomationGroup action =
     (if action \<in> set [''local.fs.write'', ''local.fs.mkdir'', ''local.file.import'', ''local.file.derive'',
          ''local.file.save'', ''local.file.open'', ''local.file.reveal'', ''local.fs.changeset'',
          ''local.process.execute'', ''local.python.execute'', ''local.mcp.discover'', ''local.mcp.call'',
          ''local.browser.act'']
        then Some Group_computer
      else if action \<in> set [''cloud.process.execute'', ''cloud.mcp.call'', ''cloud.browser.act'']
        then Some Group_cloud
      else None)"

fun automationOf :: "WorkAutomation \<Rightarrow> AutomationGroup \<Rightarrow> bool" where
  "automationOf a Group_cloud = wa_cloud a"
| "automationOf a Group_computer = wa_computer a"

definition exactApprovalActions :: "string list" where
  "exactApprovalActions = [''local.process.execute'', ''local.python.execute'', ''local.fs.changeset'',
     ''cloud.process.execute'', ''cloud.mcp.call'', ''local.mcp.discover'', ''local.mcp.call'',
     ''cloud.browser.act'', ''local.browser.act'']"

abbreviation decides :: "PolicyEffect \<Rightarrow> string \<Rightarrow> RuntimePolicyDecision" where
  "decides e r \<equiv> \<lparr>pd_effect = e, pd_reason = r\<rparr>"

text \<open>The decision on parsed controls.\<close>

definition controlsDecision ::
  "RuntimePolicyControls \<Rightarrow> string \<Rightarrow> string list \<Rightarrow> WorkAutomation option \<Rightarrow> RuntimePolicyDecision" where
  "controlsDecision controls action platformDeniedActions automation =
     (if \<not> pc_enabled controls then decides Effect_deny ''runtime_policy_disabled''
      else if action \<notin> set runtimeGovernedActions then decides Effect_deny ''action_not_registered''
      else if action \<in> set platformDeniedActions then decides Effect_deny ''platform_deny''
      else if pc_mode controls = Mode_plan_only \<and> action \<notin> set readActions then decides Effect_deny ''plan_only''
      else
        let matches = filter (\<lambda>r. pr_action r = action) (pc_rules controls);
            some = (\<lambda>e. list_ex (\<lambda>r. pr_effect r = e) matches);
            member = (case (automation, workAutomationGroup action) of
                (Some a, Some g) \<Rightarrow> if some Effect_allow \<or> some Effect_ask then Some (automationOf a g) else None
              | _ \<Rightarrow> None)
        in
        if some Effect_deny then decides Effect_deny ''tenant_deny''
        else if action = ''local.pdf.read'' \<and> length matches = 0
          then decides Effect_allow ''published_document_read''
        else if member = Some True then decides Effect_allow ''member_scope_automation''
        else if member = Some False then decides Effect_ask ''member_confirmation_required''
        else if action = ''assistant.delegate'' \<and> length matches = 0
          then decides Effect_allow ''native_delegation_default''
        else if action = ''assistant.delegate'' \<and> some Effect_ask
          then decides Effect_deny ''delegation_requires_explicit_allow''
        else if some Effect_ask then decides Effect_ask ''exact_approval_required''
        else if action \<in> set exactApprovalActions \<and> some Effect_allow
          then decides Effect_ask ''exact_approval_required''
        else if some Effect_allow then decides Effect_allow ''explicit_policy_allow''
        else decides Effect_deny ''no_matching_policy'')"

text \<open>\<open>safeParse\<close> of the unknown controls first.\<close>

definition runtimePolicyActionDecision ::
  "jsval \<Rightarrow> string \<Rightarrow> string list \<Rightarrow> WorkAutomation option \<Rightarrow> RuntimePolicyDecision" where
  "runtimePolicyActionDecision controlsInput action platformDeniedActions automation =
     (case decControls controlsInput of
        None \<Rightarrow> decides Effect_deny ''invalid_policy_or_binding''
      | Some controls \<Rightarrow> controlsDecision controls action platformDeniedActions automation)"

definition controlsJson :: "RuntimePolicyControls \<Rightarrow> jsval" where
  "controlsJson c = JObj [(''version'', JNum (pc_version c)), (''enabled'', JBool (pc_enabled c)),
     (''mode'', JStr (case pc_mode c of Mode_execute \<Rightarrow> ''execute'' | Mode_plan_only \<Rightarrow> ''plan_only'')),
     (''rules'', JArr (map (\<lambda>r. JObj [(''action'', JStr (pr_action r)),
        (''effect'', JStr (case pr_effect r of Effect_deny \<Rightarrow> ''deny'' | Effect_ask \<Rightarrow> ''ask''
           | Effect_allow \<Rightarrow> ''allow''))]) (pc_rules c)))]"

definition evaluateRuntimePolicy ::
  "platform \<Rightarrow> jsval \<Rightarrow> jsval \<Rightarrow> string list \<Rightarrow> WorkAutomation option \<Rightarrow> RuntimePolicyDecision" where
  "evaluateRuntimePolicy P controlsInput bindingInput platformDeniedActions automation =
     (case (decControls controlsInput, decBinding P bindingInput) of
        (Some controls, Some binding) \<Rightarrow>
          runtimePolicyActionDecision (controlsJson controls) (ab_action binding) platformDeniedActions automation
      | _ \<Rightarrow> decides Effect_deny ''invalid_policy_or_binding'')"

section \<open>Relative paths and previews\<close>

definition isRuntimeRelativePath :: "jsval \<Rightarrow> bool" where
  "isRuntimeRelativePath v = (case v of
     JStr s \<Rightarrow> 0 < length s \<and> length s \<le> 4096 \<and> \<not> startsWith s ''/'' \<and>
       \<not> list_ex (\<lambda>c. c = CHR 0x5C \<or> c = CHR '':'') s \<and>
       list_all (\<lambda>c. 32 \<le> (of_char c :: nat) \<and> of_char c \<noteq> (127 :: nat)) s \<and>
       list_all (\<lambda>part. part \<noteq> [] \<and> part \<noteq> ''.'' \<and> part \<noteq> ''..'') (splitOn (CHR ''/'') s)
   | _ \<Rightarrow> False)"

datatype PreviewMode = Preview_authenticated_raster | Preview_escaped_text

record StaticPreviewPolicy =
  sp_mode :: PreviewMode
  sp_allowScripts :: bool
  sp_allowRemoteResources :: bool
  sp_allowMainOriginExecution :: bool
  sp_requiresCurrentAuthorization :: bool
  sp_responseHeaders :: "(string \<times> string) list"

definition runtimeRasterPreviewMaxBytes :: int where
  "runtimeRasterPreviewMaxBytes = 8000000"

definition runtimeStaticPreviewPolicy :: "string \<Rightarrow> StaticPreviewPolicy" where
  "runtimeStaticPreviewPolicy mimeType =
     (let raster = mimeType \<in> set [''image/png'', ''image/jpeg'', ''image/webp''] in
      \<lparr>sp_mode = (if raster then Preview_authenticated_raster else Preview_escaped_text),
       sp_allowScripts = False, sp_allowRemoteResources = False, sp_allowMainOriginExecution = False,
       sp_requiresCurrentAuthorization = True,
       sp_responseHeaders = [
         (''Content-Security-Policy'', ''default-src 'none'; sandbox; frame-ancestors 'none'' @ [CHR 0x27]),
         (''X-Content-Type-Options'', ''nosniff''), (''Referrer-Policy'', ''no-referrer'')]\<rparr>)"

section \<open>What the decisions mean\<close>

lemma authorizeResource_allowed_iff:
  assumes "authorizeResource P r act c = Inr d"
  shows "ad_allowed d \<longleftrightarrow> (\<exists>uid. rc_actor c = ActorUser uid \<and> rf_organizationId r = rc_organizationId c \<and>
    (act = Act_resource_read \<or> \<not> truthyStr (rf_archivedAt r)) \<and>
    (rf_ownerId r = Some uid \<or>
     (act = Act_resource_read \<and> rf_visibility r \<noteq> Vis_private \<and>
      (\<exists>m \<in> set (rc_memberships c). mb_active m \<and> mb_userId m = uid \<and>
         mb_organizationId m = rc_organizationId c \<and>
         (mb_workspaceId m = None \<or> mb_workspaceId m = rf_workspaceId r)))))"
proof (cases "rc_actor c")
  case (ActorUser uid)
  have role: "mb_role m = Role_admin \<or> mb_role m = Role_member \<or> mb_role m = Role_viewer \<longleftrightarrow> True" for m
    by (cases "mb_role m") simp_all
  show ?thesis
    using assms ActorUser
    by (auto simp: authorizeResource_def Let_def list_ex_iff filter_empty_conv role split: if_splits)
qed (use assms in \<open>auto simp: authorizeResource_def split: if_splits\<close>)

lemma authorizeExecution_allowed_iff:
  assumes "authorizeExecution P r act c now = Inr d"
  shows "ad_allowed d \<longleftrightarrow> (let p = xc_policySnapshot c in
    xc_organizationId c = ps_organizationId p \<and> ps_organizationId p = rf_organizationId r \<and>
    (xc_workspaceId c = None \<or> rf_workspaceId r = xc_workspaceId c) \<and>
    (\<forall>t. dateParse (ps_expiresAt p) = Some t \<longrightarrow> now < t) \<and>
    (rf_visibility r = Vis_private \<longrightarrow> rf_ownerId r = Some (ps_subjectId p)) \<and>
    (\<exists>g \<in> set (ps_grants p). pg_action g = act \<and> pg_resourceType g = rf_type r \<and>
       (pg_workspaceId g = None \<or> pg_workspaceId g = rf_workspaceId r)))"
  using assms by (auto simp: authorizeExecution_def Let_def list_ex_iff split: if_splits option.splits)

lemma decControls_enc: "validRuntimePolicyControls c \<Longrightarrow> decControls (controlsJson c) = Some c"
proof -
  assume v: "validRuntimePolicyControls c"
  have e: "decEnum effectTable (JStr (case e of Effect_deny \<Rightarrow> ''deny'' | Effect_ask \<Rightarrow> ''ask''
      | Effect_allow \<Rightarrow> ''allow'')) = Some e" for e
    by (cases e) (simp_all add: decEnum_def effectTable_def)
  have m: "decEnum modeTable (JStr (case m of Mode_execute \<Rightarrow> ''execute'' | Mode_plan_only \<Rightarrow> ''plan_only'')) = Some m"
    for m by (cases m) (simp_all add: decEnum_def modeTable_def)
  have r: "decArr decRule (JArr (map (\<lambda>r. JObj [(''action'', JStr (pr_action r)),
        (''effect'', JStr (case pr_effect r of Effect_deny \<Rightarrow> ''deny'' | Effect_ask \<Rightarrow> ''ask''
           | Effect_allow \<Rightarrow> ''allow''))]) rs)) = Some rs" for rs
    by (rule decArr_enc) (simp add: decRule_def e)
  show ?thesis using v by (cases c) (simp add: decControls_def controlsJson_def m r)
qed

lemma decControls_valid: "decControls v = Some c \<Longrightarrow> validRuntimePolicyControls c"
  by (auto simp: decControls_def bind_eq_Some_conv)

lemma evaluate_decision:
  "evaluateRuntimePolicy P v b denied auto = (case (decControls v, decBinding P b) of
     (Some controls, Some binding) \<Rightarrow> controlsDecision controls (ab_action binding) denied auto
   | _ \<Rightarrow> decides Effect_deny ''invalid_policy_or_binding'')"
proof (cases "decControls v")
  case (Some controls)
  then have "decControls (controlsJson controls) = Some controls"
    by (intro decControls_enc) (rule decControls_valid)
  then show ?thesis
    using Some by (cases "decBinding P b") (simp_all add: evaluateRuntimePolicy_def runtimePolicyActionDecision_def)
qed (simp add: evaluateRuntimePolicy_def)

definition ruleFor :: "RuntimePolicyControls \<Rightarrow> string \<Rightarrow> PolicyEffect \<Rightarrow> bool" where
  "ruleFor c act e \<longleftrightarrow> (\<exists>r \<in> set (pc_rules c). pr_action r = act \<and> pr_effect r = e)"

lemma some_ruleFor:
  "list_ex (\<lambda>r. pr_effect r = e) (filter (\<lambda>r. pr_action r = act) (pc_rules c)) \<longleftrightarrow> ruleFor c act e"
  by (auto simp: ruleFor_def list_ex_iff)

lemma no_match_ruleFor:
  "filter (\<lambda>r. pr_action r = act) (pc_rules c) = [] \<longleftrightarrow> (\<forall>e. \<not> ruleFor c act e)"
  by (auto simp: ruleFor_def filter_empty_conv)

text \<open>When the calculation denies, written as a condition on the rules.\<close>

definition policyDenies :: "RuntimePolicyControls \<Rightarrow> string \<Rightarrow> string list \<Rightarrow> bool" where
  "policyDenies c act denied \<longleftrightarrow>
     \<not> pc_enabled c \<or> act \<notin> set runtimeGovernedActions \<or> act \<in> set denied \<or>
     (pc_mode c = Mode_plan_only \<and> act \<notin> set readActions) \<or> ruleFor c act Effect_deny \<or>
     (if act = ''assistant.delegate'' then ruleFor c act Effect_ask
      else \<not> ruleFor c act Effect_allow \<and> \<not> ruleFor c act Effect_ask \<and> act \<noteq> ''local.pdf.read'')"

lemma exhaust_effects: "(\<forall>e. \<not> ruleFor c act e) \<longleftrightarrow>
    \<not> ruleFor c act Effect_deny \<and> \<not> ruleFor c act Effect_ask \<and> \<not> ruleFor c act Effect_allow"
  by (metis PolicyEffect.exhaust)

lemma delegate_group [simp]:
  "workAutomationGroup ''assistant.delegate'' = None" "workAutomationGroup ''local.pdf.read'' = None"
  by (simp_all add: workAutomationGroup_def)

lemma controlsDecision_denies:
  "pd_effect (controlsDecision c act denied auto) = Effect_deny \<longleftrightarrow> policyDenies c act denied"
proof (cases "act = ''assistant.delegate'' \<or> act = ''local.pdf.read''")
  case True
  then show ?thesis
    by (elim disjE) (auto simp: controlsDecision_def policyDenies_def Let_def some_ruleFor no_match_ruleFor
        exhaust_effects split: option.splits)
next
  case False
  then show ?thesis
    by (simp add: controlsDecision_def policyDenies_def Let_def some_ruleFor no_match_ruleFor
        split: option.splits)
qed

lemma controlsDecision_allow_manual:
  assumes "pd_effect (controlsDecision c act denied None) = Effect_allow"
  shows "act \<notin> set exactApprovalActions"
  using assms by (auto simp: controlsDecision_def Let_def some_ruleFor exactApprovalActions_def
      no_match_ruleFor split: if_splits)

section \<open>Relative paths\<close>

text \<open>POSIX resolution of path components on a directory stack, innermost first.\<close>

fun resolveParts :: "string list \<Rightarrow> string list \<Rightarrow> string list" where
  "resolveParts dir [] = dir"
| "resolveParts dir (p # ps) =
     (if p = [] \<or> p = ''.'' then resolveParts dir ps
      else if p = ''..'' then resolveParts (tl dir) ps
      else resolveParts (p # dir) ps)"

lemma resolve_relative:
  "list_all (\<lambda>p. p \<noteq> [] \<and> p \<noteq> ''.'' \<and> p \<noteq> ''..'') ps \<Longrightarrow> resolveParts dir ps = rev ps @ dir"
  by (induction ps arbitrary: dir) auto

lemma splitOn_nonempty [simp]: "splitOn c s \<noteq> []"
  by (induction s) (auto split: list.splits)

section \<open>Properties\<close>

text \<open>
  (C26) A resource decision allows exactly when the actor is a user of the resource's organization
  and either owns the resource or reads a shared one through an active membership that covers its
  workspace; an archived resource admits reading only.  In particular every other action is the
  owner's alone.
\<close>

theorem authorize_allows_exactly:
  assumes "authorize P r act c = Inr d"
  shows "ad_allowed d \<longleftrightarrow> (\<exists>uid. rc_actor c = ActorUser uid \<and> rf_organizationId r = rc_organizationId c \<and>
    (act = Act_resource_read \<or> \<not> truthyStr (rf_archivedAt r)) \<and>
    (rf_ownerId r = Some uid \<or>
     (act = Act_resource_read \<and> rf_visibility r \<noteq> Vis_private \<and>
      (\<exists>m \<in> set (rc_memberships c). mb_active m \<and> mb_userId m = uid \<and>
         mb_organizationId m = rc_organizationId c \<and>
         (mb_workspaceId m = None \<or> mb_workspaceId m = rf_workspaceId r)))))"
proof -
  have "authorizeResource P r act c = Inr d" using assms by (simp add: authorize_def split: if_splits)
  then show ?thesis by (rule authorizeResource_allowed_iff)
qed

definition sampleResource :: ResourceRef where
  "sampleResource = \<lparr>rf_type = ''asset'', rf_id = ''x1'', rf_organizationId = ''o1'', rf_workspaceId = Some ''w1'',
     rf_ownerId = Some ''u1'', rf_visibility = Vis_workspace, rf_archivedAt = None\<rparr>"

definition sampleMember :: "string \<Rightarrow> Membership" where
  "sampleMember u = \<lparr>mb_id = ''m1'', mb_userId = u, mb_organizationId = ''o1'', mb_workspaceId = Some ''w1'',
     mb_role = Role_viewer, mb_active = True\<rparr>"

definition sampleContext :: "string \<Rightarrow> RequestContext" where
  "sampleContext u = \<lparr>rc_requestId = ''q1'', rc_sessionId = ''s1'', rc_actor = ActorUser u,
     rc_organizationId = ''o1'', rc_workspaceId = Some ''w1'', rc_memberships = [sampleMember u],
     rc_authenticatedAt = ''2026-01-01T00:00:00Z''\<rparr>"

theorem authorize_allows_exactly_witness:
  "authorize samplePlatform sampleResource Act_resource_read (sampleContext ''u2'') = Inr (allowedBy Allowed_membership) \<and>
   authorize samplePlatform sampleResource Act_resource_write (sampleContext ''u2'') = Inr (deniedBy Denied_role) \<and>
   (\<exists>m \<in> set (rc_memberships (sampleContext ''u2'')). mb_active m)"
proof -
  have v: "validResourceRef samplePlatform sampleResource" "validRequestContext samplePlatform (sampleContext ''u2'')"
    "validPickedContext samplePlatform (sampleContext ''u2'')"
    by (simp_all add: validResourceRef_def sampleResource_def lenIn_def validRequestContext_def
        validPickedContext_def sampleContext_def validMembership_def sampleMember_def)
  have r: "authorize samplePlatform sampleResource Act_resource_read (sampleContext ''u2'') = Inr (allowedBy Allowed_membership)"
    "authorize samplePlatform sampleResource Act_resource_write (sampleContext ''u2'') = Inr (deniedBy Denied_role)"
    using v by (simp_all add: authorize_def authorizeResource_def)
      (simp_all add: sampleResource_def sampleContext_def sampleMember_def truthyStr_def)
  from authorize_allows_exactly [OF r(1)] have "\<exists>m \<in> set (rc_memberships (sampleContext ''u2'')). mb_active m"
    by (auto simp: sampleResource_def sampleContext_def)
  with r show ?thesis by simp
qed

text \<open>
  A delegated execution is allowed exactly when the context, its frozen policy and the
  resource agree on the organization, the workspace matches, the policy has not expired, a private
  resource belongs to the policy's subject, and a grant names the action, the resource type and
  the workspace.
\<close>

theorem authorizeExecution_allows_exactly:
  assumes "authorizeExecution P r act c now = Inr d"
  shows "ad_allowed d \<longleftrightarrow> (let p = xc_policySnapshot c in
    xc_organizationId c = ps_organizationId p \<and> ps_organizationId p = rf_organizationId r \<and>
    (xc_workspaceId c = None \<or> rf_workspaceId r = xc_workspaceId c) \<and>
    (\<forall>t. dateParse (ps_expiresAt p) = Some t \<longrightarrow> now < t) \<and>
    (rf_visibility r = Vis_private \<longrightarrow> rf_ownerId r = Some (ps_subjectId p)) \<and>
    (\<exists>g \<in> set (ps_grants p). pg_action g = act \<and> pg_resourceType g = rf_type r \<and>
       (pg_workspaceId g = None \<or> pg_workspaceId g = rf_workspaceId r)))"
  by (rule authorizeExecution_allowed_iff [OF assms])

definition samplePolicy :: PolicySnapshot where
  "samplePolicy = \<lparr>ps_id = ''p1'', ps_organizationId = ''o1'', ps_subjectId = ''u1'', ps_version = 1,
     ps_issuedAt = ''2026-01-01T00:00:00Z'', ps_expiresAt = ''2026-01-01T00:00:00Z'', ps_memberships = [],
     ps_grants = [\<lparr>pg_resourceType = ''asset'', pg_action = Act_resource_write, pg_workspaceId = None\<rparr>]\<rparr>"

definition sampleExecutionContext :: ExecutionContext where
  "sampleExecutionContext = \<lparr>xc_executionId = ''e1'', xc_runId = ''r1'', xc_jobId = ''j1'',
     xc_worker = ActorWorker ''k1'', xc_delegatedBy = ActorUser ''u1'', xc_organizationId = ''o1'',
     xc_workspaceId = None, xc_policySnapshot = samplePolicy, xc_startedAt = ''2026-01-01T00:00:00Z''\<rparr>"

theorem authorizeExecution_allows_exactly_witness:
  "\<exists>d. authorizeExecution samplePlatform sampleResource Act_resource_write sampleExecutionContext 0 = Inr d \<and>
     ad_allowed d \<and> (\<exists>g \<in> set (ps_grants samplePolicy). pg_action g = Act_resource_write)"
proof -
  have t: "dateParse ''2026-01-01T00:00:00Z'' = Some 1767225600000" by code_simp
  have v: "validResourceRef samplePlatform sampleResource" "validExecutionContext samplePlatform sampleExecutionContext"
    by (simp_all add: validResourceRef_def sampleResource_def lenIn_def validExecutionContext_def
        sampleExecutionContext_def validPolicySnapshot_def samplePolicy_def zPositive_def isSafeInteger_def
        validPolicyGrant_def)
  have r: "authorizeExecution samplePlatform sampleResource Act_resource_write sampleExecutionContext 0
      = Inr (allowedBy Allowed_explicit_grant)"
    using v by (simp add: authorizeExecution_def)
      (simp add: sampleResource_def sampleExecutionContext_def samplePolicy_def t)
  from authorizeExecution_allows_exactly [OF r]
  have "\<exists>g \<in> set (ps_grants samplePolicy). pg_action g = Act_resource_write"
    by (auto simp: sampleExecutionContext_def Let_def)
  with r show ?thesis by simp
qed

text \<open>
  (C16) The runtime policy denies exactly on the conditions \<open>policyDenies\<close> lists, whatever the
  member's automation setting: a disabled or plan-only policy, an unregistered action, the
  platform's list and a tenant deny rule win over every allow, and the setting can neither lift a
  deny nor cause one.  Without a captured setting the actions that need an exact approval are
  never simply allowed.  Unreadable controls or bindings deny.
\<close>

theorem runtime_policy_denies_exactly:
  "(pd_effect (evaluateRuntimePolicy P v b denied automation) = Effect_deny \<longleftrightarrow>
     (case (decControls v, decBinding P b) of
        (Some c, Some binding) \<Rightarrow> policyDenies c (ab_action binding) denied
      | _ \<Rightarrow> True)) \<and>
   (automation = None \<and> decBinding P b = Some binding' \<and> ab_action binding' \<in> set exactApprovalActions \<longrightarrow>
     pd_effect (evaluateRuntimePolicy P v b denied automation) \<noteq> Effect_allow)"
proof (cases "decControls v"; cases "decBinding P b")
  fix c binding assume "decControls v = Some c" "decBinding P b = Some binding"
  then show ?thesis
    using controlsDecision_denies [of c "ab_action binding" denied automation]
      controlsDecision_allow_manual [of c "ab_action binding" denied] by (auto simp: evaluate_decision)
qed (auto simp: evaluate_decision)

theorem runtime_policy_denies_exactly_witness:
  "pd_effect (evaluateRuntimePolicy samplePlatform
       (controlsJson \<lparr>pc_version = 1, pc_enabled = True, pc_mode = Mode_execute,
          pc_rules = [\<lparr>pr_action = ''cloud.process.execute'', pr_effect = Effect_allow\<rparr>]\<rparr>)
       (bindingJson sampleBinding) [] None) \<noteq> Effect_allow"
proof -
  have "parseRuntimeActionBinding samplePlatform sampleBinding = Inr sampleBinding"
    using sampleBinding_trimmed by (simp add: parseRuntimeActionBinding_def)
  then have b: "decBinding samplePlatform (bindingJson sampleBinding) = Some sampleBinding" by (rule decBinding_enc)
  show ?thesis
    using runtime_policy_denies_exactly [where P = samplePlatform and automation = None and binding' = sampleBinding
      and b = "bindingJson sampleBinding"] b by (simp add: sampleBinding_def exactApprovalActions_def)
qed

text \<open>
  An accepted relative path resolves strictly below its root, whatever the root directory:
  its components are appended one by one and none of them is dropped, repeated or walks up.
\<close>

theorem relative_path_stays_below:
  assumes "isRuntimeRelativePath (JStr s)"
  shows "resolveParts root (splitOn (CHR ''/'') s) = rev (splitOn (CHR ''/'') s) @ root \<and>
    length root < length (resolveParts root (splitOn (CHR ''/'') s))"
proof -
  have "list_all (\<lambda>p. p \<noteq> [] \<and> p \<noteq> ''.'' \<and> p \<noteq> ''..'') (splitOn (CHR ''/'') s)"
    using assms by (simp add: isRuntimeRelativePath_def)
  from resolve_relative [OF this, of root] show ?thesis by simp
qed

theorem relative_path_stays_below_witness:
  "isRuntimeRelativePath (JStr ''src/main.ts'') \<and> \<not> isRuntimeRelativePath (JStr ''src/../../x'') \<and>
   resolveParts [''root''] (splitOn (CHR ''/'') ''src/main.ts'') = [''main.ts'', ''src'', ''root'']"
proof -
  have ok: "isRuntimeRelativePath (JStr ''src/main.ts'')" "\<not> isRuntimeRelativePath (JStr ''src/../../x'')"
    by (simp_all add: isRuntimeRelativePath_def startsWith_def)
  from relative_path_stays_below [OF ok(1), of "[''root'']"] ok show ?thesis by simp
qed

end
