(* ===== verification/QueuePolicy.thy ===== *)
theory QueuePolicy
  imports Decode
begin

text \<open>
  packages/contracts/src/queue.ts, packages/database/src/queue/policy.ts and
  packages/database/src/queue/receipt-drain.ts: the job lifecycle, retry delays, lease deadlines,
  the maintenance decision for one job row and the receipt drain that freezes a stopping job.
  Dates are milliseconds; the database clock is an argument.  Shown: what each maintenance
  decision implies about the row, that retries are bounded and monotone, and that a drain, once
  frozen, keeps its cause and deadline and never lengthens the lease past it.
\<close>

section \<open>Job statuses\<close>

datatype JobStatus =
    Job_queued | Job_claimed | Job_running | Job_waiting_approval | Job_retry_wait
  | Job_succeeded | Job_failed | Job_dead_letter | Job_canceled

fun jobStatusStr :: "JobStatus \<Rightarrow> string" where
  "jobStatusStr Job_queued = ''queued''"
| "jobStatusStr Job_claimed = ''claimed''"
| "jobStatusStr Job_running = ''running''"
| "jobStatusStr Job_waiting_approval = ''waiting_approval''"
| "jobStatusStr Job_retry_wait = ''retry_wait''"
| "jobStatusStr Job_succeeded = ''succeeded''"
| "jobStatusStr Job_failed = ''failed''"
| "jobStatusStr Job_dead_letter = ''dead_letter''"
| "jobStatusStr Job_canceled = ''canceled''"

fun jobTransitions :: "JobStatus \<Rightarrow> JobStatus list" where
  "jobTransitions Job_queued = [Job_claimed, Job_canceled]"
| "jobTransitions Job_claimed = [Job_running, Job_canceled, Job_dead_letter]"
| "jobTransitions Job_running =
     [Job_waiting_approval, Job_succeeded, Job_retry_wait, Job_failed, Job_canceled]"
| "jobTransitions Job_waiting_approval = [Job_queued, Job_failed, Job_canceled]"
| "jobTransitions Job_retry_wait = [Job_queued, Job_dead_letter, Job_canceled]"
| "jobTransitions Job_succeeded = []"
| "jobTransitions Job_failed = []"
| "jobTransitions Job_dead_letter = []"
| "jobTransitions Job_canceled = []"

definition canTransitionJob :: "JobStatus \<Rightarrow> JobStatus \<Rightarrow> bool \<Rightarrow> bool" where
  "canTransitionJob from to leaseExpired =
     (if leaseExpired \<and> (from = Job_claimed \<or> from = Job_running) \<and> to = Job_queued then True
      else to \<in> set (jobTransitions from))"

definition assertJobTransition :: "JobStatus \<Rightarrow> JobStatus \<Rightarrow> bool \<Rightarrow> unit result" where
  "assertJobTransition from to leaseExpired =
     (if \<not> canTransitionJob from to leaseExpired
      then Inl (JsError (''illegal job transition: '' @ jobStatusStr from @ '' -> '' @ jobStatusStr to))
      else Inr ())"

definition retryDelayMs :: "int \<Rightarrow> int \<Rightarrow> int \<Rightarrow> int result" where
  "retryDelayMs attempt baseMs capMs =
     (if attempt < 1 then Inl (JsError ''attempt must be a positive integer'')
      else Inr (min capMs (baseMs * 2 ^ nat (attempt - 1))))"

section \<open>Queue policy\<close>

definition isTerminalJobStatus :: "JobStatus \<Rightarrow> bool" where
  "isTerminalJobStatus s \<longleftrightarrow> s \<in> {Job_succeeded, Job_failed, Job_dead_letter, Job_canceled}"

definition leaseDeadline :: "int \<Rightarrow> int \<Rightarrow> int result" where
  "leaseDeadline leaseMs now =
     (if leaseMs < 1000 \<or> 300000 < leaseMs then Inl (JsError ''leaseMs must be between 1000 and 300000'')
      else Inr (now + leaseMs))"

definition retryAvailableAt :: "int \<Rightarrow> int \<Rightarrow> int \<Rightarrow> int result" where
  "retryAvailableAt attempt retryBaseMs nowMs =
     andThen (retryDelayMs attempt retryBaseMs 300000) (\<lambda>d. Inr (nowMs + d))"

datatype MaintenanceAction =
  Maint_none | Maint_promote_retry | Maint_cancel | Maint_timeout | Maint_recover_lease | Maint_dead_letter

datatype StopCause = Stop_cancel | Stop_timeout

text \<open>The columns of \<open>allrice_jobs\<close> these functions read and write.\<close>

record JobRow =
  jb_id :: string
  jb_status :: JobStatus
  jb_attempt :: int
  jb_max_attempts :: int
  jb_available_at :: int
  jb_timeout_at :: int
  jb_worker_id :: "string option"
  jb_lease_token :: "string option"
  jb_lease_expires_at :: "int option"
  jb_cancel_requested_at :: "int option"
  jb_cancel_reason :: "string option"
  jb_drain_reason :: "StopCause option"
  jb_drain_deadline_at :: "int option"
  jb_updated_at :: int

definition queueStopCause :: "JobRow \<Rightarrow> int \<Rightarrow> StopCause option" where
  "queueStopCause job now =
     (case jb_drain_reason job of
        Some c \<Rightarrow> Some c
      | None \<Rightarrow>
          if jb_cancel_requested_at job \<noteq> None then Some Stop_cancel
          else if jb_timeout_at job \<le> now then Some Stop_timeout
          else None)"

definition queueMaintenanceAction :: "JobRow \<Rightarrow> int \<Rightarrow> MaintenanceAction" where
  "queueMaintenanceAction job now =
     (if isTerminalJobStatus (jb_status job) then Maint_none
      else case queueStopCause job now of
          Some Stop_cancel \<Rightarrow> Maint_cancel
        | Some Stop_timeout \<Rightarrow> Maint_timeout
        | None \<Rightarrow>
            if jb_status job = Job_retry_wait \<and> jb_available_at job \<le> now then Maint_promote_retry
            else if (jb_status job = Job_claimed \<or> jb_status job = Job_running) \<and>
                (case jb_lease_expires_at job of None \<Rightarrow> False | Some e \<Rightarrow> e \<le> now)
              then (if jb_attempt job \<ge> jb_max_attempts job then Maint_dead_letter else Maint_recover_lease)
            else Maint_none)"

section \<open>Receipt drain\<close>

definition receiptDrainMs :: int where "receiptDrainMs = 30000"

text \<open>
  The row the transaction's update leaves, and the deadline returned: None is the code's
  \<open>null\<close>.  Without a live lease there is no update.  \<open>now\<close> is the database clock.
\<close>

definition freezeJobReceiptDrain ::
  "JobRow \<Rightarrow> StopCause \<Rightarrow> int option \<Rightarrow> int \<Rightarrow> (JobRow \<times> int option) result" where
  "freezeJobReceiptDrain job cause leaseMs now =
     (case jb_lease_expires_at job of
        None \<Rightarrow> Inr (job, None)
      | Some expires \<Rightarrow>
          if jb_status job \<noteq> Job_running \<or> jb_worker_id job \<in> {None, Some []} \<or>
             jb_lease_token job \<in> {None, Some []} \<or> expires \<le> now
          then Inr (job, None)
          else
            let frozenCause = orElse (jb_drain_reason job) cause;
                anchor = (if frozenCause = Stop_cancel then orElse (jb_cancel_requested_at job) now
                          else jb_timeout_at job);
                deadline = orElse (jb_drain_deadline_at job) (anchor + receiptDrainMs)
            in andThen (case leaseMs of None \<Rightarrow> Inr expires | Some ms \<Rightarrow> leaseDeadline ms now) (\<lambda>bound.
              let lease = min deadline bound in
              Inr (job\<lparr>jb_drain_reason := Some frozenCause, jb_drain_deadline_at := Some deadline,
                  jb_cancel_requested_at := Some (orElse (jb_cancel_requested_at job) now),
                  jb_cancel_reason := Some (orElse (jb_cancel_reason job)
                    (if frozenCause = Stop_timeout then ''job_timeout'' else ''user_requested'')),
                  jb_lease_expires_at := Some lease, jb_updated_at := now\<rparr>,
                if deadline > now \<and> lease > now then Some deadline else None)))"

section \<open>Lifecycle\<close>

lemma isTerminalJobStatus_simps [simp]:
  "\<not> isTerminalJobStatus Job_queued" "\<not> isTerminalJobStatus Job_claimed" "\<not> isTerminalJobStatus Job_running"
  "\<not> isTerminalJobStatus Job_waiting_approval" "\<not> isTerminalJobStatus Job_retry_wait"
  "isTerminalJobStatus Job_succeeded" "isTerminalJobStatus Job_failed" "isTerminalJobStatus Job_dead_letter"
  "isTerminalJobStatus Job_canceled"
  by (simp_all add: isTerminalJobStatus_def)

inductive jobReaches :: "JobStatus \<Rightarrow> JobStatus \<Rightarrow> bool" where
  stay: "jobReaches s s"
| move: "jobReaches s t \<Longrightarrow> canTransitionJob t u expired \<Longrightarrow> jobReaches s u"

inductive_cases jobReachesE: "jobReaches s u"

lemma terminal_job_stuck: "isTerminalJobStatus s \<longleftrightarrow> (\<forall>t e. \<not> canTransitionJob s t e)"
proof
  show "isTerminalJobStatus s \<Longrightarrow> \<forall>t e. \<not> canTransitionJob s t e"
    by (auto simp: isTerminalJobStatus_def canTransitionJob_def)
  assume "\<forall>t e. \<not> canTransitionJob s t e"
  then have "t \<notin> set (jobTransitions s)" for t by (metis canTransitionJob_def)
  then have "jobTransitions s = []" by (metis list.set_intros(1) neq_Nil_conv)
  then show "isTerminalJobStatus s" by (cases s) (auto simp: isTerminalJobStatus_def)
qed

lemma jobReaches_terminal: "jobReaches s t \<Longrightarrow> isTerminalJobStatus s \<Longrightarrow> t = s"
  by (induction rule: jobReaches.induct) (auto simp: terminal_job_stuck)

text \<open>Work is entered only through a claim: a job that runs was claimed after it was last queued.\<close>

lemma running_from_claimed: "canTransitionJob t Job_running e \<Longrightarrow> t = Job_claimed"
  by (cases t) (auto simp: canTransitionJob_def split: if_splits)

lemma claimed_from_queued: "canTransitionJob t Job_claimed e \<Longrightarrow> t = Job_queued"
  by (cases t) (auto simp: canTransitionJob_def split: if_splits)

lemma retryDelay_bounds:
  assumes "retryDelayMs attempt baseMs capMs = Inr d" "0 \<le> baseMs" "0 \<le> capMs"
  shows "0 \<le> d \<and> d \<le> capMs \<and> (baseMs \<le> capMs \<longrightarrow> baseMs \<le> d)"
proof -
  have "baseMs * 1 \<le> baseMs * 2 ^ nat (attempt - 1)" using assms(2) by (intro mult_left_mono) simp_all
  then show ?thesis using assms by (auto simp: retryDelayMs_def split: if_splits)
qed

lemma retryDelay_mono:
  assumes "retryDelayMs a baseMs capMs = Inr d" "retryDelayMs b baseMs capMs = Inr e" "a \<le> b" "0 \<le> baseMs"
  shows "d \<le> e \<and> (e < capMs \<longrightarrow> e = d * 2 ^ nat (b - a))"
proof -
  have ab: "1 \<le> a" "d = min capMs (baseMs * 2 ^ nat (a - 1))" "e = min capMs (baseMs * 2 ^ nat (b - 1))"
    using assms(1,2) by (auto simp: retryDelayMs_def split: if_splits)
  define x where "x = baseMs * 2 ^ nat (a - 1)"
  define k where "k = (2 :: int) ^ nat (b - a)"
  have "nat (b - 1) = nat (a - 1) + nat (b - a)" using ab(1) assms(3) by simp
  then have e: "e = min capMs (x * k)" using ab(3) by (simp add: x_def k_def power_add mult.assoc)
  have "0 \<le> x" "1 \<le> k" using assms(4) by (simp_all add: x_def k_def)
  then have "x * 1 \<le> x * k" by (intro mult_left_mono)
  then show ?thesis using ab(2) e by (auto simp: x_def [symmetric] k_def [symmetric])
qed

text \<open>What a maintenance decision says about the row.\<close>

lemma maintenance_iff:
  "queueMaintenanceAction j now = Maint_cancel \<longleftrightarrow>
     \<not> isTerminalJobStatus (jb_status j) \<and> queueStopCause j now = Some Stop_cancel"
  "queueMaintenanceAction j now = Maint_timeout \<longleftrightarrow>
     \<not> isTerminalJobStatus (jb_status j) \<and> queueStopCause j now = Some Stop_timeout"
  "queueMaintenanceAction j now = Maint_promote_retry \<longleftrightarrow>
     queueStopCause j now = None \<and> jb_status j = Job_retry_wait \<and> jb_available_at j \<le> now"
  "queueMaintenanceAction j now \<in> {Maint_recover_lease, Maint_dead_letter} \<longleftrightarrow>
     queueStopCause j now = None \<and> jb_status j \<in> {Job_claimed, Job_running} \<and>
     (\<exists>e. jb_lease_expires_at j = Some e \<and> e \<le> now)"
  "queueMaintenanceAction j now = Maint_dead_letter \<longleftrightarrow>
     queueMaintenanceAction j now \<in> {Maint_recover_lease, Maint_dead_letter} \<and> jb_max_attempts j \<le> jb_attempt j"
  by (auto simp: queueMaintenanceAction_def isTerminalJobStatus_def split: option.splits StopCause.splits if_splits)

section \<open>Draining\<close>

lemma freeze_cases:
  assumes "freezeJobReceiptDrain j cause leaseMs now = Inr (j', r)"
  obtains (skip) "j' = j" "r = None"
  | (freeze) expires deadline lease where "jb_status j = Job_running" "jb_lease_expires_at j = Some expires"
      "now < expires" "lease \<le> deadline"
      "leaseMs = None \<Longrightarrow> lease \<le> expires"
      "\<And>ms. leaseMs = Some ms \<Longrightarrow> lease \<le> now + ms"
      "jb_drain_reason j' = Some (orElse (jb_drain_reason j) cause)"
      "jb_drain_deadline_at j' = Some deadline"
      "\<And>d. jb_drain_deadline_at j = Some d \<Longrightarrow> deadline = d"
      "jb_lease_expires_at j' = Some lease"
      "jb_cancel_requested_at j' = Some (orElse (jb_cancel_requested_at j) now)"
      "\<And>c. jb_cancel_reason j = Some c \<Longrightarrow> jb_cancel_reason j' = Some c"
      "r = (if deadline > now \<and> lease > now then Some deadline else None)"
      "jb_status j' = Job_running" "jb_worker_id j' = jb_worker_id j" "jb_lease_token j' = jb_lease_token j"
      "jb_id j' = jb_id j" "jb_attempt j' = jb_attempt j" "jb_max_attempts j' = jb_max_attempts j"
proof (cases "jb_lease_expires_at j")
  case None
  then show thesis using assms by (intro skip) (auto simp: freezeJobReceiptDrain_def)
next
  case (Some expires)
  show thesis
  proof (cases "jb_status j \<noteq> Job_running \<or> jb_worker_id j \<in> {None, Some []} \<or>
      jb_lease_token j \<in> {None, Some []} \<or> expires \<le> now")
    case True
    then have "freezeJobReceiptDrain j cause leaseMs now = Inr (j, None)"
      using Some by (simp add: freezeJobReceiptDrain_def)
    then show thesis using assms by (intro skip) auto
  next
    case False
    define c where "c = orElse (jb_drain_reason j) cause"
    define deadline where "deadline = orElse (jb_drain_deadline_at j)
      ((if c = Stop_cancel then orElse (jb_cancel_requested_at j) now else jb_timeout_at j) + receiptDrainMs)"
    obtain bound where bound: "(case leaseMs of None \<Rightarrow> Inr expires | Some ms \<Rightarrow> leaseDeadline ms now) = Inr bound"
      and j': "j' = j\<lparr>jb_drain_reason := Some c, jb_drain_deadline_at := Some deadline,
          jb_cancel_requested_at := Some (orElse (jb_cancel_requested_at j) now),
          jb_cancel_reason := Some (orElse (jb_cancel_reason j)
            (if c = Stop_timeout then ''job_timeout'' else ''user_requested'')),
          jb_lease_expires_at := Some (min deadline bound), jb_updated_at := now\<rparr>"
      and r: "r = (if deadline > now \<and> min deadline bound > now then Some deadline else None)"
      using assms Some False
      by (auto simp: freezeJobReceiptDrain_def Let_def andThen_Inr_iff c_def deadline_def)
    have b: "leaseMs = None \<Longrightarrow> bound = expires" "leaseMs = Some ms \<Longrightarrow> bound = now + ms" for ms
      using bound by (auto simp: leaseDeadline_def split: if_splits)
    show thesis
      by (rule freeze [of expires "min deadline bound" deadline])
        (use Some False b in \<open>auto simp: j' r c_def deadline_def\<close>)
  qed
qed

text \<open>Freezing as a step of the row, and what later rows keep of earlier ones.\<close>

definition drainStep :: "JobRow \<Rightarrow> StopCause \<times> int option \<times> int \<Rightarrow> JobRow result" where
  "drainStep j i = (case i of (cause, leaseMs, now) \<Rightarrow>
     andThen (freezeJobReceiptDrain j cause leaseMs now) (\<lambda>(j', _). Inr j'))"

definition drainOlder :: "JobRow \<Rightarrow> JobRow \<Rightarrow> bool" where
  "drainOlder j j' \<longleftrightarrow> jb_status j' = jb_status j \<and> jb_worker_id j' = jb_worker_id j \<and>
     jb_lease_token j' = jb_lease_token j \<and>
     (\<forall>c. jb_drain_reason j = Some c \<longrightarrow> jb_drain_reason j' = Some c) \<and>
     (\<forall>d. jb_drain_deadline_at j = Some d \<longrightarrow> jb_drain_deadline_at j' = Some d) \<and>
     (\<forall>a. jb_cancel_requested_at j = Some a \<longrightarrow> jb_cancel_requested_at j' = Some a) \<and>
     (\<forall>a. jb_cancel_reason j = Some a \<longrightarrow> jb_cancel_reason j' = Some a)"

text \<open>A drained row has its deadline, and no lease beyond it.\<close>

definition drainInv :: "JobRow \<Rightarrow> bool" where
  "drainInv j \<longleftrightarrow> (jb_drain_reason j = None \<longleftrightarrow> jb_drain_deadline_at j = None) \<and>
     (\<forall>d e. jb_drain_deadline_at j = Some d \<and> jb_lease_expires_at j = Some e \<longrightarrow> e \<le> d)"

lemma drainStep_keeps: "drainStep j i = Inr j' \<Longrightarrow> drainInv j \<Longrightarrow> drainInv j' \<and> drainOlder j j'"
proof -
  assume a: "drainStep j i = Inr j'" "drainInv j"
  then obtain cause leaseMs now r where "freezeJobReceiptDrain j cause leaseMs now = Inr (j', r)"
    by (auto simp: drainStep_def andThen_Inr_iff split: prod.splits)
  then show ?thesis
  proof (cases rule: freeze_cases)
    case skip
    then show ?thesis using a(2) by (simp add: drainOlder_def)
  next
    case (freeze expires deadline lease)
    then show ?thesis using a(2) by (auto simp: drainInv_def drainOlder_def)
  qed
qed

interpretation drain: step_machine drainStep drainInv drainOlder
  by unfold_locales (auto dest: drainStep_keeps, auto simp: drainOlder_def)

section \<open>Properties\<close>

text \<open>
  Maintenance acts on a job only for a stated cause: a stop cause on a live job, a due retry,
  or an expired lease of a claimed or running job, which is recovered while attempts remain and
  dead-lettered after the last one; in particular a terminal job, a job without a stop cause whose
  lease is live, and a job waiting for approval are left alone.
\<close>

theorem queue_maintenance_sound:
  "(case queueMaintenanceAction j now of
     Maint_none \<Rightarrow> True
   | Maint_cancel \<Rightarrow> \<not> isTerminalJobStatus (jb_status j) \<and>
       (jb_drain_reason j = Some Stop_cancel \<or> jb_drain_reason j = None \<and> jb_cancel_requested_at j \<noteq> None)
   | Maint_timeout \<Rightarrow> \<not> isTerminalJobStatus (jb_status j) \<and>
       (jb_drain_reason j = Some Stop_timeout \<or> jb_drain_reason j = None \<and> jb_timeout_at j \<le> now)
   | Maint_promote_retry \<Rightarrow> jb_status j = Job_retry_wait \<and> jb_available_at j \<le> now
   | Maint_recover_lease \<Rightarrow> canTransitionJob (jb_status j) Job_queued True \<and> jb_attempt j < jb_max_attempts j \<and>
       (\<exists>e. jb_lease_expires_at j = Some e \<and> e \<le> now)
   | Maint_dead_letter \<Rightarrow> jb_status j \<in> {Job_claimed, Job_running} \<and> jb_max_attempts j \<le> jb_attempt j \<and>
       (\<exists>e. jb_lease_expires_at j = Some e \<and> e \<le> now)) \<and>
   (isTerminalJobStatus (jb_status j) \<longrightarrow> queueMaintenanceAction j now = Maint_none)"
proof (cases "isTerminalJobStatus (jb_status j)")
  case True
  then show ?thesis by (simp add: queueMaintenanceAction_def)
next
  case False
  then show ?thesis
    by (simp add: queueMaintenanceAction_def queueStopCause_def canTransitionJob_def not_le
        split: option.split StopCause.split)
qed

text \<open>
  A job status is final exactly when it has no outgoing transition, no sequence of legal
  transitions leaves a final status, and a job becomes \<open>running\<close> only from \<open>claimed\<close> and
  \<open>claimed\<close> only from \<open>queued\<close>.
\<close>

theorem job_lifecycle:
  "(isTerminalJobStatus s \<longleftrightarrow> (\<forall>t e. \<not> canTransitionJob s t e)) \<and>
   (jobReaches s t \<and> isTerminalJobStatus s \<longrightarrow> t = s) \<and>
   (canTransitionJob u Job_running e \<longrightarrow> u = Job_claimed) \<and>
   (canTransitionJob u Job_claimed e \<longrightarrow> u = Job_queued)"
  using terminal_job_stuck jobReaches_terminal running_from_claimed claimed_from_queued by blast

theorem job_lifecycle_witness:
  "canTransitionJob Job_claimed Job_running False \<and> canTransitionJob Job_queued Job_claimed False \<and>
   (jobReaches Job_failed Job_failed \<and> isTerminalJobStatus Job_failed)"
  using job_lifecycle [where s = Job_failed and t = Job_failed and u = Job_claimed and e = False]
  by (simp add: canTransitionJob_def jobReaches.stay)

text \<open>
  Retry delays are never negative, never exceed the cap, start at the base delay, never
  shrink from one attempt to a later one and double per attempt until the cap is reached.
\<close>

theorem retry_delay_bounded_doubling:
  assumes "retryDelayMs a baseMs capMs = Inr d" "retryDelayMs b baseMs capMs = Inr e" "a \<le> b"
    "0 \<le> baseMs" "baseMs \<le> capMs"
  shows "baseMs \<le> d \<and> d \<le> e \<and> e \<le> capMs \<and> (e < capMs \<longrightarrow> e = d * 2 ^ nat (b - a))"
  using retryDelay_bounds [OF assms(1,4)] retryDelay_bounds [OF assms(2,4)] retryDelay_mono [OF assms(1-4)] assms(4,5)
  by simp

theorem retry_delay_bounded_doubling_witness:
  "retryDelayMs 1 1000 300000 = Inr 1000 \<and> retryDelayMs 4 1000 300000 = Inr 8000 \<and> (8000 :: int) = 1000 * 2 ^ 3"
proof -
  have r: "retryDelayMs 1 1000 300000 = Inr 1000" "retryDelayMs 4 1000 300000 = Inr 8000"
    by (simp_all add: retryDelayMs_def)
  from retry_delay_bounded_doubling [OF r] r show ?thesis by simp
qed

text \<open>
  Once a row has been frozen for draining, every later freeze keeps its cause, its deadline,
  its cancellation time and the lease identity; the lease never runs past the drain deadline; and
  the stop cause maintenance reads is the frozen one whatever the clock says.
\<close>

theorem drain_cause_and_deadline_fixed:
  assumes "drainInv j" "jb_drain_reason j = Some c" "runAll drainStep j inputs = Inr j'"
  shows "jb_drain_reason j' = Some c \<and> jb_drain_deadline_at j' = jb_drain_deadline_at j \<and>
    jb_lease_token j' = jb_lease_token j \<and> jb_worker_id j' = jb_worker_id j \<and>
    (\<forall>a. jb_cancel_requested_at j = Some a \<longrightarrow> jb_cancel_requested_at j' = Some a) \<and>
    (\<forall>d e. jb_drain_deadline_at j' = Some d \<and> jb_lease_expires_at j' = Some e \<longrightarrow> e \<le> d) \<and>
    queueStopCause j' now = Some c"
proof -
  have "drainOlder j j'" "drainInv j'"
    using drain.run_older [OF assms(3,1)] drain.run_inv [OF assms(3,1)] by auto
  then show ?thesis
    using assms(1,2) by (auto simp: drainOlder_def drainInv_def queueStopCause_def)
qed

definition sampleJob :: JobRow where
  "sampleJob = \<lparr>jb_id = ''j1'', jb_status = Job_running, jb_attempt = 1, jb_max_attempts = 3, jb_available_at = 0,
     jb_timeout_at = 900000, jb_worker_id = Some ''k1'', jb_lease_token = Some ''l1'',
     jb_lease_expires_at = Some 60000, jb_cancel_requested_at = None, jb_cancel_reason = None,
     jb_drain_reason = None, jb_drain_deadline_at = None, jb_updated_at = 0\<rparr>"

theorem drain_cause_and_deadline_fixed_witness:
  "\<exists>j j'. drainStep sampleJob (Stop_cancel, None, 1000) = Inr j \<and> jb_drain_deadline_at j = Some 31000 \<and>
     drainStep j (Stop_timeout, Some 5000, 2000) = Inr j' \<and> jb_drain_reason j' = Some Stop_cancel \<and>
     jb_drain_deadline_at j' = Some 31000"
proof -
  have "\<exists>j. drainStep sampleJob (Stop_cancel, None, 1000) = Inr j \<and> jb_drain_deadline_at j = Some 31000 \<and>
      drainInv j \<and> jb_drain_reason j = Some Stop_cancel \<and>
      (\<exists>j'. drainStep j (Stop_timeout, Some 5000, 2000) = Inr j')"
    by (simp add: drainStep_def freezeJobReceiptDrain_def sampleJob_def receiptDrainMs_def drainInv_def
        leaseDeadline_def)
  then obtain j j' where j: "drainStep sampleJob (Stop_cancel, None, 1000) = Inr j" "jb_drain_deadline_at j = Some 31000"
    "drainInv j" "jb_drain_reason j = Some Stop_cancel" "drainStep j (Stop_timeout, Some 5000, 2000) = Inr j'"
    by blast
  have "runAll drainStep j [(Stop_timeout, Some 5000, 2000)] = Inr j'" using j(5) by simp
  from drain_cause_and_deadline_fixed [OF j(3,4) this] j show ?thesis by auto
qed

theorem queue_maintenance_sound_witness:
  "queueMaintenanceAction sampleJob 60000 = Maint_recover_lease \<and> canTransitionJob (jb_status sampleJob) Job_queued True"
proof -
  have a: "queueMaintenanceAction sampleJob 60000 = Maint_recover_lease"
    by (simp add: queueMaintenanceAction_def queueStopCause_def sampleJob_def)
  from queue_maintenance_sound [of sampleJob 60000] show ?thesis unfolding a by simp
qed

text \<open>
  Maintenance dead-letters a running job whose lease expired after the last attempt, a move the
  transition table of the contract does not list.
\<close>

lemma maintenance_dead_letters_running:
  "queueMaintenanceAction (sampleJob\<lparr>jb_attempt := 3\<rparr>) 60000 = Maint_dead_letter \<and>
   jb_status (sampleJob\<lparr>jb_attempt := 3\<rparr>) = Job_running \<and> \<not> canTransitionJob Job_running Job_dead_letter True"
  by (simp add: queueMaintenanceAction_def queueStopCause_def sampleJob_def canTransitionJob_def)

end
