(* ===== verification/LeaseRetry.thy ===== *)
theory LeaseRetry
  imports QueuePolicy
begin

text \<open>
  packages/database/src/queue/lease-lock-retry.ts: the retry of a worker lease transaction that
  PostgreSQL rolled back on a lock timeout (SQLSTATE 55P03).  What the database and the caller do
  is the record \<open>leaseEnv\<close>: the outcome of each attempt of the transaction, of each lease read
  between two attempts, and the abort signal at its three checks.  A run records the attempts with
  their lock waits, the backoffs slept between them and the recorded failures (elapsed times,
  backend ids and the process counters of the log lines are left out).  Shown: the loop ends after
  at most four attempts, only a 55P03 rollback is retried, every lock wait and every backoff is
  the one the code prescribes, and every retry was licensed by a lease read that leaves room for
  its lock waits.
\<close>

section \<open>Database error codes\<close>

definition isUpperChar :: "char \<Rightarrow> bool" where
  "isUpperChar c \<longleftrightarrow> (let n = (of_char c :: nat) in 65 \<le> n \<and> n \<le> 90)"

text \<open>The patterns \<open>^[0-9A-Z]{5}$\<close> and \<open>^[A-Z][A-Z_]{2,39}$\<close>.\<close>

definition databaseErrorCode :: "jsval \<Rightarrow> string option" where
  "databaseErrorCode error = (case error of
     JObj kvs \<Rightarrow> (case map_of kvs ''code'' of
         Some (JStr code) \<Rightarrow>
           if (length code = 5 \<and> list_all (\<lambda>c. isDigitChar c \<or> isUpperChar c) code) \<or>
              (lenIn 3 40 code \<and> isUpperChar (hd code) \<and>
               list_all (\<lambda>c. isUpperChar c \<or> c = CHR ''_'') (tl code))
           then Some code else None
       | _ \<Rightarrow> None)
   | _ \<Rightarrow> None)"

definition leaseLockWaitMs :: int where "leaseLockWaitMs = 5000"
definition leaseRetryReserveMs :: int where "leaseRetryReserveMs = 1500"
definition contendedLockWaits :: int where "contendedLockWaits = 3"
definition minimumRetryLockWaitMs :: int where "minimumRetryLockWaitMs = 500"
definition maxLeaseLockAttempts :: nat where "maxLeaseLockAttempts = 4"

text \<open>The delay of \<open>setTimeout(resolve, 50 * 2 ** attempt)\<close>, in milliseconds.\<close>

definition backoffMs :: "nat \<Rightarrow> nat" where "backoffMs attempt = 50 * 2 ^ attempt"

datatype LeaseSite = Site_job_heartbeat | Site_job_event | Site_usage_settlement | Site_lease_read

datatype LeaseOutcome =
  Out_retrying | Out_exhausted | Out_lease_lost | Out_stopped | Out_aborted | Out_failed

record LeaseTrace =
  lt_site :: LeaseSite
  lt_sqlState :: string
  lt_attempt :: nat
  lt_outcome :: LeaseOutcome

text \<open>\<open>LeaseTransactionTrace.record\<close>: nothing is recorded for an error without a database code.\<close>

definition recordFailure :: "LeaseSite \<Rightarrow> jsval \<Rightarrow> nat \<Rightarrow> LeaseOutcome \<Rightarrow> LeaseTrace list" where
  "recordFailure site error attempt outcome = (case databaseErrorCode error of
     None \<Rightarrow> []
   | Some code \<Rightarrow> [\<lparr>lt_site = site, lt_sqlState = code, lt_attempt = attempt, lt_outcome = outcome\<rparr>])"

definition tracedLeaseTransaction :: "LeaseSite \<Rightarrow> jsval + 'a \<Rightarrow> (jsval + 'a) \<times> LeaseTrace list" where
  "tracedLeaseTransaction site run = (case run of
     Inr x \<Rightarrow> (Inr x, []) | Inl error \<Rightarrow> (Inl error, recordFailure site error 1 Out_failed))"

section \<open>The lease read\<close>

record LeaseIdentity =
  li_workerId :: string
  li_jobId :: string
  li_leaseToken :: string

datatype LeaseMode = Lease_stop | Lease_receipt

datatype NextWait = Next_wait int | Next_lease_lost | Next_stopped | Next_exhausted | Next_aborted

definition nextLeaseLockWait :: "JobRow option \<Rightarrow> int \<Rightarrow> LeaseIdentity \<Rightarrow> LeaseMode \<Rightarrow> NextWait" where
  "nextLeaseLockWait row now lease mode = (case row of
     None \<Rightarrow> Next_lease_lost
   | Some job \<Rightarrow> (case jb_lease_expires_at job of
       None \<Rightarrow> Next_lease_lost
     | Some expires \<Rightarrow>
         if jb_status job \<noteq> Job_running \<or> jb_worker_id job \<noteq> Some (li_workerId lease) \<or>
            jb_lease_token job \<noteq> Some (li_leaseToken lease) \<or> expires \<le> now \<or>
            (case jb_drain_deadline_at job of None \<Rightarrow> False | Some d \<Rightarrow> d \<le> now)
         then Next_lease_lost
         else if mode = Lease_stop \<and> (jb_cancel_requested_at job \<noteq> None \<or> jb_drain_reason job \<noteq> None)
         then Next_stopped
         else
           let end = (case jb_drain_deadline_at job of None \<Rightarrow> expires | Some d \<Rightarrow> min expires d);
               wait = min leaseLockWaitMs ((end - now - leaseRetryReserveMs) div contendedLockWaits)
           in if wait \<ge> minimumRetryLockWaitMs then Next_wait wait else Next_exhausted))"

section \<open>The retry loop\<close>

text \<open>
  \<open>env_aborted a k\<close> is the abort signal at check \<open>k\<close> of attempt \<open>a\<close>: before the backoff, after
  it, and after the lease read.
\<close>

record 'a leaseEnv =
  env_run :: "nat \<Rightarrow> int \<Rightarrow> jsval + 'a"
  env_read :: "nat \<Rightarrow> jsval + (JobRow option \<times> int)"
  env_aborted :: "nat \<Rightarrow> nat \<Rightarrow> bool"
  env_leaseLost :: jsval

text \<open>The value of \<open>next\<close> after attempt \<open>attempt\<close> was rolled back, and the read's trace.\<close>

definition nextAttempt :: "'a leaseEnv \<Rightarrow> LeaseIdentity \<Rightarrow> LeaseMode \<Rightarrow> nat \<Rightarrow> NextWait \<times> LeaseTrace list" where
  "nextAttempt env lease mode attempt =
     (let (next, trace) =
        (if attempt < maxLeaseLockAttempts \<and> \<not> env_aborted env attempt 0 \<and> \<not> env_aborted env attempt 1
         then (case env_read env attempt of
             Inr (row, now) \<Rightarrow> (nextLeaseLockWait row now lease mode, [])
           | Inl readError \<Rightarrow> (Next_exhausted, recordFailure Site_lease_read readError attempt Out_failed))
         else (Next_exhausted, []))
      in (if env_aborted env attempt 2 then Next_aborted else next, trace))"

text \<open>The backoff slept after attempt \<open>attempt\<close> was rolled back, if there is one.\<close>

definition backoffs :: "'a leaseEnv \<Rightarrow> nat \<Rightarrow> nat list" where
  "backoffs env attempt =
     (if attempt < maxLeaseLockAttempts \<and> \<not> env_aborted env attempt 0 then [backoffMs attempt] else [])"

lemma nextAttempt_wait: "nextAttempt env lease mode attempt = (Next_wait w, tr) \<Longrightarrow> attempt < maxLeaseLockAttempts"
  by (auto simp: nextAttempt_def split: if_splits)

fun nextOutcome :: "NextWait \<Rightarrow> LeaseOutcome" where
  "nextOutcome (Next_wait _) = Out_retrying"
| "nextOutcome Next_lease_lost = Out_lease_lost"
| "nextOutcome Next_stopped = Out_stopped"
| "nextOutcome Next_exhausted = Out_exhausted"
| "nextOutcome Next_aborted = Out_aborted"

record 'a LeaseRun =
  lr_result :: "jsval + 'a"
  lr_runs :: "(nat \<times> int) list"
  lr_backoffs :: "nat list"
  lr_trace :: "LeaseTrace list"

function retryLoop ::
  "'a leaseEnv \<Rightarrow> LeaseSite \<Rightarrow> LeaseIdentity \<Rightarrow> LeaseMode \<Rightarrow> nat \<Rightarrow> int \<Rightarrow> 'a LeaseRun" where
  "retryLoop env site lease mode attempt lockWaitMs =
     (case env_run env attempt lockWaitMs of
        Inr x \<Rightarrow> \<lparr>lr_result = Inr x, lr_runs = [(attempt, lockWaitMs)], lr_backoffs = [], lr_trace = []\<rparr>
      | Inl error \<Rightarrow>
          if databaseErrorCode error \<noteq> Some ''55P03''
          then \<lparr>lr_result = Inl error, lr_runs = [(attempt, lockWaitMs)], lr_backoffs = [],
                lr_trace = recordFailure site error attempt Out_failed\<rparr>
          else case nextAttempt env lease mode attempt of (next, readTrace) \<Rightarrow>
            (let trace = readTrace @ recordFailure site error attempt (nextOutcome next);
                 slept = backoffs env attempt in
             case next of
               Next_wait w \<Rightarrow>
                 (let rest = retryLoop env site lease mode (attempt + 1) w in
                  \<lparr>lr_result = lr_result rest, lr_runs = (attempt, lockWaitMs) # lr_runs rest,
                   lr_backoffs = slept @ lr_backoffs rest, lr_trace = trace @ lr_trace rest\<rparr>)
             | Next_lease_lost \<Rightarrow>
                 \<lparr>lr_result = Inl (env_leaseLost env), lr_runs = [(attempt, lockWaitMs)],
                  lr_backoffs = slept, lr_trace = trace\<rparr>
             | _ \<Rightarrow> \<lparr>lr_result = Inl error, lr_runs = [(attempt, lockWaitMs)],
                  lr_backoffs = slept, lr_trace = trace\<rparr>))"
  by pat_completeness auto

termination
  by (relation "measure (\<lambda>(_, _, _, _, attempt, _). maxLeaseLockAttempts - attempt)")
    (auto dest: nextAttempt_wait [OF sym] nextAttempt_wait)

declare retryLoop.simps [simp del]

definition retryLeaseLockTimeout ::
  "'a leaseEnv \<Rightarrow> LeaseSite \<Rightarrow> LeaseIdentity \<Rightarrow> LeaseMode \<Rightarrow> 'a LeaseRun" where
  "retryLeaseLockTimeout env site lease mode = retryLoop env site lease mode 1 leaseLockWaitMs"

section \<open>What licenses a retry\<close>

definition licensed :: "'a leaseEnv \<Rightarrow> LeaseIdentity \<Rightarrow> LeaseMode \<Rightarrow> nat \<Rightarrow> int \<Rightarrow> bool" where
  "licensed env lease mode attempt w \<longleftrightarrow> (\<exists>job now expires.
     env_read env attempt = Inr (Some job, now) \<and> jb_status job = Job_running \<and>
     jb_worker_id job = Some (li_workerId lease) \<and> jb_lease_token job = Some (li_leaseToken lease) \<and>
     jb_lease_expires_at job = Some expires \<and>
     now + leaseRetryReserveMs + contendedLockWaits * w \<le> expires \<and>
     (\<forall>d. jb_drain_deadline_at job = Some d \<longrightarrow> now + leaseRetryReserveMs + contendedLockWaits * w \<le> d) \<and>
     (mode = Lease_stop \<longrightarrow> jb_cancel_requested_at job = None \<and> jb_drain_reason job = None)) \<and>
   minimumRetryLockWaitMs \<le> w \<and> w \<le> leaseLockWaitMs \<and>
   \<not> env_aborted env attempt 0 \<and> \<not> env_aborted env attempt 1 \<and> \<not> env_aborted env attempt 2"

lemma nextWait_bounds:
  assumes "nextLeaseLockWait (Some job) now lease mode = Next_wait w" "jb_lease_expires_at job = Some expires"
  shows "500 \<le> w \<and> w \<le> 5000 \<and> now + 1500 + 3 * w \<le> expires \<and>
    (\<forall>d. jb_drain_deadline_at job = Some d \<longrightarrow> now + 1500 + 3 * w \<le> d)"
proof -
  define e where "e = (case jb_drain_deadline_at job of None \<Rightarrow> expires | Some d \<Rightarrow> min expires d)"
  have w: "w = min 5000 ((e - now - 1500) div 3)" "500 \<le> w"
    using assms(1) unfolding nextLeaseLockWait_def option.case assms(2) Let_def e_def [symmetric]
    by (auto simp: leaseLockWaitMs_def leaseRetryReserveMs_def contendedLockWaits_def
        minimumRetryLockWaitMs_def split: if_splits)
  have "3 * w \<le> e - now - 1500" using w(1) by linarith
  moreover have "e \<le> expires" "\<forall>d. jb_drain_deadline_at job = Some d \<longrightarrow> e \<le> d"
    by (auto simp: e_def split: option.splits)
  ultimately show ?thesis using w by (auto intro: order_trans)
qed

lemma nextAttempt_licensed:
  assumes "nextAttempt env lease mode attempt = (Next_wait w, tr)"
  shows "licensed env lease mode attempt w"
proof -
  from assms obtain row now where r: "env_read env attempt = Inr (row, now)"
    "nextLeaseLockWait row now lease mode = Next_wait w"
    "\<not> env_aborted env attempt 0" "\<not> env_aborted env attempt 1" "\<not> env_aborted env attempt 2"
    by (auto simp: nextAttempt_def split: if_splits sum.splits)
  from r(2) obtain job expires where j: "row = Some job" "jb_lease_expires_at job = Some expires"
    "jb_status job = Job_running" "jb_worker_id job = Some (li_workerId lease)"
    "jb_lease_token job = Some (li_leaseToken lease)"
    "mode = Lease_stop \<longrightarrow> jb_cancel_requested_at job = None \<and> jb_drain_reason job = None"
    by (auto simp: nextLeaseLockWait_def Let_def split: option.splits if_splits)
  have "nextLeaseLockWait (Some job) now lease mode = Next_wait w" using r(2) j(1) by simp
  from nextWait_bounds [OF this j(2)] r j show ?thesis
    by (auto simp: licensed_def leaseRetryReserveMs_def contendedLockWaits_def minimumRetryLockWaitMs_def
        leaseLockWaitMs_def)
qed

text \<open>The shape of a run, by the recursion of the loop.\<close>

definition rolledBack :: "'a leaseEnv \<Rightarrow> nat \<times> int \<Rightarrow> bool" where
  "rolledBack env aw \<longleftrightarrow> (\<exists>e. env_run env (fst aw) (snd aw) = Inl e \<and> databaseErrorCode e = Some ''55P03'')"

text \<open>The attempt after \<open>aw\<close> is the next one, with the lock wait that the lease read after \<open>aw\<close> gave.\<close>

definition followedBy :: "'a leaseEnv \<Rightarrow> LeaseIdentity \<Rightarrow> LeaseMode \<Rightarrow> nat \<times> int \<Rightarrow> nat \<times> int \<Rightarrow> bool" where
  "followedBy env lease mode aw bw \<longleftrightarrow> rolledBack env aw \<and> fst bw = Suc (fst aw) \<and>
     fst (nextAttempt env lease mode (fst aw)) = Next_wait (snd bw)"

text \<open>What the run returns after its last attempt, and that this attempt is not retried.\<close>

definition endsWith :: "'a leaseEnv \<Rightarrow> LeaseIdentity \<Rightarrow> LeaseMode \<Rightarrow> nat \<times> int \<Rightarrow> jsval + 'a \<Rightarrow> bool" where
  "endsWith env lease mode aw result \<longleftrightarrow> (case env_run env (fst aw) (snd aw) of
     Inr x \<Rightarrow> result = Inr x
   | Inl e \<Rightarrow>
       if databaseErrorCode e \<noteq> Some ''55P03'' then result = Inl e
       else (case fst (nextAttempt env lease mode (fst aw)) of
         Next_wait _ \<Rightarrow> False | Next_lease_lost \<Rightarrow> result = Inl (env_leaseLost env) | _ \<Rightarrow> result = Inl e))"

lemma retryLoop_stop:
  assumes "r = retryLoop env site lease mode attempt w"
    "\<not> (\<exists>w'. rolledBack env (attempt, w) \<and> fst (nextAttempt env lease mode attempt) = Next_wait w')"
  shows "lr_runs r = [(attempt, w)] \<and> endsWith env lease mode (attempt, w) (lr_result r) \<and>
    lr_backoffs r = (if rolledBack env (attempt, w) then backoffs env attempt else [])"
proof (cases "env_run env attempt w")
  case (Inl e)
  show ?thesis
  proof (cases "databaseErrorCode e = Some ''55P03''")
    case True
    obtain n tr where "nextAttempt env lease mode attempt = (n, tr)" by (cases "nextAttempt env lease mode attempt")
    with assms Inl True show ?thesis
      by (cases n) (simp_all add: retryLoop.simps [of env site lease mode attempt w] Let_def endsWith_def rolledBack_def)
  qed (use assms Inl in \<open>simp add: retryLoop.simps [of env site lease mode attempt w] endsWith_def rolledBack_def\<close>)
qed (use assms in \<open>simp add: retryLoop.simps [of env site lease mode attempt w] endsWith_def rolledBack_def\<close>)

lemma retryLoop_go:
  assumes "rolledBack env (attempt, w)" "fst (nextAttempt env lease mode attempt) = Next_wait w'"
    "r = retryLoop env site lease mode attempt w" "rest = retryLoop env site lease mode (attempt + 1) w'"
  shows "lr_runs r = (attempt, w) # lr_runs rest \<and> lr_result r = lr_result rest \<and>
    lr_backoffs r = backoffs env attempt @ lr_backoffs rest"
  using assms by (cases "nextAttempt env lease mode attempt")
    (auto simp: retryLoop.simps [of env site lease mode attempt w] rolledBack_def Let_def)

definition runShape :: "'a leaseEnv \<Rightarrow> LeaseIdentity \<Rightarrow> LeaseMode \<Rightarrow> nat \<Rightarrow> int \<Rightarrow> 'a LeaseRun \<Rightarrow> bool" where
  "runShape env lease mode attempt w r \<longleftrightarrow> lr_runs r \<noteq> [] \<and> hd (lr_runs r) = (attempt, w) \<and>
     map fst (lr_runs r) = [attempt..<attempt + length (lr_runs r)] \<and>
     attempt + length (lr_runs r) \<le> maxLeaseLockAttempts + 1 \<and>
     successively (followedBy env lease mode) (lr_runs r) \<and>
     endsWith env lease mode (last (lr_runs r)) (lr_result r) \<and>
     lr_backoffs r = concat (map (backoffs env \<circ> fst) (filter (rolledBack env) (lr_runs r)))"

lemma retryLoop_shape:
  assumes "r = retryLoop env site lease mode attempt w" "attempt \<le> maxLeaseLockAttempts"
  shows "runShape env lease mode attempt w r"
  using assms
proof (induction "maxLeaseLockAttempts - attempt" arbitrary: attempt w r rule: less_induct)
  case less
  show ?case
  proof (cases "\<exists>w'. rolledBack env (attempt, w) \<and> fst (nextAttempt env lease mode attempt) = Next_wait w'")
    case True
    then obtain w' where e: "rolledBack env (attempt, w)" "fst (nextAttempt env lease mode attempt) = Next_wait w'"
      by blast
    define rest where "rest = retryLoop env site lease mode (attempt + 1) w'"
    have r: "lr_runs r = (attempt, w) # lr_runs rest" "lr_result r = lr_result rest"
      "lr_backoffs r = backoffs env attempt @ lr_backoffs rest"
      using retryLoop_go [OF e less.prems(1) rest_def] by auto
    have lt: "attempt < maxLeaseLockAttempts"
      using e(2) nextAttempt_wait [of env lease mode attempt w'] by (cases "nextAttempt env lease mode attempt") auto
    then have "runShape env lease mode (attempt + 1) w' rest"
      by (intro less.hyps rest_def) auto
    moreover have "followedBy env lease mode (attempt, w) (attempt + 1, w')" using e by (simp add: followedBy_def)
    moreover have "[attempt..<attempt + length (lr_runs r)] =
        attempt # [attempt + 1..<attempt + 1 + length (lr_runs rest)]"
      unfolding r by (subst upt_conv_Cons) (simp_all del: upt_Suc)
    ultimately show ?thesis using r e(1)
      by (cases "lr_runs rest") (simp_all add: runShape_def del: upt_Suc)
  next
    case False
    from retryLoop_stop [OF less.prems(1) False] less.prems(2) show ?thesis
      by (auto simp: runShape_def)
  qed
qed

lemma lease_retry_shape:
  "runShape env lease mode 1 5000 (retryLeaseLockTimeout env site lease mode)"
  using retryLoop_shape [of _ env site lease mode 1 leaseLockWaitMs]
  by (simp add: retryLeaseLockTimeout_def maxLeaseLockAttempts_def leaseLockWaitMs_def)

lemma nextAttempt_read:
  assumes "fst (nextAttempt env lease mode attempt) = Next_wait w"
  shows "\<not> env_aborted env attempt 0 \<and> \<not> env_aborted env attempt 1 \<and> \<not> env_aborted env attempt 2 \<and>
    (\<exists>row now. env_read env attempt = Inr (row, now) \<and> nextLeaseLockWait row now lease mode = Next_wait w)"
  using assms by (auto simp: nextAttempt_def split: if_splits sum.splits)

section \<open>Properties\<close>

text \<open>
  (C28) The retry of a lease transaction makes between one and four attempts, numbered from one.
  The first waits five seconds for its locks.  Attempt \<open>i + 1\<close> happens only after attempt \<open>i\<close> was
  rolled back by a lock timeout, the runner had not aborted, and the lease read after attempt \<open>i\<close>
  granted a wait; its lock wait is exactly the granted one.  After each rolled back attempt before
  the fourth, unless already aborted, the loop sleeps 100, 200 or 400 milliseconds, by the number
  of the attempt, and no other time.  It returns the result of its last attempt: the value, the
  error of another kind, or after a last lock timeout that no read licensed again, the caller's
  lease-lost error when the read showed the lease gone and the timeout itself otherwise.
\<close>

theorem lease_retry_bounded:
  assumes "r = retryLeaseLockTimeout env site lease mode" "runs = lr_runs r"
  shows "1 \<le> length runs \<and> length runs \<le> 4 \<and> map fst runs = [1..<1 + length runs] \<and>
    hd runs = (1, 5000) \<and>
    (\<forall>i. Suc i < length runs \<longrightarrow>
       (\<exists>e row now. env_run env (Suc i) (snd (runs ! i)) = Inl e \<and> databaseErrorCode e = Some ''55P03'' \<and>
          \<not> env_aborted env (Suc i) 0 \<and> \<not> env_aborted env (Suc i) 1 \<and> \<not> env_aborted env (Suc i) 2 \<and>
          env_read env (Suc i) = Inr (row, now) \<and>
          nextLeaseLockWait row now lease mode = Next_wait (snd (runs ! Suc i)))) \<and>
    lr_backoffs r = map (\<lambda>aw. 50 * 2 ^ fst aw)
      (filter (\<lambda>aw. fst aw < 4 \<and> \<not> env_aborted env (fst aw) 0 \<and>
         (\<exists>e. env_run env (fst aw) (snd aw) = Inl e \<and> databaseErrorCode e = Some ''55P03'')) runs) \<and>
    (case env_run env (length runs) (snd (last runs)) of
       Inr x \<Rightarrow> lr_result r = Inr x
     | Inl e \<Rightarrow>
         if databaseErrorCode e = Some ''55P03''
         then (\<forall>w. fst (nextAttempt env lease mode (length runs)) \<noteq> Next_wait w) \<and>
           lr_result r = Inl (if fst (nextAttempt env lease mode (length runs)) = Next_lease_lost
                              then env_leaseLost env else e)
         else lr_result r = Inl e)"
proof -
  have sh: "runShape env lease mode 1 5000 r" unfolding assms(1) by (rule lease_retry_shape)
  have nth: "fst (runs ! i) = Suc i" if "i < length runs" for i
    using sh that arg_cong [of _ _ "\<lambda>xs. xs ! i"] by (fastforce simp: runShape_def assms(2) nth_map [symmetric] simp del: upt_Suc)
  have "fst (last runs) = length runs"
    using nth [of "length runs - 1"] sh by (simp add: last_conv_nth runShape_def assms(2))
  then have "case env_run env (length runs) (snd (last runs)) of
       Inr x \<Rightarrow> lr_result r = Inr x
     | Inl e \<Rightarrow>
         if databaseErrorCode e = Some ''55P03''
         then (\<forall>w. fst (nextAttempt env lease mode (length runs)) \<noteq> Next_wait w) \<and>
           lr_result r = Inl (if fst (nextAttempt env lease mode (length runs)) = Next_lease_lost
                              then env_leaseLost env else e)
         else lr_result r = Inl e"
    using sh by (auto simp: runShape_def endsWith_def assms(2) split: sum.splits NextWait.splits if_splits)
  moreover have "\<exists>e row now. env_run env (Suc i) (snd (runs ! i)) = Inl e \<and> databaseErrorCode e = Some ''55P03'' \<and>
      \<not> env_aborted env (Suc i) 0 \<and> \<not> env_aborted env (Suc i) 1 \<and> \<not> env_aborted env (Suc i) 2 \<and>
      env_read env (Suc i) = Inr (row, now) \<and> nextLeaseLockWait row now lease mode = Next_wait (snd (runs ! Suc i))"
    if i: "Suc i < length runs" for i
  proof -
    have "followedBy env lease mode (runs ! i) (runs ! Suc i)"
      using sh i by (simp add: runShape_def assms(2) successively_conv_nth)
    then show ?thesis
      using nth [of i] i nextAttempt_read [of env lease mode "Suc i"]
      by (fastforce simp: followedBy_def rolledBack_def)
  qed
  moreover have "concat (map (backoffs env \<circ> fst) (filter (rolledBack env) xs)) =
      map (\<lambda>aw. 50 * 2 ^ fst aw) (filter (\<lambda>aw. fst aw < 4 \<and> \<not> env_aborted env (fst aw) 0 \<and>
         (\<exists>e. env_run env (fst aw) (snd aw) = Inl e \<and> databaseErrorCode e = Some ''55P03'')) xs)" for xs
    by (induction xs) (auto simp: backoffs_def backoffMs_def maxLeaseLockAttempts_def rolledBack_def)
  ultimately show ?thesis using sh
    by (auto simp: runShape_def maxLeaseLockAttempts_def Suc_le_eq assms(2) simp del: upt_Suc)
qed

text \<open>
  Every attempt after the first was licensed by a lease read on the database clock: the job
  was running under this worker's token, and three lock waits of the granted length plus the
  reserve end before the lease and before any drain deadline; when cancellation ends the retries,
  none was committed.  The granted wait is between half a second and five seconds.
\<close>

theorem lease_retry_licensed:
  assumes "aw \<in> set (tl (lr_runs (retryLeaseLockTimeout env site lease mode)))"
  shows "500 \<le> snd aw \<and> snd aw \<le> 5000 \<and>
    (\<exists>job now expires. env_read env (fst aw - 1) = Inr (Some job, now) \<and> jb_status job = Job_running \<and>
       jb_worker_id job = Some (li_workerId lease) \<and> jb_lease_token job = Some (li_leaseToken lease) \<and>
       jb_lease_expires_at job = Some expires \<and> now + 1500 + 3 * snd aw \<le> expires \<and>
       (\<forall>d. jb_drain_deadline_at job = Some d \<longrightarrow> now + 1500 + 3 * snd aw \<le> d) \<and>
       (mode = Lease_stop \<longrightarrow> jb_cancel_requested_at job = None \<and> jb_drain_reason job = None))"
proof -
  let ?runs = "lr_runs (retryLeaseLockTimeout env site lease mode)"
  have sh: "runShape env lease mode 1 5000 (retryLeaseLockTimeout env site lease mode)" by (rule lease_retry_shape)
  obtain i where i: "aw = ?runs ! Suc i" "Suc i < length ?runs"
    using assms by (auto simp: in_set_conv_nth nth_tl)
  then have "followedBy env lease mode (?runs ! i) aw"
    using sh by (simp add: runShape_def successively_conv_nth)
  then have "licensed env lease mode (fst aw - 1) (snd aw)"
    using nextAttempt_licensed [of env lease mode "fst aw - 1" "snd aw"]
    by (cases "nextAttempt env lease mode (fst aw - 1)") (auto simp: followedBy_def)
  then show ?thesis
    by (simp add: licensed_def leaseRetryReserveMs_def contendedLockWaits_def minimumRetryLockWaitMs_def
        leaseLockWaitMs_def)
qed

definition sampleLease :: LeaseIdentity where
  "sampleLease = \<lparr>li_workerId = ''k1'', li_jobId = ''j1'', li_leaseToken = ''l1''\<rparr>"

definition sampleLeaseEnv :: "nat leaseEnv" where
  "sampleLeaseEnv = \<lparr>env_run = (\<lambda>a w. if a = 1 then Inl (JObj [(''code'', JStr ''55P03'')]) else Inr 7),
     env_read = (\<lambda>_. Inr (Some sampleJob, 49000)), env_aborted = (\<lambda>_ _. False), env_leaseLost = JNull\<rparr>"

lemma sample_retry:
  "retryLeaseLockTimeout sampleLeaseEnv Site_job_event sampleLease Lease_stop =
     \<lparr>lr_result = Inr 7, lr_runs = [(1, 5000), (2, 3166)], lr_backoffs = [100],
      lr_trace = [\<lparr>lt_site = Site_job_event, lt_sqlState = ''55P03'', lt_attempt = 1, lt_outcome = Out_retrying\<rparr>]\<rparr>"
proof -
  have c: "databaseErrorCode (JObj [(''code'', JStr ''55P03'')]) = Some ''55P03''"
    by (simp add: databaseErrorCode_def isDigitChar_def isUpperChar_def)
  have n: "nextAttempt sampleLeaseEnv sampleLease Lease_stop 1 = (Next_wait 3166, [])"
    by (simp add: nextAttempt_def sampleLeaseEnv_def maxLeaseLockAttempts_def nextLeaseLockWait_def sampleJob_def
        sampleLease_def leaseLockWaitMs_def leaseRetryReserveMs_def contendedLockWaits_def minimumRetryLockWaitMs_def)
  have b: "backoffs sampleLeaseEnv 1 = [100]"
    by (simp add: backoffs_def backoffMs_def maxLeaseLockAttempts_def sampleLeaseEnv_def)
  have run: "env_run sampleLeaseEnv 1 w = Inl (JObj [(''code'', JStr ''55P03'')])" "env_run sampleLeaseEnv 2 w = Inr 7" for w
    by (simp_all add: sampleLeaseEnv_def)
  have two: "retryLoop sampleLeaseEnv Site_job_event sampleLease Lease_stop 2 3166
      = \<lparr>lr_result = Inr 7, lr_runs = [(2, 3166)], lr_backoffs = [], lr_trace = []\<rparr>"
    by (subst retryLoop.simps) (simp add: run)
  show ?thesis
    unfolding retryLeaseLockTimeout_def leaseLockWaitMs_def
    by (subst retryLoop.simps) (simp add: run n c two b recordFailure_def del: One_nat_def)
qed

theorem lease_retry_bounded_witness:
  "lr_result (retryLeaseLockTimeout sampleLeaseEnv Site_job_event sampleLease Lease_stop) = Inr 7 \<and>
   env_run sampleLeaseEnv 2 3166 = Inr 7 \<and>
   (\<exists>row now. env_read sampleLeaseEnv 1 = Inr (row, now) \<and>
      nextLeaseLockWait row now sampleLease Lease_stop = Next_wait 3166)"
proof -
  let ?r = "retryLeaseLockTimeout sampleLeaseEnv Site_job_event sampleLease Lease_stop"
  have env: "env_run sampleLeaseEnv 2 w = Inr 7" "env_read sampleLeaseEnv a = Inr (Some sampleJob, 49000)" for w a
    by (simp_all add: sampleLeaseEnv_def)
  have runs: "lr_runs ?r = [(1, 5000), (2, 3166)]" by (simp add: sample_retry)
  have two: "length (lr_runs ?r) = 2" "snd (last (lr_runs ?r)) = 3166" "Suc 0 < length (lr_runs ?r)"
    "lr_runs ?r ! Suc 0 = (2, 3166)" unfolding runs by simp_all
  from lease_retry_bounded [OF refl refl, of sampleLeaseEnv Site_job_event sampleLease Lease_stop]
  have "case env_run sampleLeaseEnv 2 3166 of Inr x \<Rightarrow> lr_result ?r = Inr x | Inl e \<Rightarrow> True"
    "\<exists>row now. env_read sampleLeaseEnv 1 = Inr (row, now) \<and>
       nextLeaseLockWait row now sampleLease Lease_stop = Next_wait 3166"
    unfolding two(1,2) using two(3,4) by (auto split: sum.splits)
  then show ?thesis by (simp add: env)
qed

theorem lease_retry_licensed_witness:
  "(2, 3166) \<in> set (tl (lr_runs (retryLeaseLockTimeout sampleLeaseEnv Site_job_event sampleLease Lease_stop))) \<and>
   (\<exists>job now. env_read sampleLeaseEnv 1 = Inr (Some job, now) \<and> jb_status job = Job_running)"
proof -
  have m: "(2, 3166) \<in> set (tl (lr_runs (retryLeaseLockTimeout sampleLeaseEnv Site_job_event sampleLease Lease_stop)))"
    by (simp add: sample_retry)
  from lease_retry_licensed [OF m] m show ?thesis by auto
qed

end
