(* ===== verification/RunEvents.thy ===== *)
theory RunEvents
  imports Decode
begin

text \<open>
  packages/contracts/src/runs.ts: the durable events of a run, the canonical presentation event
  derived from one, and the check of a complete event sequence.  Shown: exactly which sequences
  the check accepts, and exactly when canonicalization of a valid event fails.
\<close>

section \<open>Statuses and event types\<close>

datatype RunStatus =
  Run_queued | Run_running | Run_waiting_approval | Run_succeeded | Run_failed | Run_canceled | Run_needs_attention

definition isTerminalRunStatus :: "RunStatus \<Rightarrow> bool" where
  "isTerminalRunStatus s \<longleftrightarrow> s \<in> {Run_succeeded, Run_failed, Run_canceled}"

datatype RunEventType =
    RE_run_created | RE_run_started | RE_run_retrying | RE_session_bound
  | RE_turn_started | RE_turn_completed | RE_turn_failed | RE_turn_canceled | RE_routing_selected
  | RE_step_started | RE_step_completed | RE_step_waiting_approval | RE_step_retrying
  | RE_step_compensating | RE_step_compensated | RE_assistant_text_delta | RE_assistant_text_completed
  | RE_harness_native | RE_tool_started | RE_tool_completed | RE_tool_failed | RE_artifact_created
  | RE_approval_requested | RE_approval_decided | RE_knowledge_retrieved
  | RE_context_compaction_started | RE_context_compaction_completed | RE_context_compaction_failed
  | RE_context_checkpoint_created | RE_usage_updated | RE_run_succeeded | RE_run_failed | RE_run_canceled
  | RE_run_needs_attention | RE_heartbeat

fun runEventTypeStr :: "RunEventType \<Rightarrow> string" where
  "runEventTypeStr RE_run_created = ''run.created''"
| "runEventTypeStr RE_run_started = ''run.started''"
| "runEventTypeStr RE_run_retrying = ''run.retrying''"
| "runEventTypeStr RE_session_bound = ''session.bound''"
| "runEventTypeStr RE_turn_started = ''turn.started''"
| "runEventTypeStr RE_turn_completed = ''turn.completed''"
| "runEventTypeStr RE_turn_failed = ''turn.failed''"
| "runEventTypeStr RE_turn_canceled = ''turn.canceled''"
| "runEventTypeStr RE_routing_selected = ''routing.selected''"
| "runEventTypeStr RE_step_started = ''step.started''"
| "runEventTypeStr RE_step_completed = ''step.completed''"
| "runEventTypeStr RE_step_waiting_approval = ''step.waiting_approval''"
| "runEventTypeStr RE_step_retrying = ''step.retrying''"
| "runEventTypeStr RE_step_compensating = ''step.compensating''"
| "runEventTypeStr RE_step_compensated = ''step.compensated''"
| "runEventTypeStr RE_assistant_text_delta = ''assistant.text.delta''"
| "runEventTypeStr RE_assistant_text_completed = ''assistant.text.completed''"
| "runEventTypeStr RE_harness_native = ''harness.native''"
| "runEventTypeStr RE_tool_started = ''tool.started''"
| "runEventTypeStr RE_tool_completed = ''tool.completed''"
| "runEventTypeStr RE_tool_failed = ''tool.failed''"
| "runEventTypeStr RE_artifact_created = ''artifact.created''"
| "runEventTypeStr RE_approval_requested = ''approval.requested''"
| "runEventTypeStr RE_approval_decided = ''approval.decided''"
| "runEventTypeStr RE_knowledge_retrieved = ''knowledge.retrieved''"
| "runEventTypeStr RE_context_compaction_started = ''context.compaction.started''"
| "runEventTypeStr RE_context_compaction_completed = ''context.compaction.completed''"
| "runEventTypeStr RE_context_compaction_failed = ''context.compaction.failed''"
| "runEventTypeStr RE_context_checkpoint_created = ''context.checkpoint.created''"
| "runEventTypeStr RE_usage_updated = ''usage.updated''"
| "runEventTypeStr RE_run_succeeded = ''run.succeeded''"
| "runEventTypeStr RE_run_failed = ''run.failed''"
| "runEventTypeStr RE_run_canceled = ''run.canceled''"
| "runEventTypeStr RE_run_needs_attention = ''run.needs_attention''"
| "runEventTypeStr RE_heartbeat = ''heartbeat''"

datatype RuntimeEventCategory =
    Cat_run | Cat_assistant | Cat_tool | Cat_workflow | Cat_approval | Cat_artifact | Cat_knowledge
  | Cat_context | Cat_system | Cat_session | Cat_turn | Cat_usage | Cat_routing

datatype RuntimeEventPhase =
  Phase_queued | Phase_running | Phase_waiting | Phase_succeeded | Phase_failed | Phase_canceled | Phase_info

definition runtimeEventCategory :: "RunEventType \<Rightarrow> RuntimeEventCategory" where
  "runtimeEventCategory t = (let s = runEventTypeStr t in
     if startsWith s ''session.'' then Cat_session
     else if startsWith s ''turn.'' then Cat_turn
     else if s = ''usage.updated'' then Cat_usage
     else if startsWith s ''routing.'' then Cat_routing
     else if startsWith s ''assistant.'' then Cat_assistant
     else if s = ''harness.native'' then Cat_system
     else if startsWith s ''tool.'' then Cat_tool
     else if startsWith s ''step.'' then Cat_workflow
     else if startsWith s ''approval.'' then Cat_approval
     else if startsWith s ''artifact.'' then Cat_artifact
     else if startsWith s ''knowledge.'' then Cat_knowledge
     else if startsWith s ''context.'' then Cat_context
     else if s = ''heartbeat'' then Cat_system
     else Cat_run)"

text \<open>\<open>s.includes(p)\<close>\<close>

fun includesStr :: "string \<Rightarrow> string \<Rightarrow> bool" where
  "includesStr [] p = (p = [])"
| "includesStr (c # s) p = (startsWith (c # s) p \<or> includesStr s p)"

definition runtimeEventPhase :: "RunEventType \<Rightarrow> RuntimeEventPhase" where
  "runtimeEventPhase t = (let s = runEventTypeStr t in
     if s = ''run.created'' then Phase_queued
     else if endsWith s ''.failed'' \<or> s = ''run.needs_attention'' then Phase_failed
     else if endsWith s ''.canceled'' then Phase_canceled
     else if endsWith s ''.completed'' \<or> endsWith s ''.succeeded'' \<or> s = ''artifact.created'' \<or>
       s = ''approval.decided'' \<or> s = ''knowledge.retrieved'' \<or> s = ''context.checkpoint.created''
       then Phase_succeeded
     else if includesStr s ''waiting'' \<or> s = ''approval.requested'' then Phase_waiting
     else if endsWith s ''.started'' \<or> endsWith s ''.retrying'' \<or> s = ''assistant.text.delta'' then Phase_running
     else Phase_info)"

section \<open>Events\<close>

record RunEvent =
  re_eventId :: string
  re_runId :: string
  re_sequence :: int
  re_type :: RunEventType
  re_occurredAt :: string
  re_payload :: jsval

definition validRunEvent :: "platform \<Rightarrow> RunEvent \<Rightarrow> bool" where
  "validRunEvent P e \<longleftrightarrow> zUuid P (re_eventId e) \<and> zUuid P (re_runId e) \<and> zNonneg (re_sequence e) \<and>
     zDatetime P (re_occurredAt e)"

datatype Harness = Harness_codex | Harness_dsh

record CanonicalRuntimeEvent =
  ce_eventId :: string
  ce_runId :: string
  ce_sequence :: int
  ce_occurredAt :: string
  ce_type :: RunEventType
  ce_category :: RuntimeEventCategory
  ce_phase :: RuntimeEventPhase
  ce_harness :: "Harness option"
  ce_generation :: "int option"
  ce_payload :: jsval

definition validCanonicalRuntimeEvent :: "platform \<Rightarrow> CanonicalRuntimeEvent \<Rightarrow> bool" where
  "validCanonicalRuntimeEvent P e \<longleftrightarrow> zUuid P (ce_eventId e) \<and> zUuid P (ce_runId e) \<and>
     zNonneg (ce_sequence e) \<and> zDatetime P (ce_occurredAt e) \<and> optAll zNonneg (ce_generation e) \<and>
     (\<exists>kvs. ce_payload e = JObj kvs)"

definition canonicalizeRunEvent :: "platform \<Rightarrow> RunEvent \<Rightarrow> CanonicalRuntimeEvent result" where
  "canonicalizeRunEvent P event =
     (if \<not> validRunEvent P event then Inl ZodError
      else let payload = (case re_payload event of
                JObj kvs \<Rightarrow> JObj kvs | v \<Rightarrow> JObj [(''value'', v)]);
            source = jget ''source'' payload;
            generation = jget ''generation'' payload;
            c = \<lparr>ce_eventId = re_eventId event, ce_runId = re_runId event, ce_sequence = re_sequence event,
              ce_occurredAt = re_occurredAt event, ce_type = re_type event,
              ce_category = runtimeEventCategory (re_type event), ce_phase = runtimeEventPhase (re_type event),
              ce_harness = (if source = JStr ''codex'' then Some Harness_codex
                else if source = JStr ''dsh'' then Some Harness_dsh else None),
              ce_generation = (case generation of JNum n \<Rightarrow> (if 0 \<le> n then Some n else None) | _ \<Rightarrow> None),
              ce_payload = payload\<rparr>
        in if validCanonicalRuntimeEvent P c then Inr c else Inl ZodError)"

definition terminalEvents :: "RunEventType set" where
  "terminalEvents = {RE_run_succeeded, RE_run_failed, RE_run_canceled}"

text \<open>\<open>isTerminalRunEventType\<close> of the queue policy is the same set.\<close>

definition isTerminalRunEventType :: "RunEventType \<Rightarrow> bool" where
  "isTerminalRunEventType t \<longleftrightarrow> t \<in> {RE_run_succeeded, RE_run_failed, RE_run_canceled}"

fun validateLoop :: "string \<Rightarrow> int \<Rightarrow> string list \<Rightarrow> bool \<Rightarrow> RunEvent list \<Rightarrow> unit result" where
  "validateLoop runId index ids terminal [] = Inr ()"
| "validateLoop runId index ids terminal (event # events) =
     (if re_runId event \<noteq> runId then Inl (JsError ''mixed run IDs in event stream'')
      else if re_eventId event \<in> set ids then Inl (JsError ''duplicate run event ID'')
      else if re_sequence event \<noteq> index
        then Inl (JsError (''run event sequence gap at '' @ intStr (re_sequence event)))
      else if terminal then Inl (JsError ''run event emitted after terminal event'')
      else validateLoop runId (index + 1) (re_eventId event # ids) (re_type event \<in> terminalEvents) events)"

definition validateRunEventSequence :: "platform \<Rightarrow> RunEvent list \<Rightarrow> unit result" where
  "validateRunEventSequence P events =
     (if \<not> list_all (validRunEvent P) events then Inl ZodError
      else case events of
          [] \<Rightarrow> Inr ()
        | firstEvent # _ \<Rightarrow> validateLoop (re_runId firstEvent) 0 [] False events)"

section \<open>What is accepted\<close>

lemma validateLoop_iff:
  "validateLoop r i ids terminal es = Inr () \<longleftrightarrow>
     (\<forall>e \<in> set es. re_runId e = r) \<and> distinct (map re_eventId es) \<and>
     (\<forall>e \<in> set es. re_eventId e \<notin> set ids) \<and>
     (\<forall>n < length es. re_sequence (es ! n) = i + int n) \<and>
     (terminal \<longrightarrow> es = []) \<and> (\<forall>e \<in> set (butlast es). re_type e \<notin> terminalEvents)"
proof (induction es arbitrary: i ids terminal)
  case (Cons e es)
  have seq: "(\<forall>n < length (e # es). re_sequence ((e # es) ! n) = i + int n) \<longleftrightarrow>
      re_sequence e = i \<and> (\<forall>n < length es. re_sequence (es ! n) = (i + 1) + int n)"
    by (simp add: All_less_Suc2 add.assoc)
  show ?case
  proof (cases "es = []")
    case True
    then show ?thesis unfolding seq by simp
  next
    case False
    have step: "validateLoop r i ids terminal (e # es) = Inr () \<longleftrightarrow> re_runId e = r \<and> re_eventId e \<notin> set ids \<and>
        re_sequence e = i \<and> \<not> terminal \<and>
        validateLoop r (i + 1) (re_eventId e # ids) (re_type e \<in> terminalEvents) es = Inr ()"
      by simp
    have fresh: "(\<forall>x \<in> set es. re_eventId x \<notin> set (re_eventId e # ids)) \<longleftrightarrow>
        re_eventId e \<notin> set (map re_eventId es) \<and> (\<forall>x \<in> set es. re_eventId x \<notin> set ids)"
      by (force simp: image_iff)
    have "set (butlast (e # es)) = insert e (set (butlast es))" using False by simp
    then show ?thesis
      unfolding step seq Cons.IH fresh using False by (simp only: list.set(2) ball_simps list.map distinct.simps list.discI simp_thms) argo
  qed
qed simp

lemma isTerminal_agrees: "isTerminalRunEventType t \<longleftrightarrow> t \<in> terminalEvents"
  by (simp add: isTerminalRunEventType_def terminalEvents_def)

lemma canonicalize_fails_iff:
  assumes "validRunEvent P e"
  shows "\<not> isOk (canonicalizeRunEvent P e) \<longleftrightarrow>
    (\<exists>kvs n. re_payload e = JObj kvs \<and> jget ''generation'' (JObj kvs) = JNum n \<and> MAX_SAFE_INTEGER < n)"
proof -
  define payload where "payload = (case re_payload e of JObj kvs \<Rightarrow> JObj kvs | v \<Rightarrow> JObj [(''value'', v)])"
  define g where "g = (case jget ''generation'' payload of JNum n \<Rightarrow> (if 0 \<le> n then Some n else None) | _ \<Rightarrow> None)"
  have o: "\<exists>kvs. payload = JObj kvs" by (cases "re_payload e") (simp_all add: payload_def)
  have "isOk (canonicalizeRunEvent P e) \<longleftrightarrow> optAll zNonneg g"
    using assms o
    unfolding canonicalizeRunEvent_def Let_def payload_def [symmetric] g_def [symmetric]
    by (simp add: validCanonicalRuntimeEvent_def validRunEvent_def)
  also have "\<dots> \<longleftrightarrow> \<not> (\<exists>n. jget ''generation'' payload = JNum n \<and> MAX_SAFE_INTEGER < n)"
    unfolding g_def by (simp add: zNonneg_def isSafeInteger_def not_less split: jsval.split)
  also have "(\<exists>n. jget ''generation'' payload = JNum n \<and> MAX_SAFE_INTEGER < n) \<longleftrightarrow>
      (\<exists>kvs n. re_payload e = JObj kvs \<and> jget ''generation'' (JObj kvs) = JNum n \<and> MAX_SAFE_INTEGER < n)"
    by (cases "re_payload e") (simp_all add: payload_def)
  finally show ?thesis by blast
qed

section \<open>Properties\<close>

text \<open>
  A sequence of events is accepted exactly when every event satisfies its schema, all belong
  to one run, their identities are distinct, their sequence numbers are 0, 1, 2, ..., and no event
  but the last is terminal.
\<close>

theorem run_event_sequence_accepted_iff:
  "validateRunEventSequence P es = Inr () \<longleftrightarrow>
     list_all (validRunEvent P) es \<and> (\<exists>r. \<forall>e \<in> set es. re_runId e = r) \<and> distinct (map re_eventId es) \<and>
     (\<forall>n < length es. re_sequence (es ! n) = int n) \<and>
     (\<forall>e \<in> set (butlast es). \<not> isTerminalRunEventType (re_type e))"
proof (cases es)
  case (Cons e es')
  have "validateRunEventSequence P es = Inr () \<longleftrightarrow>
      list_all (validRunEvent P) es \<and> validateLoop (re_runId e) 0 [] False es = Inr ()"
    unfolding validateRunEventSequence_def using Cons by (cases "list_all (validRunEvent P) es") (simp_all only: list.case if_True if_False simp_thms not_False_eq_True sum.distinct)
  moreover have "(\<forall>x \<in> set es. re_runId x = re_runId e) \<longleftrightarrow> (\<exists>r. \<forall>x \<in> set es. re_runId x = r)"
    using Cons by auto
  ultimately show ?thesis unfolding validateLoop_iff isTerminal_agrees by simp
qed (simp add: validateRunEventSequence_def)

definition sampleRunEvent :: "string \<Rightarrow> int \<Rightarrow> RunEventType \<Rightarrow> jsval \<Rightarrow> RunEvent" where
  "sampleRunEvent i n t p = \<lparr>re_eventId = i, re_runId = ''r1'', re_sequence = n, re_type = t,
     re_occurredAt = ''2026-01-01T00:00:00Z'', re_payload = p\<rparr>"

theorem run_event_sequence_accepted_iff_witness:
  "validateRunEventSequence samplePlatform
     [sampleRunEvent ''a0'' 0 RE_run_created JNull, sampleRunEvent ''a1'' 1 RE_run_succeeded JNull] = Inr () \<and>
   validateRunEventSequence samplePlatform
     [sampleRunEvent ''a0'' 0 RE_run_succeeded JNull, sampleRunEvent ''a1'' 1 RE_run_created JNull] \<noteq> Inr ()"
  unfolding run_event_sequence_accepted_iff
  by (auto simp: sampleRunEvent_def validRunEvent_def zNonneg_def isSafeInteger_def
      isTerminalRunEventType_def less_Suc_eq numeral_2_eq_2)

text \<open>
  (C27) Canonicalizing a valid event succeeds unless its payload carries an integer \<open>generation\<close>
  above the safe range: that one is passed on as it is and fails the output schema, where any
  other unusable generation is replaced by null.
\<close>

theorem canonicalize_fails_exactly:
  assumes "validRunEvent P e"
  shows "\<not> isOk (canonicalizeRunEvent P e) \<longleftrightarrow>
    (\<exists>kvs n. re_payload e = JObj kvs \<and> jget ''generation'' (JObj kvs) = JNum n \<and> MAX_SAFE_INTEGER < n)"
  by (rule canonicalize_fails_iff [OF assms])

theorem canonicalize_fails_exactly_witness:
  "isOk (canonicalizeRunEvent samplePlatform (sampleRunEvent ''a0'' 0 RE_run_created JNull)) \<and>
   \<not> isOk (canonicalizeRunEvent samplePlatform (sampleRunEvent ''a0'' 0 RE_run_created
       (JObj [(''generation'', JNum 9007199254740993)])))"
proof -
  have v: "validRunEvent samplePlatform (sampleRunEvent ''a0'' 0 RE_run_created p)" for p
    by (simp add: validRunEvent_def sampleRunEvent_def zNonneg_def isSafeInteger_def)
  show ?thesis
    using canonicalize_fails_exactly [OF v, of JNull]
      canonicalize_fails_exactly [OF v, of "JObj [(''generation'', JNum 9007199254740993)]"]
    by (simp add: sampleRunEvent_def)
qed

end
