(* ===== verification/OnceWriter.thy ===== *)
theory OnceWriter
  imports JsonValue IsoTime
begin

text \<open>
  packages/database/src/native-schedule-once-state.ts, first half: the bounded control digest and
  the writer row that fences who may change a partition.  The operations plan a row change: None
  is the code's \<open>null\<close>, on which the caller writes nothing.  Shown: the epoch only grows, a row
  is acquired only after it was closed, two writers a row accepts are the same one, and a writer
  of an earlier epoch is refused in every later row.
\<close>

section \<open>Readiness, digest and identifiers\<close>

record NativeOnceReadiness =
  rd_enabled :: "bool option"
  rd_storageReady :: "bool option"
  rd_legacyClockExcluded :: "bool option"
  rd_controlArtifactApproved :: "bool option"

definition nativeOnceReady :: "NativeOnceReadiness option \<Rightarrow> bool" where
  "nativeOnceReady r = (case r of None \<Rightarrow> False | Some v \<Rightarrow>
     rd_enabled v = Some True \<and> rd_storageReady v = Some True \<and> rd_legacyClockExcluded v = Some True \<and>
     rd_controlArtifactApproved v = Some True)"

text \<open>Nodes and depth as \<open>visit\<close> counts them: the root is at depth 0.\<close>

fun jsNodes :: "jsval \<Rightarrow> nat" and jsNodesArr :: "jsval list \<Rightarrow> nat" and jsNodesObj :: "(string \<times> jsval) list \<Rightarrow> nat"
where
  "jsNodes (JArr xs) = 1 + jsNodesArr xs"
| "jsNodes (JObj kvs) = 1 + jsNodesObj kvs"
| "jsNodes _ = 1"
| "jsNodesArr [] = 0"
| "jsNodesArr (x # xs) = jsNodes x + jsNodesArr xs"
| "jsNodesObj [] = 0"
| "jsNodesObj ((k, v) # kvs) = jsNodes v + jsNodesObj kvs"

fun jsDepth :: "jsval \<Rightarrow> nat" and jsDepthArr :: "jsval list \<Rightarrow> nat" and jsDepthObj :: "(string \<times> jsval) list \<Rightarrow> nat"
where
  "jsDepth (JArr xs) = jsDepthArr xs"
| "jsDepth (JObj kvs) = jsDepthObj kvs"
| "jsDepth _ = 0"
| "jsDepthArr [] = 0"
| "jsDepthArr (x # xs) = max (1 + jsDepth x) (jsDepthArr xs)"
| "jsDepthObj [] = 0"
| "jsDepthObj ((k, v) # kvs) = max (1 + jsDepth v) (jsDepthObj kvs)"

text \<open>
  The values of the model are trees without accessors, so the cycle and accessor checks of
  \<open>visit\<close> never fire.
\<close>

definition nativeOnceDigest :: "jsval \<Rightarrow> string result" where
  "nativeOnceDigest v =
     (if jsNodes v > 20000 \<or> jsDepth v > 32 then Inl (NativeOnceStateError ''json_limit'')
      else case runtimePolicyDigest v of
          Inl _ \<Rightarrow> Inl (NativeOnceStateError ''invalid_json'')
        | Inr digest \<Rightarrow>
            if length (utf8 (stringify v)) > 65536 then Inl (NativeOnceStateError ''json_limit'')
            else Inr digest)"

definition safeTime :: "int \<Rightarrow> bool" where
  "safeTime v \<longleftrightarrow> isSafeInteger v \<and> 0 \<le> v"

definition goodId :: "string \<Rightarrow> bool" where
  "goodId s \<longleftrightarrow> 0 < length s \<and> length s \<le> 512"

definition TTL_MAX :: int where "TTL_MAX = 300000"

section \<open>Writers\<close>

record NativeOnceWriter =
  wr_partitionId :: string
  wr_ownerId :: string
  wr_epoch :: int
  wr_token :: string

record NativeOnceReference =
  nr_artifactId :: string
  nr_profileId :: string
  nr_storageId :: string
  nr_stateRoot :: string

record NativeOnceWriterRow =
  ww_partitionId :: string
  ww_ownerId :: "string option"
  ww_epoch :: int
  ww_tokenDigest :: "string option"
  ww_expiresAtMs :: "int option"
  ww_closed :: bool
  ww_reference :: NativeOnceReference

record NativeOnceFence =
  fe_partitionId :: string
  fe_ownerId :: string
  fe_epoch :: int
  fe_tokenDigest :: string

definition fence :: "NativeOnceWriter \<Rightarrow> NativeOnceFence result" where
  "fence writer =
     (if \<not> goodId (wr_partitionId writer) \<or> \<not> goodId (wr_ownerId writer) \<or> \<not> goodId (wr_token writer) \<or>
        \<not> isSafeInteger (wr_epoch writer) \<or> wr_epoch writer < 1
      then Inl (NativeOnceStateError ''writer_invalid'')
      else andThen (nativeOnceDigest (JStr (wr_token writer))) (\<lambda>d.
        Inr \<lparr>fe_partitionId = wr_partitionId writer, fe_ownerId = wr_ownerId writer,
          fe_epoch = wr_epoch writer, fe_tokenDigest = d\<rparr>))"

definition sameWriter :: "NativeOnceWriterRow \<Rightarrow> NativeOnceWriter \<Rightarrow> bool result" where
  "sameWriter row writer = andThen (fence writer) (\<lambda>f.
     Inr (ww_partitionId row = fe_partitionId f \<and> ww_ownerId row = Some (fe_ownerId f) \<and>
       ww_epoch row = fe_epoch f \<and> ww_tokenDigest row = Some (fe_tokenDigest f)))"

definition nativeOnceWriterRemaining :: "NativeOnceWriterRow \<Rightarrow> NativeOnceWriter \<Rightarrow> int \<Rightarrow> int result" where
  "nativeOnceWriterRemaining row writer dbNowMs =
     (if \<not> safeTime dbNowMs then Inr 0
      else andThen (sameWriter row writer) (\<lambda>same.
        if \<not> same \<or> ww_closed row \<or> \<not> safeTime (orElse (ww_expiresAtMs row) (-1)) then Inr 0
        else let remaining = orElse (ww_expiresAtMs row) (-1) - dbNowMs in
          Inr (if 0 < remaining \<and> remaining \<le> TTL_MAX then remaining else 0)))"

record NativeOnceAcquire =
  aq_readiness :: "NativeOnceReadiness option"
  aq_ownerId :: string
  aq_token :: string
  aq_expectedReference :: NativeOnceReference
  aq_dbNowMs :: int
  aq_ttlMs :: int

record NativeOnceAcquired =
  ac_writer :: NativeOnceWriter
  ac_row :: NativeOnceWriterRow
  ac_remainingMs :: int

definition planNativeOnceAcquire :: "NativeOnceWriterRow \<Rightarrow> NativeOnceAcquire \<Rightarrow> NativeOnceAcquired option result" where
  "planNativeOnceAcquire row input =
     (if \<not> nativeOnceReady (aq_readiness input) then Inr None
      else if \<not> safeTime (aq_dbNowMs input) \<or> \<not> isSafeInteger (aq_ttlMs input) \<or> aq_ttlMs input < 1 \<or>
        TTL_MAX < aq_ttlMs input \<or> \<not> isSafeInteger (ww_epoch row) \<or> ww_epoch row < 0 \<or>
        MAX_SAFE_INTEGER \<le> ww_epoch row
        then Inl (NativeOnceStateError ''writer_invalid'')
      else if ww_reference row \<noteq> aq_expectedReference input
        then Inl (NativeOnceStateError ''reference_changed'')
      else if \<not> ww_closed row then Inr None
      else
        let writer = \<lparr>wr_partitionId = ww_partitionId row, wr_ownerId = aq_ownerId input,
              wr_epoch = ww_epoch row + 1, wr_token = aq_token input\<rparr>
        in andThen (fence writer) (\<lambda>f.
          let next = row\<lparr>ww_partitionId := fe_partitionId f, ww_ownerId := Some (fe_ownerId f),
                ww_epoch := fe_epoch f, ww_tokenDigest := Some (fe_tokenDigest f),
                ww_expiresAtMs := Some (aq_dbNowMs input + aq_ttlMs input), ww_closed := False\<rparr>
          in if \<not> safeTime (aq_dbNowMs input + aq_ttlMs input)
             then Inl (NativeOnceStateError ''writer_invalid'')
             else Inr (Some \<lparr>ac_writer = writer, ac_row = next, ac_remainingMs = aq_ttlMs input\<rparr>)))"

definition planNativeOnceRenew ::
  "NativeOnceWriterRow \<Rightarrow> NativeOnceWriter \<Rightarrow> int \<Rightarrow> int \<Rightarrow> NativeOnceWriterRow option result" where
  "planNativeOnceRenew row writer dbNowMs ttlMs =
     andThen (nativeOnceWriterRemaining row writer dbNowMs) (\<lambda>remaining.
       if remaining = 0 then Inr None
       else if \<not> isSafeInteger ttlMs \<or> ttlMs < 1 \<or> TTL_MAX < ttlMs \<or> \<not> safeTime (dbNowMs + ttlMs)
         then Inl (NativeOnceStateError ''writer_invalid'')
       else Inr (Some (row\<lparr>ww_expiresAtMs := Some (dbNowMs + ttlMs)\<rparr>)))"

definition planNativeOnceClosed ::
  "NativeOnceWriterRow \<Rightarrow> NativeOnceWriter \<Rightarrow> NativeOnceWriterRow option result" where
  "planNativeOnceClosed row writer = andThen (sameWriter row writer) (\<lambda>same.
     Inr (if same then Some (row\<lparr>ww_closed := True\<rparr>) else None))"

section \<open>Digests of short values never fail\<close>

lemma length_utf8: "length (utf8 s) \<le> 2 * length s"
  by (induction s) (auto simp: utf8_def Let_def)

lemma length_esc: "length (concat (map escChar s)) \<le> 6 * length s"
proof (induction s)
  case (Cons c s)
  have "length (escChar c) \<le> 6" by (simp add: escChar_def Let_def)
  then show ?case using Cons by simp
qed simp

lemma digest_of_id: "goodId s \<Longrightarrow> \<exists>d. nativeOnceDigest (JStr s) = Inr d \<and> checksumOk d"
proof -
  assume g: "goodId s"
  have "length (utf8 (quote s)) \<le> 2 * (6 * length s + 2)"
    using length_utf8 [of "quote s"] length_esc [of s] by (simp add: quote_def)
  then have "\<not> length (utf8 (quote s)) > 65536" using g by (simp add: goodId_def)
  moreover obtain d where "runtimePolicyDigest (JStr s) = Inr d" using runtimePolicyDigest_ok [of "JStr s"] by auto
  ultimately show ?thesis
    using runtimePolicyDigest_checksum [of "JStr s" d] by (simp add: nativeOnceDigest_def)
qed

lemma fence_ok_iff:
  "(\<exists>f. fence w = Inr f) \<longleftrightarrow> goodId (wr_partitionId w) \<and> goodId (wr_ownerId w) \<and> goodId (wr_token w) \<and>
     isSafeInteger (wr_epoch w) \<and> 1 \<le> wr_epoch w"
  using digest_of_id [of "wr_token w"] by (auto simp: fence_def andThen_Inr_iff)

lemma fence_fields:
  "fence w = Inr f \<Longrightarrow> fe_partitionId f = wr_partitionId w \<and> fe_ownerId f = wr_ownerId w \<and>
     fe_epoch f = wr_epoch w \<and> nativeOnceDigest (JStr (wr_token w)) = Inr (fe_tokenDigest f)"
  by (auto simp: fence_def andThen_Inr_iff split: if_splits)

lemma sameWriter_True:
  "sameWriter row w = Inr True \<longleftrightarrow> (\<exists>f. fence w = Inr f \<and> ww_partitionId row = wr_partitionId w \<and>
     ww_ownerId row = Some (wr_ownerId w) \<and> ww_epoch row = wr_epoch w \<and>
     ww_tokenDigest row = Some (fe_tokenDigest f))"
  using fence_fields [of w] by (fastforce simp: sameWriter_def andThen_Inr_iff)

lemma remaining_pos:
  assumes "nativeOnceWriterRemaining row w now = Inr r" "r \<noteq> 0"
  shows "sameWriter row w = Inr True \<and> \<not> ww_closed row \<and> 0 < r \<and> r \<le> TTL_MAX \<and>
    ww_expiresAtMs row = Some (now + r) \<and> 0 \<le> now"
  using assms
  by (cases "ww_expiresAtMs row")
    (auto simp: nativeOnceWriterRemaining_def andThen_Inr_iff Let_def safeTime_def split: if_splits)

section \<open>The life of a writer row\<close>

datatype WriterInput =
    InAcquire NativeOnceAcquire
  | InRenew NativeOnceWriter int int
  | InClose NativeOnceWriter

text \<open>The caller stores the planned row, and leaves the row alone on null.\<close>

fun writerStep :: "NativeOnceWriterRow \<Rightarrow> WriterInput \<Rightarrow> NativeOnceWriterRow result" where
  "writerStep row (InAcquire a) = andThen (planNativeOnceAcquire row a)
     (\<lambda>r. Inr (case r of None \<Rightarrow> row | Some acq \<Rightarrow> ac_row acq))"
| "writerStep row (InRenew w now ttl) = andThen (planNativeOnceRenew row w now ttl)
     (\<lambda>r. Inr (orElse r row))"
| "writerStep row (InClose w) = andThen (planNativeOnceClosed row w) (\<lambda>r. Inr (orElse r row))"

fun_cases writerStepE: "writerStep row i = Inr row'"

definition writerOlder :: "NativeOnceWriterRow \<Rightarrow> NativeOnceWriterRow \<Rightarrow> bool" where
  "writerOlder r r' \<longleftrightarrow> ww_partitionId r' = ww_partitionId r \<and> ww_reference r' = ww_reference r \<and>
     ww_epoch r \<le> ww_epoch r' \<and>
     (ww_epoch r' = ww_epoch r \<longrightarrow> ww_ownerId r' = ww_ownerId r \<and> ww_tokenDigest r' = ww_tokenDigest r \<and>
        (ww_closed r \<longrightarrow> ww_closed r'))"

lemma acquire_cases:
  assumes "planNativeOnceAcquire row a = Inr (Some acq)"
  shows "nativeOnceReady (aq_readiness a) \<and> ww_closed row \<and> ww_reference row = aq_expectedReference a \<and>
    wr_epoch (ac_writer acq) = ww_epoch row + 1 \<and> wr_partitionId (ac_writer acq) = ww_partitionId row \<and>
    wr_ownerId (ac_writer acq) = aq_ownerId a \<and> wr_token (ac_writer acq) = aq_token a \<and>
    ww_epoch (ac_row acq) = ww_epoch row + 1 \<and> ww_partitionId (ac_row acq) = ww_partitionId row \<and>
    ww_reference (ac_row acq) = ww_reference row \<and> \<not> ww_closed (ac_row acq) \<and>
    sameWriter (ac_row acq) (ac_writer acq) = Inr True \<and>
    ww_expiresAtMs (ac_row acq) = Some (aq_dbNowMs a + ac_remainingMs acq) \<and>
    1 \<le> ac_remainingMs acq \<and> ac_remainingMs acq \<le> TTL_MAX \<and> safeTime (aq_dbNowMs a) \<and>
    safeTime (aq_dbNowMs a + ac_remainingMs acq)"
proof -
  define w where "w = \<lparr>wr_partitionId = ww_partitionId row, wr_ownerId = aq_ownerId a,
    wr_epoch = ww_epoch row + 1, wr_token = aq_token a\<rparr>"
  from assms obtain f where f: "fence w = Inr f"
    by (auto simp: planNativeOnceAcquire_def Let_def andThen_Inr_iff w_def split: if_splits)
  with fence_fields [OF f] assms show ?thesis
    unfolding planNativeOnceAcquire_def Let_def w_def [symmetric]
    by (auto simp: sameWriter_True w_def split: if_splits)
qed

lemma writer_renew_cases:
  assumes "planNativeOnceRenew row w now ttl = Inr (Some row')"
  shows "sameWriter row w = Inr True \<and> \<not> ww_closed row \<and> row' = row\<lparr>ww_expiresAtMs := Some (now + ttl)\<rparr> \<and>
    1 \<le> ttl \<and> ttl \<le> TTL_MAX"
  using assms remaining_pos [of row w now]
  by (auto simp: planNativeOnceRenew_def andThen_Inr_iff split: if_splits)

lemma closed_cases:
  "planNativeOnceClosed row w = Inr (Some row') \<longleftrightarrow> sameWriter row w = Inr True \<and> row' = row\<lparr>ww_closed := True\<rparr>"
  by (auto simp: planNativeOnceClosed_def andThen_Inr_iff split: if_splits)

lemma writerStep_older: "writerStep row i = Inr row' \<Longrightarrow> writerOlder row row'"
proof (cases i)
  case (InAcquire a)
  assume "writerStep row i = Inr row'"
  then obtain r where r: "planNativeOnceAcquire row a = Inr r" "row' = (case r of None \<Rightarrow> row | Some acq \<Rightarrow> ac_row acq)"
    using InAcquire by (auto simp: andThen_Inr_iff)
  show ?thesis
  proof (cases r)
    case (Some acq)
    then show ?thesis using r acquire_cases [of row a acq] by (simp add: writerOlder_def)
  qed (use r in \<open>simp add: writerOlder_def\<close>)
next
  case (InRenew w now ttl)
  assume "writerStep row i = Inr row'"
  then obtain r where r: "planNativeOnceRenew row w now ttl = Inr r" "row' = orElse r row"
    using InRenew by (auto simp: andThen_Inr_iff)
  then show ?thesis using writer_renew_cases [of row w now ttl] by (cases r) (auto simp: writerOlder_def)
next
  case (InClose w)
  assume "writerStep row i = Inr row'"
  then obtain r where r: "planNativeOnceClosed row w = Inr r" "row' = orElse r row"
    using InClose by (auto simp: andThen_Inr_iff)
  then show ?thesis using closed_cases [of row w] by (cases r) (auto simp: writerOlder_def)
qed

interpretation writer: step_machine writerStep "\<lambda>_. True" writerOlder
  by unfold_locales (auto simp: writerStep_older, auto simp: writerOlder_def)

text \<open>A writer a row does not carry can do nothing to it.\<close>

definition powerless :: "NativeOnceWriterRow \<Rightarrow> NativeOnceWriter \<Rightarrow> bool" where
  "powerless row w \<longleftrightarrow>
     (\<forall>now r. nativeOnceWriterRemaining row w now = Inr r \<longrightarrow> r = 0) \<and>
     (\<forall>now ttl r. planNativeOnceRenew row w now ttl \<noteq> Inr (Some r)) \<and>
     (\<forall>r. planNativeOnceClosed row w \<noteq> Inr (Some r))"

lemma stale_powerless: "wr_epoch w \<noteq> ww_epoch row \<Longrightarrow> powerless row w"
proof -
  assume "wr_epoch w \<noteq> ww_epoch row"
  then have s: "sameWriter row w \<noteq> Inr True" by (auto simp: sameWriter_True)
  then show ?thesis
    unfolding powerless_def using remaining_pos [of row w] writer_renew_cases [of row w] closed_cases [of row w] by blast
qed

lemma acquired_live:
  assumes "planNativeOnceAcquire row a = Inr (Some acq)"
  shows "nativeOnceWriterRemaining (ac_row acq) (ac_writer acq) (aq_dbNowMs a) = Inr (ac_remainingMs acq)"
  using acquire_cases [OF assms] by (simp add: nativeOnceWriterRemaining_def)

section \<open>Clients of the row\<close>

text \<open>
  What a component that changes a partition owes: it accepts an input only while the writer of the
  input has time on the row of the input.  Every such client then refuses the writers of earlier
  epochs.
\<close>

locale fenced_client =
  fixes prepare :: "'i \<Rightarrow> 'e + 'r"
    and rowOf :: "'i \<Rightarrow> NativeOnceWriterRow"
    and writerOf :: "'i \<Rightarrow> NativeOnceWriter"
    and nowOf :: "'i \<Rightarrow> int"
  assumes live: "prepare i = Inr r \<Longrightarrow>
    \<exists>remaining. nativeOnceWriterRemaining (rowOf i) (writerOf i) (nowOf i) = Inr remaining \<and> 0 < remaining"
begin

lemma accepted_epoch:
  assumes "prepare i = Inr r"
  shows "wr_epoch (writerOf i) = ww_epoch (rowOf i)"
proof -
  from live [OF assms] obtain n where "nativeOnceWriterRemaining (rowOf i) (writerOf i) (nowOf i) = Inr n" "n \<noteq> 0" by auto
  from remaining_pos [OF this] have "sameWriter (rowOf i) (writerOf i) = Inr True" by simp
  then show ?thesis by (auto simp: sameWriter_True)
qed

lemma stale_refused:
  assumes "planNativeOnceAcquire row a = Inr (Some acq)" "runAll writerStep (ac_row acq) changes = Inr (rowOf i)"
    "wr_epoch (writerOf i) \<le> ww_epoch row"
  shows "\<exists>e. prepare i = Inl e"
proof (cases "prepare i")
  case (Inr r)
  have "writerOlder (ac_row acq) (rowOf i)" using writer.run_older [OF assms(2)] by simp
  then have "wr_epoch (writerOf i) < ww_epoch (rowOf i)"
    using acquire_cases [OF assms(1)] assms(3) by (auto simp: writerOlder_def)
  then show ?thesis using accepted_epoch [OF Inr] by simp
qed simp

end

section \<open>Properties\<close>

text \<open>
  (C11) Fencing: whatever renewals, closes and acquisitions follow, once a new writer has acquired
  the row, every writer of an earlier epoch is refused by every later row: it has no remaining
  time, cannot renew and cannot close.  The acquired row accepts its new writer for the granted
  time, and a row can be acquired only after it was closed.
\<close>

theorem once_writer_fenced:
  assumes "runAll writerStep row before = Inr row1" "planNativeOnceAcquire row1 a = Inr (Some acq)"
    "runAll writerStep (ac_row acq) after = Inr row2" "wr_epoch w \<le> ww_epoch row"
  shows "powerless row2 w \<and> ww_closed row1 \<and> ww_epoch row < ww_epoch row2 \<and>
    nativeOnceWriterRemaining (ac_row acq) (ac_writer acq) (aq_dbNowMs a) = Inr (ac_remainingMs acq)"
proof -
  have "writerOlder row row1" "writerOlder (ac_row acq) row2"
    using writer.run_older [OF assms(1)] writer.run_older [OF assms(3)] by auto
  then have "ww_epoch row < ww_epoch row2" using acquire_cases [OF assms(2)] by (auto simp: writerOlder_def)
  then show ?thesis
    using stale_powerless [of w row2] acquire_cases [OF assms(2)] acquired_live [OF assms(2)] assms(4) by auto
qed

definition sampleReady :: NativeOnceReadiness where
  "sampleReady = \<lparr>rd_enabled = Some True, rd_storageReady = Some True, rd_legacyClockExcluded = Some True,
     rd_controlArtifactApproved = Some True\<rparr>"

definition sampleReference :: NativeOnceReference where
  "sampleReference = \<lparr>nr_artifactId = ''a'', nr_profileId = ''p'', nr_storageId = ''s'', nr_stateRoot = ''r''\<rparr>"

definition sampleRow :: NativeOnceWriterRow where
  "sampleRow = \<lparr>ww_partitionId = ''part'', ww_ownerId = None, ww_epoch = 0, ww_tokenDigest = None,
     ww_expiresAtMs = None, ww_closed = True, ww_reference = sampleReference\<rparr>"

definition sampleAcquire :: NativeOnceAcquire where
  "sampleAcquire = \<lparr>aq_readiness = Some sampleReady, aq_ownerId = ''host'', aq_token = ''tok'',
     aq_expectedReference = sampleReference, aq_dbNowMs = 1000, aq_ttlMs = 60000\<rparr>"

lemma sample_acquire: "\<exists>acq. planNativeOnceAcquire sampleRow sampleAcquire = Inr (Some acq)"
proof -
  have "\<exists>f. fence \<lparr>wr_partitionId = ''part'', wr_ownerId = ''host'', wr_epoch = 1, wr_token = ''tok''\<rparr> = Inr f"
    unfolding fence_ok_iff by (simp add: goodId_def isSafeInteger_def)
  then show ?thesis
    by (auto simp: planNativeOnceAcquire_def sampleAcquire_def sampleRow_def nativeOnceReady_def sampleReady_def
        safeTime_def isSafeInteger_def TTL_MAX_def)
qed

theorem once_writer_fenced_witness:
  "\<exists>acq. planNativeOnceAcquire sampleRow sampleAcquire = Inr (Some acq) \<and>
     powerless (ac_row acq) \<lparr>wr_partitionId = ''part'', wr_ownerId = ''old'', wr_epoch = 0, wr_token = ''x''\<rparr>"
proof -
  obtain acq where a: "planNativeOnceAcquire sampleRow sampleAcquire = Inr (Some acq)" using sample_acquire by blast
  have r: "runAll writerStep sampleRow [] = Inr sampleRow" "runAll writerStep (ac_row acq) [] = Inr (ac_row acq)"
    by simp_all
  have "powerless (ac_row acq) \<lparr>wr_partitionId = ''part'', wr_ownerId = ''old'', wr_epoch = 0, wr_token = ''x''\<rparr>"
    using once_writer_fenced [OF r(1) a r(2),
      of "\<lparr>wr_partitionId = ''part'', wr_ownerId = ''old'', wr_epoch = 0, wr_token = ''x''\<rparr>"]
    by (simp add: sampleRow_def)
  then show ?thesis using a by blast
qed

text \<open>
  Mutual exclusion: two writers with time remaining on the same row have the same partition,
  owner and epoch and the same token digest, the row is open, and the time is within the limit.
\<close>

theorem once_writer_exclusive:
  assumes "nativeOnceWriterRemaining row v now = Inr r" "r \<noteq> 0"
    "nativeOnceWriterRemaining row w now' = Inr r'" "r' \<noteq> 0"
  shows "fence v = fence w \<and> \<not> ww_closed row \<and> r \<le> TTL_MAX \<and> ww_expiresAtMs row = Some (now + r)"
proof -
  from remaining_pos [OF assms(1,2)] remaining_pos [OF assms(3,4)]
  have s: "sameWriter row v = Inr True" "sameWriter row w = Inr True" "\<not> ww_closed row" "r \<le> TTL_MAX"
    "ww_expiresAtMs row = Some (now + r)" by auto
  from s(1,2) obtain f g where f: "fence v = Inr f" "fence w = Inr g" "wr_partitionId v = wr_partitionId w"
    "wr_ownerId v = wr_ownerId w" "wr_epoch v = wr_epoch w" "fe_tokenDigest f = fe_tokenDigest g"
    by (auto simp: sameWriter_True)
  then have "f = g" using fence_fields [OF f(1)] fence_fields [OF f(2)] by (cases f; cases g) simp
  then show ?thesis using f s by simp
qed

theorem once_writer_exclusive_witness:
  "\<exists>acq. planNativeOnceAcquire sampleRow sampleAcquire = Inr (Some acq) \<and> ac_remainingMs acq \<le> TTL_MAX \<and>
     fence (ac_writer acq) = fence (ac_writer acq)"
proof -
  obtain acq where a: "planNativeOnceAcquire sampleRow sampleAcquire = Inr (Some acq)" using sample_acquire by blast
  have n: "ac_remainingMs acq \<noteq> 0" using acquire_cases [OF a] by simp
  from once_writer_exclusive [OF acquired_live [OF a] n acquired_live [OF a] n] a show ?thesis by blast
qed

end
