(* ===== verification/OnceState.thy ===== *)
theory OnceState
  imports OnceWriter
begin

text \<open>
  packages/database/src/native-schedule-once-state.ts, second half: the control row of a one-shot
  schedule, the mutations a fenced writer may apply to its snapshot, the occurrence and outbox
  entry a delivery produces, the journal written with it, and the check that a journal proves an
  exact commit.  Values that cross the persistence boundary unchecked (mutations, dispatch
  reservations, native tasks, payloads) are JavaScript values; \<open>decodeTask\<close> is a parameter.
  Reading a property of a missing object, which the declared types exclude, is modelled as
  undefined and then denied where the code would raise a TypeError.
\<close>

section \<open>Values\<close>

definition goodIdJ :: "jsval \<Rightarrow> bool" where
  "goodIdJ v = (case v of JStr s \<Rightarrow> goodId s | _ \<Rightarrow> False)"

definition jHas :: "string \<Rightarrow> jsval \<Rightarrow> bool" where
  "jHas k v = (case v of JObj kvs \<Rightarrow> k \<in> set (map fst kvs) | _ \<Rightarrow> False)"

text \<open>\<open>Object.keys(value).sort().join(',')\<close> equals the sorted, joined list of names.\<close>

definition keysAre :: "string list \<Rightarrow> jsval \<Rightarrow> bool" where
  "keysAre ks v = (case v of JObj kvs \<Rightarrow> joinComma (sort (map fst kvs)) = joinComma (sort ks) | _ \<Rightarrow> False)"

text \<open>The time is one that \<open>toISOString\<close> prints exactly so.\<close>

definition isoExact :: "string \<Rightarrow> bool" where
  "isoExact s = (case dateParse s of None \<Rightarrow> False | Some t \<Rightarrow> toISOString t = Some s)"

definition isoExactJ :: "jsval \<Rightarrow> bool" where
  "isoExactJ v = (case v of JStr s \<Rightarrow> isoExact s | _ \<Rightarrow> False)"

definition checksumJ :: "jsval \<Rightarrow> bool" where
  "checksumJ v = (case v of JStr s \<Rightarrow> checksumOk s | _ \<Rightarrow> False)"

definition dateFiniteJ :: "jsval \<Rightarrow> bool" where
  "dateFiniteJ v = (case v of JStr s \<Rightarrow> dateParse s \<noteq> None | _ \<Rightarrow> False)"

abbreviation onceDeny :: "string \<Rightarrow> exn" where
  "onceDeny \<equiv> NativeOnceStateError"

section \<open>Control\<close>

definition dispatchBase :: "string list" where
  "dispatchBase = [''occurrenceId'', ''employeeAssignmentId'', ''employeeInstanceId'', ''businessSessionId'',
     ''clientMessageId'', ''reservationDigest'']"

definition dispatchExtra :: "string list" where
  "dispatchExtra = [''consumer'', ''reminderId'', ''businessRevision'', ''plannedAt'', ''businessOccurrenceId'',
     ''businessMessageId'']"

definition isReminder :: "jsval \<Rightarrow> bool" where
  "isReminder d \<longleftrightarrow> jget ''consumer'' d = JStr ''brand-reminder-v1''"

definition validNativeOnceDispatch :: "jsval \<Rightarrow> bool" where
  "validNativeOnceDispatch value =
     (if \<not> jtruthy value then False
      else if \<not> keysAre (dispatchBase @ (if isReminder value then dispatchExtra else [])) value \<or>
         \<not> list_all (\<lambda>k. goodIdJ (jget k value)) dispatchBase \<or>
         \<not> checksumJ (jget ''reservationDigest'' value)
        then False
      else \<not> isReminder value \<or>
        (list_all (\<lambda>k. goodIdJ (jget k value)) [''reminderId'', ''businessOccurrenceId'', ''businessMessageId''] \<and>
         (case jget ''businessRevision'' value of JNum n \<Rightarrow> isSafeInteger n \<and> 0 < n | _ \<Rightarrow> False) \<and>
         isoExactJ (jget ''plannedAt'' value)))"

datatype OnceSession = Session_reserved | Session_initializing | Session_ready
datatype OnceCommandKind = Command_create | Command_delete
datatype OnceCommandStatus = Command_pending | Command_confirmed | Command_blocked

fun onceSessionStr :: "OnceSession \<Rightarrow> string" where
  "onceSessionStr Session_reserved = ''reserved''"
| "onceSessionStr Session_initializing = ''initializing''"
| "onceSessionStr Session_ready = ''ready''"

fun onceCommandKindStr :: "OnceCommandKind \<Rightarrow> string" where
  "onceCommandKindStr Command_create = ''create''"
| "onceCommandKindStr Command_delete = ''delete''"

fun onceCommandStatusStr :: "OnceCommandStatus \<Rightarrow> string" where
  "onceCommandStatusStr Command_pending = ''pending''"
| "onceCommandStatusStr Command_confirmed = ''confirmed''"
| "onceCommandStatusStr Command_blocked = ''blocked''"

record NativeOnceControl =
  oc_partitionId :: string
  oc_controlId :: string
  oc_organizationId :: string
  oc_workspaceId :: string
  oc_ownerId :: string
  oc_automationId :: string
  oc_revision :: int
  oc_controlSessionId :: string
  oc_at :: string
  oc_sessionState :: OnceSession
  oc_nativeTaskId :: "string option"
  oc_taskDeleted :: bool
  oc_commandId :: string
  oc_commandKind :: OnceCommandKind
  oc_commandStatus :: OnceCommandStatus
  oc_dispatch :: jsval

definition controlIdentity :: "NativeOnceControl \<Rightarrow> jsval" where
  "controlIdentity c = JObj [(''partitionId'', JStr (oc_partitionId c)), (''controlId'', JStr (oc_controlId c)),
     (''organizationId'', JStr (oc_organizationId c)), (''workspaceId'', JStr (oc_workspaceId c)),
     (''ownerId'', JStr (oc_ownerId c)), (''automationId'', JStr (oc_automationId c)),
     (''revision'', JNum (oc_revision c)), (''controlSessionId'', JStr (oc_controlSessionId c)),
     (''at'', JStr (oc_at c)), (''dispatch'', oc_dispatch c)]"

definition onceControlJson :: "NativeOnceControl \<Rightarrow> jsval" where
  "onceControlJson c = JObj [(''partitionId'', JStr (oc_partitionId c)), (''controlId'', JStr (oc_controlId c)),
     (''organizationId'', JStr (oc_organizationId c)), (''workspaceId'', JStr (oc_workspaceId c)),
     (''ownerId'', JStr (oc_ownerId c)), (''automationId'', JStr (oc_automationId c)),
     (''revision'', JNum (oc_revision c)), (''controlSessionId'', JStr (oc_controlSessionId c)),
     (''at'', JStr (oc_at c)), (''sessionState'', JStr (onceSessionStr (oc_sessionState c))),
     (''nativeTaskId'', jOpt JStr (oc_nativeTaskId c)), (''taskDeleted'', JBool (oc_taskDeleted c)),
     (''command'', JObj [(''id'', JStr (oc_commandId c)),
        (''kind'', JStr (onceCommandKindStr (oc_commandKind c))),
        (''status'', JStr (onceCommandStatusStr (oc_commandStatus c)))]),
     (''dispatch'', oc_dispatch c)]"

definition checkControl :: "NativeOnceControl \<Rightarrow> unit result" where
  "checkControl c = need (isSafeInteger (oc_revision c) \<and> 1 \<le> oc_revision c \<and> goodId (oc_commandId c) \<and>
     isoExact (oc_at c) \<and>
     list_all goodId [oc_partitionId c, oc_controlId c, oc_organizationId c, oc_workspaceId c, oc_ownerId c,
       oc_automationId c, oc_controlSessionId c, oc_at c] \<and>
     validNativeOnceDispatch (oc_dispatch c)) (onceDeny ''control_invalid'')"

section \<open>Writes\<close>

record NativeOnceWrite =
  ow_writeId :: string
  ow_digest :: string
  ow_mutation :: jsval

definition checkAbsence :: "jsval \<Rightarrow> bool" where
  "checkAbsence a \<longleftrightarrow> keysAre [''catalogDigest'', ''controlSessionId'', ''observedAt'', ''taskCount''] a \<and>
     goodIdJ (jget ''controlSessionId'' a) \<and> checksumJ (jget ''catalogDigest'' a) \<and>
     jget ''taskCount'' a = JNum 0 \<and> isoExactJ (jget ''observedAt'' a)"

definition checkWrite :: "NativeOnceWrite \<Rightarrow> unit result" where
  "checkWrite write = (let m = ow_mutation write in
     if \<not> goodId (ow_writeId write) \<or> \<not> jtruthy m \<or> \<not> goodIdJ (jget ''controlId'' m)
     then Inl (onceDeny ''write_invalid'')
     else andThen (nativeOnceDigest m) (\<lambda>digest.
       if ow_digest write \<noteq> digest then Inl (onceDeny ''write_invalid'')
       else
         let kind = jget ''kind'' m in
         if kind = JStr ''session_initializing'' \<or> kind = JStr ''session_ready'' then Inr ()
         else if kind = JStr ''put_task'' then need (jHas ''task'' m) (onceDeny ''write_invalid'')
         else if kind = JStr ''delete_task''
           then need (goodIdJ (jget ''nativeTaskId'' m)) (onceDeny ''write_invalid'')
         else if kind = JStr ''confirm_command''
           then need (goodIdJ (jget ''commandId'' m) \<and>
             (jget ''nativeTaskId'' m = JNull \<or> goodIdJ (jget ''nativeTaskId'' m))) (onceDeny ''write_invalid'')
         else if kind = JStr ''reject_command''
           then need (goodIdJ (jget ''commandId'' m) \<and> jget ''reason'' m = JStr ''target_not_future'' \<and>
             (jtruthy (jget ''absence'' m) \<longrightarrow> checkAbsence (jget ''absence'' m))) (onceDeny ''write_invalid'')
         else Inl (onceDeny ''write_invalid'')))"

section \<open>Tasks and admission\<close>

definition onceTitle :: string where "onceTitle = ''AllRice once control''"

definition oncePrompt :: string where
  "oncePrompt = ''Synthetic schedule control only. Never execute business work.''"

definition historyRecordOk :: "NativeOnceControl \<Rightarrow> jsval \<Rightarrow> jsval \<Rightarrow> bool" where
  "historyRecordOk c receipt r \<longleftrightarrow> jtruthy receipt \<and> jget ''scheduledAt'' r = JStr (oc_at c) \<and>
     jget ''messageId'' r = jget ''messageId'' receipt \<and> jget ''deliveredAt'' r = jget ''deliveredAt'' receipt \<and>
     (jget ''prompt'' r \<noteq> JUndefined \<longrightarrow> jget ''prompt'' r = JStr oncePrompt)"

definition taskFor :: "NativeOnceControl \<Rightarrow> jsval \<Rightarrow> (jsval \<Rightarrow> jsval option) \<Rightarrow> jsval result" where
  "taskFor c raw decode = (case decode raw of
     None \<Rightarrow> Inl (onceDeny ''task_invalid'')
   | Some task \<Rightarrow> andThen (nativeOnceDigest task) (\<lambda>_.
       let rec = jget ''record'' task; receipt = jget ''lastDelivery'' task;
           history = jget ''deliveryHistory'' task in
       if \<not> jeq task raw \<or> jget ''sessionId'' task \<noteq> JStr (oc_controlSessionId c) \<or>
          jget ''kind'' rec \<noteq> JStr ''at'' \<or> \<not> goodIdJ (jget ''id'' rec) \<or> jget ''title'' rec \<noteq> JStr onceTitle \<or>
          jget ''prompt'' rec \<noteq> JStr oncePrompt \<or> jget ''scheduledAt'' rec \<noteq> JStr (oc_at c) \<or>
          jget ''status'' task \<noteq> JStr (if jtruthy receipt then ''inactive'' else ''active'') \<or>
          oc_sessionState c \<noteq> Session_ready \<or> oc_taskDeleted c \<or>
          (oc_nativeTaskId c \<noteq> Some (strOf (jget ''id'' rec)) \<and>
           (oc_nativeTaskId c \<noteq> None \<or> oc_commandKind c \<noteq> Command_create \<or> oc_commandStatus c \<noteq> Command_pending))
       then Inl (onceDeny ''task_invalid'')
       else if jtruthy receipt \<and> (jget ''scheduledAt'' receipt \<noteq> JStr (oc_at c) \<or>
          \<not> goodIdJ (jget ''messageId'' receipt) \<or> \<not> dateFiniteJ (jget ''deliveredAt'' receipt))
       then Inl (onceDeny ''receipt_invalid'')
       else if jtruthy history \<and> (case jget ''records'' history of
            JArr rs \<Rightarrow> length rs > 1 \<or> \<not> list_all (historyRecordOk c receipt) rs | _ \<Rightarrow> True)
       then Inl (onceDeny ''receipt_invalid'')
       else Inr task))"

datatype OncePlanStatus = Plan_enabled | Plan_paused | Plan_deleted

record NativeOnceAdmissionFacts =
  af_checkedAtMs :: int
  af_organizationId :: string
  af_workspaceId :: string
  af_ownerId :: string
  af_automationId :: string
  af_currentRevision :: int
  af_employeeAssignmentId :: "string option"
  af_employeeInstanceId :: "string option"
  af_businessSessionId :: "string option"
  af_reservationDigest :: "string option"
  af_planStatus :: OncePlanStatus
  af_currentWritableIdentity :: bool
  af_cloudEnabled :: bool
  af_assignmentActive :: bool
  af_instanceActive :: bool
  af_businessSessionAvailable :: bool
  af_legacyClockExcluded :: bool

text \<open>None is the code's \<open>null\<close>: nothing blocks the admission.\<close>

definition eligibility ::
  "NativeOnceControl \<Rightarrow> NativeOnceAdmissionFacts option \<Rightarrow> int \<Rightarrow> string option result" where
  "eligibility c facts now = (case facts of
     None \<Rightarrow> Inr (Some ''authority_unavailable'')
   | Some f \<Rightarrow>
       if af_checkedAtMs f \<noteq> now then Inr (Some ''authority_unavailable'')
       else if af_organizationId f \<noteq> oc_organizationId c \<or> af_workspaceId f \<noteq> oc_workspaceId c \<or>
          af_ownerId f \<noteq> oc_ownerId c \<or> af_automationId f \<noteq> oc_automationId c
         then Inl (onceDeny ''scope_mismatch'')
       else if af_currentRevision f \<noteq> oc_revision c then Inr (Some ''revision_changed'')
       else if jOpt JStr (af_employeeAssignmentId f) \<noteq> jget ''employeeAssignmentId'' (oc_dispatch c) \<or>
          jOpt JStr (af_employeeInstanceId f) \<noteq> jget ''employeeInstanceId'' (oc_dispatch c) \<or>
          jOpt JStr (af_businessSessionId f) \<noteq> jget ''businessSessionId'' (oc_dispatch c)
         then Inr (Some ''binding_changed'')
       else if jOpt JStr (af_reservationDigest f) \<noteq> jget ''reservationDigest'' (oc_dispatch c)
         then Inr (Some ''reservation_changed'')
       else if af_planStatus f \<noteq> Plan_enabled then Inr (Some ''plan_inactive'')
       else if (case dateParse (oc_at c) of None \<Rightarrow> False | Some t \<Rightarrow> now < t) then Inr (Some ''target_not_due'')
       else if \<not> af_currentWritableIdentity f \<or> \<not> af_assignmentActive f \<or> \<not> af_instanceActive f \<or>
          \<not> af_businessSessionAvailable f
         then Inr (Some ''current_access_denied'')
       else if \<not> af_cloudEnabled f then Inr (Some ''cloud_disabled'')
       else if af_legacyClockExcluded f then Inr None else Inr (Some ''legacy_clock_not_excluded''))"

section \<open>Preparing a mutation\<close>

datatype OnceOutboxState = Outbox_pending | Outbox_blocked | Outbox_enqueued

record NativeOnceOutbox =
  ob_occurrenceId :: string
  ob_payloadDigest :: string
  ob_state :: OnceOutboxState
  ob_reason :: "string option"

record NativeOnceOccurrence =
  oo_id :: string
  oo_key :: string
  oo_payload :: jsval
  oo_payloadDigest :: string
  oo_outbox :: NativeOnceOutbox

record NativeOnceSnapshot =
  os_control :: NativeOnceControl
  os_task :: jsval

record NativeOnceJournal =
  oj_writer :: NativeOnceFence
  oj_referenceDigest :: string
  oj_write :: NativeOnceWrite
  oj_controlIdentity :: jsval
  oj_afterDigest :: string
  oj_receiptLink :: "NativeOnceOccurrence option"

definition referenceJson :: "NativeOnceReference \<Rightarrow> jsval" where
  "referenceJson r = JObj [(''artifactId'', JStr (nr_artifactId r)), (''profileId'', JStr (nr_profileId r)),
     (''storageId'', JStr (nr_storageId r)), (''stateRoot'', JStr (nr_stateRoot r))]"

definition onceSnapshotJson :: "NativeOnceSnapshot \<Rightarrow> jsval" where
  "onceSnapshotJson s = JObj [(''control'', onceControlJson (os_control s)), (''task'', os_task s)]"

definition oncePayload :: "NativeOnceControl \<Rightarrow> jsval \<Rightarrow> jsval" where
  "oncePayload c task = JObj [(''control'', controlIdentity c),
     (''nativeTaskId'', jget ''id'' (jget ''record'' task)), (''receipt'', jget ''lastDelivery'' task)]"

definition onceKey :: "NativeOnceControl \<Rightarrow> jsval \<Rightarrow> string result" where
  "onceKey c task = nativeOnceDigest (JArr [JStr (oc_automationId c), JNum (oc_revision c),
     jget ''scheduledAt'' (jget ''lastDelivery'' task)])"

definition onceOccurrence ::
  "NativeOnceControl \<Rightarrow> jsval \<Rightarrow> NativeOnceAdmissionFacts option \<Rightarrow> int \<Rightarrow> NativeOnceOccurrence option \<Rightarrow>
     NativeOnceOccurrence result" where
  "onceOccurrence c task admission dbNowMs existing =
     (let payload = oncePayload c task; occurrenceId = strOf (jget ''occurrenceId'' (oc_dispatch c)) in
      andThen (nativeOnceDigest payload) (\<lambda>payloadDigest.
      andThen (onceKey c task) (\<lambda>key.
      andThen (eligibility c admission dbNowMs) (\<lambda>reason.
        case existing of
          None \<Rightarrow> Inr \<lparr>oo_id = occurrenceId, oo_key = key, oo_payload = payload, oo_payloadDigest = payloadDigest,
            oo_outbox = \<lparr>ob_occurrenceId = occurrenceId, ob_payloadDigest = payloadDigest,
              ob_state = (if reason \<noteq> None then Outbox_blocked else Outbox_pending), ob_reason = reason\<rparr>\<rparr>
        | Some previous \<Rightarrow>
            if oo_id previous \<noteq> occurrenceId \<or> oo_key previous \<noteq> key \<or> oo_payloadDigest previous \<noteq> payloadDigest \<or>
               \<not> jeq (oo_payload previous) payload \<or> ob_occurrenceId (oo_outbox previous) \<noteq> oo_id previous \<or>
               ob_payloadDigest (oo_outbox previous) \<noteq> payloadDigest
            then Inl (onceDeny ''occurrence_conflict'')
            else Inr previous))))"

definition oncePutTask ::
  "NativeOnceSnapshot \<Rightarrow> jsval \<Rightarrow> (jsval \<Rightarrow> jsval option) \<Rightarrow> NativeOnceAdmissionFacts option \<Rightarrow> int \<Rightarrow>
     NativeOnceOccurrence option \<Rightarrow> (NativeOnceSnapshot \<times> NativeOnceOccurrence option) result" where
  "oncePutTask before raw decode admission dbNowMs existing = (let c = os_control before in
     andThen (taskFor c raw decode) (\<lambda>task.
     andThen (if os_task before = JNull then Inr ()
       else andThen (taskFor c (os_task before) decode) (\<lambda>previous.
         need (\<not> (jtruthy (jget ''lastDelivery'' previous) \<and>
             \<not> jeq (jget ''lastDelivery'' previous) (jget ''lastDelivery'' task)))
           (onceDeny ''receipt_rewind''))) (\<lambda>_.
     let c' = c\<lparr>oc_nativeTaskId := Some (strOf (jget ''id'' (jget ''record'' task)))\<rparr>;
         after = \<lparr>os_control = c', os_task = task\<rparr> in
     if jtruthy (jget ''lastDelivery'' task)
     then andThen (onceOccurrence c' task admission dbNowMs existing) (\<lambda>occ. Inr (after, Some occ))
     else Inr (after, None))))"

definition onceApply ::
  "NativeOnceSnapshot \<Rightarrow> jsval \<Rightarrow> (jsval \<Rightarrow> jsval option) \<Rightarrow> NativeOnceAdmissionFacts option \<Rightarrow> int \<Rightarrow>
     NativeOnceOccurrence option \<Rightarrow> (NativeOnceSnapshot \<times> NativeOnceOccurrence option) result" where
  "onceApply before m decode admission dbNowMs existing =
     (let c = os_control before; kind = jget ''kind'' m; keep = (\<lambda>c'. Inr (before\<lparr>os_control := c'\<rparr>, None)) in
      if kind = JStr ''session_initializing'' then
        (if oc_sessionState c \<noteq> Session_reserved then Inl (onceDeny ''session_cas'')
         else keep (c\<lparr>oc_sessionState := Session_initializing\<rparr>))
      else if kind = JStr ''session_ready'' then
        (if oc_sessionState c \<noteq> Session_initializing then Inl (onceDeny ''session_cas'')
         else keep (c\<lparr>oc_sessionState := Session_ready\<rparr>))
      else if kind = JStr ''put_task'' then
        oncePutTask before (jget ''task'' m) decode admission dbNowMs existing
      else if kind = JStr ''delete_task'' then
        (if jOpt JStr (oc_nativeTaskId c) \<noteq> jget ''nativeTaskId'' m \<or> oc_commandKind c \<noteq> Command_delete \<or>
            oc_commandStatus c \<noteq> Command_pending
         then Inl (onceDeny ''command_cas'')
         else Inr (\<lparr>os_control = c\<lparr>oc_taskDeleted := True\<rparr>, os_task = JNull\<rparr>, None))
      else if kind = JStr ''confirm_command'' then
        (if JStr (oc_commandId c) \<noteq> jget ''commandId'' m \<or> oc_commandStatus c \<noteq> Command_pending \<or>
            jOpt JStr (oc_nativeTaskId c) \<noteq> jget ''nativeTaskId'' m \<or>
            (if oc_commandKind c = Command_create then os_task before = JNull \<or> oc_taskDeleted c
             else oc_nativeTaskId c \<noteq> None \<and> \<not> oc_taskDeleted c)
         then Inl (onceDeny ''command_cas'')
         else keep (c\<lparr>oc_commandStatus := Command_confirmed\<rparr>))
      else if kind = JStr ''reject_command'' then
        (if jget ''reason'' m \<noteq> JStr ''target_not_future'' \<or> JStr (oc_commandId c) \<noteq> jget ''commandId'' m \<or>
            oc_commandKind c \<noteq> Command_create \<or> oc_commandStatus c \<noteq> Command_pending \<or> oc_nativeTaskId c \<noteq> None \<or>
            os_task before \<noteq> JNull \<or>
            (jtruthy (jget ''absence'' m) \<and>
             jget ''controlSessionId'' (jget ''absence'' m) \<noteq> JStr (oc_controlSessionId c)) \<or>
            (isReminder (oc_dispatch c) \<and> \<not> jtruthy (jget ''absence'' m))
         then Inl (onceDeny ''command_cas'')
         else keep (c\<lparr>oc_commandStatus := Command_blocked\<rparr>))
      else Inl (onceDeny ''mutation_invalid''))"

record NativeOnceInput =
  oi_readiness :: "NativeOnceReadiness option"
  oi_writerRow :: NativeOnceWriterRow
  oi_writer :: NativeOnceWriter
  oi_dbNowMs :: int
  oi_before :: NativeOnceSnapshot
  oi_write :: NativeOnceWrite
  oi_admission :: "NativeOnceAdmissionFacts option"
  oi_existingOccurrence :: "NativeOnceOccurrence option"

record NativeOncePrepared =
  op_after :: NativeOnceSnapshot
  op_occurrence :: "NativeOnceOccurrence option"
  op_journal :: NativeOnceJournal

definition prepareNativeOnceMutation ::
  "(jsval \<Rightarrow> jsval option) \<Rightarrow> NativeOnceInput \<Rightarrow> NativeOncePrepared result" where
  "prepareNativeOnceMutation decodeTask input =
     (let before = oi_before input; c = os_control before; m = ow_mutation (oi_write input) in
      andThen (need (nativeOnceReady (oi_readiness input)) (onceDeny ''disabled'')) (\<lambda>_.
      andThen (nativeOnceWriterRemaining (oi_writerRow input) (oi_writer input) (oi_dbNowMs input)) (\<lambda>remaining.
      andThen (need (remaining \<noteq> 0) (onceDeny ''lease_lost'')) (\<lambda>_.
      andThen (checkWrite (oi_write input)) (\<lambda>_.
      andThen (checkControl c) (\<lambda>_.
      andThen (need (oc_partitionId c = wr_partitionId (oi_writer input) \<and> JStr (oc_controlId c) = jget ''controlId'' m)
        (onceDeny ''scope_mismatch'')) (\<lambda>_.
      andThen (onceApply before m decodeTask (oi_admission input) (oi_dbNowMs input) (oi_existingOccurrence input))
        (\<lambda>(after, occurrence).
      andThen (fence (oi_writer input)) (\<lambda>f.
      andThen (nativeOnceDigest (referenceJson (ww_reference (oi_writerRow input)))) (\<lambda>referenceDigest.
      andThen (nativeOnceDigest (onceSnapshotJson after)) (\<lambda>afterDigest.
        Inr \<lparr>op_after = after, op_occurrence = occurrence,
          op_journal = \<lparr>oj_writer = f, oj_referenceDigest = referenceDigest, oj_write = oi_write input,
            oj_controlIdentity = controlIdentity (os_control after), oj_afterDigest = afterDigest,
            oj_receiptLink = occurrence\<rparr>\<rparr>)))))))))))"

section \<open>Verifying a commit\<close>

datatype NativeOnceCommitEvidence =
    Evidence_unknown
  | Evidence_absent string string
  | Evidence_found NativeOnceJournal NativeOnceSnapshot NativeOnceControl NativeOnceReference
      "NativeOnceOccurrence option"

datatype OnceCommitVerdict = Verdict_committed | Verdict_absent | Verdict_unknown

definition sameWrite :: "NativeOnceWrite \<Rightarrow> NativeOnceWrite \<Rightarrow> bool" where
  "sameWrite a b \<longleftrightarrow> ow_writeId a = ow_writeId b \<and> ow_digest a = ow_digest b \<and> jeq (ow_mutation a) (ow_mutation b)"

definition verifyReceipt ::
  "NativeOnceControl \<Rightarrow> jsval \<Rightarrow> NativeOnceOccurrence option \<Rightarrow> NativeOnceOccurrence option \<Rightarrow> bool result" where
  "verifyReceipt c task occ receiptLink = (case (occ, receiptLink) of
     (Some o', Some link) \<Rightarrow>
       if oo_id o' \<noteq> strOf (jget ''occurrenceId'' (oc_dispatch c)) then Inr False
       else andThen (onceKey c task) (\<lambda>key.
         if oo_key o' \<noteq> key then Inr False
         else andThen (nativeOnceDigest (oncePayload c task)) (\<lambda>payloadDigest.
           Inr (oo_payloadDigest o' = payloadDigest \<and> jeq (oo_payload o') (oncePayload c task) \<and>
             ob_occurrenceId (oo_outbox o') = oo_id o' \<and> ob_payloadDigest (oo_outbox o') = oo_payloadDigest o' \<and>
             oo_id link = oo_id o' \<and> oo_key link = oo_key o' \<and> jeq (oo_payload link) (oo_payload o') \<and>
             oo_payloadDigest link = oo_payloadDigest o' \<and> ob_occurrenceId (oo_outbox link) = oo_id o' \<and>
             ob_payloadDigest (oo_outbox link) = oo_payloadDigest o')))
   | _ \<Rightarrow> Inr False)"

definition verifyEffect ::
  "NativeOnceSnapshot \<Rightarrow> jsval \<Rightarrow> NativeOnceOccurrence option \<Rightarrow> NativeOnceOccurrence option \<Rightarrow> bool result" where
  "verifyEffect after m occ receiptLink = (let c = os_control after; task = os_task after; kind = jget ''kind'' m in
     if kind = JStr ''put_task'' then
       (if \<not> jeq task (jget ''task'' m) then Inr False
        else if jOpt JStr (oc_nativeTaskId c) \<noteq> jget ''id'' (jget ''record'' task) \<or>
          jget ''sessionId'' task \<noteq> JStr (oc_controlSessionId c) then Inr False
        else if jtruthy (jget ''lastDelivery'' task) then verifyReceipt c task occ receiptLink
        else Inr (receiptLink = None))
     else Inr (receiptLink = None \<and>
       \<not> (kind = JStr ''delete_task'' \<and> (task \<noteq> JNull \<or> \<not> oc_taskDeleted c \<or>
            jOpt JStr (oc_nativeTaskId c) \<noteq> jget ''nativeTaskId'' m)) \<and>
       \<not> (kind = JStr ''session_initializing'' \<and> oc_sessionState c \<noteq> Session_initializing) \<and>
       \<not> (kind = JStr ''session_ready'' \<and> oc_sessionState c \<noteq> Session_ready) \<and>
       \<not> (kind = JStr ''confirm_command'' \<and> (JStr (oc_commandId c) \<noteq> jget ''commandId'' m \<or>
            oc_commandStatus c \<noteq> Command_confirmed \<or> jOpt JStr (oc_nativeTaskId c) \<noteq> jget ''nativeTaskId'' m)) \<and>
       \<not> (kind = JStr ''reject_command'' \<and> (JStr (oc_commandId c) \<noteq> jget ''commandId'' m \<or>
            oc_commandStatus c \<noteq> Command_blocked))))"

definition verifyFound ::
  "NativeOnceWriter \<Rightarrow> NativeOnceWrite \<Rightarrow> NativeOnceJournal \<Rightarrow> NativeOnceSnapshot \<Rightarrow> NativeOnceControl \<Rightarrow>
     NativeOnceReference \<Rightarrow> NativeOnceOccurrence option \<Rightarrow> bool result" where
  "verifyFound writer write j after immutableControl reference occ =
     (let c = os_control after; m = ow_mutation write in
      andThen (checkControl c) (\<lambda>_.
      andThen (fence writer) (\<lambda>f.
      if oj_writer j \<noteq> f \<or> \<not> sameWrite (oj_write j) write then Inr False
      else andThen (nativeOnceDigest (referenceJson reference)) (\<lambda>referenceDigest.
        if oj_referenceDigest j \<noteq> referenceDigest \<or>
           \<not> jeq (oj_controlIdentity j) (controlIdentity immutableControl) \<or>
           \<not> jeq (oj_controlIdentity j) (controlIdentity c) \<or> oc_partitionId c \<noteq> wr_partitionId writer \<or>
           JStr (oc_controlId c) \<noteq> jget ''controlId'' m
        then Inr False
        else andThen (nativeOnceDigest (onceSnapshotJson after)) (\<lambda>afterDigest.
          if oj_afterDigest j \<noteq> afterDigest then Inr False
          else verifyEffect after m occ (oj_receiptLink j))))))"

text \<open>Any exception is caught and answered \<open>unknown\<close>.\<close>

definition verifyExactNativeOnceCommit ::
  "NativeOnceWriter \<Rightarrow> NativeOnceWrite \<Rightarrow> NativeOnceCommitEvidence \<Rightarrow> OnceCommitVerdict" where
  "verifyExactNativeOnceCommit writer write evidence = (case checkWrite write of
     Inl _ \<Rightarrow> Verdict_unknown
   | Inr _ \<Rightarrow> (case evidence of
       Evidence_unknown \<Rightarrow> Verdict_unknown
     | Evidence_absent partitionId writeId \<Rightarrow>
         if partitionId = wr_partitionId writer \<and> writeId = ow_writeId write then Verdict_absent else Verdict_unknown
     | Evidence_found j after immutableControl reference occ \<Rightarrow>
         (case verifyFound writer write j after immutableControl reference occ of
            Inr True \<Rightarrow> Verdict_committed | _ \<Rightarrow> Verdict_unknown)))"


section \<open>What an accepted mutation does\<close>

lemma jget_ok: "jsonOk v \<Longrightarrow> jtruthy (jget k v) \<Longrightarrow> jsonOk (jget k v)"
  by (cases v) (auto simp: jsonOkObj_iff split: option.splits dest!: map_of_SomeD)

lemma jtruthy_sortKeys [simp]: "jtruthy (sortKeysBy le v) = jtruthy v"
  by (cases v) auto

lemma taskFor_ok:
  assumes "taskFor c raw decode = Inr task"
  shows "decode raw = Some task \<and> jeq task raw \<and> goodIdJ (jget ''id'' (jget ''record'' task)) \<and>
    jget ''sessionId'' task = JStr (oc_controlSessionId c) \<and>
    oc_sessionState c = Session_ready \<and> \<not> oc_taskDeleted c \<and>
    (oc_nativeTaskId c = Some (strOf (jget ''id'' (jget ''record'' task))) \<or>
     oc_nativeTaskId c = None \<and> oc_commandKind c = Command_create \<and> oc_commandStatus c = Command_pending) \<and>
    (jtruthy (jget ''lastDelivery'' task) \<longrightarrow> jget ''scheduledAt'' (jget ''lastDelivery'' task) = JStr (oc_at c))"
proof (cases "decode raw")
  case (Some t)
  then show ?thesis
    using assms unfolding taskFor_def Let_def by (simp add: andThen_Inr_iff split: if_split_asm) blast+
qed (use assms in \<open>simp add: taskFor_def\<close>)

lemma goodIdJ_str: "goodIdJ v \<Longrightarrow> v = JStr (strOf v)"
  by (cases v) (auto simp: goodIdJ_def strOf_def)

lemma prepare_ok:
  assumes "prepareNativeOnceMutation decode i = Inr r"
  obtains remaining f rd ad where "nativeOnceReady (oi_readiness i)"
    "nativeOnceWriterRemaining (oi_writerRow i) (oi_writer i) (oi_dbNowMs i) = Inr remaining" "remaining \<noteq> 0"
    "checkWrite (oi_write i) = Inr ()" "checkControl (os_control (oi_before i)) = Inr ()"
    "oc_partitionId (os_control (oi_before i)) = wr_partitionId (oi_writer i)"
    "JStr (oc_controlId (os_control (oi_before i))) = jget ''controlId'' (ow_mutation (oi_write i))"
    "onceApply (oi_before i) (ow_mutation (oi_write i)) decode (oi_admission i) (oi_dbNowMs i)
       (oi_existingOccurrence i) = Inr (op_after r, op_occurrence r)"
    "fence (oi_writer i) = Inr f" "nativeOnceDigest (referenceJson (ww_reference (oi_writerRow i))) = Inr rd"
    "nativeOnceDigest (onceSnapshotJson (op_after r)) = Inr ad"
    "op_journal r = \<lparr>oj_writer = f, oj_referenceDigest = rd, oj_write = oi_write i,
       oj_controlIdentity = controlIdentity (os_control (op_after r)), oj_afterDigest = ad,
       oj_receiptLink = op_occurrence r\<rparr>"
  using assms unfolding prepareNativeOnceMutation_def Let_def
  by (auto simp: andThen_Inr_iff need_def split: if_splits prod.splits)


definition receiptOf :: "NativeOnceSnapshot \<Rightarrow> jsval" where
  "receiptOf s = jget ''lastDelivery'' (os_task s)"

lemma putTask_ok:
  assumes "oncePutTask before raw decode admission now existing = Inr (after, occ)"
  obtains task where "taskFor (os_control before) raw decode = Inr task"
    "after = \<lparr>os_control = (os_control before)
       \<lparr>oc_nativeTaskId := Some (strOf (jget ''id'' (jget ''record'' task)))\<rparr>, os_task = task\<rparr>"
    "os_task before \<noteq> JNull \<Longrightarrow> \<exists>previous. taskFor (os_control before) (os_task before) decode = Inr previous \<and>
       (jtruthy (jget ''lastDelivery'' previous) \<longrightarrow>
          jeq (jget ''lastDelivery'' previous) (jget ''lastDelivery'' task))"
    "jtruthy (jget ''lastDelivery'' task) \<Longrightarrow> \<exists>v. occ = Some v \<and>
       onceOccurrence (os_control after) task admission now existing = Inr v"
    "\<not> jtruthy (jget ''lastDelivery'' task) \<Longrightarrow> occ = None"
  using assms unfolding oncePutTask_def Let_def
  by (auto simp: andThen_Inr_iff split: if_split_asm)

lemma onceOccurrence_ok:
  assumes "onceOccurrence c task admission now existing = Inr v"
  obtains d reason where "nativeOnceDigest (oncePayload c task) = Inr d" "onceKey c task = Inr (oo_key v)"
    "eligibility c admission now = Inr reason" "oo_id v = strOf (jget ''occurrenceId'' (oc_dispatch c))"
    "oo_payloadDigest v = d" "ob_occurrenceId (oo_outbox v) = oo_id v" "ob_payloadDigest (oo_outbox v) = d"
    "existing = None \<Longrightarrow> oo_payload v = oncePayload c task \<and> ob_reason (oo_outbox v) = reason \<and>
       ob_state (oo_outbox v) = (if reason = None then Outbox_pending else Outbox_blocked)"
    "existing \<noteq> None \<Longrightarrow> existing = Some v \<and> jeq (oo_payload v) (oncePayload c task)"
proof (cases existing)
  case None
  then show ?thesis using assms that unfolding onceOccurrence_def Let_def by (auto simp: andThen_Inr_iff)
next
  case (Some p)
  then show ?thesis using assms that unfolding onceOccurrence_def Let_def
    by (auto simp: andThen_Inr_iff split: if_split_asm)
qed

text \<open>
  How far a snapshot has moved: the identity is fixed, the session only advances, a task id, a
  deletion, a decided command and a delivery receipt stay.
\<close>

fun sessionRank :: "OnceSession \<Rightarrow> nat" where
  "sessionRank Session_reserved = 0"
| "sessionRank Session_initializing = 1"
| "sessionRank Session_ready = 2"

definition controlOlder :: "NativeOnceControl \<Rightarrow> NativeOnceControl \<Rightarrow> bool" where
  "controlOlder c c' \<longleftrightarrow> controlIdentity c' = controlIdentity c \<and> oc_commandId c' = oc_commandId c \<and>
     oc_commandKind c' = oc_commandKind c \<and> sessionRank (oc_sessionState c) \<le> sessionRank (oc_sessionState c') \<and>
     (oc_nativeTaskId c \<noteq> None \<longrightarrow> oc_nativeTaskId c' = oc_nativeTaskId c) \<and>
     (oc_taskDeleted c \<longrightarrow> oc_taskDeleted c') \<and>
     (oc_commandStatus c \<noteq> Command_pending \<longrightarrow> oc_commandStatus c' = oc_commandStatus c)"

definition snapshotOlder :: "NativeOnceSnapshot \<Rightarrow> NativeOnceSnapshot \<Rightarrow> bool" where
  "snapshotOlder s s' \<longleftrightarrow> controlOlder (os_control s) (os_control s') \<and>
     (jtruthy (receiptOf s) \<longrightarrow> oc_taskDeleted (os_control s') \<or>
        sortKeysBy (\<le>) (receiptOf s') = sortKeysBy (\<le>) (receiptOf s))"

definition jsonDecoder :: "(jsval \<Rightarrow> jsval option) \<Rightarrow> bool" where
  "jsonDecoder decode \<longleftrightarrow> (\<forall>raw task. decode raw = Some task \<longrightarrow> jsonOk task)"

definition snapshotJson :: "(jsval \<Rightarrow> jsval option) \<Rightarrow> NativeOnceSnapshot \<Rightarrow> bool" where
  "snapshotJson decode s \<longleftrightarrow> jsonDecoder decode \<and> jsonOk (os_task s)"

lemma onceApply_frame:
  assumes "onceApply s m decode admission now existing = Inr (s', occ)"
  shows "controlOlder (os_control s) (os_control s')"
proof (cases "jget ''kind'' m = JStr ''put_task''")
  case True
  then have "oncePutTask s (jget ''task'' m) decode admission now existing = Inr (s', occ)"
    using assms by (simp add: onceApply_def Let_def)
  then obtain task where task: "taskFor (os_control s) (jget ''task'' m) decode = Inr task"
    "os_control s' = (os_control s)\<lparr>oc_nativeTaskId := Some (strOf (jget ''id'' (jget ''record'' task)))\<rparr>"
    by (rule putTask_ok) auto
  then show ?thesis using taskFor_ok [OF task(1)] by (auto simp: controlOlder_def controlIdentity_def)
next
  case False
  then show ?thesis using assms unfolding onceApply_def Let_def
    by (auto simp: controlOlder_def controlIdentity_def split: if_split_asm)
qed


abbreviation canon :: "jsval \<Rightarrow> jsval" where
  "canon \<equiv> sortKeysBy (\<le>)"

lemma canon_eq_iff: "jsonOk v \<Longrightarrow> jsonOk w \<Longrightarrow> canon v = canon w \<longleftrightarrow> jeq v w"
proof -
  have "totalLe ((\<le>) :: string \<Rightarrow> _)" by (auto simp: totalLe_def)
  then show "jsonOk v \<Longrightarrow> jsonOk w \<Longrightarrow> ?thesis" using sortKeys_eq_jeq jeq_sortKeys_eq by blast
qed

lemma map_of_set_eq:
  "distinct (map fst xs) \<Longrightarrow> distinct (map fst ys) \<Longrightarrow> set xs = set ys \<Longrightarrow> map_of xs = map_of ys"
  by (simp add: map_of_inject_set)

lemma canon_jget: "jsonOk v \<Longrightarrow> canon (jget k v) = jget k (canon v)"
proof (cases v)
  case (JObj kvs)
  assume "jsonOk v"
  then have "map_of (sortBy (\<le>) (sortKeysProps (\<le>) kvs)) = map_of (sortKeysProps (\<le>) kvs)"
    using JObj by (intro map_of_set_eq) auto
  moreover have "map_of (sortKeysProps (\<le>) kvs) k = map_option canon (map_of kvs k)"
    by (induction kvs) auto
  ultimately show ?thesis using JObj by (simp split: option.splits)
qed auto

lemma canon_jget_eq: "jsonOk v \<Longrightarrow> jsonOk w \<Longrightarrow> jeq v w \<Longrightarrow> canon (jget k v) = canon (jget k w)"
  using canon_eq_iff [of v w] canon_jget [of v k] canon_jget [of w k] by simp

lemma truthy_canon: "canon v = canon w \<Longrightarrow> jtruthy v = jtruthy w"
  using jtruthy_sortKeys [of "(\<le>)" v] jtruthy_sortKeys [of "(\<le>)" w] by simp

lemma canon_truthy_jeq:
  assumes "jsonOk v" "jsonOk w" "jtruthy (jget k v)" "jeq (jget k v) (jget l w)"
  shows "canon (jget k v) = canon (jget l w)"
proof -
  have "jsonOk (jget k v)" using assms by (simp add: jget_ok)
  moreover have "jtruthy (jget l w)" using assms(3,4) by (cases "jget k v"; cases "jget l w") auto
  then have "jsonOk (jget l w)" using assms by (simp add: jget_ok)
  ultimately show ?thesis using assms(4) by (simp add: canon_eq_iff)
qed

lemma onceApply_older:
  assumes "onceApply s m decode admission now existing = Inr (s', occ)" "snapshotJson decode s"
  shows "snapshotOlder s s' \<and> snapshotJson decode s'"
proof (cases "jget ''kind'' m = JStr ''put_task''")
  case True
  then have "oncePutTask s (jget ''task'' m) decode admission now existing = Inr (s', occ)"
    using assms by (simp add: onceApply_def Let_def)
  then obtain task where task: "taskFor (os_control s) (jget ''task'' m) decode = Inr task" "os_task s' = task"
    and previous: "os_task s \<noteq> JNull \<Longrightarrow> \<exists>previous. taskFor (os_control s) (os_task s) decode = Inr previous \<and>
       (jtruthy (jget ''lastDelivery'' previous) \<longrightarrow>
          jeq (jget ''lastDelivery'' previous) (jget ''lastDelivery'' task))"
    by (rule putTask_ok) auto
  have ok: "jsonOk task" "jsonOk (os_task s)"
    using taskFor_ok [OF task(1)] assms(2) by (auto simp: snapshotJson_def jsonDecoder_def)
  have "canon (receiptOf s') = canon (receiptOf s)" if r: "jtruthy (receiptOf s)"
  proof -
    have "os_task s \<noteq> JNull" using r by (auto simp: receiptOf_def)
    then obtain p where p: "taskFor (os_control s) (os_task s) decode = Inr p"
      "jtruthy (jget ''lastDelivery'' p) \<longrightarrow> jeq (jget ''lastDelivery'' p) (jget ''lastDelivery'' task)"
      using previous by blast
    then have pk: "jsonOk p" "jeq p (os_task s)"
      using taskFor_ok [OF p(1)] assms(2) by (auto simp: snapshotJson_def jsonDecoder_def)
    then have e: "canon (jget ''lastDelivery'' p) = canon (receiptOf s)"
      unfolding receiptOf_def using ok(2) by (intro canon_jget_eq)
    then have "jtruthy (jget ''lastDelivery'' p)" using r truthy_canon by blast
    then have "canon (jget ''lastDelivery'' p) = canon (jget ''lastDelivery'' task)"
      using p(2) pk(1) ok(1) by (intro canon_truthy_jeq) auto
    then show ?thesis using e task(2) by (simp add: receiptOf_def)
  qed
  then show ?thesis
    using onceApply_frame [OF assms(1)] assms(2) ok task(2) by (auto simp: snapshotOlder_def snapshotJson_def)
next
  case False
  then show ?thesis using onceApply_frame [OF assms(1)] assms unfolding onceApply_def Let_def
    by (auto simp: snapshotOlder_def snapshotJson_def receiptOf_def split: if_split_asm)
qed


definition onceStep :: "(jsval \<Rightarrow> jsval option) \<Rightarrow> NativeOnceSnapshot \<Rightarrow> NativeOnceInput \<Rightarrow> NativeOnceSnapshot result"
where
  "onceStep decode s i = andThen (prepareNativeOnceMutation decode (i\<lparr>oi_before := s\<rparr>)) (\<lambda>r. Inr (op_after r))"

lemma onceStep_older:
  assumes "onceStep decode s i = Inr s'" "snapshotJson decode s"
  shows "snapshotOlder s s' \<and> snapshotJson decode s'"
proof -
  from assms(1) obtain r where r: "prepareNativeOnceMutation decode (i\<lparr>oi_before := s\<rparr>) = Inr r" "s' = op_after r"
    by (auto simp: onceStep_def andThen_Inr_iff)
  show ?thesis using r(1)
  proof (rule prepare_ok)
  qed (use onceApply_older assms(2) r(2) in \<open>auto\<close>)
qed

interpretation once: step_machine "onceStep decode" "snapshotJson decode" snapshotOlder for decode
proof
  fix a b c :: NativeOnceSnapshot
  assume "snapshotOlder a b" "snapshotOlder b c"
  then show "snapshotOlder a c"
    using truthy_canon [of "receiptOf b" "receiptOf a"]
    by (simp add: snapshotOlder_def controlOlder_def) auto
qed (use onceStep_older in \<open>auto simp: snapshotOlder_def controlOlder_def\<close>)

lemma occurrence_origin:
  assumes "prepareNativeOnceMutation decode i = Inr r" "op_occurrence r = Some v"
  obtains task where "controlIdentity (os_control (op_after r)) = controlIdentity (os_control (oi_before i))"
    "onceOccurrence (os_control (op_after r)) task (oi_admission i) (oi_dbNowMs i) (oi_existingOccurrence i) = Inr v"
    "jget ''scheduledAt'' (jget ''lastDelivery'' task) = JStr (oc_at (os_control (op_after r)))"
proof -
  from assms(1) obtain x where a: "onceApply (oi_before i) (ow_mutation (oi_write i)) decode (oi_admission i)
      (oi_dbNowMs i) (oi_existingOccurrence i) = Inr (op_after r, Some v)"
    by (rule prepare_ok) (use assms(2) in simp)
  then have "oncePutTask (oi_before i) (jget ''task'' (ow_mutation (oi_write i))) decode (oi_admission i)
      (oi_dbNowMs i) (oi_existingOccurrence i) = Inr (op_after r, Some v)"
    unfolding onceApply_def Let_def by (auto split: if_split_asm)
  then obtain task where t: "taskFor (os_control (oi_before i)) (jget ''task'' (ow_mutation (oi_write i))) decode = Inr task"
    "os_control (op_after r) = (os_control (oi_before i))
       \<lparr>oc_nativeTaskId := Some (strOf (jget ''id'' (jget ''record'' task)))\<rparr>"
    "jtruthy (jget ''lastDelivery'' task)"
    "onceOccurrence (os_control (op_after r)) task (oi_admission i) (oi_dbNowMs i) (oi_existingOccurrence i) = Inr v"
    by (rule putTask_ok) auto
  moreover have "controlIdentity (os_control (op_after r)) = controlIdentity (os_control (oi_before i))"
    using onceApply_frame [OF a] by (simp add: controlOlder_def)
  moreover have "jget ''scheduledAt'' (jget ''lastDelivery'' task) = JStr (oc_at (os_control (op_after r)))"
    using taskFor_ok [OF t(1)] t(2,3) by simp
  ultimately show ?thesis using that by blast
qed

lemma occurrence_facts:
  assumes "onceOccurrence c task admission now existing = Inr v"
  shows "onceKey c task = Inr (oo_key v) \<and> oo_id v = strOf (jget ''occurrenceId'' (oc_dispatch c)) \<and>
    (existing = None \<or> existing = Some v)"
  using assms by (rule onceOccurrence_ok) blast

lemma controlIdentity_inject:
  "controlIdentity c = controlIdentity d \<longleftrightarrow> oc_partitionId c = oc_partitionId d \<and> oc_controlId c = oc_controlId d \<and>
     oc_organizationId c = oc_organizationId d \<and> oc_workspaceId c = oc_workspaceId d \<and> oc_ownerId c = oc_ownerId d \<and>
     oc_automationId c = oc_automationId d \<and> oc_revision c = oc_revision d \<and>
     oc_controlSessionId c = oc_controlSessionId d \<and> oc_at c = oc_at d \<and> oc_dispatch c = oc_dispatch d"
  by (simp add: controlIdentity_def)

interpretation once_client: fenced_client "prepareNativeOnceMutation decode" oi_writerRow oi_writer oi_dbNowMs for decode
proof
  fix i r assume "prepareNativeOnceMutation decode i = Inr r"
  then show "\<exists>remaining. nativeOnceWriterRemaining (oi_writerRow i) (oi_writer i) (oi_dbNowMs i) = Inr remaining \<and> 0 < remaining"
    by (rule prepare_ok) (use remaining_pos in blast)
qed

section \<open>Properties\<close>

text \<open>
  A one-shot control only moves forward.  Whatever accepted mutations follow one another, the
  control keeps its identity, dispatch reservation and command, its session only advances, its
  native task id, its deletion and a decided command are never undone, and a delivery receipt is
  never replaced by another one.
\<close>

theorem once_control_monotone:
  assumes "runAll (onceStep decode) s is = Inr s'" "jsonDecoder decode" "jsonOk (os_task s)"
  shows "controlOlder (os_control s) (os_control s') \<and>
    (jtruthy (receiptOf s) \<longrightarrow> oc_taskDeleted (os_control s') \<or> jeq (receiptOf s') (receiptOf s))"
proof -
  have i: "snapshotJson decode s" using assms(2,3) by (simp add: snapshotJson_def)
  have o: "snapshotOlder s s'" "jsonOk (os_task s')"
    using once.run_older [OF assms(1) i] once.run_inv [OF assms(1) i] by (auto simp: snapshotJson_def)
  have "jeq (receiptOf s') (receiptOf s)"
    if "jtruthy (receiptOf s)" "canon (receiptOf s') = canon (receiptOf s)"
    using that truthy_canon [OF that(2)] jget_ok [of "os_task s"] jget_ok [of "os_task s'"] o(2) assms(3)
    by (simp add: canon_eq_iff [symmetric] receiptOf_def)
  then show ?thesis using o(1) by (auto simp: snapshotOlder_def)
qed

text \<open>
  (C10) Exactly one occurrence per control: whenever two accepted mutations of the same control
  produce an occurrence, at whatever times and by whichever writers, the occurrence has the same
  id and the same key; and where the first one is given as the existing occurrence, the second
  mutation returns it unchanged, its outbox entry included.
\<close>

theorem once_occurrence_unique:
  assumes "prepareNativeOnceMutation decode i = Inr r" "op_occurrence r = Some v"
    "prepareNativeOnceMutation decode j = Inr q" "op_occurrence q = Some w"
    "controlIdentity (os_control (oi_before j)) = controlIdentity (os_control (oi_before i))"
  shows "oo_id w = oo_id v \<and> oo_key w = oo_key v \<and> (oi_existingOccurrence j = Some v \<longrightarrow> w = v)"
proof -
  obtain t where t: "controlIdentity (os_control (op_after r)) = controlIdentity (os_control (oi_before i))"
    "onceOccurrence (os_control (op_after r)) t (oi_admission i) (oi_dbNowMs i) (oi_existingOccurrence i) = Inr v"
    "jget ''scheduledAt'' (jget ''lastDelivery'' t) = JStr (oc_at (os_control (op_after r)))"
    by (rule occurrence_origin [OF assms(1,2)])
  obtain u where u: "controlIdentity (os_control (op_after q)) = controlIdentity (os_control (oi_before j))"
    "onceOccurrence (os_control (op_after q)) u (oi_admission j) (oi_dbNowMs j) (oi_existingOccurrence j) = Inr w"
    "jget ''scheduledAt'' (jget ''lastDelivery'' u) = JStr (oc_at (os_control (op_after q)))"
    by (rule occurrence_origin [OF assms(3,4)])
  have id: "controlIdentity (os_control (op_after q)) = controlIdentity (os_control (op_after r))"
    using t(1) u(1) assms(5) by simp
  then have "onceKey (os_control (op_after q)) u = onceKey (os_control (op_after r)) t"
    using t(3) u(3) by (simp add: onceKey_def controlIdentity_inject)
  moreover have "oc_dispatch (os_control (op_after q)) = oc_dispatch (os_control (op_after r))"
    using id by (simp add: controlIdentity_inject)
  ultimately show ?thesis using occurrence_facts [OF t(2)] occurrence_facts [OF u(2)] by auto
qed

text \<open>
  A new occurrence is queued for dispatch only under current authority: the outbox entry is
  pending only if the admission facts were read at this database time, belong to this scope and
  revision and to the reserved assignment, instance and session, the plan is enabled, the planned
  time has come, and every access condition holds; and the writer still has time on its row.
\<close>

theorem once_pending_only_if_admitted:
  assumes "prepareNativeOnceMutation decode i = Inr r" "op_occurrence r = Some v"
    "oi_existingOccurrence i = None" "ob_state (oo_outbox v) = Outbox_pending"
  shows "\<exists>f t remaining. oi_admission i = Some f \<and> af_checkedAtMs f = oi_dbNowMs i \<and>
    af_organizationId f = oc_organizationId (os_control (oi_before i)) \<and>
    af_currentRevision f = oc_revision (os_control (oi_before i)) \<and>
    jOpt JStr (af_reservationDigest f) = jget ''reservationDigest'' (oc_dispatch (os_control (oi_before i))) \<and>
    af_planStatus f = Plan_enabled \<and> af_currentWritableIdentity f \<and> af_assignmentActive f \<and>
    af_instanceActive f \<and> af_businessSessionAvailable f \<and> af_cloudEnabled f \<and> af_legacyClockExcluded f \<and>
    dateParse (oc_at (os_control (oi_before i))) = Some t \<and> t \<le> oi_dbNowMs i \<and>
    nativeOnceWriterRemaining (oi_writerRow i) (oi_writer i) (oi_dbNowMs i) = Inr remaining \<and> 0 < remaining"
proof -
  obtain t where t: "controlIdentity (os_control (op_after r)) = controlIdentity (os_control (oi_before i))"
    "onceOccurrence (os_control (op_after r)) t (oi_admission i) (oi_dbNowMs i) (oi_existingOccurrence i) = Inr v"
    by (rule occurrence_origin [OF assms(1,2)])
  from t(2) have e: "eligibility (os_control (op_after r)) (oi_admission i) (oi_dbNowMs i) = Inr None"
    by (rule onceOccurrence_ok) (use assms(3,4) in \<open>auto split: if_splits\<close>)
  obtain n where n: "nativeOnceWriterRemaining (oi_writerRow i) (oi_writer i) (oi_dbNowMs i) = Inr n" "0 < n"
    and c: "checkControl (os_control (oi_before i)) = Inr ()"
    using assms(1) by (rule prepare_ok) (use remaining_pos in blast)
  from c obtain at where "dateParse (oc_at (os_control (oi_before i))) = Some at"
    by (auto simp: checkControl_def isoExact_def split: option.splits)
  with e n t(1) show ?thesis
    by (auto simp: eligibility_def controlIdentity_inject split: option.splits if_split_asm)
qed


lemma controlIdentity_json: "jsonOk (controlIdentity c) \<longleftrightarrow> jsonOk (oc_dispatch c)"
  by (simp add: controlIdentity_def)

lemma payload_json:
  assumes "jsonOk task" "jget ''id'' (jget ''record'' task) = JStr x" "jtruthy (jget ''lastDelivery'' task)"
  shows "jsonOk (oncePayload c task) \<longleftrightarrow> jsonOk (oc_dispatch c)"
  unfolding oncePayload_def using assms jget_ok [of task "''lastDelivery''"] by (simp add: controlIdentity_json)

lemma put_verifies:
  assumes "oncePutTask s raw decode admission now existing = Inr (s', occ)" "jsonDecoder decode"
    "jsonOk (oc_dispatch (os_control s))" "optAll (\<lambda>e. jsonOk (oo_payload e)) existing" "raw = jget ''task'' m"
    "jget ''kind'' m = JStr ''put_task''"
  shows "verifyEffect s' m occ occ = Inr True"
proof -
  from assms(1) obtain task where task: "taskFor (os_control s) raw decode = Inr task"
    and s': "s' = \<lparr>os_control = (os_control s)
       \<lparr>oc_nativeTaskId := Some (strOf (jget ''id'' (jget ''record'' task)))\<rparr>, os_task = task\<rparr>"
    and occ: "jtruthy (jget ''lastDelivery'' task) \<Longrightarrow> \<exists>v. occ = Some v \<and>
       onceOccurrence (os_control s') task admission now existing = Inr v"
    "\<not> jtruthy (jget ''lastDelivery'' task) \<Longrightarrow> occ = None"
    by (rule putTask_ok) blast
  note f = taskFor_ok [OF task]
  then have ok: "jsonOk task" and id: "jget ''id'' (jget ''record'' task) = JStr (strOf (jget ''id'' (jget ''record'' task)))"
    using assms(2) goodIdJ_str by (auto simp: jsonDecoder_def)
  have "verifyReceipt (os_control s') task occ occ = Inr True" if r: "jtruthy (jget ''lastDelivery'' task)"
  proof -
    obtain v where v: "occ = Some v" "onceOccurrence (os_control s') task admission now existing = Inr v"
      using occ r by blast
    have p: "jsonOk (oncePayload (os_control s') task)"
      using payload_json [OF ok id r] assms(3) s' by simp
    from v(2) show ?thesis
    proof (rule onceOccurrence_ok)
      fix d reason
      assume a: "nativeOnceDigest (oncePayload (os_control s') task) = Inr d"
        "onceKey (os_control s') task = Inr (oo_key v)" "oo_payloadDigest v = d"
        "oo_id v = strOf (jget ''occurrenceId'' (oc_dispatch (os_control s')))"
        "ob_occurrenceId (oo_outbox v) = oo_id v" "ob_payloadDigest (oo_outbox v) = d"
        and n: "existing = None \<Longrightarrow> oo_payload v = oncePayload (os_control s') task \<and> ob_reason (oo_outbox v) = reason \<and>
          ob_state (oo_outbox v) = (if reason = None then Outbox_pending else Outbox_blocked)"
        and e: "existing \<noteq> None \<Longrightarrow> existing = Some v \<and> jeq (oo_payload v) (oncePayload (os_control s') task)"
      have "jeq (oo_payload v) (oncePayload (os_control s') task)" "jsonOk (oo_payload v)"
        using n e p assms(4) by (cases existing; auto)+
      then show ?thesis using a v(1) by (simp add: verifyReceipt_def)
    qed
  qed
  then show ?thesis
    using f occ id s' assms(5,6) unfolding verifyEffect_def Let_def by (auto simp: jOpt_def)
qed

lemma apply_verifies:
  assumes "onceApply s m decode admission now existing = Inr (s', occ)" "jsonDecoder decode"
    "jsonOk (oc_dispatch (os_control s))" "optAll (\<lambda>e. jsonOk (oo_payload e)) existing"
  shows "verifyEffect s' m occ occ = Inr True"
proof (cases "jget ''kind'' m = JStr ''put_task''")
  case True
  then show ?thesis using assms put_verifies [of s _ decode admission now existing s' occ m]
    by (simp add: onceApply_def Let_def)
next
  case False
  then show ?thesis using assms(1) unfolding onceApply_def verifyEffect_def Let_def
    by (auto split: if_split_asm)
qed

lemma checkControl_older: "controlOlder c c' \<Longrightarrow> checkControl c' = checkControl c"
  by (simp add: controlOlder_def controlIdentity_inject checkControl_def)

text \<open>
  (C20) Round trip: the journal, snapshot and occurrence that an accepted mutation prepares, once
  stored, verify as exactly that commit; and no other write and no other writer verifies against
  them, so a lost answer can be recovered by reading the journal back.
\<close>

theorem once_commit_verifies:
  assumes "prepareNativeOnceMutation decode i = Inr r" "jsonDecoder decode"
    "jsonOk (ow_mutation (oi_write i))" "jsonOk (oc_dispatch (os_control (oi_before i)))"
    "optAll (\<lambda>e. jsonOk (oo_payload e)) (oi_existingOccurrence i)"
  defines "stored \<equiv> Evidence_found (op_journal r) (op_after r) (os_control (oi_before i))
    (ww_reference (oi_writerRow i)) (op_occurrence r)"
  shows "verifyExactNativeOnceCommit (oi_writer i) (oi_write i) stored = Verdict_committed \<and>
    (\<forall>x y. verifyExactNativeOnceCommit x y stored = Verdict_committed \<longrightarrow>
       fence x = fence (oi_writer i) \<and> sameWrite (oi_write i) y)"
proof -
  from assms(1) obtain f rd ad where w: "checkWrite (oi_write i) = Inr ()"
    "checkControl (os_control (oi_before i)) = Inr ()"
    "oc_partitionId (os_control (oi_before i)) = wr_partitionId (oi_writer i)"
    "JStr (oc_controlId (os_control (oi_before i))) = jget ''controlId'' (ow_mutation (oi_write i))"
    and a: "onceApply (oi_before i) (ow_mutation (oi_write i)) decode (oi_admission i) (oi_dbNowMs i)
       (oi_existingOccurrence i) = Inr (op_after r, op_occurrence r)"
    and d: "fence (oi_writer i) = Inr f" "nativeOnceDigest (referenceJson (ww_reference (oi_writerRow i))) = Inr rd"
    "nativeOnceDigest (onceSnapshotJson (op_after r)) = Inr ad"
    and j: "op_journal r = \<lparr>oj_writer = f, oj_referenceDigest = rd, oj_write = oi_write i,
       oj_controlIdentity = controlIdentity (os_control (op_after r)), oj_afterDigest = ad,
       oj_receiptLink = op_occurrence r\<rparr>"
    by (rule prepare_ok)
  note frame = onceApply_frame [OF a]
  have c: "checkControl (os_control (op_after r)) = Inr ()" using frame w(2) by (simp add: checkControl_older)
  have id: "controlIdentity (os_control (op_after r)) = controlIdentity (os_control (oi_before i))"
    using frame by (simp add: controlOlder_def)
  have k: "jsonOk (controlIdentity (os_control (oi_before i)))" using assms(4) by (simp add: controlIdentity_json)
  have s: "sameWrite (oi_write i) (oi_write i)" using assms(3) by (simp add: sameWrite_def)
  have e: "verifyEffect (op_after r) (ow_mutation (oi_write i)) (op_occurrence r) (op_occurrence r) = Inr True"
    using apply_verifies [OF a assms(2,4,5)] .
  have p: "oc_partitionId (os_control (op_after r)) = wr_partitionId (oi_writer i)"
    "JStr (oc_controlId (os_control (op_after r))) = jget ''controlId'' (ow_mutation (oi_write i))"
    using id w(3,4) by (auto simp: controlIdentity_inject)
  have "verifyFound (oi_writer i) (oi_write i) (op_journal r) (op_after r) (os_control (oi_before i))
      (ww_reference (oi_writerRow i)) (op_occurrence r) = Inr True"
    unfolding verifyFound_def Let_def using c d j s id k p e by simp
  moreover have "fence x = fence (oi_writer i) \<and> sameWrite (oi_write i) y"
    if "verifyExactNativeOnceCommit x y stored = Verdict_committed" for x y
    using that d(1) j unfolding verifyExactNativeOnceCommit_def stored_def verifyFound_def Let_def
    by (auto simp: andThen_Inr_iff split: sum.splits bool.splits if_split_asm)
  ultimately show ?thesis using w(1) by (simp add: verifyExactNativeOnceCommit_def stored_def)
qed


section \<open>A concrete control\<close>

definition sampleAt :: string where "sampleAt = ''1970-01-01T00:00:00.000Z''"

definition sampleDispatch :: jsval where
  "sampleDispatch = JObj [(''occurrenceId'', JStr ''occ''), (''employeeAssignmentId'', JStr ''asg''),
     (''employeeInstanceId'', JStr ''ins''), (''businessSessionId'', JStr ''ses''),
     (''clientMessageId'', JStr ''msg''),
     (''reservationDigest'', JStr ''sha256:0000000000000000000000000000000000000000000000000000000000000000'')]"

definition sampleControl :: NativeOnceControl where
  "sampleControl = \<lparr>oc_partitionId = ''part'', oc_controlId = ''ctl'', oc_organizationId = ''org'',
     oc_workspaceId = ''ws'', oc_ownerId = ''own'', oc_automationId = ''aut'', oc_revision = 1,
     oc_controlSessionId = ''cs'', oc_at = sampleAt, oc_sessionState = Session_ready, oc_nativeTaskId = None,
     oc_taskDeleted = False, oc_commandId = ''cmd'', oc_commandKind = Command_create,
     oc_commandStatus = Command_pending, oc_dispatch = sampleDispatch\<rparr>"

definition sampleOnceTask :: jsval where
  "sampleOnceTask = JObj [(''sessionId'', JStr ''cs''),
     (''record'', JObj [(''id'', JStr ''t1''), (''kind'', JStr ''at''), (''title'', JStr onceTitle),
        (''prompt'', JStr oncePrompt), (''scheduledAt'', JStr sampleAt)]),
     (''status'', JStr ''inactive''),
     (''lastDelivery'', JObj [(''scheduledAt'', JStr sampleAt), (''deliveredAt'', JStr sampleAt),
        (''messageId'', JStr ''m1'')])]"

definition sampleMutation :: jsval where
  "sampleMutation = JObj [(''controlId'', JStr ''ctl''), (''kind'', JStr ''put_task''), (''task'', sampleOnceTask)]"

definition sampleFacts :: NativeOnceAdmissionFacts where
  "sampleFacts = \<lparr>af_checkedAtMs = 1000, af_organizationId = ''org'', af_workspaceId = ''ws'', af_ownerId = ''own'',
     af_automationId = ''aut'', af_currentRevision = 1, af_employeeAssignmentId = Some ''asg'',
     af_employeeInstanceId = Some ''ins'', af_businessSessionId = Some ''ses'',
     af_reservationDigest = Some ''sha256:0000000000000000000000000000000000000000000000000000000000000000'',
     af_planStatus = Plan_enabled, af_currentWritableIdentity = True, af_cloudEnabled = True,
     af_assignmentActive = True, af_instanceActive = True, af_businessSessionAvailable = True,
     af_legacyClockExcluded = True\<rparr>"

definition jsonOnly :: "jsval \<Rightarrow> jsval option" where
  "jsonOnly v = (if jsonOk v then Some v else None)"

lemma jsonOnly_decoder: "jsonDecoder jsonOnly"
  by (simp add: jsonDecoder_def jsonOnly_def)

text \<open>A bound on the printed length that is easy to compute.\<close>

fun textBound :: "jsval \<Rightarrow> nat" and textBoundArr :: "jsval list \<Rightarrow> nat" and textBoundObj :: "(string \<times> jsval) list \<Rightarrow> nat"
where
  "textBound (JNum i) = length (intStr i)"
| "textBound (JStr s) = 6 * length s + 2"
| "textBound (JArr xs) = 2 + textBoundArr xs"
| "textBound (JObj kvs) = 2 + textBoundObj kvs"
| "textBound _ = 5"
| "textBoundArr [] = 0"
| "textBoundArr (x # xs) = 1 + textBound x + textBoundArr xs"
| "textBoundObj [] = 0"
| "textBoundObj ((k, v) # kvs) = 6 * length k + 4 + textBound v + textBoundObj kvs"

lemma length_quote: "length (quote s) \<le> 6 * length s + 2"
  using length_esc [of s] by (simp add: quote_def)

lemma length_stringify:
  "length (stringify v) \<le> textBound v"
  "length (stringifyElems xs) \<le> textBoundArr xs"
  "length (stringifyProps kvs) \<le> textBoundObj kvs"
proof (induction v and xs and kvs rule: stringify_stringifyElems_stringifyProps.induct)
  case (12 k v kvs)
  then show ?case using length_quote [of k] by (auto simp: Let_def)
qed (use length_quote in \<open>auto\<close>)

lemma digest_small:
  assumes "jsonOk v" "jsNodes v \<le> 20000" "jsDepth v \<le> 32" "textBound v \<le> 32768"
  shows "\<exists>d. nativeOnceDigest v = Inr d"
proof -
  have "\<not> length (utf8 (stringify v)) > 65536"
    using length_utf8 [of "stringify v"] length_stringify(1) [of v] assms(4) by simp
  then show ?thesis using assms runtimePolicyDigest_ok [of v] by (auto simp: nativeOnceDigest_def)
qed

lemmas sampleOnce_defs = sampleAt_def sampleDispatch_def sampleControl_def sampleOnceTask_def sampleMutation_def
  sampleFacts_def onceTitle_def oncePrompt_def

definition sampleAfter :: NativeOnceSnapshot where
  "sampleAfter = \<lparr>os_control = sampleControl\<lparr>oc_nativeTaskId := Some ''t1''\<rparr>, os_task = sampleOnceTask\<rparr>"

lemma natStr_one: "length (natStr (Suc 0)) = 1"
  by (subst natStr.simps) simp

lemma sample_digests:
  "\<exists>d. nativeOnceDigest sampleMutation = Inr d"
  "\<exists>d. nativeOnceDigest sampleOnceTask = Inr d"
  "\<exists>d. nativeOnceDigest (oncePayload (os_control sampleAfter) sampleOnceTask) = Inr d"
  "\<exists>d. onceKey (os_control sampleAfter) sampleOnceTask = Inr d"
  "\<exists>d. nativeOnceDigest (referenceJson sampleReference) = Inr d"
  "\<exists>d. nativeOnceDigest (onceSnapshotJson sampleAfter) = Inr d"
  unfolding onceKey_def
  by (intro digest_small; simp add: sampleOnce_defs sampleAfter_def oncePayload_def controlIdentity_def referenceJson_def
    sampleReference_def onceSnapshotJson_def onceControlJson_def jOpt_def intStr_def natStr_one)+

lemma sampleAt_iso: "isoExact sampleAt" "dateParse sampleAt = Some 0"
proof -
  have parts: "yearFromDay 0 = 1970" "monthAndDay 1 (monthLengths 1970) (0 - dayFromYear 1970) = (1, 1)"
    by (simp_all add: yearFromDay_def monthLengths_def isLeapYear_def dayFromYear_def)
  have print: "yearStr 1970 = ''1970''" "padDigits 2 0 = ''00''" "padDigits 2 1 = ''01''" "padDigits 3 0 = ''000''"
    by code_simp+
  have "toISOString 0 = Some sampleAt"
    unfolding toISOString_def sampleAt_def using parts print by (simp add: maxTime_def)
  then show "dateParse sampleAt = Some 0" "isoExact sampleAt"
    using dateParse_toISOString by (auto simp: isoExact_def)
qed


lemma sample_control: "checkControl sampleControl = Inr ()"
  using sampleAt_iso
  by (simp add: checkControl_def sampleControl_def goodId_def sampleAt_def isSafeInteger_def validNativeOnceDispatch_def
    sampleDispatch_def isReminder_def keysAre_def dispatchBase_def goodIdJ_def checksumJ_def checksumOk_def isHexLower_def)

lemma sample_once_task: "taskFor sampleControl sampleOnceTask jsonOnly = Inr sampleOnceTask"
proof -
  have ok: "jsonOk sampleOnceTask" by (simp add: sampleOnceTask_def)
  show ?thesis
    using sample_digests(2) sampleAt_iso(2) jeq_refl(1) [OF ok] ok
    unfolding taskFor_def jsonOnly_def
    by (auto simp: sampleOnceTask_def sampleControl_def goodIdJ_def goodId_def dateFiniteJ_def Let_def)
qed

lemma sample_occurrence:
  "\<exists>v. onceOccurrence (os_control sampleAfter) sampleOnceTask (Some sampleFacts) 1000 None = Inr v \<and>
     ob_state (oo_outbox v) = Outbox_pending"
proof -
  have e: "eligibility (os_control sampleAfter) (Some sampleFacts) 1000 = Inr None"
    using sampleAt_iso(2)
    by (simp add: eligibility_def sampleAfter_def sampleControl_def sampleFacts_def sampleDispatch_def jOpt_def)
  show ?thesis
    using sample_digests(3,4) e unfolding onceOccurrence_def Let_def by auto
qed

lemma sample_prepare:
  "\<exists>i r v. prepareNativeOnceMutation jsonOnly i = Inr r \<and> op_occurrence r = Some v \<and>
     oi_before i = \<lparr>os_control = sampleControl, os_task = JNull\<rparr> \<and> oi_existingOccurrence i = None \<and>
     ow_mutation (oi_write i) = sampleMutation \<and> ob_state (oo_outbox v) = Outbox_pending"
proof -
  obtain acq where a: "planNativeOnceAcquire sampleRow sampleAcquire = Inr (Some acq)" using sample_acquire by blast
  note acq = acquire_cases [OF a]
  obtain d where d: "nativeOnceDigest sampleMutation = Inr d" using sample_digests(1) by blast
  define w where "w = \<lparr>ow_writeId = ''w1'', ow_digest = d, ow_mutation = sampleMutation\<rparr>"
  define before where "before = \<lparr>os_control = sampleControl, os_task = JNull\<rparr>"
  define i where "i = \<lparr>oi_readiness = Some sampleReady, oi_writerRow = ac_row acq, oi_writer = ac_writer acq,
    oi_dbNowMs = 1000, oi_before = before, oi_write = w, oi_admission = Some sampleFacts, oi_existingOccurrence = None\<rparr>"
  have "nativeOnceWriterRemaining (ac_row acq) (ac_writer acq) 1000 = Inr (ac_remainingMs acq)" "ac_remainingMs acq \<noteq> 0"
    using acquired_live [OF a] acq by (simp_all add: sampleAcquire_def)
  moreover have "checkWrite w = Inr ()"
    using d unfolding checkWrite_def w_def Let_def by (simp add: sampleMutation_def goodId_def goodIdJ_def jHas_def)
  moreover obtain v where v: "onceOccurrence (os_control sampleAfter) sampleOnceTask (Some sampleFacts) 1000 None = Inr v"
    "ob_state (oo_outbox v) = Outbox_pending" using sample_occurrence by blast
  moreover have "jtruthy (jget ''lastDelivery'' sampleOnceTask)"
    "jget ''id'' (jget ''record'' sampleOnceTask) = JStr ''t1''" by (simp_all add: sampleOnceTask_def)
  then have "onceApply before sampleMutation jsonOnly (Some sampleFacts) 1000 None = Inr (sampleAfter, Some v)"
    using sample_once_task v(1) unfolding onceApply_def oncePutTask_def Let_def
    by (simp add: before_def sampleMutation_def sampleAfter_def strOf_def)
  moreover obtain f where "fence (ac_writer acq) = Inr f" using acq by (auto simp: sameWriter_True)
  moreover have "ww_reference (ac_row acq) = sampleReference" using acq by (simp add: sampleRow_def)
  moreover obtain rd ad where "nativeOnceDigest (referenceJson sampleReference) = Inr rd"
    "nativeOnceDigest (onceSnapshotJson sampleAfter) = Inr ad" using sample_digests(5,6) by blast
  moreover have "oc_partitionId sampleControl = wr_partitionId (ac_writer acq)"
    using acq by (simp add: sampleControl_def sampleRow_def)
  moreover have "JStr (oc_controlId sampleControl) = jget ''controlId'' sampleMutation"
    by (simp add: sampleControl_def sampleMutation_def)
  moreover have "nativeOnceReady (Some sampleReady)" by (simp add: nativeOnceReady_def sampleReady_def)
  ultimately have "\<exists>r. prepareNativeOnceMutation jsonOnly i = Inr r \<and> op_occurrence r = Some v"
    unfolding prepareNativeOnceMutation_def Let_def i_def using sample_control by (simp add: before_def w_def)
  then show ?thesis using v(2) by (force simp: i_def before_def w_def)
qed


theorem once_control_monotone_witness:
  "\<exists>i s'. runAll (onceStep jsonOnly) \<lparr>os_control = sampleControl, os_task = JNull\<rparr> [i] = Inr s' \<and>
     controlOlder sampleControl (os_control s')"
proof -
  obtain i r where i: "prepareNativeOnceMutation jsonOnly i = Inr r"
    "oi_before i = \<lparr>os_control = sampleControl, os_task = JNull\<rparr>" using sample_prepare by blast
  then have "i\<lparr>oi_before := \<lparr>os_control = sampleControl, os_task = JNull\<rparr>\<rparr> = i" by (cases i) simp
  then have run: "runAll (onceStep jsonOnly) \<lparr>os_control = sampleControl, os_task = JNull\<rparr> [i] = Inr (op_after r)"
    using i(1) by (simp add: onceStep_def)
  then show ?thesis using once_control_monotone [OF run jsonOnly_decoder] by auto
qed

lemma occurrence_again:
  assumes "onceOccurrence c task admission now None = Inr v" "jsonOk (oncePayload c task)"
  shows "onceOccurrence c task admission now (Some v) = Inr v"
  using assms unfolding onceOccurrence_def Let_def by (auto simp: andThen_Inr_iff)

lemma put_again:
  assumes "oncePutTask s raw decode admission now None = Inr (s', Some v)" "jsonDecoder decode"
    "jsonOk (oc_dispatch (os_control s))"
  shows "oncePutTask s raw decode admission now (Some v) = Inr (s', Some v)"
proof -
  from assms(1) obtain task where task: "taskFor (os_control s) raw decode = Inr task"
    and s': "s' = \<lparr>os_control = (os_control s)
       \<lparr>oc_nativeTaskId := Some (strOf (jget ''id'' (jget ''record'' task)))\<rparr>, os_task = task\<rparr>"
    and r: "jtruthy (jget ''lastDelivery'' task)"
    "onceOccurrence (os_control s') task admission now None = Inr v"
    by (rule putTask_ok) auto
  have "jsonOk task" "jget ''id'' (jget ''record'' task) = JStr (strOf (jget ''id'' (jget ''record'' task)))"
    using taskFor_ok [OF task] assms(2) goodIdJ_str by (auto simp: jsonDecoder_def)
  then have "onceOccurrence (os_control s') task admission now (Some v) = Inr v"
    using occurrence_again [OF r(2)] payload_json [of task] r(1) assms(3) s' by simp
  then show ?thesis using assms(1) task r s' unfolding oncePutTask_def Let_def
    by (auto simp: andThen_Inr_iff split: if_split_asm)
qed

lemma prepare_again:
  assumes "prepareNativeOnceMutation decode i = Inr r" "op_occurrence r = Some v" "oi_existingOccurrence i = None"
    "jsonDecoder decode" "jsonOk (oc_dispatch (os_control (oi_before i)))"
  shows "prepareNativeOnceMutation decode (i\<lparr>oi_existingOccurrence := Some v\<rparr>) = Inr r"
proof -
  from assms(1) have a: "onceApply (oi_before i) (ow_mutation (oi_write i)) decode (oi_admission i) (oi_dbNowMs i)
       None = Inr (op_after r, Some v)" by (rule prepare_ok) (use assms(2,3) in simp)
  then have k: "jget ''kind'' (ow_mutation (oi_write i)) = JStr ''put_task''"
    unfolding onceApply_def Let_def by (auto split: if_split_asm)
  then have "onceApply (oi_before i) (ow_mutation (oi_write i)) decode (oi_admission i) (oi_dbNowMs i)
       (Some v) = Inr (op_after r, Some v)"
    using a put_again assms(4,5) by (simp add: onceApply_def Let_def)
  then show ?thesis using assms(1,3) a unfolding prepareNativeOnceMutation_def Let_def by simp
qed

theorem once_occurrence_unique_witness:
  "\<exists>i r v. prepareNativeOnceMutation jsonOnly i = Inr r \<and> op_occurrence r = Some v \<and>
     (\<exists>q. prepareNativeOnceMutation jsonOnly (i\<lparr>oi_existingOccurrence := Some v\<rparr>) = Inr q \<and> op_occurrence q = Some v)"
proof -
  obtain i r v where i: "prepareNativeOnceMutation jsonOnly i = Inr r" "op_occurrence r = Some v"
    "oi_before i = \<lparr>os_control = sampleControl, os_task = JNull\<rparr>" "oi_existingOccurrence i = None"
    using sample_prepare by blast
  have "jsonOk (oc_dispatch sampleControl)" by (simp add: sampleControl_def sampleDispatch_def)
  then obtain q where q: "prepareNativeOnceMutation jsonOnly (i\<lparr>oi_existingOccurrence := Some v\<rparr>) = Inr q"
    "op_occurrence q = Some v"
    using prepare_again [OF i(1,2,4) jsonOnly_decoder] i by auto
  from once_occurrence_unique [OF i(1,2) q] i q show ?thesis by auto
qed

theorem once_pending_only_if_admitted_witness:
  "\<exists>i r v f. prepareNativeOnceMutation jsonOnly i = Inr r \<and> op_occurrence r = Some v \<and>
     ob_state (oo_outbox v) = Outbox_pending \<and> oi_admission i = Some f \<and> af_planStatus f = Plan_enabled"
proof -
  obtain i r v where i: "prepareNativeOnceMutation jsonOnly i = Inr r" "op_occurrence r = Some v"
    "oi_existingOccurrence i = None" "ob_state (oo_outbox v) = Outbox_pending"
    using sample_prepare by blast
  from once_pending_only_if_admitted [OF this] i show ?thesis by blast
qed

theorem once_commit_verifies_witness:
  "\<exists>i r. prepareNativeOnceMutation jsonOnly i = Inr r \<and>
     verifyExactNativeOnceCommit (oi_writer i) (oi_write i)
       (Evidence_found (op_journal r) (op_after r) (os_control (oi_before i)) (ww_reference (oi_writerRow i))
         (op_occurrence r)) = Verdict_committed"
proof -
  obtain i r where i: "prepareNativeOnceMutation jsonOnly i = Inr r"
    "oi_before i = \<lparr>os_control = sampleControl, os_task = JNull\<rparr>" "oi_existingOccurrence i = None"
    "ow_mutation (oi_write i) = sampleMutation" using sample_prepare by blast
  have "jsonOk sampleMutation" "jsonOk (oc_dispatch sampleControl)"
    by (simp_all add: sampleMutation_def sampleOnceTask_def sampleControl_def sampleDispatch_def)
  then have "verifyExactNativeOnceCommit (oi_writer i) (oi_write i)
       (Evidence_found (op_journal r) (op_after r) (os_control (oi_before i)) (ww_reference (oi_writerRow i))
         (op_occurrence r)) = Verdict_committed"
    using once_commit_verifies [OF i(1) jsonOnly_decoder] i by simp
  then show ?thesis using i(1) by blast
qed

end
