(* ===== verification/RecurringState.thy ===== *)
theory RecurringState
  imports OnceState Identity
begin

text \<open>
  packages/database/src/native-schedule-recurring-state.ts and the rule schema of
  packages/contracts/src/recurring-schedule.ts: the control row of a recurring schedule, the
  validation of the native task, and the mutations a fenced writer may apply, which turn newly
  recorded deliveries into occurrences.  A control and a revision are typed records with the
  schema as a predicate; native tasks, receipts and mutations are JavaScript values.
  \<open>decode\<close> (the native task schema) and \<open>zone\<close> (the canonical name
  \<open>Intl.DateTimeFormat\<close> resolves a time zone to, None where it throws) are parameters.
\<close>

section \<open>Rules\<close>

datatype RecurringRule =
    RuleEvery int
  | RuleDaily string string
  | RuleWeekly string string "int list"

text \<open>The pattern \<open>^(?:[01]\d|2[0-3]):[0-5]\d:[0-5]\d$\<close>.\<close>

definition clockTime :: "string \<Rightarrow> bool" where
  "clockTime s \<longleftrightarrow> length s = 8 \<and> s ! 2 = CHR '':'' \<and> s ! 5 = CHR '':'' \<and>
     (s ! 0 \<in> set ''01'' \<and> isDigitChar (s ! 1) \<or> s ! 0 = CHR ''2'' \<and> s ! 1 \<in> set ''0123'') \<and>
     s ! 3 \<in> set ''012345'' \<and> isDigitChar (s ! 4) \<and> s ! 6 \<in> set ''012345'' \<and> isDigitChar (s ! 7)"

definition timezoneOk :: "(string \<Rightarrow> string option) \<Rightarrow> string \<Rightarrow> bool" where
  "timezoneOk zone s \<longleftrightarrow> lenIn 1 64 s \<and> zone s \<noteq> None"

fun validRule :: "(string \<Rightarrow> string option) \<Rightarrow> RecurringRule \<Rightarrow> bool" where
  "validRule zone (RuleEvery seconds) = (60 \<le> seconds \<and> seconds \<le> 31536000)"
| "validRule zone (RuleDaily t tz) = (clockTime t \<and> timezoneOk zone tz)"
| "validRule zone (RuleWeekly t tz days) = (clockTime t \<and> timezoneOk zone tz \<and>
     list_all (\<lambda>d. 1 \<le> d \<and> d \<le> 7) days \<and> 1 \<le> length days \<and> length days \<le> 7 \<and> successively (\<lambda>a b. a < b) days)"

fun ruleKind :: "RecurringRule \<Rightarrow> string" where
  "ruleKind (RuleEvery _) = ''every''"
| "ruleKind (RuleDaily _ _) = ''daily''"
| "ruleKind (RuleWeekly _ _ _) = ''weekly''"

fun ruleJson :: "RecurringRule \<Rightarrow> jsval" where
  "ruleJson (RuleEvery seconds) = JObj [(''kind'', JStr ''every''), (''seconds'', JNum seconds)]"
| "ruleJson (RuleDaily t tz) = JObj [(''kind'', JStr ''daily''), (''time'', JStr t), (''timezone'', JStr tz)]"
| "ruleJson (RuleWeekly t tz days) = JObj [(''kind'', JStr ''weekly''), (''time'', JStr t), (''timezone'', JStr tz),
     (''weekdays'', JArr (map JNum days))]"

section \<open>Control and revisions\<close>

datatype RecurringCommandKind = RCommand_create | RCommand_update | RCommand_delete

datatype RecurringDispatch = DispatchChat string string string | DispatchQuality

record NativeRecurringControl =
  rc_partitionId :: string
  rc_controlId :: string
  rc_organizationId :: string
  rc_workspaceId :: string
  rc_ownerId :: string
  rc_automationId :: string
  rc_revision :: int
  rc_controlSessionId :: string
  rc_rule :: RecurringRule
  rc_appliedRevision :: "int option"
  rc_appliedRule :: "RecurringRule option"
  rc_sessionState :: OnceSession
  rc_nativeTaskId :: "string option"
  rc_taskDeleted :: bool
  rc_commandId :: string
  rc_commandKind :: RecurringCommandKind
  rc_commandStatus :: OnceCommandStatus
  rc_dispatch :: RecurringDispatch

fun validDispatch :: "platform \<Rightarrow> RecurringDispatch \<Rightarrow> bool" where
  "validDispatch P (DispatchChat a i s) = (zUuid P a \<and> zUuid P i \<and> zUuid P s)"
| "validDispatch P DispatchQuality = True"

definition validRecurringControl :: "platform \<Rightarrow> (string \<Rightarrow> string option) \<Rightarrow> NativeRecurringControl \<Rightarrow> bool" where
  "validRecurringControl P zone c \<longleftrightarrow>
     lenIn 1 512 (rc_partitionId c) \<and> zUuid P (rc_controlId c) \<and> zUuid P (rc_organizationId c) \<and>
     zUuid P (rc_workspaceId c) \<and> zUuid P (rc_ownerId c) \<and> zUuid P (rc_automationId c) \<and> zPositive (rc_revision c) \<and>
     lenIn 1 512 (rc_controlSessionId c) \<and> validRule zone (rc_rule c) \<and> optAll zPositive (rc_appliedRevision c) \<and>
     optAll (validRule zone) (rc_appliedRule c) \<and> optAll (lenIn 1 512) (rc_nativeTaskId c) \<and>
     zUuid P (rc_commandId c) \<and> validDispatch P (rc_dispatch c) \<and>
     \<not> ((rc_appliedRevision c = None) \<noteq> (rc_appliedRule c = None) \<or>
        (case rc_appliedRevision c of None \<Rightarrow> False | Some a \<Rightarrow> rc_revision c < a) \<or>
        (rc_nativeTaskId c \<noteq> None \<and> (rc_sessionState c \<noteq> Session_ready \<or> rc_appliedRevision c = None)))"

fun recurringCommandKindStr :: "RecurringCommandKind \<Rightarrow> string" where
  "recurringCommandKindStr RCommand_create = ''create''"
| "recurringCommandKindStr RCommand_update = ''update''"
| "recurringCommandKindStr RCommand_delete = ''delete''"

fun dispatchJson :: "RecurringDispatch \<Rightarrow> jsval" where
  "dispatchJson (DispatchChat a i s) = JObj [(''employeeAssignmentId'', JStr a), (''employeeInstanceId'', JStr i),
     (''businessSessionId'', JStr s)]"
| "dispatchJson DispatchQuality = JObj [(''consumer'', JStr ''platform-quality-v1'')]"

definition recurringControlJson :: "NativeRecurringControl \<Rightarrow> jsval" where
  "recurringControlJson c = JObj [(''kind'', JStr ''recurring''), (''partitionId'', JStr (rc_partitionId c)),
     (''controlId'', JStr (rc_controlId c)), (''organizationId'', JStr (rc_organizationId c)),
     (''workspaceId'', JStr (rc_workspaceId c)), (''ownerId'', JStr (rc_ownerId c)),
     (''automationId'', JStr (rc_automationId c)), (''revision'', JNum (rc_revision c)),
     (''controlSessionId'', JStr (rc_controlSessionId c)), (''rule'', ruleJson (rc_rule c)),
     (''appliedRevision'', jOpt JNum (rc_appliedRevision c)), (''appliedRule'', jOpt ruleJson (rc_appliedRule c)),
     (''sessionState'', JStr (onceSessionStr (rc_sessionState c))),
     (''nativeTaskId'', jOpt JStr (rc_nativeTaskId c)), (''taskDeleted'', JBool (rc_taskDeleted c)),
     (''command'', JObj [(''id'', JStr (rc_commandId c)),
        (''kind'', JStr (recurringCommandKindStr (rc_commandKind c))),
        (''status'', JStr (onceCommandStatusStr (rc_commandStatus c)))]),
     (''dispatch'', dispatchJson (rc_dispatch c))]"

definition recurringControlIdentity :: "NativeRecurringControl \<Rightarrow> jsval" where
  "recurringControlIdentity c = JObj [(''partitionId'', JStr (rc_partitionId c)),
     (''controlId'', JStr (rc_controlId c)), (''organizationId'', JStr (rc_organizationId c)),
     (''workspaceId'', JStr (rc_workspaceId c)), (''ownerId'', JStr (rc_ownerId c)),
     (''automationId'', JStr (rc_automationId c)), (''controlSessionId'', JStr (rc_controlSessionId c)),
     (''dispatch'', dispatchJson (rc_dispatch c))]"

text \<open>\<open>rv_quality\<close> is the extension of a platform-quality revision: its configuration digest and
  the legacy schedule time.\<close>

record NativeRecurringRevision =
  rv_revision :: int
  rv_name :: string
  rv_prompt :: string
  rv_rule :: RecurringRule
  rv_reservationDigest :: string
  rv_acceptedAt :: string
  rv_quality :: "(string \<times> string option) option"

definition validRecurringRevision :: "(string \<Rightarrow> string option) \<Rightarrow> NativeRecurringRevision \<Rightarrow> bool" where
  "validRecurringRevision zone v \<longleftrightarrow> zPositive (rv_revision v) \<and> lenIn 1 160 (rv_name v) \<and>
     lenIn 1 40000 (rv_prompt v) \<and> validRule zone (rv_rule v) \<and> checksumOk (rv_reservationDigest v) \<and>
     isoExact (rv_acceptedAt v) \<and>
     optAll (\<lambda>(digest, legacy). checksumOk digest \<and> optAll isoExact legacy) (rv_quality v)"

section \<open>Tasks and receipts\<close>

definition recurringRecordMatches :: "(string \<Rightarrow> string option) \<Rightarrow> jsval \<Rightarrow> RecurringRule \<Rightarrow> bool" where
  "recurringRecordMatches zone record rule =
     (if jget ''kind'' record \<noteq> JStr (ruleKind rule) then False
      else
        let wall = (\<lambda>t tz. case jget ''timeZone'' record of
              JStr z \<Rightarrow> jget ''time'' record = JStr (t @ ''.000'') \<and> zone z \<noteq> None \<and> zone z = zone tz
            | _ \<Rightarrow> False)
        in case rule of
             RuleEvery seconds \<Rightarrow> jget ''everySeconds'' record = JNum seconds
           | RuleDaily t tz \<Rightarrow> wall t tz
           | RuleWeekly t tz days \<Rightarrow> jget ''weekdays'' record = JArr (map JNum days) \<and> wall t tz)"

definition receiptKey :: "jsval \<Rightarrow> string" where
  "receiptKey r = stringify (JArr [jget ''scheduledAt'' r, jget ''deliveredAt'' r, jget ''messageId'' r])"

definition receipts :: "jsval \<Rightarrow> jsval list" where
  "receipts task = (case jget ''records'' (jget ''deliveryHistory'' task) of
     JArr rs \<Rightarrow> rs
   | _ \<Rightarrow> if jtruthy (jget ''lastDelivery'' task) then [jget ''lastDelivery'' task] else [])"

definition stableUuid :: "string list \<Rightarrow> string" where
  "stableUuid parts = (let hex = sha256hex (stringify (jStrs parts)); part = (\<lambda>a b. take (b - a) (drop a hex)) in
     part 0 8 @ ''-'' @ part 8 12 @ ''-5'' @ part 13 16 @ ''-8'' @ part 17 20 @ ''-'' @ part 20 32)"

definition receiptOk :: "jsval \<Rightarrow> bool" where
  "receiptOk r \<longleftrightarrow> isoExactJ (jget ''scheduledAt'' r) \<and> isoExactJ (jget ''deliveredAt'' r) \<and>
     goodIdJ (jget ''messageId'' r) \<and>
     (jget ''prompt'' r = JUndefined \<or> jget ''prompt'' r = JStr oncePrompt)"

definition receiptTailOk :: "jsval \<Rightarrow> jsval list \<Rightarrow> bool" where
  "receiptTailOk lastDelivery history =
     (if jtruthy lastDelivery then history \<noteq> [] \<and>
        (let l = last history in jget ''scheduledAt'' lastDelivery = jget ''scheduledAt'' l \<and>
           jget ''deliveredAt'' lastDelivery = jget ''deliveredAt'' l \<and>
           jget ''messageId'' lastDelivery = jget ''messageId'' l)
      else history = [])"

abbreviation rneed :: "bool \<Rightarrow> string \<Rightarrow> unit result" where
  "rneed b code \<equiv> need b (NativeRecurringStateError code)"

definition validateRecurringTask ::
  "(string \<Rightarrow> string option) \<Rightarrow> NativeRecurringControl \<Rightarrow> jsval \<Rightarrow> (jsval \<Rightarrow> jsval result) \<Rightarrow> jsval result" where
  "validateRecurringTask zone c raw decode = andThen (decode raw) (\<lambda>task.
     andThen (nativeOnceDigest task) (\<lambda>_.
     let rec = jget ''record'' task; history = receipts task in
     andThen (rneed (jeq task raw \<and> jget ''sessionId'' task = JStr (rc_controlSessionId c) \<and>
       jget ''title'' rec = JStr onceTitle \<and> jget ''prompt'' rec = JStr oncePrompt \<and>
       jget ''kind'' rec \<in> {JStr ''every'', JStr ''daily'', JStr ''weekly''} \<and>
       jget ''status'' task = JStr ''active'' \<and> isoExactJ (jget ''scheduledAt'' rec) \<and>
       rc_sessionState c = Session_ready \<and> \<not> rc_taskDeleted c) ''task_invalid'') (\<lambda>_.
     andThen (rneed (jOpt JStr (rc_nativeTaskId c) = jget ''id'' rec \<or>
       (rc_nativeTaskId c = None \<and> rc_commandKind c = RCommand_create \<and> rc_commandStatus c = Command_pending))
       ''task_binding'') (\<lambda>_.
     andThen (rneed ((case rc_appliedRule c of None \<Rightarrow> False | Some r \<Rightarrow> recurringRecordMatches zone rec r) \<or>
       (rc_commandStatus c = Command_pending \<and> rc_commandKind c \<in> {RCommand_create, RCommand_update} \<and>
        recurringRecordMatches zone rec (rc_rule c))) ''task_rule'') (\<lambda>_.
     andThen (rneed (length history \<le> 200 \<and> distinct (map receiptKey history)) ''receipt_history'') (\<lambda>_.
     andThen (rneed (list_all receiptOk history) ''receipt_invalid'') (\<lambda>_.
     andThen (rneed (receiptTailOk (jget ''lastDelivery'' task) history) ''receipt_tail'') (\<lambda>_.
     Inr task))))))))"


section \<open>Occurrences\<close>

datatype RecurringOccurrenceState = Occurrence_pending | Occurrence_blocked

record NativeRecurringOccurrence =
  ro_id :: string
  ro_key :: string
  ro_clientMessageId :: string
  ro_payload :: jsval
  ro_payloadDigest :: string
  ro_state :: RecurringOccurrenceState
  ro_reason :: "string option"

record NativeRecurringAdmission =
  ra_allowed :: bool
  ra_currentRevision :: int
  ra_status :: OncePlanStatus
  ra_resumeAfter :: "string option"

definition scheduledMs :: "jsval \<Rightarrow> int option" where
  "scheduledMs v = (case jget ''scheduledAt'' v of JStr s \<Rightarrow> dateParse s | _ \<Rightarrow> None)"

definition recurringReason :: "NativeRecurringAdmission option \<Rightarrow> int \<Rightarrow> jsval \<Rightarrow> string option" where
  "recurringReason admission revision receipt = (case admission of
     None \<Rightarrow> Some ''current_authority_changed''
   | Some a \<Rightarrow>
       if \<not> ra_allowed a then Some ''current_authority_changed''
       else if ra_status a \<noteq> Plan_enabled then Some ''paused_or_deleted''
       else if ra_currentRevision a \<noteq> revision then Some ''configuration_changed''
       else if (case ra_resumeAfter a of None \<Rightarrow> False | Some after \<Rightarrow>
            (case (scheduledMs receipt, dateParse after) of (Some s, Some w) \<Rightarrow> s \<le> w | _ \<Rightarrow> False))
         then Some ''before_resume_watermark''
       else None)"

definition recurringPayload :: "NativeRecurringControl \<Rightarrow> NativeRecurringRevision \<Rightarrow> jsval \<Rightarrow> jsval \<Rightarrow> jsval" where
  "recurringPayload c version taskId receipt = JObj [(''control'', recurringControlIdentity c),
     (''revision'', JObj [(''revision'', JNum (rv_revision version)), (''rule'', ruleJson (rv_rule version)),
        (''reservationDigest'', JStr (rv_reservationDigest version)), (''acceptedAt'', JStr (rv_acceptedAt version))]),
     (''nativeTaskId'', taskId), (''receipt'', receipt)]"

definition recurringKey :: "NativeRecurringControl \<Rightarrow> int \<Rightarrow> jsval \<Rightarrow> string result" where
  "recurringKey c revision receipt =
     nativeOnceDigest (JArr [JStr (rc_automationId c), JNum revision, jget ''scheduledAt'' receipt])"

definition recurringOccurrence ::
  "NativeRecurringControl \<Rightarrow> NativeRecurringRevision \<Rightarrow> jsval \<Rightarrow> NativeRecurringAdmission option \<Rightarrow> jsval \<Rightarrow>
     NativeRecurringOccurrence result" where
  "recurringOccurrence c version taskId admission receipt =
     andThen (recurringKey c (rv_revision version) receipt) (\<lambda>key.
     let payload = recurringPayload c version taskId receipt;
         reason = recurringReason admission (rv_revision version) receipt in
     andThen (nativeOnceDigest payload) (\<lambda>digest.
       Inr \<lparr>ro_id = stableUuid [''recurring-occurrence'', key], ro_key = key,
         ro_clientMessageId = stableUuid [''recurring-message'', key], ro_payload = payload,
         ro_payloadDigest = digest, ro_state = (if reason \<noteq> None then Occurrence_blocked else Occurrence_pending),
         ro_reason = reason\<rparr>))"

text \<open>The loop over the added receipts; \<open>floor\<close> and \<open>target\<close> are times in milliseconds.\<close>

fun recurringOccurrences ::
  "NativeRecurringControl \<Rightarrow> NativeRecurringRevision \<Rightarrow> jsval \<Rightarrow> NativeRecurringAdmission option \<Rightarrow> int option \<Rightarrow>
     int option \<Rightarrow> jsval list \<Rightarrow> NativeRecurringOccurrence list result" where
  "recurringOccurrences c version taskId admission floor target [] = Inr []"
| "recurringOccurrences c version taskId admission floor target (receipt # rest) =
     (case (scheduledMs receipt, floor, target) of
        (Some at, Some f, Some limit) \<Rightarrow>
          if f \<le> at \<and> at < limit then
            andThen (recurringOccurrence c version taskId admission receipt) (\<lambda>occ.
            andThen (recurringOccurrences c version taskId admission (Some (at + 1)) target rest) (\<lambda>occs.
              Inr (occ # occs)))
          else Inl (NativeRecurringStateError ''receipt_target_rewind'')
      | _ \<Rightarrow> Inl (NativeRecurringStateError ''receipt_target_rewind''))"

section \<open>Preparing a mutation\<close>

record NativeRecurringSnapshot =
  rs_control :: NativeRecurringControl
  rs_task :: jsval

definition recurringSnapshotJson :: "NativeRecurringSnapshot \<Rightarrow> jsval" where
  "recurringSnapshotJson s = JObj [(''control'', recurringControlJson (rs_control s)), (''task'', rs_task s)]"

definition receiptsAppend :: "jsval list \<Rightarrow> jsval list \<Rightarrow> jsval \<Rightarrow> (jsval list) result" where
  "receiptsAppend prior next task =
     (let old = map_of (map (\<lambda>r. (receiptKey r, r)) prior);
          known = (\<lambda>r. old (receiptKey r) \<noteq> None);
          added = filter (\<lambda>r. \<not> known r) next;
          retained = filter known next in
      andThen (rneed (list_all (\<lambda>r. case old (receiptKey r) of None \<Rightarrow> True | Some p \<Rightarrow> jeq p r) next)
        ''receipt_rewritten'') (\<lambda>_.
      andThen (rneed (jeqArr retained (drop (length prior - length retained) prior)) ''receipt_prefix_changed'') (\<lambda>_.
      andThen (rneed (length retained = length prior \<or>
        jget ''earlierRecordsPruned'' (jget ''deliveryHistory'' task) = JBool True) ''unproved_history_pruning'') (\<lambda>_.
      andThen (rneed (jeqArr next (retained @ added)) ''receipt_append_order'') (\<lambda>_.
      Inr added)))))"

definition recurringDeliveries ::
  "(string \<Rightarrow> string option) \<Rightarrow> NativeRecurringControl \<Rightarrow> (int \<rightharpoonup> NativeRecurringRevision) \<Rightarrow>
     NativeRecurringAdmission option \<Rightarrow> jsval option \<Rightarrow> jsval \<Rightarrow> jsval list \<Rightarrow> NativeRecurringOccurrence list result" where
  "recurringDeliveries zone c revisions admission before task added =
     (if added = [] then Inr []
      else case (before, rc_appliedRule c, rc_appliedRevision c) of
          (Some b, Some appliedRule, Some appliedRevision) \<Rightarrow>
            andThen (rneed (recurringRecordMatches zone (jget ''record'' task) appliedRule) ''receipt_rule_changed'') (\<lambda>_.
            (case revisions appliedRevision of
               None \<Rightarrow> Inl (NativeRecurringStateError ''applied_revision_missing'')
             | Some version \<Rightarrow>
                 andThen (rneed (rv_rule version = appliedRule) ''applied_revision_missing'') (\<lambda>_.
                 recurringOccurrences c version (jget ''id'' (jget ''record'' task)) admission
                   (scheduledMs (jget ''record'' b)) (scheduledMs (jget ''record'' task)) added)))
        | _ \<Rightarrow> Inl (NativeRecurringStateError ''receipt_rule_changed''))"

text \<open>The end of the case: an update of the applied rule, or an unchanged target unless delivered.\<close>

definition recurringSettle ::
  "(string \<Rightarrow> string option) \<Rightarrow> NativeRecurringControl \<Rightarrow> jsval option \<Rightarrow> jsval \<Rightarrow> jsval list \<Rightarrow>
     NativeRecurringSnapshot result" where
  "recurringSettle zone c before task added =
     (let rec = jget ''record'' task; bound = c\<lparr>rc_nativeTaskId := Some (strOf (jget ''id'' rec))\<rparr> in
      if (case before of None \<Rightarrow> True | Some b \<Rightarrow>
          rc_commandKind c = RCommand_update \<and> rc_commandStatus c = Command_pending \<and>
          recurringRecordMatches zone rec (rc_rule c) \<and>
          \<not> recurringRecordMatches zone (jget ''record'' b) (rc_rule c))
      then andThen (rneed (added = []) ''update_mixed_with_delivery'') (\<lambda>_.
        Inr \<lparr>rs_control = bound\<lparr>rc_appliedRule := Some (rc_rule c), rc_appliedRevision := Some (rc_revision c)\<rparr>,
          rs_task = task\<rparr>)
      else andThen (rneed (added \<noteq> [] \<or> (case before of None \<Rightarrow> True | Some b \<Rightarrow>
            jget ''scheduledAt'' rec = jget ''scheduledAt'' (jget ''record'' b))) ''unproved_target_change'') (\<lambda>_.
        Inr \<lparr>rs_control = bound, rs_task = task\<rparr>))"

definition recurringPutTask ::
  "(string \<Rightarrow> string option) \<Rightarrow> (jsval \<Rightarrow> jsval result) \<Rightarrow> NativeRecurringSnapshot \<Rightarrow> jsval \<Rightarrow>
     (int \<rightharpoonup> NativeRecurringRevision) \<Rightarrow> NativeRecurringAdmission option \<Rightarrow>
     (NativeRecurringSnapshot \<times> NativeRecurringOccurrence list) result" where
  "recurringPutTask zone decode snapshot raw revisions admission = (let c = rs_control snapshot in
     andThen (validateRecurringTask zone c raw decode) (\<lambda>task.
     andThen (if rs_task snapshot = JNull then Inr None
        else andThen (validateRecurringTask zone c (rs_task snapshot) decode) (\<lambda>b. Inr (Some b))) (\<lambda>before.
     andThen (receiptsAppend (case before of None \<Rightarrow> [] | Some b \<Rightarrow> receipts b) (receipts task) task) (\<lambda>added.
     andThen (rneed (before \<noteq> None \<or> (added = [] \<and> rc_appliedRevision c = None)) ''initial_receipt_fabricated'') (\<lambda>_.
     andThen (recurringDeliveries zone c revisions admission before task added) (\<lambda>occurrences.
     andThen (recurringSettle zone c before task added) (\<lambda>after.
       Inr (after, occurrences))))))))"

definition recurringApply ::
  "(string \<Rightarrow> string option) \<Rightarrow> (jsval \<Rightarrow> jsval result) \<Rightarrow> NativeRecurringSnapshot \<Rightarrow> jsval \<Rightarrow>
     (int \<rightharpoonup> NativeRecurringRevision) \<Rightarrow> NativeRecurringAdmission option \<Rightarrow>
     (NativeRecurringSnapshot \<times> NativeRecurringOccurrence list) result" where
  "recurringApply zone decode snapshot m revisions admission =
     (let c = rs_control snapshot; kind = jget ''kind'' m;
          keep = (\<lambda>c'. Inr (snapshot\<lparr>rs_control := c'\<rparr>, [])) in
      if kind = JStr ''session_initializing'' then
        andThen (rneed (rc_sessionState c \<in> {Session_reserved, Session_initializing}) ''session_transition'') (\<lambda>_.
          keep (c\<lparr>rc_sessionState := Session_initializing\<rparr>))
      else if kind = JStr ''session_ready'' then
        andThen (rneed (rc_sessionState c \<in> {Session_initializing, Session_ready}) ''session_transition'') (\<lambda>_.
          keep (c\<lparr>rc_sessionState := Session_ready\<rparr>))
      else if kind = JStr ''put_task'' then
        recurringPutTask zone decode snapshot (jget ''task'' m) revisions admission
      else if kind = JStr ''delete_task'' then
        andThen (rneed (rc_commandKind c = RCommand_delete \<and> rc_commandStatus c = Command_pending \<and>
          jOpt JStr (rc_nativeTaskId c) = jget ''nativeTaskId'' m) ''delete_binding'') (\<lambda>_.
          Inr (\<lparr>rs_control = c\<lparr>rc_taskDeleted := True\<rparr>, rs_task = JNull\<rparr>, []))
      else if kind = JStr ''confirm_command'' then
        andThen (rneed (JStr (rc_commandId c) = jget ''commandId'' m \<and> rc_commandStatus c = Command_pending \<and>
          jOpt JStr (rc_nativeTaskId c) = jget ''nativeTaskId'' m) ''command_binding'') (\<lambda>_.
          if rc_commandKind c = RCommand_delete then
            andThen (rneed (rc_nativeTaskId c = None \<or> rc_taskDeleted c) ''delete_not_persisted'') (\<lambda>_.
              keep (c\<lparr>rc_commandStatus := Command_confirmed\<rparr>))
          else
            andThen (rneed (rs_task snapshot \<noteq> JNull) ''command_not_persisted'') (\<lambda>_.
            andThen (validateRecurringTask zone c (rs_task snapshot) decode) (\<lambda>task.
            andThen (rneed (recurringRecordMatches zone (jget ''record'' task) (rc_rule c)) ''command_not_persisted'') (\<lambda>_.
              keep (c\<lparr>rc_appliedRevision := Some (rc_revision c), rc_appliedRule := Some (rc_rule c),
                rc_commandStatus := Command_confirmed\<rparr>)))))
      else Inl (NativeRecurringStateError ''mutation_invalid''))"

record NativeRecurringInput =
  ri_readiness :: NativeOnceReadiness
  ri_reference :: NativeOnceReference
  ri_writerRow :: NativeOnceWriterRow
  ri_writer :: NativeOnceWriter
  ri_dbNowMs :: int
  ri_before :: NativeRecurringSnapshot
  ri_write :: NativeOnceWrite
  ri_revisions :: "int \<rightharpoonup> NativeRecurringRevision"
  ri_admission :: "NativeRecurringAdmission option"

record NativeRecurringJournal =
  rj_writer :: NativeOnceFence
  rj_reference :: NativeOnceReference
  rj_write :: NativeOnceWrite
  rj_identity :: jsval
  rj_beforeDigest :: string
  rj_afterDigest :: string
  rj_receiptLinks :: "(string \<times> string \<times> string) list"

record NativeRecurringPrepared =
  rp_after :: NativeRecurringSnapshot
  rp_occurrences :: "NativeRecurringOccurrence list"
  rp_journal :: NativeRecurringJournal

definition recurringFence ::
  "NativeRecurringInput \<Rightarrow> unit result" where
  "recurringFence input =
     (if \<not> nativeOnceReady (Some (ri_readiness input)) then Inl (NativeRecurringStateError ''writer_fence'')
      else andThen (nativeOnceWriterRemaining (ri_writerRow input) (ri_writer input) (ri_dbNowMs input)) (\<lambda>remaining.
        rneed (0 < remaining \<and> ww_reference (ri_writerRow input) = ri_reference input) ''writer_fence''))"

definition recurringWriteOk :: "NativeRecurringInput \<Rightarrow> unit result" where
  "recurringWriteOk input =
     (let c = rs_control (ri_before input); w = ri_write input in
      if rc_partitionId c \<noteq> wr_partitionId (ri_writer input) \<or> \<not> lenIn 1 512 (ow_writeId w) \<or>
         jget ''controlId'' (ow_mutation w) \<noteq> JStr (rc_controlId c)
      then Inl (NativeRecurringStateError ''write_invalid'')
      else andThen (nativeOnceDigest (ow_mutation w)) (\<lambda>d. rneed (ow_digest w = d) ''write_invalid''))"

definition recurringDesired ::
  "(string \<Rightarrow> string option) \<Rightarrow> (int \<rightharpoonup> NativeRecurringRevision) \<Rightarrow> NativeRecurringControl \<Rightarrow> unit result" where
  "recurringDesired zone revisions c = (case revisions (rc_revision c) of
     None \<Rightarrow> Inl (NativeRecurringStateError ''revision_missing'')
   | Some desired \<Rightarrow>
       if \<not> validRecurringRevision zone desired then Inl ZodError
       else rneed (rv_rule desired = rc_rule c) ''revision_missing'')"

definition prepareNativeRecurringMutation ::
  "platform \<Rightarrow> (string \<Rightarrow> string option) \<Rightarrow> (jsval \<Rightarrow> jsval result) \<Rightarrow> NativeRecurringInput \<Rightarrow>
     NativeRecurringPrepared result" where
  "prepareNativeRecurringMutation P zone decodeTask input =
     (let before = ri_before input; c = rs_control before; writer = ri_writer input in
      andThen (recurringFence input) (\<lambda>_.
      andThen (need (validRecurringControl P zone c) ZodError) (\<lambda>_.
      andThen (recurringWriteOk input) (\<lambda>_.
      andThen (nativeOnceDigest (recurringSnapshotJson before)) (\<lambda>beforeDigest.
      andThen (recurringDesired zone (ri_revisions input) c) (\<lambda>_.
      andThen (recurringApply zone decodeTask before (ow_mutation (ri_write input)) (ri_revisions input)
        (ri_admission input)) (\<lambda>(after, occurrences).
      andThen (need (validRecurringControl P zone (rs_control after)) ZodError) (\<lambda>_.
      andThen (nativeOnceDigest (recurringSnapshotJson after)) (\<lambda>afterDigest.
      andThen (nativeOnceDigest (JStr (wr_token writer))) (\<lambda>tokenDigest.
        Inr \<lparr>rp_after = after, rp_occurrences = occurrences,
          rp_journal = \<lparr>rj_writer = \<lparr>fe_partitionId = wr_partitionId writer, fe_ownerId = wr_ownerId writer,
              fe_epoch = wr_epoch writer, fe_tokenDigest = tokenDigest\<rparr>,
            rj_reference = ri_reference input, rj_write = ri_write input, rj_identity = recurringControlIdentity c,
            rj_beforeDigest = beforeDigest, rj_afterDigest = afterDigest,
            rj_receiptLinks = map (\<lambda>r. (ro_id r, ro_key r, ro_payloadDigest r)) occurrences\<rparr>\<rparr>))))))))))"


section \<open>What an accepted mutation does\<close>

lemma jeq_jget: "jeq v w \<Longrightarrow> jget k v \<noteq> JUndefined \<Longrightarrow> jeq (jget k v) (jget k w)"
proof (cases v)
  case (JObj a)
  assume e: "jeq v w" and k: "jget k v \<noteq> JUndefined"
  then obtain b where w: "w = JObj b" using JObj by (cases w) auto
  from k obtain x where x: "map_of a k = Some x" using JObj by (auto split: option.splits)
  then have "(k, x) \<in> set a" by (rule map_of_SomeD)
  then obtain y where "map_of b k = Some y" "jeq x y" using e JObj w by (auto simp: jeqObj_iff)
  then show ?thesis using JObj w x by simp
qed auto

lemma jeq_JStr: "jeq (JStr s) w \<longleftrightarrow> w = JStr s"
  by (cases w) auto

lemma jeq_scheduled:
  assumes "jeq v w" "jget ''scheduledAt'' (jget ''record'' v) = JStr s"
  shows "jget ''scheduledAt'' (jget ''record'' w) = JStr s"
proof -
  have "jget ''record'' v \<noteq> JUndefined" using assms(2) by auto
  then have "jeq (jget ''record'' v) (jget ''record'' w)" using assms(1) by (rule jeq_jget [rotated])
  then show ?thesis using jeq_jget [of "jget ''record'' v" "jget ''record'' w" "''scheduledAt''"] assms(2)
    by (simp add: jeq_JStr)
qed

lemma validate_ok:
  assumes "validateRecurringTask zone c raw decode = Inr task"
  shows "decode raw = Inr task \<and> jeq task raw \<and> isoExactJ (jget ''scheduledAt'' (jget ''record'' task)) \<and>
    \<not> rc_taskDeleted c \<and> rc_sessionState c = Session_ready \<and>
    (jOpt JStr (rc_nativeTaskId c) = jget ''id'' (jget ''record'' task) \<or> rc_nativeTaskId c = None) \<and>
    ((\<exists>r. rc_appliedRule c = Some r \<and> recurringRecordMatches zone (jget ''record'' task) r) \<or>
       recurringRecordMatches zone (jget ''record'' task) (rc_rule c)) \<and>
    distinct (map receiptKey (receipts task)) \<and> list_all receiptOk (receipts task)"
  using assms unfolding validateRecurringTask_def Let_def
  by (auto simp: andThen_Inr_iff split: option.splits)

lemma scheduledMs_iso:
  assumes "isoExactJ (jget ''scheduledAt'' v)"
  obtains s t where "jget ''scheduledAt'' v = JStr s" "scheduledMs v = Some t"
  using assms by (auto simp: isoExactJ_def isoExact_def scheduledMs_def split: jsval.splits option.splits)

lemma occurrences_ok:
  assumes "recurringOccurrences c version taskId admission floor target added = Inr occs" "added \<noteq> []"
  shows "\<exists>f limit ts. floor = Some f \<and> target = Some limit \<and> map scheduledMs added = map Some ts \<and>
    sorted_wrt (<) ts \<and> (\<forall>t \<in> set ts. f \<le> t \<and> t < limit) \<and>
    list_all2 (\<lambda>r occ. recurringOccurrence c version taskId admission r = Inr occ) added occs"
  using assms
proof (induction added arbitrary: floor occs)
  case (Cons r rest)
  from Cons.prems(1) obtain at f limit occ occs' where s: "scheduledMs r = Some at" "floor = Some f" "target = Some limit"
    "f \<le> at" "at < limit" "recurringOccurrence c version taskId admission r = Inr occ"
    "recurringOccurrences c version taskId admission (Some (at + 1)) target rest = Inr occs'" "occs = occ # occs'"
    by (auto simp: andThen_Inr_iff split: option.splits if_splits)
  show ?case
  proof (cases "rest = []")
    case True
    then show ?thesis using s by (intro exI [of _ f] exI [of _ limit] exI [of _ "[at]"]) auto
  next
    case False
    from Cons.IH [OF s(7) False] obtain ts where "map scheduledMs rest = map Some ts" "sorted_wrt (<) ts"
      "\<forall>t \<in> set ts. at + 1 \<le> t \<and> t < limit"
      "list_all2 (\<lambda>r occ. recurringOccurrence c version taskId admission r = Inr occ) rest occs'"
      using s(3) by auto
    then show ?thesis using s by (intro exI [of _ f] exI [of _ limit] exI [of _ "at # ts"]) force
  qed
qed simp

lemma occurrence_ok:
  assumes "recurringOccurrence c version taskId admission r = Inr occ"
  shows "recurringKey c (rv_revision version) r = Inr (ro_key occ) \<and>
    ro_id occ = stableUuid [''recurring-occurrence'', ro_key occ] \<and>
    ro_payload occ = recurringPayload c version taskId r \<and>
    ro_reason occ = recurringReason admission (rv_revision version) r \<and>
    ro_state occ = (if ro_reason occ = None then Occurrence_pending else Occurrence_blocked)"
  using assms by (auto simp: recurringOccurrence_def Let_def andThen_Inr_iff)

lemma append_ok:
  assumes "receiptsAppend prior next task = Inr added"
  shows "\<exists>retained. retained = filter (\<lambda>r. receiptKey r \<in> receiptKey ` set prior) next \<and>
    added = filter (\<lambda>r. receiptKey r \<notin> receiptKey ` set prior) next \<and>
    jeqArr retained (drop (length prior - length retained) prior) \<and> jeqArr next (retained @ added) \<and>
    (length retained = length prior \<or>
       jget ''earlierRecordsPruned'' (jget ''deliveryHistory'' task) = JBool True)"
proof -
  have known: "(\<exists>y. map_of (map (\<lambda>r. (receiptKey r, r)) prior) (receiptKey r) = Some y) \<longleftrightarrow>
      receiptKey r \<in> receiptKey ` set prior" for r
    using map_of_eq_None_iff [of "map (\<lambda>r. (receiptKey r, r)) prior" "receiptKey r"]
    by (auto simp: image_image)
  show ?thesis using assms unfolding receiptsAppend_def Let_def
    by (simp add: andThen_Inr_iff known) auto
qed


lemma recurringPut_ok:
  assumes "recurringPutTask zone decode s raw revisions admission = Inr (s', occs)"
  obtains task before added where
    "validateRecurringTask zone (rs_control s) raw decode = Inr task"
    "rs_task s = JNull \<longrightarrow> before = None"
    "rs_task s \<noteq> JNull \<longrightarrow> (\<exists>b. before = Some b \<and> validateRecurringTask zone (rs_control s) (rs_task s) decode = Inr b)"
    "receiptsAppend (case before of None \<Rightarrow> [] | Some b \<Rightarrow> receipts b) (receipts task) task = Inr added"
    "before = None \<longrightarrow> added = [] \<and> rc_appliedRevision (rs_control s) = None"
    "recurringDeliveries zone (rs_control s) revisions admission before task added = Inr occs"
    "recurringSettle zone (rs_control s) before task added = Inr s'"
proof -
  let ?c = "rs_control s"
  from assms obtain task before added where a: "validateRecurringTask zone ?c raw decode = Inr task"
    "(if rs_task s = JNull then Inr None
      else andThen (validateRecurringTask zone ?c (rs_task s) decode) (\<lambda>b. Inr (Some b))) = Inr before"
    "receiptsAppend (case before of None \<Rightarrow> [] | Some b \<Rightarrow> receipts b) (receipts task) task = Inr added"
    "before \<noteq> None \<or> (added = [] \<and> rc_appliedRevision ?c = None)"
    "recurringDeliveries zone ?c revisions admission before task added = Inr occs"
    "recurringSettle zone ?c before task added = Inr s'"
    unfolding recurringPutTask_def Let_def andThen_Inr_iff need_simps(3) sum.inject prod.inject by blast
  have b: "rs_task s = JNull \<longrightarrow> before = None"
    "rs_task s \<noteq> JNull \<longrightarrow> (\<exists>b. before = Some b \<and> validateRecurringTask zone ?c (rs_task s) decode = Inr b)"
    "before = None \<longrightarrow> added = [] \<and> rc_appliedRevision ?c = None"
    using a(2,4) by (auto simp: andThen_Inr_iff)
  show ?thesis by (rule that [OF a(1) b(1,2) a(3) b(3) a(5,6)])
qed

lemma settle_ok:
  assumes "recurringSettle zone c before task added = Inr s'"
  shows "rs_task s' = task \<and>
    (rs_control s' = c\<lparr>rc_nativeTaskId := Some (strOf (jget ''id'' (jget ''record'' task)))\<rparr> \<or>
     rs_control s' = c\<lparr>rc_nativeTaskId := Some (strOf (jget ''id'' (jget ''record'' task))),
       rc_appliedRule := Some (rc_rule c), rc_appliedRevision := Some (rc_revision c)\<rparr>) \<and>
    (added \<noteq> [] \<longrightarrow> rc_appliedRevision (rs_control s') = rc_appliedRevision c)"
  using assms by (auto simp: recurringSettle_def Let_def split: if_split_asm)

lemma deliveries_ok:
  assumes "recurringDeliveries zone c revisions admission before task added = Inr occs" "added \<noteq> []"
  obtains b a version where "before = Some b" "rc_appliedRevision c = Some a" "revisions a = Some version"
    "recurringOccurrences c version (jget ''id'' (jget ''record'' task)) admission (scheduledMs (jget ''record'' b))
       (scheduledMs (jget ''record'' task)) added = Inr occs"
  using assms by (auto simp: recurringDeliveries_def andThen_Inr_iff split: option.splits)

lemma deliveries_none: "recurringDeliveries zone c revisions admission before task [] = Inr occs \<longleftrightarrow> occs = []"
  by (auto simp: recurringDeliveries_def)

text \<open>What an occurrence stands for: the revision it was produced under and its scheduled time.\<close>

definition occurrenceStamp :: "NativeRecurringOccurrence \<Rightarrow> jsval \<times> int option" where
  "occurrenceStamp occ = (jget ''revision'' (jget ''revision'' (ro_payload occ)), scheduledMs (jget ''receipt'' (ro_payload occ)))"

lemma stamps_of_deliveries:
  assumes "recurringDeliveries zone c revisions admission before task added = Inr occs" "added \<noteq> []"
    "\<And>k v. revisions k = Some v \<Longrightarrow> rv_revision v = k"
  obtains b a lo hi ts where "before = Some b" "rc_appliedRevision c = Some a"
    "scheduledMs (jget ''record'' b) = Some lo" "scheduledMs (jget ''record'' task) = Some hi"
    "map occurrenceStamp occs = map (\<lambda>t. (JNum a, Some t)) ts" "sorted_wrt (<) ts" "\<forall>t \<in> set ts. lo \<le> t \<and> t < hi"
    "ts \<noteq> []"
proof -
  from assms(1,2) obtain b a version where d: "before = Some b" "rc_appliedRevision c = Some a" "revisions a = Some version"
    "recurringOccurrences c version (jget ''id'' (jget ''record'' task)) admission (scheduledMs (jget ''record'' b))
       (scheduledMs (jget ''record'' task)) added = Inr occs"
    by (rule deliveries_ok)
  from occurrences_ok [OF d(4) assms(2)] obtain f limit ts where o: "scheduledMs (jget ''record'' b) = Some f"
    "scheduledMs (jget ''record'' task) = Some limit" "map scheduledMs added = map Some ts" "sorted_wrt (<) ts"
    "\<forall>t \<in> set ts. f \<le> t \<and> t < limit"
    "list_all2 (\<lambda>r occ. recurringOccurrence c version (jget ''id'' (jget ''record'' task)) admission r = Inr occ) added occs"
    by blast
  have "occurrenceStamp occ = (JNum a, scheduledMs r)"
    if "recurringOccurrence c version (jget ''id'' (jget ''record'' task)) admission r = Inr occ" for r occ
    using occurrence_ok [OF that] assms(3) [OF d(3)] by (simp add: occurrenceStamp_def recurringPayload_def)
  then have "list_all2 (\<lambda>r occ. occurrenceStamp occ = (JNum a, scheduledMs r)) added occs"
    using o(6) by (rule list_all2_mono [rotated])
  then have "map occurrenceStamp occs = map (\<lambda>r. (JNum a, scheduledMs r)) added"
    by (induction rule: list_all2_induct) auto
  also have "\<dots> = map (Pair (JNum a)) (map scheduledMs added)" by simp
  also have "\<dots> = map (\<lambda>t. (JNum a, Some t)) ts" using o(3) by simp
  finally have "map occurrenceStamp occs = map (\<lambda>t. (JNum a, Some t)) ts" .
  moreover have "ts \<noteq> []" using o(3) assms(2) by auto
  ultimately show ?thesis using that [OF d(1,2) o(1,2) _ o(4,5)] by blast
qed


lemma recurringPrepare_ok:
  assumes "prepareNativeRecurringMutation P zone decode i = Inr r"
  shows "recurringApply zone decode (ri_before i) (ow_mutation (ri_write i)) (ri_revisions i) (ri_admission i) =
      Inr (rp_after r, rp_occurrences r) \<and> validRecurringControl P zone (rs_control (rp_after r)) \<and>
    validRecurringControl P zone (rs_control (ri_before i)) \<and> recurringFence i = Inr ()"
  using assms unfolding prepareNativeRecurringMutation_def Let_def
  by (auto simp: andThen_Inr_iff split: prod.splits)

section \<open>Whole runs\<close>

text \<open>A run over one set of revisions, with the stamps of all occurrences it produced.\<close>

type_synonym recurringLog = "NativeRecurringSnapshot \<times> (jsval \<times> int option) list"

definition recurringStep ::
  "platform \<Rightarrow> (string \<Rightarrow> string option) \<Rightarrow> (jsval \<Rightarrow> jsval result) \<Rightarrow> (int \<rightharpoonup> NativeRecurringRevision) \<Rightarrow>
     recurringLog \<Rightarrow> NativeRecurringInput \<Rightarrow> recurringLog result" where
  "recurringStep P zone decode revisions st i =
     andThen (prepareNativeRecurringMutation P zone decode (i\<lparr>ri_before := fst st, ri_revisions := revisions\<rparr>)) (\<lambda>r.
       Inr (rp_after r, snd st @ map occurrenceStamp (rp_occurrences r)))"

definition consistentRevisions :: "(int \<rightharpoonup> NativeRecurringRevision) \<Rightarrow> bool" where
  "consistentRevisions revisions \<longleftrightarrow> (\<forall>k v. revisions k = Some v \<longrightarrow> rv_revision v = k)"

definition appliedConsistent :: "NativeRecurringControl \<Rightarrow> bool" where
  "appliedConsistent c \<longleftrightarrow> (rc_appliedRevision c = Some (rc_revision c) \<longrightarrow> rc_appliedRule c = Some (rc_rule c)) \<and>
     (\<forall>a. rc_appliedRevision c = Some a \<longrightarrow> a \<le> rc_revision c)"

definition stampOk :: "NativeRecurringSnapshot \<Rightarrow> jsval \<times> int option \<Rightarrow> bool" where
  "stampOk s x \<longleftrightarrow> (\<exists>\<rho> t a. x = (JNum \<rho>, Some t) \<and> rc_appliedRevision (rs_control s) = Some a \<and> \<rho> \<le> a \<and>
     (\<rho> = a \<longrightarrow> rs_task s = JNull \<or> (\<exists>n. scheduledMs (jget ''record'' (rs_task s)) = Some n \<and> t < n)))"

definition recurringInv :: "(int \<rightharpoonup> NativeRecurringRevision) \<Rightarrow> recurringLog \<Rightarrow> bool" where
  "recurringInv revisions st \<longleftrightarrow> consistentRevisions revisions \<and> appliedConsistent (rs_control (fst st)) \<and>
     distinct (snd st) \<and> (\<forall>x \<in> set (snd st). stampOk (fst st) x)"

definition recurringOlder :: "recurringLog \<Rightarrow> recurringLog \<Rightarrow> bool" where
  "recurringOlder st st' \<longleftrightarrow> (let c = rs_control (fst st); c' = rs_control (fst st') in
     recurringControlIdentity c' = recurringControlIdentity c \<and> rc_revision c' = rc_revision c \<and> rc_rule c' = rc_rule c \<and>
     (rc_taskDeleted c \<longrightarrow> rc_taskDeleted c') \<and> (rc_nativeTaskId c \<noteq> None \<longrightarrow> rc_nativeTaskId c' = rc_nativeTaskId c) \<and>
     (rc_commandStatus c \<noteq> Command_pending \<longrightarrow> rc_commandStatus c' = rc_commandStatus c) \<and>
     (\<exists>new. snd st' = snd st @ new))"

lemma target_of_stored:
  assumes "validateRecurringTask zone c raw decode = Inr task"
  shows "scheduledMs (jget ''record'' raw) = scheduledMs (jget ''record'' task) \<and>
    (\<exists>n. scheduledMs (jget ''record'' task) = Some n)"
proof -
  have v: "jeq task raw" "isoExactJ (jget ''scheduledAt'' (jget ''record'' task))" using validate_ok [OF assms] by auto
  from v(2) obtain x n where "jget ''scheduledAt'' (jget ''record'' task) = JStr x" "scheduledMs (jget ''record'' task) = Some n"
    by (rule scheduledMs_iso)
  then show ?thesis using jeq_scheduled [OF v(1)] by (simp add: scheduledMs_def)
qed

text \<open>Without a delivery, either a newer revision is applied or the target time stays.\<close>

lemma settle_undelivered:
  assumes "validateRecurringTask zone c stored decode = Inr b" "appliedConsistent c"
    "recurringSettle zone c (Some b) task [] = Inr s'"
  shows "rc_appliedRevision (rs_control s') = Some (rc_revision c) \<and>
      (\<forall>a. rc_appliedRevision c = Some a \<longrightarrow> a < rc_revision c) \<or>
    rc_appliedRevision (rs_control s') = rc_appliedRevision c \<and>
      scheduledMs (jget ''record'' task) = scheduledMs (jget ''record'' b)"
proof (cases "recurringRecordMatches zone (jget ''record'' b) (rc_rule c)")
  case True
  then show ?thesis using assms(3) by (auto simp: recurringSettle_def Let_def scheduledMs_def)
next
  case False
  then have "rc_appliedRevision c \<noteq> Some (rc_revision c)"
    using validate_ok [OF assms(1)] assms(2) by (auto simp: appliedConsistent_def)
  then have "\<forall>a. rc_appliedRevision c = Some a \<longrightarrow> a < rc_revision c"
    using assms(2) by (force simp: appliedConsistent_def)
  then show ?thesis using assms(3) by (auto simp: recurringSettle_def Let_def scheduledMs_def split: if_split_asm)
qed

text \<open>The four ways a stored task is replaced.\<close>

lemma put_cases:
  assumes put: "recurringPutTask zone decode s raw revisions admission = Inr (s', occs)"
    and cons: "consistentRevisions revisions" "appliedConsistent (rs_control s)"
  obtains (fresh) "rc_appliedRevision (rs_control s) = None" "occs = []"
  | (update) "occs = []" "rc_appliedRevision (rs_control s') = Some (rc_revision (rs_control s))"
      "\<forall>a. rc_appliedRevision (rs_control s) = Some a \<longrightarrow> a < rc_revision (rs_control s)"
  | (same) "occs = []" "rc_appliedRevision (rs_control s') = rc_appliedRevision (rs_control s)" "rs_task s \<noteq> JNull"
      "scheduledMs (jget ''record'' (rs_task s')) = scheduledMs (jget ''record'' (rs_task s))"
  | (delivered) a lo hi ts where "rc_appliedRevision (rs_control s) = Some a" "rs_task s \<noteq> JNull"
      "rc_appliedRevision (rs_control s') = Some a" "scheduledMs (jget ''record'' (rs_task s)) = Some lo"
      "scheduledMs (jget ''record'' (rs_task s')) = Some hi"
      "map occurrenceStamp occs = map (\<lambda>t. (JNum a, Some t)) ts" "sorted_wrt (<) ts"
      "\<forall>t \<in> set ts. lo \<le> t \<and> t < hi" "ts \<noteq> []"
proof -
  let ?c = "rs_control s"
  from put obtain task before added where "validateRecurringTask zone ?c raw decode = Inr task"
    and b: "rs_task s = JNull \<longrightarrow> before = None"
    "rs_task s \<noteq> JNull \<longrightarrow> (\<exists>b. before = Some b \<and> validateRecurringTask zone ?c (rs_task s) decode = Inr b)"
    and "receiptsAppend (case before of None \<Rightarrow> [] | Some b \<Rightarrow> receipts b) (receipts task) task = Inr added"
    and none: "before = None \<longrightarrow> added = [] \<and> rc_appliedRevision ?c = None"
    and d: "recurringDeliveries zone ?c revisions admission before task added = Inr occs"
    and settle: "recurringSettle zone ?c before task added = Inr s'"
    by (rule recurringPut_ok)
  note task = settle_ok [OF settle]
  show ?thesis
  proof (cases before)
    case None
    then show ?thesis using none d deliveries_none fresh by simp
  next
    case (Some bt)
    then have bt: "rs_task s \<noteq> JNull" "validateRecurringTask zone ?c (rs_task s) decode = Inr bt" using b by auto
    note target = target_of_stored [OF bt(2)]
    show ?thesis
    proof (cases "added = []")
      case False
      have k: "\<And>k v. revisions k = Some v \<Longrightarrow> rv_revision v = k" using cons(1) by (simp add: consistentRevisions_def)
      from d False k obtain b' a lo hi ts where "before = Some b'" "rc_appliedRevision ?c = Some a"
        "scheduledMs (jget ''record'' b') = Some lo" "scheduledMs (jget ''record'' task) = Some hi"
        "map occurrenceStamp occs = map (\<lambda>t. (JNum a, Some t)) ts" "sorted_wrt (<) ts"
        "\<forall>t \<in> set ts. lo \<le> t \<and> t < hi" "ts \<noteq> []"
        by (rule stamps_of_deliveries)
      then show ?thesis using delivered Some bt(1) target task False by simp
    next
      case True
      then have "occs = []" using d deliveries_none by simp
      then show ?thesis
        using settle_undelivered [OF bt(2) cons(2) settle [unfolded Some True]] update same bt(1) target task by auto
    qed
  qed
qed

lemma put_applied:
  assumes "recurringPutTask zone decode s raw revisions admission = Inr (s', occs)" "appliedConsistent (rs_control s)"
  shows "appliedConsistent (rs_control s')"
  using assms(1) by (rule recurringPut_ok) (use settle_ok assms(2) in \<open>fastforce simp: appliedConsistent_def\<close>)

lemma put_inv:
  assumes put: "recurringPutTask zone decode s raw revisions admission = Inr (s', occs)"
    and inv: "recurringInv revisions (s, log)"
  shows "recurringInv revisions (s', log @ map occurrenceStamp occs)"
proof -
  have cons: "consistentRevisions revisions" "appliedConsistent (rs_control s)" "distinct log"
    "\<And>x. x \<in> set log \<Longrightarrow> stampOk s x" using inv by (auto simp: recurringInv_def)
  note applied = put_applied [OF put cons(2)]
  from put cons(1,2) show ?thesis
  proof (cases rule: put_cases)
    case fresh
    then have "log = []" using cons(4) by (cases log) (auto simp: stampOk_def)
    then show ?thesis using fresh cons applied by (simp add: recurringInv_def)
  next
    case update
    have "stampOk s' x" if "x \<in> set log" for x
      using cons(4) [OF that] update(2,3) by (auto simp: stampOk_def)
    then show ?thesis using update(1) cons applied by (simp add: recurringInv_def)
  next
    case same
    have "stampOk s' x" if "x \<in> set log" for x
      using cons(4) [OF that] same(2-4) by (auto simp: stampOk_def)
    then show ?thesis using same(1) cons applied by (simp add: recurringInv_def)
  next
    case (delivered a lo hi ts)
    have lohi: "lo < hi" using delivered(8,9) by (metis last_in_set le_less_trans)
    have old: "\<exists>\<rho> t. x = (JNum \<rho>, Some t) \<and> \<rho> \<le> a \<and> (\<rho> = a \<longrightarrow> t < lo)" if "x \<in> set log" for x
      using cons(4) [OF that] delivered(1,2,4) by (auto simp: stampOk_def)
    have "stampOk s' x" if "x \<in> set log" for x
      using old [OF that] delivered(3,5) lohi by (auto simp: stampOk_def)
    moreover have "stampOk s' x" if "x \<in> set (map occurrenceStamp occs)" for x
      using that delivered(3,5,8) unfolding delivered(6) by (auto simp: stampOk_def)
    ultimately have "\<forall>x \<in> set (log @ map occurrenceStamp occs). stampOk s' x" unfolding set_append by blast
    moreover have "distinct (map occurrenceStamp occs)"
      using delivered(7) unfolding delivered(6) by (auto simp: distinct_map inj_on_def strict_sorted_iff)
    moreover have "set log \<inter> set (map occurrenceStamp occs) = {}"
      using old delivered(8) unfolding delivered(6) by fastforce
    ultimately show ?thesis using cons(1,3) applied unfolding recurringInv_def by simp
  qed
qed


lemma recurringApply_inv:
  assumes "recurringApply zone decode s m revisions admission = Inr (s', occs)" "recurringInv revisions (s, log)"
  shows "recurringInv revisions (s', log @ map occurrenceStamp occs)"
proof (cases "jget ''kind'' m = JStr ''put_task''")
  case True
  then show ?thesis using assms put_inv by (simp add: recurringApply_def)
next
  case False
  then have o: "occs = []" using assms(1) unfolding recurringApply_def Let_def
    by (auto simp: andThen_Inr_iff split: if_split_asm)
  have inv: "appliedConsistent (rs_control s)" "\<And>x. x \<in> set log \<Longrightarrow> stampOk s x" using assms(2) by (auto simp: recurringInv_def)
  have a: "appliedConsistent (rs_control s')" using assms(1) False inv(1) unfolding recurringApply_def Let_def
    by (auto simp: andThen_Inr_iff appliedConsistent_def split: if_split_asm)
  have "rs_task s' = JNull \<and> rc_appliedRevision (rs_control s') = rc_appliedRevision (rs_control s) \<or>
      rs_task s' = rs_task s \<and> (rc_appliedRevision (rs_control s') = rc_appliedRevision (rs_control s) \<or>
        rc_appliedRevision (rs_control s') = Some (rc_revision (rs_control s)))"
    using assms(1) False unfolding recurringApply_def Let_def
    by (auto simp: andThen_Inr_iff split: if_split_asm)
  moreover have "rc_appliedRevision (rs_control s) = Some b \<Longrightarrow> b \<le> rc_revision (rs_control s)" for b
    using inv(1) by (simp add: appliedConsistent_def)
  ultimately have "stampOk s' x" if "x \<in> set log" for x
    using inv(2) [OF that] unfolding stampOk_def by fastforce
  then show ?thesis using a o assms(2) by (simp add: recurringInv_def)
qed

lemma recurringApply_older:
  assumes "recurringApply zone decode s m revisions admission = Inr (s', occs)"
  shows "recurringOlder (s, log) (s', log @ new)"
proof (cases "jget ''kind'' m = JStr ''put_task''")
  case True
  then have "recurringPutTask zone decode s (jget ''task'' m) revisions admission = Inr (s', occs)"
    using assms by (simp add: recurringApply_def)
  then obtain task before added where v: "validateRecurringTask zone (rs_control s) (jget ''task'' m) decode = Inr task"
    and settle: "recurringSettle zone (rs_control s) before task added = Inr s'"
    by (rule recurringPut_ok)
  have "rc_nativeTaskId (rs_control s) = Some i \<Longrightarrow> strOf (jget ''id'' (jget ''record'' task)) = i" for i
    using validate_ok [OF v] by (cases "jget ''id'' (jget ''record'' task)") (auto simp: jOpt_def strOf_def)
  then show ?thesis using settle_ok [OF settle]
    by (auto simp: recurringOlder_def recurringControlIdentity_def Let_def)
next
  case False
  then show ?thesis using assms unfolding recurringApply_def Let_def
    by (auto simp: andThen_Inr_iff recurringOlder_def recurringControlIdentity_def split: if_split_asm)
qed

interpretation recurring: step_machine "recurringStep P zone decode revisions" "recurringInv revisions" recurringOlder
  for P zone decode revisions
proof
  fix st i st' assume step: "recurringStep P zone decode revisions st i = Inr st'" and inv: "recurringInv revisions st"
  obtain s log where st: "st = (s, log)" by (cases st)
  from step obtain r where r: "prepareNativeRecurringMutation P zone decode (i\<lparr>ri_before := s, ri_revisions := revisions\<rparr>) = Inr r"
    "st' = (rp_after r, log @ map occurrenceStamp (rp_occurrences r))"
    unfolding recurringStep_def st fst_conv snd_conv andThen_Inr_iff by blast
  then have a: "recurringApply zone decode s (ow_mutation (ri_write i)) revisions (ri_admission i) =
      Inr (rp_after r, rp_occurrences r)" using recurringPrepare_ok [OF r(1)] by simp
  show "recurringInv revisions st'" using recurringApply_inv [OF a] inv st r(2) by blast
  show "recurringOlder st st'" using recurringApply_older [OF a] st r(2) by blast
qed (auto simp: recurringOlder_def Let_def)


interpretation recurring_client: fenced_client "prepareNativeRecurringMutation P zone decode" ri_writerRow ri_writer
  ri_dbNowMs for P zone decode
proof
  fix i r assume "prepareNativeRecurringMutation P zone decode i = Inr r"
  then have "recurringFence i = Inr ()" using recurringPrepare_ok by blast
  then show "\<exists>remaining. nativeOnceWriterRemaining (ri_writerRow i) (ri_writer i) (ri_dbNowMs i) = Inr remaining \<and> 0 < remaining"
    by (auto simp: recurringFence_def andThen_Inr_iff split: if_split_asm)
qed

section \<open>Properties\<close>

text \<open>
  (C9) Exactly once: over any sequence of accepted mutations of a recurring control, whatever
  writers, times and admissions they carry, no two occurrences are produced for the same
  revision and the same scheduled time; every occurrence has a revision and a valid time.  The
  identity, the revision and the rule of the control stay, and a task id, a deletion and a decided
  command are never undone.  The stored revisions are assumed to be filed under their number.
\<close>

theorem recurring_exactly_once:
  assumes "runAll (recurringStep P zone decode revisions) (s, []) is = Inr (s', log)"
    "consistentRevisions revisions" "appliedConsistent (rs_control s)"
  shows "distinct log \<and> (\<forall>x \<in> set log. \<exists>\<rho> t. x = (JNum \<rho>, Some t)) \<and> recurringOlder (s, []) (s', log)"
proof -
  have i: "recurringInv revisions (s, [])" using assms(2,3) by (simp add: recurringInv_def)
  have "recurringInv revisions (s', log)" using recurring.run_inv [OF assms(1) i] .
  then show ?thesis using recurring.run_older [OF assms(1) i] by (force simp: recurringInv_def stampOk_def)
qed

text \<open>
  No delivery is lost or invented: storing a task that replaces an earlier one produces exactly
  one occurrence per receipt that the earlier task did not have, in their order, with strictly
  increasing scheduled times from the earlier target up to before the new one; the receipts kept
  from before are the end of the old history, and all of it unless the task says it was pruned.
\<close>

theorem recurring_deliveries_complete:
  assumes "recurringPutTask zone decode s raw revisions admission = Inr (s', occs)" "rs_task s \<noteq> JNull"
  shows "\<exists>old retained added. validateRecurringTask zone (rs_control s) (rs_task s) decode = Inr old \<and>
    added = filter (\<lambda>r. receiptKey r \<notin> receiptKey ` set (receipts old)) (receipts (rs_task s')) \<and>
    list_all2 (\<lambda>r occ. jget ''receipt'' (ro_payload occ) = r) added occs \<and>
    (added \<noteq> [] \<longrightarrow> (\<exists>lo hi ts. scheduledMs (jget ''record'' old) = Some lo \<and>
       scheduledMs (jget ''record'' (rs_task s')) = Some hi \<and> map scheduledMs added = map Some ts \<and> sorted_wrt (<) ts \<and>
       (\<forall>t \<in> set ts. lo \<le> t \<and> t < hi))) \<and>
    jeqArr (receipts (rs_task s')) (retained @ added) \<and>
    jeqArr retained (drop (length (receipts old) - length retained) (receipts old)) \<and>
    (length retained = length (receipts old) \<or>
       jget ''earlierRecordsPruned'' (jget ''deliveryHistory'' (rs_task s')) = JBool True)"
proof -
  let ?c = "rs_control s"
  from assms(1) obtain task before added where settle: "recurringSettle zone ?c before task added = Inr s'"
    and b: "rs_task s \<noteq> JNull \<longrightarrow> (\<exists>b. before = Some b \<and> validateRecurringTask zone ?c (rs_task s) decode = Inr b)"
    and app: "receiptsAppend (case before of None \<Rightarrow> [] | Some b \<Rightarrow> receipts b) (receipts task) task = Inr added"
    and d: "recurringDeliveries zone ?c revisions admission before task added = Inr occs"
    by (rule recurringPut_ok) blast
  from b assms(2) obtain old where old: "before = Some old" "validateRecurringTask zone ?c (rs_task s) decode = Inr old"
    by blast
  note kept = append_ok [OF app [unfolded old(1) option.case]]
  have task: "rs_task s' = task" using settle_ok [OF settle] by blast
  have "list_all2 (\<lambda>r occ. jget ''receipt'' (ro_payload occ) = r) added occs \<and>
    (added \<noteq> [] \<longrightarrow> (\<exists>lo hi ts. scheduledMs (jget ''record'' old) = Some lo \<and>
       scheduledMs (jget ''record'' task) = Some hi \<and> map scheduledMs added = map Some ts \<and> sorted_wrt (<) ts \<and>
       (\<forall>t \<in> set ts. lo \<le> t \<and> t < hi)))"
  proof (cases "added = []")
    case False
    from d False obtain a version where o: "recurringOccurrences ?c version (jget ''id'' (jget ''record'' task)) admission
        (scheduledMs (jget ''record'' old)) (scheduledMs (jget ''record'' task)) added = Inr occs"
      by (rule deliveries_ok) (use old(1) in auto)
    note oo = occurrences_ok [OF o False]
    then have l: "list_all2 (\<lambda>r occ. recurringOccurrence ?c version (jget ''id'' (jget ''record'' task)) admission r =
        Inr occ) added occs" by blast
    have "jget ''receipt'' (ro_payload occ) = r"
      if "recurringOccurrence ?c version (jget ''id'' (jget ''record'' task)) admission r = Inr occ" for r occ
      using occurrence_ok [OF that] by (simp add: recurringPayload_def)
    then have "list_all2 (\<lambda>r occ. jget ''receipt'' (ro_payload occ) = r) added occs"
      by (rule list_all2_mono [OF l])
    then show ?thesis using oo by blast
  qed (use d deliveries_none in simp)
  then show ?thesis using old(2) kept unfolding task by blast
qed

text \<open>
  A delivery is queued for execution only under current authority: an accepted mutation came
  from the writer with time on its row, and each pending occurrence it produced was admitted for
  an enabled plan at the revision of the occurrence, after the resume watermark if there is one.
\<close>

theorem recurring_pending_only_if_admitted:
  assumes "prepareNativeRecurringMutation P zone decode i = Inr r" "occ \<in> set (rp_occurrences r)"
    "ro_state occ = Occurrence_pending"
  shows "\<exists>a remaining. ri_admission i = Some a \<and> ra_allowed a \<and> ra_status a = Plan_enabled \<and>
    jget ''revision'' (jget ''revision'' (ro_payload occ)) = JNum (ra_currentRevision a) \<and>
    (\<forall>w at after. ra_resumeAfter a = Some after \<longrightarrow> dateParse after = Some w \<longrightarrow>
       scheduledMs (jget ''receipt'' (ro_payload occ)) = Some at \<longrightarrow> w < at) \<and>
    nativeOnceWriterRemaining (ri_writerRow i) (ri_writer i) (ri_dbNowMs i) = Inr remaining \<and> 0 < remaining"
proof -
  have p: "recurringApply zone decode (ri_before i) (ow_mutation (ri_write i)) (ri_revisions i) (ri_admission i) =
      Inr (rp_after r, rp_occurrences r)" "recurringFence i = Inr ()" using recurringPrepare_ok [OF assms(1)] by auto
  then have put: "recurringPutTask zone decode (ri_before i) (jget ''task'' (ow_mutation (ri_write i))) (ri_revisions i)
      (ri_admission i) = Inr (rp_after r, rp_occurrences r)"
    using assms(2) unfolding recurringApply_def Let_def by (auto simp: andThen_Inr_iff split: if_split_asm)
  then obtain before task added where d: "recurringDeliveries zone (rs_control (ri_before i)) (ri_revisions i)
      (ri_admission i) before task added = Inr (rp_occurrences r)"
    by (rule recurringPut_ok) blast
  have ne: "added \<noteq> []" using d assms(2) by (auto simp: deliveries_none)
  from d ne obtain version tid lo hi where "recurringOccurrences (rs_control (ri_before i)) version tid (ri_admission i)
      lo hi added = Inr (rp_occurrences r)"
    by (rule deliveries_ok) blast
  from occurrences_ok [OF this ne] assms(2) obtain receipt where
    "recurringOccurrence (rs_control (ri_before i)) version tid (ri_admission i) receipt = Inr occ"
    by (auto simp: list_all2_conv_all_nth in_set_conv_nth)
  note o = occurrence_ok [OF this]
  then have n: "recurringReason (ri_admission i) (rv_revision version) receipt = None"
    "ro_payload occ = recurringPayload (rs_control (ri_before i)) version tid receipt"
    using assms(3) by (auto split: if_splits)
  obtain remaining where "nativeOnceWriterRemaining (ri_writerRow i) (ri_writer i) (ri_dbNowMs i) = Inr remaining" "0 < remaining"
    using p(2) by (auto simp: recurringFence_def andThen_Inr_iff split: if_split_asm)
  with n show ?thesis
    by (cases "ri_admission i") (auto simp: recurringReason_def recurringPayload_def split: if_split_asm option.splits)
qed


section \<open>A concrete schedule\<close>

definition sampleNext :: string where "sampleNext = ''1970-01-01T00:01:00.000Z''"

lemma sampleNext_iso: "isoExact sampleNext" "dateParse sampleNext = Some 60000"
proof -
  have parts: "(60000 :: int) div msPerDay = 0" "nat (60000 mod msPerDay) = 60000"
    "yearFromDay 0 = 1970" "monthAndDay 1 (monthLengths 1970) (0 - dayFromYear 1970) = (1, 1)"
    by (simp_all add: msPerDay_def yearFromDay_def monthLengths_def isLeapYear_def dayFromYear_def)
  have print: "yearStr 1970 = ''1970''" "padDigits 2 0 = ''00''" "padDigits 2 1 = ''01''" "padDigits 3 0 = ''000''"
    by code_simp+
  have "toISOString 60000 = Some sampleNext"
    unfolding toISOString_def sampleNext_def using parts print by (simp add: maxTime_def)
  then show "dateParse sampleNext = Some 60000" "isoExact sampleNext"
    using dateParse_toISOString by (auto simp: isoExact_def)
qed

definition sampleRecurring :: NativeRecurringControl where
  "sampleRecurring = \<lparr>rc_partitionId = ''part'', rc_controlId = ''c1'', rc_organizationId = ''o1'',
     rc_workspaceId = ''w1'', rc_ownerId = ''u1'', rc_automationId = ''a1'', rc_revision = 1,
     rc_controlSessionId = ''cs'', rc_rule = RuleEvery 60, rc_appliedRevision = Some 1,
     rc_appliedRule = Some (RuleEvery 60), rc_sessionState = Session_ready, rc_nativeTaskId = Some ''t1'',
     rc_taskDeleted = False, rc_commandId = ''k1'', rc_commandKind = RCommand_create,
     rc_commandStatus = Command_confirmed, rc_dispatch = DispatchQuality\<rparr>"

definition sampleRevision :: NativeRecurringRevision where
  "sampleRevision = \<lparr>rv_revision = 1, rv_name = ''n'', rv_prompt = ''p'', rv_rule = RuleEvery 60,
     rv_reservationDigest = sampleDigest, rv_acceptedAt = sampleAt, rv_quality = None\<rparr>"

definition sampleRecord :: "string \<Rightarrow> jsval" where
  "sampleRecord at = JObj [(''id'', JStr ''t1''), (''kind'', JStr ''every''), (''title'', JStr onceTitle),
     (''prompt'', JStr oncePrompt), (''scheduledAt'', JStr at), (''everySeconds'', JNum 60)]"

definition sampleReceipt :: jsval where
  "sampleReceipt = JObj [(''scheduledAt'', JStr sampleAt), (''deliveredAt'', JStr sampleAt), (''messageId'', JStr ''m1'')]"

definition sampleBeforeTask :: jsval where
  "sampleBeforeTask = JObj [(''sessionId'', JStr ''cs''), (''record'', sampleRecord sampleAt), (''status'', JStr ''active'')]"

definition sampleAfterTask :: jsval where
  "sampleAfterTask = JObj [(''sessionId'', JStr ''cs''), (''record'', sampleRecord sampleNext),
     (''status'', JStr ''active''), (''lastDelivery'', sampleReceipt)]"

definition samplePut :: jsval where
  "samplePut = JObj [(''controlId'', JStr ''c1''), (''kind'', JStr ''put_task''), (''task'', sampleAfterTask)]"

definition sampleRevisions :: "int \<rightharpoonup> NativeRecurringRevision" where
  "sampleRevisions = [1 \<mapsto> sampleRevision]"

definition sampleAdmission :: NativeRecurringAdmission where
  "sampleAdmission = \<lparr>ra_allowed = True, ra_currentRevision = 1, ra_status = Plan_enabled, ra_resumeAfter = None\<rparr>"

definition sampleBeforeSnapshot :: NativeRecurringSnapshot where
  "sampleBeforeSnapshot = \<lparr>rs_control = sampleRecurring, rs_task = sampleBeforeTask\<rparr>"

definition sampleAfterSnapshot :: NativeRecurringSnapshot where
  "sampleAfterSnapshot = \<lparr>rs_control = sampleRecurring, rs_task = sampleAfterTask\<rparr>"

lemmas sampleTask_defs = sampleAt_def sampleNext_def sampleRecord_def sampleReceipt_def sampleBeforeTask_def
  sampleAfterTask_def samplePut_def onceTitle_def oncePrompt_def

lemma recurring_digests:
  "\<exists>d. nativeOnceDigest samplePut = Inr d" "\<exists>d. nativeOnceDigest sampleBeforeTask = Inr d"
  "\<exists>d. nativeOnceDigest sampleAfterTask = Inr d"
  "\<exists>d. nativeOnceDigest (recurringSnapshotJson sampleBeforeSnapshot) = Inr d"
  "\<exists>d. nativeOnceDigest (recurringSnapshotJson sampleAfterSnapshot) = Inr d"
  "\<exists>d. recurringKey sampleRecurring 1 sampleReceipt = Inr d"
  "\<exists>d. nativeOnceDigest (recurringPayload sampleRecurring sampleRevision (JStr ''t1'') sampleReceipt) = Inr d"
proof -
  have n: "length (natStr n) \<le> n + 1" for n
    by (induction n rule: natStr.induct) (subst natStr.simps, auto)
  note len = n [of "60"] n [of "Suc 0"]
  show "\<exists>d. nativeOnceDigest samplePut = Inr d" "\<exists>d. nativeOnceDigest sampleBeforeTask = Inr d"
    "\<exists>d. nativeOnceDigest sampleAfterTask = Inr d"
    "\<exists>d. nativeOnceDigest (recurringSnapshotJson sampleBeforeSnapshot) = Inr d"
    "\<exists>d. nativeOnceDigest (recurringSnapshotJson sampleAfterSnapshot) = Inr d"
    "\<exists>d. recurringKey sampleRecurring 1 sampleReceipt = Inr d"
    "\<exists>d. nativeOnceDigest (recurringPayload sampleRecurring sampleRevision (JStr ''t1'') sampleReceipt) = Inr d"
    unfolding recurringKey_def using len
    by (intro digest_small; simp add: sampleTask_defs recurringSnapshotJson_def sampleBeforeSnapshot_def
      sampleAfterSnapshot_def recurringControlJson_def sampleRecurring_def recurringPayload_def sampleRevision_def
      recurringControlIdentity_def sampleDigest_def jOpt_def intStr_def)+
qed


abbreviation noZone :: "string \<Rightarrow> string option" where
  "noZone \<equiv> \<lambda>_. None"

lemma sample_receipt:
  "receiptOk sampleReceipt" "receipts sampleAfterTask = [sampleReceipt]" "receipts sampleBeforeTask = []"
  "scheduledMs sampleReceipt = Some 0" "scheduledMs (sampleRecord sampleAt) = Some 0"
  "scheduledMs (sampleRecord sampleNext) = Some 60000"
  using sampleAt_iso sampleNext_iso
  by (simp_all add: receiptOk_def isoExactJ_def sampleReceipt_def goodIdJ_def goodId_def receipts_def sampleAfterTask_def
    sampleBeforeTask_def scheduledMs_def sampleRecord_def)

lemma sample_matches: "recurringRecordMatches noZone (sampleRecord at) (RuleEvery 60)"
  by (simp add: recurringRecordMatches_def sampleRecord_def)

lemma sample_validate:
  "validateRecurringTask noZone sampleRecurring sampleBeforeTask Inr = Inr sampleBeforeTask"
  "validateRecurringTask noZone sampleRecurring sampleAfterTask Inr = Inr sampleAfterTask"
proof -
  have ok: "jsonOk sampleBeforeTask" "jsonOk sampleAfterTask" by (simp_all add: sampleTask_defs)
  note eq = jeq_refl(1) [OF ok(1)] jeq_refl(1) [OF ok(2)]
  have rec: "jget ''record'' sampleBeforeTask = sampleRecord sampleAt" "jget ''record'' sampleAfterTask = sampleRecord sampleNext"
    "jget ''sessionId'' sampleBeforeTask = JStr ''cs''" "jget ''sessionId'' sampleAfterTask = JStr ''cs''"
    "jget ''status'' sampleBeforeTask = JStr ''active''" "jget ''status'' sampleAfterTask = JStr ''active''"
    "jget ''lastDelivery'' sampleBeforeTask = JUndefined" "jget ''lastDelivery'' sampleAfterTask = sampleReceipt"
    by (simp_all add: sampleBeforeTask_def sampleAfterTask_def)
  have fields: "jget ''kind'' (sampleRecord at) = JStr ''every''" "jget ''title'' (sampleRecord at) = JStr onceTitle"
    "jget ''prompt'' (sampleRecord at) = JStr oncePrompt" "jget ''id'' (sampleRecord at) = JStr ''t1''"
    "jget ''scheduledAt'' (sampleRecord at) = JStr at" for at by (simp_all add: sampleRecord_def)
  have tail: "receiptTailOk JUndefined []" "receiptTailOk sampleReceipt [sampleReceipt]"
    by (simp_all add: receiptTailOk_def sampleReceipt_def)
  show "validateRecurringTask noZone sampleRecurring sampleBeforeTask Inr = Inr sampleBeforeTask"
    "validateRecurringTask noZone sampleRecurring sampleAfterTask Inr = Inr sampleAfterTask"
    using recurring_digests(2,3) eq sample_receipt sample_matches tail sampleAt_iso(1) sampleNext_iso(1)
    unfolding validateRecurringTask_def Let_def
    by (auto simp: rec fields sampleRecurring_def isoExactJ_def jOpt_def)
qed

lemma sample_control_valid: "validRecurringControl samplePlatform noZone sampleRecurring"
  by (simp add: validRecurringControl_def sampleRecurring_def zPositive_def isSafeInteger_def lenIn_def)

lemma sample_put:
  "\<exists>occ. recurringPutTask noZone Inr sampleBeforeSnapshot sampleAfterTask sampleRevisions (Some sampleAdmission) =
     Inr (sampleAfterSnapshot, [occ]) \<and> ro_state occ = Occurrence_pending"
proof -
  obtain key where key: "recurringKey sampleRecurring 1 sampleReceipt = Inr key" using recurring_digests(6) by blast
  obtain d where d: "nativeOnceDigest (recurringPayload sampleRecurring sampleRevision (JStr ''t1'') sampleReceipt) = Inr d"
    using recurring_digests(7) by blast
  have "recurringReason (Some sampleAdmission) 1 sampleReceipt = None"
    by (simp add: recurringReason_def sampleAdmission_def)
  then obtain occ where occ: "recurringOccurrence sampleRecurring sampleRevision (JStr ''t1'') (Some sampleAdmission)
      sampleReceipt = Inr occ" "ro_state occ = Occurrence_pending"
    using key d unfolding recurringOccurrence_def Let_def by (auto simp: sampleRevision_def)
  have rec: "jget ''record'' sampleAfterTask = sampleRecord sampleNext" "jget ''record'' sampleBeforeTask = sampleRecord sampleAt"
    "jget ''id'' (sampleRecord sampleNext) = JStr ''t1''" "rs_task sampleBeforeSnapshot = sampleBeforeTask"
    "sampleBeforeTask \<noteq> JNull" "rs_control sampleBeforeSnapshot = sampleRecurring" "sampleRevisions 1 = Some sampleRevision"
    "rv_rule sampleRevision = RuleEvery 60" "rc_appliedRule sampleRecurring = Some (RuleEvery 60)"
    "rc_appliedRevision sampleRecurring = Some 1" "rc_commandKind sampleRecurring = RCommand_create"
    by (simp_all add: sampleBeforeTask_def sampleAfterTask_def sampleRecord_def sampleBeforeSnapshot_def
      sampleRevisions_def sampleRevision_def sampleRecurring_def)
  have app: "receiptsAppend [] [sampleReceipt] sampleAfterTask = Inr [sampleReceipt]"
    by (simp add: receiptsAppend_def sampleReceipt_def)
  have del: "recurringDeliveries noZone sampleRecurring sampleRevisions (Some sampleAdmission) (Some sampleBeforeTask)
      sampleAfterTask [sampleReceipt] = Inr [occ]"
    unfolding recurringDeliveries_def using occ(1) sample_matches sample_receipt by (simp add: rec)
  have settle: "recurringSettle noZone sampleRecurring (Some sampleBeforeTask) sampleAfterTask [sampleReceipt] =
      Inr sampleAfterSnapshot"
    by (simp add: recurringSettle_def rec strOf_def sampleAfterSnapshot_def) (simp add: sampleRecurring_def)
  show ?thesis
    unfolding recurringPutTask_def Let_def using sample_validate app del settle sample_receipt occ(2)
    by (simp add: rec)
qed

lemma sample_recurring_prepare:
  "\<exists>i r occ. prepareNativeRecurringMutation samplePlatform noZone Inr
       (i\<lparr>ri_before := sampleBeforeSnapshot, ri_revisions := sampleRevisions\<rparr>) = Inr r \<and>
     rp_occurrences r = [occ] \<and> ro_state occ = Occurrence_pending"
proof -
  obtain acq where a: "planNativeOnceAcquire sampleRow sampleAcquire = Inr (Some acq)" using sample_acquire by blast
  note acq = acquire_cases [OF a]
  obtain d where d: "nativeOnceDigest samplePut = Inr d" using recurring_digests(1) by blast
  obtain occ where occ: "recurringPutTask noZone Inr sampleBeforeSnapshot sampleAfterTask sampleRevisions
      (Some sampleAdmission) = Inr (sampleAfterSnapshot, [occ])" "ro_state occ = Occurrence_pending"
    using sample_put by blast
  define w where "w = \<lparr>ow_writeId = ''w1'', ow_digest = d, ow_mutation = samplePut\<rparr>"
  define i where "i = \<lparr>ri_readiness = sampleReady, ri_reference = sampleReference, ri_writerRow = ac_row acq,
    ri_writer = ac_writer acq, ri_dbNowMs = 1000, ri_before = sampleBeforeSnapshot, ri_write = w,
    ri_revisions = sampleRevisions, ri_admission = Some sampleAdmission\<rparr>"
  have fence: "recurringFence i = Inr ()"
    using acquired_live [OF a] acq
    by (simp add: recurringFence_def i_def nativeOnceReady_def sampleReady_def sampleAcquire_def sampleRow_def)
  have wr: "recurringWriteOk i = Inr ()"
    using acq d by (simp add: recurringWriteOk_def i_def w_def sampleBeforeSnapshot_def sampleRecurring_def sampleRow_def
      lenIn_def samplePut_def)
  have des: "recurringDesired noZone sampleRevisions sampleRecurring = Inr ()"
    using sampleAt_iso(1)
    by (simp add: recurringDesired_def sampleRevisions_def sampleRecurring_def validRecurringRevision_def
      sampleRevision_def zPositive_def isSafeInteger_def lenIn_def)
  have app: "recurringApply noZone Inr sampleBeforeSnapshot samplePut sampleRevisions (Some sampleAdmission) =
      Inr (sampleAfterSnapshot, [occ])"
    using occ(1) by (simp add: recurringApply_def samplePut_def)
  obtain f where "fence (ac_writer acq) = Inr f" using acq by (auto simp: sameWriter_True)
  then have tok: "nativeOnceDigest (JStr (wr_token (ac_writer acq))) = Inr (fe_tokenDigest f)" using fence_fields by blast
  have ctl: "rs_control sampleBeforeSnapshot = sampleRecurring" "rs_control sampleAfterSnapshot = sampleRecurring"
    by (simp_all add: sampleBeforeSnapshot_def sampleAfterSnapshot_def)
  have fields: "ri_before i = sampleBeforeSnapshot" "ri_revisions i = sampleRevisions" "ow_mutation (ri_write i) = samplePut"
    "ri_admission i = Some sampleAdmission" "ri_writer i = ac_writer acq" by (simp_all add: i_def w_def)
  have "\<exists>r. prepareNativeRecurringMutation samplePlatform noZone Inr i = Inr r \<and> rp_occurrences r = [occ]"
    using recurring_digests(4,5)
    unfolding prepareNativeRecurringMutation_def Let_def
    by (auto simp: fence wr des app tok ctl fields sample_control_valid)
  then show ?thesis using occ(2) fields(1,2) by (intro exI [of _ i]) (auto simp: i_def)
qed


theorem recurring_exactly_once_witness:
  "\<exists>i s' log. runAll (recurringStep samplePlatform noZone Inr sampleRevisions) (sampleBeforeSnapshot, []) [i] =
     Inr (s', log) \<and> length log = 1 \<and> distinct log"
proof -
  obtain i r occ where r: "prepareNativeRecurringMutation samplePlatform noZone Inr
      (i\<lparr>ri_before := sampleBeforeSnapshot, ri_revisions := sampleRevisions\<rparr>) = Inr r" "rp_occurrences r = [occ]"
    using sample_recurring_prepare by blast
  then have run: "runAll (recurringStep samplePlatform noZone Inr sampleRevisions) (sampleBeforeSnapshot, []) [i] =
      Inr (rp_after r, [occurrenceStamp occ])"
    by (simp add: recurringStep_def)
  have "consistentRevisions sampleRevisions" "appliedConsistent (rs_control sampleBeforeSnapshot)"
    by (simp_all add: consistentRevisions_def sampleRevisions_def sampleRevision_def appliedConsistent_def
      sampleBeforeSnapshot_def sampleRecurring_def split: if_splits)
  from recurring_exactly_once [OF run this] run show ?thesis by force
qed

theorem recurring_deliveries_complete_witness:
  "\<exists>occ old. recurringPutTask noZone Inr sampleBeforeSnapshot sampleAfterTask sampleRevisions (Some sampleAdmission) =
     Inr (sampleAfterSnapshot, [occ]) \<and>
     validateRecurringTask noZone sampleRecurring sampleBeforeTask Inr = Inr old"
proof -
  obtain occ where occ: "recurringPutTask noZone Inr sampleBeforeSnapshot sampleAfterTask sampleRevisions
      (Some sampleAdmission) = Inr (sampleAfterSnapshot, [occ])" using sample_put by blast
  have "rs_task sampleBeforeSnapshot \<noteq> JNull" "rs_control sampleBeforeSnapshot = sampleRecurring"
    "rs_task sampleBeforeSnapshot = sampleBeforeTask"
    by (simp_all add: sampleBeforeSnapshot_def sampleBeforeTask_def)
  with recurring_deliveries_complete [OF occ] occ show ?thesis by auto
qed

theorem recurring_pending_only_if_admitted_witness:
  "\<exists>i r occ a. prepareNativeRecurringMutation samplePlatform noZone Inr i = Inr r \<and> rp_occurrences r = [occ] \<and>
     ro_state occ = Occurrence_pending \<and> ri_admission i = Some a \<and> ra_allowed a"
proof -
  obtain i r occ where r: "prepareNativeRecurringMutation samplePlatform noZone Inr i = Inr r" "rp_occurrences r = [occ]"
    "ro_state occ = Occurrence_pending" using sample_recurring_prepare by blast
  from recurring_pending_only_if_admitted [OF r(1), of occ] r show ?thesis by auto
qed

end
