(* ===== verification/ScheduleTime.thy ===== *)
theory ScheduleTime
  imports RecurringState
begin

text \<open>
  The wall-clock calculations of packages/database/src/execution/automation.ts
  (\<open>dateParts\<close>, \<open>timeZoneOffset\<close>, \<open>zonedTimeToUtc\<close>, \<open>nextScheduleAt\<close>) with the schedule schema of
  packages/contracts/src/automation.ts, and the monthly targets of
  packages/database/src/native-schedule-monthly-time.ts.  A \<open>Date\<close> is an integer time value or None
  (Invalid Date); a time zone is the function from an instant to the offset \<open>Intl.DateTimeFormat\<close>
  shows there, and \<open>zones\<close> maps a name to it, None where the constructor throws.  Shown: wall times
  are resolved as documented around one transition, the next target is the least due instant where
  the offset is steady, and the search for the latest missed month never runs out of its four rounds,
  in any zone, and finds the latest monthly target.
\<close>

section \<open>Dates\<close>

type_synonym zone = "int \<Rightarrow> int"
type_synonym zones = "string \<Rightarrow> zone option"

definition timeClip :: "int \<Rightarrow> int option" where
  "timeClip t = (if - maxTime \<le> t \<and> t \<le> maxTime then Some t else None)"

text \<open>The day number of the first of a month, counting months from year 0.\<close>

definition monthStart :: "int \<Rightarrow> int" where
  "monthStart k = dayFromYear (k div 12) + sum_list (take (nat (k mod 12)) (monthLengths (k div 12)))"

text \<open>\<open>Date.UTC\<close> with a month from 0: months and days may lie outside their usual range, and a year
  from 0 to 99 is a year of the twentieth century.\<close>

definition dateUTC :: "int \<Rightarrow> int \<Rightarrow> int \<Rightarrow> int \<Rightarrow> int \<Rightarrow> int option" where
  "dateUTC year month day hour minute =
     (let y = (if 0 \<le> year \<and> year \<le> 99 then 1900 + year else year) in
      timeClip ((monthStart (12 * y + month) + day - 1) * msPerDay + hour * 3600000 + minute * 60000))"

definition civil :: "int \<Rightarrow> int \<times> nat \<times> nat" where
  "civil day = (let y = yearFromDay day in (y, monthAndDay 1 (monthLengths y) (day - dayFromYear y)))"

definition getUTCFullYear :: "int \<Rightarrow> int" where
  "getUTCFullYear t = fst (civil (t div msPerDay))"

definition getUTCMonth :: "int \<Rightarrow> int" where
  "getUTCMonth t = int (fst (snd (civil (t div msPerDay)))) - 1"

definition getUTCDate :: "int \<Rightarrow> int" where
  "getUTCDate t = int (snd (snd (civil (t div msPerDay))))"

definition getUTCDay :: "int \<Rightarrow> int" where
  "getUTCDay t = (t div msPerDay + 4) mod 7"

definition getUTCHours :: "int \<Rightarrow> int" where
  "getUTCHours t = t mod msPerDay div 3600000"

definition getUTCMinutes :: "int \<Rightarrow> int" where
  "getUTCMinutes t = t mod msPerDay div 60000 mod 60"

section \<open>Wall time\<close>

record DateParts =
  dp_year :: int
  dp_month :: int
  dp_day :: int
  dp_hour :: int
  dp_minute :: int

text \<open>\<open>formatToParts\<close> throws on an Invalid Date; the year of the common era is shown without an era.\<close>

definition dateParts :: "zone \<Rightarrow> int option \<Rightarrow> DateParts result" where
  "dateParts zone date = (case date of
     None \<Rightarrow> Inl RangeError
   | Some t \<Rightarrow> let wall = t + zone t; y = getUTCFullYear wall in
       Inr \<lparr>dp_year = (if y \<le> 0 then 1 - y else y), dp_month = getUTCMonth wall + 1, dp_day = getUTCDate wall,
         dp_hour = getUTCHours wall, dp_minute = getUTCMinutes wall\<rparr>)"

definition partsUTC :: "DateParts \<Rightarrow> int option" where
  "partsUTC p = dateUTC (dp_year p) (dp_month p - 1) (dp_day p) (dp_hour p) (dp_minute p)"

definition minusTime :: "int option \<Rightarrow> int option \<Rightarrow> int option" where
  "minusTime a b = (case (a, b) of (Some x, Some y) \<Rightarrow> Some (x - y) | _ \<Rightarrow> None)"

definition timeZoneOffset :: "zone \<Rightarrow> int option \<Rightarrow> int option result" where
  "timeZoneOffset zone date = andThen (dateParts zone date) (\<lambda>parts. Inr (minusTime (partsUTC parts) date))"

definition newDate :: "int option \<Rightarrow> int option" where
  "newDate t = (case t of None \<Rightarrow> None | Some v \<Rightarrow> timeClip v)"

definition laterDate :: "int option \<Rightarrow> int option \<Rightarrow> int option" where
  "laterDate a b = (case (a, b) of (Some x, Some y) \<Rightarrow> Some (max x y) | _ \<Rightarrow> None)"

definition zonedTimeToUtc :: "DateParts \<Rightarrow> zone \<Rightarrow> int option result" where
  "zonedTimeToUtc input zone =
     (let guess = partsUTC input in
      andThen (timeZoneOffset zone guess) (\<lambda>o1. let first = newDate (minusTime guess o1) in
      andThen (timeZoneOffset zone first) (\<lambda>o2. let second = newDate (minusTime guess o2) in
      andThen (timeZoneOffset zone second) (\<lambda>o3. let third = newDate (minusTime guess o3) in
        Inr (if third = second then second else laterDate first second)))))"

section \<open>Schedules\<close>

datatype AutomationFrequency = Freq_once | Freq_daily | Freq_weekly | Freq_monthly

record AutomationSchedule =
  as_frequency :: AutomationFrequency
  as_runAt :: "string option"
  as_time :: "string option"
  as_weekday :: "int option"
  as_monthDay :: "int option"
  as_timezone :: "string option"

text \<open>The pattern \<open>^([01]\d|2[0-3]):[0-5]\d$\<close>.\<close>

definition clockMinute :: "string \<Rightarrow> bool" where
  "clockMinute s \<longleftrightarrow> length s = 5 \<and> s ! 2 = CHR '':'' \<and>
     (s ! 0 \<in> set ''01'' \<and> isDigitChar (s ! 1) \<or> s ! 0 = CHR ''2'' \<and> s ! 1 \<in> set ''0123'') \<and>
     s ! 3 \<in> set ''012345'' \<and> isDigitChar (s ! 4)"

definition scheduleTimezone :: "AutomationSchedule \<Rightarrow> string" where
  "scheduleTimezone s = orElse (as_timezone s) ''Asia/Shanghai''"

definition validAutomationSchedule :: "platform \<Rightarrow> zones \<Rightarrow> AutomationSchedule \<Rightarrow> bool" where
  "validAutomationSchedule P zones s \<longleftrightarrow>
     optAll (zDatetime P) (as_runAt s) \<and> optAll clockMinute (as_time s) \<and>
     optAll (\<lambda>d. 0 \<le> d \<and> d \<le> 6) (as_weekday s) \<and> optAll (\<lambda>d. 1 \<le> d \<and> d \<le> 31) (as_monthDay s) \<and>
     optAll (\<lambda>z. lenIn 1 64 z \<and> zones z \<noteq> None) (as_timezone s) \<and>
     \<not> (as_frequency s = Freq_monthly \<and> as_monthDay s = None) \<and>
     \<not> (as_frequency s = Freq_once \<and> (case as_runAt s of None \<Rightarrow> True | Some r \<Rightarrow> r = [])) \<and>
     \<not> (as_frequency s \<noteq> Freq_once \<and> (case as_time s of None \<Rightarrow> True | Some t \<Rightarrow> t = [])) \<and>
     \<not> (as_frequency s = Freq_weekly \<and> as_weekday s = None)"

text \<open>\<open>Number\<close> of a string of digits.\<close>

definition digitsValue :: "string \<Rightarrow> int" where
  "digitsValue s = foldl (\<lambda>a c. a * 10 + (int (of_char c) - 48)) 0 s"

definition scheduleClock :: "string \<Rightarrow> int \<times> int" where
  "scheduleClock time = (case map digitsValue (splitOn (CHR '':'') time) of h # m # _ \<Rightarrow> (h, m) | _ \<Rightarrow> (0, 0))"

text \<open>The two rounds of the monthly loop: the day is cut to the last day of the month.\<close>

fun monthlyRounds :: "zone \<Rightarrow> DateParts \<Rightarrow> int \<Rightarrow> int \<times> int \<Rightarrow> int \<Rightarrow> int list \<Rightarrow> int option result" where
  "monthlyRounds zone current monthDay time after [] = Inl (JsError ''Invalid monthly schedule'')"
| "monthlyRounds zone current monthDay time after (offset # rest) =
     (case dateUTC (dp_year current) (dp_month current - 1 + offset) 1 0 0 of
        None \<Rightarrow> Inl RangeError
      | Some month \<Rightarrow>
     (case dateUTC (getUTCFullYear month) (getUTCMonth month + 1) 0 0 0 of
        None \<Rightarrow> Inl RangeError
      | Some lastDate \<Rightarrow>
          andThen (zonedTimeToUtc \<lparr>dp_year = getUTCFullYear month, dp_month = getUTCMonth month + 1,
            dp_day = min monthDay (getUTCDate lastDate), dp_hour = fst time, dp_minute = snd time\<rparr> zone) (\<lambda>result.
          case result of
            Some r \<Rightarrow> if after < r then Inr (Some r) else monthlyRounds zone current monthDay time after rest
          | None \<Rightarrow> monthlyRounds zone current monthDay time after rest)))"

text \<open>The number of days to the next daily or weekly target.\<close>

definition daysAhead :: "AutomationSchedule \<Rightarrow> int \<Rightarrow> bool \<Rightarrow> int" where
  "daysAhead s currentWeekday passed =
     (if as_frequency s = Freq_weekly then
        (let days = (orElse (as_weekday s) 0 - currentWeekday + 7) mod 7 in if days = 0 \<and> passed then 7 else days)
      else if passed then 1 else 0)"

definition nextScheduleAt :: "platform \<Rightarrow> zones \<Rightarrow> AutomationSchedule \<Rightarrow> int option \<Rightarrow> int option result" where
  "nextScheduleAt P zones s after =
     (if \<not> validAutomationSchedule P zones s then Inl ZodError
      else if as_frequency s = Freq_once then Inr (dateParse (orElse (as_runAt s) []))
      else
        let time = scheduleClock (orElse (as_time s) []) in
        (case zones (scheduleTimezone s) of
           None \<Rightarrow> Inl RangeError
         | Some zone \<Rightarrow>
        andThen (dateParts zone after) (\<lambda>current.
          if as_frequency s = Freq_monthly then
            monthlyRounds zone current (orElse (as_monthDay s) 0) time (orElse after 0) [0, 1]
          else
            (case (dateUTC (dp_year current) (dp_month current - 1) (dp_day current) (fst time) (snd time),
                dateUTC (dp_year current) (dp_month current - 1) (dp_day current) 0 0) of
               (Some candidate, Some today) \<Rightarrow>
                 let passed = (case partsUTC current of None \<Rightarrow> False | Some now \<Rightarrow> candidate \<le> now);
                     days = daysAhead s (getUTCDay today) passed in
                 (case timeClip (candidate + days * msPerDay) of
                    None \<Rightarrow> Inl RangeError
                  | Some c \<Rightarrow> zonedTimeToUtc \<lparr>dp_year = getUTCFullYear c, dp_month = getUTCMonth c + 1,
                      dp_day = getUTCDate c, dp_hour = getUTCHours c, dp_minute = getUTCMinutes c\<rparr> zone)
             | _ \<Rightarrow> Inl RangeError))))"

section \<open>Monthly business targets\<close>

record MonthlyScheduleRule =
  ms_monthDay :: int
  ms_time :: string
  ms_timezone :: string

definition validMonthlyScheduleRule :: "zones \<Rightarrow> MonthlyScheduleRule \<Rightarrow> bool" where
  "validMonthlyScheduleRule zones r \<longleftrightarrow> 1 \<le> ms_monthDay r \<and> ms_monthDay r \<le> 31 \<and> clockTime (ms_time r) \<and>
     lenIn 1 64 (ms_timezone r) \<and> zones (ms_timezone r) \<noteq> None"

definition monthlySeconds :: "MonthlyScheduleRule \<Rightarrow> int" where
  "monthlySeconds r = digitsValue (take 2 (drop 6 (ms_time r)))"

definition monthlySchedule :: "MonthlyScheduleRule \<Rightarrow> AutomationSchedule" where
  "monthlySchedule r = \<lparr>as_frequency = Freq_monthly, as_runAt = None, as_time = Some (take 5 (ms_time r)),
     as_weekday = None, as_monthDay = Some (ms_monthDay r), as_timezone = Some (ms_timezone r)\<rparr>"

definition nextMonthlyBusinessTarget :: "platform \<Rightarrow> zones \<Rightarrow> MonthlyScheduleRule \<Rightarrow> int option \<Rightarrow> int option result" where
  "nextMonthlyBusinessTarget P zones rule after =
     (if \<not> validMonthlyScheduleRule zones rule then Inl ZodError
      else case after of
          None \<Rightarrow> Inl (JsError ''invalid_monthly_clock'')
        | Some t \<Rightarrow>
            let seconds = monthlySeconds rule in
            andThen (nextScheduleAt P zones (monthlySchedule rule) (timeClip (t - seconds * 1000))) (\<lambda>target.
              Inr (case target of None \<Rightarrow> None | Some r \<Rightarrow> timeClip (r + seconds * 1000))))"

text \<open>The search runs for a number of rounds; an Invalid Date is never later than \<open>at\<close>.\<close>

fun latestRounds ::
  "platform \<Rightarrow> zones \<Rightarrow> MonthlyScheduleRule \<Rightarrow> int \<Rightarrow> nat \<Rightarrow> int option \<Rightarrow> int option option \<Rightarrow> int option result" where
  "latestRounds P zones rule at 0 target latest = Inl (JsError ''monthly_target_bound_exceeded'')"
| "latestRounds P zones rule at (Suc n) target latest =
     (if (case target of None \<Rightarrow> False | Some t \<Rightarrow> at < t) then
        (case latest of Some l \<Rightarrow> Inr l | None \<Rightarrow> Inl (JsError ''monthly_target_bound_exceeded''))
      else andThen (nextMonthlyBusinessTarget P zones rule target) (\<lambda>next.
        latestRounds P zones rule at n next (Some target)))"

definition latestMonthlyBusinessTarget :: "platform \<Rightarrow> zones \<Rightarrow> MonthlyScheduleRule \<Rightarrow> int option \<Rightarrow> int option result" where
  "latestMonthlyBusinessTarget P zones rule at =
     (if \<not> validMonthlyScheduleRule zones rule then Inl ZodError
      else case at of
          None \<Rightarrow> Inl (JsError ''invalid_monthly_clock'')
        | Some t \<Rightarrow> andThen (nextMonthlyBusinessTarget P zones rule (timeClip (t - 64 * msPerDay))) (\<lambda>target.
            latestRounds P zones rule t 4 target None))"


section \<open>Months\<close>

definition monthLen :: "int \<Rightarrow> int" where
  "monthLen k = monthLengths (k div 12) ! nat (k mod 12)"

lemma length_monthLengths [simp]: "length (monthLengths y) = 12"
  by (simp add: monthLengths_def)

lemma monthLen_range: "28 \<le> monthLen k" "monthLen k \<le> 31"
proof -
  have "nat (k mod 12) < 12" by simp
  then have "monthLen k \<in> set (monthLengths (k div 12))" unfolding monthLen_def by (intro nth_mem) simp
  then show "28 \<le> monthLen k" "monthLen k \<le> 31" by (auto simp: monthLengths_def split: if_splits)
qed

lemma div_mod_decomp_mult:
  assumes "0 < (k :: int)" "0 \<le> r" "r < k"
  shows "(k * q + r) div k = q \<and> (k * q + r) mod k = r"
  using assms by simp

lemma monthStart_next: "monthStart (k + 1) = monthStart k + monthLen k"
proof (cases "k mod 12 = 11")
  case True
  then have "k = 12 * (k div 12) + 11" using mult_div_mod_eq [of 12 k] by simp
  then obtain q where "k = 12 * q + 11" by blast
  then have k: "(k + 1) div 12 = k div 12 + 1" "(k + 1) mod 12 = 0" by simp_all
  have "sum_list (monthLengths y) = sum_list (take 11 (monthLengths y)) + monthLengths y ! 11" for y
    by (simp add: monthLengths_def)
  then show ?thesis using True by (simp add: monthStart_def monthLen_def k dayFromYear_next)
next
  case False
  define q r where "q = k div 12" and "r = k mod 12"
  have "0 \<le> r" "r < 12" "r \<noteq> 11" "k = 12 * q + r" using False by (simp_all add: q_def r_def)
  then have k: "(k + 1) div 12 = k div 12" "(k + 1) mod 12 = k mod 12 + 1"
    using div_mod_decomp_mult [of 12 r q] div_mod_decomp_mult [of 12 "r + 1" q] by (simp_all add: add.assoc)
  have n: "nat (k mod 12 + 1) = Suc (nat (k mod 12))" "nat (k mod 12) < 12" by (simp_all add: nat_add_distrib)
  then show ?thesis by (simp add: monthStart_def monthLen_def k take_Suc_conv_app_nth)
qed

lemma monthStart_mono: "j \<le> k \<Longrightarrow> monthStart j + 28 * (k - j) \<le> monthStart k"
proof (induction "nat (k - j)" arbitrary: k)
  case (Suc n)
  then have "n = nat (k - 1 - j)" "j \<le> k - 1" by auto
  then have "monthStart j + 28 * (k - 1 - j) \<le> monthStart (k - 1)" using Suc.hyps(1) [of "k - 1"] by blast
  then show ?case using monthStart_next [of "k - 1"] monthLen_range(1) [of "k - 1"] by simp
qed simp

lemma monthStart_less: "monthStart j < monthStart (k + 1) \<Longrightarrow> j \<le> k"
  using monthStart_mono [of "k + 1" j] by force

lemma monthAndDay_day:
  assumes "0 \<le> r" "r < sum_list ls" "monthAndDay m ls r = (m', d)"
  shows "int d \<le> ls ! (m' - m)"
  using assms
proof (induction m ls r rule: monthAndDay.induct)
  case (2 m l ls r)
  show ?case
  proof (cases "r < l")
    case False
    have le: "m + 1 \<le> m'" if "monthAndDay (m + 1) xs x = (m', d)" for xs x
      using that by (induction "m + 1" xs x arbitrary: m rule: monthAndDay.induct) (fastforce split: if_splits)+
    from 2(1) [OF False] 2(2-) False have "int d \<le> ls ! (m' - (m + 1))" by simp
    moreover have "m + 1 \<le> m'" using le [of ls "r - l"] 2(4) False by simp
    then have "m' - m = Suc (m' - (m + 1))" by arith
    ultimately show ?thesis by simp
  qed (use 2 in auto)
qed simp

definition monthIndex :: "int \<Rightarrow> int" where
  "monthIndex day = (case civil day of (y, m, d) \<Rightarrow> 12 * y + int m - 1)"

lemma civil_month:
  assumes "civil day = (y, m, d)"
  shows "monthStart (monthIndex day) + int d - 1 = day" "1 \<le> m" "m \<le> 12" "1 \<le> d" "int d \<le> monthLen (monthIndex day)"
    "monthIndex day = 12 * y + int m - 1" "monthLen (monthIndex day) = monthLengths y ! (m - 1)"
proof -
  have y: "y = yearFromDay day" and md: "monthAndDay 1 (monthLengths y) (day - dayFromYear y) = (m, d)"
    using assms by (auto simp: civil_def Let_def)
  show k: "monthIndex day = 12 * y + int m - 1" using assms by (simp add: monthIndex_def)
  have n: "1 \<le> m \<and> m \<le> 12 \<and> 1 \<le> d \<and> d \<le> 31 \<and> dayNumber y m d = day" using dayNumber_inverse [OF y md [symmetric]] .
  then show "1 \<le> m" "m \<le> 12" "1 \<le> d" by simp_all
  have i: "(12 * y + int m - 1) div 12 = y" "(12 * y + int m - 1) mod 12 = int m - 1"
    using n div_mod_decomp_mult [of 12 "int m - 1" y] by (simp_all add: algebra_simps)
  have m: "nat (int m - 1) = m - 1" using n by simp
  show "monthStart (monthIndex day) + int d - 1 = day"
    using n by (simp add: k monthStart_def i m dayNumber_def)
  have "0 \<le> day - dayFromYear y" "day - dayFromYear y < sum_list (monthLengths y)"
    using yearFromDay [of day] dayFromYear_next [of y] y by auto
  from monthAndDay_day [OF this md] show "int d \<le> monthLen (monthIndex day)" by (simp add: k monthLen_def i m)
  show "monthLen (monthIndex day) = monthLengths y ! (m - 1)" by (simp add: k monthLen_def i m)
qed

lemma monthIndex_bounds: "monthStart (monthIndex day) \<le> day" "day < monthStart (monthIndex day + 1)"
proof -
  obtain y m d where c: "civil day = (y, m, d)" by (cases "civil day") auto
  show "monthStart (monthIndex day) \<le> day" "day < monthStart (monthIndex day + 1)"
    using civil_month [OF c] monthStart_next [of "monthIndex day"] by linarith+
qed

lemma monthIndex_eq:
  assumes "monthStart k \<le> day" "day < monthStart (k + 1)"
  shows "monthIndex day = k"
  using assms monthIndex_bounds [of day] monthStart_less [of k "monthIndex day"] monthStart_less [of "monthIndex day" k]
  by simp

lemma civil_date: "int (snd (snd (civil day))) = day - monthStart (monthIndex day) + 1"
proof -
  obtain y m d where c: "civil day = (y, m, d)" by (cases "civil day") auto
  show ?thesis using civil_month(1) [OF c] c by simp
qed

lemma civil_fields: "12 * fst (civil day) + int (fst (snd (civil day))) = monthIndex day + 1"
proof -
  obtain y m d where c: "civil day = (y, m, d)" by (cases "civil day") auto
  show ?thesis using civil_month(6) [OF c] c by simp
qed


section \<open>Fields of a time value\<close>

text \<open>Time values of the years from 1970 on, with the margin the calculations need.\<close>

definition inEra :: "int \<Rightarrow> bool" where
  "inEra t \<longleftrightarrow> 0 \<le> t \<and> t \<le> maxTime"

lemma inEra_clip [simp]: "inEra t \<Longrightarrow> timeClip t = Some t"
  by (simp add: inEra_def timeClip_def maxTime_def)

definition toMinute :: "int \<Rightarrow> int" where
  "toMinute t = t - t mod 60000"

lemma minute_fields:
  "t div msPerDay * msPerDay + getUTCHours t * 3600000 + getUTCMinutes t * 60000 = toMinute t"
proof -
  define r where "r = t mod msPerDay"
  have "t = t div msPerDay * msPerDay + r" by (simp add: r_def)
  moreover have "t mod 60000 = r mod 60000"
    unfolding r_def by (simp add: mod_mod_cancel msPerDay_def)
  moreover have "r div 60000 = r div 3600000 * 60 + r div 60000 mod 60"
    using div_mult_mod_eq [of "r div 60000" 60] by (simp add: zdiv_zmult2_eq [symmetric])
  moreover have "r = r div 60000 * 60000 + r mod 60000" by simp
  ultimately show ?thesis unfolding toMinute_def getUTCHours_def getUTCMinutes_def r_def [symmetric] by linarith
qed

lemma day_in_era: "inEra t \<Longrightarrow> 0 \<le> t div msPerDay"
  by (simp add: inEra_def msPerDay_def pos_imp_zdiv_nonneg_iff)

lemma year_in_era:
  assumes "0 \<le> day"
  shows "1970 \<le> fst (civil day)"
proof -
  have "dayFromYear 1970 = 0" by (simp add: dayFromYear_def)
  then have "monthStart (12 * 1970) = 0" by (simp add: monthStart_def)
  then have "12 * 1970 \<le> monthIndex day"
    using monthStart_less [of "12 * 1970" "monthIndex day"] monthIndex_bounds(2) [of day] assms by simp
  then show ?thesis using civil_fields [of day] civil_month(3) [of day] by (cases "civil day") force
qed

lemma dateUTC_index:
  assumes "100 \<le> year"
  shows "dateUTC year month day hour minute =
    timeClip ((monthStart (12 * year + month) + day - 1) * msPerDay + hour * 3600000 + minute * 60000)"
  using assms by (simp add: dateUTC_def)

lemma fields_index: "12 * getUTCFullYear t + getUTCMonth t = monthIndex (t div msPerDay)"
  using civil_fields [of "t div msPerDay"] by (simp add: getUTCFullYear_def getUTCMonth_def)

lemma getUTCDate_start: "getUTCDate t = t div msPerDay - monthStart (monthIndex (t div msPerDay)) + 1"
  by (simp add: getUTCDate_def civil_date)

lemma year_of_era: "0 \<le> t \<Longrightarrow> 1970 \<le> getUTCFullYear t"
  by (simp add: getUTCFullYear_def year_in_era msPerDay_def pos_imp_zdiv_nonneg_iff)

text \<open>The fields of a time value give it back, to the minute.\<close>

lemma fields_back:
  assumes "0 \<le> t"
  shows "dateUTC (getUTCFullYear t) (getUTCMonth t) (getUTCDate t) h m =
    timeClip (t div msPerDay * msPerDay + h * 3600000 + m * 60000)"
  using year_of_era [OF assms] by (simp add: dateUTC_index fields_index getUTCDate_start)

lemma partsUTC_back:
  assumes "0 \<le> t"
  shows "partsUTC \<lparr>dp_year = getUTCFullYear t, dp_month = getUTCMonth t + 1, dp_day = getUTCDate t,
    dp_hour = getUTCHours t, dp_minute = getUTCMinutes t\<rparr> = timeClip (toMinute t)"
  using fields_back [OF assms] minute_fields [of t] by (simp add: partsUTC_def)

lemma dateParts_back:
  assumes "0 \<le> t + zone t"
  shows "dateParts zone (Some t) = Inr \<lparr>dp_year = getUTCFullYear (t + zone t), dp_month = getUTCMonth (t + zone t) + 1,
    dp_day = getUTCDate (t + zone t), dp_hour = getUTCHours (t + zone t), dp_minute = getUTCMinutes (t + zone t)\<rparr>"
  using year_of_era [OF assms] by (simp add: dateParts_def Let_def)

lemma offset_back:
  assumes "inEra (t + zone t)" "t mod 60000 = 0" "zone t mod 60000 = 0"
  shows "timeZoneOffset zone (Some t) = Inr (Some (zone t))"
proof -
  have "(t + zone t) mod 60000 = 0" using assms(2,3) by (metis add.right_neutral mod_0 mod_add_eq)
  then have "toMinute (t + zone t) = t + zone t" by (simp add: toMinute_def)
  moreover have "0 \<le> t + zone t" using assms(1) by (simp add: inEra_def)
  ultimately show ?thesis
    using assms(1) by (simp add: timeZoneOffset_def dateParts_back partsUTC_back minusTime_def)
qed

lemma partsUTC_minute: "partsUTC p = Some g \<Longrightarrow> g mod 60000 = 0"
proof -
  assume "partsUTC p = Some g"
  then obtain d where "g = d * msPerDay + dp_hour p * 3600000 + dp_minute p * 60000"
    by (auto simp: partsUTC_def dateUTC_def timeClip_def Let_def split: if_splits)
  then have "g = 60000 * (d * 1440 + dp_hour p * 60 + dp_minute p)" by (simp add: msPerDay_def)
  then show ?thesis by simp
qed

section \<open>Resolving a wall time\<close>

text \<open>What the offset is used at: the guess and the guess less either offset.\<close>

lemma zoned_resolve:
  assumes g: "partsUTC p = Some g" "86400000 \<le> g" "g \<le> maxTime - 172800000"
    and off: "\<And>t. t \<in> {g, g - a, g - b} \<Longrightarrow> zone t = a \<or> zone t = b"
    and range: "\<bar>a\<bar> \<le> 86400000" "\<bar>b\<bar> \<le> 86400000" "a mod 60000 = 0" "b mod 60000 = 0"
    and ab: "a - b \<le> 86400000" "b - a \<le> 86400000"
  shows "zonedTimeToUtc p zone = Inr (Some (
    let first = g - zone g; second = g - zone first; third = g - zone second in
      if third = second then second else max first second))"
proof -
  have o: "timeZoneOffset zone (Some t) = Inr (Some (zone t))" if t: "t \<in> {g, g - a, g - b}" for t
  proof (rule offset_back)
    have "g mod 60000 = 0" by (rule partsUTC_minute [OF g(1)])
    then show "t mod 60000 = 0" using t range(3,4) by (auto simp: mod_diff_left_eq [symmetric] mod_diff_eq [symmetric])
    show "zone t mod 60000 = 0" using off [OF t] range(3,4) by auto
    show "inEra (t + zone t)" using off [OF t] t range(1,2) ab g(2,3) by (auto simp: inEra_def abs_le_iff)
  qed
  have c: "timeClip (g - x) = Some (g - x)" if "x = a \<or> x = b" for x
    using that range(1,2) g(2,3) by (auto simp: timeClip_def maxTime_def abs_le_iff)
  have s: "g - zone t \<in> {g, g - a, g - b}" if "t \<in> {g, g - a, g - b}" for t using off [OF that] by auto
  have g0: "g \<in> {g, g - a, g - b}" by simp
  note s1 = s [OF g0] and s2 = s [OF s [OF g0]]
  show ?thesis
    unfolding zonedTimeToUtc_def Let_def g(1)
    using o [OF g0] o [OF s1] o [OF s2] c [OF off [OF g0]] c [OF off [OF s1]] c [OF off [OF s2]]
    by (simp add: minusTime_def newDate_def laterDate_def)
qed

lemma zoned_steady:
  assumes "partsUTC p = Some g" "86400000 \<le> g" "g \<le> maxTime - 172800000" "\<bar>a\<bar> \<le> 86400000" "a mod 60000 = 0"
    "zone g = a" "zone (g - a) = a"
  shows "zonedTimeToUtc p zone = Inr (Some (g - a))"
proof -
  have "\<And>t. t \<in> {g, g - a, g - a} \<Longrightarrow> zone t = a \<or> zone t = a" using assms(6,7) by auto
  from zoned_resolve [OF assms(1-3) this assms(4,4,5,5)] show ?thesis using assms(6,7) by (simp add: Let_def)
qed


text \<open>A zone with one transition in the day around a wall time.\<close>

definition oneTransition :: "zone \<Rightarrow> int \<Rightarrow> int \<Rightarrow> int \<Rightarrow> int \<Rightarrow> bool" where
  "oneTransition zone g T a b \<longleftrightarrow>
     (\<forall>t. g - 86400000 \<le> t \<and> t \<le> g + 86400000 \<longrightarrow> zone t = (if t < T then a else b)) \<and>
     \<bar>a\<bar> \<le> 86400000 \<and> \<bar>b\<bar> \<le> 86400000 \<and> \<bar>a - b\<bar> \<le> 86400000 \<and> a mod 60000 = 0 \<and> b mod 60000 = 0"

text \<open>
  Wall times are resolved as the code documents: around a change of the offset from \<open>a\<close> to \<open>b\<close>
  at the instant \<open>T\<close>, a wall time that some instant shows is resolved to such an instant, and a wall
  time that falls into the gap of a forward change is resolved to the instant whose wall time is later
  by exactly the gap, after the change.  A wall time shown twice is resolved to one instant, the
  earlier one when the wall time read as UTC lies before the change and the later one otherwise.
\<close>

theorem zoned_time_resolved:
  assumes "partsUTC p = Some g" "86400000 \<le> g" "g \<le> maxTime - 172800000" "oneTransition zone g T a b"
  shows "\<exists>r. zonedTimeToUtc p zone = Inr (Some r) \<and>
    ((\<exists>t. \<bar>t - g\<bar> \<le> 86400000 \<and> t + zone t = g) \<longrightarrow> r + zone r = g) \<and>
    ((\<nexists>t. \<bar>t - g\<bar> \<le> 86400000 \<and> t + zone t = g) \<longrightarrow> r + zone r = g + (b - a) \<and> a < b \<and> T \<le> r) \<and>
    (g - a < T \<and> T \<le> g - b \<and> a \<noteq> b \<longrightarrow> r = (if g < T then g - a else g - b))"
proof -
  have z: "zone t = (if t < T then a else b)" if "\<bar>t - g\<bar> \<le> 86400000" for t
    using assms(4) that by (auto simp: oneTransition_def abs_le_iff)
  have r: "\<bar>a\<bar> \<le> 86400000" "\<bar>b\<bar> \<le> 86400000" "a mod 60000 = 0" "b mod 60000 = 0" "a - b \<le> 86400000" "b - a \<le> 86400000"
    using assms(4) by (auto simp: oneTransition_def abs_le_iff)
  have za: "zone g = (if g < T then a else b)" "zone (g - a) = (if g - a < T then a else b)"
    "zone (g - b) = (if g - b < T then a else b)" using z [of g] z [of "g - a"] z [of "g - b"] r(1,2) by simp_all
  then have "\<And>t. t \<in> {g, g - a, g - b} \<Longrightarrow> zone t = a \<or> zone t = b" by auto
  note res = zoned_resolve [OF assms(1-3) this r]
  define result where "result = (let first = g - zone g; second = g - zone first; third = g - zone second in
      if third = second then second else max first second)"
  have shown: "(\<exists>t. \<bar>t - g\<bar> \<le> 86400000 \<and> t + zone t = g) \<longleftrightarrow> g - a < T \<or> T \<le> g - b"
  proof
    assume "\<exists>t. \<bar>t - g\<bar> \<le> 86400000 \<and> t + zone t = g"
    then show "g - a < T \<or> T \<le> g - b" using z by (smt (verit))
  next
    assume "g - a < T \<or> T \<le> g - b"
    moreover have "\<bar>g - a - g\<bar> \<le> 86400000" "\<bar>g - b - g\<bar> \<le> 86400000" using r(1,2) by auto
    ultimately show "\<exists>t. \<bar>t - g\<bar> \<le> 86400000 \<and> t + zone t = g"
      using za(2,3) by (cases "g - a < T") (auto intro: exI [of _ "g - a"] exI [of _ "g - b"])
  qed
  have "zonedTimeToUtc p zone = Inr (Some result)" unfolding result_def by (rule res)
  moreover have "g - a < T \<or> T \<le> g - b \<Longrightarrow> result + zone result = g"
    unfolding result_def Let_def using za by (auto simp: max_def)
  moreover have "\<not> (g - a < T \<or> T \<le> g - b) \<Longrightarrow> result = g - a"
    unfolding result_def Let_def using za by (auto simp: max_def)
  moreover have "g - a < T \<and> T \<le> g - b \<and> a \<noteq> b \<Longrightarrow> result = (if g < T then g - a else g - b)"
    unfolding result_def Let_def using za by (auto simp: max_def)
  ultimately show ?thesis unfolding shown using za by (intro exI [of _ result]) auto
qed


text \<open>A zone as the time zone data base has them: whole minutes of at most a day.\<close>

definition plainZone :: "zone \<Rightarrow> int \<Rightarrow> int \<Rightarrow> bool" where
  "plainZone zone lo hi \<longleftrightarrow> (\<forall>t. lo \<le> t \<and> t \<le> hi \<longrightarrow> \<bar>zone t\<bar> \<le> 86400000 \<and> zone t mod 60000 = 0)"

text \<open>The instant to which the code resolves the wall time that reads \<open>g\<close> as UTC.\<close>

definition resolveWall :: "zone \<Rightarrow> int \<Rightarrow> int" where
  "resolveWall zone g = (let first = g - zone g; second = g - zone first; third = g - zone second in
     if third = second then second else max first second)"

lemma zoned_plain:
  assumes g: "partsUTC p = Some g" "172800000 \<le> g" "g \<le> maxTime - 172800000"
    and z: "plainZone zone (g - 86400000) (g + 86400000)"
  shows "zonedTimeToUtc p zone = Inr (Some (resolveWall zone g))"
    "g - 86400000 \<le> resolveWall zone g" "resolveWall zone g \<le> g + 86400000"
proof -
  have b: "\<bar>zone t\<bar> \<le> 86400000" "zone t mod 60000 = 0" if "\<bar>t - g\<bar> \<le> 86400000" for t
    using z that by (auto simp: plainZone_def abs_le_iff)
  have near: "\<bar>g - zone t - g\<bar> \<le> 86400000" if "\<bar>t - g\<bar> \<le> 86400000" for t using b(1) [OF that] by simp
  have gm: "g mod 60000 = 0" by (rule partsUTC_minute [OF g(1)])
  have o: "timeZoneOffset zone (Some t) = Inr (Some (zone t))" if "\<bar>t - g\<bar> \<le> 86400000" "t mod 60000 = 0" for t
    using b [OF that(1)] that g(2,3) by (intro offset_back) (auto simp: inEra_def abs_le_iff)
  have m: "(g - zone t) mod 60000 = 0" if "\<bar>t - g\<bar> \<le> 86400000" for t
    using b(2) [OF that] gm by (metis mod_diff_eq diff_0_right mod_0)
  have c: "timeClip (g - zone t) = Some (g - zone t)" if "\<bar>t - g\<bar> \<le> 86400000" for t
    using b(1) [OF that] g(2,3) by (auto simp: timeClip_def maxTime_def abs_le_iff)
  have g0: "\<bar>g - g\<bar> \<le> 86400000" by simp
  note n1 = near [OF g0] and n2 = near [OF near [OF g0]]
  show "zonedTimeToUtc p zone = Inr (Some (resolveWall zone g))"
    unfolding zonedTimeToUtc_def resolveWall_def Let_def g(1)
    using o [OF g0 gm] o [OF n1 m [OF g0]] o [OF n2 m [OF n1]] c [OF g0] c [OF n1] c [OF n2]
    by (simp add: minusTime_def newDate_def laterDate_def)
  show "g - 86400000 \<le> resolveWall zone g" "resolveWall zone g \<le> g + 86400000"
    using n1 n2 near [OF n2] by (auto simp: resolveWall_def Let_def abs_le_iff max_def)
qed


section \<open>The next target where the offset is steady\<close>

definition steady :: "zone \<Rightarrow> int \<Rightarrow> int \<Rightarrow> int \<Rightarrow> bool" where
  "steady zone offset lo hi \<longleftrightarrow> (\<forall>t. lo \<le> t \<and> t \<le> hi \<longrightarrow> zone t = offset) \<and>
     \<bar>offset\<bar> \<le> 86400000 \<and> offset mod 60000 = 0"

definition timeOfDayMs :: "AutomationSchedule \<Rightarrow> int" where
  "timeOfDayMs s = (case scheduleClock (orElse (as_time s) []) of (h, m) \<Rightarrow> h * 3600000 + m * 60000)"

definition dueDay :: "AutomationSchedule \<Rightarrow> int \<Rightarrow> bool" where
  "dueDay s day = (case as_frequency s of
     Freq_once \<Rightarrow> False
   | Freq_daily \<Rightarrow> True
   | Freq_weekly \<Rightarrow> Some ((day + 4) mod 7) = as_weekday s
   | Freq_monthly \<Rightarrow> (case civil day of (y, m, d) \<Rightarrow> int d = min (orElse (as_monthDay s) 0) (monthLengths y ! (m - 1))))"

text \<open>An instant is due when its wall date is a day of the schedule and its wall time is the time of day.\<close>

definition due :: "AutomationSchedule \<Rightarrow> int \<Rightarrow> int \<Rightarrow> bool" where
  "due s offset t \<longleftrightarrow> dueDay s ((t + offset) div msPerDay) \<and> (t + offset) mod msPerDay = timeOfDayMs s"

lemma digit_range: "isDigitChar c \<Longrightarrow> 0 \<le> int (of_char c) - 48 \<and> int (of_char c) - 48 \<le> 9 \<and> c \<noteq> CHR '':''"
  by (auto simp: isDigitChar_def Let_def)

lemma scheduleClock_range:
  assumes "clockMinute s"
  shows "\<exists>h m. scheduleClock s = (h, m) \<and> 0 \<le> h \<and> h \<le> 23 \<and> 0 \<le> m \<and> m \<le> 59"
proof -
  obtain a b c d where s: "s = [a, b, CHR '':'', c, d]"
    using assms by (auto simp: clockMinute_def eval_nat_numeral length_Suc_conv)
  have ab: "a \<in> set ''01'' \<and> isDigitChar b \<or> a = CHR ''2'' \<and> b \<in> set ''0123''" and c: "c \<in> set ''012345''" and d: "isDigitChar d"
    using assms by (auto simp: clockMinute_def s)
  have "scheduleClock s = ((int (of_char a) - 48) * 10 + (int (of_char b) - 48), (int (of_char c) - 48) * 10 + (int (of_char d) - 48))"
    using ab c d digit_range [of b] digit_range [of d] by (auto simp: s scheduleClock_def digitsValue_def)
  then show ?thesis using ab c digit_range [of b] digit_range [of d] d by auto
qed

lemma timeOfDay_range:
  assumes "validAutomationSchedule P zones s" "as_frequency s \<noteq> Freq_once"
  shows "0 \<le> timeOfDayMs s \<and> timeOfDayMs s < msPerDay \<and> timeOfDayMs s mod 60000 = 0"
proof -
  obtain t where "as_time s = Some t" "clockMinute t"
    using assms by (auto simp: validAutomationSchedule_def split: option.splits)
  then obtain h m where "scheduleClock (orElse (as_time s) []) = (h, m)" "0 \<le> h" "h \<le> 23" "0 \<le> m" "m \<le> 59"
    using scheduleClock_range [of t] by auto
  moreover have "(h * 3600000 + m * 60000) mod 60000 = 0"
    using mod_mult_self2_is_0 [of "h * 60 + m" 60000] by (simp add: algebra_simps)
  ultimately show ?thesis by (simp add: timeOfDayMs_def msPerDay_def)
qed

definition monthTarget :: "int \<Rightarrow> int \<Rightarrow> int" where
  "monthTarget monthDay k = monthStart k + min monthDay (monthLen k) - 1"

lemma monthTarget_month:
  assumes "1 \<le> monthDay"
  shows "monthStart k \<le> monthTarget monthDay k" "monthTarget monthDay k < monthStart (k + 1)"
  using assms monthLen_range(1) [of k] by (auto simp: monthTarget_def monthStart_next)

lemma dueDay_monthly:
  assumes "as_frequency s = Freq_monthly" "as_monthDay s = Some md"
  shows "dueDay s day \<longleftrightarrow> day = monthTarget md (monthIndex day)"
proof -
  obtain y m d where c: "civil day = (y, m, d)" by (cases "civil day") auto
  note f = civil_month [OF c]
  show ?thesis using f(1,7) assms by (auto simp: dueDay_def c monthTarget_def)
qed

lemma steady_zoned:
  assumes "partsUTC p = Some g" "86400000 \<le> g" "g \<le> maxTime - 172800000" "steady zone offset lo hi"
    "lo + 86400000 \<le> g" "g + 86400000 \<le> hi"
  shows "zonedTimeToUtc p zone = Inr (Some (g - offset))"
  using assms by (intro zoned_steady) (auto simp: steady_def abs_le_iff)


text \<open>One round of the monthly loop.\<close>

lemma monthly_round_any:
  assumes zoned: "\<And>p. partsUTC p = Some g \<Longrightarrow> zonedTimeToUtc p zone = Inr (Some r)" and w: "0 \<le> wall"
    and k: "k = monthIndex (wall div msPerDay) + i"
    and g: "g = monthTarget md k * msPerDay + fst time * 3600000 + snd time * 60000" "0 \<le> g" "g \<le> maxTime"
    and era: "0 \<le> monthStart k" "monthStart (k + 1) * msPerDay \<le> maxTime"
  shows "monthlyRounds zone \<lparr>dp_year = getUTCFullYear wall, dp_month = getUTCMonth wall + 1, dp_day = getUTCDate wall,
      dp_hour = getUTCHours wall, dp_minute = getUTCMinutes wall\<rparr> md time after (i # rest) =
    (if after < r then Inr (Some r)
     else monthlyRounds zone \<lparr>dp_year = getUTCFullYear wall, dp_month = getUTCMonth wall + 1, dp_day = getUTCDate wall,
      dp_hour = getUTCHours wall, dp_minute = getUTCMinutes wall\<rparr> md time after rest)"
proof -
  have day: "x * msPerDay div msPerDay = x" for x by (simp add: msPerDay_def)
  have len: "monthStart (k + 1) = monthStart k + monthLen k" by (rule monthStart_next)
  have "monthStart k * msPerDay \<le> monthStart (k + 1) * msPerDay" "(monthStart (k + 1) - 1) * msPerDay \<le> monthStart (k + 1) * msPerDay"
    "0 \<le> monthStart k * msPerDay" "0 \<le> (monthStart (k + 1) - 1) * msPerDay"
    using len monthLen_range(1) [of k] era(1) by (simp_all add: msPerDay_def)
  then have clip: "timeClip (monthStart k * msPerDay) = Some (monthStart k * msPerDay)"
    "timeClip ((monthStart (k + 1) - 1) * msPerDay) = Some ((monthStart (k + 1) - 1) * msPerDay)"
    using era(2) by (auto simp: timeClip_def maxTime_def)
  let ?month = "monthStart k * msPerDay"
  have idx: "monthIndex (monthStart k) = k" "monthIndex (monthStart (k + 1) - 1) = k"
    using len monthLen_range(1) [of k] by (auto intro!: monthIndex_eq)
  have y: "100 \<le> getUTCFullYear wall" "100 \<le> getUTCFullYear ?month"
    using year_of_era [OF w] year_of_era [of ?month] era(1) by (simp_all add: msPerDay_def)
  have "12 * getUTCFullYear wall + (getUTCMonth wall + i) = k" using fields_index [of wall] k by simp
  then have month: "dateUTC (getUTCFullYear wall) (getUTCMonth wall + i) 1 0 0 = Some ?month"
    using y(1) clip(1) by (simp add: dateUTC_index)
  have f: "12 * getUTCFullYear ?month + getUTCMonth ?month = k" using fields_index [of ?month] idx(1) day by simp
  then have f1: "12 * getUTCFullYear ?month + (getUTCMonth ?month + 1) = k + 1" by simp
  have last: "dateUTC (getUTCFullYear ?month) (getUTCMonth ?month + 1) 0 0 0 = Some ((monthStart (k + 1) - 1) * msPerDay)"
    unfolding dateUTC_index [OF y(2)] f1 using clip(2) by simp
  have date: "getUTCDate ((monthStart (k + 1) - 1) * msPerDay) = monthLen k"
    unfolding getUTCDate_start day idx(2) by (simp add: len)
  have parts: "partsUTC \<lparr>dp_year = getUTCFullYear ?month, dp_month = getUTCMonth ?month + 1, dp_day = min md (monthLen k),
      dp_hour = fst time, dp_minute = snd time\<rparr> = Some g"
    using y(2) f g(1,2,3) by (simp add: partsUTC_def dateUTC_index monthTarget_def timeClip_def maxTime_def)
  show ?thesis using month last date zoned [OF parts] by simp
qed

lemma monthly_round:
  assumes st: "steady zone offset lo hi" and w: "wall = after + offset" "0 \<le> wall"
    and k: "k = monthIndex (wall div msPerDay) + i"
    and g: "g = monthTarget md k * msPerDay + fst time * 3600000 + snd time * 60000" "86400000 \<le> g" "g \<le> maxTime - 172800000"
      "lo + 86400000 \<le> g" "g + 86400000 \<le> hi"
    and era: "0 \<le> monthStart k" "monthStart (k + 1) * msPerDay \<le> maxTime"
  shows "monthlyRounds zone \<lparr>dp_year = getUTCFullYear wall, dp_month = getUTCMonth wall + 1, dp_day = getUTCDate wall,
      dp_hour = getUTCHours wall, dp_minute = getUTCMinutes wall\<rparr> md time after (i # rest) =
    (if after < g - offset then Inr (Some (g - offset))
     else monthlyRounds zone \<lparr>dp_year = getUTCFullYear wall, dp_month = getUTCMonth wall + 1, dp_day = getUTCDate wall,
      dp_hour = getUTCHours wall, dp_minute = getUTCMinutes wall\<rparr> md time after rest)"
  using g(2,3) by (intro monthly_round_any [OF steady_zoned [OF _ g(2,3) st g(4,5)] w(2) k g(1) _ _ era]) auto


lemma least_due:
  assumes tod: "0 \<le> timeOfDayMs s" "timeOfDayMs s < msPerDay" and r: "r = day * msPerDay + timeOfDayMs s - offset"
    and due: "dueDay s day" "after < r"
    and first: "\<And>d. (after + offset) div msPerDay \<le> d \<Longrightarrow> d < day \<Longrightarrow> dueDay s d \<Longrightarrow>
      d * msPerDay + timeOfDayMs s \<le> after + offset"
  shows "due s offset r \<and> (\<forall>t. after < t \<and> t < r \<longrightarrow> \<not> due s offset t)"
proof -
  have "(day * msPerDay + timeOfDayMs s) div msPerDay = day" "(day * msPerDay + timeOfDayMs s) mod msPerDay = timeOfDayMs s"
    using div_mod_decomp_mult [of msPerDay "timeOfDayMs s" day] tod by (simp_all add: mult.commute)
  then have "due s offset r" using due(1) by (simp add: due_def r)
  moreover have "\<not> due s offset t" if t: "after < t" "t < r" for t
  proof
    assume d: "due s offset t"
    define d where "d = (t + offset) div msPerDay"
    have td: "t + offset = d * msPerDay + timeOfDayMs s"
      using d div_mult_mod_eq [of "t + offset" msPerDay] by (simp add: due_def d_def)
    have "(after + offset) div msPerDay \<le> d" unfolding d_def using t(1) by (intro zdiv_mono1) (simp_all add: msPerDay_def)
    moreover have "d * msPerDay < day * msPerDay" using td t(2) r by simp
    then have "d < day" by (simp add: msPerDay_def)
    moreover have "dueDay s d" using d unfolding due_def d_def by (rule conjunct1)
    ultimately have "d * msPerDay + timeOfDayMs s \<le> after + offset" by (intro first)
    then show False using td t(1) by linarith
  qed
  ultimately show ?thesis by blast
qed

text \<open>Where the calculation takes place: the offset is steady around an instant well inside the era.\<close>

definition calmAround :: "zones \<Rightarrow> string \<Rightarrow> int \<Rightarrow> int \<Rightarrow> bool" where
  "calmAround zones name offset t \<longleftrightarrow> 60 * msPerDay \<le> t \<and> t \<le> maxTime - 80 * msPerDay \<and>
     (case zones name of None \<Rightarrow> False | Some zone \<Rightarrow> steady zone offset (t - 50 * msPerDay) (t + 70 * msPerDay))"

lemma calm_zone:
  assumes "calmAround zones name offset t"
  obtains zone where "zones name = Some zone" "steady zone offset (t - 50 * msPerDay) (t + 70 * msPerDay)"
    "60 * msPerDay \<le> t" "t \<le> maxTime - 80 * msPerDay" "\<bar>offset\<bar> \<le> msPerDay" "zone t = offset" "offset mod 60000 = 0"
  using assms by (auto simp: calmAround_def steady_def msPerDay_def split: option.splits)

text \<open>Where the wall clock stands on its day.\<close>

lemma wall_day:
  fixes wall :: int
  shows "wall div msPerDay * msPerDay \<le> wall" "wall < (wall div msPerDay + 1) * msPerDay"
  using div_mult_mod_eq [of wall msPerDay] pos_mod_bound [of msPerDay wall] pos_mod_sign [of msPerDay wall]
  by (simp_all add: msPerDay_def algebra_simps)

declare monthlyRounds.simps(2) [simp del]

definition wallParts :: "int \<Rightarrow> DateParts" where
  "wallParts wall = \<lparr>dp_year = getUTCFullYear wall, dp_month = getUTCMonth wall + 1, dp_day = getUTCDate wall,
     dp_hour = getUTCHours wall, dp_minute = getUTCMinutes wall\<rparr>"

definition monthlyAt :: "int \<Rightarrow> int \<times> int \<Rightarrow> int \<Rightarrow> int" where
  "monthlyAt md time k = monthTarget md k * msPerDay + (fst time * 3600000 + snd time * 60000)"

lemma monthly_round_calm:
  assumes z: "steady zone offset (after - 50 * msPerDay) (after + 70 * msPerDay)"
    "60 * msPerDay \<le> after" "after \<le> maxTime - 80 * msPerDay" "\<bar>offset\<bar> \<le> msPerDay"
    and wall: "wall = after + offset" and k: "k = monthIndex (wall div msPerDay)" and md: "1 \<le> md"
    and tod: "0 \<le> fst time * 3600000 + snd time * 60000" "fst time * 3600000 + snd time * 60000 < msPerDay" and i: "i = 0 \<or> i = 1"
  shows "monthlyRounds zone (wallParts wall) md time after (i # rest) =
    (if after < monthlyAt md time (k + i) - offset then Inr (Some (monthlyAt md time (k + i) - offset))
     else monthlyRounds zone (wallParts wall) md time after rest)"
  unfolding wallParts_def
proof (rule monthly_round [OF z(1) wall])
  define day where "day = wall div msPerDay"
  have w: "59 * msPerDay \<le> wall" "wall \<le> after + msPerDay" using z(2,4) by (auto simp: wall abs_le_iff)
  have wd: "day * msPerDay \<le> wall" "wall < (day + 1) * msPerDay" using wall_day [of wall] by (simp_all add: day_def)
  have mon: "monthStart k \<le> day" "day < monthStart (k + 1)" using monthIndex_bounds [of day] by (simp_all add: k day_def)
  have nxt: "monthStart (k + 1) = monthStart k + monthLen k" "monthStart (2 + k) = monthStart (k + 1) + monthLen (k + 1)"
    using monthStart_next [of k] monthStart_next [of "k + 1"] by simp_all
  note len = monthLen_range [of k] monthLen_range [of "k + 1"]
  show "0 \<le> wall" using w(1) by (simp add: msPerDay_def)
  show "k + i = monthIndex (wall div msPerDay) + i" by (simp add: k)
  let ?g = "monthlyAt md time (k + i)"
  show "?g = monthTarget md (k + i) * msPerDay + fst time * 3600000 + snd time * 60000" by (simp add: monthlyAt_def)
  have m: "monthStart (k + i) \<le> monthTarget md (k + i)" "monthTarget md (k + i) < monthStart (k + i + 1)"
    using monthTarget_month [OF md] by simp_all
  have b: "day - 31 < monthStart (k + i)" "monthStart (k + i + 1) \<le> day + 62" using i mon nxt len by auto
  have "wall - 31 * msPerDay < ?g" "?g < wall + 63 * msPerDay"
    using m b wd tod by (simp_all add: monthlyAt_def msPerDay_def)
  then show "86400000 \<le> ?g" "?g \<le> maxTime - 172800000" "after - 50 * msPerDay + 86400000 \<le> ?g"
    "?g + 86400000 \<le> after + 70 * msPerDay"
    using w z(2,3,4) by (auto simp: msPerDay_def wall abs_le_iff)
  show "0 \<le> monthStart (k + i)" using b wd(2) w(1) by (simp add: msPerDay_def)
  show "monthStart (k + i + 1) * msPerDay \<le> maxTime" using b wd(1) w(2) z(3) by (simp add: msPerDay_def)
qed

text \<open>The due days from a day of month \<open>k\<close> on are the targets of month \<open>k\<close> and later months.\<close>

lemma monthly_due_index:
  assumes "as_frequency s = Freq_monthly" "as_monthDay s = Some md" "1 \<le> md"
    and "dueDay s d" "monthStart k \<le> d" "d < monthTarget md (k + i)"
  shows "\<exists>j. d = monthTarget md (k + j) \<and> 0 \<le> j \<and> j < i"
proof -
  have dt: "d = monthTarget md (monthIndex d)" using assms(4) dueDay_monthly [OF assms(1,2)] by blast
  have "k \<le> monthIndex d" using monthStart_less [of k "monthIndex d"] monthIndex_bounds(2) [of d] assms(5) by simp
  moreover have "monthIndex d \<le> k + i"
    using monthStart_less [of "monthIndex d" "k + i"] monthIndex_bounds(1) [of d] assms(6) monthTarget_month(2) [OF assms(3), of "k + i"]
    by simp
  moreover have "monthIndex d \<noteq> k + i" using dt assms(6) by auto
  ultimately show ?thesis using dt by (intro exI [of _ "monthIndex d - k"]) simp
qed

lemma monthly_next:
  assumes calm: "calmAround zones (scheduleTimezone s) offset after"
    and v: "validAutomationSchedule P zones s" "as_frequency s = Freq_monthly"
  shows "\<exists>r. nextScheduleAt P zones s (Some after) = Inr (Some r) \<and> after < r \<and> due s offset r \<and>
    (\<forall>t. after < t \<and> t < r \<longrightarrow> \<not> due s offset t)"
proof -
  obtain md where md: "as_monthDay s = Some md" "1 \<le> md" using v by (auto simp: validAutomationSchedule_def split: option.splits)
  from calm obtain zone where z: "zones (scheduleTimezone s) = Some zone"
    "steady zone offset (after - 50 * msPerDay) (after + 70 * msPerDay)"
    "60 * msPerDay \<le> after" "after \<le> maxTime - 80 * msPerDay" "\<bar>offset\<bar> \<le> msPerDay" "zone after = offset" by (rule calm_zone)
  define wall k where "wall = after + offset" and "k = monthIndex (wall div msPerDay)"
  define time where "time = scheduleClock (orElse (as_time s) [])"
  have tm: "timeOfDayMs s = fst time * 3600000 + snd time * 60000" by (simp add: timeOfDayMs_def time_def split: prod.splits)
  have tod: "0 \<le> timeOfDayMs s" "timeOfDayMs s < msPerDay" using timeOfDay_range [OF v(1)] v(2) by simp_all
  note round = monthly_round_calm [OF z(2-5) wall_def k_def md(2) tod [unfolded tm]]
  have mon: "monthStart k \<le> wall div msPerDay" "wall div msPerDay < monthStart (k + 1)"
    using monthIndex_bounds [of "wall div msPerDay"] by (simp_all add: k_def)
  have at: "monthlyAt md time j = monthTarget md j * msPerDay + timeOfDayMs s" for j by (simp add: monthlyAt_def tm)
  have late: "after < monthlyAt md time (k + 1) - offset"
    using monthTarget_month(1) [OF md(2), of "k + 1"] mon(2) wall_day(2) [of wall] tod(1) by (simp add: at wall_def msPerDay_def)
  have "dateParts zone (Some after) = Inr (wallParts wall)"
    unfolding wallParts_def wall_def using dateParts_back [of after zone] z(3,5,6) by (simp add: msPerDay_def)
  then have "nextScheduleAt P zones s (Some after) = monthlyRounds zone (wallParts wall) md time after [0, 1]"
    using v z(1) md(1) by (simp add: nextScheduleAt_def time_def Let_def)
  moreover define i where "i = (if after < monthlyAt md time k - offset then 0 else 1 :: int)"
  ultimately have run: "nextScheduleAt P zones s (Some after) = Inr (Some (monthlyAt md time (k + i) - offset))"
    using round [of 0 "[1]"] round [of 1 "[]"] late by simp
  have later: "after < monthlyAt md time (k + i) - offset" using late by (simp add: i_def)
  have "due s offset (monthlyAt md time (k + i) - offset) \<and>
    (\<forall>t. after < t \<and> t < monthlyAt md time (k + i) - offset \<longrightarrow> \<not> due s offset t)"
  proof (rule least_due [OF tod _ _ later])
    show "monthlyAt md time (k + i) - offset = monthTarget md (k + i) * msPerDay + timeOfDayMs s - offset" by (simp add: at)
    show "dueDay s (monthTarget md (k + i))"
      unfolding dueDay_monthly [OF v(2) md(1)] using monthIndex_eq [OF monthTarget_month [OF md(2)]] by simp
    fix d assume d: "(after + offset) div msPerDay \<le> d" "d < monthTarget md (k + i)" "dueDay s d"
    from monthly_due_index [OF v(2) md(1,2) d(3) _ d(2)] obtain j where j: "d = monthTarget md (k + j)" "0 \<le> j" "j < i"
      using mon(1) d(1) by (auto simp: wall_def)
    then have "j = 0" "\<not> after < monthlyAt md time k - offset" by (auto simp: i_def split: if_splits)
    then have "d = monthTarget md k" "\<not> after < monthlyAt md time k - offset" using j(1) by simp_all
    then show "d * msPerDay + timeOfDayMs s \<le> after + offset" by (simp add: at)
  qed
  then show ?thesis using run later by blast
qed


lemma weekday_ahead:
  fixes day weekday :: int
  assumes "0 \<le> weekday" "weekday \<le> 6" "ahead = (weekday - (day + 4) mod 7 + 7) mod 7"
  shows "(day + ahead + 4) mod 7 = weekday \<and> 0 \<le> ahead \<and> ahead < 7"
    "day \<le> d \<Longrightarrow> (d + 4) mod 7 = weekday \<Longrightarrow> d = day + ahead \<or> day + ahead + 7 \<le> d"
proof -
  define q r where "q = (day + 4) div 7" and "r = (day + 4) mod 7"
  have r: "0 \<le> r" "r < 7" "day = 7 * q + r - 4" by (simp_all add: q_def r_def)
  have ahead: "ahead = (if r \<le> weekday then weekday - r else weekday - r + 7)"
  proof (cases "r \<le> weekday")
    case False
    then have "(weekday - r + 7) mod 7 = weekday - r + 7" using assms(1) r(2) by (intro mod_pos_pos_trivial) auto
    then show ?thesis using assms(3) False by (simp only: r_def [symmetric] if_False)
  qed (use assms r(1,2) in \<open>auto simp: r_def [symmetric]\<close>)
  define n where "n = (if r \<le> weekday then q else q + 1)"
  have n: "day + ahead + 4 = 7 * n + weekday" using r(3) by (simp add: ahead n_def)
  then show "(day + ahead + 4) mod 7 = weekday \<and> 0 \<le> ahead \<and> ahead < 7"
    using ahead assms(1,2) r(1,2) div_mod_decomp_mult [of 7 weekday n] by auto
  assume d: "day \<le> d" "(d + 4) mod 7 = weekday"
  define m where "m = (d + 4) div 7"
  have dm: "d + 4 = 7 * m + weekday" using d(2) mult_div_mod_eq [of 7 "d + 4"] by (simp add: m_def)
  have "n \<le> m"
  proof (cases "r \<le> weekday")
    case True
    have "7 * q < 7 * m + 7" using dm d(1) r assms(2) by linarith
    then show ?thesis using True by (simp add: n_def)
  next
    case False
    have "7 * q < 7 * m" using dm d(1) r False by linarith
    then show ?thesis using False by (simp add: n_def)
  qed
  then show "d = day + ahead \<or> day + ahead + 7 \<le> d" using n dm by (cases "n = m") auto
qed

text \<open>The day the code moves to is the first due day that is not already past.\<close>

lemma daysAhead_first:
  assumes v: "validAutomationSchedule P zones s" "as_frequency s = Freq_daily \<or> as_frequency s = Freq_weekly"
    and x: "x = daysAhead s ((day + 4) mod 7) passed"
  shows "dueDay s (day + x)" "0 \<le> x" "x \<le> 7" "passed \<Longrightarrow> 1 \<le> x"
    "day \<le> d \<Longrightarrow> d < day + x \<Longrightarrow> dueDay s d \<Longrightarrow> d = day \<and> passed"
proof -
  have "dueDay s (day + x) \<and> 0 \<le> x \<and> x \<le> 7 \<and> (passed \<longrightarrow> 1 \<le> x) \<and>
    (\<forall>d. day \<le> d \<longrightarrow> d < day + x \<longrightarrow> dueDay s d \<longrightarrow> d = day \<and> passed)"
  proof (cases "as_frequency s = Freq_weekly")
    case True
    then obtain wd where wd: "as_weekday s = Some wd" "0 \<le> wd" "wd \<le> 6"
      using v(1) by (auto simp: validAutomationSchedule_def split: option.splits)
    define a where "a = (wd - (day + 4) mod 7 + 7) mod 7"
    note ahead = weekday_ahead [OF wd(2,3) a_def]
    have xa: "x = (if a = 0 \<and> passed then 7 else a)" by (simp add: x daysAhead_def True wd(1) a_def Let_def)
    have due: "dueDay s d \<longleftrightarrow> (d + 4) mod 7 = wd" for d by (simp add: dueDay_def True wd(1))
    have "(day + x + 4) mod 7 = wd"
    proof (cases "a = 0 \<and> passed")
      case True
      then have "day + x + 4 = day + 4 + 7" by (simp add: xa)
      then show ?thesis using ahead(1) True by (simp only: mod_add_self2) simp
    next
      case False
      then have "x = a" by (auto simp: xa)
      then show ?thesis using ahead(1) by simp
    qed
    moreover have "0 \<le> x" "x \<le> 7" "passed \<longrightarrow> 1 \<le> x" using ahead(1) by (auto simp: xa)
    moreover have "d = day \<and> passed" if "day \<le> d" "d < day + x" "dueDay s d" for d
      using ahead(2) [of d] that ahead(1) by (auto simp: due xa split: if_splits)
    ultimately show ?thesis unfolding due by blast
  next
    case False
    then show ?thesis using v(2) by (auto simp: x daysAhead_def dueDay_def)
  qed
  then show "dueDay s (day + x)" "0 \<le> x" "x \<le> 7" "passed \<Longrightarrow> 1 \<le> x"
    "day \<le> d \<Longrightarrow> d < day + x \<Longrightarrow> dueDay s d \<Longrightarrow> d = day \<and> passed" by blast+
qed

lemma minute_passed:
  fixes c wall :: int
  assumes "c mod 60000 = 0"
  shows "c \<le> toMinute wall \<longleftrightarrow> c \<le> wall"
proof -
  define a b r where "a = c div 60000" and "b = wall div 60000" and "r = wall mod 60000"
  have "c = 60000 * a" "wall = 60000 * b + r" "0 \<le> r" "r < 60000"
    using assms mult_div_mod_eq [of 60000 c] by (simp_all add: a_def b_def r_def)
  moreover have "toMinute wall = wall - r" by (simp add: toMinute_def r_def)
  ultimately show ?thesis by auto
qed

lemma daily_next:
  assumes calm: "calmAround zones (scheduleTimezone s) offset after"
    and v: "validAutomationSchedule P zones s" "as_frequency s = Freq_daily \<or> as_frequency s = Freq_weekly"
  shows "\<exists>r. nextScheduleAt P zones s (Some after) = Inr (Some r) \<and> after < r \<and> due s offset r \<and>
    (\<forall>t. after < t \<and> t < r \<longrightarrow> \<not> due s offset t)"
proof -
  from calm obtain zone where z: "zones (scheduleTimezone s) = Some zone"
    "steady zone offset (after - 50 * msPerDay) (after + 70 * msPerDay)"
    "60 * msPerDay \<le> after" "after \<le> maxTime - 80 * msPerDay" "\<bar>offset\<bar> \<le> msPerDay" "zone after = offset" by (rule calm_zone)
  define wall day where "wall = after + offset" and "day = wall div msPerDay"
  have tod: "0 \<le> timeOfDayMs s" "timeOfDayMs s < msPerDay" "timeOfDayMs s mod 60000 = 0"
    using timeOfDay_range [OF v(1)] v(2) by auto
  have w: "59 * msPerDay \<le> wall" "wall \<le> maxTime - 79 * msPerDay" using z(3-5) by (auto simp: wall_def abs_le_iff)
  have wd: "day * msPerDay \<le> wall" "wall < (day + 1) * msPerDay" using wall_day [of wall] by (simp_all add: day_def)
  define c where "c = day * msPerDay + timeOfDayMs s"
  have cm: "c mod 60000 = 0" using tod(3) by (simp add: c_def msPerDay_def mod_add_eq [symmetric])
  define x where "x = daysAhead s ((day + 4) mod 7) (c \<le> wall)"
  note dx = daysAhead_first [OF v x_def]
  define g where "g = (day + x) * msPerDay + timeOfDayMs s"
  have g: "g = c + x * msPerDay" by (simp add: g_def c_def algebra_simps)
  have gr: "wall - msPerDay < g" "g < wall + 9 * msPerDay" using dx(2,3) wd tod(1,2) by (simp_all add: g_def msPerDay_def)
  obtain h m where hm: "scheduleClock (orElse (as_time s) []) = (h, m)" by (cases "scheduleClock (orElse (as_time s) [])")
  have clip: "timeClip c = Some c" "timeClip (day * msPerDay) = Some (day * msPerDay)" "timeClip g = Some g"
    "timeClip (toMinute wall) = Some (toMinute wall)"
    using w wd tod gr by (auto simp: timeClip_def c_def maxTime_def msPerDay_def toMinute_def)
  have w0: "0 \<le> wall" "0 \<le> g" using w(1) gr(1) by (simp_all add: msPerDay_def)
  have parts: "dateParts zone (Some after) = Inr (wallParts wall)"
    unfolding wallParts_def wall_def using dateParts_back [of after zone] w0(1) z(6) by (simp add: wall_def)
  have fields: "dateUTC (dp_year (wallParts wall)) (dp_month (wallParts wall) - 1) (dp_day (wallParts wall)) h m = Some c"
    "dateUTC (dp_year (wallParts wall)) (dp_month (wallParts wall) - 1) (dp_day (wallParts wall)) 0 0 = Some (day * msPerDay)"
    "partsUTC (wallParts wall) = Some (toMinute wall)"
    using fields_back [OF w0(1)] partsUTC_back [OF w0(1)] clip hm
    by (simp_all add: wallParts_def day_def [symmetric] c_def timeOfDayMs_def add.assoc)
  have "getUTCDay (day * msPerDay) = (day + 4) mod 7" by (simp add: getUTCDay_def msPerDay_def)
  then have "nextScheduleAt P zones s (Some after) = zonedTimeToUtc (wallParts g) zone"
    using v z(1) parts fields hm clip(3) minute_passed [OF cm, of wall]
    by (auto simp: nextScheduleAt_def x_def g wallParts_def)
  moreover have "partsUTC (wallParts g) = Some g"
    using partsUTC_back [OF w0(2)] clip(3) cm by (simp add: wallParts_def toMinute_def g msPerDay_def mod_add_eq [symmetric])
  moreover have "86400000 \<le> g" "g \<le> maxTime - 172800000" "after - 50 * msPerDay + 86400000 \<le> g"
    "g + 86400000 \<le> after + 70 * msPerDay"
    using gr w z(5) by (auto simp: wall_def msPerDay_def abs_le_iff)
  ultimately have run: "nextScheduleAt P zones s (Some after) = Inr (Some (g - offset))"
    using steady_zoned [OF _ _ _ z(2)] by simp
  have later: "after < g - offset"
  proof (cases "c \<le> wall")
    case True
    then have "day + 1 \<le> day + x" using dx(4) by simp
    then have "(day + 1) * msPerDay \<le> (day + x) * msPerDay" by (simp add: msPerDay_def)
    then show ?thesis using wd(2) tod(1) by (simp add: g_def wall_def)
  next
    case False
    then show ?thesis using dx(2) by (simp add: g wall_def msPerDay_def)
  qed
  have "due s offset (g - offset) \<and> (\<forall>t. after < t \<and> t < g - offset \<longrightarrow> \<not> due s offset t)"
    using dx(5) by (intro least_due [OF tod(1,2) _ dx(1) later]) (auto simp: g_def day_def wall_def c_def)
  then show ?thesis using run later by blast
qed

text \<open>
  (C17) The next target of a recurring schedule: where the zone's offset does not change within fifty
  days before and seventy days after \<open>after\<close>, \<open>nextScheduleAt\<close> returns, and what it returns is the
  least due instant strictly after \<open>after\<close>: its wall time is the time of day of the schedule, its wall
  date is any day, the weekday, or the day of the month cut to the month's last day, and no instant in
  between is due.
\<close>

theorem next_schedule_least_due:
  assumes "calmAround zones (scheduleTimezone s) offset after" "validAutomationSchedule P zones s"
    "as_frequency s \<noteq> Freq_once"
  shows "\<exists>r. nextScheduleAt P zones s (Some after) = Inr (Some r) \<and> after < r \<and> due s offset r \<and>
    (\<forall>t. after < t \<and> t < r \<longrightarrow> \<not> due s offset t)"
  using monthly_next [OF assms(1,2)] daily_next [OF assms(1,2)] assms(3) by (cases "as_frequency s") auto


section \<open>The latest missed month\<close>

lemma monthTarget_gap:
  assumes "1 \<le> md"
  shows "monthTarget md k + 28 \<le> monthTarget md (k + 1)" "monthTarget md (k + 1) \<le> monthTarget md k + 31"
  using monthLen_range [of k] monthLen_range [of "k + 1"] by (auto simp: monthTarget_def monthStart_next min_def)

lemma monthTarget_apart:
  assumes "1 \<le> md" "j < k"
  shows "monthTarget md j + 28 \<le> monthTarget md k"
proof (cases "k = j + 1")
  case False
  then have "monthStart (j + 1) + 28 * (k - (j + 1)) \<le> monthStart k" using assms(2) by (intro monthStart_mono) simp
  moreover have "28 \<le> 28 * (k - (j + 1))" using False assms(2) by simp
  ultimately show ?thesis using monthTarget_month [OF assms(1), of j] monthTarget_month [OF assms(1), of k] by linarith
qed (use monthTarget_gap [OF assms(1)] in simp)

lemma due_monthly_iff:
  assumes "as_frequency s = Freq_monthly" "as_monthDay s = Some md" "1 \<le> md" "0 \<le> timeOfDayMs s" "timeOfDayMs s < msPerDay"
  shows "due s offset t \<longleftrightarrow> (\<exists>k. t + offset = monthTarget md k * msPerDay + timeOfDayMs s)"
proof
  assume "due s offset t"
  then have "(t + offset) div msPerDay = monthTarget md (monthIndex ((t + offset) div msPerDay))"
    "(t + offset) mod msPerDay = timeOfDayMs s"
    using dueDay_monthly [OF assms(1,2)] by (auto simp: due_def)
  then show "\<exists>k. t + offset = monthTarget md k * msPerDay + timeOfDayMs s"
    by (metis div_mult_mod_eq)
next
  assume "\<exists>k. t + offset = monthTarget md k * msPerDay + timeOfDayMs s"
  then obtain k where "t + offset = monthTarget md k * msPerDay + timeOfDayMs s" by blast
  then have "(t + offset) div msPerDay = monthTarget md k" "(t + offset) mod msPerDay = timeOfDayMs s"
    using div_mod_decomp_mult [of msPerDay "timeOfDayMs s" "monthTarget md k"] assms(4,5) by (simp_all add: mult.commute)
  then show "due s offset t"
    using dueDay_monthly [OF assms(1,2)] monthIndex_eq [OF monthTarget_month [OF assms(3)]] by (simp add: due_def)
qed

text \<open>Monthly due instants lie between 28 and 31 days apart.\<close>

lemma monthly_due_spacing:
  assumes "as_frequency s = Freq_monthly" "as_monthDay s = Some md" "1 \<le> md" "0 \<le> timeOfDayMs s" "timeOfDayMs s < msPerDay"
  shows "\<exists>t. u < t \<and> t \<le> u + 31 * msPerDay \<and> due s offset t"
    "due s offset t \<Longrightarrow> due s offset t' \<Longrightarrow> t < t' \<Longrightarrow> t + 28 * msPerDay \<le> t'"
proof -
  note iff = due_monthly_iff [OF assms]
  define day k where "day = (u + offset) div msPerDay" and "k = monthIndex day"
  define g where "g j = monthTarget md j * msPerDay + timeOfDayMs s - offset" for j
  have due: "due s offset (g j)" for j unfolding iff g_def by auto
  have wd: "day * msPerDay \<le> u + offset" "u + offset < (day + 1) * msPerDay" using wall_day [of "u + offset"] by (simp_all add: day_def)
  have "monthStart k \<le> day" "day < monthStart (k + 1)" using monthIndex_bounds [of day] by (simp_all add: k_def)
  then have m: "monthTarget md (k - 1) + 1 \<le> day" "day + 1 \<le> monthTarget md (k + 1)"
    using monthTarget_month(2) [OF assms(3), of "k - 1"] monthTarget_month(1) [OF assms(3), of "k + 1"] by simp_all
  have "(monthTarget md (k - 1) + 1) * msPerDay \<le> day * msPerDay" "(day + 1) * msPerDay \<le> monthTarget md (k + 1) * msPerDay"
    using m by (simp_all add: msPerDay_def)
  then have low: "g (k - 1) \<le> u" and high: "u < g (k + 1)"
    using wd assms(4,5) by (simp_all add: g_def algebra_simps)
  have "g (j + 1) \<le> g j + 31 * msPerDay" for j
    using monthTarget_gap(2) [OF assms(3), of j] by (simp add: g_def msPerDay_def)
  from this [of "k - 1"] this [of k] show "\<exists>t. u < t \<and> t \<le> u + 31 * msPerDay \<and> due s offset t"
    using low high due [of k] due [of "k + 1"] by (cases "u < g k") auto
  assume "due s offset t" "due s offset t'" "t < t'"
  then obtain j j' where j: "t + offset = monthTarget md j * msPerDay + timeOfDayMs s"
    "t' + offset = monthTarget md j' * msPerDay + timeOfDayMs s" using iff by auto
  then have "monthTarget md j < monthTarget md j'" using \<open>t < t'\<close> by (simp add: msPerDay_def)
  then have "j < j'" using monthTarget_apart [OF assms(3), of j' j] by (cases "j = j'") force+
  then show "t + 28 * msPerDay \<le> t'" using monthTarget_apart [OF assms(3)] j by (fastforce simp: msPerDay_def)
qed

definition dueMonthly :: "MonthlyScheduleRule \<Rightarrow> int \<Rightarrow> int \<Rightarrow> bool" where
  "dueMonthly rule offset t \<longleftrightarrow> due (monthlySchedule rule) offset (t - monthlySeconds rule * 1000)"


lemma clockTime_parts:
  assumes "clockTime s"
  shows "clockMinute (take 5 s)" "0 \<le> digitsValue (take 2 (drop 6 s)) \<and> digitsValue (take 2 (drop 6 s)) \<le> 59"
proof -
  obtain a b c d e f where s: "s = [a, b, CHR '':'', c, d, CHR '':'', e, f]"
    using assms by (auto simp: clockTime_def eval_nat_numeral length_Suc_conv)
  show "clockMinute (take 5 s)" using assms by (simp add: s clockTime_def clockMinute_def)
  have "e \<in> set ''012345''" "isDigitChar f" using assms by (simp_all add: s clockTime_def)
  then show "0 \<le> digitsValue (take 2 (drop 6 s)) \<and> digitsValue (take 2 (drop 6 s)) \<le> 59"
    using digit_range [of f] by (auto simp: s digitsValue_def)
qed

lemma monthly_rule_schedule:
  assumes "validMonthlyScheduleRule zones rule"
  shows "validAutomationSchedule P zones (monthlySchedule rule)" "as_frequency (monthlySchedule rule) = Freq_monthly"
    "as_monthDay (monthlySchedule rule) = Some (ms_monthDay rule)" "1 \<le> ms_monthDay rule"
    "scheduleTimezone (monthlySchedule rule) = ms_timezone rule"
    "0 \<le> monthlySeconds rule" "monthlySeconds rule \<le> 59"
    "0 \<le> timeOfDayMs (monthlySchedule rule)" "timeOfDayMs (monthlySchedule rule) < msPerDay"
proof -
  have c: "clockTime (ms_time rule)" using assms by (simp add: validMonthlyScheduleRule_def)
  have "take 5 (ms_time rule) \<noteq> []" using c by (auto simp: clockTime_def)
  then show v: "validAutomationSchedule P zones (monthlySchedule rule)"
    using assms clockTime_parts(1) [OF c]
    by (auto simp: validAutomationSchedule_def monthlySchedule_def validMonthlyScheduleRule_def)
  show f: "as_frequency (monthlySchedule rule) = Freq_monthly" by (simp add: monthlySchedule_def)
  show "0 \<le> timeOfDayMs (monthlySchedule rule)" "timeOfDayMs (monthlySchedule rule) < msPerDay"
    using timeOfDay_range [OF v] f by simp_all
  show "0 \<le> monthlySeconds rule" "monthlySeconds rule \<le> 59" using clockTime_parts(2) [OF c] by (simp_all add: monthlySeconds_def)
qed (use assms in \<open>simp_all add: monthlySchedule_def validMonthlyScheduleRule_def scheduleTimezone_def\<close>)

text \<open>Where the search takes place: the offset is steady over the months searched.\<close>

definition calmSearch :: "zones \<Rightarrow> string \<Rightarrow> int \<Rightarrow> int \<Rightarrow> bool" where
  "calmSearch zones name offset t \<longleftrightarrow> 130 * msPerDay \<le> t \<and> t \<le> maxTime - 80 * msPerDay \<and>
     (case zones name of None \<Rightarrow> False | Some zone \<Rightarrow> steady zone offset (t - 120 * msPerDay) (t + 70 * msPerDay))"

lemma calmSearch_around:
  assumes "calmSearch zones name offset at" "at - 65 * msPerDay \<le> t" "t \<le> at"
  shows "calmAround zones name offset t"
  using assms by (auto simp: calmSearch_def calmAround_def steady_def msPerDay_def split: option.splits)

lemma next_monthly_target:
  assumes v: "validMonthlyScheduleRule zones rule" and calm: "calmSearch zones (ms_timezone rule) offset at"
    and t: "at - 64 * msPerDay \<le> t" "t \<le> at"
  shows "\<exists>r. nextMonthlyBusinessTarget P zones rule (Some t) = Inr (Some r) \<and> dueMonthly rule offset r \<and>
    t < r \<and> r \<le> t + 31 * msPerDay \<and> (\<forall>u. t < u \<and> u < r \<longrightarrow> \<not> dueMonthly rule offset u)"
proof -
  let ?s = "monthlySchedule rule" and ?x = "monthlySeconds rule * 1000"
  note m = monthly_rule_schedule [OF v]
  have "calmAround zones (scheduleTimezone ?s) offset (t - ?x)"
    using calmSearch_around [OF calm, of "t - ?x"] t m(5,6,7) by (simp add: msPerDay_def)
  from monthly_next [OF this m(1,2)] obtain r where r: "nextScheduleAt P zones ?s (Some (t - ?x)) = Inr (Some r)"
    "t - ?x < r" "due ?s offset r" "\<forall>u. t - ?x < u \<and> u < r \<longrightarrow> \<not> due ?s offset u" by auto
  obtain u where "t - ?x < u" "u \<le> t - ?x + 31 * msPerDay" "due ?s offset u"
    using monthly_due_spacing(1) [OF m(2,3,4,8,9)] by blast
  then have near: "r \<le> t - ?x + 31 * msPerDay" using r(4) by force
  have "timeClip (t - ?x) = Some (t - ?x)" "timeClip (r + ?x) = Some (r + ?x)"
    using calm t m(6,7) r(2) near by (auto simp: timeClip_def calmSearch_def maxTime_def msPerDay_def)
  then have "nextMonthlyBusinessTarget P zones rule (Some t) = Inr (Some (r + ?x))"
    using v r(1) by (simp add: nextMonthlyBusinessTarget_def Let_def)
  then show ?thesis using r near by (intro exI [of _ "r + ?x"]) (auto simp: dueMonthly_def)
qed

lemma dueMonthly_apart:
  assumes "validMonthlyScheduleRule zones rule" "dueMonthly rule offset t" "dueMonthly rule offset t'" "t < t'"
  shows "t + 28 * msPerDay \<le> t'"
  using monthly_due_spacing(2) [OF monthly_rule_schedule(2,3,4,8,9) [OF assms(1)], of offset "t - monthlySeconds rule * 1000"
    "t' - monthlySeconds rule * 1000"] assms(2-4) by (simp add: dueMonthly_def)

lemma latest_monthly_steady:
  assumes v: "validMonthlyScheduleRule zones rule" and calm: "calmSearch zones (ms_timezone rule) offset at"
  shows "\<exists>r. latestMonthlyBusinessTarget P zones rule (Some at) = Inr (Some r) \<and> dueMonthly rule offset r \<and> r \<le> at \<and>
    (\<forall>t. r < t \<and> t \<le> at \<longrightarrow> \<not> dueMonthly rule offset t)"
proof -
  note nxt = next_monthly_target [OF v calm, where P = P] and apart = dueMonthly_apart [OF v]
  have ms: "msPerDay = 86400000" by (simp add: msPerDay_def)
  from nxt [of "at - 64 * msPerDay"] obtain t0 where t0: "nextMonthlyBusinessTarget P zones rule (Some (at - 64 * msPerDay)) = Inr (Some t0)"
    "dueMonthly rule offset t0" "at - 64 * msPerDay < t0" "t0 \<le> at - 33 * msPerDay" by (auto simp: ms)
  from nxt [of t0] t0 obtain t1 where t1: "nextMonthlyBusinessTarget P zones rule (Some t0) = Inr (Some t1)"
    "dueMonthly rule offset t1" "t0 < t1" "t1 \<le> at - 2 * msPerDay" by (auto simp: ms)
  from nxt [of t1] t0 t1 obtain t2 where t2: "nextMonthlyBusinessTarget P zones rule (Some t1) = Inr (Some t2)"
    "dueMonthly rule offset t2" "t1 < t2" "\<forall>u. t1 < u \<and> u < t2 \<longrightarrow> \<not> dueMonthly rule offset u" by (auto simp: ms)
  have clip: "timeClip (at - 64 * msPerDay) = Some (at - 64 * msPerDay)"
    using calm by (simp add: calmSearch_def timeClip_def maxTime_def ms)
  have start: "latestMonthlyBusinessTarget P zones rule (Some at) = latestRounds P zones rule at 2 (Some t2) (Some (Some t1))"
    using v clip t0 t1 t2 by (simp add: latestMonthlyBusinessTarget_def numeral_eq_Suc ms)
  show ?thesis
  proof (cases "at < t2")
    case True
    then have "latestMonthlyBusinessTarget P zones rule (Some at) = Inr (Some t1)"
      unfolding start by (simp add: numeral_eq_Suc)
    then show ?thesis using t1 t2 True by (intro exI [of _ t1]) (auto simp: ms)
  next
    case False
    from nxt [of t2] False t0 t1 t2 obtain t3 where t3: "nextMonthlyBusinessTarget P zones rule (Some t2) = Inr (Some t3)"
      "dueMonthly rule offset t3" "t2 < t3" "\<forall>u. t2 < u \<and> u < t3 \<longrightarrow> \<not> dueMonthly rule offset u" by (auto simp: ms)
    have "at < t3" using apart [OF t0(2) t1(2,3)] apart [OF t1(2) t2(2,3)] apart [OF t2(2) t3(2,3)] t0(3) by (simp add: ms)
    then have "latestMonthlyBusinessTarget P zones rule (Some at) = Inr (Some t2)"
      unfolding start using False t3(1) by (simp add: numeral_eq_Suc)
    then show ?thesis using t2(2) t3 False \<open>at < t3\<close> by (intro exI [of _ t2]) auto
  qed
qed


section \<open>The latest missed month in any zone\<close>

text \<open>
  The target of month \<open>k\<close>, counted from January of year 0: the instant to which the code resolves
  the rule's wall time in this month, to the minute, and with the seconds added afterwards.
\<close>

definition monthlyWall :: "MonthlyScheduleRule \<Rightarrow> int \<Rightarrow> int" where
  "monthlyWall rule k = monthlyAt (ms_monthDay rule) (scheduleClock (take 5 (ms_time rule))) k"

definition monthlyMinute :: "zone \<Rightarrow> MonthlyScheduleRule \<Rightarrow> int \<Rightarrow> int" where
  "monthlyMinute zone rule k = resolveWall zone (monthlyWall rule k)"

definition monthlyTarget :: "zone \<Rightarrow> MonthlyScheduleRule \<Rightarrow> int \<Rightarrow> int" where
  "monthlyTarget zone rule k = monthlyMinute zone rule k + monthlySeconds rule * 1000"

definition plainSearch :: "zone \<Rightarrow> int \<Rightarrow> bool" where
  "plainSearch zone at \<longleftrightarrow> 130 * msPerDay \<le> at \<and> at \<le> maxTime - 80 * msPerDay \<and>
     plainZone zone (at - 100 * msPerDay) (at + 70 * msPerDay)"

text \<open>The month the wall clock shows at an instant.\<close>

definition wallMonth :: "zone \<Rightarrow> int \<Rightarrow> int" where
  "wallMonth zone t = monthIndex ((t + zone t) div msPerDay)"

lemma monthlyWall_apart:
  assumes "validMonthlyScheduleRule zones rule" "j < k"
  shows "monthlyWall rule j + 28 * msPerDay \<le> monthlyWall rule k"
  using monthTarget_apart [OF monthly_rule_schedule(4) [OF assms(1)] assms(2)]
  by (simp add: monthlyWall_def monthlyAt_def msPerDay_def)

lemma monthlyWall_month:
  assumes v: "validMonthlyScheduleRule zones rule"
  shows "monthStart k * msPerDay \<le> monthlyWall rule k" "monthlyWall rule k < monthStart (k + 1) * msPerDay"
proof -
  note m = monthly_rule_schedule [OF v]
  have tod: "timeOfDayMs (monthlySchedule rule) = fst (scheduleClock (take 5 (ms_time rule))) * 3600000
      + snd (scheduleClock (take 5 (ms_time rule))) * 60000"
    by (simp add: timeOfDayMs_def monthlySchedule_def split: prod.splits)
  show "monthStart k * msPerDay \<le> monthlyWall rule k" "monthlyWall rule k < monthStart (k + 1) * msPerDay"
    using monthTarget_month [OF m(4), of k] m(8,9)
    by (simp_all add: monthlyWall_def monthlyAt_def tod msPerDay_def)
qed

text \<open>What one call looks at and returns, in any zone.\<close>

lemma next_monthly_any:
  assumes v: "validMonthlyScheduleRule zones rule" and zone: "zones (ms_timezone rule) = Some zone"
    and p: "plainSearch zone at" and t: "at - 64 * msPerDay \<le> t" "t \<le> at"
    and u: "u = t - monthlySeconds rule * 1000" and k: "k = wallMonth zone u"
  shows "nextMonthlyBusinessTarget P zones rule (Some t) =
      (if u < monthlyMinute zone rule k then Inr (Some (monthlyTarget zone rule k))
       else if u < monthlyMinute zone rule (k + 1) then Inr (Some (monthlyTarget zone rule (k + 1)))
       else Inl (JsError ''Invalid monthly schedule''))"
    "i = 0 \<or> i = 1 \<Longrightarrow> \<bar>monthlyMinute zone rule (k + i) - monthlyWall rule (k + i)\<bar> \<le> msPerDay"
    "monthlyTarget zone rule (k + 1) < t + 64 * msPerDay"
proof -
  let ?s = "monthlySchedule rule" and ?g = "monthlyWall rule" and ?R = "monthlyMinute zone rule"
  note m = monthly_rule_schedule [OF v]
  have ms: "msPerDay = 86400000" by (simp add: msPerDay_def)
  have ur: "at - 65 * msPerDay < u" "u \<le> at" using t m(6,7) by (simp_all add: u ms)
  define wall day where "wall = u + zone u" and "day = wall div msPerDay"
  have pz: "plainZone zone (at - 100 * msPerDay) (at + 70 * msPerDay)" and at: "130 * msPerDay \<le> at" "at \<le> maxTime - 80 * msPerDay"
    using p by (simp_all add: plainSearch_def)
  have zu: "\<bar>zone u\<bar> \<le> msPerDay" using pz ur by (auto simp: plainZone_def ms)
  have w: "u - msPerDay \<le> wall" "wall \<le> u + msPerDay" using zu by (auto simp: wall_def)
  have w0: "0 \<le> wall" using w(1) ur(1) at(1) by (simp add: ms)
  have wd: "day * msPerDay \<le> wall" "wall < (day + 1) * msPerDay" using wall_day [of wall] by (simp_all add: day_def)
  have kd: "k = monthIndex day" by (simp add: k wallMonth_def day_def wall_def)
  have mon: "monthStart k \<le> day" "day < monthStart (k + 1)" using monthIndex_bounds [of day] by (simp_all add: kd)
  have nxt: "monthStart (k + 1) = monthStart k + monthLen k" "monthStart (k + 1 + 1) = monthStart (k + 1) + monthLen (k + 1)"
    by (rule monthStart_next)+
  note len = monthLen_range [of k] monthLen_range [of "k + 1"]
  have b: "day - 31 < monthStart (k + i) \<and> monthStart (k + i + 1) \<le> day + 62" if "i = 0 \<or> i = 1" for i
    using that mon nxt len by auto
  have g: "wall - 32 * msPerDay < ?g (k + i) \<and> ?g (k + i) < wall + 62 * msPerDay" if "i = 0 \<or> i = 1" for i
    using b [OF that] monthlyWall_month [OF v, of "k + i"] wd by (simp add: ms)
  have gw: "172800000 \<le> ?g (k + i)" "?g (k + i) \<le> maxTime - 172800000"
    "plainZone zone (?g (k + i) - 86400000) (?g (k + i) + 86400000)" if "i = 0 \<or> i = 1" for i
    using g [OF that] w ur at pz by (auto simp: plainZone_def ms)
  have zoned: "zonedTimeToUtc q zone = Inr (Some (?R (k + i)))" if "i = 0 \<or> i = 1" "partsUTC q = Some (?g (k + i))" for i q
    unfolding monthlyMinute_def by (rule zoned_plain(1) [OF that(2) gw [OF that(1)]])
  have near: "\<bar>?R (k + i) - ?g (k + i)\<bar> \<le> msPerDay" if "i = 0 \<or> i = 1" for i
  proof -
    have "partsUTC (wallParts (?g (k + i))) = timeClip (toMinute (?g (k + i)))"
      using partsUTC_back [of "?g (k + i)"] gw(1) [OF that] by (simp add: wallParts_def)
    moreover have "toMinute (?g (k + i)) = ?g (k + i)"
      by (simp add: toMinute_def monthlyWall_def monthlyAt_def ms)
    ultimately have "partsUTC (wallParts (?g (k + i))) = Some (?g (k + i))"
      using gw(1,2) [OF that] by (simp add: timeClip_def)
    from zoned_plain(2,3) [OF this gw [OF that]] show ?thesis by (simp add: monthlyMinute_def ms abs_le_iff)
  qed
  then show "i = 0 \<or> i = 1 \<Longrightarrow> \<bar>?R (k + i) - ?g (k + i)\<bar> \<le> msPerDay" .
  show "monthlyTarget zone rule (k + 1) < t + 64 * msPerDay"
    using near [of 1] g [of 1] w by (simp add: monthlyTarget_def u abs_le_iff ms)
  have round: "monthlyRounds zone (wallParts wall) (ms_monthDay rule) (scheduleClock (take 5 (ms_time rule))) u (i # rest) =
    (if u < ?R (k + i) then Inr (Some (?R (k + i)))
     else monthlyRounds zone (wallParts wall) (ms_monthDay rule) (scheduleClock (take 5 (ms_time rule))) u rest)"
    if i: "i = 0 \<or> i = 1" for i rest
    unfolding wallParts_def
  proof (rule monthly_round_any [OF zoned [OF i] w0])
    show "k + i = monthIndex (wall div msPerDay) + i" by (simp add: kd day_def)
    show "?g (k + i) = monthTarget (ms_monthDay rule) (k + i) * msPerDay + fst (scheduleClock (take 5 (ms_time rule))) * 3600000
        + snd (scheduleClock (take 5 (ms_time rule))) * 60000" by (simp add: monthlyWall_def monthlyAt_def)
    show "0 \<le> ?g (k + i)" "?g (k + i) \<le> maxTime" using gw(1,2) [OF i] by simp_all
    show "0 \<le> monthStart (k + i)" using b [OF i] wd(2) w(1) ur(1) at(1) by (simp add: ms)
    show "monthStart (k + i + 1) * msPerDay \<le> maxTime" using b [OF i] wd(1) w(2) ur(2) at(2) by (simp add: ms)
  qed
  have parts: "dateParts zone (Some u) = Inr (wallParts wall)"
    unfolding wallParts_def wall_def using dateParts_back [of u zone] w0 by (simp add: wall_def)
  have "nextScheduleAt P zones ?s (Some u) =
      monthlyRounds zone (wallParts wall) (ms_monthDay rule) (scheduleClock (take 5 (ms_time rule))) u [0, 1]"
    using m(1) [of P] m(5) zone parts by (simp add: nextScheduleAt_def Let_def) (simp add: monthlySchedule_def)
  also have "\<dots> = (if u < ?R k then Inr (Some (?R k)) else if u < ?R (k + 1) then Inr (Some (?R (k + 1)))
      else Inl (JsError ''Invalid monthly schedule''))"
    using round [of 0 "[1]"] round [of 1 "[]"] by simp
  finally have run: "nextScheduleAt P zones ?s (Some u) = \<dots>" .
  have clipU: "timeClip u = Some u" using ur at by (simp add: timeClip_def ms maxTime_def)
  have clip: "timeClip (?R (k + i) + monthlySeconds rule * 1000) = Some (monthlyTarget zone rule (k + i))"
    if "i = 0 \<or> i = 1" for i
    using near [OF that] g [OF that] w ur at m(6,7) by (auto simp: timeClip_def monthlyTarget_def ms abs_le_iff maxTime_def)
  show "nextMonthlyBusinessTarget P zones rule (Some t) =
      (if u < ?R k then Inr (Some (monthlyTarget zone rule k))
       else if u < ?R (k + 1) then Inr (Some (monthlyTarget zone rule (k + 1)))
       else Inl (JsError ''Invalid monthly schedule''))"
    using v run clipU clip [of 0] clip [of 1] by (simp add: nextMonthlyBusinessTarget_def Let_def u)
qed

text \<open>From the target of one month the call goes to that of the next month, or throws.\<close>

definition clockWentBack :: "zone \<Rightarrow> MonthlyScheduleRule \<Rightarrow> int \<Rightarrow> bool" where
  "clockWentBack zone rule t \<longleftrightarrow> monthlyMinute zone rule (wallMonth zone t + 1) \<le> t"

lemma next_from_target:
  assumes v: "validMonthlyScheduleRule zones rule" and zone: "zones (ms_timezone rule) = Some zone"
    and p: "plainSearch zone at" and j: "at - 64 * msPerDay \<le> monthlyTarget zone rule j" "monthlyTarget zone rule j \<le> at"
      "\<bar>monthlyMinute zone rule j - monthlyWall rule j\<bar> \<le> msPerDay"
  shows "nextMonthlyBusinessTarget P zones rule (Some (monthlyTarget zone rule j)) = Inr (Some (monthlyTarget zone rule (j + 1))) \<and>
      monthlyTarget zone rule j + 26 * msPerDay \<le> monthlyTarget zone rule (j + 1) \<and>
      \<bar>monthlyMinute zone rule (j + 1) - monthlyWall rule (j + 1)\<bar> \<le> msPerDay \<or>
    nextMonthlyBusinessTarget P zones rule (Some (monthlyTarget zone rule j)) = Inl (JsError ''Invalid monthly schedule'') \<and>
      clockWentBack zone rule (monthlyMinute zone rule j)"
proof -
  let ?R = "monthlyMinute zone rule" and ?g = "monthlyWall rule"
  note m = monthly_rule_schedule [OF v]
  have ms: "msPerDay = 86400000" by (simp add: msPerDay_def)
  define k where "k = wallMonth zone (?R j)"
  have u: "?R j = monthlyTarget zone rule j - monthlySeconds rule * 1000" by (simp add: monthlyTarget_def)
  note nx = next_monthly_any [OF v zone p j(1,2) u k_def]
  have "at - 100 * msPerDay \<le> ?R j" "?R j \<le> at + 70 * msPerDay" using j(1,2) m(6,7) by (simp_all add: u ms)
  then have zu: "\<bar>zone (?R j)\<bar> \<le> msPerDay" using p by (auto simp: plainSearch_def plainZone_def ms)
  define day where "day = (?R j + zone (?R j)) div msPerDay"
  have "day * msPerDay \<le> ?R j + zone (?R j)" using wall_day [of "?R j + zone (?R j)"] by (simp add: day_def)
  then have "day < monthStart (j + 1) + 2" using monthlyWall_month(2) [OF v, of j] j(3) zu by (simp add: ms abs_le_iff)
  moreover have "monthStart k \<le> day" using monthIndex_bounds [of day] by (simp add: k_def wallMonth_def day_def)
  ultimately have "monthStart k < monthStart (j + 1 + 1)"
    using monthStart_next [of "j + 1"] monthLen_range [of "j + 1"] by linarith
  then have kj: "k \<le> j + 1" by (rule monthStart_less)
  have near: "\<bar>?R k - ?g k\<bar> \<le> msPerDay" "\<bar>?R (k + 1) - ?g (k + 1)\<bar> \<le> msPerDay" using nx(2) [of 0] nx(2) [of 1] by simp_all
  have gap: "?R i + 26 * msPerDay \<le> ?R l" if "i < l" "\<bar>?R i - ?g i\<bar> \<le> msPerDay" "\<bar>?R l - ?g l\<bar> \<le> msPerDay" for i l
    using monthlyWall_apart [OF v that(1)] that(2,3) by (simp add: ms abs_le_iff)
  consider "k = j + 1" | "k = j" | "k < j" using kj by linarith
  then show ?thesis
  proof cases
    case 1
    then show ?thesis using nx(1) gap [of j k] j(3) near(1) by (auto simp: monthlyTarget_def ms)
  next
    case 2
    then show ?thesis using nx(1) gap [of j "k + 1"] j(3) near(2) by (auto simp: monthlyTarget_def ms)
  next
    case 3
    have "?R k + 26 * msPerDay \<le> ?R j" by (rule gap [OF 3 near(1) j(3)])
    moreover have "?R (k + 1) \<le> ?R j"
      using 3 gap [OF _ near(2) j(3)] by (cases "k + 1 = j") (auto simp: ms)
    ultimately show ?thesis using nx(1) by (simp add: clockWentBack_def k_def [symmetric] ms)
  qed
qed

definition latestOutcome :: "zone \<Rightarrow> MonthlyScheduleRule \<Rightarrow> int \<Rightarrow> int option result \<Rightarrow> bool" where
  "latestOutcome zone rule at out \<longleftrightarrow> (case out of
     Inr r \<Rightarrow> \<exists>k. r = Some (monthlyTarget zone rule k) \<and> monthlyTarget zone rule k \<le> at \<and> at < monthlyTarget zone rule (k + 1)
   | Inl e \<Rightarrow> e = JsError ''Invalid monthly schedule'' \<and>
       (\<exists>t. at - 65 * msPerDay \<le> t \<and> t \<le> at \<and> clockWentBack zone rule t))"

lemma latestRounds_any:
  assumes v: "validMonthlyScheduleRule zones rule" and zone: "zones (ms_timezone rule) = Some zone" and p: "plainSearch zone at"
    and "at - 64 * msPerDay \<le> monthlyTarget zone rule j" "monthlyTarget zone rule j \<le> at"
      "\<bar>monthlyMinute zone rule j - monthlyWall rule j\<bar> \<le> msPerDay"
      "at < monthlyTarget zone rule j + int n * (26 * msPerDay)"
  shows "latestOutcome zone rule at (latestRounds P zones rule at (Suc n) (Some (monthlyTarget zone rule j)) latest)"
  using assms(4-7)
proof (induction n arbitrary: j latest)
  case (Suc n)
  let ?M = "monthlyTarget zone rule" and ?next = "nextMonthlyBusinessTarget P zones rule (Some (monthlyTarget zone rule j))"
  have run: "latestRounds P zones rule at (Suc (Suc n)) (Some (?M j)) latest =
      andThen ?next (\<lambda>x. latestRounds P zones rule at (Suc n) x (Some (Some (?M j))))"
    using Suc.prems(2) by simp
  from next_from_target [OF v zone p Suc.prems(1-3), where P = P] show ?case
  proof (elim disjE conjE)
    assume nxt: "?next = Inr (Some (?M (j + 1)))" "?M j + 26 * msPerDay \<le> ?M (j + 1)"
      "\<bar>monthlyMinute zone rule (j + 1) - monthlyWall rule (j + 1)\<bar> \<le> msPerDay"
    show ?case
    proof (cases "at < ?M (j + 1)")
      case True
      then show ?thesis unfolding run nxt(1) using Suc.prems(2) by (auto simp: latestOutcome_def)
    next
      case False
      have "at - 64 * msPerDay \<le> ?M (j + 1)" "at < ?M (j + 1) + int n * (26 * msPerDay)"
        using Suc.prems(1,4) nxt(2) by (simp_all add: msPerDay_def)
      from Suc.IH [OF this(1) _ nxt(3) this(2)] False show ?thesis
        unfolding run nxt(1) by (simp del: latestRounds.simps)
    qed
  next
    assume err: "?next = Inl (JsError ''Invalid monthly schedule'')" "clockWentBack zone rule (monthlyMinute zone rule j)"
    have "at - 65 * msPerDay \<le> monthlyMinute zone rule j" "monthlyMinute zone rule j \<le> at"
      using Suc.prems(1,2) monthly_rule_schedule(6,7) [OF v] by (simp_all add: monthlyTarget_def msPerDay_def)
    then show ?case unfolding run err(1) using err(2) by (auto simp: latestOutcome_def)
  qed
qed simp

lemma latest_monthly_any:
  assumes v: "validMonthlyScheduleRule zones rule" and zone: "zones (ms_timezone rule) = Some zone" and p: "plainSearch zone at"
  shows "latestOutcome zone rule at (latestMonthlyBusinessTarget P zones rule (Some at))"
proof -
  let ?M = "monthlyTarget zone rule" and ?R = "monthlyMinute zone rule" and ?g = "monthlyWall rule"
  have ms: "msPerDay = 86400000" by (simp add: msPerDay_def)
  define t u k where "t = at - 64 * msPerDay" and "u = t - monthlySeconds rule * 1000" and "k = wallMonth zone u"
  have t: "at - 64 * msPerDay \<le> t" "t \<le> at" by (simp_all add: t_def ms)
  note nx = next_monthly_any [OF v zone p t u_def k_def]
  have near: "\<bar>?R k - ?g k\<bar> \<le> msPerDay" "\<bar>?R (k + 1) - ?g (k + 1)\<bar> \<le> msPerDay" using nx(2) [of 0] nx(2) [of 1] by simp_all
  have "?M k \<le> ?M (k + 1)"
    using monthlyWall_apart [OF v, of k "k + 1"] near by (simp add: monthlyTarget_def ms abs_le_iff)
  then have le: "?M k \<le> at" "?M (k + 1) \<le> at" using nx(3) by (simp_all add: t_def)
  have "timeClip t = Some t" using p by (simp add: t_def plainSearch_def timeClip_def ms maxTime_def)
  then have run: "latestMonthlyBusinessTarget P zones rule (Some at) =
      andThen (nextMonthlyBusinessTarget P zones rule (Some t)) (\<lambda>x. latestRounds P zones rule at (Suc 3) x None)"
    using v by (simp add: latestMonthlyBusinessTarget_def t_def eval_nat_numeral del: latestRounds.simps)
  have go: "latestOutcome zone rule at (latestRounds P zones rule at (Suc 3) (Some (?M j)) None)"
    if "u < ?R j" "?M j \<le> at" "\<bar>?R j - ?g j\<bar> \<le> msPerDay" for j
    using that by (intro latestRounds_any [OF v zone p]) (simp_all add: monthlyTarget_def u_def t_def ms)
  have "at - 65 * msPerDay \<le> u" "u \<le> at" using monthly_rule_schedule(6,7) [OF v] by (simp_all add: u_def t_def ms)
  then have "latestOutcome zone rule at (Inl (JsError ''Invalid monthly schedule''))" if "\<not> u < ?R (k + 1)"
    using that by (auto simp: latestOutcome_def clockWentBack_def k_def)
  then show ?thesis
    unfolding run nx(1) using go [of k] go [of "k + 1"] le near by (auto simp del: latestRounds.simps)
qed

text \<open>
  (C33) The latest missed month.  In any time zone whose offsets around the months searched are whole
  minutes of at most a day, with or without changes of the offset, the bounded search never runs out
  of its four rounds: it returns the target of a month that is not after \<open>at\<close>, where the target of the
  next month is after \<open>at\<close>, or it throws \<open>Invalid monthly schedule\<close>, and that only when the clock went
  back over the start of a month: at some instant searched the wall clock shows a month although the
  target of the following month has passed.  Where moreover the offset is steady over the months
  searched, it always returns, and what it returns is the greatest due instant that is not after \<open>at\<close>.
\<close>

theorem latest_monthly_target:
  assumes "validMonthlyScheduleRule zones rule" "zones (ms_timezone rule) = Some zone" "plainSearch zone at"
  shows "(case latestMonthlyBusinessTarget P zones rule (Some at) of
      Inr r \<Rightarrow> (\<exists>k. r = Some (monthlyTarget zone rule k) \<and> monthlyTarget zone rule k \<le> at \<and> at < monthlyTarget zone rule (k + 1))
    | Inl e \<Rightarrow> e = JsError ''Invalid monthly schedule'' \<and>
        (\<exists>t. at - 65 * msPerDay \<le> t \<and> t \<le> at \<and> monthlyMinute zone rule (wallMonth zone t + 1) \<le> t)) \<and>
    (\<forall>offset. calmSearch zones (ms_timezone rule) offset at \<longrightarrow>
      (\<exists>r. latestMonthlyBusinessTarget P zones rule (Some at) = Inr (Some r) \<and> dueMonthly rule offset r \<and> r \<le> at \<and>
        (\<forall>t. r < t \<and> t \<le> at \<longrightarrow> \<not> dueMonthly rule offset t)))"
  using latest_monthly_any [OF assms, of P] latest_monthly_steady [OF assms(1)]
  unfolding latestOutcome_def clockWentBack_def by blast

section \<open>Concrete zones\<close>

text \<open>New York around the two changes of 2026, and Shanghai.\<close>

definition newYork2026 :: zone where
  "newYork2026 t = (if 1772953200000 \<le> t \<and> t < 1793512800000 then - 14400000 else - 18000000)"

definition sampleZones :: zones where
  "sampleZones name = (if name = ''America/New_York'' then Some newYork2026
     else if name = ''Asia/Shanghai'' then Some (\<lambda>_. 28800000) else None)"

definition gapParts :: DateParts where
  "gapParts = \<lparr>dp_year = 2026, dp_month = 3, dp_day = 8, dp_hour = 2, dp_minute = 30\<rparr>"

definition sampleDaily :: AutomationSchedule where
  "sampleDaily = \<lparr>as_frequency = Freq_daily, as_runAt = None, as_time = Some ''01:30'', as_weekday = None,
     as_monthDay = None, as_timezone = Some ''America/New_York''\<rparr>"

definition sampleMonthly :: AutomationSchedule where
  "sampleMonthly = \<lparr>as_frequency = Freq_monthly, as_runAt = None, as_time = Some ''08:00'', as_weekday = None,
     as_monthDay = Some 31, as_timezone = None\<rparr>"

definition sampleRule :: MonthlyScheduleRule where
  "sampleRule = \<lparr>ms_monthDay = 31, ms_time = ''02:30:45'', ms_timezone = ''Asia/Shanghai''\<rparr>"

lemma gapParts_utc: "partsUTC gapParts = Some 1772937000000"
  by code_simp

theorem zoned_time_resolved_witness:
  "\<exists>r. zonedTimeToUtc gapParts newYork2026 = Inr (Some r) \<and> r + newYork2026 r = 1772937000000 + 3600000"
proof -
  have one: "oneTransition newYork2026 1772937000000 1772953200000 (- 18000000) (- 14400000)"
    by (simp add: oneTransition_def newYork2026_def)
  have gap: "\<nexists>t. \<bar>t - 1772937000000\<bar> \<le> 86400000 \<and> t + newYork2026 t = 1772937000000"
    by (auto simp: newYork2026_def split: if_splits)
  from zoned_time_resolved [OF gapParts_utc _ _ one] gap show ?thesis by (auto simp: maxTime_def)
qed

lemma sample_calm:
  "calmAround sampleZones ''Asia/Shanghai'' 28800000 1769860800000" "calmSearch sampleZones ''Asia/Shanghai'' 28800000 1769860800000"
  by (simp_all add: calmAround_def calmSearch_def sampleZones_def steady_def msPerDay_def maxTime_def)

theorem next_schedule_least_due_witness:
  "\<exists>r. nextScheduleAt samplePlatform sampleZones sampleMonthly (Some 1769860800000) = Inr (Some r) \<and> 1769860800000 < r \<and>
     due sampleMonthly 28800000 r"
proof -
  have "validAutomationSchedule samplePlatform sampleZones sampleMonthly"
    by (simp add: validAutomationSchedule_def sampleMonthly_def clockMinute_def isDigitChar_def)
  moreover have "scheduleTimezone sampleMonthly = ''Asia/Shanghai''" by (simp add: scheduleTimezone_def sampleMonthly_def)
  moreover have "as_frequency sampleMonthly \<noteq> Freq_once" by (simp add: sampleMonthly_def)
  ultimately show ?thesis
    using next_schedule_least_due [of sampleZones sampleMonthly 28800000 1769860800000 samplePlatform] sample_calm(1) by auto
qed

text \<open>In New York, over the change of the first of November 2026: the latest target of a rule for the
  first of the month, seen on the fifteenth of November, lies in the repeated hour.\<close>

definition newYorkRule :: MonthlyScheduleRule where
  "newYorkRule = \<lparr>ms_monthDay = 1, ms_time = ''01:30:45'', ms_timezone = ''America/New_York''\<rparr>"

lemma latest_in_new_york:
  "latestMonthlyBusinessTarget samplePlatform sampleZones newYorkRule (Some 1794700800000) = Inr (Some 1793511045000)"
  by code_simp

theorem latest_monthly_target_witness:
  "(\<exists>k. monthlyTarget newYork2026 newYorkRule k = 1793511045000 \<and> 1794700800000 < monthlyTarget newYork2026 newYorkRule (k + 1)) \<and>
   (\<exists>r. latestMonthlyBusinessTarget samplePlatform sampleZones sampleRule (Some 1769860800000) = Inr (Some r) \<and>
     dueMonthly sampleRule 28800000 r \<and> r \<le> 1769860800000)"
proof -
  have v: "validMonthlyScheduleRule sampleZones sampleRule" "validMonthlyScheduleRule sampleZones newYorkRule"
    by (simp_all add: validMonthlyScheduleRule_def sampleRule_def newYorkRule_def clockTime_def isDigitChar_def lenIn_def sampleZones_def)
  have z: "sampleZones (ms_timezone sampleRule) = Some (\<lambda>_. 28800000)" "sampleZones (ms_timezone newYorkRule) = Some newYork2026"
    by (simp_all add: sampleRule_def newYorkRule_def sampleZones_def)
  have p: "plainSearch (\<lambda>_. 28800000) 1769860800000" "plainSearch newYork2026 1794700800000"
    by (auto simp: plainSearch_def plainZone_def msPerDay_def maxTime_def newYork2026_def)
  have "ms_timezone sampleRule = ''Asia/Shanghai''" by (simp add: sampleRule_def)
  then show ?thesis
    using latest_monthly_target [OF v(1) z(1) p(1), of samplePlatform] sample_calm(2)
      latest_monthly_target [OF v(2) z(2) p(2), of samplePlatform, unfolded latest_in_new_york] by auto
qed

text \<open>
  The clock going back over the start of a month: in 2009 St. John's set it back from 00:01 on the first
  of November to 23:01 on the last of October.  In the repeated hour, at 03:00 UTC, the wall clock shows
  October, and the target on the first of November at 00:00 is resolved to 02:30 UTC, which has passed.
  A search that begins there throws.
\<close>

definition stJohns2009 :: zone where
  "stJohns2009 t = (if 1236490260000 \<le> t \<and> t < 1257042660000 then - 9000000 else - 12600000)"

definition stJohnsRule :: MonthlyScheduleRule where
  "stJohnsRule = \<lparr>ms_monthDay = 1, ms_time = ''00:00:00'', ms_timezone = ''America/St_Johns''\<rparr>"

lemma month_start_overlap_throws:
  "nextMonthlyBusinessTarget samplePlatform (\<lambda>_. Some stJohns2009) stJohnsRule (Some 1257044400000) =
     Inl (JsError ''Invalid monthly schedule'') \<and>
   latestMonthlyBusinessTarget samplePlatform (\<lambda>_. Some stJohns2009) stJohnsRule (Some 1262574000000) =
     Inl (JsError ''Invalid monthly schedule'')"
  by code_simp

text \<open>
  Around a backward change west of Greenwich the daily target need not lie in the future: at 06:15 UTC
  on the first of November 2026, in the repeated hour of New York, the next daily run at 01:30 is given
  as 05:30 UTC, three quarters of an hour earlier.
\<close>

theorem next_schedule_repeats_in_overlap:
  "nextScheduleAt samplePlatform sampleZones sampleDaily (Some 1793513700000) = Inr (Some 1793511000000)"
  by code_simp

end
