(* ===== verification/CalendarState.thy ===== *)
theory CalendarState
  imports ScheduleTime
begin

text \<open>
  packages/database/src/native-schedule-calendar-state.ts: a calendar parent whose business periods
  are armed with rotating one-shot native tasks.  A period names its current arm; an arm is prepared,
  created, bound to a native task and finally received.  Controls, revisions, periods and arms are
  typed records with their schema as a predicate; native tasks are JavaScript values and their
  decoder is a parameter.  Shown: an accepted put leaves a valid binding with the same identities, a
  period yields at most one occurrence over any accepted puts, and a pending occurrence was admitted.
\<close>

section \<open>Controls and revisions\<close>

definition nativeCalendarTitle :: string where "nativeCalendarTitle = ''AllRice once control''"

definition nativeCalendarPrompt :: string where
  "nativeCalendarPrompt = ''Synthetic schedule control only. Never execute business work.''"

definition calendarPartition :: string where "calendarPartition = ''allrice-recurring-v1''"

definition validCalendarWriterIdentity :: "NativeOnceFence \<Rightarrow> bool" where
  "validCalendarWriterIdentity f \<longleftrightarrow> lenIn 1 512 (fe_partitionId f) \<and> lenIn 1 512 (fe_ownerId f) \<and>
     zPositive (fe_epoch f) \<and> checksumOk (fe_tokenDigest f)"

datatype CalendarDispatch = DispatchExperience string string | DispatchMonthly string string string

record NativeCalendarControl =
  cc_partitionId :: string
  cc_controlId :: string
  cc_organizationId :: string
  cc_workspaceId :: string
  cc_ownerId :: string
  cc_automationId :: string
  cc_revision :: int
  cc_controlSessionId :: string
  cc_reference :: NativeOnceReference
  cc_sessionState :: OnceSession
  cc_dispatch :: CalendarDispatch

fun validCalendarDispatch :: "platform \<Rightarrow> CalendarDispatch \<Rightarrow> bool" where
  "validCalendarDispatch P (DispatchExperience a i) = (zUuid P a \<and> zUuid P i)"
| "validCalendarDispatch P (DispatchMonthly a i s) = (zUuid P a \<and> zUuid P i \<and> zUuid P s)"

definition validCalendarControl :: "platform \<Rightarrow> NativeCalendarControl \<Rightarrow> bool" where
  "validCalendarControl P c \<longleftrightarrow> cc_partitionId c = calendarPartition \<and> zUuid P (cc_controlId c) \<and>
     zUuid P (cc_organizationId c) \<and> zUuid P (cc_workspaceId c) \<and> zUuid P (cc_ownerId c) \<and>
     zUuid P (cc_automationId c) \<and> zPositive (cc_revision c) \<and> lenIn 1 512 (cc_controlSessionId c) \<and>
     lenIn 1 512 (nr_artifactId (cc_reference c)) \<and> nr_profileId (cc_reference c) = ''allrice-recurring-control-v1'' \<and>
     lenIn 1 512 (nr_storageId (cc_reference c)) \<and> lenIn 1 512 (nr_stateRoot (cc_reference c)) \<and>
     validCalendarDispatch P (cc_dispatch c)"

record NativeExperienceCalendarRevision =
  er_revision :: int
  er_schedule :: AutomationSchedule
  er_ruleRevision :: int
  er_policyRevision :: int
  er_policyDigest :: string
  er_reservationDigest :: string
  er_acceptedAt :: string

record NativeMonthlyCalendarRevision =
  mr_revision :: int
  mr_contentDigest :: string
  mr_rule :: MonthlyScheduleRule
  mr_reservationDigest :: string
  mr_acceptedAt :: string

datatype NativeCalendarRevision =
    RevisionExperience NativeExperienceCalendarRevision
  | RevisionMonthly NativeMonthlyCalendarRevision

fun calendarRevision :: "NativeCalendarRevision \<Rightarrow> int" where
  "calendarRevision (RevisionExperience v) = er_revision v"
| "calendarRevision (RevisionMonthly v) = mr_revision v"

text \<open>\<open>v.consumer === c.dispatch.consumer\<close>.\<close>

fun sameConsumer :: "NativeCalendarRevision \<Rightarrow> CalendarDispatch \<Rightarrow> bool" where
  "sameConsumer (RevisionExperience _) (DispatchExperience _ _) = True"
| "sameConsumer (RevisionMonthly _) (DispatchMonthly _ _ _) = True"
| "sameConsumer _ _ = False"

text \<open>Parsing a revision fills in the default time zone of its schedule.\<close>

fun parseCalendarRevision :: "platform \<Rightarrow> zones \<Rightarrow> NativeCalendarRevision \<Rightarrow> NativeCalendarRevision result" where
  "parseCalendarRevision P zones (RevisionExperience v) =
     (if zPositive (er_revision v) \<and> validAutomationSchedule P zones (er_schedule v) \<and>
        as_frequency (er_schedule v) \<noteq> Freq_once \<and> zPositive (er_ruleRevision v) \<and> zPositive (er_policyRevision v) \<and>
        checksumOk (er_policyDigest v) \<and> checksumOk (er_reservationDigest v) \<and> isoExact (er_acceptedAt v)
      then Inr (RevisionExperience (v\<lparr>er_schedule := (er_schedule v)\<lparr>as_timezone := Some (scheduleTimezone (er_schedule v))\<rparr>\<rparr>))
      else Inl ZodError)"
| "parseCalendarRevision P zones (RevisionMonthly v) =
     (if zPositive (mr_revision v) \<and> checksumOk (mr_contentDigest v) \<and> validMonthlyScheduleRule zones (mr_rule v) \<and>
        checksumOk (mr_reservationDigest v) \<and> isoExact (mr_acceptedAt v)
      then Inr (RevisionMonthly v) else Inl ZodError)"

section \<open>Periods and arms\<close>

datatype CalendarPeriodState = Period_prepared | Period_recovery_required | Period_bound | Period_received

record NativeCalendarPeriod =
  cp_periodId :: string
  cp_partitionId :: string
  cp_controlId :: string
  cp_automationId :: string
  cp_revision :: int
  cp_businessScheduledFor :: string
  cp_currentArmId :: string
  cp_state :: CalendarPeriodState
  cp_version :: int

definition validCalendarPeriod :: "platform \<Rightarrow> NativeCalendarPeriod \<Rightarrow> bool" where
  "validCalendarPeriod P p \<longleftrightarrow> zUuid P (cp_periodId p) \<and> cp_partitionId p = calendarPartition \<and>
     zUuid P (cp_controlId p) \<and> zUuid P (cp_automationId p) \<and> zPositive (cp_revision p) \<and>
     isoExact (cp_businessScheduledFor p) \<and> zUuid P (cp_currentArmId p) \<and> zNonneg (cp_version p)"

datatype NativeCalendarAbsence =
    NeverStarted string
  | FencedGeneration string string NativeOnceFence

fun validCalendarAbsence :: "NativeCalendarAbsence \<Rightarrow> bool" where
  "validCalendarAbsence (NeverStarted d) = checksumOk d"
| "validCalendarAbsence (FencedGeneration d proof w) = (checksumOk d \<and> checksumOk proof \<and> validCalendarWriterIdentity w)"

datatype CalendarArmReason = Reason_business_target | Reason_future_recovery
datatype CalendarArmStatus = Arm_prepared | Arm_creating | Arm_absent | Arm_bound | Arm_received

record NativeCalendarArm =
  ca_armId :: string
  ca_periodId :: string
  ca_attempt :: int
  ca_nativeAt :: string
  ca_reason :: CalendarArmReason
  ca_requestDigest :: string
  ca_status :: CalendarArmStatus
  ca_nativeTaskId :: "string option"
  ca_taskSnapshot :: jsval
  ca_bindWriteId :: "string option"
  ca_lastWriteId :: "string option"
  ca_createWriter :: "NativeOnceFence option"
  ca_absenceProof :: "NativeCalendarAbsence option"
  ca_snapshotVersion :: int

definition armRefined :: "NativeCalendarArm \<Rightarrow> bool" where
  "armRefined a \<longleftrightarrow> (let bound = (ca_status a = Arm_bound \<or> ca_status a = Arm_received) in
     \<not> (ca_taskSnapshot a = JUndefined \<or>
        (ca_nativeTaskId a \<noteq> None) \<noteq> bound \<or>
        (ca_taskSnapshot a \<noteq> JNull) \<noteq> bound \<or>
        (ca_bindWriteId a \<noteq> None) \<noteq> bound \<or>
        (ca_lastWriteId a \<noteq> None) \<noteq> bound \<or>
        ((ca_status a = Arm_creating \<or> bound) \<and> ca_createWriter a = None) \<or>
        (ca_status a = Arm_prepared \<and> ca_createWriter a \<noteq> None) \<or>
        (ca_status a = Arm_absent) \<noteq> (ca_absenceProof a \<noteq> None) \<or>
        (case ca_absenceProof a of
           None \<Rightarrow> False
         | Some (NeverStarted _) \<Rightarrow> ca_createWriter a \<noteq> None
         | Some (FencedGeneration _ _ w) \<Rightarrow> ca_createWriter a \<noteq> Some w)))"

definition validCalendarArm :: "platform \<Rightarrow> NativeCalendarArm \<Rightarrow> bool" where
  "validCalendarArm P a \<longleftrightarrow> zUuid P (ca_armId a) \<and> zUuid P (ca_periodId a) \<and> zPositive (ca_attempt a) \<and>
     isoExact (ca_nativeAt a) \<and> checksumOk (ca_requestDigest a) \<and> optAll (lenIn 1 512) (ca_nativeTaskId a) \<and>
     optAll (lenIn 1 512) (ca_bindWriteId a) \<and> optAll (lenIn 1 512) (ca_lastWriteId a) \<and>
     optAll validCalendarWriterIdentity (ca_createWriter a) \<and> optAll validCalendarAbsence (ca_absenceProof a) \<and>
     zNonneg (ca_snapshotVersion a) \<and> armRefined a"

section \<open>Mutations\<close>

datatype NativeCalendarMutation =
    CalendarSession bool string int
  | CalendarPut string string string string int int jsval
  | CalendarApply string int int string string
  | CalendarRetire string string string string string string int

text \<open>
  The fields in the order of the schemas: \<open>CalendarSession ready controlId expectedControlVersion\<close>,
  \<open>CalendarPut controlId periodId armId requestDigest expectedPeriodVersion expectedArmVersion task\<close>,
  \<open>CalendarApply controlId expectedControlVersion revision planId planDigest\<close>,
  \<open>CalendarRetire controlId periodId armId retirementId nativeTaskId taskDigest expectedArmVersion\<close>.
\<close>

fun validCalendarMutation :: "platform \<Rightarrow> NativeCalendarMutation \<Rightarrow> bool" where
  "validCalendarMutation P (CalendarSession ready c v) = (zUuid P c \<and> zNonneg v)"
| "validCalendarMutation P (CalendarPut c p a d pv av task) =
     (zUuid P c \<and> zUuid P p \<and> zUuid P a \<and> checksumOk d \<and> zNonneg pv \<and> zNonneg av)"
| "validCalendarMutation P (CalendarApply c v r plan d) =
     (zUuid P c \<and> zNonneg v \<and> zPositive r \<and> zUuid P plan \<and> checksumOk d)"
| "validCalendarMutation P (CalendarRetire c p a r task d v) =
     (zUuid P c \<and> zUuid P p \<and> zUuid P a \<and> zUuid P r \<and> lenIn 1 512 task \<and> checksumOk d \<and> zNonneg v)"

fun calendarMutationJson :: "NativeCalendarMutation \<Rightarrow> jsval" where
  "calendarMutationJson (CalendarSession ready c v) = JObj [(''kind'', JStr ''calendar''),
     (''action'', JStr (if ready then ''session_ready'' else ''session_initializing'')), (''controlId'', JStr c),
     (''expectedControlVersion'', JNum v)]"
| "calendarMutationJson (CalendarPut c p a d pv av task) = JObj [(''kind'', JStr ''calendar''),
     (''action'', JStr ''put_task''), (''controlId'', JStr c), (''periodId'', JStr p), (''armId'', JStr a),
     (''requestDigest'', JStr d), (''expectedPeriodVersion'', JNum pv), (''expectedArmVersion'', JNum av), (''task'', task)]"
| "calendarMutationJson (CalendarApply c v r plan d) = JObj [(''kind'', JStr ''calendar''),
     (''action'', JStr ''apply_revision''), (''controlId'', JStr c), (''expectedControlVersion'', JNum v),
     (''revision'', JNum r), (''planId'', JStr plan), (''planDigest'', JStr d)]"
| "calendarMutationJson (CalendarRetire c p a r task d v) = JObj [(''kind'', JStr ''calendar''),
     (''action'', JStr ''retire_task''), (''controlId'', JStr c), (''periodId'', JStr p), (''armId'', JStr a),
     (''retirementId'', JStr r), (''nativeTaskId'', JStr task), (''taskDigest'', JStr d), (''expectedArmVersion'', JNum v)]"

record NativeCalendarWrite =
  cw_writeId :: string
  cw_digest :: string
  cw_mutation :: NativeCalendarMutation

section \<open>Encodings and identities\<close>

definition fenceJson :: "NativeOnceFence \<Rightarrow> jsval" where
  "fenceJson f = JObj [(''partitionId'', JStr (fe_partitionId f)), (''ownerId'', JStr (fe_ownerId f)),
     (''epoch'', JNum (fe_epoch f)), (''tokenDigest'', JStr (fe_tokenDigest f))]"

fun calendarDispatchJson :: "CalendarDispatch \<Rightarrow> jsval" where
  "calendarDispatchJson (DispatchExperience a i) = JObj [(''consumer'', JStr ''experience-consolidation-v1''),
     (''employeeAssignmentId'', JStr a), (''employeeInstanceId'', JStr i)]"
| "calendarDispatchJson (DispatchMonthly a i s) = JObj [(''consumer'', JStr ''ordinary-monthly-v1''),
     (''employeeAssignmentId'', JStr a), (''employeeInstanceId'', JStr i), (''businessSessionId'', JStr s)]"

definition calendarControlJson :: "NativeCalendarControl \<Rightarrow> jsval" where
  "calendarControlJson c = JObj [(''kind'', JStr ''calendar''), (''binding'', JStr ''rotating-at-v1''),
     (''partitionId'', JStr (cc_partitionId c)), (''controlId'', JStr (cc_controlId c)),
     (''organizationId'', JStr (cc_organizationId c)), (''workspaceId'', JStr (cc_workspaceId c)),
     (''ownerId'', JStr (cc_ownerId c)), (''automationId'', JStr (cc_automationId c)),
     (''revision'', JNum (cc_revision c)), (''controlSessionId'', JStr (cc_controlSessionId c)),
     (''reference'', referenceJson (cc_reference c)), (''sessionState'', JStr (onceSessionStr (cc_sessionState c))),
     (''nativeTaskId'', JNull), (''dispatch'', calendarDispatchJson (cc_dispatch c))]"

definition calendarControlIdentity :: "NativeCalendarControl \<Rightarrow> jsval" where
  "calendarControlIdentity c = JObj [(''kind'', JStr ''calendar''), (''binding'', JStr ''rotating-at-v1''),
     (''partitionId'', JStr (cc_partitionId c)), (''controlId'', JStr (cc_controlId c)),
     (''organizationId'', JStr (cc_organizationId c)), (''workspaceId'', JStr (cc_workspaceId c)),
     (''ownerId'', JStr (cc_ownerId c)), (''automationId'', JStr (cc_automationId c)),
     (''controlSessionId'', JStr (cc_controlSessionId c)), (''reference'', referenceJson (cc_reference c)),
     (''dispatch'', calendarDispatchJson (cc_dispatch c))]"

fun frequencyStr :: "AutomationFrequency \<Rightarrow> string" where
  "frequencyStr Freq_once = ''once''"
| "frequencyStr Freq_daily = ''daily''"
| "frequencyStr Freq_weekly = ''weekly''"
| "frequencyStr Freq_monthly = ''monthly''"

definition scheduleJson :: "AutomationSchedule \<Rightarrow> jsval" where
  "scheduleJson s = JObj ([(''frequency'', JStr (frequencyStr (as_frequency s)))] @
     optProp ''runAt'' (map_option JStr (as_runAt s)) @ optProp ''time'' (map_option JStr (as_time s)) @
     optProp ''weekday'' (map_option JNum (as_weekday s)) @ optProp ''monthDay'' (map_option JNum (as_monthDay s)) @
     optProp ''timezone'' (map_option JStr (as_timezone s)))"

definition monthlyRuleJson :: "MonthlyScheduleRule \<Rightarrow> jsval" where
  "monthlyRuleJson r = JObj [(''kind'', JStr ''monthly''), (''monthDay'', JNum (ms_monthDay r)),
     (''time'', JStr (ms_time r)), (''timezone'', JStr (ms_timezone r))]"

fun calendarRevisionJson :: "NativeCalendarRevision \<Rightarrow> jsval" where
  "calendarRevisionJson (RevisionExperience v) = JObj [(''kind'', JStr ''calendar''), (''binding'', JStr ''rotating-at-v1''),
     (''consumer'', JStr ''experience-consolidation-v1''), (''revision'', JNum (er_revision v)),
     (''schedule'', scheduleJson (er_schedule v)), (''ruleRevision'', JNum (er_ruleRevision v)),
     (''policyRevision'', JNum (er_policyRevision v)), (''policyDigest'', JStr (er_policyDigest v)),
     (''reservationDigest'', JStr (er_reservationDigest v)), (''acceptedAt'', JStr (er_acceptedAt v))]"
| "calendarRevisionJson (RevisionMonthly v) = JObj [(''kind'', JStr ''calendar''), (''binding'', JStr ''rotating-at-v1''),
     (''consumer'', JStr ''ordinary-monthly-v1''), (''revision'', JNum (mr_revision v)),
     (''contentDigest'', JStr (mr_contentDigest v)), (''rule'', monthlyRuleJson (mr_rule v)),
     (''reservationDigest'', JStr (mr_reservationDigest v)), (''acceptedAt'', JStr (mr_acceptedAt v))]"

fun periodStateStr :: "CalendarPeriodState \<Rightarrow> string" where
  "periodStateStr Period_prepared = ''prepared''"
| "periodStateStr Period_recovery_required = ''recovery_required''"
| "periodStateStr Period_bound = ''bound''"
| "periodStateStr Period_received = ''received''"

definition calendarPeriodIdentity :: "NativeCalendarPeriod \<Rightarrow> jsval" where
  "calendarPeriodIdentity p = JObj [(''periodId'', JStr (cp_periodId p)), (''partitionId'', JStr (cp_partitionId p)),
     (''controlId'', JStr (cp_controlId p)), (''automationId'', JStr (cp_automationId p)),
     (''revision'', JNum (cp_revision p)), (''businessScheduledFor'', JStr (cp_businessScheduledFor p))]"

definition calendarPeriodJson :: "NativeCalendarPeriod \<Rightarrow> jsval" where
  "calendarPeriodJson p = JObj [(''periodId'', JStr (cp_periodId p)), (''partitionId'', JStr (cp_partitionId p)),
     (''controlId'', JStr (cp_controlId p)), (''automationId'', JStr (cp_automationId p)),
     (''revision'', JNum (cp_revision p)), (''businessScheduledFor'', JStr (cp_businessScheduledFor p)),
     (''currentArmId'', JStr (cp_currentArmId p)), (''state'', JStr (periodStateStr (cp_state p))),
     (''version'', JNum (cp_version p))]"

fun armReasonStr :: "CalendarArmReason \<Rightarrow> string" where
  "armReasonStr Reason_business_target = ''business_target''"
| "armReasonStr Reason_future_recovery = ''future_recovery''"

fun armStatusStr :: "CalendarArmStatus \<Rightarrow> string" where
  "armStatusStr Arm_prepared = ''prepared''"
| "armStatusStr Arm_creating = ''creating''"
| "armStatusStr Arm_absent = ''absent''"
| "armStatusStr Arm_bound = ''bound''"
| "armStatusStr Arm_received = ''received''"

fun absenceJson :: "NativeCalendarAbsence \<Rightarrow> jsval" where
  "absenceJson (NeverStarted d) = JObj [(''kind'', JStr ''never_started''), (''taskSetDigest'', JStr d)]"
| "absenceJson (FencedGeneration d proof w) = JObj [(''kind'', JStr ''fenced_generation''), (''taskSetDigest'', JStr d),
     (''closeProofDigest'', JStr proof), (''closedWriter'', fenceJson w)]"

definition calendarArmIdentity :: "NativeCalendarArm \<Rightarrow> jsval" where
  "calendarArmIdentity a = JObj [(''armId'', JStr (ca_armId a)), (''periodId'', JStr (ca_periodId a)),
     (''attempt'', JNum (ca_attempt a)), (''nativeAt'', JStr (ca_nativeAt a)),
     (''reason'', JStr (armReasonStr (ca_reason a))), (''requestDigest'', JStr (ca_requestDigest a))]"

definition calendarArmJson :: "NativeCalendarArm \<Rightarrow> jsval" where
  "calendarArmJson a = JObj [(''armId'', JStr (ca_armId a)), (''periodId'', JStr (ca_periodId a)),
     (''attempt'', JNum (ca_attempt a)), (''nativeAt'', JStr (ca_nativeAt a)),
     (''reason'', JStr (armReasonStr (ca_reason a))), (''requestDigest'', JStr (ca_requestDigest a)),
     (''status'', JStr (armStatusStr (ca_status a))), (''nativeTaskId'', jOpt JStr (ca_nativeTaskId a)),
     (''taskSnapshot'', ca_taskSnapshot a), (''bindWriteId'', jOpt JStr (ca_bindWriteId a)),
     (''lastWriteId'', jOpt JStr (ca_lastWriteId a)), (''createWriter'', jOpt fenceJson (ca_createWriter a)),
     (''absenceProof'', jOpt absenceJson (ca_absenceProof a)), (''snapshotVersion'', JNum (ca_snapshotVersion a))]"

section \<open>Bindings and tasks\<close>

abbreviation cneed :: "bool \<Rightarrow> string \<Rightarrow> unit result" where
  "cneed b code \<equiv> need b (NativeCalendarStateError code)"

definition calendarWriterIdentity :: "NativeOnceWriter \<Rightarrow> NativeOnceFence result" where
  "calendarWriterIdentity w = andThen (nativeOnceDigest (JStr (wr_token w))) (\<lambda>d.
     let f = \<lparr>fe_partitionId = wr_partitionId w, fe_ownerId = wr_ownerId w, fe_epoch = wr_epoch w, fe_tokenDigest = d\<rparr> in
     if validCalendarWriterIdentity f then Inr f else Inl ZodError)"

definition calendarArmRequestDigest :: "NativeCalendarControl \<Rightarrow> NativeCalendarPeriod \<Rightarrow> NativeCalendarArm \<Rightarrow> string result" where
  "calendarArmRequestDigest c p a = nativeOnceDigest (JObj [(''control'', calendarControlIdentity c),
     (''period'', calendarPeriodIdentity p),
     (''arm'', JObj [(''armId'', JStr (ca_armId a)), (''periodId'', JStr (ca_periodId a)), (''attempt'', JNum (ca_attempt a)),
        (''nativeAt'', JStr (ca_nativeAt a)), (''reason'', JStr (armReasonStr (ca_reason a)))]),
     (''title'', JStr nativeCalendarTitle), (''prompt'', JStr nativeCalendarPrompt)])"

definition notBefore :: "string \<Rightarrow> string \<Rightarrow> bool" where
  "notBefore s t = (case (dateParse s, dateParse t) of (Some x, Some y) \<Rightarrow> y \<le> x | _ \<Rightarrow> False)"

definition currentArmState :: "NativeCalendarPeriod \<Rightarrow> NativeCalendarArm \<Rightarrow> bool" where
  "currentArmState p a \<longleftrightarrow>
     (cp_state p = Period_prepared \<and> ca_status a \<in> {Arm_prepared, Arm_creating}) \<or>
     (cp_state p = Period_recovery_required \<and> ca_status a = Arm_absent) \<or>
     (cp_state p = Period_bound \<and> ca_status a = Arm_bound) \<or>
     (cp_state p = Period_received \<and> ca_status a = Arm_received)"

definition validateCalendarBinding ::
  "platform \<Rightarrow> NativeCalendarControl \<Rightarrow> NativeCalendarPeriod \<Rightarrow> NativeCalendarArm \<Rightarrow> unit result" where
  "validateCalendarBinding P c p a =
     (if \<not> (validCalendarControl P c \<and> validCalendarPeriod P p \<and> validCalendarArm P a) then Inl ZodError
      else andThen (cneed (cp_partitionId p = cc_partitionId c \<and> cp_controlId p = cc_controlId c \<and>
        cp_automationId p = cc_automationId c \<and> cp_revision p \<le> cc_revision c \<and> ca_periodId a = cp_periodId p \<and>
        (ca_reason a \<noteq> Reason_business_target \<or> ca_nativeAt a = cp_businessScheduledFor p) \<and>
        (ca_reason a \<noteq> Reason_future_recovery \<or> notBefore (ca_nativeAt a) (cp_businessScheduledFor p)) \<and>
        (cp_currentArmId p \<noteq> ca_armId a \<or> currentArmState p a)) ''binding_invalid'') (\<lambda>_.
      andThen (calendarArmRequestDigest c p a) (\<lambda>d. cneed (ca_requestDigest a = d) ''binding_invalid'')))"

definition calendarReceiptOk :: "jsval \<Rightarrow> jsval \<Rightarrow> bool" where
  "calendarReceiptOk r x \<longleftrightarrow> jget ''scheduledAt'' x = jget ''scheduledAt'' r \<and> jget ''deliveredAt'' x = jget ''deliveredAt'' r \<and>
     jget ''messageId'' x = jget ''messageId'' r \<and>
     (jget ''prompt'' x = JUndefined \<or> jget ''prompt'' x = JStr nativeCalendarPrompt)"

definition validateCalendarTask ::
  "platform \<Rightarrow> NativeCalendarControl \<Rightarrow> NativeCalendarPeriod \<Rightarrow> NativeCalendarArm \<Rightarrow> jsval \<Rightarrow> (jsval \<Rightarrow> jsval result) \<Rightarrow>
     jsval result" where
  "validateCalendarTask P c p a raw decode =
     andThen (validateCalendarBinding P c p a) (\<lambda>_.
     andThen (decode raw) (\<lambda>task.
     andThen (nativeOnceDigest task) (\<lambda>_.
     let rec = jget ''record'' task; r = jget ''lastDelivery'' task; h = jget ''deliveryHistory'' task;
         records = (case jget ''records'' h of JArr rs \<Rightarrow> rs | _ \<Rightarrow> []) in
     andThen (cneed (jeq task raw \<and> cc_sessionState c = Session_ready \<and>
       jget ''sessionId'' task = JStr (cc_controlSessionId c) \<and> goodIdJ (jget ''id'' rec) \<and>
       jget ''kind'' rec = JStr ''at'' \<and> jget ''title'' rec = JStr nativeCalendarTitle \<and>
       jget ''prompt'' rec = JStr nativeCalendarPrompt \<and> jget ''scheduledAt'' rec = JStr (ca_nativeAt a) \<and>
       (ca_nativeTaskId a = None \<or> ca_nativeTaskId a = Some (strOf (jget ''id'' rec))) \<and>
       jget ''status'' task = JStr (if jtruthy r then ''inactive'' else ''active'')) ''task_invalid'') (\<lambda>_.
     andThen (cneed (\<not> jtruthy h \<or> (jget ''earlierRecordsUnavailable'' h = JBool False \<and>
       jget ''earlierRecordsPruned'' h \<noteq> JBool True \<and> length records = (if jtruthy r then 1 else 0))) ''receipt_history'') (\<lambda>_.
     if jtruthy r then
       andThen (cneed (jget ''scheduledAt'' r = JStr (ca_nativeAt a) \<and> isoExactJ (jget ''deliveredAt'' r) \<and>
         goodIdJ (jget ''messageId'' r)) ''receipt_invalid'') (\<lambda>_.
       andThen (cneed (\<not> jtruthy h \<or> list_all (calendarReceiptOk r) records) ''receipt_invalid'') (\<lambda>_. Inr task))
     else Inr task)))))"

section \<open>Occurrences\<close>

record CalendarIdentity =
  ci_key :: string
  ci_id :: string
  ci_clientMessageId :: string

definition calendarOccurrenceIdentity :: "string \<Rightarrow> string \<Rightarrow> string \<Rightarrow> CalendarIdentity result" where
  "calendarOccurrenceIdentity automationId periodId businessScheduledFor =
     andThen (nativeOnceDigest (jStrs [''calendar-period-v1'', automationId, periodId, businessScheduledFor])) (\<lambda>key.
       Inr \<lparr>ci_key = key, ci_id = stableUuid [''calendar-occurrence'', key],
         ci_clientMessageId = stableUuid [''calendar-message'', key]\<rparr>)"

datatype CalendarAdmissionFacts = AdmissionExperience int string | AdmissionMonthly string

record NativeCalendarAdmission =
  cd_allowed :: bool
  cd_currentRevision :: int
  cd_status :: OncePlanStatus
  cd_resumeAfter :: "string option"
  cd_facts :: CalendarAdmissionFacts

fun calendarRevisionAdmissionMatches :: "NativeCalendarRevision \<Rightarrow> CalendarAdmissionFacts \<Rightarrow> bool result" where
  "calendarRevisionAdmissionMatches (RevisionExperience v) (AdmissionExperience r d) =
     Inr (r = er_policyRevision v \<and> d = er_policyDigest v)"
| "calendarRevisionAdmissionMatches (RevisionExperience v) (AdmissionMonthly d) = Inr False"
| "calendarRevisionAdmissionMatches (RevisionMonthly v) (AdmissionExperience r d) = Inr False"
| "calendarRevisionAdmissionMatches (RevisionMonthly v) (AdmissionMonthly d) =
     andThen (nativeOnceDigest (calendarRevisionJson (RevisionMonthly v))) (\<lambda>digest. Inr (d = digest))"

definition calendarAdmissionReason ::
  "NativeCalendarPeriod \<Rightarrow> NativeCalendarRevision \<Rightarrow> NativeCalendarAdmission option \<Rightarrow> string option result" where
  "calendarAdmissionReason p v admission = (case admission of
     None \<Rightarrow> Inr (Some ''current_authority_changed'')
   | Some a \<Rightarrow>
       if \<not> cd_allowed a then Inr (Some ''current_authority_changed'')
       else if cd_status a \<noteq> Plan_enabled then Inr (Some ''paused_or_deleted'')
       else if cd_currentRevision a \<noteq> cp_revision p then Inr (Some ''configuration_changed'')
       else andThen (calendarRevisionAdmissionMatches v (cd_facts a)) (\<lambda>matches.
         if \<not> matches then Inr (Some ''configuration_changed'')
         else if (case cd_resumeAfter a of None \<Rightarrow> False | Some after \<Rightarrow> notBefore after (cp_businessScheduledFor p))
           then Inr (Some ''before_resume_watermark'')
         else Inr None))"

record NativeCalendarOccurrence =
  co_identity :: CalendarIdentity
  co_payload :: jsval
  co_payloadDigest :: string
  co_state :: RecurringOccurrenceState
  co_reason :: "string option"

definition calendarPayload ::
  "NativeCalendarControl \<Rightarrow> NativeCalendarPeriod \<Rightarrow> NativeCalendarArm \<Rightarrow> NativeCalendarRevision \<Rightarrow> jsval \<Rightarrow> jsval \<Rightarrow> jsval" where
  "calendarPayload c p a v task receipt = JObj [(''control'', calendarControlIdentity c),
     (''revision'', calendarRevisionJson v),
     (''calendar'', JObj [(''period'', calendarPeriodIdentity p), (''arm'', calendarArmIdentity a)]),
     (''businessScheduledFor'', JStr (cp_businessScheduledFor p)), (''nativeTaskId'', jget ''id'' (jget ''record'' task)),
     (''receipt'', receipt)]"

definition calendarOccurrence ::
  "NativeCalendarControl \<Rightarrow> NativeCalendarPeriod \<Rightarrow> NativeCalendarArm \<Rightarrow> NativeCalendarRevision \<Rightarrow>
     NativeCalendarAdmission option \<Rightarrow> jsval \<Rightarrow> jsval \<Rightarrow> NativeCalendarOccurrence result" where
  "calendarOccurrence c p a v admission task receipt =
     andThen (calendarOccurrenceIdentity (cc_automationId c) (cp_periodId p) (cp_businessScheduledFor p)) (\<lambda>identity.
     let payload = calendarPayload c p a v task receipt in
     andThen (calendarAdmissionReason p v admission) (\<lambda>reason.
     andThen (nativeOnceDigest payload) (\<lambda>digest.
       Inr \<lparr>co_identity = identity, co_payload = payload, co_payloadDigest = digest,
         co_state = (if reason \<noteq> None then Occurrence_blocked else Occurrence_pending), co_reason = reason\<rparr>)))"

definition calendarReceipt :: "jsval option \<Rightarrow> jsval \<Rightarrow> jsval option" where
  "calendarReceipt before task =
     (if jtruthy (jget ''lastDelivery'' task) \<and> \<not> (case before of None \<Rightarrow> False | Some b \<Rightarrow> jtruthy (jget ''lastDelivery'' b))
      then Some (case jget ''records'' (jget ''deliveryHistory'' task) of JArr (r # _) \<Rightarrow> r | _ \<Rightarrow> jget ''lastDelivery'' task)
      else None)"

definition calendarOccurrences ::
  "NativeCalendarControl \<Rightarrow> NativeCalendarPeriod \<Rightarrow> NativeCalendarArm \<Rightarrow> NativeCalendarRevision \<Rightarrow>
     NativeCalendarAdmission option \<Rightarrow> jsval option \<Rightarrow> jsval \<Rightarrow> NativeCalendarOccurrence list result" where
  "calendarOccurrences c p a v admission before task = (case calendarReceipt before task of
     None \<Rightarrow> Inr []
   | Some receipt \<Rightarrow> andThen (calendarOccurrence c p a v admission task receipt) (\<lambda>occ. Inr [occ]))"

section \<open>Preparing a put\<close>

record NativeCalendarInput =
  cn_readiness :: NativeOnceReadiness
  cn_reference :: NativeOnceReference
  cn_writerRow :: NativeOnceWriterRow
  cn_writer :: NativeOnceWriter
  cn_dbNowMs :: int
  cn_control :: NativeCalendarControl
  cn_period :: NativeCalendarPeriod
  cn_arm :: NativeCalendarArm
  cn_revision :: NativeCalendarRevision
  cn_write :: NativeCalendarWrite
  cn_admission :: "NativeCalendarAdmission option"

record NativeCalendarJournal =
  cj_writer :: NativeOnceFence
  cj_reference :: NativeOnceReference
  cj_write :: NativeCalendarWrite
  cj_identity :: jsval
  cj_beforeDigest :: string
  cj_afterDigest :: string
  cj_period :: NativeCalendarPeriod
  cj_arm :: NativeCalendarArm
  cj_periodDigest :: string
  cj_armDigest :: string
  cj_taskDigest :: string
  cj_receiptLinks :: "(string \<times> string \<times> string) list"

record NativeCalendarPrepared =
  cr_after :: NativeCalendarControl
  cr_period :: NativeCalendarPeriod
  cr_arm :: NativeCalendarArm
  cr_occurrences :: "NativeCalendarOccurrence list"
  cr_journal :: NativeCalendarJournal

definition calendarFence :: "NativeCalendarInput \<Rightarrow> unit result" where
  "calendarFence input =
     (if \<not> nativeOnceReady (Some (cn_readiness input)) then Inl (NativeCalendarStateError ''writer_fence'')
      else andThen (nativeOnceWriterRemaining (cn_writerRow input) (cn_writer input) (cn_dbNowMs input)) (\<lambda>remaining.
        cneed (0 < remaining \<and> ww_reference (cn_writerRow input) = cn_reference input \<and>
          cc_reference (cn_control input) = cn_reference input) ''writer_fence''))"

text \<open>The written put, with its digest and the versions it expects; the task it carries is returned.\<close>

definition calendarWriteTask :: "NativeCalendarInput \<Rightarrow> jsval result" where
  "calendarWriteTask input =
     (let w = cn_write input; c = cn_control input; p = cn_period input; a = cn_arm input in
      case cw_mutation w of
        CalendarPut controlId periodId armId requestDigest periodVersion armVersion task \<Rightarrow>
          if \<not> lenIn 1 512 (cw_writeId w) then Inl (NativeCalendarStateError ''write_invalid'')
          else andThen (nativeOnceDigest (calendarMutationJson (cw_mutation w))) (\<lambda>d.
            andThen (cneed (cw_digest w = d \<and> wr_partitionId (cn_writer input) = cc_partitionId c \<and>
              controlId = cc_controlId c \<and> periodId = cp_periodId p \<and> armId = ca_armId a \<and>
              requestDigest = ca_requestDigest a \<and> cp_currentArmId p = ca_armId a \<and>
              periodVersion = cp_version p \<and> armVersion = ca_snapshotVersion a) ''write_invalid'') (\<lambda>_. Inr task))
      | _ \<Rightarrow> Inl (NativeCalendarStateError ''write_invalid''))"

text \<open>What the stored snapshot allows the new task to be.\<close>

definition calendarProgress :: "NativeOnceWriter \<Rightarrow> NativeCalendarPeriod \<Rightarrow> NativeCalendarArm \<Rightarrow> jsval option \<Rightarrow> jsval \<Rightarrow> unit result" where
  "calendarProgress writer p a before task = (case before of
     None \<Rightarrow>
       if \<not> (ca_status a = Arm_creating \<and> cp_state p = Period_prepared)
       then Inl (NativeCalendarStateError ''initial_receipt_fabricated'')
       else andThen (calendarWriterIdentity writer) (\<lambda>f.
         cneed (ca_createWriter a = Some f \<and> jget ''status'' task = JStr ''active'' \<and>
           \<not> jtruthy (jget ''lastDelivery'' task)) ''initial_receipt_fabricated'')
   | Some b \<Rightarrow> cneed (jeq (jget ''record'' b) (jget ''record'' task) \<and>
       (\<not> jtruthy (jget ''lastDelivery'' b) \<or> jeq b task)) ''task_rewritten'')"

definition calendarAfterArm :: "NativeCalendarArm \<Rightarrow> string \<Rightarrow> jsval \<Rightarrow> NativeCalendarArm" where
  "calendarAfterArm a writeId task = a\<lparr>ca_nativeTaskId := Some (strOf (jget ''id'' (jget ''record'' task))),
     ca_taskSnapshot := task, ca_bindWriteId := Some (orElse (ca_bindWriteId a) writeId), ca_lastWriteId := Some writeId,
     ca_status := (if jtruthy (jget ''lastDelivery'' task) then Arm_received else Arm_bound),
     ca_snapshotVersion := ca_snapshotVersion a + 1\<rparr>"

definition calendarAfterPeriod :: "NativeCalendarPeriod \<Rightarrow> jsval \<Rightarrow> NativeCalendarPeriod" where
  "calendarAfterPeriod p task = p\<lparr>cp_state := (if jtruthy (jget ''lastDelivery'' task) then Period_received else Period_bound),
     cp_version := cp_version p + 1\<rparr>"

definition calendarWriteJson :: "NativeCalendarWrite \<Rightarrow> jsval" where
  "calendarWriteJson w = JObj [(''writeId'', JStr (cw_writeId w)), (''digest'', JStr (cw_digest w)),
     (''mutation'', calendarMutationJson (cw_mutation w))]"

definition calendarJournalJson :: "NativeCalendarJournal \<Rightarrow> jsval" where
  "calendarJournalJson j = JObj [(''writer'', fenceJson (cj_writer j)), (''reference'', referenceJson (cj_reference j)),
     (''write'', calendarWriteJson (cj_write j)), (''identity'', cj_identity j), (''beforeDigest'', JStr (cj_beforeDigest j)),
     (''afterDigest'', JStr (cj_afterDigest j)),
     (''calendarLinks'', JArr [JObj [(''period'', calendarPeriodJson (cj_period j)), (''arm'', calendarArmJson (cj_arm j)),
        (''periodDigest'', JStr (cj_periodDigest j)), (''armDigest'', JStr (cj_armDigest j)),
        (''taskDigest'', JStr (cj_taskDigest j))]]),
     (''receiptLinks'', JArr (map (\<lambda>(i, k, d). JObj [(''id'', JStr i), (''key'', JStr k), (''payloadDigest'', JStr d)])
        (cj_receiptLinks j)))]"

definition calendarJournal ::
  "NativeCalendarInput \<Rightarrow> NativeCalendarPeriod \<Rightarrow> NativeCalendarArm \<Rightarrow> jsval \<Rightarrow> NativeCalendarOccurrence list \<Rightarrow>
     NativeCalendarJournal result" where
  "calendarJournal input p' a' task occurrences =
     (let c = cn_control input in
      andThen (calendarWriterIdentity (cn_writer input)) (\<lambda>writer.
      andThen (nativeOnceDigest (JObj [(''control'', calendarControlJson c), (''period'', calendarPeriodJson (cn_period input)),
        (''arm'', calendarArmJson (cn_arm input))])) (\<lambda>before.
      andThen (nativeOnceDigest (JObj [(''control'', calendarControlJson c), (''task'', JNull)])) (\<lambda>after.
      andThen (nativeOnceDigest (calendarPeriodJson p')) (\<lambda>periodDigest.
      andThen (nativeOnceDigest (calendarArmJson a')) (\<lambda>armDigest.
      andThen (nativeOnceDigest task) (\<lambda>taskDigest.
      let journal = \<lparr>cj_writer = writer, cj_reference = cn_reference input, cj_write = cn_write input,
        cj_identity = calendarControlIdentity c, cj_beforeDigest = before, cj_afterDigest = after, cj_period = p',
        cj_arm = a', cj_periodDigest = periodDigest, cj_armDigest = armDigest, cj_taskDigest = taskDigest,
        cj_receiptLinks = map (\<lambda>o'. (ci_id (co_identity o'), ci_key (co_identity o'), co_payloadDigest o')) occurrences\<rparr> in
      andThen (nativeOnceDigest (calendarJournalJson journal)) (\<lambda>_. Inr journal))))))))"

definition prepareNativeCalendarTaskPut ::
  "platform \<Rightarrow> zones \<Rightarrow> (jsval \<Rightarrow> jsval result) \<Rightarrow> NativeCalendarInput \<Rightarrow> NativeCalendarPrepared result" where
  "prepareNativeCalendarTaskPut P zones decode input =
     (let c = cn_control input; p = cn_period input; a = cn_arm input in
      andThen (calendarFence input) (\<lambda>_.
      andThen (need (validCalendarMutation P (cw_mutation (cn_write input))) ZodError) (\<lambda>_.
      andThen (calendarWriteTask input) (\<lambda>raw.
      andThen (parseCalendarRevision P zones (cn_revision input)) (\<lambda>v.
      andThen (cneed (calendarRevision v = cp_revision p \<and> sameConsumer v (cc_dispatch c)) ''revision_missing'') (\<lambda>_.
      andThen (cneed (ca_status a \<in> {Arm_creating, Arm_bound, Arm_received}) ''create_not_started'') (\<lambda>_.
      andThen (validateCalendarTask P c p a raw decode) (\<lambda>task.
      andThen (if ca_taskSnapshot a = JNull then Inr None
        else andThen (validateCalendarTask P c p a (ca_taskSnapshot a) decode) (\<lambda>b. Inr (Some b))) (\<lambda>before.
      andThen (calendarProgress (cn_writer input) p a before task) (\<lambda>_.
      let a' = calendarAfterArm a (cw_writeId (cn_write input)) task; p' = calendarAfterPeriod p task in
      andThen (need (validCalendarArm P a' \<and> validCalendarPeriod P p') ZodError) (\<lambda>_.
      andThen (calendarOccurrences c p a v (cn_admission input) before task) (\<lambda>occurrences.
      andThen (calendarJournal input p' a' task occurrences) (\<lambda>journal.
        Inr \<lparr>cr_after = c, cr_period = p', cr_arm = a', cr_occurrences = occurrences, cr_journal = journal\<rparr>)))))))))))))"

section \<open>What an accepted put does\<close>

lemma calendarBinding_ok:
  "validateCalendarBinding P c p a = Inr u \<longleftrightarrow>
     validCalendarControl P c \<and> validCalendarPeriod P p \<and> validCalendarArm P a \<and>
     cp_partitionId p = cc_partitionId c \<and> cp_controlId p = cc_controlId c \<and>
     cp_automationId p = cc_automationId c \<and> cp_revision p \<le> cc_revision c \<and> ca_periodId a = cp_periodId p \<and>
     (ca_reason a \<noteq> Reason_business_target \<or> ca_nativeAt a = cp_businessScheduledFor p) \<and>
     (ca_reason a \<noteq> Reason_future_recovery \<or> notBefore (ca_nativeAt a) (cp_businessScheduledFor p)) \<and>
     (cp_currentArmId p \<noteq> ca_armId a \<or> currentArmState p a) \<and> calendarArmRequestDigest c p a = Inr (ca_requestDigest a)"
  by (auto simp: validateCalendarBinding_def andThen_Inr_iff)

lemma calendarTask_ok:
  assumes "validateCalendarTask P c p a raw decode = Inr task"
  shows "validateCalendarBinding P c p a = Inr ()" "decode raw = Inr task" "jeq task raw" "goodIdJ (jget ''id'' (jget ''record'' task))"
    "jget ''scheduledAt'' (jget ''record'' task) = JStr (ca_nativeAt a)"
    "ca_nativeTaskId a = None \<or> ca_nativeTaskId a = Some (strOf (jget ''id'' (jget ''record'' task)))"
    "jtruthy (jget ''lastDelivery'' task) \<longrightarrow> jget ''scheduledAt'' (jget ''lastDelivery'' task) = JStr (ca_nativeAt a)"
    "jtruthy (jget ''lastDelivery'' task) \<longrightarrow> jtruthy (jget ''deliveryHistory'' task) \<longrightarrow>
       list_all (calendarReceiptOk (jget ''lastDelivery'' task))
         (case jget ''records'' (jget ''deliveryHistory'' task) of JArr rs \<Rightarrow> rs | _ \<Rightarrow> [])"
  using assms unfolding validateCalendarTask_def Let_def
  by (auto simp: andThen_Inr_iff split: if_split_asm)

lemma calendarPut_ok:
  assumes "prepareNativeCalendarTaskPut P zones decode i = Inr r"
  obtains raw v task before where
    "calendarFence i = Inr ()" "calendarWriteTask i = Inr raw" "parseCalendarRevision P zones (cn_revision i) = Inr v"
    "calendarRevision v = cp_revision (cn_period i)" "sameConsumer v (cc_dispatch (cn_control i))"
    "validateCalendarTask P (cn_control i) (cn_period i) (cn_arm i) raw decode = Inr task"
    "ca_taskSnapshot (cn_arm i) = JNull \<longrightarrow> before = None"
    "ca_taskSnapshot (cn_arm i) \<noteq> JNull \<longrightarrow> (\<exists>b. before = Some b \<and>
       validateCalendarTask P (cn_control i) (cn_period i) (cn_arm i) (ca_taskSnapshot (cn_arm i)) decode = Inr b)"
    "calendarProgress (cn_writer i) (cn_period i) (cn_arm i) before task = Inr ()"
    "cr_arm r = calendarAfterArm (cn_arm i) (cw_writeId (cn_write i)) task" "cr_period r = calendarAfterPeriod (cn_period i) task"
    "validCalendarArm P (cr_arm r)" "validCalendarPeriod P (cr_period r)"
    "calendarOccurrences (cn_control i) (cn_period i) (cn_arm i) v (cn_admission i) before task = Inr (cr_occurrences r)"
    "cr_after r = cn_control i"
proof -
  let ?c = "cn_control i" and ?p = "cn_period i" and ?a = "cn_arm i"
  from assms obtain raw v task before where s: "calendarFence i = Inr ()" "calendarWriteTask i = Inr raw"
    "parseCalendarRevision P zones (cn_revision i) = Inr v"
    "calendarRevision v = cp_revision ?p \<and> sameConsumer v (cc_dispatch ?c)"
    "validateCalendarTask P ?c ?p ?a raw decode = Inr task"
    "(if ca_taskSnapshot ?a = JNull then Inr None
        else andThen (validateCalendarTask P ?c ?p ?a (ca_taskSnapshot ?a) decode) (\<lambda>b. Inr (Some b))) = Inr before"
    "calendarProgress (cn_writer i) ?p ?a before task = Inr ()"
    "validCalendarArm P (calendarAfterArm ?a (cw_writeId (cn_write i)) task) \<and> validCalendarPeriod P (calendarAfterPeriod ?p task)"
    "\<exists>occs. calendarOccurrences ?c ?p ?a v (cn_admission i) before task = Inr occs \<and>
       (\<exists>j. \<lparr>cr_after = ?c, cr_period = calendarAfterPeriod ?p task,
         cr_arm = calendarAfterArm ?a (cw_writeId (cn_write i)) task, cr_occurrences = occs, cr_journal = j\<rparr> = r)"
    unfolding prepareNativeCalendarTaskPut_def Let_def andThen_Inr_iff need_simps(3) sum.inject ex_unit_iff by blast
  show ?thesis
    by (rule that [of raw v task before]) (use s in \<open>auto simp: andThen_Inr_iff\<close>)
qed


lemma calendarFence_live:
  assumes "calendarFence i = Inr u"
  shows "\<exists>remaining. nativeOnceWriterRemaining (cn_writerRow i) (cn_writer i) (cn_dbNowMs i) = Inr remaining \<and> 0 < remaining"
  using assms by (auto simp: calendarFence_def andThen_Inr_iff split: if_split_asm)

interpretation calendar_client: fenced_client "prepareNativeCalendarTaskPut P zones decode" cn_writerRow cn_writer cn_dbNowMs
  for P zones decode
  by unfold_locales (erule calendarPut_ok, rule calendarFence_live)

lemma calendarAfter_fields [simp]:
  "ca_armId (calendarAfterArm a w task) = ca_armId a" "ca_periodId (calendarAfterArm a w task) = ca_periodId a"
  "ca_reason (calendarAfterArm a w task) = ca_reason a" "ca_nativeAt (calendarAfterArm a w task) = ca_nativeAt a"
  "ca_attempt (calendarAfterArm a w task) = ca_attempt a" "ca_requestDigest (calendarAfterArm a w task) = ca_requestDigest a"
  "ca_createWriter (calendarAfterArm a w task) = ca_createWriter a" "ca_taskSnapshot (calendarAfterArm a w task) = task"
  "calendarArmIdentity (calendarAfterArm a w task) = calendarArmIdentity a"
  "ca_status (calendarAfterArm a w task) = (if jtruthy (jget ''lastDelivery'' task) then Arm_received else Arm_bound)"
  "cp_partitionId (calendarAfterPeriod p task) = cp_partitionId p" "cp_controlId (calendarAfterPeriod p task) = cp_controlId p"
  "cp_automationId (calendarAfterPeriod p task) = cp_automationId p" "cp_revision (calendarAfterPeriod p task) = cp_revision p"
  "cp_periodId (calendarAfterPeriod p task) = cp_periodId p" "cp_currentArmId (calendarAfterPeriod p task) = cp_currentArmId p"
  "cp_businessScheduledFor (calendarAfterPeriod p task) = cp_businessScheduledFor p"
  "calendarPeriodIdentity (calendarAfterPeriod p task) = calendarPeriodIdentity p"
  by (simp_all add: calendarAfterArm_def calendarAfterPeriod_def calendarArmIdentity_def calendarPeriodIdentity_def)

lemma requestDigest_after [simp]:
  "calendarArmRequestDigest c (calendarAfterPeriod p task) (calendarAfterArm a w task) = calendarArmRequestDigest c p a"
  by (simp add: calendarArmRequestDigest_def)

lemma currentArm_after: "currentArmState (calendarAfterPeriod p task) (calendarAfterArm a w task)"
  by (simp add: currentArmState_def calendarAfterPeriod_def)

lemma writeTask_current:
  assumes "calendarWriteTask i = Inr raw"
  shows "cp_currentArmId (cn_period i) = ca_armId (cn_arm i)"
  using assms by (auto simp: calendarWriteTask_def Let_def andThen_Inr_iff split: NativeCalendarMutation.splits if_split_asm)

text \<open>A received snapshot stays received, and no second receipt is seen in it.\<close>

definition jsonDecoding :: "(jsval \<Rightarrow> jsval result) \<Rightarrow> bool" where
  "jsonDecoding decode \<longleftrightarrow> (\<forall>raw task. decode raw = Inr task \<longrightarrow> jsonOk task)"

definition received :: "NativeCalendarArm \<Rightarrow> bool" where
  "received a \<longleftrightarrow> ca_status a = Arm_received"

definition armSound :: "NativeCalendarArm \<Rightarrow> bool" where
  "armSound a \<longleftrightarrow> (received a \<longrightarrow> jsonOk (ca_taskSnapshot a) \<and> jtruthy (jget ''lastDelivery'' (ca_taskSnapshot a)))"

lemma truthy_jeq:
  assumes "jeq v w" "jsonOk v" "jsonOk w"
  shows "jtruthy (jget k v) = jtruthy (jget k w)"
  using truthy_canon canon_jget_eq [OF assms(2,3,1)] by blast

lemma received_before:
  assumes "armSound a" "received a" "jsonDecoding decode" "validateCalendarTask P c p a (ca_taskSnapshot a) decode = Inr b"
  shows "jsonOk b" "jtruthy (jget ''lastDelivery'' b)"
proof -
  note v = calendarTask_ok [OF assms(4)]
  show "jsonOk b" using v(2) assms(3) by (auto simp: jsonDecoding_def)
  then show "jtruthy (jget ''lastDelivery'' b)"
    using truthy_jeq [OF v(3)] assms(1,2) by (simp add: armSound_def)
qed

lemma occurrences_from_receipt:
  assumes "calendarOccurrences c p a v admission before task = Inr occs"
  shows "length occs \<le> 1" "occs \<noteq> [] \<Longrightarrow> jtruthy (jget ''lastDelivery'' task)"
    "before = Some b \<Longrightarrow> jtruthy (jget ''lastDelivery'' b) \<Longrightarrow> occs = []"
    "occ \<in> set occs \<Longrightarrow> \<exists>receipt. calendarReceipt before task = Some receipt \<and> calendarOccurrence c p a v admission task receipt = Inr occ"
  using assms by (auto simp: calendarOccurrences_def calendarReceipt_def andThen_Inr_iff split: option.splits if_splits)

lemma calendarOccurrence_ok:
  assumes "calendarOccurrence c p a v admission task receipt = Inr occ"
  shows "calendarOccurrenceIdentity (cc_automationId c) (cp_periodId p) (cp_businessScheduledFor p) = Inr (co_identity occ)"
    "co_payload occ = calendarPayload c p a v task receipt" "calendarAdmissionReason p v admission = Inr (co_reason occ)"
    "co_state occ = (if co_reason occ = None then Occurrence_pending else Occurrence_blocked)"
  using assms by (auto simp: calendarOccurrence_def Let_def andThen_Inr_iff)

lemma admission_none:
  assumes "calendarAdmissionReason p v admission = Inr None"
  shows "\<exists>a. admission = Some a \<and> cd_allowed a \<and> cd_status a = Plan_enabled \<and> cd_currentRevision a = cp_revision p \<and>
    calendarRevisionAdmissionMatches v (cd_facts a) = Inr True \<and>
    (\<forall>after. cd_resumeAfter a = Some after \<longrightarrow> \<not> notBefore after (cp_businessScheduledFor p))"
  using assms by (auto simp: calendarAdmissionReason_def andThen_Inr_iff split: option.splits if_split_asm)

lemma receipt_scheduled:
  assumes "validateCalendarTask P c p a raw decode = Inr task" "calendarReceipt before task = Some receipt"
  shows "jget ''scheduledAt'' receipt = JStr (ca_nativeAt a)"
proof -
  have t: "jtruthy (jget ''lastDelivery'' task)" using assms(2) by (auto simp: calendarReceipt_def split: if_splits)
  note s = calendarTask_ok(7) [OF assms(1), rule_format, OF t]
  show ?thesis
  proof (cases "\<exists>r rs. jget ''records'' (jget ''deliveryHistory'' task) = JArr (r # rs)")
    case True
    then obtain r rs where rs: "jget ''records'' (jget ''deliveryHistory'' task) = JArr (r # rs)" by blast
    then have "jtruthy (jget ''deliveryHistory'' task)" by (cases "jget ''deliveryHistory'' task") auto
    then have "calendarReceiptOk (jget ''lastDelivery'' task) r"
      using calendarTask_ok(8) [OF assms(1)] t rs by simp
    moreover have "receipt = r" using assms(2) t rs by (simp add: calendarReceipt_def split: if_splits)
    ultimately show ?thesis using s by (simp add: calendarReceiptOk_def)
  next
    case False
    then have "receipt = jget ''lastDelivery'' task"
      using assms(2) t by (auto simp: calendarReceipt_def split: if_splits jsval.splits list.splits)
    then show ?thesis using s by simp
  qed
qed

section \<open>Runs of puts\<close>

text \<open>The period and its current arm as they are stored, with all occurrences produced so far.\<close>

type_synonym calendarLog = "NativeCalendarPeriod \<times> NativeCalendarArm \<times> NativeCalendarOccurrence list"

definition calendarStep ::
  "platform \<Rightarrow> zones \<Rightarrow> (jsval \<Rightarrow> jsval result) \<Rightarrow> calendarLog \<Rightarrow> NativeCalendarInput \<Rightarrow> calendarLog result" where
  "calendarStep P zones decode st i = (case st of (p, a, log) \<Rightarrow>
     andThen (prepareNativeCalendarTaskPut P zones decode (i\<lparr>cn_period := p, cn_arm := a\<rparr>)) (\<lambda>r.
       Inr (cr_period r, cr_arm r, log @ cr_occurrences r)))"

definition calendarKept :: "NativeCalendarPeriod \<times> NativeCalendarArm \<Rightarrow> NativeCalendarPeriod \<times> NativeCalendarArm \<Rightarrow> bool" where
  "calendarKept s s' \<longleftrightarrow> calendarPeriodIdentity (fst s') = calendarPeriodIdentity (fst s) \<and>
     calendarArmIdentity (snd s') = calendarArmIdentity (snd s) \<and>
     cp_version (fst s) \<le> cp_version (fst s') \<and> ca_snapshotVersion (snd s) \<le> ca_snapshotVersion (snd s') \<and>
     (ca_nativeTaskId (snd s) \<noteq> None \<longrightarrow> ca_nativeTaskId (snd s') = ca_nativeTaskId (snd s)) \<and>
     (ca_bindWriteId (snd s) \<noteq> None \<longrightarrow> ca_bindWriteId (snd s') = ca_bindWriteId (snd s)) \<and>
     (received (snd s) \<longrightarrow> received (snd s'))"

definition calendarNew ::
  "NativeCalendarPeriod \<Rightarrow> NativeCalendarArm \<Rightarrow> NativeCalendarArm \<Rightarrow> NativeCalendarOccurrence list \<Rightarrow> bool" where
  "calendarNew p a a' new \<longleftrightarrow> length new \<le> 1 \<and> (received a \<longrightarrow> new = []) \<and> (new \<noteq> [] \<longrightarrow> received a') \<and>
     (\<forall>occ \<in> set new. calendarOccurrenceIdentity (cp_automationId p) (cp_periodId p) (cp_businessScheduledFor p) =
        Inr (co_identity occ))"

definition calendarOlder :: "calendarLog \<Rightarrow> calendarLog \<Rightarrow> bool" where
  "calendarOlder st st' = (case (st, st') of ((p, a, log), (p', a', log')) \<Rightarrow>
     calendarKept (p, a) (p', a') \<and> (\<exists>new. log' = log @ new \<and> calendarNew p a a' new))"

lemma calendarNew_append:
  assumes "calendarNew p a a' m" "calendarNew p' a' a'' n" "calendarKept (p, a) (p', a')" "calendarKept (p', a') (p'', a'')"
  shows "calendarNew p a a'' (m @ n)"
proof -
  have "cp_automationId p' = cp_automationId p" "cp_periodId p' = cp_periodId p"
    "cp_businessScheduledFor p' = cp_businessScheduledFor p"
    using assms(3) by (simp_all add: calendarKept_def calendarPeriodIdentity_def)
  moreover have "m = [] \<or> n = []" using assms(1,2) by (auto simp: calendarNew_def)
  moreover have "received a \<longrightarrow> received a'" "received a' \<longrightarrow> received a''" using assms(3,4) by (simp_all add: calendarKept_def)
  ultimately show ?thesis using assms(1,2) by (auto simp: calendarNew_def)
qed

lemma calendarKept_trans: "calendarKept x y \<Longrightarrow> calendarKept y z \<Longrightarrow> calendarKept x z"
  unfolding calendarKept_def by auto

lemma calendarStep_older:
  assumes dec: "jsonDecoding decode" and sound: "armSound a"
    and step: "calendarStep P zones decode (p, a, log) i = Inr (p', a', log')"
  shows "armSound a' \<and> calendarOlder (p, a, log) (p', a', log')"
proof -
  define j where "j = i\<lparr>cn_period := p, cn_arm := a\<rparr>"
  from step obtain r where r: "prepareNativeCalendarTaskPut P zones decode j = Inr r" "p' = cr_period r" "a' = cr_arm r"
    "log' = log @ cr_occurrences r" by (auto simp: calendarStep_def j_def andThen_Inr_iff)
  have j: "cn_period j = p" "cn_arm j = a" by (simp_all add: j_def)
  from r(1) obtain raw v task before where put: "validateCalendarTask P (cn_control j) p a raw decode = Inr task"
    "ca_taskSnapshot a = JNull \<longrightarrow> before = None"
    "ca_taskSnapshot a \<noteq> JNull \<longrightarrow> (\<exists>b. before = Some b \<and>
       validateCalendarTask P (cn_control j) p a (ca_taskSnapshot a) decode = Inr b)"
    "calendarProgress (cn_writer j) p a before task = Inr ()"
    "a' = calendarAfterArm a (cw_writeId (cn_write j)) task" "p' = calendarAfterPeriod p task"
    "calendarOccurrences (cn_control j) p a v (cn_admission j) before task = Inr (cr_occurrences r)"
    by (rule calendarPut_ok) (simp add: j r(2,3))
  note t = calendarTask_ok [OF put(1)] and occs = occurrences_from_receipt [OF put(7)]
  have ok: "jsonOk task" using t(2) dec by (auto simp: jsonDecoding_def)
  have auto: "cc_automationId (cn_control j) = cp_automationId p" using t(1) by (simp add: calendarBinding_ok)
  have kept: "jtruthy (jget ''lastDelivery'' task) \<and> cr_occurrences r = []" if rcv: "received a"
  proof -
    have "ca_taskSnapshot a \<noteq> JNull" using sound rcv by (auto simp: armSound_def)
    then obtain b where b: "before = Some b" "validateCalendarTask P (cn_control j) p a (ca_taskSnapshot a) decode = Inr b"
      using put(3) by blast
    note bt = received_before [OF sound rcv dec b(2)]
    then have "jeq b task" using put(4) b(1) by (simp add: calendarProgress_def)
    then show ?thesis using truthy_jeq [OF _ bt(1) ok] bt(2) occs(3) [OF b(1) bt(2)] by simp
  qed
  have ids: "calendarOccurrenceIdentity (cp_automationId p) (cp_periodId p) (cp_businessScheduledFor p) = Inr (co_identity occ)"
    if "occ \<in> set (cr_occurrences r)" for occ
    using occs(4) [OF that] calendarOccurrence_ok(1) auto by fastforce
  have "armSound a'" using ok by (simp add: put(5) armSound_def received_def)
  moreover have "calendarKept (p, a) (p', a')"
    using t(6) kept by (auto simp: put(5,6) calendarKept_def received_def) (auto simp: calendarAfterArm_def calendarAfterPeriod_def)
  moreover have "calendarNew p a a' (cr_occurrences r)"
    using kept occs(1,2) ids by (auto simp: calendarNew_def put(5) received_def)
  ultimately show ?thesis by (auto simp: calendarOlder_def r(4))
qed

lemma calendarOlder_trans: "calendarOlder x y \<Longrightarrow> calendarOlder y z \<Longrightarrow> calendarOlder x z"
  unfolding calendarOlder_def by (cases x; cases y; cases z) (auto intro: calendarKept_trans calendarNew_append)

interpretation calendar: step_machine "calendarStep P zones decode" "\<lambda>st. jsonDecoding decode \<and> armSound (fst (snd st))"
  calendarOlder for P zones decode
proof
  fix s i s' assume "calendarStep P zones decode s i = Inr s'" "jsonDecoding decode \<and> armSound (fst (snd s))"
  then have "armSound (fst (snd s')) \<and> calendarOlder s s'"
    using calendarStep_older [of decode "fst (snd s)" P zones "fst s" "snd (snd s)" i "fst s'" "fst (snd s')" "snd (snd s')"] by simp
  then show "jsonDecoding decode \<and> armSound (fst (snd s'))" "calendarOlder s s'" using \<open>jsonDecoding decode \<and> _\<close> by auto
next
  show "calendarOlder s s" for s by (auto simp: calendarOlder_def calendarKept_def calendarNew_def split: prod.splits)
qed (rule calendarOlder_trans)

text \<open>Puts are applied one per period version.\<close>

definition putExpected :: "NativeCalendarInput \<Rightarrow> int" where
  "putExpected i = (case cw_mutation (cn_write i) of CalendarPut _ _ _ _ pv _ _ \<Rightarrow> pv | _ \<Rightarrow> 0)"

lemma calendarStep_version:
  assumes "calendarStep P zones decode st i = Inr st'"
  shows "putExpected i = cp_version (fst st) \<and> cp_version (fst st') = cp_version (fst st) + 1"
proof -
  obtain p a log where st: "st = (p, a, log)" by (cases st)
  define j where "j = i\<lparr>cn_period := p, cn_arm := a\<rparr>"
  from assms obtain r where r: "prepareNativeCalendarTaskPut P zones decode j = Inr r" "fst st' = cr_period r"
    by (auto simp: calendarStep_def st j_def andThen_Inr_iff)
  from r(1) obtain raw task where "calendarWriteTask j = Inr raw" "cr_period r = calendarAfterPeriod p task"
    by (rule calendarPut_ok) (simp add: j_def)
  then show ?thesis
    by (auto simp: r(2) st putExpected_def calendarWriteTask_def calendarAfterPeriod_def j_def Let_def andThen_Inr_iff
      split: NativeCalendarMutation.splits if_split_asm)
qed

interpretation calendar_store: versioned_store "calendarStep P zones decode" "\<lambda>st. cp_version (fst st)" putExpected
  for P zones decode
  by unfold_locales (rule calendarStep_version)

section \<open>Properties\<close>

text \<open>
  A put keeps the binding: whatever an accepted put was given, the period and the arm it stores
  validate again as a binding of the same control, with the same period, arm and control identities,
  the arm still the current one, both versions raised by one, the native task bound to the arm, and
  the arm received exactly when the stored task carries a delivery.
\<close>

theorem calendar_put_keeps_binding:
  assumes "prepareNativeCalendarTaskPut P zones decode i = Inr r"
  shows "validateCalendarBinding P (cr_after r) (cr_period r) (cr_arm r) = Inr () \<and> cr_after r = cn_control i \<and>
    calendarPeriodIdentity (cr_period r) = calendarPeriodIdentity (cn_period i) \<and>
    calendarArmIdentity (cr_arm r) = calendarArmIdentity (cn_arm i) \<and>
    cp_currentArmId (cr_period r) = ca_armId (cr_arm r) \<and> cp_version (cr_period r) = cp_version (cn_period i) + 1 \<and>
    ca_snapshotVersion (cr_arm r) = ca_snapshotVersion (cn_arm i) + 1 \<and>
    ca_nativeTaskId (cr_arm r) = Some (strOf (jget ''id'' (jget ''record'' (ca_taskSnapshot (cr_arm r))))) \<and>
    (ca_status (cr_arm r) = Arm_received \<longleftrightarrow> jtruthy (jget ''lastDelivery'' (ca_taskSnapshot (cr_arm r))))"
  using assms
proof (rule calendarPut_ok)
  fix raw v task before
  assume put: "calendarWriteTask i = Inr raw" "validateCalendarTask P (cn_control i) (cn_period i) (cn_arm i) raw decode = Inr task"
    "cr_arm r = calendarAfterArm (cn_arm i) (cw_writeId (cn_write i)) task" "cr_period r = calendarAfterPeriod (cn_period i) task"
    "validCalendarArm P (cr_arm r)" "validCalendarPeriod P (cr_period r)" "cr_after r = cn_control i"
  have "validateCalendarBinding P (cn_control i) (cn_period i) (cn_arm i) = Inr ()" by (rule calendarTask_ok(1) [OF put(2)])
  then have "validateCalendarBinding P (cr_after r) (cr_period r) (cr_arm r) = Inr ()"
    using put(5,6) unfolding calendarBinding_ok put(3,4,7) by (simp add: currentArm_after)
  moreover have "cp_version (cr_period r) = cp_version (cn_period i) + 1"
    "ca_snapshotVersion (cr_arm r) = ca_snapshotVersion (cn_arm i) + 1"
    "ca_nativeTaskId (cr_arm r) = Some (strOf (jget ''id'' (jget ''record'' task)))"
    by (simp_all add: put(3,4) calendarAfterArm_def calendarAfterPeriod_def)
  ultimately show ?thesis using writeTask_current [OF put(1)] put(3,4,7) by simp
qed

text \<open>
  (C18) One occurrence per period: over any sequence of accepted puts to an arm, whatever the writers,
  times, tasks and admissions, each put was prepared against another version of the period, at most one
  occurrence is produced, and none for an arm that was received before; the occurrence has the
  identity of the period's automation, id and business time, which no recovery time and no message id
  enters; and the identities of period and arm, the bound native task and the first binding write stay
  as they were.
\<close>

theorem calendar_occurrence_once:
  assumes "runAll (calendarStep P zones decode) (p, a, []) inputs = Inr (p', a', log)" "jsonDecoding decode" "armSound a"
  shows "distinct (map putExpected inputs) \<and> length log \<le> (if received a then 0 else 1) \<and> (log \<noteq> [] \<longrightarrow> received a') \<and>
    (\<forall>occ \<in> set log. calendarOccurrenceIdentity (cp_automationId p) (cp_periodId p) (cp_businessScheduledFor p) =
       Inr (co_identity occ)) \<and>
    calendarPeriodIdentity p' = calendarPeriodIdentity p \<and> calendarArmIdentity a' = calendarArmIdentity a \<and>
    (ca_nativeTaskId a \<noteq> None \<longrightarrow> ca_nativeTaskId a' = ca_nativeTaskId a) \<and>
    (ca_bindWriteId a \<noteq> None \<longrightarrow> ca_bindWriteId a' = ca_bindWriteId a)"
proof -
  have "calendarOlder (p, a, []) (p', a', log)" using calendar.run_older [OF assms(1)] assms(2,3) by simp
  then show ?thesis using calendar_store.run_distinct [OF assms(1)] by (auto simp: calendarOlder_def calendarKept_def calendarNew_def)
qed

text \<open>
  Admission: an occurrence of an accepted put is pending only if the current admission allows it,
  the plan is enabled at exactly the period's revision, the revision's policy or content digest is the
  admitted one, and the business time is after the resume watermark; the receipt behind it was scheduled
  at the arm's native time, and the writer had time left on its row.
\<close>

theorem calendar_pending_only_if_admitted:
  assumes "prepareNativeCalendarTaskPut P zones decode i = Inr r" "occ \<in> set (cr_occurrences r)" "co_state occ = Occurrence_pending"
  shows "\<exists>adm v. cn_admission i = Some adm \<and> parseCalendarRevision P zones (cn_revision i) = Inr v \<and> cd_allowed adm \<and>
    cd_status adm = Plan_enabled \<and> cd_currentRevision adm = cp_revision (cn_period i) \<and>
    calendarRevision v = cp_revision (cn_period i) \<and> calendarRevisionAdmissionMatches v (cd_facts adm) = Inr True \<and>
    (\<forall>after. cd_resumeAfter adm = Some after \<longrightarrow> \<not> notBefore after (cp_businessScheduledFor (cn_period i))) \<and>
    jget ''scheduledAt'' (jget ''receipt'' (co_payload occ)) = JStr (ca_nativeAt (cn_arm i)) \<and>
    (\<exists>left. nativeOnceWriterRemaining (cn_writerRow i) (cn_writer i) (cn_dbNowMs i) = Inr left \<and> 0 < left)"
  using assms(1)
proof (rule calendarPut_ok)
  fix raw v task before
  assume put: "calendarFence i = Inr ()" "parseCalendarRevision P zones (cn_revision i) = Inr v"
    "calendarRevision v = cp_revision (cn_period i)"
    "validateCalendarTask P (cn_control i) (cn_period i) (cn_arm i) raw decode = Inr task"
    "calendarOccurrences (cn_control i) (cn_period i) (cn_arm i) v (cn_admission i) before task = Inr (cr_occurrences r)"
  from occurrences_from_receipt(4) [OF put(5) assms(2)] obtain receipt where rc: "calendarReceipt before task = Some receipt"
    "calendarOccurrence (cn_control i) (cn_period i) (cn_arm i) v (cn_admission i) task receipt = Inr occ" by blast
  note occ = calendarOccurrence_ok [OF rc(2)]
  have "co_reason occ = None" using occ(4) assms(3) by (auto split: if_splits)
  then have "calendarAdmissionReason (cn_period i) v (cn_admission i) = Inr None" using occ(3) by simp
  from admission_none [OF this] obtain adm where "cn_admission i = Some adm" "cd_allowed adm" "cd_status adm = Plan_enabled"
    "cd_currentRevision adm = cp_revision (cn_period i)" "calendarRevisionAdmissionMatches v (cd_facts adm) = Inr True"
    "\<forall>after. cd_resumeAfter adm = Some after \<longrightarrow> \<not> notBefore after (cp_businessScheduledFor (cn_period i))"
    by blast
  moreover have "jget ''receipt'' (co_payload occ) = receipt" by (simp add: occ(2) calendarPayload_def)
  ultimately show ?thesis using put(2,3) receipt_scheduled [OF put(4) rc(1)] calendarFence_live [OF put(1)] by auto
qed


section \<open>A concrete period\<close>

definition jsonTask :: "jsval \<Rightarrow> jsval result" where
  "jsonTask v = (if jsonOk v then Inr v else Inl ZodError)"

lemma jsonTask_decoding: "jsonDecoding jsonTask"
  by (simp add: jsonDecoding_def jsonTask_def)

definition calReference :: NativeOnceReference where
  "calReference = sampleReference\<lparr>nr_profileId := ''allrice-recurring-control-v1''\<rparr>"

definition calRow :: NativeOnceWriterRow where
  "calRow = sampleRow\<lparr>ww_partitionId := calendarPartition, ww_reference := calReference\<rparr>"

definition calAcquire :: NativeOnceAcquire where
  "calAcquire = sampleAcquire\<lparr>aq_expectedReference := calReference\<rparr>"

lemma cal_acquire: "\<exists>acq. planNativeOnceAcquire calRow calAcquire = Inr (Some acq)"
proof -
  have "\<exists>f. fence \<lparr>wr_partitionId = calendarPartition, wr_ownerId = ''host'', wr_epoch = 1, wr_token = ''tok''\<rparr> = Inr f"
    unfolding fence_ok_iff by (simp add: goodId_def isSafeInteger_def calendarPartition_def)
  then show ?thesis
    by (auto simp: planNativeOnceAcquire_def calAcquire_def calRow_def sampleAcquire_def sampleRow_def nativeOnceReady_def
        sampleReady_def safeTime_def isSafeInteger_def TTL_MAX_def)
qed

definition calControl :: NativeCalendarControl where
  "calControl = \<lparr>cc_partitionId = calendarPartition, cc_controlId = ''c1'', cc_organizationId = ''o1'', cc_workspaceId = ''w1'',
     cc_ownerId = ''u1'', cc_automationId = ''a1'', cc_revision = 1, cc_controlSessionId = ''cs'', cc_reference = calReference,
     cc_sessionState = Session_ready, cc_dispatch = DispatchExperience ''e1'' ''i1''\<rparr>"

definition calRevision :: NativeExperienceCalendarRevision where
  "calRevision = \<lparr>er_revision = 1, er_schedule = sampleMonthly\<lparr>as_timezone := Some ''Asia/Shanghai''\<rparr>, er_ruleRevision = 1,
     er_policyRevision = 1, er_policyDigest = sampleDigest, er_reservationDigest = sampleDigest, er_acceptedAt = sampleAt\<rparr>"

definition calPeriod :: NativeCalendarPeriod where
  "calPeriod = \<lparr>cp_periodId = ''p1'', cp_partitionId = calendarPartition, cp_controlId = ''c1'', cp_automationId = ''a1'',
     cp_revision = 1, cp_businessScheduledFor = sampleAt, cp_currentArmId = ''r1'', cp_state = Period_bound, cp_version = 1\<rparr>"

definition calTask :: jsval where
  "calTask = JObj [(''sessionId'', JStr ''cs''), (''record'', jget ''record'' sampleOnceTask), (''status'', JStr ''active'')]"

definition calFence :: NativeOnceFence where
  "calFence = \<lparr>fe_partitionId = calendarPartition, fe_ownerId = ''host'', fe_epoch = 1, fe_tokenDigest = sampleDigest\<rparr>"

definition calArm :: "string \<Rightarrow> NativeCalendarArm" where
  "calArm d = \<lparr>ca_armId = ''r1'', ca_periodId = ''p1'', ca_attempt = 1, ca_nativeAt = sampleAt, ca_reason = Reason_business_target,
     ca_requestDigest = d, ca_status = Arm_bound, ca_nativeTaskId = Some ''t1'', ca_taskSnapshot = calTask,
     ca_bindWriteId = Some ''b1'', ca_lastWriteId = Some ''b1'', ca_createWriter = Some calFence, ca_absenceProof = None,
     ca_snapshotVersion = 1\<rparr>"

definition calAdmission :: NativeCalendarAdmission where
  "calAdmission = \<lparr>cd_allowed = True, cd_currentRevision = 1, cd_status = Plan_enabled, cd_resumeAfter = None,
     cd_facts = AdmissionExperience 1 sampleDigest\<rparr>"

definition calMutation :: "string \<Rightarrow> NativeCalendarMutation" where
  "calMutation d = CalendarPut ''c1'' ''p1'' ''r1'' d 1 1 sampleOnceTask"

lemma digest_checksum: "nativeOnceDigest v = Inr d \<Longrightarrow> checksumOk d \<and> length d = 71"
  using runtimePolicyDigest_checksum [of v d]
  by (auto simp: nativeOnceDigest_def checksumOk_def split: if_split_asm sum.splits)

lemma natStr_short: "length (natStr n) \<le> n + 1"
  by (induction n rule: natStr.induct) (subst natStr.simps, auto)

lemma len_one_two: "length (natStr (Suc 0)) \<le> 2" "length (natStr 2) \<le> 3" "length (natStr 31) \<le> 32"
  using natStr_short [of 1] natStr_short [of 2] natStr_short [of 31] by simp_all

lemmas calJson_defs = calendarControlIdentity_def calendarControlJson_def calendarPeriodIdentity_def calendarPeriodJson_def
  calendarArmIdentity_def calendarArmJson_def fenceJson_def referenceJson_def scheduleJson_def calendarPayload_def
  calendarWriteJson_def optProp_def jOpt_def jStrs_def intStr_def

lemmas cal_defs = calControl_def calReference_def sampleReference_def calPeriod_def calArm_def calTask_def calFence_def
  calRevision_def calMutation_def sampleOnceTask_def sampleAt_def sampleDigest_def sampleMonthly_def calendarPartition_def
  nativeCalendarTitle_def nativeCalendarPrompt_def onceTitle_def oncePrompt_def

definition calReceipt :: jsval where
  "calReceipt = jget ''lastDelivery'' sampleOnceTask"

lemma cal_digests:
  assumes "length d = 71"
  shows "\<exists>e. calendarArmRequestDigest calControl calPeriod (calArm d) = Inr e"
    "\<exists>e. nativeOnceDigest (calendarMutationJson (calMutation d)) = Inr e"
    "\<exists>e. nativeOnceDigest calTask = Inr e" "\<exists>e. nativeOnceDigest sampleOnceTask = Inr e"
    "\<exists>e. nativeOnceDigest (jStrs [''calendar-period-v1'', ''a1'', ''p1'', sampleAt]) = Inr e"
    "\<exists>e. nativeOnceDigest (calendarPayload calControl calPeriod (calArm d) (RevisionExperience calRevision) sampleOnceTask
       calReceipt) = Inr e"
    "\<exists>e. nativeOnceDigest (JObj [(''control'', calendarControlJson calControl), (''period'', calendarPeriodJson calPeriod),
       (''arm'', calendarArmJson (calArm d))]) = Inr e"
    "\<exists>e. nativeOnceDigest (JObj [(''control'', calendarControlJson calControl), (''task'', JNull)]) = Inr e"
    "\<exists>e. nativeOnceDigest (calendarPeriodJson (calendarAfterPeriod calPeriod sampleOnceTask)) = Inr e"
    "\<exists>e. nativeOnceDigest (calendarArmJson (calendarAfterArm (calArm d) ''w1'' sampleOnceTask)) = Inr e"
  unfolding calendarArmRequestDigest_def using len_one_two assms
  by (intro digest_small; simp add: cal_defs calReceipt_def calJson_defs calendarAfterArm_def calendarAfterPeriod_def strOf_def)+


lemma cal_valid:
  assumes "checksumOk d"
  shows "validCalendarControl samplePlatform calControl" "validCalendarPeriod samplePlatform calPeriod"
    "validCalendarArm samplePlatform (calArm d)" "validCalendarMutation samplePlatform (calMutation d)"
    "validCalendarArm samplePlatform (calendarAfterArm (calArm d) ''w1'' sampleOnceTask)"
    "validCalendarPeriod samplePlatform (calendarAfterPeriod calPeriod sampleOnceTask)"
  using assms sampleAt_iso(1)
  by (simp_all add: validCalendarControl_def validCalendarPeriod_def validCalendarArm_def armRefined_def
    calControl_def calReference_def sampleReference_def calPeriod_def calArm_def calFence_def validCalendarWriterIdentity_def
    lenIn_def calendarPartition_def zPositive_def zNonneg_def isSafeInteger_def calTask_def calMutation_def
    calendarAfterArm_def calendarAfterPeriod_def sampleOnceTask_def strOf_def)

lemma cal_binding:
  assumes "calendarArmRequestDigest calControl calPeriod (calArm d) = Inr d"
  shows "validateCalendarBinding samplePlatform calControl calPeriod (calArm d) = Inr ()"
proof -
  have "checksumOk d" using assms digest_checksum by (auto simp: calendarArmRequestDigest_def)
  from cal_valid(1-3) [OF this] assms show ?thesis
    unfolding calendarBinding_ok by (simp add: calControl_def calPeriod_def calArm_def currentArmState_def)
qed

lemma cal_tasks:
  assumes "calendarArmRequestDigest calControl calPeriod (calArm d) = Inr d"
  shows "validateCalendarTask samplePlatform calControl calPeriod (calArm d) sampleOnceTask jsonTask = Inr sampleOnceTask"
    "validateCalendarTask samplePlatform calControl calPeriod (calArm d) calTask jsonTask = Inr calTask"
proof -
  have ok: "jsonOk sampleOnceTask" "jsonOk calTask" by (simp_all add: sampleOnceTask_def calTask_def)
  note eq = jeq_refl(1) [OF ok(1)] jeq_refl(1) [OF ok(2)]
  have fields: "cc_sessionState calControl = Session_ready" "cc_controlSessionId calControl = ''cs''" "ca_nativeAt (calArm d) = sampleAt"
    "ca_nativeTaskId (calArm d) = Some ''t1''" by (simp_all add: calControl_def calArm_def)
  have "length d = 71" using assms digest_checksum by (auto simp: calendarArmRequestDigest_def)
  note dig = cal_digests(3,4) [OF this]
  show "validateCalendarTask samplePlatform calControl calPeriod (calArm d) sampleOnceTask jsonTask = Inr sampleOnceTask"
    using dig(2) eq(1) sampleAt_iso(1) unfolding validateCalendarTask_def jsonTask_def Let_def
    by (auto simp: cal_binding [OF assms] ok fields) (auto simp: sampleOnceTask_def goodIdJ_def goodId_def isoExactJ_def strOf_def
      nativeCalendarTitle_def nativeCalendarPrompt_def onceTitle_def oncePrompt_def)
  show "validateCalendarTask samplePlatform calControl calPeriod (calArm d) calTask jsonTask = Inr calTask"
    using dig(1) eq(2) unfolding validateCalendarTask_def jsonTask_def Let_def
    by (auto simp: cal_binding [OF assms] ok fields) (auto simp: sampleOnceTask_def calTask_def goodIdJ_def goodId_def strOf_def
      nativeCalendarTitle_def nativeCalendarPrompt_def onceTitle_def oncePrompt_def)
qed

lemma cal_occurrences:
  assumes "length d = 71"
  shows "\<exists>occ. calendarOccurrences calControl calPeriod (calArm d) (RevisionExperience calRevision) (Some calAdmission)
    (Some calTask) sampleOnceTask = Inr [occ] \<and> co_state occ = Occurrence_pending \<and> length (ci_key (co_identity occ)) = 71 \<and>
    length (co_payloadDigest occ) = 71"
proof -
  obtain k e where k: "nativeOnceDigest (jStrs [''calendar-period-v1'', ''a1'', ''p1'', sampleAt]) = Inr k"
    "nativeOnceDigest (calendarPayload calControl calPeriod (calArm d) (RevisionExperience calRevision) sampleOnceTask calReceipt) = Inr e"
    using cal_digests(5,6) [OF assms] by blast
  have "calendarReceipt (Some calTask) sampleOnceTask = Some calReceipt"
    by (simp add: calendarReceipt_def calTask_def sampleOnceTask_def calReceipt_def)
  moreover have "calendarAdmissionReason calPeriod (RevisionExperience calRevision) (Some calAdmission) = Inr None"
    by (simp add: calendarAdmissionReason_def calAdmission_def calPeriod_def calRevision_def)
  moreover have "cc_automationId calControl = ''a1''" "cp_periodId calPeriod = ''p1''" "cp_businessScheduledFor calPeriod = sampleAt"
    by (simp_all add: calControl_def calPeriod_def)
  ultimately show ?thesis
    using k digest_checksum [OF k(1)] digest_checksum [OF k(2)]
    unfolding calendarOccurrences_def calendarOccurrence_def calendarOccurrenceIdentity_def Let_def by simp
qed

lemma stableUuid_length: "length (stableUuid parts) \<le> 36"
  by (simp add: stableUuid_def Let_def)

lemma cal_journal:
  assumes d: "length d = 71" and w: "fence (cn_writer i) = Inr f" "length (fe_tokenDigest f) = 71" "wr_partitionId (cn_writer i) = calendarPartition"
      "wr_ownerId (cn_writer i) = ''host''" "wr_epoch (cn_writer i) = 1"
    and i: "cn_control i = calControl" "cn_period i = calPeriod" "cn_arm i = calArm d" "cn_reference i = calReference"
      "cn_write i = \<lparr>cw_writeId = ''w1'', cw_digest = m, cw_mutation = calMutation d\<rparr>" "length m = 71"
    and occ: "length (ci_key (co_identity occ)) = 71" "length (co_payloadDigest occ) = 71" "length (ci_id (co_identity occ)) \<le> 36"
  shows "\<exists>j. calendarJournal i (calendarAfterPeriod calPeriod sampleOnceTask) (calendarAfterArm (calArm d) ''w1'' sampleOnceTask)
    sampleOnceTask [occ] = Inr j"
proof -
  have tok: "nativeOnceDigest (JStr (wr_token (cn_writer i))) = Inr (fe_tokenDigest f)" using fence_fields [OF w(1)] by blast
  then have "calendarWriterIdentity (cn_writer i) = Inr \<lparr>fe_partitionId = calendarPartition, fe_ownerId = ''host'', fe_epoch = 1,
      fe_tokenDigest = fe_tokenDigest f\<rparr>"
    using digest_checksum [OF tok] w
    by (simp add: calendarWriterIdentity_def validCalendarWriterIdentity_def lenIn_def calendarPartition_def zPositive_def isSafeInteger_def)
  moreover obtain b a pd ad td where dg: "nativeOnceDigest (JObj [(''control'', calendarControlJson calControl),
      (''period'', calendarPeriodJson calPeriod), (''arm'', calendarArmJson (calArm d))]) = Inr b"
    "nativeOnceDigest (JObj [(''control'', calendarControlJson calControl), (''task'', JNull)]) = Inr a"
    "nativeOnceDigest (calendarPeriodJson (calendarAfterPeriod calPeriod sampleOnceTask)) = Inr pd"
    "nativeOnceDigest (calendarArmJson (calendarAfterArm (calArm d) ''w1'' sampleOnceTask)) = Inr ad"
    "nativeOnceDigest sampleOnceTask = Inr td" using cal_digests [OF d] by blast
  note lens = dg [THEN digest_checksum, THEN conjunct2]
  define j where "j = \<lparr>cj_writer = \<lparr>fe_partitionId = calendarPartition, fe_ownerId = ''host'', fe_epoch = 1,
      fe_tokenDigest = fe_tokenDigest f\<rparr>, cj_reference = calReference, cj_write = cn_write i,
    cj_identity = calendarControlIdentity calControl, cj_beforeDigest = b, cj_afterDigest = a,
    cj_period = calendarAfterPeriod calPeriod sampleOnceTask, cj_arm = calendarAfterArm (calArm d) ''w1'' sampleOnceTask,
    cj_periodDigest = pd, cj_armDigest = ad, cj_taskDigest = td,
    cj_receiptLinks = [(ci_id (co_identity occ), ci_key (co_identity occ), co_payloadDigest occ)]\<rparr>"
  have "\<exists>e. nativeOnceDigest (calendarJournalJson j) = Inr e"
    using len_one_two d w(2) i(6) occ lens
    by (intro digest_small; simp add: j_def calendarJournalJson_def i(5) cal_defs calJson_defs calendarAfterArm_def
      calendarAfterPeriod_def strOf_def)
  then obtain e where "nativeOnceDigest (calendarJournalJson j) = Inr e" by blast
  ultimately have "calendarJournal i (calendarAfterPeriod calPeriod sampleOnceTask) (calendarAfterArm (calArm d) ''w1'' sampleOnceTask)
      sampleOnceTask [occ] = Inr j"
    unfolding calendarJournal_def Let_def using dg by (simp add: i(1-4) j_def)
  then show ?thesis by blast
qed


lemma cal_put:
  "\<exists>i d r occ. prepareNativeCalendarTaskPut samplePlatform sampleZones jsonTask (i\<lparr>cn_period := calPeriod, cn_arm := calArm d\<rparr>) = Inr r \<and>
     cr_occurrences r = [occ] \<and> co_state occ = Occurrence_pending \<and> cn_admission i = Some calAdmission"
proof -
  obtain acq where a: "planNativeOnceAcquire calRow calAcquire = Inr (Some acq)" using cal_acquire by blast
  note acq = acquire_cases [OF a]
  obtain d where d: "calendarArmRequestDigest calControl calPeriod (calArm d) = Inr d"
    using cal_digests(1) [of sampleDigest] by (auto simp: calendarArmRequestDigest_def calArm_def sampleDigest_def)
  then have len: "length d = 71" "checksumOk d" using digest_checksum by (auto simp: calendarArmRequestDigest_def)
  obtain m where m: "nativeOnceDigest (calendarMutationJson (calMutation d)) = Inr m" using cal_digests(2) [OF len(1)] by blast
  define w where "w = \<lparr>cw_writeId = ''w1'', cw_digest = m, cw_mutation = calMutation d\<rparr>"
  define i where "i = \<lparr>cn_readiness = sampleReady, cn_reference = calReference, cn_writerRow = ac_row acq, cn_writer = ac_writer acq,
    cn_dbNowMs = 1000, cn_control = calControl, cn_period = calPeriod, cn_arm = calArm d,
    cn_revision = RevisionExperience calRevision, cn_write = w, cn_admission = Some calAdmission\<rparr>"
  obtain f where f: "fence (ac_writer acq) = Inr f" using acq by (auto simp: sameWriter_True)
  have tok: "length (fe_tokenDigest f) = 71" using fence_fields [OF f] digest_checksum by blast
  obtain occ where occ: "calendarOccurrences calControl calPeriod (calArm d) (RevisionExperience calRevision) (Some calAdmission)
      (Some calTask) sampleOnceTask = Inr [occ]" "co_state occ = Occurrence_pending" "length (ci_key (co_identity occ)) = 71"
    "length (co_payloadDigest occ) = 71" using cal_occurrences [OF len(1)] by blast
  have "length (ci_id (co_identity occ)) \<le> 36"
    using occ(1) stableUuid_length
    by (auto simp: calendarOccurrences_def calendarOccurrence_def calendarOccurrenceIdentity_def andThen_Inr_iff Let_def split: option.splits)
  then obtain j where j: "calendarJournal i (calendarAfterPeriod calPeriod sampleOnceTask)
      (calendarAfterArm (calArm d) ''w1'' sampleOnceTask) sampleOnceTask [occ] = Inr j"
    using cal_journal [OF len(1), of i f m occ] f tok acq occ digest_checksum [OF m]
    by (auto simp: i_def w_def calRow_def sampleRow_def calAcquire_def sampleAcquire_def)
  have fence: "calendarFence i = Inr ()"
    using acquired_live [OF a] acq by (simp add: calendarFence_def i_def nativeOnceReady_def sampleReady_def calAcquire_def
      sampleAcquire_def calRow_def calControl_def)
  have wr: "calendarWriteTask i = Inr sampleOnceTask"
    using acq m by (simp add: calendarWriteTask_def i_def w_def calMutation_def lenIn_def calRow_def calControl_def calPeriod_def calArm_def)
  have rev: "parseCalendarRevision samplePlatform sampleZones (RevisionExperience calRevision) = Inr (RevisionExperience calRevision)"
    using sampleAt_iso(1) by (simp add: calRevision_def sampleMonthly_def validAutomationSchedule_def clockMinute_def isDigitChar_def
      lenIn_def sampleZones_def zPositive_def isSafeInteger_def scheduleTimezone_def)
  have prog: "calendarProgress (ac_writer acq) calPeriod (calArm d) (Some calTask) sampleOnceTask = Inr ()"
    by (simp add: calendarProgress_def calTask_def sampleOnceTask_def)
  have snap: "ca_taskSnapshot (calArm d) = calTask" "calTask \<noteq> JNull" "ca_status (calArm d) = Arm_bound" by (simp_all add: calArm_def calTask_def)
  have con: "calendarRevision (RevisionExperience calRevision) = cp_revision calPeriod" "sameConsumer (RevisionExperience calRevision) (cc_dispatch calControl)"
    by (simp_all add: calRevision_def calPeriod_def calControl_def)
  have fields: "cn_control i = calControl" "cn_period i = calPeriod" "cn_arm i = calArm d" "cn_revision i = RevisionExperience calRevision"
    "cn_write i = w" "cw_mutation w = calMutation d" "cw_writeId w = ''w1''" "cn_writer i = ac_writer acq" "cn_admission i = Some calAdmission"
    by (simp_all add: i_def w_def)
  have "\<exists>r. prepareNativeCalendarTaskPut samplePlatform sampleZones jsonTask i = Inr r \<and> cr_occurrences r = [occ]"
    unfolding prepareNativeCalendarTaskPut_def Let_def
    by (simp add: fence wr rev prog snap con fields cal_tasks [OF d] cal_valid [OF len(2)] occ(1) j del: parseCalendarRevision.simps calendarRevision.simps sameConsumer.simps)
  then show ?thesis using occ(2) fields(9) by (intro exI [of _ i] exI [of _ d]) (auto simp: i_def)
qed

theorem calendar_put_keeps_binding_witness:
  "\<exists>i r. prepareNativeCalendarTaskPut samplePlatform sampleZones jsonTask i = Inr r \<and>
     validateCalendarBinding samplePlatform (cr_after r) (cr_period r) (cr_arm r) = Inr ()"
  using cal_put calendar_put_keeps_binding by blast

theorem calendar_occurrence_once_witness:
  "\<exists>d i p' a' log. runAll (calendarStep samplePlatform sampleZones jsonTask) (calPeriod, calArm d, []) [i] = Inr (p', a', log) \<and>
     length log = 1 \<and> received a'"
proof -
  obtain i d r occ where r: "prepareNativeCalendarTaskPut samplePlatform sampleZones jsonTask
      (i\<lparr>cn_period := calPeriod, cn_arm := calArm d\<rparr>) = Inr r" "cr_occurrences r = [occ]" using cal_put by blast
  then have run: "runAll (calendarStep samplePlatform sampleZones jsonTask) (calPeriod, calArm d, []) [i] =
      Inr (cr_period r, cr_arm r, [occ])" by (simp add: calendarStep_def)
  have "armSound (calArm d)" by (simp add: armSound_def received_def calArm_def)
  from calendar_occurrence_once [OF run jsonTask_decoding this] have "received (cr_arm r)" by simp
  then show ?thesis by (intro exI conjI) (rule run, simp, assumption)
qed

theorem calendar_pending_only_if_admitted_witness:
  "\<exists>i r occ adm. prepareNativeCalendarTaskPut samplePlatform sampleZones jsonTask i = Inr r \<and> cr_occurrences r = [occ] \<and>
     cn_admission i = Some adm \<and> cd_allowed adm"
proof -
  obtain i r occ where r: "prepareNativeCalendarTaskPut samplePlatform sampleZones jsonTask i = Inr r" "cr_occurrences r = [occ]"
    "co_state occ = Occurrence_pending" using cal_put by blast
  from calendar_pending_only_if_admitted [OF r(1), of occ] r show ?thesis by auto
qed

end
