(* ===== verification/UserQuestions.thy ===== *)
theory UserQuestions
  imports Identity "HOL-Library.Monad_Syntax" "HOL-Library.Multiset"
begin

text \<open>
  packages/contracts/src/user-questions.ts: the questions an agent asks its user, the answers a
  user submits and the one check of an answer batch against its questions.  A \<open>parse\<close> function
  is the schema's \<open>safeParse\<close> on a value of the declared shape: None is failure, Some the value
  with its strings trimmed and its defaults filled in.  Shown: parsing is idempotent, and the
  exact condition under which a submission matches.  When the question ids of the request differ,
  that is when it answers every question once with admissible choices, and the result is the
  submitted answers in question order.  No schema makes the ids differ, and when an id is repeated
  an answer to no question at all is accepted and dropped.
\<close>

section \<open>Schemas\<close>

text \<open>\<open>z.string().trim().min(lo).max(hi)\<close>\<close>

definition zTrim :: "nat \<Rightarrow> nat \<Rightarrow> string \<Rightarrow> string option" where
  "zTrim lo hi s = (if lenIn lo hi (trim s) then Some (trim s) else None)"

text \<open>\<open>schema.optional()\<close>\<close>

definition zOptional :: "('a \<Rightarrow> 'b option) \<Rightarrow> 'a option \<Rightarrow> 'b option option" where
  "zOptional p x = (case x of None \<Rightarrow> Some None | Some v \<Rightarrow> map_option Some (p v))"

text \<open>\<open>z.array(schema)\<close>\<close>

fun zArray :: "('a \<Rightarrow> 'b option) \<Rightarrow> 'a list \<Rightarrow> 'b list option" where
  "zArray p [] = Some []"
| "zArray p (x # xs) = do { y \<leftarrow> p x; ys \<leftarrow> zArray p xs; Some (y # ys) }"

record UserQuestionOption =
  uo_label :: string
  uo_description :: "string option"

definition parseUserQuestionOption :: "UserQuestionOption \<Rightarrow> UserQuestionOption option" where
  "parseUserQuestionOption q = do {
     l \<leftarrow> zTrim 1 240 (uo_label q);
     d \<leftarrow> zOptional (zTrim 1 1000) (uo_description q);
     Some \<lparr>uo_label = l, uo_description = d\<rparr> }"

text \<open>\<open>intent\<close> has the literal kind \<open>plan-review\<close>, so only its \<open>approve\<close> label is data.\<close>

record UserQuestionItem =
  uq_id :: string
  uq_question :: string
  uq_detail :: "string option"
  uq_header :: "string option"
  uq_options :: "UserQuestionOption list option"
  uq_multiSelect :: "bool option"
  uq_intentApprove :: "string option"

definition parseUserQuestionItem :: "UserQuestionItem \<Rightarrow> UserQuestionItem option" where
  "parseUserQuestionItem q = do {
     i \<leftarrow> zTrim 1 240 (uq_id q);
     t \<leftarrow> zTrim 1 4000 (uq_question q);
     d \<leftarrow> zOptional (zTrim 1 20000) (uq_detail q);
     h \<leftarrow> zOptional (zTrim 1 160) (uq_header q);
     os \<leftarrow> zOptional (\<lambda>xs. if length xs \<le> 20 then zArray parseUserQuestionOption xs else None) (uq_options q);
     a \<leftarrow> zOptional (zTrim 1 240) (uq_intentApprove q);
     Some \<lparr>uq_id = i, uq_question = t, uq_detail = d, uq_header = h, uq_options = os,
       uq_multiSelect = Some (orElse (uq_multiSelect q) False), uq_intentApprove = a\<rparr> }"

record UserQuestionAnswerItem =
  ua_id :: string
  ua_selected :: "string list"
  ua_custom :: "string option"

definition parseUserQuestionAnswerItem :: "UserQuestionAnswerItem \<Rightarrow> UserQuestionAnswerItem option" where
  "parseUserQuestionAnswerItem a = do {
     i \<leftarrow> zTrim 1 240 (ua_id a);
     s \<leftarrow> (if length (ua_selected a) \<le> 20 then zArray (zTrim 1 240) (ua_selected a) else None);
     c \<leftarrow> zOptional (zTrim 1 20000) (ua_custom a);
     Some \<lparr>ua_id = i, ua_selected = s, ua_custom = c\<rparr> }"

text \<open>The pattern \<open>^dsh-[0-9a-f-]{36}(?:-[^:\s]+)?:.+$\<close> with the dot matching line ends too.\<close>

definition nativeUserQuestionId :: "string \<Rightarrow> bool" where
  "nativeUserQuestionId s \<longleftrightarrow> 40 \<le> length s \<and> take 4 s = ''dsh-'' \<and>
     list_all (\<lambda>c. isHexLower c \<or> c = CHR ''-'') (take 36 (drop 4 s)) \<and>
     (let rest = drop 40 s; suffix = takeWhile (\<lambda>c. c \<noteq> CHR '':'') rest;
          tail = dropWhile (\<lambda>c. c \<noteq> CHR '':'') rest in
      2 \<le> length tail \<and>
      (suffix = [] \<or> (2 \<le> length suffix \<and> hd suffix = CHR ''-'' \<and> list_all (\<lambda>c. \<not> isWhite c) (tl suffix))))"

definition parseQuestionId :: "string \<Rightarrow> string option" where
  "parseQuestionId s = (if nativeUserQuestionId s then Some s else zTrim 1 240 s)"

record UserQuestionRequest =
  ur_questionId :: string
  ur_questions :: "UserQuestionItem list"
  ur_nativeSessionId :: "string option"
  ur_callId :: "string option"
  ur_durable :: "bool option"
  ur_progress :: "(string option \<times> string) option"

definition parseUserQuestionRequest :: "platform \<Rightarrow> UserQuestionRequest \<Rightarrow> UserQuestionRequest option" where
  "parseUserQuestionRequest P r = do {
     i \<leftarrow> parseQuestionId (ur_questionId r);
     qs \<leftarrow> (if 1 \<le> length (ur_questions r) \<and> length (ur_questions r) \<le> 10
        then zArray parseUserQuestionItem (ur_questions r) else None);
     (if optAll (\<lambda>s. 1 \<le> length s) (ur_nativeSessionId r) \<and> optAll (\<lambda>s. 1 \<le> length s) (ur_callId r) \<and>
         optAll (\<lambda>(run, pause). optAll (zUuid P) run \<and> lenIn 1 240 pause) (ur_progress r) \<and>
         (orElse (ur_durable r) False \<longrightarrow>
            (case (ur_nativeSessionId r, ur_callId r) of
               (Some s, Some c) \<Rightarrow> i = s @ '':'' @ c | _ \<Rightarrow> False))
      then Some (r\<lparr>ur_questionId := i, ur_questions := qs\<rparr>) else None) }"

record UserQuestionAnswerSubmission =
  us_questionId :: string
  us_answers :: "UserQuestionAnswerItem list"

definition parseUserQuestionAnswerSubmission ::
  "UserQuestionAnswerSubmission \<Rightarrow> UserQuestionAnswerSubmission option" where
  "parseUserQuestionAnswerSubmission s = do {
     i \<leftarrow> parseQuestionId (us_questionId s);
     as \<leftarrow> (if 1 \<le> length (us_answers s) \<and> length (us_answers s) \<le> 10
        then zArray parseUserQuestionAnswerItem (us_answers s) else None);
     Some \<lparr>us_questionId = i, us_answers = as\<rparr> }"

section \<open>Matching an answer batch\<close>

definition questionLabels :: "UserQuestionItem \<Rightarrow> string list" where
  "questionLabels q = map uo_label (orElse (uq_options q) [])"

definition truthyText :: "string option \<Rightarrow> bool" where
  "truthyText t = (case t of None \<Rightarrow> False | Some s \<Rightarrow> s \<noteq> [])"

definition matchAnswerItem ::
  "(string \<rightharpoonup> UserQuestionAnswerItem) \<Rightarrow> UserQuestionItem \<Rightarrow> UserQuestionAnswerItem option" where
  "matchAnswerItem byId question = (case byId (uq_id question) of
     None \<Rightarrow> None
   | Some answer \<Rightarrow>
       if \<not> distinct (ua_selected answer) \<or>
          list_ex (\<lambda>label. label \<notin> set (questionLabels question)) (ua_selected answer) \<or>
          (\<not> orElse (uq_multiSelect question) False \<and>
            (1 < length (ua_selected answer) \<or> (0 < length (ua_selected answer) \<and> truthyText (ua_custom answer))))
       then None
       else Some \<lparr>ua_id = uq_id question, ua_selected = ua_selected answer,
         ua_custom = (if truthyText (ua_custom answer) then ua_custom answer else None)\<rparr>)"

text \<open>\<open>new Map(answers.map((a) => [a.id, a]))\<close>: the last answer of an id wins.\<close>

definition answersById :: "UserQuestionAnswerItem list \<Rightarrow> (string \<rightharpoonup> UserQuestionAnswerItem)" where
  "answersById as = map_of (rev (map (\<lambda>a. (ua_id a, a)) as))"

definition matchUserQuestionAnswer ::
  "UserQuestionRequest \<Rightarrow> UserQuestionAnswerSubmission \<Rightarrow> UserQuestionAnswerItem list option" where
  "matchUserQuestionAnswer request submission = (case parseUserQuestionAnswerSubmission submission of
     None \<Rightarrow> None
   | Some parsed \<Rightarrow>
       if us_questionId parsed \<noteq> ur_questionId request \<or> length (us_answers parsed) \<noteq> length (ur_questions request)
       then None
       else
         let byId = answersById (us_answers parsed) in
         if length (remdups (map ua_id (us_answers parsed))) \<noteq> length (us_answers parsed) then None
         else zArray (matchAnswerItem byId) (ur_questions request))"


lemma zArray_iff: "zArray p xs = Some ys \<longleftrightarrow> list_all2 (\<lambda>x y. p x = Some y) xs ys"
proof (induction xs arbitrary: ys)
  case (Cons x xs)
  show ?case
    by (cases "p x"; cases "zArray p xs"; cases ys) (simp_all add: Cons.IH [symmetric], blast?)
qed (auto simp: eq_commute [of "[]"])

lemma zTrim_iff: "zTrim lo hi s = Some t \<longleftrightarrow> t = trim s \<and> lenIn lo hi t"
  by (auto simp: zTrim_def)

lemma zOptional_iff: "zOptional p x = Some y \<longleftrightarrow> (case x of None \<Rightarrow> y = None | Some v \<Rightarrow> \<exists>w. p v = Some w \<and> y = Some w)"
  by (cases x) (auto simp: zOptional_def)

lemma length_remdups_eq: "length (remdups xs) = length xs \<longleftrightarrow> distinct xs"
  by (metis length_remdups_card_conv card_distinct distinct_card)

definition admissible :: "UserQuestionItem \<Rightarrow> UserQuestionAnswerItem \<Rightarrow> bool" where
  "admissible q a \<longleftrightarrow> distinct (ua_selected a) \<and> set (ua_selected a) \<subseteq> set (questionLabels q) \<and>
     (uq_multiSelect q = Some True \<or> length (ua_selected a) = 0 \<or> length (ua_selected a) = 1 \<and> ua_custom a = None)"

lemma parsed_answer:
  assumes "parseUserQuestionAnswerItem x = Some a"
  shows "truthyText (ua_custom a) \<longleftrightarrow> ua_custom a \<noteq> None"
  using assms
  by (auto simp: parseUserQuestionAnswerItem_def truthyText_def zOptional_iff zTrim_iff lenIn_def
      split: bind_splits option.splits if_splits)

lemma parsed_answers:
  assumes "parseUserQuestionAnswerSubmission s = Some p" "a \<in> set (us_answers p)"
  shows "truthyText (ua_custom a) \<longleftrightarrow> ua_custom a \<noteq> None"
proof -
  obtain x where "parseUserQuestionAnswerItem x = Some a"
    using assms by (auto simp: parseUserQuestionAnswerSubmission_def zArray_iff list_all2_conv_all_nth in_set_conv_nth
        split: bind_splits if_splits)
  then show ?thesis by (rule parsed_answer)
qed

lemma matchAnswerItem_iff:
  assumes "\<And>b. byId (uq_id q) = Some b \<Longrightarrow> ua_id b = uq_id q \<and> (truthyText (ua_custom b) \<longleftrightarrow> ua_custom b \<noteq> None)"
  shows "matchAnswerItem byId q = Some a \<longleftrightarrow> byId (uq_id q) = Some a \<and> admissible q a"
proof (cases "byId (uq_id q)")
  case (Some b)
  then have b: "ua_id b = uq_id q" "truthyText (ua_custom b) \<longleftrightarrow> ua_custom b \<noteq> None" using assms by auto
  then have "\<lparr>ua_id = uq_id q, ua_selected = ua_selected b,
      ua_custom = (if truthyText (ua_custom b) then ua_custom b else None)\<rparr> = b"
    by (cases b) auto
  moreover have "length xs = 1" if "\<not> 1 < length xs" "xs \<noteq> []" for xs :: "string list"
    using that by (cases xs) auto
  ultimately show ?thesis using Some b(2)
    by (cases "uq_multiSelect q") (auto simp: matchAnswerItem_def admissible_def list_ex_iff subset_iff)
qed (simp add: matchAnswerItem_def)

lemma answersById_range: "answersById as i = Some b \<Longrightarrow> b \<in> set as \<and> ua_id b = i"
  by (auto simp: answersById_def dest!: map_of_SomeD)

lemma answersById_get: "distinct (map ua_id as) \<Longrightarrow> a \<in> set as \<Longrightarrow> answersById as (ua_id a) = Some a"
  by (simp add: answersById_def map_of_eq_Some_iff rev_map [symmetric] o_def image_iff)

lemma matched_permutation:
  assumes "distinct (map uq_id qs)" "length as = length qs" "distinct (map ua_id as)"
    "list_all2 (\<lambda>q a. answersById as (uq_id q) = Some a \<and> admissible q a) qs answers"
  shows "map ua_id answers = map uq_id qs \<and> mset answers = mset as"
proof -
  note range = answersById_range [of as]
  have ids: "map ua_id answers = map uq_id qs"
    using assms(4) range by (induction rule: list_all2_induct) auto
  have sub: "set answers \<subseteq> set as" using assms(4) range by (induction rule: list_all2_induct) auto
  have d: "distinct answers" "distinct as" using ids assms(1,3) by (metis distinct_map)+
  then have "card (set answers) = card (set as)"
    using assms(2,4) by (simp add: distinct_card list_all2_lengthD)
  then have "set answers = set as" using sub by (simp add: card_subset_eq)
  then show ?thesis using d ids by (simp add: set_eq_iff_mset_eq_distinct)
qed

lemma permutation_matched:
  assumes "mset answers = mset as" "map ua_id answers = map uq_id qs" "distinct (map uq_id qs)"
    "list_all2 admissible qs answers"
  shows "distinct (map ua_id as) \<and> length as = length qs \<and>
    list_all2 (\<lambda>q a. answersById as (uq_id q) = Some a \<and> admissible q a) qs answers"
proof -
  have d: "distinct (map ua_id as)" using assms(1-3) by (metis mset_eq_imp_distinct_iff mset_map)
  have "answersById as (uq_id (qs ! n)) = Some (answers ! n)" if "n < length qs" for n
  proof -
    have "n < length answers" using that assms(2) by (metis length_map)
    then have "answers ! n \<in> set as" "ua_id (answers ! n) = uq_id (qs ! n)"
      using assms(1,2) that by (metis nth_mem set_mset_mset, metis nth_map)
    then show ?thesis using answersById_get [OF d] by metis
  qed
  moreover have "length as = length qs" using assms(1,2) by (metis length_map size_mset)
  ultimately show ?thesis using d assms(4) by (auto simp: list_all2_conv_all_nth)
qed

lemma answered_from:
  assumes "distinct (map ua_id as)"
  shows "list_all2 (\<lambda>q a. answersById as (uq_id q) = Some a \<and> admissible q a) qs answers \<longleftrightarrow>
    map ua_id answers = map uq_id qs \<and> set answers \<subseteq> set as \<and> list_all2 admissible qs answers"
proof (induction qs arbitrary: answers)
  case (Cons q qs)
  have "answersById as (uq_id q) = Some a \<longleftrightarrow> ua_id a = uq_id q \<and> a \<in> set as" for a
    using answersById_range [of as "uq_id q" a] answersById_get [OF assms, of a] by auto
  then show ?case by (cases answers) (auto simp: Cons.IH)
qed auto

section \<open>Properties\<close>

text \<open>
  (C29) A submission matches its questions exactly when it names the question batch, has as many
  answers as there are questions, no two of them for one id, and for every question an answer of
  its id with distinct labels of that question and, for a single choice, at most one label and no
  label together with a custom text.  The result then has one answer per question, in question
  order, each of them a submitted one, unaltered.  Where the ids of the questions differ, which the
  code does not check, this says that every question is answered exactly once: the result is a
  permutation of the submitted answers, and nothing is added or dropped.
\<close>

theorem answers_match_exactly:
  assumes "parseUserQuestionAnswerSubmission submission = Some parsed"
  shows "(matchUserQuestionAnswer request submission = Some answers \<longleftrightarrow>
      us_questionId parsed = ur_questionId request \<and>
      length (us_answers parsed) = length (ur_questions request) \<and> distinct (map ua_id (us_answers parsed)) \<and>
      map ua_id answers = map uq_id (ur_questions request) \<and> set answers \<subseteq> set (us_answers parsed) \<and>
      list_all2 admissible (ur_questions request) answers) \<and>
    (distinct (map uq_id (ur_questions request)) \<longrightarrow>
      (matchUserQuestionAnswer request submission = Some answers \<longleftrightarrow>
        us_questionId parsed = ur_questionId request \<and> map ua_id answers = map uq_id (ur_questions request) \<and>
        mset answers = mset (us_answers parsed) \<and> list_all2 admissible (ur_questions request) answers))"
    (is "(?match \<longleftrightarrow> ?spec) \<and> _")
proof -
  define as qs where "as = us_answers parsed" and "qs = ur_questions request"
  have item: "matchAnswerItem (answersById as) q = Some a \<longleftrightarrow> answersById as (uq_id q) = Some a \<and> admissible q a" for q a
    by (rule matchAnswerItem_iff) (use answersById_range parsed_answers [OF assms(1)] as_def in blast)
  have dup: "length (remdups (map ua_id as)) = length as \<longleftrightarrow> distinct (map ua_id as)"
    using length_remdups_eq [of "map ua_id as"] by simp
  have m: "?match \<longleftrightarrow> us_questionId parsed = ur_questionId request \<and> length as = length qs \<and> distinct (map ua_id as) \<and>
      list_all2 (\<lambda>q a. answersById as (uq_id q) = Some a \<and> admissible q a) qs answers"
    unfolding matchUserQuestionAnswer_def assms(1) option.case Let_def as_def [symmetric] qs_def [symmetric]
    using dup by (auto simp: zArray_iff item)
  then have "?match \<longleftrightarrow> ?spec"
    using answered_from [of as qs answers] by (auto simp: as_def qs_def)
  moreover have "list_all2 admissible qs answers"
    if "list_all2 (\<lambda>q a. answersById as (uq_id q) = Some a \<and> admissible q a) qs answers"
    using that by (rule list_all2_mono) simp
  ultimately show ?thesis
    using m matched_permutation [of qs as answers] permutation_matched [of answers as qs]
    by (fold as_def qs_def) blast
qed

definition sampleQuestions :: UserQuestionRequest where
  "sampleQuestions = \<lparr>ur_questionId = ''Q'', ur_questions =
     [\<lparr>uq_id = ''a'', uq_question = ''Which?'', uq_detail = None, uq_header = None,
       uq_options = Some [\<lparr>uo_label = ''x'', uo_description = None\<rparr>, \<lparr>uo_label = ''y'', uo_description = None\<rparr>],
       uq_multiSelect = None, uq_intentApprove = None\<rparr>,
      \<lparr>uq_id = ''b'', uq_question = ''Why?'', uq_detail = None, uq_header = None, uq_options = None,
       uq_multiSelect = None, uq_intentApprove = None\<rparr>],
     ur_nativeSessionId = None, ur_callId = None, ur_durable = None, ur_progress = None\<rparr>"

definition sampleSubmission :: UserQuestionAnswerSubmission where
  "sampleSubmission = \<lparr>us_questionId = ''Q'', us_answers =
     [\<lparr>ua_id = ''b'', ua_selected = [], ua_custom = Some ''because''\<rparr>,
      \<lparr>ua_id = ''a'', ua_selected = [''y''], ua_custom = None\<rparr>]\<rparr>"

lemma sample_parsed: "parseUserQuestionAnswerSubmission sampleSubmission = Some sampleSubmission"
  by (simp add: parseUserQuestionAnswerSubmission_def sampleSubmission_def parseQuestionId_def nativeUserQuestionId_def
    parseUserQuestionAnswerItem_def zTrim_def zOptional_def trim_def isWhite_def lenIn_def)

theorem answers_match_exactly_witness:
  "matchUserQuestionAnswer sampleQuestions sampleSubmission = Some (rev (us_answers sampleSubmission)) \<and>
     mset (rev (us_answers sampleSubmission)) = mset (us_answers sampleSubmission)"
proof -
  from answers_match_exactly [OF sample_parsed, of sampleQuestions "rev (us_answers sampleSubmission)"] show ?thesis
    by (simp add: sampleQuestions_def sampleSubmission_def admissible_def questionLabels_def)
qed

text \<open>
  The comment above \<open>matchUserQuestionAnswer\<close> promises that each question is answered exactly once.
  With two questions of one id the code takes one answer for both of them, and accepts a second
  answer that belongs to no question, dropping its text.
\<close>

definition repeatedQuestions :: UserQuestionRequest where
  "repeatedQuestions = sampleQuestions\<lparr>ur_questions :=
     [(ur_questions sampleQuestions ! 0), (ur_questions sampleQuestions ! 0)]\<rparr>"

lemma repeated_ids_drop_an_answer:
  "parseUserQuestionRequest P repeatedQuestions \<noteq> None \<and>
   matchUserQuestionAnswer repeatedQuestions sampleSubmission =
     Some [us_answers sampleSubmission ! 1, us_answers sampleSubmission ! 1] \<and>
   ua_id (us_answers sampleSubmission ! 0) \<notin> set (map uq_id (ur_questions repeatedQuestions))"
proof -
  have "matchUserQuestionAnswer repeatedQuestions sampleSubmission =
     Some [us_answers sampleSubmission ! 1, us_answers sampleSubmission ! 1]"
    by (simp add: matchUserQuestionAnswer_def sample_parsed)
      (simp add: repeatedQuestions_def sampleQuestions_def sampleSubmission_def
        matchAnswerItem_def answersById_def questionLabels_def truthyText_def orElse_def)
  moreover have "parseUserQuestionRequest P repeatedQuestions \<noteq> None"
    by (simp add: repeatedQuestions_def sampleQuestions_def parseUserQuestionRequest_def parseQuestionId_def
      nativeUserQuestionId_def parseUserQuestionItem_def parseUserQuestionOption_def zTrim_def zOptional_def
      trim_def isWhite_def lenIn_def optAll_def orElse_def)
  ultimately show ?thesis by (simp add: repeatedQuestions_def sampleQuestions_def sampleSubmission_def)
qed

end
