(* ===== verification/Interactions.thy ===== *)
theory Interactions
  imports UserQuestions IsoTime
begin

text \<open>
  packages/contracts/src/runtime-v2/interactions.ts: what a task asks of a person (a question, a
  plan review, feedback on a version, the approval of an action), the responses, and the checks
  that correlate them; the inputs a person types into a running task and their receipts.  A
  \<open>parse\<close> function is \<open>safeParse\<close> on a value of the declared shape.  The literal fields
  (\<open>contractVersion\<close>, \<open>direction\<close>, \<open>kind\<close>) are the constructors.
\<close>

section \<open>Times\<close>

text \<open>Comparisons of \<open>Date.parse\<close> results: false when a side is NaN.\<close>

definition timeLe :: "string \<Rightarrow> string \<Rightarrow> bool" where
  "timeLe a b = (case dateParse a of None \<Rightarrow> False | Some x \<Rightarrow> (case dateParse b of None \<Rightarrow> False | Some y \<Rightarrow> x \<le> y))"

definition timeLess :: "string \<Rightarrow> string \<Rightarrow> bool" where
  "timeLess a b = (case dateParse a of None \<Rightarrow> False | Some x \<Rightarrow> (case dateParse b of None \<Rightarrow> False | Some y \<Rightarrow> x < y))"

section \<open>Requests\<close>

record RuntimeTurnRef =
  tu_turnId :: string
  tu_generation :: int

definition parseRuntimeTurnRef :: "RuntimeTurnRef \<Rightarrow> RuntimeTurnRef option" where
  "parseRuntimeTurnRef t = do {
     i \<leftarrow> zTrim 1 255 (tu_turnId t);
     (if zNonneg (tu_generation t) then Some (t\<lparr>tu_turnId := i\<rparr>) else None) }"

definition turnJson :: "RuntimeTurnRef \<Rightarrow> jsval" where
  "turnJson t = JObj [(''turnId'', JStr (tu_turnId t)), (''generation'', JNum (tu_generation t))]"

datatype RequestBody =
    AskUserRequest RuntimeTurnRef UserQuestionRequest
  | PlanReviewRequest RuntimeContentRef string
  | VersionFeedbackRequest RuntimeContentRef string
  | ActionApprovalRequest string RuntimeActionBinding

record RuntimeInteractionRequest =
  iq_requestId :: string
  iq_version :: int
  iq_requestDigest :: string
  iq_task :: RuntimeTaskRef
  iq_respondentId :: string
  iq_createdAt :: string
  iq_expiresAt :: string
  iq_body :: RequestBody

definition requestFieldsOk :: "platform \<Rightarrow> RuntimeInteractionRequest \<Rightarrow> bool" where
  "requestFieldsOk P r \<longleftrightarrow> zUuid P (iq_requestId r) \<and> zPositive (iq_version r) \<and> checksumOk (iq_requestDigest r) \<and>
     validRuntimeTaskRef P (iq_task r) \<and> zUuid P (iq_respondentId r) \<and> zDatetime P (iq_createdAt r) \<and>
     zDatetime P (iq_expiresAt r)"

definition checkRequestLifetime :: "RuntimeInteractionRequest \<Rightarrow> bool" where
  "checkRequestLifetime r \<longleftrightarrow> \<not> timeLe (iq_expiresAt r) (iq_createdAt r)"

definition distinctQuestions :: "UserQuestionRequest \<Rightarrow> bool" where
  "distinctQuestions q \<longleftrightarrow> distinct (map uq_id (ur_questions q)) \<and>
     list_all (\<lambda>item. distinct (questionLabels item)) (ur_questions q)"

fun parseRequestBody :: "platform \<Rightarrow> RuntimeTaskRef \<Rightarrow> RequestBody \<Rightarrow> RequestBody option" where
  "parseRequestBody P task (AskUserRequest turn question) = do {
     t \<leftarrow> parseRuntimeTurnRef turn;
     q \<leftarrow> parseUserQuestionRequest P question;
     (if distinctQuestions q then Some (AskUserRequest t q) else None) }"
| "parseRequestBody P task (PlanReviewRequest content prompt) =
     (if validRuntimeContentRef P content then map_option (PlanReviewRequest content) (zTrim 1 4000 prompt) else None)"
| "parseRequestBody P task (VersionFeedbackRequest content prompt) =
     (if validRuntimeContentRef P content then map_option (VersionFeedbackRequest content) (zTrim 1 4000 prompt)
      else None)"
| "parseRequestBody P task (ActionApprovalRequest approvalId binding) =
     (if zUuid P approvalId then (case parseRuntimeActionBinding P binding of
         Inl _ \<Rightarrow> None
       | Inr b \<Rightarrow> if runtimeContractEqual P (taskJson task) (taskJson (ab_task b))
           then Some (ActionApprovalRequest approvalId b) else None)
      else None)"

definition parseRuntimeInteractionRequest ::
  "platform \<Rightarrow> RuntimeInteractionRequest \<Rightarrow> RuntimeInteractionRequest option" where
  "parseRuntimeInteractionRequest P r =
     (if \<not> requestFieldsOk P r \<or> \<not> checkRequestLifetime r then None
      else map_option (\<lambda>b. r\<lparr>iq_body := b\<rparr>) (parseRequestBody P (iq_task r) (iq_body r)))"

section \<open>Responses\<close>

datatype PlanDecision = Plan_accepted | Plan_revision_requested
datatype ApprovalDecision = Approval_approved | Approval_rejected

datatype ResponseBody =
    AskUserResponse RuntimeTurnRef UserQuestionAnswerSubmission
  | PlanReviewResponse RuntimeContentRef PlanDecision "string option"
  | VersionFeedbackResponse RuntimeContentRef string
  | ActionApprovalResponse string ApprovalDecision

record RuntimeInteractionResponse =
  ir_requestId :: string
  ir_version :: int
  ir_requestDigest :: string
  ir_task :: RuntimeTaskRef
  ir_responseId :: string
  ir_respondedBy :: string
  ir_respondedAt :: string
  ir_body :: ResponseBody

definition responseFieldsOk :: "platform \<Rightarrow> RuntimeInteractionResponse \<Rightarrow> bool" where
  "responseFieldsOk P r \<longleftrightarrow> zUuid P (ir_requestId r) \<and> zPositive (ir_version r) \<and> checksumOk (ir_requestDigest r) \<and>
     validRuntimeTaskRef P (ir_task r) \<and> zUuid P (ir_responseId r) \<and> zUuid P (ir_respondedBy r) \<and>
     zDatetime P (ir_respondedAt r)"

fun parseResponseBody :: "platform \<Rightarrow> ResponseBody \<Rightarrow> ResponseBody option" where
  "parseResponseBody P (AskUserResponse turn answer) = do {
     t \<leftarrow> parseRuntimeTurnRef turn;
     a \<leftarrow> parseUserQuestionAnswerSubmission answer;
     Some (AskUserResponse t a) }"
| "parseResponseBody P (PlanReviewResponse content decision feedback) =
     (if validRuntimeContentRef P content then do {
        f \<leftarrow> zOptional (zTrim 1 20000) feedback;
        (if decision = Plan_revision_requested \<and> f = None then None else Some (PlanReviewResponse content decision f)) }
      else None)"
| "parseResponseBody P (VersionFeedbackResponse content feedback) =
     (if validRuntimeContentRef P content then map_option (VersionFeedbackResponse content) (zTrim 1 20000 feedback)
      else None)"
| "parseResponseBody P (ActionApprovalResponse approvalId decision) =
     (if zUuid P approvalId then Some (ActionApprovalResponse approvalId decision) else None)"

definition parseRuntimeInteractionResponse ::
  "platform \<Rightarrow> RuntimeInteractionResponse \<Rightarrow> RuntimeInteractionResponse option" where
  "parseRuntimeInteractionResponse P r =
     (if \<not> responseFieldsOk P r then None else map_option (\<lambda>b. r\<lparr>ir_body := b\<rparr>) (parseResponseBody P (ir_body r)))"

section \<open>Matching a response\<close>

record RuntimeInteractionMatchContext =
  mc_trustedScope :: RuntimeScope
  mc_task :: RuntimeTaskRef
  mc_respondentId :: string
  mc_activeTurn :: "RuntimeTurnRef option"
  mc_now :: string

definition parseInteractionMatchContext ::
  "platform \<Rightarrow> RuntimeInteractionMatchContext \<Rightarrow> RuntimeInteractionMatchContext option" where
  "parseInteractionMatchContext P c =
     (if validRuntimeScope P (mc_trustedScope c) \<and> validRuntimeTaskRef P (mc_task c) \<and> zUuid P (mc_respondentId c) \<and>
         zDatetime P (mc_now c)
      then map_option (\<lambda>t. c\<lparr>mc_activeTurn := t\<rparr>) (zOptional parseRuntimeTurnRef (mc_activeTurn c))
      else None)"

text \<open>\<open>matchesQuestionAnswer\<close>\<close>

definition matchesQuestionAnswer :: "UserQuestionRequest \<Rightarrow> UserQuestionAnswerSubmission \<Rightarrow> bool" where
  "matchesQuestionAnswer question answer \<longleftrightarrow> matchUserQuestionAnswer question answer \<noteq> None"

fun sameKind :: "RequestBody \<Rightarrow> ResponseBody \<Rightarrow> bool" where
  "sameKind (AskUserRequest _ _) (AskUserResponse _ _) = True"
| "sameKind (PlanReviewRequest _ _) (PlanReviewResponse _ _ _) = True"
| "sameKind (VersionFeedbackRequest _ _) (VersionFeedbackResponse _ _) = True"
| "sameKind (ActionApprovalRequest _ _) (ActionApprovalResponse _ _) = True"
| "sameKind _ _ = False"

fun matchesBody :: "platform \<Rightarrow> RuntimeTurnRef option \<Rightarrow> RequestBody \<Rightarrow> ResponseBody \<Rightarrow> bool" where
  "matchesBody P activeTurn (AskUserRequest turn question) (AskUserResponse turn' answer) =
     (case activeTurn of None \<Rightarrow> False | Some active \<Rightarrow>
        runtimeContractEqual P (turnJson turn) (turnJson active) \<and>
        runtimeContractEqual P (turnJson turn') (turnJson turn) \<and> matchesQuestionAnswer question answer)"
| "matchesBody P activeTurn (ActionApprovalRequest approvalId _) (ActionApprovalResponse approvalId' _) =
     (approvalId = approvalId')"
| "matchesBody P activeTurn (PlanReviewRequest content _) (PlanReviewResponse content' _ _) =
     runtimeContractEqual P (contentJson content) (contentJson content')"
| "matchesBody P activeTurn (VersionFeedbackRequest content _) (VersionFeedbackResponse content' _) =
     runtimeContractEqual P (contentJson content) (contentJson content')"
| "matchesBody P activeTurn _ _ = False"

definition matchesRuntimeInteractionResponse ::
  "platform \<Rightarrow> RuntimeInteractionRequest \<Rightarrow> RuntimeInteractionResponse \<Rightarrow> RuntimeInteractionMatchContext \<Rightarrow> bool result"
where
  "matchesRuntimeInteractionResponse P requestInput responseInput contextInput =
     (case (parseRuntimeInteractionRequest P requestInput, parseRuntimeInteractionResponse P responseInput,
            parseInteractionMatchContext P contextInput) of
        (Some request, Some response, Some context) \<Rightarrow>
          andThen (matchesRuntimeScope P (tk_scope (iq_task request)) (mc_trustedScope context)) (\<lambda>a.
          if \<not> a then Inr False
          else andThen (matchesRuntimeScope P (tk_scope (mc_task context)) (mc_trustedScope context)) (\<lambda>b.
          if \<not> b then Inr False
          else if \<not> runtimeContractEqual P (taskJson (iq_task request)) (taskJson (mc_task context)) \<or>
             \<not> runtimeContractEqual P (taskJson (ir_task response)) (taskJson (iq_task request)) \<or>
             \<not> sameKind (iq_body request) (ir_body response) \<or>
             iq_requestId request \<noteq> ir_requestId response \<or> iq_version request \<noteq> ir_version response \<or>
             iq_requestDigest request \<noteq> ir_requestDigest response \<or>
             iq_respondentId request \<noteq> mc_respondentId context \<or> ir_respondedBy response \<noteq> mc_respondentId context \<or>
             timeLess (mc_now context) (iq_createdAt request) \<or> timeLe (iq_expiresAt request) (mc_now context) \<or>
             timeLess (ir_respondedAt response) (iq_createdAt request) \<or>
             timeLess (mc_now context) (ir_respondedAt response)
          then Inr False
          else Inr (matchesBody P (mc_activeTurn context) (iq_body request) (ir_body response))))
      | _ \<Rightarrow> Inr False)"

section \<open>Action approvals\<close>

record RuntimeActionApprovalSnapshot =
  sn_request :: RuntimeInteractionRequest
  sn_response :: "RuntimeInteractionResponse option"
  sn_consumedAt :: "string option"
  sn_revokedAt :: "string option"

definition isApprovalRequest :: "RuntimeInteractionRequest \<Rightarrow> bool" where
  "isApprovalRequest r = (case iq_body r of ActionApprovalRequest _ _ \<Rightarrow> True | _ \<Rightarrow> False)"

definition isApprovalResponse :: "RuntimeInteractionResponse \<Rightarrow> bool" where
  "isApprovalResponse r = (case ir_body r of ActionApprovalResponse _ _ \<Rightarrow> True | _ \<Rightarrow> False)"

definition parseRuntimeActionApprovalSnapshot ::
  "platform \<Rightarrow> RuntimeActionApprovalSnapshot \<Rightarrow> RuntimeActionApprovalSnapshot option" where
  "parseRuntimeActionApprovalSnapshot P s =
     (if isApprovalRequest (sn_request s) \<and> optAll isApprovalResponse (sn_response s) \<and>
         optAll (zDatetime P) (sn_consumedAt s) \<and> optAll (zDatetime P) (sn_revokedAt s)
      then do {
        q \<leftarrow> parseRuntimeInteractionRequest P (sn_request s);
        r \<leftarrow> zOptional (parseRuntimeInteractionResponse P) (sn_response s);
        Some (s\<lparr>sn_request := q, sn_response := r\<rparr>) }
      else None)"

fun requestBinding :: "RequestBody \<Rightarrow> RuntimeActionBinding option" where
  "requestBinding (ActionApprovalRequest _ binding) = Some binding"
| "requestBinding _ = None"

fun approved :: "ResponseBody \<Rightarrow> bool" where
  "approved (ActionApprovalResponse _ Approval_approved) = True"
| "approved _ = False"

definition matchesRuntimeActionApproval ::
  "platform \<Rightarrow> RuntimeActionApprovalSnapshot \<Rightarrow> RuntimeInteractionMatchContext \<Rightarrow> RuntimeActionBinding \<Rightarrow> bool result"
where
  "matchesRuntimeActionApproval P snapshotInput contextInput bindingInput =
     (case (parseRuntimeActionApprovalSnapshot P snapshotInput, parseInteractionMatchContext P contextInput,
            parseRuntimeActionBinding P bindingInput) of
        (Some snapshot, Some context, Inr binding) \<Rightarrow>
          (case (sn_response snapshot, requestBinding (iq_body (sn_request snapshot))) of
             (Some response, Some requested) \<Rightarrow>
               if \<not> approved (ir_body response) \<or> sn_consumedAt snapshot \<noteq> None \<or> sn_revokedAt snapshot \<noteq> None \<or>
                  \<not> runtimeContractEqual P (bindingJson requested) (bindingJson binding)
               then Inr False
               else matchesRuntimeInteractionResponse P (sn_request snapshot) response context
           | _ \<Rightarrow> Inr False)
      | _ \<Rightarrow> Inr False)"

section \<open>Typed input\<close>

datatype TypedInputBody =
    SteerCurrent RuntimeTaskRef RuntimeTurnRef
  | QueueNext "string option"
  | InterruptAdjust RuntimeTaskRef RuntimeTurnRef

record RuntimeTypedInput =
  ti_inputId :: string
  ti_scope :: RuntimeScope
  ti_chatSessionId :: string
  ti_actorId :: string
  ti_text :: string
  ti_submittedAt :: string
  ti_body :: TypedInputBody

fun parseTypedInputBody :: "platform \<Rightarrow> TypedInputBody \<Rightarrow> TypedInputBody option" where
  "parseTypedInputBody P (SteerCurrent task turn) =
     (if validRuntimeTaskRef P task then map_option (SteerCurrent task) (parseRuntimeTurnRef turn) else None)"
| "parseTypedInputBody P (QueueNext afterRunId) =
     (if optAll (zUuid P) afterRunId then Some (QueueNext afterRunId) else None)"
| "parseTypedInputBody P (InterruptAdjust task turn) =
     (if validRuntimeTaskRef P task then map_option (InterruptAdjust task) (parseRuntimeTurnRef turn) else None)"

fun inputTask :: "TypedInputBody \<Rightarrow> (RuntimeTaskRef \<times> RuntimeTurnRef) option" where
  "inputTask (SteerCurrent task turn) = Some (task, turn)"
| "inputTask (InterruptAdjust task turn) = Some (task, turn)"
| "inputTask (QueueNext _) = None"

definition parseRuntimeTypedInput :: "platform \<Rightarrow> RuntimeTypedInput \<Rightarrow> RuntimeTypedInput option" where
  "parseRuntimeTypedInput P i =
     (if zUuid P (ti_inputId i) \<and> validRuntimeScope P (ti_scope i) \<and> zUuid P (ti_chatSessionId i) \<and>
         zUuid P (ti_actorId i) \<and> zDatetime P (ti_submittedAt i)
      then do {
        t \<leftarrow> zTrim 1 40000 (ti_text i);
        b \<leftarrow> parseTypedInputBody P (ti_body i);
        (case inputTask b of
           None \<Rightarrow> Some (i\<lparr>ti_text := t, ti_body := b\<rparr>)
         | Some (task, _) \<Rightarrow>
             if matchesRuntimeScope P (ti_scope i) (tk_scope task) = Inr True \<and>
                tk_chatSessionId task = Some (ti_chatSessionId i)
             then Some (i\<lparr>ti_text := t, ti_body := b\<rparr>) else None) }
      else None)"

record RuntimeTypedInputMatchContext =
  tc_trustedScope :: RuntimeScope
  tc_chatSessionId :: string
  tc_actorId :: string
  tc_activeTask :: "RuntimeTaskRef option"
  tc_activeTurn :: "RuntimeTurnRef option"

definition parseTypedInputMatchContext ::
  "platform \<Rightarrow> RuntimeTypedInputMatchContext \<Rightarrow> RuntimeTypedInputMatchContext option" where
  "parseTypedInputMatchContext P c =
     (if validRuntimeScope P (tc_trustedScope c) \<and> zUuid P (tc_chatSessionId c) \<and> zUuid P (tc_actorId c) \<and>
         optAll (validRuntimeTaskRef P) (tc_activeTask c)
      then map_option (\<lambda>t. c\<lparr>tc_activeTurn := t\<rparr>) (zOptional parseRuntimeTurnRef (tc_activeTurn c))
      else None)"

definition matchesRuntimeTypedInput ::
  "platform \<Rightarrow> RuntimeTypedInput \<Rightarrow> RuntimeTypedInputMatchContext \<Rightarrow> bool result" where
  "matchesRuntimeTypedInput P inputValue contextInput =
     (case (parseRuntimeTypedInput P inputValue, parseTypedInputMatchContext P contextInput) of
        (Some input, Some context) \<Rightarrow>
          andThen (matchesRuntimeScope P (ti_scope input) (tc_trustedScope context)) (\<lambda>a.
          if \<not> a \<or> ti_chatSessionId input \<noteq> tc_chatSessionId context \<or> ti_actorId input \<noteq> tc_actorId context
          then Inr False
          else andThen (case tc_activeTask context of
              None \<Rightarrow> Inr True
            | Some task \<Rightarrow> andThen (matchesRuntimeScope P (tk_scope task) (tc_trustedScope context)) (\<lambda>b.
                Inr (b \<and> tk_chatSessionId task = Some (tc_chatSessionId context)))) (\<lambda>b.
            if \<not> b then Inr False
            else Inr (case ti_body input of
                QueueNext afterRunId \<Rightarrow>
                  afterRunId = None \<or> afterRunId = map_option tk_runId (tc_activeTask context)
              | _ \<Rightarrow> (case (inputTask (ti_body input), tc_activeTask context, tc_activeTurn context) of
                  (Some (task, turn), Some activeTask, Some activeTurn) \<Rightarrow>
                    runtimeContractEqual P (taskJson task) (taskJson activeTask) \<and>
                    runtimeContractEqual P (turnJson turn) (turnJson activeTurn)
                | _ \<Rightarrow> False))))
      | _ \<Rightarrow> Inr False)"

section \<open>Receipts\<close>

datatype RuntimeTypedInputKind = Kind_steer_current | Kind_queue_next | Kind_interrupt_adjust

datatype PendingReason = Waiting_runtime | Waiting_interrupt

datatype ReceiptStatus =
    Receipt_received
  | Receipt_queued int
  | Receipt_pending PendingReason
  | Receipt_adopted RuntimeTaskRef RuntimeTurnRef RuntimeEvidenceRef
  | Receipt_rejected string

record RuntimeInputReceipt =
  rc_inputId :: string
  rc_inputKind :: RuntimeTypedInputKind
  rc_inputDigest :: string
  rc_scope :: RuntimeScope
  rc_chatSessionId :: string
  rc_recordedAt :: string
  rc_status :: ReceiptStatus

fun receiptStatusOk :: "platform \<Rightarrow> RuntimeInputReceipt \<Rightarrow> ReceiptStatus \<Rightarrow> bool" where
  "receiptStatusOk P r Receipt_received = True"
| "receiptStatusOk P r (Receipt_queued position) = (rc_inputKind r = Kind_queue_next \<and> zNonneg position)"
| "receiptStatusOk P r (Receipt_pending reason) =
     (reason = Waiting_interrupt \<longrightarrow> rc_inputKind r = Kind_interrupt_adjust)"
| "receiptStatusOk P r (Receipt_adopted appliedTo turn evidence) =
     (validRuntimeTaskRef P appliedTo \<and> parseRuntimeTurnRef turn \<noteq> None \<and> validRuntimeEvidenceRef P evidence \<and>
      matchesRuntimeScope P (rc_scope r) (tk_scope appliedTo) = Inr True \<and>
      tk_chatSessionId appliedTo = Some (rc_chatSessionId r) \<and>
      \<not> timeLess (rc_recordedAt r) (ev_recordedAt evidence))"
| "receiptStatusOk P r (Receipt_rejected reason) = lenIn 1 160 (trim reason)"

definition validRuntimeInputReceipt :: "platform \<Rightarrow> RuntimeInputReceipt \<Rightarrow> bool" where
  "validRuntimeInputReceipt P r \<longleftrightarrow> zUuid P (rc_inputId r) \<and> checksumOk (rc_inputDigest r) \<and>
     validRuntimeScope P (rc_scope r) \<and> zUuid P (rc_chatSessionId r) \<and> zDatetime P (rc_recordedAt r) \<and>
     receiptStatusOk P r (rc_status r)"

datatype ProofCheckpoint = Question_resolved | Question_replied | Step_user_message

datatype RuntimeNativeInputProof =
    Proof_pending string string
  | Proof_unknown string string
  | Proof_adopted string string int string "string option" ProofCheckpoint "string option"

definition proofMessageId :: "string \<Rightarrow> bool" where
  "proofMessageId m \<longleftrightarrow> nativeUserQuestionId m \<or> lenIn 1 255 m"

fun validRuntimeNativeInputProof :: "platform \<Rightarrow> RuntimeNativeInputProof \<Rightarrow> bool" where
  "validRuntimeNativeInputProof P (Proof_pending inputId messageId) = (zUuid P inputId \<and> proofMessageId messageId)"
| "validRuntimeNativeInputProof P (Proof_unknown inputId messageId) = (zUuid P inputId \<and> proofMessageId messageId)"
| "validRuntimeNativeInputProof P (Proof_adopted inputId messageId sequence turnId runId checkpoint callId) =
     (zUuid P inputId \<and> proofMessageId messageId \<and> zNonneg sequence \<and> lenIn 1 255 turnId \<and>
      optAll (zUuid P) runId \<and> optAll (\<lambda>c. 1 \<le> length c) callId)"


section \<open>What parsing keeps\<close>

lemma faithful_turn: "faithful turnJson"
  by (auto simp: faithful_def turnJson_def)

lemmas turnEqual [simp] = faithful_contractEqual [OF faithful_turn]

lemma timeLe_iff [simp]:
  "dateParse a = Some x \<Longrightarrow> dateParse b = Some y \<Longrightarrow> timeLe a b \<longleftrightarrow> x \<le> y"
  "dateParse a = Some x \<Longrightarrow> dateParse b = Some y \<Longrightarrow> timeLess a b \<longleftrightarrow> x < y"
  by (simp_all add: timeLe_def timeLess_def)

lemma parse_request:
  assumes "parseRuntimeInteractionRequest P q = Some q'"
  shows "\<exists>b. q' = q\<lparr>iq_body := b\<rparr> \<and> parseRequestBody P (iq_task q) (iq_body q) = Some b \<and>
    validRuntimeTaskRef P (iq_task q) \<and> checkRequestLifetime q"
  using assms by (auto simp: parseRuntimeInteractionRequest_def requestFieldsOk_def split: if_split_asm)

lemma parse_response:
  assumes "parseRuntimeInteractionResponse P r = Some r'"
  shows "\<exists>b. r' = r\<lparr>ir_body := b\<rparr> \<and> parseResponseBody P (ir_body r) = Some b \<and> validRuntimeTaskRef P (ir_task r)"
  using assms by (auto simp: parseRuntimeInteractionResponse_def responseFieldsOk_def split: if_split_asm)

lemma parse_context:
  assumes "parseInteractionMatchContext P c = Some c'"
  shows "\<exists>t. c' = c\<lparr>mc_activeTurn := t\<rparr> \<and> zOptional parseRuntimeTurnRef (mc_activeTurn c) = Some t \<and>
    validRuntimeTaskRef P (mc_task c) \<and> validRuntimeScope P (mc_trustedScope c)"
  using assms by (auto simp: parseInteractionMatchContext_def split: if_split_asm)

lemma valid_task_scope: "validRuntimeTaskRef P t \<Longrightarrow> validRuntimeScope P (tk_scope t)"
  by (simp add: validRuntimeTaskRef_def)

lemma matchesScope_valid [simp]:
  "validRuntimeScope P a \<Longrightarrow> validRuntimeScope P b \<Longrightarrow> matchesRuntimeScope P a b = Inr (a = b)"
  by (simp add: matchesRuntimeScope_def)

text \<open>The exact condition of the correlation check, on parsed values.\<close>

definition correlates ::
  "platform \<Rightarrow> RuntimeInteractionRequest \<Rightarrow> RuntimeInteractionResponse \<Rightarrow> RuntimeInteractionMatchContext \<Rightarrow> bool" where
  "correlates P q r c \<longleftrightarrow> tk_scope (mc_task c) = mc_trustedScope c \<and> iq_task q = mc_task c \<and> ir_task r = mc_task c \<and>
     sameKind (iq_body q) (ir_body r) \<and> iq_requestId q = ir_requestId r \<and> iq_version q = ir_version r \<and>
     iq_requestDigest q = ir_requestDigest r \<and> iq_respondentId q = mc_respondentId c \<and>
     ir_respondedBy r = mc_respondentId c \<and> \<not> timeLess (mc_now c) (iq_createdAt q) \<and>
     \<not> timeLe (iq_expiresAt q) (mc_now c) \<and> \<not> timeLess (ir_respondedAt r) (iq_createdAt q) \<and>
     \<not> timeLess (mc_now c) (ir_respondedAt r) \<and> matchesBody P (mc_activeTurn c) (iq_body q) (ir_body r)"

lemma matches_response:
  "matchesRuntimeInteractionResponse P q r c = Inr (case (parseRuntimeInteractionRequest P q,
     parseRuntimeInteractionResponse P r, parseInteractionMatchContext P c) of
       (Some q', Some r', Some c') \<Rightarrow> correlates P q' r' c' | _ \<Rightarrow> False)"
proof (cases "parseRuntimeInteractionRequest P q = None \<or> parseRuntimeInteractionResponse P r = None \<or>
    parseInteractionMatchContext P c = None")
  case True
  then show ?thesis
    by (auto simp: matchesRuntimeInteractionResponse_def split: option.splits)
next
  case False
  then obtain q' r' c' where p: "parseRuntimeInteractionRequest P q = Some q'"
    "parseRuntimeInteractionResponse P r = Some r'" "parseInteractionMatchContext P c = Some c'" by auto
  then have "validRuntimeTaskRef P (iq_task q')" "validRuntimeTaskRef P (mc_task c')" "validRuntimeScope P (mc_trustedScope c')"
    using parse_request [OF p(1)] parse_context [OF p(3)] by auto
  then show ?thesis
    unfolding matchesRuntimeInteractionResponse_def p prod.case option.case correlates_def
    by (auto simp: valid_task_scope)
qed

lemma parseTurn_idem: "parseRuntimeTurnRef t = Some t' \<Longrightarrow> parseRuntimeTurnRef t' = Some t'"
  by (auto simp: parseRuntimeTurnRef_def zTrim_def split: bind_splits if_split_asm)

lemma parseContext_idem: "parseInteractionMatchContext P c = Some c' \<Longrightarrow> parseInteractionMatchContext P c' = Some c'"
  using parseTurn_idem
  by (cases "mc_activeTurn c") (auto simp: parseInteractionMatchContext_def zOptional_def split: if_split_asm)

lemma parseBinding_idem:
  assumes "parseRuntimeActionBinding P b = Inr b'"
  shows "parseRuntimeActionBinding P b' = Inr b' \<and> b' = b\<lparr>ab_action := trim (ab_action b)\<rparr>"
proof -
  from assms have b: "validRuntimeActionBinding P b" "b' = b\<lparr>ab_action := trim (ab_action b)\<rparr>"
    by (simp_all add: parseRuntimeActionBinding_def split: if_split_asm)
  have "validRuntimeActionBinding P (b\<lparr>ab_action := trim (ab_action b)\<rparr>)"
    using b(1) unfolding validRuntimeActionBinding_def by simp
  then show ?thesis unfolding b(2) parseRuntimeActionBinding_def by simp
qed

lemma parseApproval_idem:
  assumes "parseRuntimeInteractionRequest P q = Some q'" "iq_body q = ActionApprovalRequest i b"
  shows "parseRuntimeInteractionRequest P q' = Some q'"
proof -
  from assms have q: "requestFieldsOk P q" "checkRequestLifetime q"
    by (simp_all add: parseRuntimeInteractionRequest_def split: if_split_asm)
  obtain body where body: "q' = q\<lparr>iq_body := body\<rparr>" "parseRequestBody P (iq_task q) (ActionApprovalRequest i b) = Some body"
    using parse_request [OF assms(1)] assms(2) by auto
  then obtain b' where b': "parseRuntimeActionBinding P b = Inr b'" "body = ActionApprovalRequest i b'" "zUuid P i"
    "runtimeContractEqual P (taskJson (iq_task q)) (taskJson (ab_task b'))"
    by (simp split: if_split_asm sum.splits)
  have "parseRuntimeActionBinding P b' = Inr b'" using parseBinding_idem [OF b'(1)] by blast
  then have "parseRequestBody P (iq_task q) body = Some body" using b'(2-) by simp
  moreover have "requestFieldsOk P q'" "checkRequestLifetime q'"
    using q unfolding body(1) requestFieldsOk_def checkRequestLifetime_def by simp_all
  ultimately show ?thesis unfolding parseRuntimeInteractionRequest_def by (simp add: body(1))
qed

lemma parseApprovalResponse_same:
  assumes "parseRuntimeInteractionResponse P r = Some r'" "ir_body r = ActionApprovalResponse i d"
  shows "r' = r"
  using assms by (cases r) (auto simp: parseRuntimeInteractionResponse_def split: if_split_asm)


lemma parse_snapshot:
  assumes "parseRuntimeActionApprovalSnapshot P s = Some s'"
  obtains i b b' where "iq_body (sn_request s) = ActionApprovalRequest i b" "zUuid P i"
    "parseRuntimeActionBinding P b = Inr b'" "iq_task (sn_request s) = ab_task b'"
    "s' = s\<lparr>sn_request := (sn_request s)\<lparr>iq_body := ActionApprovalRequest i b'\<rparr>\<rparr>"
    "parseRuntimeInteractionRequest P (sn_request s') = Some (sn_request s')"
    "\<And>r. sn_response s = Some r \<Longrightarrow> parseRuntimeInteractionResponse P r = Some r \<and>
       (\<exists>j d. ir_body r = ActionApprovalResponse j d)"
proof -
  from assms obtain q' r' where s': "isApprovalRequest (sn_request s)" "optAll isApprovalResponse (sn_response s)"
    "parseRuntimeInteractionRequest P (sn_request s) = Some q'"
    "zOptional (parseRuntimeInteractionResponse P) (sn_response s) = Some r'"
    "s' = s\<lparr>sn_request := q', sn_response := r'\<rparr>"
    by (auto simp: parseRuntimeActionApprovalSnapshot_def split: if_split_asm bind_splits)
  from s'(1) obtain i b where body: "iq_body (sn_request s) = ActionApprovalRequest i b"
    by (auto simp: isApprovalRequest_def split: RequestBody.splits)
  then obtain b' where b': "q' = (sn_request s)\<lparr>iq_body := ActionApprovalRequest i b'\<rparr>" "zUuid P i"
    "parseRuntimeActionBinding P b = Inr b'" "iq_task (sn_request s) = ab_task b'"
    using parse_request [OF s'(3)] by (auto split: if_split_asm sum.splits)
  have resp: "parseRuntimeInteractionResponse P r = Some r \<and> r' = Some r \<and> (\<exists>j d. ir_body r = ActionApprovalResponse j d)"
    if some: "sn_response s = Some r" for r
  proof -
    obtain j d where "ir_body r = ActionApprovalResponse j d"
      using s'(2) some by (auto simp: isApprovalResponse_def split: ResponseBody.splits)
    then show ?thesis
      using s'(4) some parseApprovalResponse_same [of P r] by (auto simp: zOptional_iff)
  qed
  then have r': "r' = sn_response s" using s'(4) by (cases "sn_response s") (auto simp: zOptional_iff)
  then have "s' = s\<lparr>sn_request := q'\<rparr>" using s'(5) by simp
  then show ?thesis
    using that [OF body b'(2-4)] b'(1) resp parseApproval_idem [OF s'(3) body] by auto
qed

lemma matches_approval:
  "(matchesRuntimeActionApproval P s c b = Inr True \<longleftrightarrow>
     (\<exists>s' c' b' r. parseRuntimeActionApprovalSnapshot P s = Some s' \<and> parseInteractionMatchContext P c = Some c' \<and>
        parseRuntimeActionBinding P b = Inr b' \<and> sn_response s = Some r \<and> approved (ir_body r) \<and>
        sn_consumedAt s = None \<and> sn_revokedAt s = None \<and> requestBinding (iq_body (sn_request s')) = Some b' \<and>
        correlates P (sn_request s') r c')) \<and> (\<exists>x. matchesRuntimeActionApproval P s c b = Inr x)"
proof (cases "\<exists>s' c' b'. parseRuntimeActionApprovalSnapshot P s = Some s' \<and> parseInteractionMatchContext P c = Some c' \<and>
    parseRuntimeActionBinding P b = Inr b'")
  case False
  then show ?thesis
    by (auto simp: matchesRuntimeActionApproval_def split: option.splits sum.splits)
next
  case True
  then obtain s' c' b' where p: "parseRuntimeActionApprovalSnapshot P s = Some s'"
    "parseInteractionMatchContext P c = Some c'" "parseRuntimeActionBinding P b = Inr b'" by blast
  from p(1) obtain i u u' where u: "s' = s\<lparr>sn_request := (sn_request s)\<lparr>iq_body := ActionApprovalRequest i u'\<rparr>\<rparr>"
    and q: "parseRuntimeInteractionRequest P (sn_request s') = Some (sn_request s')"
    and r: "\<And>r. sn_response s = Some r \<Longrightarrow> parseRuntimeInteractionResponse P r = Some r"
    by (rule parse_snapshot) blast
  have f: "requestBinding (iq_body (sn_request s')) = Some u'" "sn_response s' = sn_response s"
    "sn_consumedAt s' = sn_consumedAt s" "sn_revokedAt s' = sn_revokedAt s" by (simp_all add: u)
  show ?thesis
  proof (cases "sn_response s")
    case (Some resp)
    then have "matchesRuntimeInteractionResponse P (sn_request s') resp c' = Inr (correlates P (sn_request s') resp c')"
      using matches_response [of P "sn_request s'" resp c'] q r parseContext_idem [OF p(2)] by simp
    then show ?thesis
      unfolding matchesRuntimeActionApproval_def p prod.case option.case sum.case f using Some p f by auto
  qed (auto simp: matchesRuntimeActionApproval_def p f)
qed


lemma parse_typed:
  assumes "parseRuntimeTypedInput P i = Some i'"
  shows "validRuntimeScope P (ti_scope i') \<and> ti_scope i' = ti_scope i \<and> ti_chatSessionId i' = ti_chatSessionId i \<and>
    ti_actorId i' = ti_actorId i \<and> parseTypedInputBody P (ti_body i) = Some (ti_body i')"
  using assms
  by (auto simp: parseRuntimeTypedInput_def split: if_split_asm bind_splits option.splits prod.splits)

lemma parse_typed_context:
  assumes "parseTypedInputMatchContext P c = Some c'"
  shows "validRuntimeScope P (tc_trustedScope c') \<and> optAll (validRuntimeTaskRef P) (tc_activeTask c') \<and>
    (\<exists>t. c' = c\<lparr>tc_activeTurn := t\<rparr> \<and> zOptional parseRuntimeTurnRef (tc_activeTurn c) = Some t)"
  using assms by (auto simp: parseTypedInputMatchContext_def split: if_split_asm)

definition typedCorrelates :: "RuntimeTypedInput \<Rightarrow> RuntimeTypedInputMatchContext \<Rightarrow> bool" where
  "typedCorrelates i c \<longleftrightarrow> ti_scope i = tc_trustedScope c \<and> ti_chatSessionId i = tc_chatSessionId c \<and>
     ti_actorId i = tc_actorId c \<and>
     optAll (\<lambda>t. tk_scope t = tc_trustedScope c \<and> tk_chatSessionId t = Some (tc_chatSessionId c)) (tc_activeTask c) \<and>
     (case ti_body i of
        QueueNext after \<Rightarrow> after = None \<or> after = map_option tk_runId (tc_activeTask c)
      | SteerCurrent task turn \<Rightarrow> tc_activeTask c = Some task \<and> tc_activeTurn c = Some turn
      | InterruptAdjust task turn \<Rightarrow> tc_activeTask c = Some task \<and> tc_activeTurn c = Some turn)"

lemma matches_typed:
  "matchesRuntimeTypedInput P i c = Inr (case (parseRuntimeTypedInput P i, parseTypedInputMatchContext P c) of
     (Some i', Some c') \<Rightarrow> typedCorrelates i' c' | _ \<Rightarrow> False)"
proof (cases "parseRuntimeTypedInput P i = None \<or> parseTypedInputMatchContext P c = None")
  case True
  then show ?thesis by (auto simp: matchesRuntimeTypedInput_def split: option.splits)
next
  case False
  then obtain i' c' where p: "parseRuntimeTypedInput P i = Some i'" "parseTypedInputMatchContext P c = Some c'" by auto
  have v: "validRuntimeScope P (ti_scope i')" "validRuntimeScope P (tc_trustedScope c')"
    "\<And>t. tc_activeTask c' = Some t \<Longrightarrow> validRuntimeScope P (tk_scope t)"
    using parse_typed [OF p(1)] parse_typed_context [OF p(2)] by (auto simp: valid_task_scope)
  show ?thesis
    unfolding matchesRuntimeTypedInput_def p prod.case option.case
    using v by (cases "tc_activeTask c'"; cases "tc_activeTurn c'"; cases "ti_body i'")
      (auto simp: typedCorrelates_def)
qed

section \<open>Properties\<close>

text \<open>
  (C13) An approval counts only for the exact action that was approved: when the check succeeds, the
  snapshot holds an approving response to this approval request, by the expected respondent and
  for the same request version and digest, neither consumed nor revoked; the requested binding is
  the binding at hand (up to white space around the action name), both belong to the task of the
  context, that task lies in the trusted scope, and the request has not expired.
\<close>

theorem approval_binds_exact_action:
  assumes "matchesRuntimeActionApproval P s c b = Inr True"
  shows "\<exists>i requested r. iq_body (sn_request s) = ActionApprovalRequest i requested \<and> sn_response s = Some r \<and>
    ir_body r = ActionApprovalResponse i Approval_approved \<and> sn_consumedAt s = None \<and> sn_revokedAt s = None \<and>
    requested\<lparr>ab_action := trim (ab_action requested)\<rparr> = b\<lparr>ab_action := trim (ab_action b)\<rparr> \<and>
    ab_task b = mc_task c \<and> iq_task (sn_request s) = mc_task c \<and> ir_task r = mc_task c \<and>
    tk_scope (mc_task c) = mc_trustedScope c \<and> ir_respondedBy r = mc_respondentId c \<and>
    iq_respondentId (sn_request s) = mc_respondentId c \<and> ir_requestId r = iq_requestId (sn_request s) \<and>
    ir_version r = iq_version (sn_request s) \<and> ir_requestDigest r = iq_requestDigest (sn_request s) \<and>
    \<not> timeLe (iq_expiresAt (sn_request s)) (mc_now c)"
proof -
  from assms matches_approval [of P s c b] obtain s' c' b' r where m:
    "parseRuntimeActionApprovalSnapshot P s = Some s'" "parseInteractionMatchContext P c = Some c'"
    "parseRuntimeActionBinding P b = Inr b'" "sn_response s = Some r" "approved (ir_body r)"
    "sn_consumedAt s = None" "sn_revokedAt s = None" "requestBinding (iq_body (sn_request s')) = Some b'"
    "correlates P (sn_request s') r c'" by blast
  from m(1) obtain i u u' where u: "iq_body (sn_request s) = ActionApprovalRequest i u"
    "parseRuntimeActionBinding P u = Inr u'" "iq_task (sn_request s) = ab_task u'"
    "s' = s\<lparr>sn_request := (sn_request s)\<lparr>iq_body := ActionApprovalRequest i u'\<rparr>\<rparr>"
    by (rule parse_snapshot) blast
  obtain t where t: "c' = c\<lparr>mc_activeTurn := t\<rparr>" using parse_context [OF m(2)] by blast
  from m(5) obtain j where j: "ir_body r = ActionApprovalResponse j Approval_approved"
    by (auto elim!: approved.elims(2))
  have same: "u' = b'" using m(8) u(4) by simp
  have trims: "u' = u\<lparr>ab_action := trim (ab_action u)\<rparr>" "b' = b\<lparr>ab_action := trim (ab_action b)\<rparr>"
    using parseBinding_idem [OF u(2)] parseBinding_idem [OF m(3)] by blast+
  have e: "u\<lparr>ab_action := trim (ab_action u)\<rparr> = b\<lparr>ab_action := trim (ab_action b)\<rparr>"
    using same unfolding trims .
  have "ab_task b' = ab_task b" unfolding trims(2) by simp
  then have k: "ab_task b = ab_task u'" using same by simp
  note q = m(9) [unfolded correlates_def t u(4)]
  then have "j = i" using j by simp
  then show ?thesis using u(1,3) m(4,6,7) j e k q by simp
qed

text \<open>
  The life of an approval in time: a snapshot that matches at some moment matches at another
  moment, everything else equal, exactly from the time of the response until before the expiry.
\<close>

theorem approval_valid_exactly_in_window:
  assumes "matchesRuntimeActionApproval P s c b = Inr True" "sn_response s = Some r" "zDatetime P now"
    "dateParse now = Some n" "dateParse (ir_respondedAt r) = Some answered"
    "dateParse (iq_createdAt (sn_request s)) = Some created" "dateParse (iq_expiresAt (sn_request s)) = Some expires"
  shows "matchesRuntimeActionApproval P s (c\<lparr>mc_now := now\<rparr>) b = Inr (answered \<le> n \<and> n < expires)"
proof -
  from assms(1,2) matches_approval [of P s c b] obtain s' c' b' where m:
    "parseRuntimeActionApprovalSnapshot P s = Some s'" "parseInteractionMatchContext P c = Some c'"
    "parseRuntimeActionBinding P b = Inr b'" "approved (ir_body r)"
    "sn_consumedAt s = None" "sn_revokedAt s = None" "requestBinding (iq_body (sn_request s')) = Some b'"
    "correlates P (sn_request s') r c'" by auto
  from m(1) obtain i u' where u: "s' = s\<lparr>sn_request := (sn_request s)\<lparr>iq_body := ActionApprovalRequest i u'\<rparr>\<rparr>"
    by (rule parse_snapshot) blast
  have c: "parseInteractionMatchContext P (c\<lparr>mc_now := now\<rparr>) = Some (c'\<lparr>mc_now := now\<rparr>)"
    using m(2) assms(3) by (auto simp: parseInteractionMatchContext_def split: if_split_asm)
  have "created \<le> answered" using m(8) assms(5,6) u by (simp add: correlates_def)
  then have "correlates P (sn_request s') r (c'\<lparr>mc_now := now\<rparr>) \<longleftrightarrow> answered \<le> n \<and> n < expires"
    using m(8) assms(4-7) u by (auto simp: correlates_def)
  then have "matchesRuntimeActionApproval P s (c\<lparr>mc_now := now\<rparr>) b = Inr True \<longleftrightarrow> answered \<le> n \<and> n < expires"
    using matches_approval [of P s "c\<lparr>mc_now := now\<rparr>" b] m assms(2) c by auto
  moreover obtain x where "matchesRuntimeActionApproval P s (c\<lparr>mc_now := now\<rparr>) b = Inr x"
    using matches_approval by blast
  ultimately show ?thesis by simp
qed


text \<open>
  The correlation checks never throw: on every request, response, snapshot, binding, typed
  input and context, well formed or not, each of the three returns true or false, because the
  scopes compared after parsing are valid.
\<close>

theorem interaction_checks_total:
  "(\<exists>x. matchesRuntimeInteractionResponse P q r c = Inr x) \<and> (\<exists>x. matchesRuntimeActionApproval P s c b = Inr x) \<and>
   (\<exists>x. matchesRuntimeTypedInput P i tc = Inr x)"
  using matches_response matches_approval matches_typed by blast

text \<open>
  Typed input reaches only the task it was typed for: admitted input is in the trusted scope,
  by the expected actor in the expected chat session; steering and interrupting input names
  exactly the active task and the active turn (with the turn id trimmed), and queued input that
  waits for a run waits for the active one.
\<close>

theorem typed_input_targets_active:
  assumes "matchesRuntimeTypedInput P i c = Inr True"
  shows "ti_scope i = tc_trustedScope c \<and> ti_chatSessionId i = tc_chatSessionId c \<and> ti_actorId i = tc_actorId c \<and>
    (case ti_body i of
       QueueNext after \<Rightarrow> after = None \<or> (\<exists>task. tc_activeTask c = Some task \<and> after = Some (tk_runId task))
     | SteerCurrent task turn \<Rightarrow> tc_activeTask c = Some task \<and>
         (\<exists>active. tc_activeTurn c = Some active \<and> parseRuntimeTurnRef turn = parseRuntimeTurnRef active \<and>
            tk_chatSessionId task = Some (tc_chatSessionId c))
     | InterruptAdjust task turn \<Rightarrow> tc_activeTask c = Some task \<and>
         (\<exists>active. tc_activeTurn c = Some active \<and> parseRuntimeTurnRef turn = parseRuntimeTurnRef active \<and>
            tk_chatSessionId task = Some (tc_chatSessionId c)))"
proof -
  from assms obtain i' c' where p: "parseRuntimeTypedInput P i = Some i'" "parseTypedInputMatchContext P c = Some c'"
    "typedCorrelates i' c'" by (auto simp: matches_typed split: option.splits)
  from parse_typed_context [OF p(2)] obtain t where t: "c' = c\<lparr>tc_activeTurn := t\<rparr>"
    "zOptional parseRuntimeTurnRef (tc_activeTurn c) = Some t" by blast
  from parse_typed [OF p(1)] p(3) t show ?thesis
    by (cases "ti_body i"; cases "ti_body i'"; cases "tc_activeTurn c")
      (auto simp: typedCorrelates_def zOptional_iff split: if_split_asm)
qed

definition sampleApproval :: RuntimeActionApprovalSnapshot where
  "sampleApproval = \<lparr>sn_request = \<lparr>iq_requestId = ''q1'', iq_version = 1, iq_requestDigest = sampleDigest,
       iq_task = sampleTask, iq_respondentId = ''u1'', iq_createdAt = ''2026-01-01T00:00:00Z'',
       iq_expiresAt = ''2026-01-02T00:00:00Z'', iq_body = ActionApprovalRequest ''a9'' sampleBinding\<rparr>,
     sn_response = Some \<lparr>ir_requestId = ''q1'', ir_version = 1, ir_requestDigest = sampleDigest, ir_task = sampleTask,
       ir_responseId = ''r9'', ir_respondedBy = ''u1'', ir_respondedAt = ''2026-01-01T01:00:00Z'',
       ir_body = ActionApprovalResponse ''a9'' Approval_approved\<rparr>,
     sn_consumedAt = None, sn_revokedAt = None\<rparr>"

definition sampleMatchContext :: RuntimeInteractionMatchContext where
  "sampleMatchContext = \<lparr>mc_trustedScope = sampleScope, mc_task = sampleTask, mc_respondentId = ''u1'',
     mc_activeTurn = None, mc_now = ''2026-01-01T02:00:00Z''\<rparr>"

lemma sample_times:
  "dateParse ''2026-01-01T00:00:00Z'' = Some 1767225600000" "dateParse ''2026-01-01T01:00:00Z'' = Some 1767229200000"
  "dateParse ''2026-01-01T02:00:00Z'' = Some 1767232800000" "dateParse ''2026-01-02T00:00:00Z'' = Some 1767312000000"
  by code_simp+

lemma sampleScope_ok: "validRuntimeScope samplePlatform sampleScope"
  by (simp add: validRuntimeScope_def sampleScope_def)

lemma sample_approval: "matchesRuntimeActionApproval samplePlatform sampleApproval sampleMatchContext sampleBinding = Inr True"
proof -
  have b: "parseRuntimeActionBinding samplePlatform sampleBinding = Inr sampleBinding"
    using sampleBinding_ok sampleBinding_trimmed by (simp add: parseRuntimeActionBinding_def)
  have task: "ab_task sampleBinding = sampleTask" by (simp add: sampleBinding_def)
  have c: "parseInteractionMatchContext samplePlatform sampleMatchContext = Some sampleMatchContext"
    using sampleScope_ok by (simp add: parseInteractionMatchContext_def sampleMatchContext_def zOptional_def)
  have s: "parseRuntimeActionApprovalSnapshot samplePlatform sampleApproval = Some sampleApproval"
    using b task sample_times
    by (simp add: parseRuntimeActionApprovalSnapshot_def sampleApproval_def isApprovalRequest_def isApprovalResponse_def
      parseRuntimeInteractionRequest_def requestFieldsOk_def checkRequestLifetime_def zPositive_def isSafeInteger_def
      parseRuntimeInteractionResponse_def responseFieldsOk_def zOptional_def)
  have "correlates samplePlatform (sn_request sampleApproval) (the (sn_response sampleApproval)) sampleMatchContext"
    using sample_times by (simp add: correlates_def sampleApproval_def sampleMatchContext_def sampleTask_def)
  then show ?thesis using matches_approval [of samplePlatform sampleApproval sampleMatchContext sampleBinding] s c b
    by (simp add: sampleApproval_def)
qed

theorem approval_binds_exact_action_witness:
  "matchesRuntimeActionApproval samplePlatform sampleApproval sampleMatchContext sampleBinding = Inr True \<and>
   sn_revokedAt sampleApproval = None \<and> \<not> timeLe (iq_expiresAt (sn_request sampleApproval)) (mc_now sampleMatchContext)"
  using approval_binds_exact_action [OF sample_approval] sample_approval by blast

theorem approval_valid_exactly_in_window_witness:
  "matchesRuntimeActionApproval samplePlatform sampleApproval (sampleMatchContext\<lparr>mc_now := ''2026-01-02T00:00:00Z''\<rparr>)
     sampleBinding = Inr False"
  using approval_valid_exactly_in_window [OF sample_approval, of _ "''2026-01-02T00:00:00Z''"] sample_times
  by (simp add: sampleApproval_def)

definition sampleTyped :: RuntimeTypedInput where
  "sampleTyped = \<lparr>ti_inputId = ''i1'', ti_scope = sampleScope, ti_chatSessionId = ''c1'', ti_actorId = ''u1'',
     ti_text = ''go'', ti_submittedAt = ''2026-01-01T00:00:00Z'',
     ti_body = SteerCurrent (sampleTask\<lparr>tk_chatSessionId := Some ''c1''\<rparr>) \<lparr>tu_turnId = ''t'', tu_generation = 1\<rparr>\<rparr>"

definition sampleTypedContext :: RuntimeTypedInputMatchContext where
  "sampleTypedContext = \<lparr>tc_trustedScope = sampleScope, tc_chatSessionId = ''c1'', tc_actorId = ''u1'',
     tc_activeTask = Some (sampleTask\<lparr>tk_chatSessionId := Some ''c1''\<rparr>),
     tc_activeTurn = Some \<lparr>tu_turnId = ''t'', tu_generation = 1\<rparr>\<rparr>"

theorem typed_input_targets_active_witness:
  "matchesRuntimeTypedInput samplePlatform sampleTyped sampleTypedContext = Inr True \<and>
   ti_scope sampleTyped = tc_trustedScope sampleTypedContext"
proof -
  have turn: "parseRuntimeTurnRef \<lparr>tu_turnId = ''t'', tu_generation = 1\<rparr> = Some \<lparr>tu_turnId = ''t'', tu_generation = 1\<rparr>"
    by (simp add: parseRuntimeTurnRef_def zTrim_def trim_def isWhite_def lenIn_def zNonneg_def isSafeInteger_def)
  have task: "validRuntimeTaskRef samplePlatform (sampleTask\<lparr>tk_chatSessionId := Some ''c1''\<rparr>)"
    using sampleTask_ok by (simp add: validRuntimeTaskRef_def)
  have i: "parseRuntimeTypedInput samplePlatform sampleTyped = Some sampleTyped"
    using turn task sampleScope_ok
    by (simp add: parseRuntimeTypedInput_def sampleTyped_def zTrim_def trim_def isWhite_def lenIn_def)
      (simp add: sampleTask_def sampleScope_ok)
  have c: "parseTypedInputMatchContext samplePlatform sampleTypedContext = Some sampleTypedContext"
    using turn task sampleScope_ok by (simp add: parseTypedInputMatchContext_def sampleTypedContext_def zOptional_def)
  have "matchesRuntimeTypedInput samplePlatform sampleTyped sampleTypedContext = Inr True"
    unfolding matches_typed i c by (simp add: typedCorrelates_def sampleTyped_def sampleTypedContext_def sampleTask_def)
  with typed_input_targets_active [OF this] show ?thesis by blast
qed

end
