(* ===== verification/WorkspaceState.thy ===== *)
theory WorkspaceState
  imports OnceState "HOL-Library.AList"
begin

text \<open>
  packages/database/src/native-schedule-workspace-state.ts: the normalized snapshot of the control
  workspace and the writes that change it under an expected revision.  Snapshots and writes reach the
  code as unknown values, so the model keeps them as JavaScript values and every shape check is an
  executable predicate.  Shown: an applied write is exactly one map update at the next revision and
  leaves a valid snapshot, and writes are applied one per revision.
\<close>

section \<open>The bounded digest\<close>

abbreviation wsReject :: "string \<Rightarrow> exn" where
  "wsReject \<equiv> NativeOnceWorkspaceError"

abbreviation wneed :: "bool \<Rightarrow> string \<Rightarrow> unit result" where
  "wneed b code \<equiv> need b (wsReject code)"

text \<open>
  \<open>visit\<close> counts nodes in the order it meets them and stops at the first fault; the result is the
  count so far.  The values of the model have neither cycles nor accessors.
\<close>

fun wsVisit :: "nat \<Rightarrow> nat \<Rightarrow> nat \<Rightarrow> nat \<Rightarrow> jsval \<Rightarrow> nat result"
  and wsVisitArr :: "nat \<Rightarrow> nat \<Rightarrow> nat \<Rightarrow> nat \<Rightarrow> jsval list \<Rightarrow> nat result"
  and wsVisitObj :: "nat \<Rightarrow> nat \<Rightarrow> nat \<Rightarrow> nat \<Rightarrow> (string \<times> jsval) list \<Rightarrow> nat result" where
  "wsVisit maxNodes maxDepth depth nodes v =
     (if maxNodes < nodes + 1 \<or> maxDepth < depth then Inl (wsReject ''json_limit'')
      else case v of
          JUndefined \<Rightarrow> Inl (wsReject ''invalid_json'')
        | JNaN \<Rightarrow> Inl (wsReject ''invalid_json'')
        | JArr xs \<Rightarrow> wsVisitArr maxNodes maxDepth (depth + 1) (nodes + 1) xs
        | JObj kvs \<Rightarrow> wsVisitObj maxNodes maxDepth (depth + 1) (nodes + 1) kvs
        | _ \<Rightarrow> Inr (nodes + 1))"
| "wsVisitArr maxNodes maxDepth depth nodes [] = Inr nodes"
| "wsVisitArr maxNodes maxDepth depth nodes (x # xs) =
     andThen (wsVisit maxNodes maxDepth depth nodes x) (\<lambda>n. wsVisitArr maxNodes maxDepth depth n xs)"
| "wsVisitObj maxNodes maxDepth depth nodes [] = Inr nodes"
| "wsVisitObj maxNodes maxDepth depth nodes ((k, v) # kvs) =
     andThen (wsVisit maxNodes maxDepth depth nodes v) (\<lambda>n. wsVisitObj maxNodes maxDepth depth n kvs)"

definition nativeOnceWorkspaceDigest :: "jsval \<Rightarrow> bool \<Rightarrow> string result" where
  "nativeOnceWorkspaceDigest value envelope =
     (let maxNodes = (if envelope then 80000 else 40000); maxDepth = (if envelope then 20 else 16);
          maxBytes = (if envelope then 4194304 else 2097152) in
      andThen (wsVisit maxNodes maxDepth 0 0 value) (\<lambda>_.
      andThen (wneed (length (utf8 (stringify value)) \<le> maxBytes) ''json_limit'') (\<lambda>_.
        runtimePolicyDigest value)))"

section \<open>Shapes\<close>

record NativeOnceWorkspaceScope =
  sc_stateRoot :: string
  sc_controlSessionIds :: "string list"

definition byteString :: "jsval \<Rightarrow> nat \<Rightarrow> bool \<Rightarrow> bool" where
  "byteString v limit emptyOk = (case v of JStr s \<Rightarrow> (emptyOk \<or> 0 < length s) \<and> length (utf8 s) \<le> limit | _ \<Rightarrow> False)"

definition safeRevision :: "jsval \<Rightarrow> bool" where
  "safeRevision v = (case v of JNum n \<Rightarrow> isSafeInteger n \<and> 0 \<le> n | _ \<Rightarrow> False)"

definition wsObject :: "jsval \<Rightarrow> string list \<Rightarrow> string list \<Rightarrow> unit result" where
  "wsObject v required optional = (case v of
     JObj kvs \<Rightarrow> wneed (list_all (\<lambda>k. k \<in> set (map fst kvs)) required \<and>
       list_all (\<lambda>k. k \<in> set required \<or> k \<in> set optional) (map fst kvs)) ''shape''
   | _ \<Rightarrow> Inl (wsReject ''shape''))"

definition wsIds :: "jsval \<Rightarrow> nat \<Rightarrow> string list option \<Rightarrow> (jsval list) result" where
  "wsIds v limit allowed = (case v of
     JArr xs \<Rightarrow> andThen (wneed (length xs \<le> limit \<and>
         list_all (\<lambda>x. byteString x 64 False \<and> (case allowed of None \<Rightarrow> True | Some ids \<Rightarrow> strOf x \<in> set ids)) xs \<and>
         distinct xs) ''identities'') (\<lambda>_. Inr xs)
   | _ \<Rightarrow> Inl (wsReject ''identities''))"

definition wsRecord :: "jsval \<Rightarrow> NativeOnceWorkspaceScope \<Rightarrow> unit result" where
  "wsRecord v scope =
     andThen (wsObject v [''path'', ''title'', ''sessionIds'', ''createdAt'', ''updatedAt''] []) (\<lambda>_.
     andThen (wneed (byteString (jget ''path'' v) 4096 False \<and> jget ''path'' v = JStr (sc_stateRoot scope) \<and>
       byteString (jget ''title'' v) 512 True \<and> isoExactJ (jget ''createdAt'' v) \<and> isoExactJ (jget ''updatedAt'' v)) ''record'') (\<lambda>_.
     andThen (wsIds (jget ''sessionIds'' v) 10000 (Some (sc_controlSessionIds scope))) (\<lambda>_. Inr ())))"

definition wsPending :: "jsval \<Rightarrow> unit result" where
  "wsPending p = andThen (wsObject p [''operation'', ''workspaceId''] []) (\<lambda>_.
     wneed ((jget ''operation'' p = JStr ''create'' \<or> jget ''operation'' p = JStr ''delete'') \<and>
       byteString (jget ''workspaceId'' p) 64 False) ''pending_mutation'')"

definition wsGlobal :: "jsval \<Rightarrow> NativeOnceWorkspaceScope \<Rightarrow> unit result" where
  "wsGlobal v scope =
     andThen (wsObject v [''initialized'', ''workspaceIds'', ''archivedSessionIds'', ''pinnedSessionIds'']
       [''defaultWorkspaceId'', ''pendingMutation'']) (\<lambda>_.
     andThen (wneed (case jget ''initialized'' v of JBool _ \<Rightarrow> True | _ \<Rightarrow> False) ''global'') (\<lambda>_.
     andThen (wsIds (jget ''workspaceIds'' v) 1 None) (\<lambda>_.
     andThen (wsIds (jget ''archivedSessionIds'' v) 10000 (Some (sc_controlSessionIds scope))) (\<lambda>archived.
     andThen (wsIds (jget ''pinnedSessionIds'' v) 10000 (Some (sc_controlSessionIds scope))) (\<lambda>pinned.
     andThen (wneed (\<not> list_ex (\<lambda>x. x \<in> set pinned) archived) ''archived_pinned_overlap'') (\<lambda>_.
     andThen (wneed (\<not> jHas ''defaultWorkspaceId'' v \<or> byteString (jget ''defaultWorkspaceId'' v) 64 False)
       ''default_workspace'') (\<lambda>_.
     if jHas ''pendingMutation'' v then wsPending (jget ''pendingMutation'' v) else Inr ())))))))"

fun wsRows :: "(string \<times> jsval) list \<Rightarrow> NativeOnceWorkspaceScope \<Rightarrow> unit result" where
  "wsRows [] scope = Inr ()"
| "wsRows ((key, row) # rows) scope =
     andThen (wneed (byteString (JStr key) 64 False) ''workspace_identity'') (\<lambda>_.
     andThen (wsRecord row scope) (\<lambda>_. wsRows rows scope))"

definition validateNativeOnceWorkspaceSnapshot :: "jsval \<Rightarrow> NativeOnceWorkspaceScope \<Rightarrow> unit result" where
  "validateNativeOnceWorkspaceSnapshot v scope =
     andThen (nativeOnceWorkspaceDigest v False) (\<lambda>_.
     andThen (wsObject v [''unitVersion'', ''revision'', ''tables'', ''global''] []) (\<lambda>_.
     andThen (wneed (jget ''unitVersion'' v = JNum 2 \<and> safeRevision (jget ''revision'' v)) ''snapshot_version'') (\<lambda>_.
     andThen (wsObject (jget ''tables'' v) [''workspaces''] []) (\<lambda>_.
     case jget ''workspaces'' (jget ''tables'' v) of
       JObj rows \<Rightarrow>
         andThen (wneed (length rows \<le> 1) ''workspace_limit'') (\<lambda>_.
         andThen (wsRows rows scope) (\<lambda>_.
         if jget ''global'' v \<noteq> JNull then wsGlobal (jget ''global'' v) scope else Inr ()))
     | _ \<Rightarrow> Inl (wsReject ''tables'')))))"

section \<open>Writes\<close>

definition hexRun :: "nat \<Rightarrow> string \<Rightarrow> bool" where
  "hexRun n s \<longleftrightarrow> length s = n \<and> list_all (\<lambda>c. c \<in> set ''0123456789abcdefABCDEF'') s"

text \<open>The pattern \<open>^[a-f0-9]{8}-(?:[a-f0-9]{4}-){3}[a-f0-9]{12}$\<close>, in either case.\<close>

definition uuidPattern :: "string \<Rightarrow> bool" where
  "uuidPattern s = (case splitOn (CHR ''-'') s of
     [a, b, c, d, e] \<Rightarrow> hexRun 8 a \<and> hexRun 4 b \<and> hexRun 4 c \<and> hexRun 4 d \<and> hexRun 12 e | _ \<Rightarrow> False)"

definition wsMutation :: "jsval \<Rightarrow> NativeOnceWorkspaceScope \<Rightarrow> unit result" where
  "wsMutation m scope =
     (let kind = jget ''kind'' m;
          named = wneed (jget ''table'' m = JStr ''workspaces'' \<and> byteString (jget ''key'' m) 64 False) ''table'' in
      if kind = JStr ''put_record'' then
        andThen (wsObject m [''kind'', ''table'', ''key'', ''value''] []) (\<lambda>_.
        andThen named (\<lambda>_. wsRecord (jget ''value'' m) scope))
      else if kind = JStr ''delete_record'' then
        andThen (wsObject m [''kind'', ''table'', ''key''] []) (\<lambda>_. named)
      else if kind = JStr ''set_global'' then
        andThen (wsObject m [''kind'', ''value''] []) (\<lambda>_. wsGlobal (jget ''value'' m) scope)
      else Inl (wsReject ''mutation''))"

definition wsEnvelope :: "jsval \<Rightarrow> jsval" where
  "wsEnvelope v = JObj [(''entryKind'', JStr ''workspace''), (''unitVersion'', JNum 2),
     (''expectedRevision'', jget ''expectedRevision'' v), (''mutation'', jget ''mutation'' v)]"

definition validateNativeOnceWorkspaceWrite :: "jsval \<Rightarrow> NativeOnceWorkspaceScope \<Rightarrow> unit result" where
  "validateNativeOnceWorkspaceWrite v scope =
     andThen (nativeOnceWorkspaceDigest v True) (\<lambda>_.
     andThen (wsObject v [''writeId'', ''digest'', ''expectedRevision'', ''mutation''] []) (\<lambda>_.
     andThen (wneed ((case jget ''writeId'' v of JStr s \<Rightarrow> uuidPattern s | _ \<Rightarrow> False) \<and>
       safeRevision (jget ''expectedRevision'' v) \<and> jget ''expectedRevision'' v \<noteq> JNum MAX_SAFE_INTEGER) ''write_identity'') (\<lambda>_.
     andThen (wsMutation (jget ''mutation'' v) scope) (\<lambda>_.
     andThen (nativeOnceWorkspaceDigest (wsEnvelope v) True) (\<lambda>d.
       wneed (jget ''digest'' v = JStr d) ''write_digest'')))))"

section \<open>Applying a write\<close>

text \<open>Assignment to a property keeps its place in the object or appends it; \<open>delete\<close> removes it.\<close>

fun jset :: "string \<Rightarrow> jsval \<Rightarrow> jsval \<Rightarrow> jsval" where
  "jset k x (JObj kvs) = JObj (AList.update k x kvs)"
| "jset k x v = v"

fun jdelete :: "string \<Rightarrow> jsval \<Rightarrow> jsval" where
  "jdelete k (JObj kvs) = JObj (AList.delete k kvs)"
| "jdelete k v = v"

definition jnext :: "jsval \<Rightarrow> jsval" where
  "jnext v = (case v of JNum n \<Rightarrow> JNum (n + 1) | _ \<Rightarrow> JNaN)"

definition wsChange :: "jsval \<Rightarrow> jsval \<Rightarrow> jsval" where
  "wsChange next m =
     (let workspaces = jget ''workspaces'' (jget ''tables'' next);
          store = (\<lambda>rows. jset ''tables'' (jset ''workspaces'' rows (jget ''tables'' next)) next) in
      if jget ''kind'' m = JStr ''set_global'' then jset ''global'' (jget ''value'' m) next
      else if jget ''kind'' m = JStr ''delete_record'' then store (jdelete (strOf (jget ''key'' m)) workspaces)
      else store (jset (strOf (jget ''key'' m)) (jget ''value'' m) workspaces))"

definition applyNativeOnceWorkspaceWrite :: "jsval \<Rightarrow> jsval \<Rightarrow> NativeOnceWorkspaceScope \<Rightarrow> jsval result" where
  "applyNativeOnceWorkspaceWrite before write scope =
     andThen (validateNativeOnceWorkspaceSnapshot before scope) (\<lambda>_.
     andThen (validateNativeOnceWorkspaceWrite write scope) (\<lambda>_.
     andThen (wneed (jget ''revision'' before = jget ''expectedRevision'' write) ''revision_conflict'') (\<lambda>_.
     let next = wsChange (jset ''revision'' (jnext (jget ''revision'' before)) before) (jget ''mutation'' write) in
     andThen (validateNativeOnceWorkspaceSnapshot next scope) (\<lambda>_. Inr next))))"

section \<open>The abstract workspace\<close>

text \<open>What a snapshot stands for: its revision, the table as a map, and the global value.\<close>

record workspaceView =
  wv_revision :: jsval
  wv_rows :: "string \<rightharpoonup> jsval"
  wv_global :: jsval

definition wsView :: "jsval \<Rightarrow> workspaceView" where
  "wsView v = \<lparr>wv_revision = jget ''revision'' v,
     wv_rows = (case jget ''workspaces'' (jget ''tables'' v) of JObj rows \<Rightarrow> map_of rows | _ \<Rightarrow> Map.empty),
     wv_global = jget ''global'' v\<rparr>"

definition viewChange :: "workspaceView \<Rightarrow> jsval \<Rightarrow> workspaceView" where
  "viewChange w m =
     (let next = w\<lparr>wv_revision := jnext (wv_revision w)\<rparr>; key = strOf (jget ''key'' m) in
      if jget ''kind'' m = JStr ''set_global'' then next\<lparr>wv_global := jget ''value'' m\<rparr>
      else if jget ''kind'' m = JStr ''delete_record'' then next\<lparr>wv_rows := (wv_rows w)(key := None)\<rparr>
      else next\<lparr>wv_rows := (wv_rows w)(key \<mapsto> jget ''value'' m)\<rparr>)"

lemma jget_jset: "jget k (jset k' x v) = (if k = k' \<and> (\<exists>kvs. v = JObj kvs) then x else jget k v)"
  by (cases v) (auto simp: update_conv')

lemma jset_object: "(\<exists>kvs. jset k x v = JObj kvs) \<longleftrightarrow> (\<exists>kvs. v = JObj kvs)"
  by (cases v) auto

lemma wsObject_object: "wsObject v required optional = Inr u \<Longrightarrow> \<exists>kvs. v = JObj kvs"
  by (cases v) (auto simp: wsObject_def)

lemma snapshot_ok:
  assumes "validateNativeOnceWorkspaceSnapshot v scope = Inr u"
  shows "\<exists>kvs. v = JObj kvs" "\<exists>kvs. jget ''tables'' v = JObj kvs" "\<exists>rows. jget ''workspaces'' (jget ''tables'' v) = JObj rows"
    "\<exists>n. jget ''revision'' v = JNum n \<and> 0 \<le> n \<and> isSafeInteger n"
  using assms
  by (auto simp: validateNativeOnceWorkspaceSnapshot_def andThen_Inr_iff safeRevision_def dest!: wsObject_object split: jsval.splits)

lemma wsChange_view:
  assumes "\<exists>kvs. v = JObj kvs" "\<exists>kvs. jget ''tables'' v = JObj kvs" "\<exists>rows. jget ''workspaces'' (jget ''tables'' v) = JObj rows"
  shows "wsView (wsChange (jset ''revision'' (jnext (jget ''revision'' v)) v) m) = viewChange (wsView v) m"
proof -
  obtain rows where rows: "jget ''workspaces'' (jget ''tables'' v) = JObj rows" using assms(3) by blast
  show ?thesis
    using assms(1,2) by (auto simp: wsView_def wsChange_def viewChange_def Let_def jget_jset jset_object rows update_conv' delete_conv')
qed

lemma apply_ok:
  assumes "applyNativeOnceWorkspaceWrite before write scope = Inr after"
  shows "validateNativeOnceWorkspaceSnapshot before scope = Inr ()" "validateNativeOnceWorkspaceSnapshot after scope = Inr ()"
    "validateNativeOnceWorkspaceWrite write scope = Inr ()" "jget ''expectedRevision'' write = jget ''revision'' before"
    "wsView after = viewChange (wsView before) (jget ''mutation'' write)"
proof -
  show v: "validateNativeOnceWorkspaceSnapshot before scope = Inr ()" "validateNativeOnceWorkspaceSnapshot after scope = Inr ()"
    "validateNativeOnceWorkspaceWrite write scope = Inr ()" "jget ''expectedRevision'' write = jget ''revision'' before"
    using assms by (auto simp: applyNativeOnceWorkspaceWrite_def andThen_Inr_iff Let_def)
  show "wsView after = viewChange (wsView before) (jget ''mutation'' write)"
    using assms wsChange_view [OF snapshot_ok(1-3) [OF v(1)]] by (auto simp: applyNativeOnceWorkspaceWrite_def andThen_Inr_iff Let_def)
qed


section \<open>Properties\<close>

definition numOf :: "jsval \<Rightarrow> int" where
  "numOf v = (case v of JNum n \<Rightarrow> n | _ \<Rightarrow> 0)"

definition workspaceRevision :: "jsval \<Rightarrow> int" where
  "workspaceRevision v = numOf (jget ''revision'' v)"

definition writeExpected :: "jsval \<Rightarrow> int" where
  "writeExpected w = numOf (jget ''expectedRevision'' w)"

lemma apply_revision:
  assumes "applyNativeOnceWorkspaceWrite before write scope = Inr after"
  obtains n where "jget ''revision'' before = JNum n" "jget ''expectedRevision'' write = JNum n"
    "jget ''revision'' after = JNum (n + 1)"
proof -
  note ok = apply_ok [OF assms]
  obtain n where n: "jget ''revision'' before = JNum n" using snapshot_ok(4) [OF ok(1)] by blast
  have "jget ''revision'' after = wv_revision (wsView after)" by (simp add: wsView_def)
  also have "\<dots> = JNum (n + 1)" unfolding ok(5) by (simp add: viewChange_def Let_def wsView_def n jnext_def)
  finally show ?thesis using n ok(4) that by simp
qed

interpretation workspace_store: versioned_store "\<lambda>s w. applyNativeOnceWorkspaceWrite s w scope" workspaceRevision writeExpected
  for scope
  by unfold_locales (erule apply_revision, simp add: workspaceRevision_def writeExpected_def numOf_def)

text \<open>
  (C19) Refinement: an applied write is accepted at exactly the revision it expects, leaves a snapshot
  that validates again, and is on the abstract workspace one update: the next revision together with
  the record stored under its key, the key removed, or the global value replaced, everything else kept.
  A table never holds more than one workspace.
\<close>

theorem workspace_apply_refines:
  assumes "applyNativeOnceWorkspaceWrite before write scope = Inr after"
  shows "wsView after = viewChange (wsView before) (jget ''mutation'' write) \<and>
    validateNativeOnceWorkspaceSnapshot after scope = Inr () \<and> writeExpected write = workspaceRevision before \<and>
    workspaceRevision after = workspaceRevision before + 1 \<and>
    (\<forall>k k'. k \<in> dom (wv_rows (wsView after)) \<longrightarrow> k' \<in> dom (wv_rows (wsView after)) \<longrightarrow> k = k')"
proof -
  note ok = apply_ok [OF assms] and rev = workspace_store.accept [OF assms]
  obtain rows where rows: "jget ''workspaces'' (jget ''tables'' after) = JObj rows" "length rows \<le> 1"
    using ok(2) by (auto simp: validateNativeOnceWorkspaceSnapshot_def andThen_Inr_iff split: jsval.splits)
  then have "k = k'" if "k \<in> dom (wv_rows (wsView after))" "k' \<in> dom (wv_rows (wsView after))" for k k'
    using that by (cases rows) (auto simp: wsView_def split: if_splits)
  then show ?thesis using ok(2,5) rev by blast
qed

text \<open>
  Serial writes: in any sequence of applied writes the writes expect consecutive revisions, one
  write per revision, and the snapshot ends at the starting revision plus their number; a write that was
  prepared against any earlier revision is refused afterwards, so no update is lost.
\<close>

theorem workspace_writes_serial:
  assumes "runAll (\<lambda>s w. applyNativeOnceWorkspaceWrite s w scope) before ws = Inr after"
  shows "(\<forall>i < length ws. writeExpected (ws ! i) = workspaceRevision before + int i) \<and> distinct (map writeExpected ws) \<and>
    workspaceRevision after = workspaceRevision before + int (length ws) \<and>
    (\<forall>w. writeExpected w < workspaceRevision after \<longrightarrow> (\<exists>e. applyNativeOnceWorkspaceWrite after w scope = Inl e))"
  using workspace_store.run_expected [OF assms] workspace_store.run_distinct [OF assms] workspace_store.run_version [OF assms]
    workspace_store.stale_write [OF assms] by simp

section \<open>A concrete write\<close>

definition sampleScope :: NativeOnceWorkspaceScope where
  "sampleScope = \<lparr>sc_stateRoot = ''/s'', sc_controlSessionIds = [''cs'']\<rparr>"

definition sampleRecordRow :: jsval where
  "sampleRecordRow = JObj [(''path'', JStr ''/s''), (''title'', JStr ''t''), (''sessionIds'', jStrs [''cs'']),
     (''createdAt'', JStr sampleAt), (''updatedAt'', JStr sampleAt)]"

definition sampleWorkspace :: "int \<Rightarrow> (string \<times> jsval) list \<Rightarrow> jsval" where
  "sampleWorkspace n rows = JObj [(''unitVersion'', JNum 2), (''revision'', JNum n),
     (''tables'', JObj [(''workspaces'', JObj rows)]), (''global'', JNull)]"

definition samplePutRecord :: jsval where
  "samplePutRecord = JObj [(''kind'', JStr ''put_record''), (''table'', JStr ''workspaces''), (''key'', JStr ''k''),
     (''value'', sampleRecordRow)]"

definition sampleWorkspaceWrite :: "string \<Rightarrow> jsval" where
  "sampleWorkspaceWrite d = JObj [(''writeId'', JStr ''00000000-0000-0000-0000-000000000000''), (''digest'', JStr d),
     (''expectedRevision'', JNum 0), (''mutation'', samplePutRecord)]"

lemma workspaceDigest_small:
  assumes "jsonOk v" "isOk (wsVisit (if envelope then 80000 else 40000) (if envelope then 20 else 16) 0 0 v)" "textBound v \<le> 1000000"
  shows "\<exists>d. nativeOnceWorkspaceDigest v envelope = Inr d"
proof -
  have "length (utf8 (stringify v)) \<le> 2000000"
    using length_utf8 [of "stringify v"] length_stringify(1) [of v] assms(3) by simp
  then show ?thesis using assms(1,2) runtimePolicyDigest_ok [of v] by (cases envelope) (auto simp: nativeOnceWorkspaceDigest_def isOk_iff simp del: wsVisit.simps)
qed

lemma sample_record_row: "wsRecord sampleRecordRow sampleScope = Inr ()"
  using sampleAt_iso(1)
  by (simp add: wsRecord_def wsObject_def sampleRecordRow_def byteString_def sampleScope_def isoExactJ_def wsIds_def jStrs_def
    strOf_def utf8_def)

lemma sample_workspace_valid:
  assumes "n \<in> {0, 1}" "rows = [] \<or> rows = [(''k'', sampleRecordRow)]"
  shows "validateNativeOnceWorkspaceSnapshot (sampleWorkspace n rows) sampleScope = Inr ()"
proof -
  have len: "length (natStr 0) \<le> 1" "length (natStr (Suc 0)) \<le> 1" "length (natStr 2) \<le> 1" by (subst natStr.simps, simp)+
  have "\<exists>d. nativeOnceWorkspaceDigest (sampleWorkspace n rows) False = Inr d"
    using assms len by (intro workspaceDigest_small; auto simp: sampleWorkspace_def sampleRecordRow_def jStrs_def intStr_def sampleAt_def)
  then show ?thesis
    using assms sample_record_row
    by (auto simp: validateNativeOnceWorkspaceSnapshot_def sampleWorkspace_def wsObject_def safeRevision_def isSafeInteger_def
      byteString_def utf8_def)
qed


lemma sample_workspace_write:
  "\<exists>d. validateNativeOnceWorkspaceWrite (sampleWorkspaceWrite d) sampleScope = Inr ()"
proof -
  have len: "length (natStr 0) \<le> 1" "length (natStr 2) \<le> 1" by (subst natStr.simps, simp)+
  obtain d where d: "nativeOnceWorkspaceDigest (wsEnvelope (sampleWorkspaceWrite [])) True = Inr d"
    using workspaceDigest_small [of "wsEnvelope (sampleWorkspaceWrite [])" True] len
    by (auto simp: wsEnvelope_def sampleWorkspaceWrite_def samplePutRecord_def sampleRecordRow_def jStrs_def intStr_def sampleAt_def)
  then have "checksumOk d" using runtimePolicyDigest_checksum by (auto simp: nativeOnceWorkspaceDigest_def andThen_Inr_iff Let_def)
  then have "\<exists>e. nativeOnceWorkspaceDigest (sampleWorkspaceWrite d) True = Inr e"
    using len by (intro workspaceDigest_small)
      (auto simp: sampleWorkspaceWrite_def samplePutRecord_def sampleRecordRow_def jStrs_def intStr_def sampleAt_def checksumOk_def)
  moreover have "wsEnvelope (sampleWorkspaceWrite d) = wsEnvelope (sampleWorkspaceWrite [])"
    by (simp add: wsEnvelope_def sampleWorkspaceWrite_def)
  moreover have "uuidPattern ''00000000-0000-0000-0000-000000000000''" by code_simp
  ultimately have "validateNativeOnceWorkspaceWrite (sampleWorkspaceWrite d) sampleScope = Inr ()"
    using d sample_record_row unfolding validateNativeOnceWorkspaceWrite_def
    by (auto simp: sampleWorkspaceWrite_def wsObject_def safeRevision_def isSafeInteger_def wsMutation_def samplePutRecord_def
      byteString_def utf8_def Let_def)
  then show ?thesis by blast
qed

lemma sample_workspace_apply:
  "\<exists>w. applyNativeOnceWorkspaceWrite (sampleWorkspace 0 []) w sampleScope = Inr (sampleWorkspace 1 [(''k'', sampleRecordRow)]) \<and>
     jget ''mutation'' w = samplePutRecord"
proof -
  obtain d where d: "validateNativeOnceWorkspaceWrite (sampleWorkspaceWrite d) sampleScope = Inr ()" using sample_workspace_write by blast
  have m: "jget ''mutation'' (sampleWorkspaceWrite d) = samplePutRecord" "jget ''expectedRevision'' (sampleWorkspaceWrite d) = JNum 0"
    by (simp_all add: sampleWorkspaceWrite_def)
  have "wsChange (jset ''revision'' (jnext (jget ''revision'' (sampleWorkspace 0 []))) (sampleWorkspace 0 [])) samplePutRecord =
      sampleWorkspace 1 [(''k'', sampleRecordRow)]"
    by (simp add: wsChange_def sampleWorkspace_def samplePutRecord_def jnext_def strOf_def)
  moreover have "jget ''revision'' (sampleWorkspace 0 []) = JNum 0" by (simp add: sampleWorkspace_def)
  ultimately have "applyNativeOnceWorkspaceWrite (sampleWorkspace 0 []) (sampleWorkspaceWrite d) sampleScope =
      Inr (sampleWorkspace 1 [(''k'', sampleRecordRow)])"
    using d sample_workspace_valid [of 0 "[]"] sample_workspace_valid [of 1 "[(''k'', sampleRecordRow)]"]
    by (simp add: applyNativeOnceWorkspaceWrite_def m Let_def)
  then show ?thesis using m(1) by blast
qed

theorem workspace_apply_refines_witness:
  "\<exists>w. applyNativeOnceWorkspaceWrite (sampleWorkspace 0 []) w sampleScope = Inr (sampleWorkspace 1 [(''k'', sampleRecordRow)]) \<and>
     wsView (sampleWorkspace 1 [(''k'', sampleRecordRow)]) = viewChange (wsView (sampleWorkspace 0 [])) samplePutRecord"
proof -
  obtain w where w: "applyNativeOnceWorkspaceWrite (sampleWorkspace 0 []) w sampleScope = Inr (sampleWorkspace 1 [(''k'', sampleRecordRow)])"
    "jget ''mutation'' w = samplePutRecord" using sample_workspace_apply by blast
  from workspace_apply_refines [OF w(1)] w show ?thesis by auto
qed

theorem workspace_writes_serial_witness:
  "\<exists>w. runAll (\<lambda>s w. applyNativeOnceWorkspaceWrite s w sampleScope) (sampleWorkspace 0 []) [w] =
      Inr (sampleWorkspace 1 [(''k'', sampleRecordRow)]) \<and>
     (\<exists>e. applyNativeOnceWorkspaceWrite (sampleWorkspace 1 [(''k'', sampleRecordRow)]) w sampleScope = Inl e)"
proof -
  obtain w where w: "applyNativeOnceWorkspaceWrite (sampleWorkspace 0 []) w sampleScope = Inr (sampleWorkspace 1 [(''k'', sampleRecordRow)])"
    using sample_workspace_apply by blast
  then have run: "runAll (\<lambda>s w. applyNativeOnceWorkspaceWrite s w sampleScope) (sampleWorkspace 0 []) [w] =
      Inr (sampleWorkspace 1 [(''k'', sampleRecordRow)])" by simp
  note s = workspace_writes_serial [OF run]
  then have "writeExpected w < workspaceRevision (sampleWorkspace 1 [(''k'', sampleRecordRow)])" by simp
  then show ?thesis using s run by blast
qed

end
