(* ===== verification/SandboxTls.thy ===== *)
theory SandboxTls
  imports JsonValue
begin

text \<open>
  The inspection of the first bytes of a sandbox connection: \<open>sandboxTlsClientHello\<close> of
  packages/project-runtime/src/sandbox-network-policy.ts.  A buffer is a list of 8-bit words; the
  cursor of the code is the list of bytes that remain, so a cursor past the end is a failed read.
  Shown: a hello is valid exactly if it is one well-formed encoding for the host name, however it is
  cut into records; and a verdict does not depend on how the bytes arrive.
\<close>

section \<open>Reading bytes\<close>

type_synonym bytes = "8 word list"

abbreviation tlsBad :: exn where
  "tlsBad \<equiv> SandboxNetworkError ''SANDBOX_NETWORK_PROTOCOL''"

definition takeBytes :: "nat \<Rightarrow> bytes \<Rightarrow> (bytes \<times> bytes) result" where
  "takeBytes n b = (if n \<le> length b then Inr (take n b, drop n b) else Inl tlsBad)"

fun takeU8 :: "bytes \<Rightarrow> (nat \<times> bytes) result" where
  "takeU8 (x # b) = Inr (unat x, b)"
| "takeU8 [] = Inl tlsBad"

fun takeU16 :: "bytes \<Rightarrow> (nat \<times> bytes) result" where
  "takeU16 (x # y # b) = Inr (unat x * 256 + unat y, b)"
| "takeU16 _ = Inl tlsBad"

text \<open>\<open>take(body[take(1)]!)\<close>: a vector with a length of one byte.\<close>

definition takeVector8 :: "bytes \<Rightarrow> (bytes \<times> bytes) result" where
  "takeVector8 b = andThen (takeU8 b) (\<lambda>(n, b'). takeBytes n b')"

section \<open>The client hello\<close>

text \<open>\<open>Buffer.from(s, 'ascii')\<close> keeps the low byte of a code unit, \<open>toString('ascii')\<close> drops the high bit.\<close>

definition asciiBytes :: "string \<Rightarrow> bytes" where
  "asciiBytes s = map (\<lambda>c. word_of_nat (of_char c)) s"

definition asciiText :: "bytes \<Rightarrow> string" where
  "asciiText b = map (\<lambda>w. char_of (unat (w AND 127))) b"

text \<open>The server name extension; the bytes start behind its length, which they may exceed.\<close>

definition tlsServerName :: "string \<Rightarrow> nat \<Rightarrow> bytes \<Rightarrow> (string \<times> bytes) result" where
  "tlsServerName hostname len b =
     andThen (takeU16 b) (\<lambda>(listLength, b1).
     if int listLength \<noteq> int len - 2 then Inl tlsBad
     else andThen (takeU8 b1) (\<lambda>(kind, b2).
     if kind \<noteq> 0 then Inl tlsBad
     else andThen (takeU16 b2) (\<lambda>(nameLength, b3).
       andThen (takeBytes nameLength b3) (\<lambda>(name, b4).
       if length b - length b4 \<noteq> len \<or> name \<noteq> asciiBytes hostname then Inl tlsBad
       else Inr (asciiText name, b4)))))"

text \<open>One round of the loop over the extensions: its type, the name it gives, and what follows.\<close>

definition tlsExtension :: "string \<Rightarrow> nat list \<Rightarrow> string option \<Rightarrow> bytes \<Rightarrow> (nat \<times> string option \<times> bytes) result" where
  "tlsExtension hostname seen sni b =
     andThen (takeU16 b) (\<lambda>(kind, b1).
     andThen (takeU16 b1) (\<lambda>(len, b2).
     if length b2 < len \<or> kind \<in> set seen \<or> kind = 0xfe0d then Inl tlsBad
     else if kind = 0 then andThen (tlsServerName hostname len b2) (\<lambda>(name, b3). Inr (kind, Some name, b3))
     else Inr (kind, sni, drop len b2)))"

lemma takeU16_ok: "takeU16 b = Inr (n, b') \<longleftrightarrow> (\<exists>x y. b = x # y # b' \<and> n = unat x * 256 + unat y)"
  by (cases b rule: takeU16.cases) auto

lemma takeU8_ok: "takeU8 b = Inr (n, b') \<longleftrightarrow> (\<exists>x. b = x # b' \<and> n = unat x)"
  by (cases b) auto

lemma takeBytes_ok: "takeBytes n b = Inr (xs, b') \<longleftrightarrow> b = xs @ b' \<and> length xs = n"
  by (auto simp: takeBytes_def)

lemma tlsServerName_shorter: "tlsServerName hostname len b = Inr (name, b') \<Longrightarrow> length b' \<le> length b"
  by (auto simp: tlsServerName_def andThen_Inr_iff takeU16_ok takeU8_ok takeBytes_ok split: if_split_asm)

lemma tlsExtension_shorter: "tlsExtension hostname seen sni b = Inr (kind, sni', b') \<Longrightarrow> length b' < length b"
  by (auto simp: tlsExtension_def andThen_Inr_iff takeU16_ok dest!: tlsServerName_shorter split: if_split_asm)

function tlsExtensions :: "string \<Rightarrow> nat list \<Rightarrow> string option \<Rightarrow> bytes \<Rightarrow> string option result" where
  "tlsExtensions hostname seen sni b =
     (if b = [] then Inr sni
      else case tlsExtension hostname seen sni b of
          Inl e \<Rightarrow> Inl e
        | Inr (kind, sni', b') \<Rightarrow> tlsExtensions hostname (kind # seen) sni' b')"
  by pat_completeness auto
termination by (relation "measure (\<lambda>(_, _, _, b). length b)") (auto dest: tlsExtension_shorter)

declare tlsExtensions.simps [simp del]

text \<open>The body of the message, behind its type and length.\<close>

definition tlsHello :: "string \<Rightarrow> bytes \<Rightarrow> unit result" where
  "tlsHello hostname body =
     andThen (takeBytes 34 body) (\<lambda>(_, b1).
     andThen (takeVector8 b1) (\<lambda>(_, b2).
     andThen (takeU16 b2) (\<lambda>(ciphers, b3).
     if ciphers < 2 \<or> odd ciphers then Inl tlsBad
     else andThen (takeBytes ciphers b3) (\<lambda>(_, b4).
       andThen (takeVector8 b4) (\<lambda>(_, b5).
       andThen (takeU16 b5) (\<lambda>(extensionSize, b6).
       if extensionSize \<noteq> length b6 then Inl tlsBad
       else andThen (tlsExtensions hostname [] None b6) (\<lambda>sni.
         need (sni = Some hostname) tlsBad)))))))"

section \<open>Records\<close>

datatype HelloVerdict = Hello_pending | Hello_valid

text \<open>\<open>readUIntBE(1, 3)\<close> of a message of at least four bytes.\<close>

fun messageSize :: "bytes \<Rightarrow> nat" where
  "messageSize (kind # x # y # z # _) = unat x * 65536 + unat y * 256 + unat z"
| "messageSize _ = 0"

text \<open>The loop over the records: the message read so far and the bytes that remain.\<close>

function tlsRecords :: "string \<Rightarrow> bytes \<Rightarrow> bytes \<Rightarrow> HelloVerdict result" where
  "tlsRecords hostname body b =
     (case b of
        kind # major # minor # hi # lo # payload \<Rightarrow>
          (if kind \<noteq> 22 \<or> major \<noteq> 3 \<or> 3 < minor then Inl tlsBad
           else
             let len = unat hi * 256 + unat lo in
             if 18432 < len \<or> len = 0 then Inl tlsBad
             else if length payload < len then Inr Hello_pending
             else
               let body' = body @ take len payload; b' = drop len payload in
               if length body' < 4 then tlsRecords hostname body' b'
               else if hd body' \<noteq> 1 \<or> 60000 < messageSize body' then Inl tlsBad
               else if length body' < messageSize body' + 4 then tlsRecords hostname body' b'
               else if length body' \<noteq> messageSize body' + 4 \<or> b' \<noteq> [] then Inl tlsBad
               else andThen (tlsHello hostname (drop 4 body')) (\<lambda>_. Inr Hello_valid))
      | _ \<Rightarrow> Inr Hello_pending)"
  by pat_completeness auto
termination by (relation "measure (\<lambda>(_, _, b). length b)") auto

declare tlsRecords.simps [simp del]

definition sandboxTlsClientHello :: "bytes \<Rightarrow> string \<Rightarrow> HelloVerdict result" where
  "sandboxTlsClientHello b hostname =
     (if 65536 < length b then Inl tlsBad
      else if length b < 5 then Inr Hello_pending
      else tlsRecords hostname [] b)"

section \<open>The encoding\<close>

definition be16 :: "nat \<Rightarrow> bytes" where
  "be16 n = [word_of_nat (n div 256), word_of_nat n]"

definition be24 :: "nat \<Rightarrow> bytes" where
  "be24 n = word_of_nat (n div 65536) # be16 n"

record clientHello =
  ch_head :: bytes
  ch_session :: bytes
  ch_ciphers :: bytes
  ch_compression :: bytes
  ch_extensions :: "(nat \<times> bytes) list"

definition encodeExtension :: "nat \<times> bytes \<Rightarrow> bytes" where
  "encodeExtension x = be16 (fst x) @ be16 (length (snd x)) @ snd x"

definition encodeExtensions :: "(nat \<times> bytes) list \<Rightarrow> bytes" where
  "encodeExtensions xs = concat (map encodeExtension xs)"

definition encodeHello :: "clientHello \<Rightarrow> bytes" where
  "encodeHello h = ch_head h @ word_of_nat (length (ch_session h)) # ch_session h @
     be16 (length (ch_ciphers h)) @ ch_ciphers h @ word_of_nat (length (ch_compression h)) # ch_compression h @
     be16 (length (encodeExtensions (ch_extensions h))) @ encodeExtensions (ch_extensions h)"

definition handshake :: "clientHello \<Rightarrow> bytes" where
  "handshake h = 1 # be24 (length (encodeHello h)) @ encodeHello h"

definition serverName :: "string \<Rightarrow> bytes" where
  "serverName hostname = be16 (length hostname + 3) @ 0 # be16 (length hostname) @ asciiBytes hostname"

definition encodeRecord :: "8 word \<times> bytes \<Rightarrow> bytes" where
  "encodeRecord r = 22 # 3 # fst r # be16 (length (snd r)) @ snd r"

definition goodExtension :: "nat \<times> bytes \<Rightarrow> bool" where
  "goodExtension x \<longleftrightarrow> fst x < 65536 \<and> length (snd x) < 65536 \<and> fst x \<noteq> 0xfe0d"

definition goodHello :: "string \<Rightarrow> clientHello \<Rightarrow> bool" where
  "goodHello hostname h \<longleftrightarrow> length (ch_head h) = 34 \<and> length (ch_session h) < 256 \<and>
     2 \<le> length (ch_ciphers h) \<and> even (length (ch_ciphers h)) \<and> length (ch_ciphers h) < 65536 \<and>
     length (ch_compression h) < 256 \<and> length (encodeExtensions (ch_extensions h)) < 65536 \<and>
     list_all goodExtension (ch_extensions h) \<and> distinct (map fst (ch_extensions h)) \<and>
     map_of (ch_extensions h) 0 = Some (serverName hostname) \<and> list_all (\<lambda>c. (of_char c :: nat) < 128) hostname"

definition goodRecord :: "8 word \<times> bytes \<Rightarrow> bool" where
  "goodRecord r \<longleftrightarrow> fst r \<le> 3 \<and> snd r \<noteq> [] \<and> length (snd r) \<le> 18432"

section \<open>What the readers accept\<close>

lemma be16_length [simp]: "length (be16 n) = 2" by (simp add: be16_def)
lemma be24_length [simp]: "length (be24 n) = 3" by (simp add: be24_def)

lemma byte_bound: "unat (x :: 8 word) < 256"
  using unsigned_less [of x] by simp

lemma byte_of_nat: "n < 256 \<Longrightarrow> unat (word_of_nat n :: 8 word) = n"
  by (simp add: unat_of_nat take_bit_eq_mod)

lemma byte_sum: "word_of_nat (unat x * 256 + unat y) = (y :: 8 word)"
  by (simp add: word_unat_eq_iff unat_word_ariths unat_of_nat take_bit_eq_mod byte_bound)

lemma be16_sum: "be16 (unat x * 256 + unat y) = [x, y]"
  using byte_bound [of y] byte_sum [of x y] by (simp add: be16_def)

lemma takeU16_be16 [simp]: "n < 65536 \<Longrightarrow> takeU16 (be16 n @ b) = Inr (n, b)"
proof -
  assume "n < 65536"
  then have "unat (word_of_nat (n div 256) :: 8 word) = n div 256" by (intro byte_of_nat) simp
  moreover have "unat (word_of_nat n :: 8 word) = n mod 256" by (simp add: unat_of_nat take_bit_eq_mod)
  ultimately show ?thesis by (simp add: be16_def)
qed

lemma takeU16_iff: "takeU16 b = Inr (n, b') \<longleftrightarrow> n < 65536 \<and> b = be16 n @ b'"
proof
  assume "takeU16 b = Inr (n, b')"
  then obtain x y where xy: "b = x # y # b'" "n = unat x * 256 + unat y" by (auto simp: takeU16_ok)
  then show "n < 65536 \<and> b = be16 n @ b'" using byte_bound [of x] byte_bound [of y] by (simp add: be16_sum)
qed simp

lemma takeVector8_iff:
  "takeVector8 b = Inr (v, b') \<longleftrightarrow> length v < 256 \<and> b = word_of_nat (length v) # v @ b'"
proof
  assume "takeVector8 b = Inr (v, b')"
  then obtain x where "b = x # v @ b'" "length v = unat x"
    by (auto simp: takeVector8_def andThen_Inr_iff takeU8_ok takeBytes_ok)
  then show "length v < 256 \<and> b = word_of_nat (length v) # v @ b'" using byte_bound [of x] by simp
next
  assume "length v < 256 \<and> b = word_of_nat (length v) # v @ b'"
  then show "takeVector8 b = Inr (v, b')" by (simp add: takeVector8_def byte_of_nat takeBytes_def)
qed

lemma asciiBytes_length [simp]: "length (asciiBytes s) = length s" by (simp add: asciiBytes_def)

lemma serverName_length [simp]: "length (serverName hostname) = length hostname + 5"
  by (simp add: serverName_def)

lemma ascii_char: "char_of (unat (word_of_nat (of_char c) AND (127 :: 8 word))) = c \<longleftrightarrow> (of_char c :: nat) < 128"
proof -
  have c: "(of_char c :: nat) < 256" by (metis of_char_mod_256 mod_less_divisor zero_less_numeral)
  have "w AND 127 = take_bit 7 w" for w :: "8 word" by (simp add: take_bit_eq_mask mask_eq_exp_minus_1)
  then have "unat (word_of_nat (of_char c) AND (127 :: 8 word)) = of_char c mod 128"
    using byte_of_nat [OF c] by (simp only: unsigned_take_bit_eq) (simp add: take_bit_eq_mod)
  moreover have "char_of (of_char c mod 128 :: nat) = c \<longleftrightarrow> (of_char c :: nat) < 128"
  proof
    assume "char_of (of_char c mod 128 :: nat) = c"
    then have "(of_char c :: nat) = of_char (char_of (of_char c mod 128 :: nat) :: char)" by simp
    also have "\<dots> = of_char c mod 128 mod 256" by (simp only: of_char_of)
    also have "\<dots> < 128" by (meson mod_less_divisor mod_less_eq_dividend order.strict_trans1 zero_less_numeral)
    finally show "(of_char c :: nat) < 128" .
  qed simp
  ultimately show ?thesis by simp
qed

lemma asciiText_bytes: "asciiText (asciiBytes s) = s \<longleftrightarrow> list_all (\<lambda>c. (of_char c :: nat) < 128) s"
  by (induction s) (simp_all add: asciiText_def asciiBytes_def ascii_char)

lemma tlsServerName_iff:
  assumes "len \<le> length b" "len < 65536"
  shows "tlsServerName hostname len b = Inr (name, b') \<longleftrightarrow>
    take len b = serverName hostname \<and> b' = drop len b \<and> name = asciiText (asciiBytes hostname)"
proof
  assume "tlsServerName hostname len b = Inr (name, b')"
  then obtain l k n where s: "b = be16 l @ k # be16 n @ asciiBytes hostname @ b'" "int l = int len - 2" "unat k = 0"
    "length (asciiBytes hostname) = n" "length b - length b' = len" "name = asciiText (asciiBytes hostname)"
    by (auto simp: tlsServerName_def andThen_Inr_iff takeU16_iff takeU8_ok takeBytes_ok split: if_split_asm)
  then have "k = 0" "n = length hostname" "l = length hostname + 3" "len = length hostname + 5"
    by (simp_all add: unat_eq_0)
  with s have "b = serverName hostname @ b'" "len = length (serverName hostname)" by (simp_all add: serverName_def)
  with s(6) show "take len b = serverName hostname \<and> b' = drop len b \<and> name = asciiText (asciiBytes hostname)" by simp
next
  assume r: "take len b = serverName hostname \<and> b' = drop len b \<and> name = asciiText (asciiBytes hostname)"
  then have len: "len = length hostname + 5" using assms by (metis length_take min.absorb2 serverName_length)
  have b: "b = serverName hostname @ b'" using r append_take_drop_id [of len b] by simp
  show "tlsServerName hostname len b = Inr (name, b')"
    using assms r len unfolding b by (simp add: tlsServerName_def serverName_def takeBytes_def)
qed

definition goodNames :: "string \<Rightarrow> nat list \<Rightarrow> (nat \<times> bytes) list \<Rightarrow> bool" where
  "goodNames hostname seen xs \<longleftrightarrow> list_all goodExtension xs \<and> distinct (map fst xs) \<and>
     set (map fst xs) \<inter> set seen = {} \<and> (\<forall>d. (0, d) \<in> set xs \<longrightarrow> d = serverName hostname)"

lemma goodNames_Cons:
  "goodNames hostname seen (x # xs) \<longleftrightarrow> goodExtension x \<and> fst x \<notin> set seen \<and> (fst x = 0 \<longrightarrow> snd x = serverName hostname) \<and>
     goodNames hostname (fst x # seen) xs"
  by (cases x) (auto simp: goodNames_def image_iff)

lemma goodNames_Nil [simp]: "goodNames hostname seen []" by (simp add: goodNames_def)

lemma tlsExtension_iff:
  "tlsExtension hostname seen sni b = Inr (kind, sni', b') \<longleftrightarrow>
     (\<exists>d. b = encodeExtension (kind, d) @ b' \<and> goodExtension (kind, d) \<and> kind \<notin> set seen \<and>
        (kind = 0 \<longrightarrow> d = serverName hostname) \<and>
        sni' = (if kind = 0 then Some (asciiText (asciiBytes hostname)) else sni))"
proof
  assume "tlsExtension hostname seen sni b = Inr (kind, sni', b')"
  then obtain len b2 where s: "kind < 65536" "len < 65536" "b = be16 kind @ be16 len @ b2" "len \<le> length b2" "kind \<notin> set seen"
    "kind \<noteq> 0xfe0d"
    "if kind = 0 then \<exists>name. tlsServerName hostname len b2 = Inr (name, b') \<and> sni' = Some name else sni' = sni \<and> b' = drop len b2"
    by (auto simp: tlsExtension_def andThen_Inr_iff takeU16_iff split: if_split_asm)
  then have b': "b' = drop len b2" and t: "kind = 0 \<longrightarrow> take len b2 = serverName hostname \<and> sni' = Some (asciiText (asciiBytes hostname))"
    by (auto simp: tlsServerName_iff split: if_split_asm)
  show "\<exists>d. b = encodeExtension (kind, d) @ b' \<and> goodExtension (kind, d) \<and> kind \<notin> set seen \<and>
        (kind = 0 \<longrightarrow> d = serverName hostname) \<and> sni' = (if kind = 0 then Some (asciiText (asciiBytes hostname)) else sni)"
    using s b' t by (intro exI [of _ "take len b2"]) (simp add: encodeExtension_def goodExtension_def split: if_split_asm)
next
  assume "\<exists>d. b = encodeExtension (kind, d) @ b' \<and> goodExtension (kind, d) \<and> kind \<notin> set seen \<and>
        (kind = 0 \<longrightarrow> d = serverName hostname) \<and> sni' = (if kind = 0 then Some (asciiText (asciiBytes hostname)) else sni)"
  then obtain d where d: "b = be16 kind @ be16 (length d) @ d @ b'" "kind < 65536" "length d < 65536" "kind \<noteq> 0xfe0d"
    "kind \<notin> set seen" "kind = 0 \<longrightarrow> d = serverName hostname" "sni' = (if kind = 0 then Some (asciiText (asciiBytes hostname)) else sni)"
    by (auto simp: encodeExtension_def goodExtension_def)
  then have "kind = 0 \<longrightarrow> tlsServerName hostname (length d) (d @ b') = Inr (asciiText (asciiBytes hostname), b')"
    by (intro impI, subst tlsServerName_iff) simp_all
  with d show "tlsExtension hostname seen sni b = Inr (kind, sni', b')" by (auto simp: tlsExtension_def)
qed

lemma tlsExtensions_iff:
  "tlsExtensions hostname seen sni b = Inr r \<longleftrightarrow>
     (\<exists>xs. b = encodeExtensions xs \<and> goodNames hostname seen xs \<and>
        r = (if 0 \<in> set (map fst xs) then Some (asciiText (asciiBytes hostname)) else sni))"
proof (induction hostname seen sni b rule: tlsExtensions.induct)
  case (1 hostname seen sni b)
  have enc: "[] = encodeExtensions xs \<longleftrightarrow> xs = []" for xs
    by (cases xs) (simp_all add: encodeExtensions_def encodeExtension_def be16_def)
  show ?case
  proof (cases "b = []")
    case True
    then show ?thesis by (subst tlsExtensions.simps) (auto simp: enc)
  next
    case False
    have split: "tlsExtensions hostname seen sni b = Inr r \<longleftrightarrow>
        (\<exists>kind sni' b'. tlsExtension hostname seen sni b = Inr (kind, sni', b') \<and>
           tlsExtensions hostname (kind # seen) sni' b' = Inr r)"
      using False by (subst tlsExtensions.simps) (auto split: sum.splits)
    show ?thesis
    proof
      assume "tlsExtensions hostname seen sni b = Inr r"
      then obtain kind sni' b' where e: "tlsExtension hostname seen sni b = Inr (kind, sni', b')"
        "tlsExtensions hostname (kind # seen) sni' b' = Inr r" using split by blast
      from e(1) obtain d where d: "b = encodeExtension (kind, d) @ b'" "goodExtension (kind, d)" "kind \<notin> set seen"
        "kind = 0 \<longrightarrow> d = serverName hostname" "sni' = (if kind = 0 then Some (asciiText (asciiBytes hostname)) else sni)"
        by (auto simp: tlsExtension_iff)
      from 1 [OF False e(1) refl refl] e(2) obtain xs where xs: "b' = encodeExtensions xs" "goodNames hostname (kind # seen) xs"
        "r = (if 0 \<in> set (map fst xs) then Some (asciiText (asciiBytes hostname)) else sni')" by auto
      show "\<exists>xs. b = encodeExtensions xs \<and> goodNames hostname seen xs \<and>
          r = (if 0 \<in> set (map fst xs) then Some (asciiText (asciiBytes hostname)) else sni)"
        using d xs by (intro exI [of _ "(kind, d) # xs"]) (auto simp: encodeExtensions_def goodNames_Cons)
    next
      assume "\<exists>xs. b = encodeExtensions xs \<and> goodNames hostname seen xs \<and>
          r = (if 0 \<in> set (map fst xs) then Some (asciiText (asciiBytes hostname)) else sni)"
      then obtain zs where zs: "b = encodeExtensions zs" "goodNames hostname seen zs"
        "r = (if 0 \<in> set (map fst zs) then Some (asciiText (asciiBytes hostname)) else sni)" by blast
      have "zs \<noteq> []" using zs(1) False by (auto simp: encodeExtensions_def)
      then obtain kind d ys where "zs = (kind, d) # ys" by (cases zs) auto
      with zs have xs: "b = encodeExtension (kind, d) @ encodeExtensions ys" "goodNames hostname seen ((kind, d) # ys)"
        "r = (if 0 \<in> set (map fst ((kind, d) # ys)) then Some (asciiText (asciiBytes hostname)) else sni)"
        by (simp_all add: encodeExtensions_def)
      define sni' where "sni' = (if kind = 0 then Some (asciiText (asciiBytes hostname)) else sni)"
      have e: "tlsExtension hostname seen sni b = Inr (kind, sni', encodeExtensions ys)"
        using xs(1,2) by (auto simp: tlsExtension_iff goodNames_Cons sni'_def)
      have "tlsExtensions hostname (kind # seen) sni' (encodeExtensions ys) = Inr r"
        using 1 [OF False e refl refl] xs(2,3) by (auto simp: goodNames_Cons sni'_def)
      then show "tlsExtensions hostname seen sni b = Inr r" using split e by blast
    qed
  qed
qed

lemma goodNames_map_of:
  "(goodNames hostname [] xs \<and> 0 \<in> set (map fst xs)) \<longleftrightarrow>
     list_all goodExtension xs \<and> distinct (map fst xs) \<and> map_of xs 0 = Some (serverName hostname)"
  by (auto simp: goodNames_def map_of_eq_Some_iff dest: map_of_SomeD) (force simp: map_of_eq_Some_iff)+

lemma tlsHello_iff:
  "tlsHello hostname body = Inr u \<longleftrightarrow> (\<exists>h. goodHello hostname h \<and> body = encodeHello h)"
proof
  assume "tlsHello hostname body = Inr u"
  then obtain hd ses cip com xs n where s: "body = hd @ word_of_nat (length ses) # ses @ be16 (length cip) @ cip @
      word_of_nat (length com) # com @ be16 n @ encodeExtensions xs" "length hd = 34" "length ses < 256" "length com < 256"
    "2 \<le> length cip" "even (length cip)" "length cip < 65536" "n < 65536" "n = length (encodeExtensions xs)"
    "goodNames hostname [] xs" "0 \<in> set (map fst xs)" "asciiText (asciiBytes hostname) = hostname"
    by (auto simp: tlsHello_def andThen_Inr_iff takeBytes_ok takeVector8_iff takeU16_iff tlsExtensions_iff not_less
        split: if_split_asm) force
  define h where "h = \<lparr>ch_head = hd, ch_session = ses, ch_ciphers = cip, ch_compression = com, ch_extensions = xs\<rparr>"
  have "map_of xs 0 = Some (serverName hostname)" "list_all goodExtension xs" "distinct (map fst xs)"
    using goodNames_map_of [of hostname xs] s(10,11) by blast+
  with s have "goodHello hostname h" "body = encodeHello h"
    by (simp_all add: goodHello_def encodeHello_def h_def asciiText_bytes)
  then show "\<exists>h. goodHello hostname h \<and> body = encodeHello h" by blast
next
  assume "\<exists>h. goodHello hostname h \<and> body = encodeHello h"
  then obtain h where h: "goodHello hostname h" "body = encodeHello h" by blast
  then have "tlsExtensions hostname [] None (encodeExtensions (ch_extensions h)) = Inr (Some hostname)"
    unfolding tlsExtensions_iff using goodNames_map_of [of hostname "ch_extensions h"]
    by (intro exI [of _ "ch_extensions h"]) (auto simp: goodHello_def asciiText_bytes [THEN iffD2])
  moreover have "takeVector8 (word_of_nat (length v) # v @ b) = Inr (v, b)" if "length v < 256" for v b
    using that by (simp add: takeVector8_iff)
  ultimately show "tlsHello hostname body = Inr u"
    using h by (simp add: tlsHello_def encodeHello_def goodHello_def takeBytes_def)
qed

section \<open>Records and messages\<close>

lemma be24_unat:
  assumes "n < 16777216"
  shows "\<exists>x y z. be24 n = [x, y, z] \<and> unat x * 65536 + unat y * 256 + unat z = n"
proof -
  have "unat (word_of_nat (n div 65536) :: 8 word) = n div 65536" using assms by (intro byte_of_nat) simp
  moreover have "unat (word_of_nat (n div 256) :: 8 word) = n div 256 mod 256" "unat (word_of_nat n :: 8 word) = n mod 256"
    by (simp_all add: unat_of_nat take_bit_eq_mod)
  moreover have "n div 65536 * 65536 + n div 256 mod 256 * 256 + n mod 256 = n"
  proof -
    have "n div 256 = n div 65536 * 256 + n div 256 mod 256"
      using div_mult_mod_eq [of "n div 256" 256] by (simp flip: div_mult2_eq)
    moreover have "n = n div 256 * 256 + n mod 256" by simp
    ultimately show ?thesis by linarith
  qed
  ultimately show ?thesis by (simp add: be24_def be16_def)
qed

lemma be24_sum: "be24 (unat x * 65536 + unat y * 256 + unat z) = [x, y, z]"
proof -
  have "(unat x * 65536 + (unat y * 256 + unat z)) div 65536 = unat x"
    using byte_bound [of y] byte_bound [of z] by (subst div_mult_self3) simp_all
  moreover have "be16 (unat x * 65536 + unat y * 256 + unat z) = be16 (unat y * 256 + unat z)"
  proof -
    have "(unat x * 65536 + unat y * 256 + unat z) div 256 = unat x * 256 + (unat y * 256 + unat z) div 256"
      using div_mult_self3 [of 256 "unat x * 256" "unat y * 256 + unat z"] by simp
    moreover have "word_of_nat (unat x * 256 + k) = (word_of_nat k :: 8 word)" for k
      by (simp add: word_unat_eq_iff unat_of_nat take_bit_eq_mod unat_word_ariths mod_simps)
    moreover have "word_of_nat (unat x * 65536 + k) = (word_of_nat k :: 8 word)" for k
      using calculation(2) [of k] by (simp add: word_unat_eq_iff unat_of_nat take_bit_eq_mod unat_word_ariths mod_simps)
    ultimately show ?thesis by (simp only: be16_def add.assoc)
  qed
  ultimately show ?thesis by (simp add: be24_def be16_sum add.assoc)
qed

lemma messageSize_append [simp]: "4 \<le> length body \<Longrightarrow> messageSize (body @ rest) = messageSize body"
  by (cases body rule: messageSize.cases) auto

lemma handshake_length [simp]: "length (handshake h) = length (encodeHello h) + 4"
  by (simp add: handshake_def)

lemma handshake_size: "length (encodeHello h) \<le> 60000 \<Longrightarrow> messageSize (handshake h) = length (encodeHello h)"
  using be24_unat [of "length (encodeHello h)"] by (auto simp: handshake_def)

lemma handshake_eq:
  assumes "hd m = 1" "length m = messageSize m + 4" "drop 4 m = encodeHello h"
  shows "m = handshake h"
proof -
  obtain k x y z r where m: "m = k # x # y # z # r" using assms(2) by (cases m rule: messageSize.cases) auto
  with assms have "k = 1" "r = encodeHello h" "length r = unat x * 65536 + unat y * 256 + unat z" by simp_all
  with m show ?thesis using be24_sum [of x y z] by (simp add: handshake_def)
qed

definition incomplete :: "bytes \<Rightarrow> bool" where
  "incomplete body \<longleftrightarrow> length body < 4 \<or> length body < messageSize body + 4"

text \<open>Behind a whole record the code looks at the message so far.\<close>

lemma tlsRecords_record:
  assumes "goodRecord r"
  shows "tlsRecords hostname body (encodeRecord r @ b) =
    (let body' = body @ snd r in
     if length body' < 4 then tlsRecords hostname body' b
     else if hd body' \<noteq> 1 \<or> 60000 < messageSize body' then Inl tlsBad
     else if length body' < messageSize body' + 4 then tlsRecords hostname body' b
     else if length body' \<noteq> messageSize body' + 4 \<or> b \<noteq> [] then Inl tlsBad
     else andThen (tlsHello hostname (drop 4 body')) (\<lambda>_. Inr Hello_valid))"
proof -
  define n where "n = length (snd r)"
  have n: "n < 65536" "n \<noteq> 0" "n \<le> 18432" "\<not> 3 < fst r" using assms by (auto simp: goodRecord_def n_def)
  obtain hi lo where hl: "be16 n = [hi, lo]" by (simp add: be16_def)
  have "unat hi * 256 + unat lo = n" using takeU16_be16 [OF n(1), of "[]"] by (simp add: hl)
  then show ?thesis
    using n by (subst tlsRecords.simps) (auto simp: encodeRecord_def hl n_def [symmetric] Let_def)
qed

lemma tlsRecords_cases:
  obtains r b' where "goodRecord r" "b = encodeRecord r @ b'"
  | "tlsRecords hostname body b = Inr Hello_pending"
  | "\<forall>rest. tlsRecords hostname body (b @ rest) = Inl tlsBad"
proof (cases "length b < 5")
  case True
  then have "tlsRecords hostname body b = Inr Hello_pending"
    by (subst tlsRecords.simps) (auto split: list.split)
  then show ?thesis by (rule that(2))
next
  case False
  then obtain kind major minor hi lo payload where b: "b = kind # major # minor # hi # lo # payload"
    by (auto simp: numeral_eq_Suc not_less Suc_le_length_iff)
  define n where "n = unat hi * 256 + unat lo"
  consider (bad) "kind \<noteq> 22 \<or> major \<noteq> 3 \<or> 3 < minor \<or> 18432 < n \<or> n = 0"
    | (pending) "kind = 22" "major = 3" "\<not> 3 < minor" "n \<le> 18432" "n \<noteq> 0" "length payload < n"
    | (whole) "kind = 22" "major = 3" "\<not> 3 < minor" "n \<le> 18432" "n \<noteq> 0" "n \<le> length payload" by linarith
  then show ?thesis
  proof cases
    case bad
    then have "tlsRecords hostname body (b @ rest) = Inl tlsBad" for rest
      by (subst tlsRecords.simps) (auto simp: b n_def Let_def)
    then show ?thesis by (blast intro: that(3))
  next
    case pending
    then have "tlsRecords hostname body b = Inr Hello_pending"
      by (subst tlsRecords.simps) (auto simp: b n_def Let_def)
    then show ?thesis by (rule that(2))
  next
    case whole
    then have "goodRecord (minor, take n payload)" by (auto simp: goodRecord_def)
    moreover have "b = encodeRecord (minor, take n payload) @ drop n payload"
      using whole by (simp add: b encodeRecord_def be16_sum n_def)
    ultimately show ?thesis by (rule that(1))
  qed
qed

lemma encodeRecord_nonempty [simp]: "encodeRecord r \<noteq> []" "0 < length (encodeRecord r)"
  by (simp_all add: encodeRecord_def)

lemma tlsRecords_valid:
  assumes "tlsRecords hostname body b = Inr Hello_valid"
  shows "\<exists>h frags. goodHello hostname h \<and> length (encodeHello h) \<le> 60000 \<and> list_all goodRecord frags \<and>
    body @ concat (map snd frags) = handshake h \<and> b = concat (map encodeRecord frags)"
  using assms
proof (induction b arbitrary: body rule: length_induct)
  case (1 b)
  note IH = "1.IH" and prem = "1.prems"
  show ?case
  proof (cases rule: tlsRecords_cases [where b = b and hostname = hostname and body = body])
    case (1 r b')
    let ?body = "body @ snd r"
    note run = prem [unfolded 1(2) tlsRecords_record [OF 1(1)] Let_def]
    show ?thesis
    proof (cases "tlsRecords hostname ?body b' = Inr Hello_valid")
      case True
      with IH 1(2) obtain h frags where "goodHello hostname h" "length (encodeHello h) \<le> 60000"
        "list_all goodRecord frags" "?body @ concat (map snd frags) = handshake h" "b' = concat (map encodeRecord frags)"
        by (metis encodeRecord_nonempty(2) length_append less_add_same_cancel2)
      then show ?thesis using 1 by (intro exI [of _ h] exI [of _ "r # frags"]) simp
    next
      case False
      with run have m: "hd ?body = 1" "messageSize ?body \<le> 60000" "length ?body = messageSize ?body + 4" "b' = []"
        "tlsHello hostname (drop 4 ?body) = Inr ()"
        by (auto simp: andThen_Inr_iff split: if_split_asm)
      then obtain h where h: "goodHello hostname h" "drop 4 ?body = encodeHello h" by (auto simp: tlsHello_iff)
      have "?body = handshake h" by (rule handshake_eq) (use m h in auto)
      moreover from this m have "length (encodeHello h) \<le> 60000" by simp
      ultimately show ?thesis using h 1 m(4) by (intro exI [of _ h] exI [of _ "[r]"]) simp
    qed
  next
    case 2
    then show ?thesis using prem by simp
  next
    case 3
    from 3 [rule_format, of "[]"] show ?thesis using prem by simp
  qed
qed

lemma tlsRecords_encoded:
  assumes "goodHello hostname h" "length (encodeHello h) \<le> 60000" "list_all goodRecord frags"
    "body @ concat (map snd frags) = handshake h" "incomplete body"
  shows "tlsRecords hostname body (concat (map encodeRecord frags)) = Inr Hello_valid"
  using assms(3-)
proof (induction frags arbitrary: body)
  case Nil
  then show ?case using handshake_size [OF assms(2)] by (auto simp: incomplete_def)
next
  case (Cons r frags)
  let ?body = "body @ snd r"
  have r: "goodRecord r" and hs: "?body @ concat (map snd frags) = handshake h" using Cons.prems by simp_all
  have size: "messageSize ?body = length (encodeHello h)" "hd ?body = 1" if "4 \<le> length ?body"
    using that handshake_size [OF assms(2)] hs messageSize_append [OF that, of "concat (map snd frags)"]
    by (simp, metis handshake_def hd_append2 list.sel(1) list.size(3) not_numeral_le_zero)
  show ?case
  proof (cases "frags = []")
    case True
    then have b: "?body = handshake h" using hs by simp
    then have "length body + length (snd r) = length (encodeHello h) + 4"
      by (metis handshake_length length_append)
    then show ?thesis
      using b True assms(1,2) handshake_size [OF assms(2)] tlsHello_iff [of hostname "encodeHello h"]
      by (auto simp: tlsRecords_record [OF r, of hostname body "[]", simplified] Let_def) (auto simp: handshake_def be24_def be16_def)
  next
    case False
    then have "concat (map snd frags) \<noteq> []" using Cons.prems(1) by (cases frags) (auto simp: goodRecord_def)
    then have "length ?body < length (encodeHello h) + 4"
      using hs by (metis handshake_length length_append length_greater_0_conv less_add_same_cancel1)
    then have "incomplete ?body" using size by (auto simp: incomplete_def not_less)
    then have "tlsRecords hostname ?body (concat (map encodeRecord frags)) = Inr Hello_valid"
      using Cons.IH [of ?body] Cons.prems(1) hs by simp
    then show ?thesis
      using size \<open>length ?body < _\<close> assms(2) by (auto simp: tlsRecords_record [OF r] Let_def not_less)
  qed
qed

lemma tlsRecords_decided:
  assumes "tlsRecords hostname body b \<noteq> Inr Hello_pending" "rest \<noteq> []"
  shows "tlsRecords hostname body (b @ rest) = Inl tlsBad"
  using assms(1)
proof (induction b arbitrary: body rule: length_induct)
  case (1 b)
  note IH = "1.IH" and prem = "1.prems"
  show ?case
  proof (cases rule: tlsRecords_cases [where b = b and hostname = hostname and body = body])
    case (1 r b')
    have step: "tlsRecords hostname body' (b' @ rest) = Inl tlsBad" if "tlsRecords hostname body' b' \<noteq> Inr Hello_pending" for body'
      using IH 1(2) that by (metis encodeRecord_nonempty(2) length_append less_add_same_cancel2)
    show ?thesis
      using prem step assms(2)
      unfolding 1(2) append_assoc tlsRecords_record [OF 1(1)] Let_def by (auto split: if_split_asm)
  qed (use prem in auto)
qed

section \<open>What a verdict means\<close>

text \<open>
  (C14) Nothing else is a client hello: the first bytes of a connection are valid for a host name exactly
  if they are at most 65536 bytes made of one TLS handshake record or several, whose payloads together
  are exactly one well-formed ClientHello message of at most 60000 bytes, with an even list of ciphers,
  distinct extensions, no encrypted hello, and a server name extension that carries precisely the
  host name and nothing else.
\<close>

theorem tls_valid_exactly:
  "sandboxTlsClientHello b hostname = Inr Hello_valid \<longleftrightarrow> length b \<le> 65536 \<and>
     (\<exists>h frags. goodHello hostname h \<and> length (encodeHello h) \<le> 60000 \<and> list_all goodRecord frags \<and>
        concat (map snd frags) = handshake h \<and> b = concat (map encodeRecord frags))"
proof -
  have "length b < 5 \<Longrightarrow> tlsRecords hostname [] b = Inr Hello_pending"
    by (subst tlsRecords.simps) (auto split: list.split)
  then have "sandboxTlsClientHello b hostname = Inr Hello_valid \<longleftrightarrow> length b \<le> 65536 \<and> tlsRecords hostname [] b = Inr Hello_valid"
    by (auto simp: sandboxTlsClientHello_def)
  moreover have "incomplete []" by (simp add: incomplete_def)
  ultimately show ?thesis
    using tlsRecords_valid [of hostname "[]" b] tlsRecords_encoded [of hostname _ _ "[]"] by auto
qed

text \<open>
  A verdict is final and does not depend on how the stream is cut: bytes that are already decided,
  valid or not, are refused together with any byte that follows them, and every beginning of a valid
  hello is still pending.
\<close>

theorem tls_verdict_final:
  assumes "rest \<noteq> []"
  shows "(sandboxTlsClientHello b hostname = Inr Hello_pending \<or> sandboxTlsClientHello (b @ rest) hostname = Inl tlsBad) \<and>
    (sandboxTlsClientHello (b @ rest) hostname = Inr Hello_valid \<longrightarrow> sandboxTlsClientHello b hostname = Inr Hello_pending)"
proof -
  have "sandboxTlsClientHello b hostname = Inr Hello_pending \<or> sandboxTlsClientHello (b @ rest) hostname = Inl tlsBad"
    using tlsRecords_decided [of hostname "[]" b rest] assms by (auto simp: sandboxTlsClientHello_def)
  then show ?thesis by auto
qed

section \<open>A concrete hello\<close>

definition sampleHello :: clientHello where
  "sampleHello = \<lparr>ch_head = replicate 34 3, ch_session = [], ch_ciphers = [0x13, 0x01], ch_compression = [0],
     ch_extensions = [(43, [2, 3, 4]), (0, serverName ''api.example.com'')]\<rparr>"

definition sampleHelloBytes :: bytes where
  "sampleHelloBytes = encodeRecord (1, take 20 (handshake sampleHello)) @ encodeRecord (3, drop 20 (handshake sampleHello))"

lemma sampleHello_size: "length (encodeHello sampleHello) = 74"
  by (simp add: sampleHello_def encodeHello_def encodeExtensions_def encodeExtension_def)

lemma sampleHello_length: "length sampleHelloBytes = 88"
  by (simp add: sampleHello_size sampleHelloBytes_def encodeRecord_def)

lemma sampleHello_valid: "sandboxTlsClientHello sampleHelloBytes ''api.example.com'' = Inr Hello_valid"
proof -
  have good: "goodHello ''api.example.com'' sampleHello"
    by (simp add: goodHello_def sampleHello_def encodeExtensions_def encodeExtension_def goodExtension_def serverName_def)
  have "tlsRecords ''api.example.com'' []
      (concat (map encodeRecord [(1, take 20 (handshake sampleHello)), (3, drop 20 (handshake sampleHello))])) = Inr Hello_valid"
    by (rule tlsRecords_encoded [OF good]) (simp_all add: sampleHello_size goodRecord_def incomplete_def handshake_def)
  then show ?thesis using sampleHello_length by (simp add: sandboxTlsClientHello_def) (simp add: sampleHelloBytes_def)
qed

theorem tls_verdict_final_witness:
  "sandboxTlsClientHello (butlast sampleHelloBytes) ''api.example.com'' = Inr Hello_pending \<and>
   sandboxTlsClientHello (sampleHelloBytes @ [0]) ''api.example.com'' = Inl tlsBad"
proof -
  have b: "butlast sampleHelloBytes @ [last sampleHelloBytes] = sampleHelloBytes"
    by (rule append_butlast_last_id) (simp add: sampleHelloBytes_def)
  show ?thesis
    using tls_verdict_final [of "[last sampleHelloBytes]" "butlast sampleHelloBytes" "''api.example.com''"]
      tls_verdict_final [of "[0]" sampleHelloBytes "''api.example.com''"] sampleHello_valid by (simp add: b)
qed

end
