(* ===== verification/SandboxNetwork.thy ===== *)
theory SandboxNetwork
  imports SandboxTls Authorization "HOL-Library.AList"
begin

text \<open>
  The destinations of sandbox connections: the address policy and \<open>resolveSandboxDestination\<close> of
  packages/project-runtime/src/sandbox-network-policy.ts, with the resolver of public-address.ts and
  the lease schema of contracts/src/runtime-v2/sandbox-network.ts.  System DNS and the DNS-over-HTTPS
  request are parameters that answer a name; \<open>isIP\<close> and \<open>BlockList\<close> of \<open>node:net\<close> are modelled.  Shown:
  the public addresses in octets and groups, and that a resolved destination is authorized.
\<close>

section \<open>Addresses\<close>

text \<open>\<open>isIP\<close> accepts decimal octets without leading zeros, and the usual forms of IPv6 with a zone.\<close>

definition decimal :: "string \<Rightarrow> nat" where
  "decimal s = foldl (\<lambda>a c. a * 10 + (of_char c - 48)) 0 s"

definition octetOf :: "string \<Rightarrow> nat option" where
  "octetOf s = (if s \<noteq> [] \<and> length s \<le> 3 \<and> list_all isDigitChar s \<and> (length s = 1 \<or> hd s \<noteq> CHR ''0'') \<and> decimal s \<le> 255
     then Some (decimal s) else None)"

definition ipv4Octets :: "string \<Rightarrow> (nat \<times> nat \<times> nat \<times> nat) option" where
  "ipv4Octets s = (case map octetOf (splitOn (CHR ''.'') s) of
     [Some a, Some b, Some c, Some d] \<Rightarrow> Some (a, b, c, d) | _ \<Rightarrow> None)"

definition hexDigitOf :: "char \<Rightarrow> nat option" where
  "hexDigitOf c = (let n = of_char c :: nat in
     if 48 \<le> n \<and> n \<le> 57 then Some (n - 48)
     else if 97 \<le> n \<and> n \<le> 102 then Some (n - 87)
     else if 65 \<le> n \<and> n \<le> 70 then Some (n - 55) else None)"

definition groupOf :: "string \<Rightarrow> nat option" where
  "groupOf s = (if s = [] \<or> 4 < length s then None
     else map_option (foldl (\<lambda>a n. a * 16 + n) 0) (those (map hexDigitOf s)))"

text \<open>The groups on one side of \<open>::\<close>; the last side may end in an IPv4 address.\<close>

definition groupsOf :: "bool \<Rightarrow> string \<Rightarrow> nat list option" where
  "groupsOf final s =
     (if s = [] then Some []
      else let parts = splitOn (CHR '':'') s in
        (if final \<and> CHR ''.'' \<in> set (last parts) then
           (case ipv4Octets (last parts) of
              Some (a, b, c, d) \<Rightarrow> map_option (\<lambda>g. g @ [a * 256 + b, c * 256 + d]) (those (map groupOf (butlast parts)))
            | None \<Rightarrow> None)
         else those (map groupOf parts)))"

fun splitDouble :: "string \<Rightarrow> (string \<times> string) option" where
  "splitDouble (x # y # s) =
     (if x = CHR '':'' \<and> y = CHR '':'' then Some ([], s)
      else map_option (\<lambda>(l, r). (x # l, r)) (splitDouble (y # s)))"
| "splitDouble _ = None"

definition ipv6Groups :: "string \<Rightarrow> nat list option" where
  "ipv6Groups s = (case splitDouble s of
     None \<Rightarrow> (case groupsOf True s of Some g \<Rightarrow> if length g = 8 then Some g else None | None \<Rightarrow> None)
   | Some (l, r) \<Rightarrow> (case (groupsOf False l, groupsOf True r) of
       (Some a, Some b) \<Rightarrow> if length a + length b \<le> 7 then Some (a @ replicate (8 - length a - length b) 0 @ b) else None
     | _ \<Rightarrow> None))"

definition zoneOk :: "string \<Rightarrow> bool" where
  "zoneOk z \<longleftrightarrow> z \<noteq> [] \<and> list_all (\<lambda>c. let n = (of_char c :: nat) in
     isDigitChar c \<or> 65 \<le> n \<and> n \<le> 90 \<or> 97 \<le> n \<and> n \<le> 122 \<or> c \<in> set ''-.:'') z"

definition isIP :: "string \<Rightarrow> int" where
  "isIP s = (if ipv4Octets s \<noteq> None then 4
     else if CHR ''%'' \<in> set s then
       (if ipv6Groups (takeWhile (\<lambda>c. c \<noteq> CHR ''%'') s) \<noteq> None \<and> zoneOk (tl (dropWhile (\<lambda>c. c \<noteq> CHR ''%'') s)) then 6 else 0)
     else if ipv6Groups s \<noteq> None then 6 else 0)"

section \<open>Block lists\<close>

definition ipv4Value :: "string \<Rightarrow> nat option" where
  "ipv4Value s = map_option (\<lambda>(a, b, c, d). ((a * 256 + b) * 256 + c) * 256 + d) (ipv4Octets s)"

definition ipv6Value :: "string \<Rightarrow> nat option" where
  "ipv6Value s = map_option (foldl (\<lambda>a g. a * 65536 + g) 0) (ipv6Groups s)"

text \<open>\<open>addSubnet\<close> and \<open>check\<close>: an address is in a subnet if the bits of the prefix agree.\<close>

definition inSubnet4 :: "nat \<Rightarrow> string \<times> nat \<Rightarrow> bool" where
  "inSubnet4 v subnet = (case ipv4Value (fst subnet) of
     Some base \<Rightarrow> drop_bit (32 - snd subnet) v = drop_bit (32 - snd subnet) base | None \<Rightarrow> False)"

definition inSubnet6 :: "nat \<Rightarrow> string \<times> nat \<Rightarrow> bool" where
  "inSubnet6 v subnet = (case ipv6Value (fst subnet) of
     Some base \<Rightarrow> drop_bit (128 - snd subnet) v = drop_bit (128 - snd subnet) base | None \<Rightarrow> False)"

definition denied4 :: "(string \<times> nat) list" where
  "denied4 = [(''0.0.0.0'', 8), (''10.0.0.0'', 8), (''100.64.0.0'', 10), (''127.0.0.0'', 8), (''169.254.0.0'', 16),
     (''172.16.0.0'', 12), (''192.0.0.0'', 24), (''192.0.2.0'', 24), (''192.88.99.0'', 24), (''192.168.0.0'', 16),
     (''198.18.0.0'', 15), (''198.51.100.0'', 24), (''203.0.113.0'', 24), (''224.0.0.0'', 4), (''240.0.0.0'', 4)]"

definition global6 :: "(string \<times> nat) list" where
  "global6 = [(''2000::'', 3)]"

definition denied6 :: "(string \<times> nat) list" where
  "denied6 = [(''2001::'', 23), (''2001:db8::'', 32), (''2002::'', 16), (''3fff::'', 20)]"

definition sandboxPublicAddress :: "string \<Rightarrow> bool" where
  "sandboxPublicAddress address =
     (if CHR ''%'' \<in> set address then False
      else case ipv4Value address of
          Some v \<Rightarrow> \<not> list_ex (inSubnet4 v) denied4
        | None \<Rightarrow> (case ipv6Value address of
            Some v \<Rightarrow> list_ex (inSubnet6 v) global6 \<and> \<not> list_ex (inSubnet6 v) denied6
          | None \<Rightarrow> False))"

section \<open>Leases\<close>

datatype LeaseTarget = TargetCloud string | TargetBridge string string

record SandboxNetworkLease =
  sl_organizationId :: string
  sl_workspaceId :: string
  sl_ownerId :: string
  sl_runId :: string
  sl_operationId :: string
  sl_attemptId :: string
  sl_target :: LeaseTarget
  sl_policyDigest :: string
  sl_grantId :: string
  sl_grantVersion :: int
  sl_network :: SandboxNetworkRequest
  sl_expiresAt :: string
  sl_maximumConnections :: int
  sl_maximumBytes :: int

fun validLeaseTarget :: "platform \<Rightarrow> LeaseTarget \<Rightarrow> bool" where
  "validLeaseTarget P (TargetCloud t) = zUuid P t"
| "validLeaseTarget P (TargetBridge t d) = (zUuid P t \<and> zUuid P d)"

definition validSandboxNetworkLease :: "platform \<Rightarrow> SandboxNetworkLease \<Rightarrow> bool" where
  "validSandboxNetworkLease P l \<longleftrightarrow> zUuid P (sl_organizationId l) \<and> zUuid P (sl_workspaceId l) \<and>
     zUuid P (sl_ownerId l) \<and> zUuid P (sl_runId l) \<and> zUuid P (sl_operationId l) \<and> zUuid P (sl_attemptId l) \<and>
     validLeaseTarget P (sl_target l) \<and> checksumOk (sl_policyDigest l) \<and> zUuid P (sl_grantId l) \<and>
     zPositive (sl_grantVersion l) \<and> validSandboxNetworkRequest P (sl_network l) \<and> zDatetime P (sl_expiresAt l) \<and>
     1 \<le> sl_maximumConnections l \<and> sl_maximumConnections l \<le> 32 \<and>
     1024 \<le> sl_maximumBytes l \<and> sl_maximumBytes l \<le> 1073741824"

definition assertSandboxDestination :: "SandboxNetworkLease \<Rightarrow> string \<Rightarrow> int \<Rightarrow> unit result" where
  "assertSandboxDestination lease hostname now =
     (if (case dateParse (sl_expiresAt lease) of Some t \<Rightarrow> t \<le> now | None \<Rightarrow> False)
      then Inl (SandboxNetworkError ''SANDBOX_NETWORK_REVOKED'')
      else if ''https://'' @ hostname \<notin> set (sl_network lease) then Inl (SandboxNetworkError ''SANDBOX_NETWORK_DENIED'')
      else Inr ())"

section \<open>Public DNS\<close>

record NetAddress =
  na_address :: string
  na_family :: int

record DnsAnswer =
  da_addresses :: "NetAddress list"
  da_expiresAt :: int

text \<open>\<open>toLowerCase\<close> on code units below 256.\<close>

definition lowerChar :: "char \<Rightarrow> char" where
  "lowerChar c = (let n = of_char c :: nat in
     if 65 \<le> n \<and> n \<le> 90 \<or> 192 \<le> n \<and> n \<le> 222 \<and> n \<noteq> 215 then char_of (n + 32) else c)"

definition dnsName :: "string \<Rightarrow> string" where
  "dnsName s = (let l = map lowerChar s in if l \<noteq> [] \<and> last l = CHR ''.'' then butlast l else l)"

abbreviation addressDenied :: exn where
  "addressDenied \<equiv> JsError ''PUBLIC_ADDRESS_DENIED''"

definition answerTtl :: "jsval \<Rightarrow> int" where
  "answerTtl answer = (case jget ''TTL'' answer of JNum t \<Rightarrow> if isSafeInteger t \<and> 0 < t then t else 0 | _ \<Rightarrow> 0)"

definition questionOk :: "string \<Rightarrow> jsval \<Rightarrow> bool" where
  "questionOk hostname body = (case jget ''Question'' body of
     JArr [q] \<Rightarrow> jget ''type'' q = JNum 1 \<and>
       (case jget ''name'' q of JStr name \<Rightarrow> dnsName name = dnsName hostname | _ \<Rightarrow> False)
   | _ \<Rightarrow> False)"

text \<open>The JSON body of the DNS response; reading a property of null throws, and every failure is a denial.\<close>

definition dnsAnswer :: "string \<Rightarrow> jsval \<Rightarrow> int \<Rightarrow> DnsAnswer result" where
  "dnsAnswer hostname body now =
     (case jget ''Answer'' body of
        JArr answers \<Rightarrow>
          (if jget ''Status'' body \<noteq> JNum 0 \<or> jget ''TC'' body \<noteq> JBool False \<or> \<not> questionOk hostname body \<or>
              64 < length answers \<or> JNull \<in> set answers
           then Inl addressDenied
           else
             let records = filter (\<lambda>a. jget ''type'' a = JNum 1) answers in
             if list_ex (\<lambda>a. case jget ''data'' a of JStr s \<Rightarrow> isIP s \<noteq> 4 | _ \<Rightarrow> True) records then Inl addressDenied
             else Inr \<lparr>da_addresses = map (\<lambda>a. \<lparr>na_address = strOf (jget ''data'' a), na_family = 4\<rparr>) records,
               da_expiresAt = now + fold min (map answerTtl answers) 30 * 1000\<rparr>)
      | _ \<Rightarrow> Inl addressDenied)"

type_synonym dnsCache = "(string \<times> DnsAnswer) list"

text \<open>
  \<open>query\<close> is the answer of the request that serves this call, its own or one already under way.
\<close>

definition publicDns :: "dnsCache \<Rightarrow> string \<Rightarrow> int \<Rightarrow> (string \<Rightarrow> DnsAnswer result) \<Rightarrow> DnsAnswer result \<times> dnsCache" where
  "publicDns verified hostname now query = (case map_of verified hostname of
     Some saved \<Rightarrow> if now < da_expiresAt saved then (Inr saved, verified) else (query hostname, AList.delete hostname verified)
   | None \<Rightarrow> (query hostname, verified))"

definition maximumEntries :: nat where "maximumEntries = 64"

definition synthetic4 :: "NetAddress \<Rightarrow> bool" where
  "synthetic4 item \<longleftrightarrow> na_family item = 4 \<and> isIP (na_address item) = 4 \<and>
     (case ipv4Value (na_address item) of Some v \<Rightarrow> inSubnet4 v (''198.18.0.0'', 15) | None \<Rightarrow> False)"

definition stripBrackets :: "string \<Rightarrow> string" where
  "stripBrackets s = (let a = (if s \<noteq> [] \<and> hd s = CHR ''['' then tl s else s) in
     if a \<noteq> [] \<and> last a = CHR '']'' then butlast a else a)"

text \<open>Only answers that have not expired are kept; the oldest entry makes room.\<close>

definition keepAnswer :: "dnsCache \<Rightarrow> string \<Rightarrow> DnsAnswer \<Rightarrow> int \<Rightarrow> dnsCache" where
  "keepAnswer verified key answer now =
     (if now < da_expiresAt answer then
        (let room = (if map_of verified key = None \<and> maximumEntries \<le> length verified then tl verified else verified) in
         AList.update key answer room)
      else verified)"

text \<open>System DNS, the DNS-over-HTTPS request, and the clock at the two places that read it.\<close>

record DnsEnv =
  de_lookup :: "string \<Rightarrow> NetAddress list result"
  de_query :: "string \<Rightarrow> DnsAnswer result"
  de_nowRead :: int
  de_nowKeep :: int

definition acceptAnswers :: "(string \<Rightarrow> bool) \<Rightarrow> NetAddress list \<Rightarrow> NetAddress result" where
  "acceptAnswers publicAddress answers =
     (if answers = [] \<or> list_ex (\<lambda>item. \<not> publicAddress (na_address item) \<or> isIP (na_address item) \<noteq> na_family item) answers
      then Inl addressDenied else Inr (hd answers))"

definition resolvePublicAddress ::
  "DnsEnv \<Rightarrow> dnsCache \<Rightarrow> string \<Rightarrow> (string \<Rightarrow> bool) \<Rightarrow> NetAddress result \<times> dnsCache" where
  "resolvePublicAddress env verified hostname publicAddress =
     (let literal = stripBrackets hostname; key = dnsName literal in
      case (if isIP literal \<noteq> 0 then Inr [\<lparr>na_address = literal, na_family = isIP literal\<rparr>] else de_lookup env literal) of
        Inl e \<Rightarrow> (Inl e, verified)
      | Inr answers \<Rightarrow>
          (if isIP literal = 0 \<and> answers \<noteq> [] \<and> list_all synthetic4 answers then
             (case publicDns verified key (de_nowRead env) (de_query env) of
                (Inl e, v) \<Rightarrow> (Inl e, v)
              | (Inr resolved, v) \<Rightarrow>
                  (case acceptAnswers publicAddress (da_addresses resolved) of
                     Inl e \<Rightarrow> (Inl e, v)
                   | Inr a \<Rightarrow> (Inr a, keepAnswer v key resolved (de_nowKeep env))))
           else (acceptAnswers publicAddress answers, verified)))"

section \<open>Destinations\<close>

fun destinationError :: "exn \<Rightarrow> exn" where
  "destinationError (SandboxNetworkError code) = SandboxNetworkError code"
| "destinationError (JsError m) =
     SandboxNetworkError (if m = ''PUBLIC_ADDRESS_DENIED'' then ''SANDBOX_NETWORK_DENIED'' else ''SANDBOX_NETWORK_DNS'')"
| "destinationError _ = SandboxNetworkError ''SANDBOX_NETWORK_DNS''"

text \<open>The addresses of this host are \<open>own\<close>; the clock is read before and after the resolution.\<close>

definition resolveSandboxDestination ::
  "platform \<Rightarrow> DnsEnv \<Rightarrow> string set \<Rightarrow> dnsCache \<Rightarrow> SandboxNetworkLease \<Rightarrow> string \<Rightarrow> int \<Rightarrow> int \<Rightarrow> NetAddress result \<times> dnsCache" where
  "resolveSandboxDestination P env own verified lease hostname before after =
     (if \<not> validSandboxNetworkLease P lease then (Inl ZodError, verified)
      else case assertSandboxDestination lease hostname before of
          Inl e \<Rightarrow> (Inl e, verified)
        | Inr _ \<Rightarrow>
            (case resolvePublicAddress env verified hostname (\<lambda>ip. sandboxPublicAddress ip \<and> ip \<notin> own) of
               (Inl e, v) \<Rightarrow> (Inl (destinationError e), v)
             | (Inr address, v) \<Rightarrow>
                 (case assertSandboxDestination lease hostname after of
                    Inl e \<Rightarrow> (Inl e, v) | Inr _ \<Rightarrow> (Inr address, v))))"

section \<open>The addresses that are public\<close>

lemma those_image: "those xs = Some ys \<Longrightarrow> xs = map Some ys"
  by (induction xs arbitrary: ys) (auto split: option.splits)

lemma hexDigit_bound: "hexDigitOf c = Some n \<Longrightarrow> n < 16"
  by (auto simp: hexDigitOf_def Let_def split: if_split_asm)

lemma digits_bound: "\<forall>n \<in> set ns. n < (16 :: nat) \<Longrightarrow> foldl (\<lambda>a n. a * 16 + n) 0 ns < 16 ^ length ns"
proof (induction ns rule: rev_induct)
  case (snoc n ns)
  then have "foldl (\<lambda>a n. a * 16 + n) 0 ns + 1 \<le> 16 ^ length ns" "n < 16" by auto
  from mult_le_mono1 [OF this(1), of 16] this(2) show ?case by simp
qed simp

lemma group_bound:
  assumes "groupOf s = Some n"
  shows "n < 65536"
proof -
  from assms obtain ns where ns: "those (map hexDigitOf s) = Some ns" "n = foldl (\<lambda>a n. a * 16 + n) 0 ns" "length s \<le> 4"
    by (auto simp: groupOf_def split: if_split_asm)
  note eq = those_image [OF ns(1)]
  have len: "length ns = length s" using arg_cong [OF eq, of length] by simp
  have "\<forall>n \<in> set ns. n < 16"
  proof
    fix n assume "n \<in> set ns"
    then have "Some n \<in> set (map hexDigitOf s)" unfolding eq by simp
    then show "n < 16" by (auto intro: hexDigit_bound [OF HOL.sym])
  qed
  from digits_bound [OF this] ns(2,3) len have "n < 16 ^ length s" by simp
  also have "\<dots> \<le> 16 ^ 4" using ns(3) by (intro power_increasing) simp_all
  finally show ?thesis by simp
qed

lemma octets_bound: "ipv4Octets s = Some (a, b, c, d) \<Longrightarrow> a \<le> 255 \<and> b \<le> 255 \<and> c \<le> 255 \<and> d \<le> 255"
  by (auto simp: ipv4Octets_def octetOf_def split: list.splits option.splits if_split_asm)

lemma those_groups:
  assumes "those (map groupOf ss) = Some g"
  shows "list_all (\<lambda>n. n < 65536) g"
proof -
  have "Some n \<in> set (map groupOf ss)" if "n \<in> set g" for n using that unfolding those_image [OF assms] by simp
  then show ?thesis by (auto simp: list_all_iff intro: group_bound [OF HOL.sym])
qed

lemma groups_bound: "groupsOf final s = Some g \<Longrightarrow> list_all (\<lambda>n. n < 65536) g"
  by (auto simp: groupsOf_def Let_def dest!: those_groups octets_bound split: if_split_asm option.splits)

lemma ipv6_bound: "ipv6Groups s = Some g \<Longrightarrow> length g = 8 \<and> list_all (\<lambda>n. n < 65536) g"
  by (auto simp: ipv6Groups_def dest: groups_bound split: option.splits if_split_asm prod.splits) (auto simp: list_all_iff dest!: groups_bound)

definition publicOctets :: "nat \<Rightarrow> nat \<Rightarrow> nat \<Rightarrow> bool" where
  "publicOctets a b c \<longleftrightarrow> a \<noteq> 0 \<and> a \<noteq> 10 \<and> a \<noteq> 127 \<and> a < 224 \<and> \<not> (a = 100 \<and> 64 \<le> b \<and> b < 128) \<and>
     \<not> (a = 169 \<and> b = 254) \<and> \<not> (a = 172 \<and> 16 \<le> b \<and> b < 32) \<and> \<not> (a = 192 \<and> b = 168) \<and>
     \<not> (a = 192 \<and> b = 0 \<and> (c = 0 \<or> c = 2)) \<and> \<not> (a = 192 \<and> b = 88 \<and> c = 99) \<and>
     \<not> (a = 198 \<and> (b = 18 \<or> b = 19 \<or> b = 51 \<and> c = 100)) \<and> \<not> (a = 203 \<and> b = 0 \<and> c = 113)"

definition publicGroups :: "nat \<Rightarrow> nat \<Rightarrow> bool" where
  "publicGroups g h \<longleftrightarrow> 0x2000 \<le> g \<and> g \<le> 0x3fff \<and> \<not> (g = 0x2001 \<and> (h < 0x200 \<or> h = 0xdb8)) \<and> g \<noteq> 0x2002 \<and>
     \<not> (g = 0x3fff \<and> h < 0x1000)"

lemma denied4_values:
  "map (\<lambda>x. (32 - snd x, map_option (drop_bit (32 - snd x)) (ipv4Value (fst x)))) denied4 =
     [(24, Some 0), (24, Some 10), (22, Some 401), (24, Some 127), (16, Some 43518), (20, Some 2753), (8, Some 12582912),
      (8, Some 12582914), (8, Some 12605539), (16, Some 49320), (17, Some 25353), (8, Some 12989284), (8, Some 13303921),
      (28, Some 14), (28, Some 15)]"
  by (simp add: denied4_def ipv4Value_def ipv4Octets_def octetOf_def decimal_def isDigitChar_def drop_bit_eq_div)

lemma replicate_zeros: "replicate 6 (0 :: nat) = [0, 0, 0, 0, 0, 0]" "replicate 7 (0 :: nat) = [0, 0, 0, 0, 0, 0, 0]"
  by (simp_all add: eval_nat_numeral)

lemma mixed_radix:
  fixes n :: nat
  assumes "y < n" "y' < n"
  shows "x * n + y = x' * n + y' \<longleftrightarrow> x = x' \<and> y = y'"
proof
  assume e: "x * n + y = x' * n + y'"
  have "(x * n + y) div n = x" "(x * n + y) mod n = y" "(x' * n + y') div n = x'" "(x' * n + y') mod n = y'" using assms by simp_all
  with e show "x = x' \<and> y = y'" by simp
qed simp

lemma denied6_values:
  "map (\<lambda>x. (128 - snd x, map_option (drop_bit (128 - snd x)) (ipv6Value (fst x)))) (global6 @ denied6) =
     [(125, Some 1), (105, Some 1048704), (96, Some 536939960), (112, Some 8194), (108, Some 262128)]"
  by (simp add: global6_def denied6_def ipv6Value_def ipv6Groups_def groupsOf_def groupOf_def hexDigitOf_def drop_bit_eq_div
    replicate_zeros)

lemma list_ex_subnets:
  assumes "map (\<lambda>x. (w - snd x, map_option (drop_bit (w - snd x)) (value (fst x)))) subnets = table"
    "\<And>x. member v x \<longleftrightarrow> (case value (fst x) of Some base \<Rightarrow> drop_bit (w - snd x) v = drop_bit (w - snd x) base | None \<Rightarrow> False)"
  shows "list_ex (member v) subnets \<longleftrightarrow> list_ex (\<lambda>(k, n). n = Some (drop_bit k (v :: nat))) table"
  unfolding assms(1) [symmetric]
  by (induction subnets) (auto simp: assms(2) split: option.splits)

lemma octets_div:
  fixes a b c d :: nat
  assumes "b \<le> 255" "c \<le> 255" "d \<le> 255"
  defines "v \<equiv> ((a * 256 + b) * 256 + c) * 256 + d"
  shows "drop_bit 8 v = (a * 256 + b) * 256 + c" "drop_bit 16 v = a * 256 + b" "drop_bit 17 v = a * 128 + b div 2"
    "drop_bit 20 v = a * 16 + b div 16" "drop_bit 22 v = a * 4 + b div 64" "drop_bit 24 v = a" "drop_bit 28 v = a div 16"
proof -
  show d8: "drop_bit 8 v = (a * 256 + b) * 256 + c" using assms by (simp add: drop_bit_eq_div)
  have add: "drop_bit (8 + k) v = drop_bit k (drop_bit 8 v)" "drop_bit (16 + k) v = drop_bit k (drop_bit 16 v)"
    "drop_bit (24 + k) v = drop_bit k (drop_bit 24 v)" for k by (simp_all add: drop_bit_drop_bit add.commute)
  show d16: "drop_bit 16 v = a * 256 + b" using add(1) [of 8] assms by (simp add: d8) (simp add: drop_bit_eq_div)
  show d24: "drop_bit 24 v = a" using add(2) [of 8] assms by (simp add: d16) (simp add: drop_bit_eq_div)
  have
    mid: "drop_bit 17 v = a * 128 + b div 2" "drop_bit 20 v = a * 16 + b div 16" "drop_bit 22 v = a * 4 + b div 64"
  proof -
    have "drop_bit 17 v = drop_bit 1 (a * 256 + b)" "drop_bit 20 v = drop_bit 4 (a * 256 + b)" "drop_bit 22 v = drop_bit 6 (a * 256 + b)"
      using add(2) [of 1] add(2) [of 4] add(2) [of 6] by (simp_all add: d16)
    then show "drop_bit 17 v = a * 128 + b div 2" "drop_bit 20 v = a * 16 + b div 16" "drop_bit 22 v = a * 4 + b div 64"
      using div_mult_self3 [of 2 "a * 128" b] div_mult_self3 [of 16 "a * 16" b] div_mult_self3 [of 64 "a * 4" b]
      by (simp_all add: drop_bit_eq_div algebra_simps flip: numeral_2_eq_2)
  qed
  show "drop_bit 17 v = a * 128 + b div 2" "drop_bit 20 v = a * 16 + b div 16" "drop_bit 22 v = a * 4 + b div 64"
    by (rule mid)+
  have "drop_bit 28 v = drop_bit 4 a" using add(3) [of 4] by (simp add: d24)
  then show "drop_bit 28 v = a div 16" by (simp add: drop_bit_eq_div)
qed

lemma public4:
  assumes "ipv4Octets s = Some (a, b, c, d)"
  shows "\<not> list_ex (inSubnet4 (((a * 256 + b) * 256 + c) * 256 + d)) denied4 \<longleftrightarrow> publicOctets a b c"
proof -
  note bound = octets_bound [OF assms]
  then have b: "a \<le> 255" "b \<le> 255" "c \<le> 255" "d \<le> 255" by simp_all
  define v where "v = ((a * 256 + b) * 256 + c) * 256 + d"
  have "list_ex (inSubnet4 v) denied4 \<longleftrightarrow>
      a \<in> {0, 10, 127} \<or> a * 4 + b div 64 = 401 \<or> a * 256 + b = 43518 \<or> a * 16 + b div 16 = 2753 \<or>
      (a * 256 + b) * 256 + c \<in> {12582912, 12582914, 12605539, 12989284, 13303921} \<or> a * 256 + b = 49320 \<or>
      a * 128 + b div 2 = 25353 \<or> a div 16 = 14 \<or> a div 16 = 15"
    unfolding list_ex_subnets [OF denied4_values, of inSubnet4, OF inSubnet4_def]
    by (simp add: octets_div [OF b(2-4), of a, folded v_def]) blast
  moreover have "a * 4 + b div 64 = 401 \<longleftrightarrow> a = 100 \<and> 64 \<le> b \<and> b < 128"
    using b mixed_radix [of "b div 64" 4 1 a 100] by auto
  moreover have "a * 256 + b = 43518 \<longleftrightarrow> a = 169 \<and> b = 254" "a * 256 + b = 49320 \<longleftrightarrow> a = 192 \<and> b = 168"
    using b mixed_radix [of b 256 254 a 169] mixed_radix [of b 256 168 a 192] by simp_all
  moreover have "a * 16 + b div 16 = 2753 \<longleftrightarrow> a = 172 \<and> 16 \<le> b \<and> b < 32"
    using b mixed_radix [of "b div 16" 16 1 a 172] by auto
  moreover have "a * 128 + b div 2 = 25353 \<longleftrightarrow> a = 198 \<and> (b = 18 \<or> b = 19)"
    using b mixed_radix [of "b div 2" 128 9 a 198] by auto
  moreover have "a div 16 = 14 \<or> a div 16 = 15 \<longleftrightarrow> \<not> a < 224" using b by auto
  moreover have "(a * 256 + b) * 256 + c = (x * 256 + y) * 256 + z \<longleftrightarrow> a = x \<and> b = y \<and> c = z"
    if "y \<le> 255" "z \<le> 255" for x y z
    using b that mixed_radix [of c 256 z "a * 256 + b" "x * 256 + y"] mixed_radix [of b 256 y a x] by simp
  from this [of 0 0 192] this [of 0 2 192] this [of 88 99 192] this [of 51 100 198] this [of 0 113 203]
  have "(a * 256 + b) * 256 + c \<in> {12582912, 12582914, 12605539, 12989284, 13303921} \<longleftrightarrow>
      a = 192 \<and> b = 0 \<and> (c = 0 \<or> c = 2) \<or> a = 192 \<and> b = 88 \<and> c = 99 \<or> a = 198 \<and> b = 51 \<and> c = 100 \<or>
      a = 203 \<and> b = 0 \<and> c = 113" by auto
  ultimately show ?thesis unfolding publicOctets_def v_def [symmetric] insert_iff empty_iff by argo
qed

lemma public6:
  assumes "ipv6Groups s = Some g"
  shows "\<exists>x y r. g = x # y # r \<and> ((list_ex (inSubnet6 (foldl (\<lambda>a n. a * 65536 + n) 0 g)) global6 \<and>
    \<not> list_ex (inSubnet6 (foldl (\<lambda>a n. a * 65536 + n) 0 g)) denied6) \<longleftrightarrow> publicGroups x y)"
proof -
  from ipv6_bound [OF assms] have "length g = Suc (Suc (Suc (Suc (Suc (Suc (Suc (Suc 0)))))))" by simp
  then obtain x y a b c d e f where eq: "g = [x, y, a, b, c, d, e, f]" unfolding length_Suc_conv length_0_conv by blast
  with ipv6_bound [OF assms] have g: "g = [x, y, a, b, c, d, e, f]" "x < 65536" "y < 65536" "a < 65536"
    "b < 65536" "c < 65536" "d < 65536" "e < 65536" "f < 65536" by simp_all
  define v where "v = foldl (\<lambda>a n. a * 65536 + n) 0 g"
  have v: "v = ((((((((x * 65536 + y) * 65536 + a) * 65536 + b) * 65536 + c) * 65536 + d) * 65536 + e) * 65536 + f))"
    by (simp add: v_def g(1))
  have step: "drop_bit 16 (h * 65536 + l) = h" if "l < 65536" for h l :: nat using that by (simp add: drop_bit_eq_div)
  have "drop_bit 96 v = drop_bit 16 (drop_bit 16 (drop_bit 16 (drop_bit 16 (drop_bit 16 (drop_bit 16 v)))))"
    by (simp add: drop_bit_drop_bit)
  also have "\<dots> = x * 65536 + y" by (simp only: v step g)
  finally have d96: "drop_bit 96 v = x * 65536 + y" .
  have add: "drop_bit (96 + k) v = drop_bit k (x * 65536 + y)" for k
    unfolding d96 [symmetric] drop_bit_drop_bit by (simp add: add.commute)
  have d: "drop_bit 105 v = (x * 65536 + y) div 512" "drop_bit 108 v = (x * 65536 + y) div 4096" "drop_bit 112 v = x"
    "drop_bit 125 v = x div 8192"
    using add [of 9] add [of 12] add [of 16] add [of 29] g(3) div_mult_self3 [of 8192 0 x] div_mult2_eq [of "x * 65536 + y" 65536 8192]
    by (simp_all add: drop_bit_eq_div)
  have "list_ex (inSubnet6 v) global6 \<longleftrightarrow> x div 8192 = 1"
    using list_ex_subnets [of 128 ipv6Value global6 "[(125, Some 1)]" inSubnet6 v] denied6_values
    by (simp add: inSubnet6_def global6_def d) (simp add: eq_commute)
  moreover have "list_ex (inSubnet6 v) denied6 \<longleftrightarrow> (x * 65536 + y) div 512 = 1048704 \<or> x * 65536 + y = 536939960 \<or> x = 8194 \<or>
      (x * 65536 + y) div 4096 = 262128"
    using list_ex_subnets [of 128 ipv6Value denied6 "[(105, Some 1048704), (96, Some 536939960), (112, Some 8194), (108, Some 262128)]"
      inSubnet6 v] denied6_values
    by (auto simp: inSubnet6_def global6_def d d96)
  moreover have "x div 8192 = 1 \<longleftrightarrow> 0x2000 \<le> x \<and> x \<le> 0x3fff" by auto
  moreover have "(x * 65536 + y) div 512 = 1048704 \<longleftrightarrow> x = 0x2001 \<and> y < 0x200"
  proof -
    have "x * 65536 + y = x * 128 * 512 + y" by simp
    then have "(x * 65536 + y) div 512 = x * 128 + y div 512" by simp
    then show ?thesis using g(3) mixed_radix [of "y div 512" 128 0 x "0x2001"] by auto
  qed
  moreover have "x * 65536 + y = 536939960 \<longleftrightarrow> x = 0x2001 \<and> y = 0xdb8" using g(3) mixed_radix [of y 65536 "0xdb8" x "0x2001"] by simp
  moreover have "(x * 65536 + y) div 4096 = 262128 \<longleftrightarrow> x = 0x3fff \<and> y < 0x1000"
  proof -
    have "x * 65536 + y = x * 16 * 4096 + y" by simp
    then have "(x * 65536 + y) div 4096 = x * 16 + y div 4096" by simp
    then show ?thesis using g(3) mixed_radix [of "y div 4096" 16 0 x "0x3fff"] by auto
  qed
  ultimately have "list_ex (inSubnet6 v) global6 \<and> \<not> list_ex (inSubnet6 v) denied6 \<longleftrightarrow> publicGroups x y"
    unfolding publicGroups_def by auto
  then show ?thesis unfolding v_def g(1) by blast
qed

text \<open>
  The address policy in readable form: an address is public exactly if it carries no zone and is
  an IPv4 address outside the private, shared, loopback, link-local, documentation, benchmark, relay,
  multicast and reserved blocks, or an IPv6 address whose first group lies between 2000 and 3fff and
  that is neither special (2001 up to 1ff), documentation (2001:db8, 3fff up to fff) nor 6to4 (2002);
  so no mapped, local or loopback IPv6 address is public.
\<close>

theorem public_address_ranges:
  "sandboxPublicAddress s \<longleftrightarrow> CHR ''%'' \<notin> set s \<and>
     (case ipv4Octets s of
        Some (a, b, c, d) \<Rightarrow> publicOctets a b c
      | None \<Rightarrow> (case ipv6Groups s of Some (g # h # _) \<Rightarrow> publicGroups g h | _ \<Rightarrow> False))"
proof (cases "ipv4Octets s")
  case (Some o4)
  then show ?thesis using public4 [of s] by (cases o4) (simp add: sandboxPublicAddress_def ipv4Value_def)
next
  case None
  then show ?thesis
    using public6 [of s] by (cases "ipv6Groups s") (auto simp: sandboxPublicAddress_def ipv4Value_def ipv6Value_def)
qed

section \<open>Resolved destinations\<close>

lemma acceptAnswers_ok:
  "acceptAnswers publicAddress answers = Inr a \<longleftrightarrow> answers \<noteq> [] \<and> a = hd answers \<and>
     (\<forall>item \<in> set answers. publicAddress (na_address item) \<and> isIP (na_address item) = na_family item)"
  by (auto simp: acceptAnswers_def list_ex_iff)

lemma assertSandboxDestination_ok:
  "assertSandboxDestination lease hostname now = Inr u \<longleftrightarrow>
     ''https://'' @ hostname \<in> set (sl_network lease) \<and> (\<forall>t. dateParse (sl_expiresAt lease) = Some t \<longrightarrow> now < t)"
  by (auto simp: assertSandboxDestination_def not_le split: option.splits)

text \<open>The answers a resolution is decided on: the literal itself, system DNS, or the answer that replaces it.\<close>

inductive answersFor :: "DnsEnv \<Rightarrow> dnsCache \<Rightarrow> string \<Rightarrow> NetAddress list \<Rightarrow> bool"
  for env :: DnsEnv and verified :: dnsCache and hostname :: string where
  literal: "isIP (stripBrackets hostname) \<noteq> 0 \<Longrightarrow>
    answersFor env verified hostname [\<lparr>na_address = stripBrackets hostname, na_family = isIP (stripBrackets hostname)\<rparr>]"
| system: "isIP (stripBrackets hostname) = 0 \<Longrightarrow> de_lookup env (stripBrackets hostname) = Inr answers \<Longrightarrow>
    answers = [] \<or> \<not> list_all synthetic4 answers \<Longrightarrow> answersFor env verified hostname answers"
| replaced: "isIP (stripBrackets hostname) = 0 \<Longrightarrow> de_lookup env (stripBrackets hostname) = Inr answers \<Longrightarrow> answers \<noteq> [] \<Longrightarrow>
    list_all synthetic4 answers \<Longrightarrow>
    publicDns verified (dnsName (stripBrackets hostname)) (de_nowRead env) (de_query env) = (Inr resolved, v) \<Longrightarrow>
    answersFor env verified hostname (da_addresses resolved)"

inductive_cases answersForE: "answersFor env verified hostname answers"

lemma resolvePublicAddress_ok:
  assumes "resolvePublicAddress env verified hostname publicAddress = (Inr a, v)"
  shows "\<exists>answers. answersFor env verified hostname answers \<and> acceptAnswers publicAddress answers = Inr a"
  using assms
  by (auto simp: resolvePublicAddress_def Let_def split: if_split_asm sum.splits prod.splits intro: answersFor.intros)

text \<open>
  (C34) A resolved destination is authorized: the lease is well formed, names exactly this https origin and
  is not expired before and after the resolution; the address is public, is none of this host's own
  addresses and is of the family it claims; and so is every other answer the decision was based on, so
  one private address among the answers refuses them all.
\<close>

theorem destination_authorized:
  assumes "resolveSandboxDestination P env own verified lease hostname before after = (Inr address, verified')"
  shows "validSandboxNetworkLease P lease \<and> ''https://'' @ hostname \<in> set (sl_network lease) \<and>
    (\<forall>t. dateParse (sl_expiresAt lease) = Some t \<longrightarrow> before < t \<and> after < t) \<and>
    (\<exists>answers. answersFor env verified hostname answers \<and> address \<in> set answers \<and>
       (\<forall>item \<in> set answers. sandboxPublicAddress (na_address item) \<and> na_address item \<notin> own \<and>
          isIP (na_address item) = na_family item))"
proof -
  from assms have ok: "validSandboxNetworkLease P lease" "assertSandboxDestination lease hostname before = Inr ()"
    "assertSandboxDestination lease hostname after = Inr ()"
    "resolvePublicAddress env verified hostname (\<lambda>ip. sandboxPublicAddress ip \<and> ip \<notin> own) = (Inr address, verified')"
    by (auto simp: resolveSandboxDestination_def split: if_split_asm sum.splits prod.splits)
  from resolvePublicAddress_ok [OF ok(4)] ok(1-3) show ?thesis
    by (auto simp: acceptAnswers_ok assertSandboxDestination_ok)
qed

section \<open>The DNS cache\<close>

text \<open>Every kept answer is usable, and the cache stays small.\<close>

definition dnsCacheOk :: "dnsCache \<Rightarrow> bool" where
  "dnsCacheOk v \<longleftrightarrow> length v \<le> maximumEntries \<and> distinct (map fst v) \<and> (\<forall>(k, a) \<in> set v. da_addresses a \<noteq> [])"

lemma update_length: "length (AList.update k x v) \<le> length v + (if map_of v k = None then 1 else 0)"
  by (induction v) auto

lemma keepAnswer_ok:
  assumes "dnsCacheOk v" "da_addresses answer \<noteq> []"
  shows "dnsCacheOk (keepAnswer v key answer now)"
proof -
  let ?room = "if map_of v key = None \<and> maximumEntries \<le> length v then tl v else v"
  have v: "length v \<le> maximumEntries" "distinct (map fst v)" "\<forall>(k, a) \<in> set v. da_addresses a \<noteq> []"
    using assms(1) by (simp_all add: dnsCacheOk_def)
  have room: "length ?room + 1 \<le> maximumEntries \<or> map_of ?room key \<noteq> None \<and> length ?room \<le> maximumEntries"
    using v(1) by (auto simp: maximumEntries_def)
  have "length (AList.update key answer ?room) \<le> maximumEntries"
    using update_length [of key answer ?room] room by (auto split: if_split_asm)
  moreover have "distinct (map fst (AList.update key answer ?room))"
    using v(2) by (intro AList.distinct_update) (auto simp: map_tl distinct_tl)
  moreover have "set ?room \<subseteq> set v" by (cases v) auto
  moreover have "set (AList.update key answer xs) \<subseteq> insert (key, answer) (set xs)" for xs
    by (induction xs) auto
  ultimately have "dnsCacheOk (AList.update key answer ?room)"
    using v(3) assms(2) unfolding dnsCacheOk_def by blast
  then show ?thesis using assms(1) by (simp add: keepAnswer_def Let_def)
qed

lemma publicDns_ok:
  assumes "dnsCacheOk verified" "publicDns verified key now query = (r, v)"
  shows "dnsCacheOk v"
  using assms le_trans [OF AList.length_delete_le, of verified maximumEntries key] AList.distinct_delete [of verified key]
  by (auto simp: publicDns_def dnsCacheOk_def AList.delete_eq simp del: length_filter_le split: option.splits if_split_asm)

text \<open>
  The DNS cache stays bounded: whatever names are resolved and whatever the two resolvers answer, the
  cache holds at most 64 names, each once, and only answers with at least one address; and the life of
  an answer decoded from a DNS response ends at most thirty seconds after it came.
\<close>

theorem dns_cache_bounded:
  assumes "dnsCacheOk verified"
  shows "dnsCacheOk (snd (resolveSandboxDestination P env own verified lease hostname before after)) \<and>
    (\<forall>name body now answer. dnsAnswer name body now = Inr answer \<longrightarrow> now \<le> da_expiresAt answer \<and> da_expiresAt answer \<le> now + 30000)"
proof -
  have "dnsCacheOk v" if r: "resolvePublicAddress env verified hostname p = (r, v)" for r v p
    using r assms by (auto simp: resolvePublicAddress_def Let_def acceptAnswers_ok split: if_split_asm sum.splits prod.splits
      intro: keepAnswer_ok publicDns_ok)
  then have "dnsCacheOk (snd (resolveSandboxDestination P env own verified lease hostname before after))"
    using assms by (auto simp: resolveSandboxDestination_def split: sum.splits prod.splits)
  moreover have "0 \<le> fold min (map answerTtl answers) t \<and> fold min (map answerTtl answers) t \<le> t" if "0 \<le> t" for answers t
    using that
  proof (induction answers arbitrary: t)
    case (Cons a answers)
    have "0 \<le> answerTtl a" by (simp add: answerTtl_def split: jsval.splits)
    then show ?case using Cons.IH [of "min (answerTtl a) t"] Cons.prems by auto
  qed simp
  from this [of 30] have "now \<le> da_expiresAt answer \<and> da_expiresAt answer \<le> now + 30000" if "dnsAnswer name body now = Inr answer"
    for name body now answer
    using that by (auto simp: dnsAnswer_def Let_def split: jsval.splits if_split_asm)
  ultimately show ?thesis by blast
qed

section \<open>A concrete destination\<close>

definition sampleLease :: SandboxNetworkLease where
  "sampleLease = \<lparr>sl_organizationId = ''o1'', sl_workspaceId = ''w1'', sl_ownerId = ''u1'', sl_runId = ''r1'',
     sl_operationId = ''p1'', sl_attemptId = ''t1'', sl_target = TargetCloud ''c1'', sl_policyDigest = sampleDigest,
     sl_grantId = ''g1'', sl_grantVersion = 1, sl_network = [''https://api.example.com''], sl_expiresAt = ''2030-01-01T00:00:00.000Z'',
     sl_maximumConnections = 4, sl_maximumBytes = 1048576\<rparr>"

definition sampleDns :: DnsEnv where
  "sampleDns = \<lparr>de_lookup = (\<lambda>_. Inr [\<lparr>na_address = ''93.184.216.34'', na_family = 4\<rparr>]), de_query = (\<lambda>_. Inl addressDenied),
     de_nowRead = 1000, de_nowKeep = 1000\<rparr>"


definition sampleNet :: platform where
  "sampleNet = samplePlatform\<lparr>urlParse := (\<lambda>s. if s = ''https://api.example.com''
     then Some \<lparr>url_protocol = ''https:'', url_origin = s, url_port = [], url_username = [], url_password = [],
       url_hostname = ''api.example.com''\<rparr> else None)\<rparr>"

lemma sampleLease_valid: "validSandboxNetworkLease sampleNet sampleLease"
  by (simp add: validSandboxNetworkLease_def sampleLease_def sampleNet_def samplePlatform_def sampleDigest_def checksumOk_def zPositive_def
    isSafeInteger_def validSandboxNetworkRequest_def SandboxHttpsOrigin_def isLowerAlnum_def isDigitChar_def endsWith_def isHexLower_def)

lemma sample_resolution:
  "resolveSandboxDestination sampleNet sampleDns {''10.0.0.7''} [] sampleLease ''api.example.com'' 1000 2000 =
     (Inr \<lparr>na_address = ''93.184.216.34'', na_family = 4\<rparr>, [])"
proof -
  have "dateParse (sl_expiresAt sampleLease) = Some 1893456000000" by (simp add: sampleLease_def) code_simp
  then have "assertSandboxDestination sampleLease ''api.example.com'' 1000 = Inr ()"
    "assertSandboxDestination sampleLease ''api.example.com'' 2000 = Inr ()"
    by (simp_all add: assertSandboxDestination_def sampleLease_def)
  moreover have "ipv4Octets ''93.184.216.34'' = Some (93, 184, 216, 34)"
    by (simp add: ipv4Octets_def octetOf_def decimal_def isDigitChar_def)
  moreover from this have "sandboxPublicAddress ''93.184.216.34''"
    using public4 [of "''93.184.216.34''"] by (simp add: sandboxPublicAddress_def ipv4Value_def publicOctets_def)
  moreover have "isIP ''api.example.com'' = 0"
    by (simp add: isIP_def ipv4Octets_def octetOf_def isDigitChar_def ipv6Groups_def groupsOf_def groupOf_def hexDigitOf_def)
  moreover have "stripBrackets ''api.example.com'' = ''api.example.com''" by (simp add: stripBrackets_def)
  moreover have "\<not> synthetic4 \<lparr>na_address = ''93.184.216.34'', na_family = 4\<rparr>"
    by (simp add: synthetic4_def ipv4Value_def inSubnet4_def ipv4Octets_def octetOf_def decimal_def isDigitChar_def drop_bit_eq_div)
  ultimately show ?thesis
    using sampleLease_valid
    by (simp add: resolveSandboxDestination_def resolvePublicAddress_def acceptAnswers_def sampleDns_def isIP_def)
qed

theorem destination_authorized_witness:
  "\<exists>address. resolveSandboxDestination sampleNet sampleDns {''10.0.0.7''} [] sampleLease ''api.example.com'' 1000 2000 =
     (Inr address, []) \<and> sandboxPublicAddress (na_address address)"
  using destination_authorized [OF sample_resolution] sample_resolution by blast

theorem dns_cache_bounded_witness:
  "dnsCacheOk [] \<and> dnsCacheOk (snd (resolveSandboxDestination sampleNet sampleDns {} [] sampleLease ''api.example.com'' 1000 2000))"
proof -
  have e: "dnsCacheOk []" by (simp add: dnsCacheOk_def)
  show ?thesis using dns_cache_bounded [OF e] e by blast
qed

end
