(* ===== verification/SandboxSession.thy ===== *)
theory SandboxSession
  imports SandboxNetwork "HOL-Library.Sublist"
begin

text \<open>
  packages/project-runtime/src/sandbox-network-session.ts: the multiplexed connection between a sandbox
  and the networks it may reach.  One transport carries JSON lines; every \<open>open\<close> frame starts a peer with
  its own asynchronous functions \<open>open\<close> and \<open>write\<close>.  The code between two awaits is one step: the
  handlers below, and \<open>pe_pc\<close> says at which await a peer waits.  The order of the steps is free, so the
  step relation interleaves all peers, sockets, timers and authority checks.  \<open>ss_log\<close> records what
  crosses the boundary and is read by no handler.  Shown: limits, authorized egress, and that both
  directions are relayed in order.
\<close>

section \<open>Base64\<close>

definition sextetChar :: "nat \<Rightarrow> char" where
  "sextetChar n = (if n < 26 then char_of (65 + n) else if n < 52 then char_of (71 + n)
     else if n < 62 then char_of (n - 4) else if n = 62 then CHR ''+'' else CHR ''/'')"

definition sextetOf :: "char \<Rightarrow> nat" where
  "sextetOf c = (let n = of_char c :: nat in
     if 65 \<le> n \<and> n \<le> 90 then n - 65 else if 97 \<le> n \<and> n \<le> 122 then n - 71
     else if 48 \<le> n \<and> n \<le> 57 then n + 4 else if n = 43 then 62 else 63)"

fun toBase64 :: "bytes \<Rightarrow> string" where
  "toBase64 (x # y # z # b) = (let n = (unat x * 256 + unat y) * 256 + unat z in
     [sextetChar (n div 262144), sextetChar (n div 4096 mod 64), sextetChar (n div 64 mod 64), sextetChar (n mod 64)] @ toBase64 b)"
| "toBase64 [x, y] = (let n = (unat x * 256 + unat y) * 4 in
     [sextetChar (n div 4096), sextetChar (n div 64 mod 64), sextetChar (n mod 64), CHR ''=''])"
| "toBase64 [x] = (let n = unat x * 16 in [sextetChar (n div 64), sextetChar (n mod 64), CHR ''='', CHR ''=''])"
| "toBase64 [] = []"

text \<open>
  \<open>Buffer.from(s, 'base64')\<close> on the texts that \<open>toString('base64')\<close> gives back; what it makes of other
  texts is never used, because the code compares.
\<close>

fun fromBase64 :: "string \<Rightarrow> bytes" where
  "fromBase64 (a # b # c # d # s) =
     (let n = sextetOf a * 64 + sextetOf b in
      if d = CHR ''='' then
        (if c = CHR ''='' then [word_of_nat (n div 16)]
         else [word_of_nat (n div 16), word_of_nat ((n * 64 + sextetOf c) div 4)])
      else [word_of_nat (n div 16), word_of_nat ((n * 64 + sextetOf c) div 4), word_of_nat ((n * 64 + sextetOf c) * 64 + sextetOf d)]
        @ fromBase64 s)"
| "fromBase64 _ = []"

section \<open>State\<close>

text \<open>The awaits of \<open>open\<close> and \<open>write\<close>; a rejected \<open>write\<close> waits for its catch handler.\<close>

datatype PeerPc =
    At_openCheck | At_openResolve | At_openRecheck | At_rest | At_writeCheck | At_connect | At_socketWrite | At_failed string

record Peer =
  pe_hostname :: string
  pe_address :: "NetAddress option"
  pe_socket :: bool
  pe_hello :: bytes
  pe_busy :: bool
  pe_opening :: bool
  pe_pending :: bytes
  pe_waiting :: bool
  pe_ended :: bool
  pe_pc :: PeerPc

datatype Frame =
    Frame_opened string
  | Frame_data string string
  | Frame_ack string
  | Frame_end string
  | Frame_close string
  | Frame_error string string

text \<open>What crosses: a data frame taken from the sandbox, a connection, bytes written to and read from a socket, a frame sent.\<close>

datatype Crossing =
    Took string bytes
  | Opened string string NetAddress int
  | Wrote string bytes
  | Read string bytes
  | Sent Frame

record Session =
  ss_peers :: "(string \<times> Peer) list"
  ss_seen :: "string list"
  ss_input :: bytes
  ss_bytes :: nat
  ss_sentBytes :: nat
  ss_receivedBytes :: nat
  ss_openedConnections :: nat
  ss_closed :: bool
  ss_closeCode :: "string option"
  ss_checking :: bool
  ss_ready :: bool
  ss_congested :: bool
  ss_log :: "Crossing list"

text \<open>
  What a session is made with: the platform and lease, this host's own addresses, and \<open>JSON.parse\<close> of a
  line (None if it throws).  \<open>ss_congested\<close> says that more than 1048576 bytes wait in the transport.
\<close>

record SessionConfig =
  cf_platform :: platform
  cf_lease :: SandboxNetworkLease
  cf_own :: "string set"
  cf_parse :: "bytes \<Rightarrow> jsval option"

definition startSession :: "SessionConfig \<Rightarrow> int \<Rightarrow> Session result" where
  "startSession C authorityTimeoutMs =
     andThen (need (validSandboxNetworkLease (cf_platform C) (cf_lease C)) ZodError) (\<lambda>_.
     if \<not> isSafeInteger authorityTimeoutMs \<or> authorityTimeoutMs < 1 \<or> 8000 < authorityTimeoutMs
     then Inl (SandboxNetworkError ''SANDBOX_NETWORK_DENIED'')
     else Inr \<lparr>ss_peers = [], ss_seen = [], ss_input = [], ss_bytes = 0, ss_sentBytes = 0, ss_receivedBytes = 0,
       ss_openedConnections = 0, ss_closed = False, ss_closeCode = None, ss_checking = False, ss_ready = False,
       ss_congested = False, ss_log = []\<rparr>)"

section \<open>Closing, sending and dropping\<close>

definition closeSession :: "string option \<Rightarrow> Session \<Rightarrow> Session" where
  "closeSession code s = (if ss_closed s then s else s\<lparr>ss_closed := True, ss_closeCode := code, ss_peers := []\<rparr>)"

definition logged :: "Crossing \<Rightarrow> Session \<Rightarrow> Session" where
  "logged x s = s\<lparr>ss_log := ss_log s @ [x]\<rparr>"

definition sendFrame :: "Frame \<Rightarrow> Session \<Rightarrow> Session" where
  "sendFrame f s =
     (if ss_closed s then s
      else if ss_congested s then closeSession (Some ''SANDBOX_NETWORK_LIMIT'') s
      else logged (Sent f) s)"

definition setPeer :: "string \<Rightarrow> Peer \<Rightarrow> Session \<Rightarrow> Session" where
  "setPeer pid p s = s\<lparr>ss_peers := AList.update pid p (ss_peers s)\<rparr>"

definition forget :: "string \<Rightarrow> Session \<Rightarrow> Session" where
  "forget pid s = s\<lparr>ss_peers := AList.delete pid (ss_peers s)\<rparr>"

definition dropPeer :: "string \<Rightarrow> string option \<Rightarrow> Session \<Rightarrow> Session" where
  "dropPeer pid code s = (case map_of (ss_peers s) pid of
     None \<Rightarrow> s
   | Some _ \<Rightarrow> sendFrame (case code of None \<Rightarrow> Frame_close pid | Some c \<Rightarrow> Frame_error pid c) (forget pid s))"

text \<open>\<open>count\<close>: the caller goes on only if the session is still open.\<close>

definition countBytes :: "SessionConfig \<Rightarrow> nat \<Rightarrow> Session \<Rightarrow> Session" where
  "countBytes C n s = (let s' = s\<lparr>ss_bytes := ss_bytes s + n\<rparr> in
     if sl_maximumBytes (cf_lease C) < int (ss_bytes s') then closeSession (Some ''SANDBOX_NETWORK_LIMIT'') s' else s')"

definition flushPeer :: "string \<Rightarrow> Session \<Rightarrow> Session" where
  "flushPeer pid s = (case map_of (ss_peers s) pid of
     None \<Rightarrow> s
   | Some p \<Rightarrow>
       (if pe_waiting p then s
        else if pe_pending p = [] then (if pe_ended p then sendFrame (Frame_end pid) (forget pid s) else s)
        else sendFrame (Frame_data pid (toBase64 (take 16384 (pe_pending p))))
          (setPeer pid (p\<lparr>pe_pending := drop 16384 (pe_pending p), pe_waiting := True\<rparr>) s)))"

fun openError :: "exn \<Rightarrow> string" where
  "openError (SandboxNetworkError code) = code"
| "openError _ = ''SANDBOX_NETWORK_REVOKED''"

fun writeError :: "exn \<Rightarrow> string" where
  "writeError (SandboxNetworkError code) = code"
| "writeError _ = ''SANDBOX_NETWORK_CONNECT_FAILED''"

section \<open>Frames from the sandbox\<close>

definition newPeer :: "string \<Rightarrow> Peer" where
  "newPeer hostname = \<lparr>pe_hostname = hostname, pe_address = None, pe_socket = False, pe_hello = [], pe_busy = False,
     pe_opening = True, pe_pending = [], pe_waiting = False, pe_ended = False, pe_pc = At_openCheck\<rparr>"

text \<open>An \<open>open\<close> frame, with the beginning of the function \<open>open\<close> up to its first await.\<close>

definition openFrame :: "SessionConfig \<Rightarrow> int \<Rightarrow> string \<Rightarrow> jsval \<Rightarrow> Session \<Rightarrow> Session" where
  "openFrame C now pid value s = (case jget ''hostname'' value of
     JStr hostname \<Rightarrow>
       (if pid \<in> set (ss_seen s) \<or> 10000 \<le> length (ss_seen s) \<or> sl_maximumConnections (cf_lease C) \<le> int (length (ss_peers s))
        then closeSession (Some ''SANDBOX_NETWORK_LIMIT'') s
        else
          let s' = setPeer pid (newPeer hostname) (s\<lparr>ss_seen := ss_seen s @ [pid]\<rparr>) in
          (case assertSandboxDestination (cf_lease C) hostname now of
             Inl e \<Rightarrow> dropPeer pid (Some (openError e)) s'
           | Inr _ \<Rightarrow> s'))
   | _ \<Rightarrow> closeSession (Some ''SANDBOX_NETWORK_LIMIT'') s)"

text \<open>The beginning of \<open>write\<close>: without a socket the bytes join the client hello.\<close>

definition writePeer :: "string \<Rightarrow> Peer \<Rightarrow> bytes \<Rightarrow> Session \<Rightarrow> Session" where
  "writePeer pid p b s =
     (if pe_socket p then
        logged (Wrote pid b) (setPeer pid (p\<lparr>pe_busy := True, pe_pc := At_socketWrite\<rparr>) s)
          \<lparr>ss_sentBytes := ss_sentBytes s + length b\<rparr>
      else
        let hello = pe_hello p @ b in
        (case sandboxTlsClientHello hello (pe_hostname p) of
           Inl e \<Rightarrow> setPeer pid (p\<lparr>pe_hello := hello, pe_busy := True, pe_pc := At_failed (writeError e)\<rparr>) s
         | Inr Hello_pending \<Rightarrow> sendFrame (Frame_ack pid) (setPeer pid (p\<lparr>pe_hello := hello, pe_busy := False\<rparr>) s)
         | Inr Hello_valid \<Rightarrow> setPeer pid (p\<lparr>pe_hello := hello, pe_busy := True, pe_pc := At_writeCheck\<rparr>) s))"

definition dataFrame :: "SessionConfig \<Rightarrow> string \<Rightarrow> Peer \<Rightarrow> jsval \<Rightarrow> Session \<Rightarrow> Session" where
  "dataFrame C pid p value s = (case jget ''data'' value of
     JStr text \<Rightarrow>
       (if jget ''type'' value \<noteq> JStr ''data'' \<or> pe_opening p \<or> pe_busy p \<or> 21848 < length text
        then closeSession (Some ''SANDBOX_NETWORK_PROTOCOL'') s
        else
          let b = fromBase64 text in
          if b = [] \<or> 16384 < length b \<or> toBase64 b \<noteq> text then closeSession (Some ''SANDBOX_NETWORK_PROTOCOL'') s
          else
            let s' = countBytes C (length b) s in
            if ss_closed s' then s' else writePeer pid p b (logged (Took pid b) s'))
   | _ \<Rightarrow> closeSession (Some ''SANDBOX_NETWORK_PROTOCOL'') s)"

text \<open>The pattern \<open>^[1-9]\d{0,4}$\<close>.\<close>

definition frameId :: "string \<Rightarrow> bool" where
  "frameId s \<longleftrightarrow> s \<noteq> [] \<and> length s \<le> 5 \<and> hd s \<noteq> CHR ''0'' \<and> list_all isDigitChar s"

definition handleFrame :: "SessionConfig \<Rightarrow> int \<Rightarrow> jsval \<Rightarrow> Session \<Rightarrow> Session" where
  "handleFrame C now value s =
     (if (case value of JObj _ \<Rightarrow> False | JArr _ \<Rightarrow> False | _ \<Rightarrow> True) then closeSession (Some ''SANDBOX_NETWORK_PROTOCOL'') s
      else if jget ''type'' value = JStr ''ready'' \<and> \<not> ss_ready s \<and> (case value of JObj kvs \<Rightarrow> length kvs = 1 | _ \<Rightarrow> False)
      then s\<lparr>ss_ready := True\<rparr>
      else case jget ''id'' value of
          JStr pid \<Rightarrow>
            (if \<not> ss_ready s \<or> \<not> frameId pid then closeSession (Some ''SANDBOX_NETWORK_PROTOCOL'') s
             else if jget ''type'' value = JStr ''open'' then openFrame C now pid value s
             else case map_of (ss_peers s) pid of
                 None \<Rightarrow> s
               | Some p \<Rightarrow>
                   (if jget ''type'' value = JStr ''close'' then dropPeer pid None s
                    else if jget ''type'' value = JStr ''end'' then s
                    else if jget ''type'' value = JStr ''ack'' \<and> pe_waiting p
                    then flushPeer pid (setPeer pid (p\<lparr>pe_waiting := False\<rparr>) s)
                    else dataFrame C pid p value s))
        | _ \<Rightarrow> closeSession (Some ''SANDBOX_NETWORK_PROTOCOL'') s)"

lemma line_shorter: "10 \<in> set b \<Longrightarrow> length (tl (dropWhile (\<lambda>w. w \<noteq> 10) b)) < length (b :: bytes)"
proof -
  assume "10 \<in> set b"
  then have "dropWhile (\<lambda>w. w \<noteq> 10) b \<noteq> []" by (auto simp: dropWhile_eq_Nil_conv)
  then show ?thesis using length_dropWhile_le [of "\<lambda>w. w \<noteq> 10" b] by (cases "dropWhile (\<lambda>w. w \<noteq> 10) b") auto
qed

text \<open>The loop over the complete lines of the input; the clock is read anew for every line.\<close>

function receiveLines :: "SessionConfig \<Rightarrow> (nat \<Rightarrow> int) \<Rightarrow> bytes \<Rightarrow> Session \<Rightarrow> Session" where
  "receiveLines C clock b s =
     (if 10 \<notin> set b \<or> ss_closed s then s\<lparr>ss_input := b\<rparr>
      else
        let line = takeWhile (\<lambda>w. w \<noteq> 10) b in
        if 50000 < length line then closeSession (Some ''SANDBOX_NETWORK_PROTOCOL'') (s\<lparr>ss_input := b\<rparr>)
        else case cf_parse C line of
            None \<Rightarrow> closeSession (Some ''SANDBOX_NETWORK_PROTOCOL'') (s\<lparr>ss_input := b\<rparr>)
          | Some value \<Rightarrow>
              receiveLines C (\<lambda>k. clock (Suc k)) (tl (dropWhile (\<lambda>w. w \<noteq> 10) b)) (handleFrame C (clock 0) value s))"
  by pat_completeness auto
termination by (relation "measure (\<lambda>(_, _, b, _). length b)") (auto simp: line_shorter simp del: length_tl)

declare receiveLines.simps [simp del]

definition receiveChunk :: "SessionConfig \<Rightarrow> (nat \<Rightarrow> int) \<Rightarrow> bytes \<Rightarrow> Session \<Rightarrow> Session" where
  "receiveChunk C clock chunk s =
     (if ss_closed s then s
      else let b = ss_input s @ chunk in
        if 262144 < length b then closeSession (Some ''SANDBOX_NETWORK_LIMIT'') (s\<lparr>ss_input := b\<rparr>)
        else receiveLines C clock b s)"

section \<open>After an await\<close>

definition openChecked :: "string \<Rightarrow> Peer \<Rightarrow> unit result \<Rightarrow> Session \<Rightarrow> Session" where
  "openChecked pid p authority s = (case authority of
     Inl e \<Rightarrow> dropPeer pid (Some (openError e)) s
   | Inr _ \<Rightarrow> setPeer pid (p\<lparr>pe_pc := At_openResolve\<rparr>) s)"

definition openResolved :: "string \<Rightarrow> Peer \<Rightarrow> NetAddress result \<Rightarrow> Session \<Rightarrow> Session" where
  "openResolved pid p resolved s = (case resolved of
     Inl e \<Rightarrow> dropPeer pid (Some (openError e)) s
   | Inr a \<Rightarrow> setPeer pid (p\<lparr>pe_address := Some a, pe_pc := At_openRecheck\<rparr>) s)"

definition openRechecked :: "SessionConfig \<Rightarrow> int \<Rightarrow> string \<Rightarrow> Peer \<Rightarrow> unit result \<Rightarrow> Session \<Rightarrow> Session" where
  "openRechecked C now pid p authority s =
     (case andThen authority (\<lambda>_. assertSandboxDestination (cf_lease C) (pe_hostname p) now) of
        Inl e \<Rightarrow> dropPeer pid (Some (openError e)) s
      | Inr _ \<Rightarrow> sendFrame (Frame_opened pid) (setPeer pid (p\<lparr>pe_opening := False, pe_pc := At_rest\<rparr>) s))"

definition writeChecked :: "SessionConfig \<Rightarrow> int \<Rightarrow> string \<Rightarrow> Peer \<Rightarrow> unit result \<Rightarrow> Session \<Rightarrow> Session" where
  "writeChecked C now pid p authority s =
     (case andThen authority (\<lambda>_. assertSandboxDestination (cf_lease C) (pe_hostname p) now) of
        Inl e \<Rightarrow> dropPeer pid (Some (writeError e)) s
      | Inr _ \<Rightarrow> (case pe_address p of
            None \<Rightarrow> dropPeer pid (Some (writeError TypeError)) s
          | Some a \<Rightarrow> logged (Opened pid (pe_hostname p) a now)
              (setPeer pid (p\<lparr>pe_socket := True, pe_pc := At_connect\<rparr>) s)\<lparr>ss_openedConnections := ss_openedConnections s + 1\<rparr>))"

definition connected :: "string \<Rightarrow> Peer \<Rightarrow> Session \<Rightarrow> Session" where
  "connected pid p s = logged (Wrote pid (pe_hello p)) (setPeer pid (p\<lparr>pe_hello := [], pe_pc := At_socketWrite\<rparr>) s)
     \<lparr>ss_sentBytes := ss_sentBytes s + length (pe_hello p)\<rparr>"

definition socketWritten :: "string \<Rightarrow> Peer \<Rightarrow> unit result \<Rightarrow> Session \<Rightarrow> Session" where
  "socketWritten pid p outcome s = (case outcome of
     Inl e \<Rightarrow> dropPeer pid (Some (writeError e)) s
   | Inr _ \<Rightarrow> sendFrame (Frame_ack pid) (setPeer pid (p\<lparr>pe_busy := False, pe_pc := At_rest\<rparr>) s))"

section \<open>Sockets and timers\<close>

definition socketData :: "SessionConfig \<Rightarrow> string \<Rightarrow> Peer \<Rightarrow> bytes \<Rightarrow> Session \<Rightarrow> Session" where
  "socketData C pid p b s =
     (if pe_pending p \<noteq> [] \<or> pe_waiting p \<or> 65536 < length b then closeSession (Some ''SANDBOX_NETWORK_LIMIT'') s
      else
        let s' = countBytes C (length b) s in
        if ss_closed s' then s'
        else flushPeer pid (logged (Read pid b) (setPeer pid (p\<lparr>pe_pending := b\<rparr>) s')
          \<lparr>ss_receivedBytes := ss_receivedBytes s + length b\<rparr>))"

definition socketEnd :: "string \<Rightarrow> Peer \<Rightarrow> Session \<Rightarrow> Session" where
  "socketEnd pid p s = flushPeer pid (setPeer pid (p\<lparr>pe_ended := True\<rparr>) s)"

definition socketClosed :: "string \<Rightarrow> Peer \<Rightarrow> Session \<Rightarrow> Session" where
  "socketClosed pid p s =
     (if \<not> pe_ended p then dropPeer pid None s
      else if pe_pc p = At_connect then dropPeer pid (Some ''SANDBOX_NETWORK_UNAVAILABLE'') s else s)"

definition timerTick :: "SessionConfig \<Rightarrow> int \<Rightarrow> int \<Rightarrow> Session \<Rightarrow> Session" where
  "timerTick C started now s =
     (if (case dateParse (sl_expiresAt (cf_lease C)) of Some t \<Rightarrow> t \<le> now | None \<Rightarrow> False)
      then closeSession (Some ''SANDBOX_NETWORK_REVOKED'') s
      else if \<not> ss_ready s \<and> 5000 < now - started then closeSession (Some ''SANDBOX_NETWORK_UNAVAILABLE'') s
      else if ss_checking s \<or> ss_closed s then s else s\<lparr>ss_checking := True\<rparr>)"

definition authorityChecked :: "unit result \<Rightarrow> Session \<Rightarrow> Session" where
  "authorityChecked authority s =
     (case authority of Inl e \<Rightarrow> closeSession (Some ''SANDBOX_NETWORK_REVOKED'') s | Inr _ \<Rightarrow> s)\<lparr>ss_checking := False\<rparr>"

section \<open>Steps\<close>

definition waits :: "Session \<Rightarrow> string \<Rightarrow> Peer \<Rightarrow> bool" where
  "waits s pid p \<longleftrightarrow> \<not> ss_closed s \<and> map_of (ss_peers s) pid = Some p"

text \<open>
  The session as its environment sees it.  A peer that was dropped has no step: its functions only test
  that it is gone, and its socket is destroyed.
\<close>

inductive sessionStep :: "SessionConfig \<Rightarrow> Session \<Rightarrow> Session \<Rightarrow> bool" for C :: SessionConfig where
  chunk: "\<not> ss_closed s \<Longrightarrow> sessionStep C s (receiveChunk C clock b s)"
| open_checked: "waits s pid p \<Longrightarrow> pe_pc p = At_openCheck \<Longrightarrow> sessionStep C s (openChecked pid p authority s)"
| resolved: "waits s pid p \<Longrightarrow> pe_pc p = At_openResolve \<Longrightarrow>
    r = fst (resolveSandboxDestination (cf_platform C) env (cf_own C) cache (cf_lease C) (pe_hostname p) before after) \<Longrightarrow>
    sessionStep C s (openResolved pid p r s)"
| rechecked: "waits s pid p \<Longrightarrow> pe_pc p = At_openRecheck \<Longrightarrow> sessionStep C s (openRechecked C now pid p authority s)"
| checked: "waits s pid p \<Longrightarrow> pe_pc p = At_writeCheck \<Longrightarrow> sessionStep C s (writeChecked C now pid p authority s)"
| connect: "waits s pid p \<Longrightarrow> pe_pc p = At_connect \<Longrightarrow> sessionStep C s (connected pid p s)"
| timeout: "waits s pid p \<Longrightarrow> pe_pc p = At_connect \<Longrightarrow>
    sessionStep C s (dropPeer pid (Some ''SANDBOX_NETWORK_CONNECT_TIMEOUT'') s)"
| wrote: "waits s pid p \<Longrightarrow> pe_pc p = At_socketWrite \<Longrightarrow> sessionStep C s (socketWritten pid p outcome s)"
| failed: "waits s pid p \<Longrightarrow> pe_pc p = At_failed code \<Longrightarrow> sessionStep C s (dropPeer pid (Some code) s)"
| sock_data: "waits s pid p \<Longrightarrow> pe_socket p \<Longrightarrow> sessionStep C s (socketData C pid p b s)"
| sock_end: "waits s pid p \<Longrightarrow> pe_socket p \<Longrightarrow> sessionStep C s (socketEnd pid p s)"
| sock_close: "waits s pid p \<Longrightarrow> pe_socket p \<Longrightarrow> sessionStep C s (socketClosed pid p s)"
| sock_error: "waits s pid p \<Longrightarrow> pe_socket p \<Longrightarrow>
    sessionStep C s (dropPeer pid (Some ''SANDBOX_NETWORK_CONNECT_FAILED'') s)"
| tick: "sessionStep C s (timerTick C started now s)"
| authority: "ss_checking s \<Longrightarrow> sessionStep C s (authorityChecked authority s)"
| authority_timeout: "ss_checking s \<Longrightarrow> sessionStep C s (closeSession (Some ''SANDBOX_NETWORK_REVOKED'') s)"
| transport_lost: "sessionStep C s (closeSession (Some ''SANDBOX_NETWORK_UNAVAILABLE'') s)"
| owner_closes: "sessionStep C s (closeSession code s)"
| transport_backlog: "sessionStep C s (s\<lparr>ss_congested := b\<rparr>)"

inductive reachable :: "SessionConfig \<Rightarrow> Session \<Rightarrow> bool" for C :: SessionConfig where
  start: "startSession C authorityTimeoutMs = Inr s \<Longrightarrow> reachable C s"
| step: "reachable C s \<Longrightarrow> sessionStep C s s' \<Longrightarrow> reachable C s'"

section \<open>What crossed for a peer\<close>

definition took :: "string \<Rightarrow> Crossing list \<Rightarrow> bytes" where
  "took pid log = concat (map (\<lambda>x. case x of Took i b \<Rightarrow> if i = pid then b else [] | _ \<Rightarrow> []) log)"

definition wroteParts :: "string \<Rightarrow> Crossing list \<Rightarrow> bytes list" where
  "wroteParts pid log = concat (map (\<lambda>x. case x of Wrote i b \<Rightarrow> if i = pid then [b] else [] | _ \<Rightarrow> []) log)"

definition readFrom :: "string \<Rightarrow> Crossing list \<Rightarrow> bytes" where
  "readFrom pid log = concat (map (\<lambda>x. case x of Read i b \<Rightarrow> if i = pid then b else [] | _ \<Rightarrow> []) log)"

definition relayed :: "string \<Rightarrow> Crossing list \<Rightarrow> bytes" where
  "relayed pid log = concat (map (\<lambda>x. case x of
     Sent (Frame_data i t) \<Rightarrow> if i = pid then fromBase64 t else [] | _ \<Rightarrow> []) log)"

definition ended :: "string \<Rightarrow> Crossing list \<Rightarrow> bool" where
  "ended pid log \<longleftrightarrow> Sent (Frame_end pid) \<in> set log"

lemmas stream_defs = took_def wroteParts_def readFrom_def relayed_def ended_def

lemma stream_append [simp]:
  "took pid (l @ m) = took pid l @ took pid m" "wroteParts pid (l @ m) = wroteParts pid l @ wroteParts pid m"
  "readFrom pid (l @ m) = readFrom pid l @ readFrom pid m" "relayed pid (l @ m) = relayed pid l @ relayed pid m"
  "ended pid (l @ m) \<longleftrightarrow> ended pid l \<or> ended pid m"
  by (simp_all add: stream_defs)

lemma stream_Nil [simp]: "took pid [] = []" "wroteParts pid [] = []" "readFrom pid [] = []" "relayed pid [] = []" "\<not> ended pid []"
  by (simp_all add: stream_defs)

fun frameSubject :: "Frame \<Rightarrow> string" where
  "frameSubject (Frame_opened i) = i"
| "frameSubject (Frame_data i _) = i"
| "frameSubject (Frame_ack i) = i"
| "frameSubject (Frame_end i) = i"
| "frameSubject (Frame_close i) = i"
| "frameSubject (Frame_error i _) = i"

fun subject :: "Crossing \<Rightarrow> string" where
  "subject (Took i _) = i"
| "subject (Opened i _ _ _) = i"
| "subject (Wrote i _) = i"
| "subject (Read i _) = i"
| "subject (Sent f) = frameSubject f"

text \<open>What crosses for one peer is nothing to another.\<close>

lemma stream_other:
  assumes "\<forall>x \<in> set m. subject x = i" "i \<noteq> pid"
  shows "took pid m = []" "wroteParts pid m = []" "readFrom pid m = []" "relayed pid m = []" "\<not> ended pid m"
  using assms by (auto simp: stream_defs split: Crossing.split Frame.split)

section \<open>The invariant\<close>

definition addressOk :: "SessionConfig \<Rightarrow> NetAddress \<Rightarrow> bool" where
  "addressOk C a \<longleftrightarrow> sandboxPublicAddress (na_address a) \<and> na_address a \<notin> cf_own C"

fun crossingOk :: "SessionConfig \<Rightarrow> Crossing \<Rightarrow> bool" where
  "crossingOk C (Opened pid hostname a now) = (addressOk C a \<and> ''https://'' @ hostname \<in> set (sl_network (cf_lease C)) \<and>
     (\<forall>t. dateParse (sl_expiresAt (cf_lease C)) = Some t \<longrightarrow> now < t))"
| "crossingOk C _ = True"

definition streamOk :: "Crossing list \<Rightarrow> string \<Rightarrow> bool" where
  "streamOk log pid \<longleftrightarrow> prefix (concat (wroteParts pid log)) (took pid log) \<and> prefix (relayed pid log) (readFrom pid log) \<and>
     (ended pid log \<longrightarrow> relayed pid log = readFrom pid log) \<and>
     (wroteParts pid log \<noteq> [] \<longrightarrow> (\<exists>hostname a now. Opened pid hostname a now \<in> set log \<and>
        sandboxTlsClientHello (hd (wroteParts pid log)) hostname = Inr Hello_valid))"

definition peerOk :: "SessionConfig \<Rightarrow> Crossing list \<Rightarrow> string \<Rightarrow> Peer \<Rightarrow> bool" where
  "peerOk C log pid p \<longleftrightarrow> concat (wroteParts pid log) @ pe_hello p = took pid log \<and>
     relayed pid log @ pe_pending p = readFrom pid log \<and> \<not> ended pid log \<and>
     (\<forall>a. pe_address p = Some a \<longrightarrow> addressOk C a) \<and>
     (pe_pc p = At_writeCheck \<longrightarrow> \<not> pe_socket p \<and> pe_busy p) \<and> (pe_pc p = At_connect \<longrightarrow> pe_socket p \<and> pe_busy p) \<and>
     (pe_pc p = At_writeCheck \<or> pe_pc p = At_connect \<longrightarrow> sandboxTlsClientHello (pe_hello p) (pe_hostname p) = Inr Hello_valid) \<and>
     (pe_pc p = At_connect \<longrightarrow> (\<exists>a now. Opened pid (pe_hostname p) a now \<in> set log)) \<and>
     (if pe_socket p \<and> pe_pc p \<noteq> At_connect then wroteParts pid log \<noteq> [] \<and> pe_hello p = [] else wroteParts pid log = [])"

definition helloBytes :: "(string \<times> Peer) list \<Rightarrow> nat" where
  "helloBytes ps = sum_list (map (\<lambda>x. length (pe_hello (snd x))) ps)"

definition countersOk :: "SessionConfig \<Rightarrow> Session \<Rightarrow> bool" where
  "countersOk C s \<longleftrightarrow> ss_sentBytes s + ss_receivedBytes s + helloBytes (ss_peers s) \<le> ss_bytes s \<and>
     int (ss_sentBytes s + ss_receivedBytes s) \<le> sl_maximumBytes (cf_lease C) \<and>
     (\<not> ss_closed s \<longrightarrow> int (ss_bytes s) \<le> sl_maximumBytes (cf_lease C))"

definition keysOk :: "SessionConfig \<Rightarrow> Session \<Rightarrow> bool" where
  "keysOk C s \<longleftrightarrow> distinct (map fst (ss_peers s)) \<and> fst ` set (ss_peers s) \<subseteq> set (ss_seen s) \<and> distinct (ss_seen s) \<and>
     length (ss_seen s) \<le> 10000 \<and> int (length (ss_peers s)) \<le> sl_maximumConnections (cf_lease C) \<and>
     (ss_closed s \<longrightarrow> ss_peers s = [])"

definition sessionOk :: "SessionConfig \<Rightarrow> Session \<Rightarrow> bool" where
  "sessionOk C s \<longleftrightarrow> keysOk C s \<and> countersOk C s \<and> (\<forall>x \<in> set (ss_log s). crossingOk C x \<and> subject x \<in> set (ss_seen s)) \<and>
     (\<forall>pid. streamOk (ss_log s) pid) \<and> (\<forall>(pid, p) \<in> set (ss_peers s). peerOk C (ss_log s) pid p)"

lemma streamOk_fresh: "\<forall>x \<in> set log. subject x \<noteq> pid \<Longrightarrow> streamOk log pid"
  and peerOk_fresh: "\<forall>x \<in> set log. subject x \<noteq> pid \<Longrightarrow> peerOk C log pid (newPeer hostname)"
proof -
  assume "\<forall>x \<in> set log. subject x \<noteq> pid"
  then have "took pid log = []" "wroteParts pid log = []" "readFrom pid log = []" "relayed pid log = []" "\<not> ended pid log"
    by (auto simp: stream_defs split: Crossing.split Frame.split)
  then show "streamOk log pid" "peerOk C log pid (newPeer hostname)"
    by (simp_all add: streamOk_def peerOk_def newPeer_def)
qed

lemma streamOk_other: "\<forall>x \<in> set m. subject x = i \<Longrightarrow> i \<noteq> pid \<Longrightarrow> streamOk log pid \<Longrightarrow> streamOk (log @ m) pid"
  and peerOk_other: "\<forall>x \<in> set m. subject x = i \<Longrightarrow> i \<noteq> pid \<Longrightarrow> peerOk C log pid p \<Longrightarrow> peerOk C (log @ m) pid p"
proof -
  assume m: "\<forall>x \<in> set m. subject x = i" "i \<noteq> pid"
  have e: "took pid (log @ m) = took pid log" "wroteParts pid (log @ m) = wroteParts pid log"
    "readFrom pid (log @ m) = readFrom pid log" "relayed pid (log @ m) = relayed pid log" "ended pid (log @ m) = ended pid log"
    by (simp_all add: stream_other [OF m])
  show "streamOk (log @ m) pid" if "streamOk log pid" using that unfolding streamOk_def e set_append by blast
  show "peerOk C (log @ m) pid p" if "peerOk C log pid p" using that unfolding peerOk_def e set_append by blast
qed

lemma helloBytes_update:
  "map_of ps pid = Some p \<Longrightarrow> distinct (map fst ps) \<Longrightarrow>
     helloBytes (AList.update pid p' ps) + length (pe_hello p) = helloBytes ps + length (pe_hello p')"
  by (induction ps) (auto simp: helloBytes_def split: if_split_asm)

lemma helloBytes_new: "map_of ps pid = None \<Longrightarrow> helloBytes (AList.update pid p ps) = helloBytes ps + length (pe_hello p)"
  by (induction ps) (auto simp: helloBytes_def split: if_split_asm)

lemma helloBytes_delete: "helloBytes (AList.delete pid ps) \<le> helloBytes ps"
  by (induction ps) (auto simp: helloBytes_def)

lemma update_same_keys: "map_of ps pid = Some p \<Longrightarrow> map fst (AList.update pid p' ps) = map fst ps"
  by (induction ps) (auto split: if_split_asm)

lemma update_members: "distinct (map fst ps) \<Longrightarrow> (i, q) \<in> set (AList.update pid p ps) \<longleftrightarrow> (if i = pid then q = p else (i, q) \<in> set ps)"
  by (induction ps) (auto simp: rev_image_eqI)

text \<open>A peer moves on: it changes, something may cross for it, and the counters keep their balance.\<close>

lemma ok_advance:
  assumes "sessionOk C s" "map_of (ss_peers s) pid = Some p"
    and s': "ss_peers s' = AList.update pid p' (ss_peers s)" "ss_log s' = ss_log s @ m" "ss_seen s' = ss_seen s" "\<not> ss_closed s'"
    and m: "\<forall>x \<in> set m. subject x = pid \<and> crossingOk C x"
    and "peerOk C (ss_log s') pid p'" "streamOk (ss_log s') pid"
    and "ss_sentBytes s' + ss_receivedBytes s' + length (pe_hello p') + ss_bytes s \<le>
      ss_sentBytes s + ss_receivedBytes s + length (pe_hello p) + ss_bytes s'"
    and "int (ss_bytes s') \<le> sl_maximumBytes (cf_lease C)"
  shows "sessionOk C s'"
proof -
  have ok: "keysOk C s" "countersOk C s" "\<And>i q. (i, q) \<in> set (ss_peers s) \<Longrightarrow> peerOk C (ss_log s) i q"
    "\<And>i. streamOk (ss_log s) i" "\<And>x. x \<in> set (ss_log s) \<Longrightarrow> crossingOk C x \<and> subject x \<in> set (ss_seen s)"
    using assms(1) unfolding sessionOk_def by blast+
  then have d: "distinct (map fst (ss_peers s))" by (simp add: keysOk_def)
  have len: "length (ss_peers s') = length (ss_peers s)"
    using arg_cong [OF update_same_keys [OF assms(2), of p'], of length] s'(1) by simp
  have keys: "map fst (ss_peers s') = map fst (ss_peers s)" using update_same_keys [OF assms(2)] s'(1) by simp
  then have "keysOk C s'" using ok(1) s'(3,4) len unfolding keysOk_def by (metis list.set_map)
  moreover have "countersOk C s'"
    using ok(2) helloBytes_update [OF assms(2) d, of p'] assms(10,11) s'(1) unfolding countersOk_def by simp
  moreover have "pid \<in> set (ss_seen s)" using ok(1) map_of_SomeD [OF assms(2)] by (force simp: keysOk_def)
  moreover have "streamOk (ss_log s') i" for i
    using assms(9) streamOk_other [of m pid i] m ok(4) s'(2) by (cases "i = pid") auto
  moreover have "peerOk C (ss_log s') i q" if "(i, q) \<in> set (ss_peers s')" for i q
    using that assms(8) peerOk_other [of m pid i] m ok(3) s'(1,2) by (cases "i = pid") (auto simp: update_members [OF d])
  ultimately show ?thesis using ok(5) m s'(2,3) unfolding sessionOk_def by auto
qed

text \<open>Peers leave, one or all of them.\<close>

lemma ok_leave:
  assumes "sessionOk C s" "set (ss_peers s') \<subseteq> set (ss_peers s)" "distinct (map fst (ss_peers s'))"
    "length (ss_peers s') \<le> length (ss_peers s)" "helloBytes (ss_peers s') \<le> helloBytes (ss_peers s)"
    "ss_closed s' \<longrightarrow> ss_peers s' = []" "ss_closed s \<longrightarrow> ss_closed s'"
    "ss_log s' = ss_log s" "ss_seen s' = ss_seen s" "ss_sentBytes s' = ss_sentBytes s" "ss_receivedBytes s' = ss_receivedBytes s"
    "ss_bytes s \<le> ss_bytes s'" "\<not> ss_closed s' \<longrightarrow> int (ss_bytes s') \<le> sl_maximumBytes (cf_lease C)"
  shows "sessionOk C s'"
  using assms unfolding sessionOk_def keysOk_def countersOk_def by (auto 4 3)

section \<open>Every operation keeps the invariant\<close>

lemma close_fields [simp]:
  "ss_log (closeSession c s) = ss_log s" "ss_seen (closeSession c s) = ss_seen s" "ss_bytes (closeSession c s) = ss_bytes s"
  "ss_sentBytes (closeSession c s) = ss_sentBytes s" "ss_receivedBytes (closeSession c s) = ss_receivedBytes s"
  "ss_closed (closeSession c s)" "ss_input (closeSession c s) = ss_input s"
  by (simp_all add: closeSession_def)

lemma logged_fields [simp]:
  "ss_peers (logged x s) = ss_peers s" "ss_log (logged x s) = ss_log s @ [x]" "ss_seen (logged x s) = ss_seen s"
  "ss_bytes (logged x s) = ss_bytes s" "ss_sentBytes (logged x s) = ss_sentBytes s"
  "ss_receivedBytes (logged x s) = ss_receivedBytes s" "ss_closed (logged x s) = ss_closed s"
  by (simp_all add: logged_def)

lemma setPeer_fields [simp]:
  "ss_peers (setPeer pid p s) = AList.update pid p (ss_peers s)" "ss_log (setPeer pid p s) = ss_log s" "ss_seen (setPeer pid p s) = ss_seen s"
  "ss_bytes (setPeer pid p s) = ss_bytes s" "ss_sentBytes (setPeer pid p s) = ss_sentBytes s"
  "ss_receivedBytes (setPeer pid p s) = ss_receivedBytes s" "ss_closed (setPeer pid p s) = ss_closed s"
  "ss_congested (setPeer pid p s) = ss_congested s"
  by (simp_all add: setPeer_def)

lemma forget_fields [simp]:
  "ss_peers (forget pid s) = AList.delete pid (ss_peers s)" "ss_log (forget pid s) = ss_log s" "ss_seen (forget pid s) = ss_seen s"
  "ss_bytes (forget pid s) = ss_bytes s" "ss_sentBytes (forget pid s) = ss_sentBytes s"
  "ss_receivedBytes (forget pid s) = ss_receivedBytes s" "ss_closed (forget pid s) = ss_closed s"
  "ss_congested (forget pid s) = ss_congested s"
  by (simp_all add: forget_def)

lemma ok_seen: "sessionOk C s \<Longrightarrow> map_of (ss_peers s) pid = Some p \<Longrightarrow> pid \<in> set (ss_seen s)"
  by (force simp: sessionOk_def keysOk_def dest: map_of_SomeD)

lemma ok_peer: "sessionOk C s \<Longrightarrow> map_of (ss_peers s) pid = Some p \<Longrightarrow> peerOk C (ss_log s) pid p"
  by (force simp: sessionOk_def dest: map_of_SomeD)

lemma ok_stream: "sessionOk C s \<Longrightarrow> streamOk (ss_log s) pid"
  by (simp add: sessionOk_def)

lemma ok_bytes: "sessionOk C s \<Longrightarrow> \<not> ss_closed s \<Longrightarrow> int (ss_bytes s) \<le> sl_maximumBytes (cf_lease C)"
  by (simp add: sessionOk_def countersOk_def)

lemma ok_close: "sessionOk C s \<Longrightarrow> sessionOk C (closeSession c s)"
  by (cases "ss_closed s") (auto simp: closeSession_def helloBytes_def intro!: ok_leave [of C s])

lemma ok_basic:
  assumes "sessionOk C s"
  shows "distinct (map fst (ss_peers s))" "ss_closed s \<longrightarrow> ss_peers s = []"
    "\<not> ss_closed s \<longrightarrow> int (ss_bytes s) \<le> sl_maximumBytes (cf_lease C)"
  using assms by (simp_all add: sessionOk_def keysOk_def countersOk_def)

lemma ok_forget: "sessionOk C s \<Longrightarrow> sessionOk C (forget pid s)"
proof -
  assume ok: "sessionOk C s"
  have "set (AList.delete pid (ss_peers s)) \<subseteq> set (ss_peers s)" by (auto simp: AList.delete_eq)
  with ok_basic [OF ok] show ?thesis
    using helloBytes_delete [of pid "ss_peers s"] AList.length_delete_le [of pid "ss_peers s"] AList.distinct_delete [of "ss_peers s" pid]
    by (intro ok_leave [OF ok]) simp_all
qed

lemma ok_count: "sessionOk C s \<Longrightarrow> \<not> ss_closed s \<Longrightarrow> sessionOk C (countBytes C n s)"
  by (auto simp: countBytes_def Let_def closeSession_def helloBytes_def intro!: ok_leave [of C s])
    (auto simp: sessionOk_def keysOk_def)

definition neutral :: "Frame \<Rightarrow> bool" where
  "neutral f \<longleftrightarrow> (case f of Frame_data _ _ \<Rightarrow> False | Frame_end _ \<Rightarrow> False | _ \<Rightarrow> True)"

lemma neutral_simps [simp]:
  "neutral (Frame_opened i)" "neutral (Frame_ack i)" "neutral (Frame_close i)" "neutral (Frame_error i c)"
  by (simp_all add: neutral_def)

lemma stream_neutral:
  assumes "neutral f"
  shows "took pid [Sent f] = []" "wroteParts pid [Sent f] = []" "readFrom pid [Sent f] = []" "relayed pid [Sent f] = []"
    "\<not> ended pid [Sent f]"
  using assms by (auto simp: stream_defs neutral_def split: Frame.splits)

lemma ok_send: "sessionOk C s \<Longrightarrow> neutral f \<Longrightarrow> frameSubject f \<in> set (ss_seen s) \<Longrightarrow> sessionOk C (sendFrame f s)"
proof -
  assume a: "sessionOk C s" "neutral f" "frameSubject f \<in> set (ss_seen s)"
  have "streamOk (ss_log s @ [Sent f]) pid = streamOk (ss_log s) pid" "peerOk C (ss_log s @ [Sent f]) pid p = peerOk C (ss_log s) pid p" for pid p
    by (simp_all add: streamOk_def peerOk_def stream_neutral [OF a(2)])
  with a show ?thesis
    by (auto simp: sendFrame_def ok_close) (auto simp: sessionOk_def keysOk_def countersOk_def)
qed

lemma ok_drop: "sessionOk C s \<Longrightarrow> sessionOk C (dropPeer pid code s)"
  by (auto simp: dropPeer_def intro!: ok_send ok_forget dest: ok_seen split: option.split)

lemma ok_set:
  assumes "sessionOk C s" "waits s pid p" "peerOk C (ss_log s) pid p'" "pe_hello p' = pe_hello p"
  shows "sessionOk C (setPeer pid p' s)"
proof -
  have "map_of (ss_peers s) pid = Some p" "\<not> ss_closed s" using assms(2) by (simp_all add: waits_def)
  then show ?thesis
    using ok_stream [OF assms(1)] ok_bytes [OF assms(1)] assms(3,4)
    by (intro ok_advance [OF assms(1), of pid p _ p' "[]"]) simp_all
qed

section \<open>Base64 round trip\<close>

lemma sextet: "n < 64 \<Longrightarrow> sextetOf (sextetChar n) = n \<and> sextetChar n \<noteq> CHR ''=''"
proof -
  assume n: "n < 64"
  define k where "k = (if n < 26 then 65 + n else if n < 52 then 71 + n else if n < 62 then n - 4 else if n = 62 then 43 else 47)"
  have c: "(of_char (sextetChar n) :: nat) = k" using n by (simp add: sextetChar_def k_def of_char_of)
  have "k \<noteq> 61" using n by (auto simp: k_def)
  then have "sextetChar n \<noteq> CHR ''=''" using c by auto
  moreover have "sextetOf (sextetChar n) = n" unfolding sextetOf_def c Let_def using n by (auto simp: k_def)
  ultimately show ?thesis by simp
qed

lemma byte_mod: "word_of_nat (n :: nat) = (word_of_nat (n mod 256) :: 8 word)"
  by (simp add: word_unat_eq_iff unat_of_nat take_bit_eq_mod)

lemma byte_again [simp]: "word_of_nat (unat x) = (x :: 8 word)"
  by (simp add: word_unat_eq_iff unat_of_nat take_bit_eq_mod byte_bound)

lemma base64_roundtrip: "fromBase64 (toBase64 b) = b"
proof (induction b rule: toBase64.induct)
  case (1 x y z b)
  define m where "m = unat x * 256 + unat y"
  define n where "n = m * 256 + unat z"
  have m: "m div 256 = unat x" "word_of_nat m = y" "m < 65536"
    using byte_bound [of x] byte_bound [of y] byte_mod [of m] by (simp_all add: m_def)
  have n: "n div 256 = m" "word_of_nat n = z" "n < 16777216"
    using byte_bound [of z] byte_mod [of n] m(3) by (simp_all add: n_def)
  have sum: "n div 262144 * 64 + n div 4096 mod 64 = n div 4096" "n div 4096 * 64 + n div 64 mod 64 = n div 64" "n div 64 * 64 + n mod 64 = n"
    using div_mult_mod_eq [of "n div 4096" 64] div_mult_mod_eq [of "n div 64" 64] by (simp_all flip: div_mult2_eq)
  have byte: "n div 4096 div 16 = unat x" "n div 64 div 4 = m" using m(1) n(1) by (simp_all flip: div_mult2_eq)
  have t: "toBase64 (x # y # z # b) = sextetChar (n div 262144) # sextetChar (n div 4096 mod 64) # sextetChar (n div 64 mod 64) #
      sextetChar (n mod 64) # toBase64 b" by (simp add: n_def m_def Let_def)
  have "n div 262144 < 64" using n(3) by simp
  then have e: "sextetOf (sextetChar (n div 262144)) = n div 262144" "sextetOf (sextetChar (n div 4096 mod 64)) = n div 4096 mod 64"
    "sextetOf (sextetChar (n div 64 mod 64)) = n div 64 mod 64" "sextetOf (sextetChar (n mod 64)) = n mod 64"
    "(sextetChar (n mod 64) = CHR ''='') = False" using sextet by auto
  show ?case
    unfolding t fromBase64.simps Let_def e sum byte m(2) n(2) if_False append.simps byte_again using 1 by simp
next
  case (2 x y)
  define m where "m = unat x * 256 + unat y"
  have m: "m div 256 = unat x" "word_of_nat m = y" "m < 65536"
    using byte_bound [of x] byte_bound [of y] byte_mod [of m] by (simp_all add: m_def)
  define n where "n = m * 4"
  have sum: "n div 4096 * 64 + n div 64 mod 64 = n div 64" "n div 64 * 64 + n mod 64 = n"
    using div_mult_mod_eq [of "n div 64" 64] by (simp_all flip: div_mult2_eq)
  have byte: "n div 64 div 16 = unat x" "n div 4 = m"
    using m(1) div_mult2_eq [of n 4 256] by (simp_all add: n_def flip: div_mult2_eq)
  have "n div 4096 < 64" using m(3) by (simp add: n_def)
  then have e: "sextetOf (sextetChar (n div 4096)) = n div 4096" "sextetOf (sextetChar (n div 64 mod 64)) = n div 64 mod 64"
    "sextetOf (sextetChar (n mod 64)) = n mod 64" "(sextetChar (n mod 64) = CHR ''='') = False" using sextet by auto
  have t: "toBase64 [x, y] = [sextetChar (n div 4096), sextetChar (n div 64 mod 64), sextetChar (n mod 64), CHR ''='']"
    by (simp add: n_def m_def Let_def)
  show ?case unfolding t fromBase64.simps Let_def e sum byte m(2) byte_again by (simp add: e)
next
  case (3 x)
  define n where "n = unat x * 16"
  have n: "n div 64 < 64" "n div 16 = unat x" using byte_bound [of x] by (simp_all add: n_def)
  have sum: "n div 64 * 64 + n mod 64 = n" by simp
  have e: "sextetOf (sextetChar (n div 64)) = n div 64" "sextetOf (sextetChar (n mod 64)) = n mod 64" using sextet n(1) by auto
  have t: "toBase64 [x] = [sextetChar (n div 64), sextetChar (n mod 64), CHR ''='', CHR ''='']" by (simp add: n_def Let_def)
  show ?case unfolding t fromBase64.simps Let_def e sum n(2) by simp
qed simp

section \<open>Every step keeps the invariant\<close>

lemma peerOk_flags [simp]:
  "peerOk C log pid (p\<lparr>pe_waiting := w\<rparr>) = peerOk C log pid p" "peerOk C log pid (p\<lparr>pe_ended := w\<rparr>) = peerOk C log pid p"
  by (simp_all add: peerOk_def)

text \<open>A peer to which data is read or relayed, and nothing else changes.\<close>

lemma peerOk_relay:
  assumes "peerOk C log pid p" "wroteParts pid m = []" "took pid m = []" "ended pid m = False"
    and same: "pe_hello p' = pe_hello p" "pe_address p' = pe_address p" "pe_pc p' = pe_pc p" "pe_socket p' = pe_socket p"
      "pe_busy p' = pe_busy p" "pe_hostname p' = pe_hostname p"
    and "relayed pid (log @ m) @ pe_pending p' = readFrom pid (log @ m)"
  shows "peerOk C (log @ m) pid p'"
proof -
  note old = assms(1) [unfolded peerOk_def]
  have "pe_pc p = At_connect \<longrightarrow> (\<exists>a now. Opened pid (pe_hostname p) a now \<in> set (log @ m))" using old by auto
  moreover have "wroteParts pid (log @ m) = wroteParts pid log" "took pid (log @ m) = took pid log" "ended pid (log @ m) = ended pid log"
    using assms(2-4) by simp_all
  ultimately show ?thesis using old assms(11) unfolding peerOk_def same by presburger
qed

lemma waitsI: "sessionOk C s \<Longrightarrow> map_of (ss_peers s) pid = Some p \<Longrightarrow> waits s pid p"
  using ok_basic(2) [of C s] by (auto simp: waits_def)

lemma ok_end:
  assumes "sessionOk C s" "map_of (ss_peers s) pid = Some p" "pe_pending p = []"
  shows "sessionOk C (logged (Sent (Frame_end pid)) (forget pid s))"
proof -
  let ?s = "forget pid s" and ?m = "[Sent (Frame_end pid)]"
  have ok: "sessionOk C ?s" by (rule ok_forget [OF assms(1)])
  have m: "\<forall>x \<in> set ?m. subject x = pid" by simp
  note peer = ok_peer [OF assms(1,2)] and stream = ok_stream [OF assms(1)]
  have "streamOk (ss_log s @ ?m) i" for i
  proof (cases "i = pid")
    case True
    have "took pid ?m = []" "wroteParts pid ?m = []" "readFrom pid ?m = []" "relayed pid ?m = []"
      by (simp_all add: stream_defs)
    then show ?thesis using stream [of pid] peer assms(3) True by (simp add: streamOk_def peerOk_def)
  qed (use streamOk_other [OF m] stream in auto)
  moreover have "peerOk C (ss_log s @ ?m) i q" if "(i, q) \<in> set (ss_peers ?s)" for i q
  proof -
    have "i \<noteq> pid" using that by (auto simp: AList.delete_eq)
    then show ?thesis using peerOk_other [OF m] ok that by (auto simp: sessionOk_def)
  qed
  ultimately show ?thesis
    using ok ok_seen [OF assms(1,2)] by (auto simp: sessionOk_def keysOk_def countersOk_def)
qed

lemma close_setPeer [simp]: "\<not> ss_closed s \<Longrightarrow> closeSession c (setPeer pid p s) = closeSession c s"
  by (simp add: closeSession_def setPeer_def)

lemma ok_flush: "sessionOk C s \<Longrightarrow> sessionOk C (flushPeer pid s)"
proof (cases "map_of (ss_peers s) pid")
  case (Some p)
  assume ok: "sessionOk C s"
  note w = waitsI [OF ok Some] and peer = ok_peer [OF ok Some] and stream = ok_stream [OF ok, of pid]
  have open_s: "\<not> ss_closed s" using w by (simp add: waits_def)
  have fin: "sessionOk C (sendFrame (Frame_end pid) (forget pid s))" if "pe_pending p = []"
    using ok_end [OF ok Some that] ok_close [OF ok_forget [OF ok]] open_s by (simp add: sendFrame_def)
  define b c where "b = take 16384 (pe_pending p)" and "c = drop 16384 (pe_pending p)"
  then have split: "pe_pending p = b @ c" by simp
  let ?m = "[Sent (Frame_data pid (toBase64 b))]"
  let ?p = "p\<lparr>pe_pending := c, pe_waiting := True\<rparr>"
  have one: "took pid ?m = []" "wroteParts pid ?m = []" "readFrom pid ?m = []" "relayed pid ?m = b" "ended pid ?m = False"
    by (simp_all add: stream_defs base64_roundtrip)
  have e: "readFrom pid (ss_log s) = relayed pid (ss_log s) @ b @ c" "\<not> ended pid (ss_log s)"
    using peer by (simp_all add: peerOk_def split)
  have "peerOk C (ss_log s @ ?m) pid ?p"
    by (rule peerOk_relay [OF peer one(2,1,5)]) (simp_all add: one e)
  moreover have "prefix (relayed pid (ss_log s) @ b) (readFrom pid (ss_log s))" unfolding e by simp
  then have "streamOk (ss_log s @ ?m) pid"
    using stream e(2) unfolding streamOk_def stream_append one set_append append_Nil2 by blast
  ultimately have "sessionOk C (logged (Sent (Frame_data pid (toBase64 b))) (setPeer pid ?p s))"
    using open_s ok_bytes [OF ok] by (intro ok_advance [OF ok Some, of _ ?p ?m]) simp_all
  then have "sessionOk C (sendFrame (Frame_data pid (toBase64 b)) (setPeer pid ?p s))"
    using open_s ok_close [OF ok] by (simp add: sendFrame_def)
  then show ?thesis using ok fin Some by (simp add: flushPeer_def b_def c_def)
qed (simp add: flushPeer_def)

lemma stream_took: "took pid [Took pid b] = b" "wroteParts pid [Took pid b] = []" "readFrom pid [Took pid b] = []"
  "relayed pid [Took pid b] = []" "\<not> ended pid [Took pid b]"
  and stream_wrote: "took pid [Wrote pid b] = []" "wroteParts pid [Wrote pid b] = [b]" "readFrom pid [Wrote pid b] = []"
  "relayed pid [Wrote pid b] = []" "\<not> ended pid [Wrote pid b]"
  and stream_read: "took pid [Read pid b] = []" "wroteParts pid [Read pid b] = []" "readFrom pid [Read pid b] = b"
  "relayed pid [Read pid b] = []" "\<not> ended pid [Read pid b]"
  and stream_opened: "took pid [Opened pid h a n] = []" "wroteParts pid [Opened pid h a n] = []" "readFrom pid [Opened pid h a n] = []"
  "relayed pid [Opened pid h a n] = []" "\<not> ended pid [Opened pid h a n]"
  by (simp_all add: stream_defs)

lemma count_open:
  assumes "\<not> ss_closed (countBytes C n s)"
  shows "countBytes C n s = s\<lparr>ss_bytes := ss_bytes s + n\<rparr>" "int (ss_bytes s + n) \<le> sl_maximumBytes (cf_lease C)"
  using assms by (auto simp: countBytes_def Let_def split: if_split_asm)

lemma ok_writePeer:
  assumes ok: "sessionOk C s" and peer: "map_of (ss_peers s) pid = Some p" and "\<not> pe_busy p"
    and max: "int (ss_bytes s + length b) \<le> sl_maximumBytes (cf_lease C)" and "\<not> ss_closed s"
  shows "sessionOk C (writePeer pid p b (logged (Took pid b) (s\<lparr>ss_bytes := ss_bytes s + length b\<rparr>)))"
proof -
  let ?s = "logged (Took pid b) (s\<lparr>ss_bytes := ss_bytes s + length b\<rparr>)"
  note pk = ok_peer [OF ok peer] and stream = ok_stream [OF ok, of pid]
  show ?thesis
  proof (cases "pe_socket p")
    case True
    then have hello: "wroteParts pid (ss_log s) \<noteq> []" "pe_hello p = []" "pe_pc p \<noteq> At_connect"
      using pk assms(3) by (auto simp: peerOk_def)
    let ?p = "p\<lparr>pe_busy := True, pe_pc := At_socketWrite\<rparr>"
    have "peerOk C (ss_log s @ [Took pid b, Wrote pid b]) pid ?p"
      using pk hello True stream_append(1-5) [of pid "[Took pid b]" "[Wrote pid b]"]
      by (simp add: peerOk_def stream_took stream_wrote)
    moreover have "streamOk (ss_log s @ [Took pid b, Wrote pid b]) pid"
      using stream hello pk stream_append(1-5) [of pid "[Took pid b]" "[Wrote pid b]"]
      by (auto simp: streamOk_def stream_took stream_wrote peerOk_def)
    ultimately show ?thesis
      using True assms(5) max hello(2)
      by (simp add: writePeer_def) (intro ok_advance [OF ok peer, of _ ?p "[Took pid b, Wrote pid b]"]; simp)
  next
    case False
    then have none: "wroteParts pid (ss_log s) = []" "pe_pc p \<noteq> At_connect" using pk by (auto simp: peerOk_def)
    have moved: "sessionOk C (setPeer pid p' ?s)"
      if p': "pe_hello p' = pe_hello p @ b" "pe_socket p' = pe_socket p" "pe_pending p' = pe_pending p" "pe_address p' = pe_address p"
        "pe_hostname p' = pe_hostname p" "pe_pc p' \<noteq> At_connect"
        "pe_pc p' = At_writeCheck \<longrightarrow> pe_busy p' \<and> sandboxTlsClientHello (pe_hello p') (pe_hostname p') = Inr Hello_valid" for p'
    proof -
      have "peerOk C (ss_log s @ [Took pid b]) pid p'" using pk p' False none by (simp add: peerOk_def stream_took)
      moreover have "streamOk (ss_log s @ [Took pid b]) pid" using stream none by (simp add: streamOk_def stream_took)
      ultimately show ?thesis
        using assms(5) max p'(1) by (intro ok_advance [OF ok peer, of _ p' "[Took pid b]"]) simp_all
    qed
    have calm: "pe_pc p \<noteq> At_writeCheck" using pk assms(3) by (auto simp: peerOk_def)
    show ?thesis
      using False none calm ok_seen [OF ok peer]
      by (auto simp: writePeer_def Let_def split: sum.split HelloVerdict.split intro!: moved ok_send)
  qed
qed

lemma ok_dataFrame:
  assumes "sessionOk C s" "map_of (ss_peers s) pid = Some p"
  shows "sessionOk C (dataFrame C pid p value s)"
proof -
  have open_s: "\<not> ss_closed s" using waitsI [OF assms] by (simp add: waits_def)
  have "sessionOk C (let s' = countBytes C (length b) s in if ss_closed s' then s' else writePeer pid p b (logged (Took pid b) s'))"
    if "\<not> pe_busy p" for b
    using ok_count [OF assms(1) open_s, of "length b"] ok_writePeer [OF assms that, of b] open_s count_open [of C "length b" s]
    by (auto simp: Let_def)
  then show ?thesis using ok_close [OF assms(1)] by (auto simp: dataFrame_def Let_def split: jsval.split)
qed

lemma ok_openFrame:
  assumes "sessionOk C s" "\<not> ss_closed s"
  shows "sessionOk C (openFrame C now pid value s)"
proof -
  have "sessionOk C (setPeer pid (newPeer hostname) (s\<lparr>ss_seen := ss_seen s @ [pid]\<rparr>))" (is "sessionOk C ?s")
    if new: "pid \<notin> set (ss_seen s)" "length (ss_seen s) < 10000" "int (length (ss_peers s)) < sl_maximumConnections (cf_lease C)" for hostname
  proof -
    have fresh: "\<forall>x \<in> set (ss_log s). subject x \<noteq> pid" using assms(1) new(1) by (auto simp: sessionOk_def)
    have none: "map_of (ss_peers s) pid = None"
      using assms(1) new(1) by (auto simp: sessionOk_def keysOk_def map_of_eq_None_iff)
    note d = ok_basic(1) [OF assms(1)]
    have len: "length (AList.update pid q ps) = length ps + 1" if "map_of ps pid = None" for q and ps :: "(string \<times> Peer) list"
      using that by (induction ps) (auto split: if_split_asm)
    have "keysOk C ?s"
      using assms new len [OF none] AList.distinct_update [OF d, of pid] AList.dom_update [of pid _ "ss_peers s"]
      by (auto simp: sessionOk_def keysOk_def)
    moreover have "countersOk C ?s"
      using assms helloBytes_new [OF none, of "newPeer hostname"] by (simp add: sessionOk_def countersOk_def newPeer_def)
    ultimately show ?thesis
      using assms(1) peerOk_fresh [OF fresh] by (auto simp: sessionOk_def update_members [OF d] split: if_split_asm)
  qed
  then show ?thesis
    using ok_close [OF assms(1)] by (auto simp: openFrame_def Let_def not_le intro!: ok_drop split: jsval.split sum.split)
qed

lemma ok_handleFrame: "sessionOk C s \<Longrightarrow> \<not> ss_closed s \<Longrightarrow> sessionOk C (handleFrame C now value s)"
proof -
  assume ok: "sessionOk C s" and open_s: "\<not> ss_closed s"
  have ready: "sessionOk C (s\<lparr>ss_ready := True\<rparr>)" using ok by (simp add: sessionOk_def keysOk_def countersOk_def)
  have "sessionOk C (flushPeer pid (setPeer pid (p\<lparr>pe_waiting := False\<rparr>) s))" if "map_of (ss_peers s) pid = Some p" for pid p
    using ok_peer [OF ok that] by (intro ok_flush ok_set [OF ok waitsI [OF ok that]]) simp_all
  then show ?thesis
    using ready ok ok_close [OF ok] ok_openFrame [OF ok open_s] ok_drop [OF ok] ok_dataFrame [OF ok]
    unfolding handleFrame_def by (simp split: jsval.split option.split)
qed

lemma ok_input [simp]: "sessionOk C (s\<lparr>ss_input := b\<rparr>) = sessionOk C s"
  by (simp add: sessionOk_def keysOk_def countersOk_def)

lemma ok_receiveLines: "sessionOk C s \<Longrightarrow> sessionOk C (receiveLines C clock b s)"
proof (induction C clock b s rule: receiveLines.induct)
  case (1 C clock b s)
  show ?case
  proof (cases "10 \<notin> set b \<or> ss_closed s")
    case True
    then show ?thesis using 1(2) by (subst receiveLines.simps) simp
  next
    case False
    then show ?thesis
      using "1.IH" [OF False refl] 1(2) ok_handleFrame [OF 1(2)]
      by (subst receiveLines.simps) (auto simp: Let_def ok_close split: option.split)
  qed
qed

lemma ok_receiveChunk: "sessionOk C s \<Longrightarrow> sessionOk C (receiveChunk C clock b s)"
  by (simp add: receiveChunk_def Let_def ok_receiveLines ok_close)

lemma resolve_address:
  assumes "resolveSandboxDestination P env own verified lease hostname before after = (Inr a, v)"
  shows "sandboxPublicAddress (na_address a) \<and> na_address a \<notin> own"
  using assms
  by (auto simp: resolveSandboxDestination_def acceptAnswers_ok dest!: resolvePublicAddress_ok split: if_split_asm sum.splits prod.splits)

lemma ok_step:
  assumes "sessionStep C s s'" "sessionOk C s"
  shows "sessionOk C s'"
proof -
  note ok = assms(2)
  have gone: "sessionOk C (dropPeer pid code s)" for pid code by (rule ok_drop [OF ok])
  have stay: "sessionOk C (setPeer pid p' s)" if "waits s pid p" "peerOk C (ss_log s) pid p'" "pe_hello p' = pe_hello p" for pid p p'
    by (rule ok_set [OF ok that])
  have peer: "peerOk C (ss_log s) pid p" "pid \<in> set (ss_seen s)" "map_of (ss_peers s) pid = Some p" "\<not> ss_closed s"
    if "waits s pid p" for pid p
    using that ok_peer [OF ok] ok_seen [OF ok] by (auto simp: waits_def)
  from assms(1) show ?thesis
  proof cases
    case (open_checked pid p authority)
    then show ?thesis
      using peer [OF open_checked(2)] by (auto simp: openChecked_def gone split: sum.split intro!: stay) (auto simp: peerOk_def)
  next
    case (resolved pid p r env cache before after)
    have "addressOk C a" if a: "r = Inr a" for a
    proof -
      obtain v where "resolveSandboxDestination (cf_platform C) env (cf_own C) cache (cf_lease C) (pe_hostname p) before after = (Inr a, v)"
        using resolved(4) a by (cases "resolveSandboxDestination (cf_platform C) env (cf_own C) cache (cf_lease C) (pe_hostname p) before after") auto
      from resolve_address [OF this] show ?thesis by (simp add: addressOk_def)
    qed
    then show ?thesis
      using peer [OF resolved(2)] resolved by (auto simp: openResolved_def gone split: sum.split intro!: stay) (auto simp: peerOk_def)
  next
    case (rechecked pid p now authority)
    then show ?thesis
      using peer [OF rechecked(2)]
      by (auto simp: openRechecked_def gone split: sum.split intro!: ok_send stay) (auto simp: peerOk_def)
  next
    case (checked pid p now authority)
    note pk = peer [OF checked(2)]
    have "sessionOk C (logged (Opened pid (pe_hostname p) a now)
        (setPeer pid (p\<lparr>pe_socket := True, pe_pc := At_connect\<rparr>) s)\<lparr>ss_openedConnections := ss_openedConnections s + 1\<rparr>)"
      if "pe_address p = Some a" "assertSandboxDestination (cf_lease C) (pe_hostname p) now = Inr ()" for a
    proof -
      let ?p = "p\<lparr>pe_socket := True, pe_pc := At_connect\<rparr>"
      have "peerOk C (ss_log s @ [Opened pid (pe_hostname p) a now]) pid ?p"
        using pk(1) checked(3) by (auto simp: peerOk_def stream_opened)
      moreover have "streamOk (ss_log s @ [Opened pid (pe_hostname p) a now]) pid"
        using ok_stream [OF ok, of pid] by (auto simp: streamOk_def stream_opened)
      moreover have "crossingOk C (Opened pid (pe_hostname p) a now)"
        using that pk(1) by (auto simp: assertSandboxDestination_ok peerOk_def)
      ultimately show ?thesis
        using pk(3,4) ok_bytes [OF ok] by (intro ok_advance [OF ok pk(3), of _ ?p "[Opened pid (pe_hostname p) a now]"]) simp_all
    qed
    then show ?thesis
      unfolding checked(1) writeChecked_def by (auto simp: gone andThen_Inr_iff split: sum.split option.split)
  next
    case (connect pid p)
    note pk = peer [OF connect(2)]
    let ?p = "p\<lparr>pe_hello := [], pe_pc := At_socketWrite\<rparr>"
    have none: "wroteParts pid (ss_log s) = []" and valid: "sandboxTlsClientHello (pe_hello p) (pe_hostname p) = Inr Hello_valid"
      and op: "\<exists>a now. Opened pid (pe_hostname p) a now \<in> set (ss_log s)"
      using pk(1) connect(3) by (auto simp: peerOk_def)
    have "peerOk C (ss_log s @ [Wrote pid (pe_hello p)]) pid ?p"
      using pk(1) none connect(3) by (simp add: peerOk_def stream_wrote)
    moreover have "streamOk (ss_log s @ [Wrote pid (pe_hello p)]) pid"
      using ok_stream [OF ok, of pid] pk(1) none valid op by (auto simp: streamOk_def stream_wrote peerOk_def)
    ultimately show ?thesis
      using pk(3,4) ok_bytes [OF ok] connect(1)
      by (simp add: connected_def) (intro ok_advance [OF ok pk(3), of _ ?p "[Wrote pid (pe_hello p)]"]; simp)
  next
    case (wrote pid p outcome)
    then show ?thesis
      using peer [OF wrote(2)]
      by (auto simp: socketWritten_def gone split: sum.split intro!: ok_send stay) (auto simp: peerOk_def)
  next
    case (sock_data pid p b)
    note pk = peer [OF sock_data(2)]
    let ?s = "s\<lparr>ss_bytes := ss_bytes s + length b\<rparr>" and ?p = "p\<lparr>pe_pending := b\<rparr>"
    have "sessionOk C (logged (Read pid b) (setPeer pid ?p ?s)\<lparr>ss_receivedBytes := ss_receivedBytes s + length b\<rparr>)"
      if "pe_pending p = []" "int (ss_bytes s + length b) \<le> sl_maximumBytes (cf_lease C)"
    proof -
      have "relayed pid (ss_log s) = readFrom pid (ss_log s)" using pk(1) that(1) by (simp add: peerOk_def)
      then have "peerOk C (ss_log s @ [Read pid b]) pid ?p"
        by (intro peerOk_relay [OF pk(1)]) (simp_all add: stream_read)
      moreover have "streamOk (ss_log s @ [Read pid b]) pid"
        using ok_stream [OF ok, of pid] pk(1) by (auto simp: streamOk_def stream_read peerOk_def)
      ultimately show ?thesis
        using pk(3,4) that(2) by (intro ok_advance [OF ok pk(3), of _ ?p "[Read pid b]"]) simp_all
    qed
    then show ?thesis
      using ok_count [OF ok pk(4), of "length b"] count_open [of C "length b" s] ok_close [OF ok] sock_data(1)
      by (auto simp: socketData_def Let_def intro!: ok_flush)
  next
    case (sock_end pid p)
    then show ?thesis
      using peer [OF sock_end(2)] by (auto simp: socketEnd_def intro!: ok_flush stay)
  next
    case (sock_close pid p)
    then show ?thesis using ok gone by (simp add: socketClosed_def)
  next
    case (authority authority)
    have "sessionOk C (t\<lparr>ss_checking := b\<rparr>) = sessionOk C t" for t b by (simp add: sessionOk_def keysOk_def countersOk_def)
    then show ?thesis using authority ok ok_close [OF ok] by (simp add: authorityChecked_def split: sum.split)
  next
    case (tick started now)
    have "sessionOk C (s\<lparr>ss_checking := True\<rparr>)" using ok by (simp add: sessionOk_def keysOk_def countersOk_def)
    then show ?thesis using tick ok ok_close [OF ok] by (simp add: timerTick_def)
  next
    case (transport_backlog b)
    then show ?thesis using ok by (simp add: sessionOk_def keysOk_def countersOk_def)
  qed (use ok ok_close [OF ok] ok_receiveChunk [OF ok] gone in auto)
qed

lemma ok_start:
  assumes "startSession C t = Inr s"
  shows "sessionOk C s"
proof -
  have "validSandboxNetworkLease (cf_platform C) (cf_lease C)" and s: "ss_peers s = []" "ss_seen s = []" "ss_log s = []" "ss_bytes s = 0"
    "ss_sentBytes s = 0" "ss_receivedBytes s = 0"
    using assms by (auto simp: startSession_def split: if_split_asm)
  then show ?thesis
    by (simp add: sessionOk_def keysOk_def countersOk_def validSandboxNetworkLease_def helloBytes_def streamOk_def)
qed

lemma reachable_ok: "reachable C s \<Longrightarrow> sessionOk C s"
  by (induction rule: reachable.induct) (auto intro: ok_start ok_step)

section \<open>What holds in every reachable state\<close>

text \<open>
  (C8) Authorized egress: in every reachable state, however frames, resolutions, authority checks, sockets
  and timers interleave, each connection was opened to a public address that is none of this host's,
  for an https origin the lease names and before the lease expired; and whatever was written for a
  peer began with a complete, valid client hello for the host name of such a connection of that peer,
  so no byte of the sandbox leaves before its destination is proved.
\<close>

theorem session_egress_authorized:
  assumes "reachable C s"
  shows "(\<forall>pid hostname a now. Opened pid hostname a now \<in> set (ss_log s) \<longrightarrow>
       sandboxPublicAddress (na_address a) \<and> na_address a \<notin> cf_own C \<and>
       ''https://'' @ hostname \<in> set (sl_network (cf_lease C)) \<and>
       (\<forall>t. dateParse (sl_expiresAt (cf_lease C)) = Some t \<longrightarrow> now < t)) \<and>
    (\<forall>pid first rest. wroteParts pid (ss_log s) = first # rest \<longrightarrow>
       (\<exists>hostname a now. Opened pid hostname a now \<in> set (ss_log s) \<and> sandboxTlsClientHello first hostname = Inr Hello_valid))"
proof -
  have ok: "\<forall>x \<in> set (ss_log s). crossingOk C x" "\<And>pid. streamOk (ss_log s) pid"
    using reachable_ok [OF assms] by (auto simp: sessionOk_def)
  show ?thesis
  proof (intro conjI allI impI)
    fix pid first rest assume w: "wroteParts pid (ss_log s) = first # rest"
    from ok(2) [of pid] show "\<exists>hostname a now. Opened pid hostname a now \<in> set (ss_log s) \<and> sandboxTlsClientHello first hostname = Inr Hello_valid"
      by (simp add: streamOk_def w)
  qed (use ok(1) in \<open>fastforce simp: addressOk_def\<close>)+
qed

text \<open>
  (C35) Limits: in every reachable state at most the granted number of peers is open, no id was used twice
  and at most ten thousand were, the bytes sent and received together never exceed the granted
  maximum, not even in the step that closes the session for exceeding it, and a closed session has
  no peers left.
\<close>

theorem session_within_limits:
  assumes "reachable C s"
  shows "int (length (ss_peers s)) \<le> sl_maximumConnections (cf_lease C) \<and> distinct (map fst (ss_peers s)) \<and>
    fst ` set (ss_peers s) \<subseteq> set (ss_seen s) \<and> distinct (ss_seen s) \<and> length (ss_seen s) \<le> 10000 \<and>
    int (ss_sentBytes s + ss_receivedBytes s) \<le> sl_maximumBytes (cf_lease C) \<and>
    ss_sentBytes s + ss_receivedBytes s \<le> ss_bytes s \<and> (ss_closed s \<longrightarrow> ss_peers s = [])"
  using reachable_ok [OF assms] by (auto simp: sessionOk_def keysOk_def countersOk_def)

text \<open>
  (C36) Both directions are relayed in order and without loss: what was written to the socket of a peer is
  always a beginning of what the sandbox sent for it, what was sent to the sandbox, decoded, is always a
  beginning of what was read from the socket; the frame that ends a peer is only sent when everything
  read had been relayed; and for a peer still open the missing rest is exactly what it holds back.
\<close>

theorem session_relays_in_order:
  assumes "reachable C s"
  shows "prefix (concat (wroteParts pid (ss_log s))) (took pid (ss_log s)) \<and>
    prefix (relayed pid (ss_log s)) (readFrom pid (ss_log s)) \<and>
    (ended pid (ss_log s) \<longrightarrow> relayed pid (ss_log s) = readFrom pid (ss_log s)) \<and>
    (\<forall>p. map_of (ss_peers s) pid = Some p \<longrightarrow> concat (wroteParts pid (ss_log s)) @ pe_hello p = took pid (ss_log s) \<and>
       relayed pid (ss_log s) @ pe_pending p = readFrom pid (ss_log s))"
  using reachable_ok [OF assms] ok_stream [OF reachable_ok [OF assms], of pid] ok_peer [OF reachable_ok [OF assms], of pid]
  by (auto simp: streamOk_def peerOk_def)

section \<open>A concrete session\<close>

text \<open>
  A session that is told to open one peer, resolves and connects it, writes its hello and relays two
  bytes back.  The parser of the sample knows three lines.
\<close>

definition sampleParse :: "bytes \<Rightarrow> jsval option" where
  "sampleParse line =
     (if line = [1] then Some (JObj [(''type'', JStr ''ready'')])
      else if line = [2] then Some (JObj [(''type'', JStr ''open''), (''id'', JStr ''1''), (''hostname'', JStr ''api.example.com'')])
      else if line = [3] then Some (JObj [(''type'', JStr ''data''), (''id'', JStr ''1''), (''data'', JStr (toBase64 sampleHelloBytes))])
      else None)"

definition sampleSession :: SessionConfig where
  "sampleSession = \<lparr>cf_platform = sampleNet, cf_lease = sampleLease, cf_own = {''10.0.0.7''}, cf_parse = sampleParse\<rparr>"

definition sampleAddress :: NetAddress where
  "sampleAddress = \<lparr>na_address = ''93.184.216.34'', na_family = 4\<rparr>"

text \<open>A state of the sample with one peer.\<close>

definition sampleState :: "nat \<Rightarrow> nat \<Rightarrow> nat \<Rightarrow> nat \<Rightarrow> Crossing list \<Rightarrow> Peer \<Rightarrow> Session" where
  "sampleState all sent received opened log p =
     \<lparr>ss_peers = [(''1'', p)], ss_seen = [''1''], ss_input = [], ss_bytes = all, ss_sentBytes = sent,
      ss_receivedBytes = received, ss_openedConnections = opened, ss_closed = False, ss_closeCode = None,
      ss_checking = False, ss_ready = True, ss_congested = False, ss_log = log\<rparr>"

lemma sample_expires: "assertSandboxDestination sampleLease ''api.example.com'' 1000 = Inr ()"
proof -
  have "dateParse (sl_expiresAt sampleLease) = Some 1893456000000" by (simp add: sampleLease_def) code_simp
  then show ?thesis by (simp add: assertSandboxDestination_def sampleLease_def)
qed

lemma toBase64_length: "length (toBase64 b) = 4 * ((length b + 2) div 3)"
  by (induction b rule: toBase64.induct) (simp_all add: Let_def, presburger)

lemma sample_waits: "waits (sampleState a b c d l p) ''1'' p"
  by (simp add: waits_def sampleState_def)

lemmas sample_step = reachable.step [OF _ sessionStep.open_checked [OF sample_waits]]
  reachable.step [OF _ sessionStep.rechecked [OF sample_waits]] reachable.step [OF _ sessionStep.checked [OF sample_waits]]
  reachable.step [OF _ sessionStep.connect [OF sample_waits]] reachable.step [OF _ sessionStep.wrote [OF sample_waits]]
  reachable.step [OF _ sessionStep.sock_data [OF sample_waits]]

lemma sample_opened: "reachable sampleSession (sampleState 0 0 0 0 [] (newPeer ''api.example.com''))"
proof -
  obtain s where s: "startSession sampleSession 2000 = Inr s" "\<not> ss_closed s"
    "receiveChunk sampleSession (\<lambda>_. 1000) [1, 10, 2, 10] s = sampleState 0 0 0 0 [] (newPeer ''api.example.com'')"
    using sampleLease_valid sample_expires
    by (simp add: startSession_def sampleSession_def isSafeInteger_def receiveChunk_def receiveLines.simps [of _ _ "_ # _"]
      receiveLines.simps [of _ _ "[]"] sampleParse_def handleFrame_def openFrame_def frameId_def isDigitChar_def setPeer_def
      sampleState_def) (simp add: sampleLease_def setPeer_def)
  show ?thesis using reachable.step [OF reachable.start [OF s(1)] sessionStep.chunk [OF s(2)], of "\<lambda>_. 1000" "[1, 10, 2, 10]"] s(3) by simp
qed

definition samplePeer :: Peer where
  "samplePeer = (newPeer ''api.example.com'')\<lparr>pe_address := Some sampleAddress, pe_opening := False, pe_pc := At_rest\<rparr>"

lemma sample_open: "reachable sampleSession (sampleState 0 0 0 0 [Sent (Frame_opened ''1'')] samplePeer)"
proof -
  let ?n = "newPeer ''api.example.com''"
  have 1: "reachable sampleSession (sampleState 0 0 0 0 [] (?n\<lparr>pe_pc := At_openResolve\<rparr>))"
    using sample_step(1) [OF sample_opened, of "Inr ()"] by (simp add: newPeer_def openChecked_def setPeer_def sampleState_def)
  have r: "fst (resolveSandboxDestination (cf_platform sampleSession) sampleDns (cf_own sampleSession) [] (cf_lease sampleSession)
      (pe_hostname (?n\<lparr>pe_pc := At_openResolve\<rparr>)) 1000 2000) = Inr sampleAddress"
    using sample_resolution by (simp add: sampleSession_def newPeer_def sampleAddress_def)
  have 2: "reachable sampleSession (sampleState 0 0 0 0 [] (?n\<lparr>pe_address := Some sampleAddress, pe_pc := At_openRecheck\<rparr>))"
    using reachable.step [OF 1 sessionStep.resolved [OF sample_waits _ r [symmetric]]]
    by (simp add: openResolved_def setPeer_def sampleState_def newPeer_def)
  show ?thesis
    using sample_step(2) [OF 2, of 1000 "Inr ()"] sample_expires
    by (simp add: newPeer_def openRechecked_def setPeer_def sampleState_def sendFrame_def logged_def samplePeer_def sampleSession_def)
qed

lemma sample_relayed:
  "\<exists>s. reachable sampleSession s \<and> wroteParts ''1'' (ss_log s) = [sampleHelloBytes] \<and> readFrom ''1'' (ss_log s) = [7, 8] \<and>
     relayed ''1'' (ss_log s) = [7, 8] \<and> ss_sentBytes s = 88"
proof -
  have len: "length sampleHelloBytes = 88" by (rule sampleHello_length)
  then have nonempty: "sampleHelloBytes \<noteq> []" by auto
  let ?H = sampleHelloBytes and ?l = "[Sent (Frame_opened ''1''), Took ''1'' sampleHelloBytes]"
  let ?p = "samplePeer\<lparr>pe_hello := ?H, pe_busy := True, pe_pc := At_writeCheck\<rparr>"
  have "receiveChunk sampleSession (\<lambda>_. 1000) [3, 10] (sampleState 0 0 0 0 [Sent (Frame_opened ''1'')] samplePeer) = sampleState 88 0 0 0 ?l ?p"
    using sampleHello_valid len nonempty
    by (simp add: receiveChunk_def receiveLines.simps [of _ _ "_ # _"] receiveLines.simps [of _ _ "[]"] sampleParse_def sampleSession_def
      handleFrame_def frameId_def isDigitChar_def dataFrame_def samplePeer_def newPeer_def base64_roundtrip toBase64_length sampleState_def
      countBytes_def writePeer_def logged_def setPeer_def) (simp add: sampleLease_def writePeer_def logged_def setPeer_def)
  then have 1: "reachable sampleSession (sampleState 88 0 0 0 ?l ?p)"
    using reachable.step [OF sample_open sessionStep.chunk, of "\<lambda>_. 1000" "[3, 10]"] by (simp add: sampleState_def)
  let ?o = "Opened ''1'' ''api.example.com'' sampleAddress 1000"
  have 2: "reachable sampleSession (sampleState 88 0 0 1 (?l @ [?o]) (?p\<lparr>pe_socket := True, pe_pc := At_connect\<rparr>))"
    using sample_step(3) [OF 1, of 1000 "Inr ()"] sample_expires
    by (simp add: writeChecked_def samplePeer_def newPeer_def sampleState_def setPeer_def logged_def sampleSession_def)
  let ?q = "?p\<lparr>pe_socket := True, pe_hello := [], pe_pc := At_socketWrite\<rparr>"
  have 3: "reachable sampleSession (sampleState 88 88 0 1 (?l @ [?o, Wrote ''1'' ?H]) ?q)"
    using sample_step(4) [OF 2] len by (simp add: connected_def sampleState_def setPeer_def logged_def samplePeer_def newPeer_def)
  have "socketData sampleSession ''1'' ?q [7, 8] (sampleState 88 88 0 1 (?l @ [?o, Wrote ''1'' ?H]) ?q) =
      sampleState 90 88 2 1 (?l @ [?o, Wrote ''1'' ?H, Read ''1'' [7, 8], Sent (Frame_data ''1'' (toBase64 [7, 8]))])
        (?q\<lparr>pe_waiting := True\<rparr>)"
    by (simp add: socketData_def samplePeer_def newPeer_def countBytes_def sampleState_def sampleSession_def sampleLease_def
      flushPeer_def sendFrame_def logged_def setPeer_def del: toBase64.simps)
  then have 4: "reachable sampleSession (sampleState 90 88 2 1 (?l @ [?o, Wrote ''1'' ?H, Read ''1'' [7, 8],
      Sent (Frame_data ''1'' (toBase64 [7, 8]))]) (?q\<lparr>pe_waiting := True\<rparr>))"
    using sample_step(6) [OF 3, of "[7, 8]"] by simp
  show ?thesis
    by (intro exI conjI, rule 4) (simp_all add: sampleState_def stream_defs base64_roundtrip del: toBase64.simps)
qed

theorem session_egress_authorized_witness:
  "\<exists>s hostname a now. reachable sampleSession s \<and> Opened ''1'' hostname a now \<in> set (ss_log s) \<and> sandboxPublicAddress (na_address a) \<and>
     sandboxTlsClientHello sampleHelloBytes hostname = Inr Hello_valid"
proof -
  obtain s where s: "reachable sampleSession s" "wroteParts ''1'' (ss_log s) = [sampleHelloBytes]" using sample_relayed by blast
  from session_egress_authorized [OF s(1)] s(2) obtain hostname a now where
    "Opened ''1'' hostname a now \<in> set (ss_log s)" "sandboxTlsClientHello sampleHelloBytes hostname = Inr Hello_valid" by blast
  with session_egress_authorized [OF s(1)] s(1) show ?thesis by blast
qed

theorem session_within_limits_witness:
  "\<exists>s. reachable sampleSession s \<and> ss_sentBytes s = 88 \<and> int (ss_sentBytes s + ss_receivedBytes s) \<le> 1048576"
proof -
  obtain s where s: "reachable sampleSession s" "ss_sentBytes s = 88" using sample_relayed by blast
  have "sl_maximumBytes (cf_lease sampleSession) = 1048576" by (simp add: sampleSession_def sampleLease_def)
  with session_within_limits [OF s(1)] s show ?thesis by auto
qed

theorem session_relays_in_order_witness:
  "\<exists>s. reachable sampleSession s \<and> relayed ''1'' (ss_log s) = [7, 8] \<and> prefix (relayed ''1'' (ss_log s)) (readFrom ''1'' (ss_log s))"
proof -
  obtain s where s: "reachable sampleSession s" "relayed ''1'' (ss_log s) = [7, 8]" using sample_relayed by blast
  with session_relays_in_order [OF s(1), of "''1''"] show ?thesis by blast
qed

end
