(* ===== verification/Operations.thy ===== *)
theory Operations
  imports Identity
begin

text \<open>
  packages/contracts/src/runtime-v2/operations.ts: one action attempt as a state machine.  The
  snapshot is a record, the signals a datatype, the transition table the function
  \<open>opTransitions\<close>, and \<open>advanceRuntimeOperation\<close> the step that projects one authenticated signal
  onto the snapshot.  Shown: terminal states absorb, every status change is in the table, intent
  and identity survive every step, cancellation needs stop evidence, dispatch is never undone,
  and re-validation after a legal transition never fails.
\<close>

section \<open>Data\<close>

datatype OpStatus =
    Op_planned | Op_waiting_user | Op_waiting_device | Op_waiting_dependency | Op_ready
  | Op_dispatched | Op_running | Op_cancel_requested | Op_unknown
  | Op_succeeded | Op_failed | Op_canceled | Op_partial

fun opStatusStr :: "OpStatus \<Rightarrow> string" where
  "opStatusStr Op_planned = ''planned''"
| "opStatusStr Op_waiting_user = ''waiting_user''"
| "opStatusStr Op_waiting_device = ''waiting_device''"
| "opStatusStr Op_waiting_dependency = ''waiting_dependency''"
| "opStatusStr Op_ready = ''ready''"
| "opStatusStr Op_dispatched = ''dispatched''"
| "opStatusStr Op_running = ''running''"
| "opStatusStr Op_cancel_requested = ''cancel_requested''"
| "opStatusStr Op_unknown = ''unknown''"
| "opStatusStr Op_succeeded = ''succeeded''"
| "opStatusStr Op_failed = ''failed''"
| "opStatusStr Op_canceled = ''canceled''"
| "opStatusStr Op_partial = ''partial''"

datatype OpEffects = Eff_none | Eff_applied | Eff_partial

record OpResult =
  or_status :: OpStatus
  or_effects :: OpEffects
  or_evidence :: RuntimeEvidenceRef

text \<open>The result's status is one of four; the refinement ties it to the effects it reports.\<close>

definition validOpResult :: "platform \<Rightarrow> OpResult \<Rightarrow> bool" where
  "validOpResult P r \<longleftrightarrow>
     or_status r \<in> {Op_succeeded, Op_failed, Op_canceled, Op_partial} \<and>
     validRuntimeEvidenceRef P (or_evidence r) \<and>
     \<not> ((or_status r = Op_canceled \<and> or_effects r \<noteq> Eff_none) \<or>
        (or_status r = Op_partial \<and> or_effects r \<noteq> Eff_partial) \<or>
        (or_status r = Op_succeeded \<and> or_effects r = Eff_partial))"

definition isTerminalRuntimeOperationStatus :: "OpStatus \<Rightarrow> bool" where
  "isTerminalRuntimeOperationStatus s \<longleftrightarrow> s \<in> {Op_succeeded, Op_failed, Op_canceled, Op_partial}"

record OpSnapshot =
  op_binding :: RuntimeActionBinding
  op_stepId :: "string option"
  op_agentInstanceId :: "string option"
  op_processId :: "string option"
  op_cancelRequestId :: "string option"
  op_idempotencyKey :: string
  op_status :: OpStatus
  op_result :: "OpResult option"

definition preDispatch :: "OpStatus \<Rightarrow> bool" where
  "preDispatch s \<longleftrightarrow>
     s \<in> {Op_planned, Op_waiting_user, Op_waiting_device, Op_waiting_dependency, Op_ready}"

definition validOpSnapshot :: "platform \<Rightarrow> OpSnapshot \<Rightarrow> bool" where
  "validOpSnapshot P s \<longleftrightarrow>
     validRuntimeActionBinding P (op_binding s) \<and> optAll (zUuid P) (op_stepId s) \<and>
     optAll (zUuid P) (op_agentInstanceId s) \<and> optAll (zUuid P) (op_processId s) \<and>
     optAll (zUuid P) (op_cancelRequestId s) \<and> zUuid P (op_idempotencyKey s) \<and>
     optAll (validOpResult P) (op_result s) \<and>
     \<not> (op_status s = Op_cancel_requested \<and> op_cancelRequestId s = None) \<and>
     \<not> (preDispatch (op_status s) \<and> (op_processId s \<noteq> None \<or> op_cancelRequestId s \<noteq> None)) \<and>
     \<not> (isTerminalRuntimeOperationStatus (op_status s) \<noteq> (op_result s \<noteq> None) \<or>
        (op_result s \<noteq> None \<and> map_option or_status (op_result s) \<noteq> Some (op_status s)))"

definition parseOpSnapshot :: "platform \<Rightarrow> OpSnapshot \<Rightarrow> OpSnapshot result" where
  "parseOpSnapshot P s =
     (if validOpSnapshot P s
      then Inr (s\<lparr>op_binding := (op_binding s)\<lparr>ab_action := trim (ab_action (op_binding s))\<rparr>\<rparr>)
      else Inl ZodError)"

datatype WaitReason = Wait_user | Wait_device | Wait_dependency
datatype UncertainReason = Lost_connection | Lost_lease | Missing_receipt

datatype OpSignal =
    SigWaiting WaitReason
  | SigReady
  | SigDispatched
  | SigStarted "string option"
  | SigTransportAck
  | SigCancelRequested string
  | SigUncertain UncertainReason
  | SigOutcome OpResult
  | SigStopped RuntimeEvidenceRef OpEffects

fun validOpSignal :: "platform \<Rightarrow> OpSignal \<Rightarrow> bool" where
  "validOpSignal P (SigStarted pid) = optAll (zUuid P) pid"
| "validOpSignal P (SigCancelRequested rid) = zUuid P rid"
| "validOpSignal P (SigOutcome r) = (validOpResult P r \<and> or_status r \<noteq> Op_canceled)"
| "validOpSignal P (SigStopped e eff) = (validRuntimeEvidenceRef P e \<and> eff \<in> {Eff_none, Eff_partial})"
| "validOpSignal P _ = True"

section \<open>Transitions\<close>

abbreviation opWaiting :: "OpStatus list" where
  "opWaiting \<equiv> [Op_waiting_user, Op_waiting_device, Op_waiting_dependency]"

abbreviation opKnownOutcomes :: "OpStatus list" where
  "opKnownOutcomes \<equiv> [Op_succeeded, Op_failed, Op_partial]"

fun opTransitions :: "OpStatus \<Rightarrow> OpStatus list" where
  "opTransitions Op_planned = opWaiting @ [Op_ready, Op_cancel_requested]"
| "opTransitions Op_waiting_user =
     [Op_waiting_device, Op_waiting_dependency, Op_ready, Op_cancel_requested]"
| "opTransitions Op_waiting_device =
     [Op_waiting_user, Op_waiting_dependency, Op_ready, Op_cancel_requested]"
| "opTransitions Op_waiting_dependency =
     [Op_waiting_user, Op_waiting_device, Op_ready, Op_cancel_requested]"
| "opTransitions Op_ready = opWaiting @ [Op_dispatched, Op_cancel_requested]"
| "opTransitions Op_dispatched = [Op_running, Op_unknown, Op_cancel_requested] @ opKnownOutcomes"
| "opTransitions Op_running = [Op_unknown, Op_cancel_requested] @ opKnownOutcomes"
| "opTransitions Op_cancel_requested = [Op_unknown] @ opKnownOutcomes @ [Op_canceled]"
| "opTransitions Op_unknown = opKnownOutcomes @ [Op_canceled]"
| "opTransitions Op_succeeded = []"
| "opTransitions Op_failed = []"
| "opTransitions Op_canceled = []"
| "opTransitions Op_partial = []"

definition canTransitionRuntimeOperation :: "OpStatus \<Rightarrow> OpStatus \<Rightarrow> bool" where
  "canTransitionRuntimeOperation from to \<longleftrightarrow> to \<in> set (opTransitions from)"

fun waitStatus :: "WaitReason \<Rightarrow> OpStatus" where
  "waitStatus Wait_user = Op_waiting_user"
| "waitStatus Wait_device = Op_waiting_device"
| "waitStatus Wait_dependency = Op_waiting_dependency"

text \<open>
  What the \<open>switch\<close> computes before the final check: an early return, an exception, or the next
  status, process, cancellation intent and result.
\<close>

datatype OpMove =
    MoveReturn OpSnapshot
  | MoveReparse OpSnapshot
  | MoveThrow string
  | MoveTo OpStatus "string option" "string option" "OpResult option"

fun opSwitch :: "OpSnapshot \<Rightarrow> OpSignal \<Rightarrow> OpMove" where
  "opSwitch s SigTransportAck = MoveReturn s"
| "opSwitch s (SigWaiting r) = MoveTo (waitStatus r) (op_processId s) (op_cancelRequestId s) None"
| "opSwitch s SigReady = MoveTo Op_ready (op_processId s) (op_cancelRequestId s) None"
| "opSwitch s SigDispatched = MoveTo Op_dispatched (op_processId s) (op_cancelRequestId s) None"
| "opSwitch s (SigStarted pid) =
     (if op_processId s \<noteq> None \<and> pid \<noteq> op_processId s
      then MoveThrow ''operation attempt process identity changed''
      else if op_status s \<in> {Op_cancel_requested, Op_unknown, Op_running}
      then MoveReparse (s\<lparr>op_processId := pid\<rparr>)
      else MoveTo Op_running pid (op_cancelRequestId s) None)"
| "opSwitch s (SigCancelRequested rid) =
     (let cancel = Some (orElse (op_cancelRequestId s) rid) in
      if op_status s = Op_unknown \<or> op_status s = Op_cancel_requested
      then MoveReparse (s\<lparr>op_cancelRequestId := cancel\<rparr>)
      else MoveTo Op_cancel_requested (op_processId s) cancel None)"
| "opSwitch s (SigUncertain r) =
     (if op_status s = Op_unknown then MoveReturn s
      else MoveTo Op_unknown (op_processId s) (op_cancelRequestId s) None)"
| "opSwitch s (SigOutcome r) =
     MoveTo (or_status r) (op_processId s) (op_cancelRequestId s) (Some r)"
| "opSwitch s (SigStopped e eff) =
     (let st = (if eff = Eff_none then Op_canceled else Op_partial) in
      MoveTo st (op_processId s) (op_cancelRequestId s)
        (Some \<lparr>or_status = st, or_effects = eff, or_evidence = e\<rparr>))"

definition advanceRuntimeOperation ::
  "platform \<Rightarrow> OpSnapshot \<Rightarrow> OpSignal \<Rightarrow> OpSnapshot result" where
  "advanceRuntimeOperation P snapshotInput sig =
     andThen (parseOpSnapshot P snapshotInput) (\<lambda>s.
     if \<not> validOpSignal P sig then Inl ZodError
     else case opSwitch s sig of
         MoveReturn s' \<Rightarrow> Inr s'
       | MoveReparse s' \<Rightarrow> parseOpSnapshot P s'
       | MoveThrow m \<Rightarrow> Inl (JsError m)
       | MoveTo st pid cancel res \<Rightarrow>
           if \<not> canTransitionRuntimeOperation (op_status s) st
           then Inl (JsError (''illegal operation transition: '' @ opStatusStr (op_status s) @ '' -> ''
             @ opStatusStr st))
           else parseOpSnapshot P
             (s\<lparr>op_status := st, op_processId := pid, op_cancelRequestId := cancel, op_result := res\<rparr>))"

section \<open>Parsing\<close>

lemma parseOpSnapshot_Inr_iff:
  "parseOpSnapshot P s = Inr s' \<longleftrightarrow> validOpSnapshot P s \<and>
     s' = s\<lparr>op_binding := (op_binding s)\<lparr>ab_action := trim (ab_action (op_binding s))\<rparr>\<rparr>"
  by (auto simp: parseOpSnapshot_def)

lemma valid_parsed: "parseOpSnapshot P s = Inr s' \<Longrightarrow> validOpSnapshot P s'"
  by (auto simp: parseOpSnapshot_Inr_iff validOpSnapshot_def validRuntimeActionBinding_def)

lemma parse_idem: "parseOpSnapshot P s = Inr s' \<Longrightarrow> parseOpSnapshot P s' = Inr s'"
  using valid_parsed [of P s s'] by (simp add: parseOpSnapshot_Inr_iff)

text \<open>A parsed snapshot: valid, and already in the form parsing returns.\<close>

definition normalSnapshot :: "platform \<Rightarrow> OpSnapshot \<Rightarrow> bool" where
  "normalSnapshot P s \<longleftrightarrow> parseOpSnapshot P s = Inr s"

lemma normal_valid: "normalSnapshot P s \<Longrightarrow> validOpSnapshot P s"
  by (simp add: normalSnapshot_def parseOpSnapshot_Inr_iff)

lemma normal_trim: "normalSnapshot P s \<Longrightarrow> trim (ab_action (op_binding s)) = ab_action (op_binding s)"
  by (auto simp: normalSnapshot_def parseOpSnapshot_Inr_iff dest!: arg_cong [where f = "\<lambda>s. ab_action (op_binding s)"])

lemma normal_parsed: "parseOpSnapshot P s = Inr s' \<Longrightarrow> normalSnapshot P s'"
  by (simp add: normalSnapshot_def parse_idem)

section \<open>One step\<close>

text \<open>Every successful step, by the branch of the switch that made it.\<close>

lemma advance_cases:
  assumes "advanceRuntimeOperation P s sig = Inr s'"
  obtains (ret) p where "parseOpSnapshot P s = Inr p" "validOpSignal P sig"
      "opSwitch p sig = MoveReturn p" "s' = p"
  | (reparse) p q where "parseOpSnapshot P s = Inr p" "validOpSignal P sig"
      "opSwitch p sig = MoveReparse q" "parseOpSnapshot P q = Inr s'"
  | (move) p st pid cancel res where "parseOpSnapshot P s = Inr p" "validOpSignal P sig"
      "opSwitch p sig = MoveTo st pid cancel res" "canTransitionRuntimeOperation (op_status p) st"
      "parseOpSnapshot P (p\<lparr>op_status := st, op_processId := pid, op_cancelRequestId := cancel,
         op_result := res\<rparr>) = Inr s'"
proof -
  from assms obtain p where p: "parseOpSnapshot P s = Inr p" and v: "validOpSignal P sig"
    by (auto simp: advanceRuntimeOperation_def andThen_Inr_iff split: if_splits)
  have r: "opSwitch p sig = MoveReturn q \<Longrightarrow> q = p" for q
    by (cases sig) (auto simp: Let_def split: if_splits)
  show thesis
  proof (cases "opSwitch p sig")
    case (MoveReturn q)
    then show thesis using r assms p v by (intro ret) (auto simp: advanceRuntimeOperation_def)
  next
    case (MoveReparse q)
    then show thesis using assms p v by (intro reparse) (auto simp: advanceRuntimeOperation_def)
  next
    case (MoveThrow m)
    then show thesis using assms p v by (auto simp: advanceRuntimeOperation_def)
  next
    case (MoveTo st pid cancel res)
    then show thesis using assms p v
      by (intro move) (auto simp: advanceRuntimeOperation_def split: if_splits)
  qed
qed

lemma advance_normal: "advanceRuntimeOperation P s sig = Inr s' \<Longrightarrow> normalSnapshot P s'"
  by (erule advance_cases) (auto intro: normal_parsed)

lemma parse_all:
  assumes "parseOpSnapshot P s = Inr p"
  shows "op_stepId p = op_stepId s \<and> op_agentInstanceId p = op_agentInstanceId s \<and>
    op_idempotencyKey p = op_idempotencyKey s \<and> op_status p = op_status s \<and>
    op_processId p = op_processId s \<and> op_cancelRequestId p = op_cancelRequestId s \<and>
    op_result p = op_result s \<and>
    op_binding p = (op_binding s)\<lparr>ab_action := trim (ab_action (op_binding s))\<rparr>"
  using assms by (auto simp: parseOpSnapshot_Inr_iff)

lemma reparse_all:
  assumes "opSwitch p sig = MoveReparse q"
  shows "op_stepId q = op_stepId p \<and> op_agentInstanceId q = op_agentInstanceId p \<and>
    op_idempotencyKey q = op_idempotencyKey p \<and> op_status q = op_status p \<and>
    op_result q = op_result p \<and> op_binding q = op_binding p"
  using assms by (cases sig) (auto simp: Let_def split: if_splits)

text \<open>The identity of the attempt never changes.\<close>

lemma advance_frame:
  assumes "advanceRuntimeOperation P s sig = Inr s'"
  shows "op_stepId s' = op_stepId s" "op_agentInstanceId s' = op_agentInstanceId s"
    "op_idempotencyKey s' = op_idempotencyKey s"
    "op_binding s' = (op_binding s)\<lparr>ab_action := trim (ab_action (op_binding s))\<rparr>"
  by (rule advance_cases [OF assms]; auto dest!: parse_all reparse_all)+

lemma advance_status:
  assumes "advanceRuntimeOperation P s sig = Inr s'"
  shows "op_status s' = op_status s \<or> canTransitionRuntimeOperation (op_status s) (op_status s')"
  by (rule advance_cases [OF assms]) (auto dest!: parse_all reparse_all)

lemma switch_cancel:
  assumes "op_cancelRequestId p = Some c"
  shows "opSwitch p sig = MoveReparse q \<Longrightarrow> op_cancelRequestId q = Some c"
    "opSwitch p sig = MoveTo st pid cancel res \<Longrightarrow> cancel = Some c"
  using assms by (cases sig; auto simp: Let_def split: if_splits)+

lemma advance_cancel_kept:
  assumes "advanceRuntimeOperation P s sig = Inr s'" "op_cancelRequestId s = Some c"
  shows "op_cancelRequestId s' = Some c"
  by (rule advance_cases [OF assms(1)])
    (use assms(2) in \<open>auto dest!: parse_all dest: switch_cancel\<close>)

lemma switch_process:
  assumes "op_processId p = Some c"
  shows "opSwitch p sig = MoveReparse q \<Longrightarrow> op_processId q = Some c"
    "opSwitch p sig = MoveTo st pid cancel res \<Longrightarrow> pid = Some c"
  using assms by (cases sig; auto simp: Let_def split: if_splits)+

lemma advance_process_kept:
  assumes "advanceRuntimeOperation P s sig = Inr s'" "op_processId s = Some c"
  shows "op_processId s' = Some c"
  by (rule advance_cases [OF assms(1)])
    (use assms(2) in \<open>auto dest!: parse_all dest: switch_process\<close>)

lemma terminal_no_exit: "isTerminalRuntimeOperationStatus st \<Longrightarrow> opTransitions st = []"
  by (cases st) (simp_all add: isTerminalRuntimeOperationStatus_def)

lemma advance_terminal:
  assumes "advanceRuntimeOperation P s sig = Inr s'" "isTerminalRuntimeOperationStatus (op_status s)"
  shows "parseOpSnapshot P s = Inr s' \<and> sig = SigTransportAck"
  using assms(1)
proof (rule advance_cases)
  fix p assume p: "parseOpSnapshot P s = Inr p" "opSwitch p sig = MoveReturn p" "s' = p"
  then have "op_status p \<noteq> Op_unknown"
    using assms(2) by (auto simp: isTerminalRuntimeOperationStatus_def dest!: parse_all)
  then show ?thesis using p by (cases sig) (auto simp: Let_def split: if_splits)
next
  fix p q assume p: "parseOpSnapshot P s = Inr p" "opSwitch p sig = MoveReparse q"
  then show ?thesis
    using assms(2) parse_all [OF p(1)]
    by (cases sig) (auto simp: isTerminalRuntimeOperationStatus_def Let_def split: if_splits)
next
  fix p st assume p: "parseOpSnapshot P s = Inr p" "canTransitionRuntimeOperation (op_status p) st"
  then show ?thesis
    using assms(2) terminal_no_exit parse_all [OF p(1)]
    by (simp add: canTransitionRuntimeOperation_def)
qed


text \<open>Re-validation after a legal move never fails: the only errors are the two thrown by name.\<close>

lemma valid_move:
  assumes "validOpSnapshot P p" "optAll (zUuid P) pid" "optAll (zUuid P) cancel"
    "optAll (validOpResult P) res" "st = Op_cancel_requested \<longrightarrow> cancel \<noteq> None"
    "preDispatch st \<longrightarrow> pid = None \<and> cancel = None"
    "isTerminalRuntimeOperationStatus st \<longleftrightarrow> res \<noteq> None" "\<forall>r. res = Some r \<longrightarrow> or_status r = st"
  shows "validOpSnapshot P (p\<lparr>op_status := st, op_processId := pid, op_cancelRequestId := cancel,
    op_result := res\<rparr>)"
  using assms by (cases res) (simp_all add: validOpSnapshot_def)

lemma to_preDispatch: "canTransitionRuntimeOperation a b \<Longrightarrow> preDispatch b \<Longrightarrow> preDispatch a"
  by (cases a; cases b) (simp_all add: canTransitionRuntimeOperation_def preDispatch_def)

lemma valid_parts:
  assumes "validOpSnapshot P p"
  shows "optAll (zUuid P) (op_processId p)" "optAll (zUuid P) (op_cancelRequestId p)"
    "preDispatch (op_status p) \<Longrightarrow> op_processId p = None \<and> op_cancelRequestId p = None"
  using assms by (simp_all add: validOpSnapshot_def)

lemma switch_move_valid:
  assumes vp: "validOpSnapshot P p" and vs: "validOpSignal P sig"
    and m: "opSwitch p sig = MoveTo st pid cancel res" and c: "canTransitionRuntimeOperation (op_status p) st"
  shows "validOpSnapshot P (p\<lparr>op_status := st, op_processId := pid, op_cancelRequestId := cancel,
    op_result := res\<rparr>)"
proof (rule valid_move [OF vp])
  note parts = valid_parts [OF vp]
  show "optAll (zUuid P) pid" "optAll (zUuid P) cancel"
    using m vs parts(1,2) by (cases sig; auto simp: Let_def orElse_def split: if_splits option.splits)+
  show "optAll (validOpResult P) res"
    using m vs by (cases sig) (auto simp: Let_def validOpResult_def split: if_splits)
  show "st = Op_cancel_requested \<longrightarrow> cancel \<noteq> None"
    using m vs by (cases sig) (auto simp: Let_def validOpResult_def split: if_splits elim!: waitStatus.elims)
  have n: "preDispatch st \<Longrightarrow> op_processId p = None \<and> op_cancelRequestId p = None"
    using to_preDispatch [OF c] parts(3) by blast
  have "preDispatch st \<Longrightarrow> pid = op_processId p \<and> cancel = op_cancelRequestId p"
    using m by (cases sig) (auto simp: Let_def preDispatch_def split: if_splits)
  with n show "preDispatch st \<longrightarrow> pid = None \<and> cancel = None" by simp
  show "isTerminalRuntimeOperationStatus st \<longleftrightarrow> res \<noteq> None"
    using m vs by (cases sig) (auto simp: Let_def validOpResult_def isTerminalRuntimeOperationStatus_def
        split: if_splits elim!: waitStatus.elims)
  show "\<forall>r. res = Some r \<longrightarrow> or_status r = st"
    using m by (cases sig) (auto simp: Let_def split: if_splits)
qed

lemma switch_reparse_valid:
  assumes "validOpSnapshot P p" "validOpSignal P sig" "opSwitch p sig = MoveReparse q"
  shows "validOpSnapshot P q"
proof (cases sig)
  case (SigStarted pid)
  then have "q = p\<lparr>op_processId := pid\<rparr>" "\<not> preDispatch (op_status p)"
    using assms(3) by (auto simp: preDispatch_def split: if_splits)
  then show ?thesis using assms(1,2) SigStarted by (simp add: validOpSnapshot_def)
next
  case (SigCancelRequested rid)
  then have "q = p\<lparr>op_cancelRequestId := Some (orElse (op_cancelRequestId p) rid)\<rparr>"
    "\<not> preDispatch (op_status p)"
    using assms(3) by (auto simp: preDispatch_def Let_def split: if_splits)
  then show ?thesis
    using assms(1,2) SigCancelRequested
    by (cases "op_cancelRequestId p") (simp_all add: validOpSnapshot_def)
qed (use assms(3) in \<open>auto simp: Let_def split: if_splits\<close>)

lemma advance_no_zod_error:
  assumes "validOpSnapshot P s" "validOpSignal P sig"
  shows "advanceRuntimeOperation P s sig \<noteq> Inl ZodError"
proof -
  obtain p where p: "parseOpSnapshot P s = Inr p"
    using assms(1) by (auto simp: parseOpSnapshot_def)
  then have vp: "validOpSnapshot P p" by (rule valid_parsed)
  have ok: "validOpSnapshot P q \<Longrightarrow> parseOpSnapshot P q \<noteq> Inl ZodError" for q
    by (simp add: parseOpSnapshot_def)
  show ?thesis
  proof (cases "opSwitch p sig")
    case (MoveReparse q)
    then show ?thesis
      using p assms(2) ok [OF switch_reparse_valid [OF vp assms(2)]]
      by (simp add: advanceRuntimeOperation_def)
  next
    case (MoveTo st pid cancel res)
    then show ?thesis
      using p assms(2) ok [OF switch_move_valid [OF vp assms(2)]]
      by (simp add: advanceRuntimeOperation_def)
  qed (use p assms(2) in \<open>simp_all add: advanceRuntimeOperation_def\<close>)
qed

lemma advance_to_canceled:
  assumes "advanceRuntimeOperation P s sig = Inr s'" "op_status s' = Op_canceled" "op_status s \<noteq> Op_canceled"
  shows "\<exists>e. sig = SigStopped e Eff_none \<and> op_status s \<in> {Op_cancel_requested, Op_unknown} \<and>
    op_result s' = Some \<lparr>or_status = Op_canceled, or_effects = Eff_none, or_evidence = e\<rparr>"
  using assms(1)
proof (rule advance_cases)
  fix p st pid cancel res
  assume p: "parseOpSnapshot P s = Inr p" "validOpSignal P sig" "opSwitch p sig = MoveTo st pid cancel res"
    "canTransitionRuntimeOperation (op_status p) st"
    "parseOpSnapshot P (p\<lparr>op_status := st, op_processId := pid, op_cancelRequestId := cancel,
       op_result := res\<rparr>) = Inr s'"
  have st: "st = Op_canceled" and r: "op_result s' = res" and ps: "op_status p = op_status s"
    using parse_all [OF p(5)] parse_all [OF p(1)] assms(2) by auto
  have "op_status s \<in> {Op_cancel_requested, Op_unknown}"
    using p(4) st ps by (cases "op_status s") (auto simp: canTransitionRuntimeOperation_def)
  then show ?thesis
    using p(2,3) st r by (cases sig) (auto simp: Let_def split: if_splits elim!: waitStatus.elims)
qed (use assms(2,3) in \<open>auto dest!: parse_all reparse_all\<close>)

text \<open>How far an attempt has come; no step goes back before dispatch.\<close>

lemma transition_preDispatch:
  "canTransitionRuntimeOperation a b \<Longrightarrow> \<not> preDispatch a \<Longrightarrow> \<not> preDispatch b"
  using to_preDispatch by blast

lemma advance_preDispatch:
  "advanceRuntimeOperation P s sig = Inr s' \<Longrightarrow> \<not> preDispatch (op_status s) \<Longrightarrow> \<not> preDispatch (op_status s')"
  using advance_status [of P s sig s'] transition_preDispatch by auto

lemma advance_dispatch:
  assumes "advanceRuntimeOperation P s SigDispatched = Inr s'"
  shows "op_status s = Op_ready \<and> op_status s' = Op_dispatched"
  using assms
proof (rule advance_cases)
  fix p st pid cancel res
  assume p: "parseOpSnapshot P s = Inr p" "opSwitch p SigDispatched = MoveTo st pid cancel res"
    "canTransitionRuntimeOperation (op_status p) st"
    "parseOpSnapshot P (p\<lparr>op_status := st, op_processId := pid, op_cancelRequestId := cancel,
       op_result := res\<rparr>) = Inr s'"
  then show ?thesis
    using parse_all [OF p(1)] parse_all [OF p(4)]
    by (cases "op_status s") (auto simp: canTransitionRuntimeOperation_def)
qed auto

section \<open>Runs of signals\<close>

abbreviation advanceAll :: "platform \<Rightarrow> OpSnapshot \<Rightarrow> OpSignal list \<Rightarrow> OpSnapshot result" where
  "advanceAll P \<equiv> runAll (advanceRuntimeOperation P)"

text \<open>What a later snapshot of the same attempt keeps of an earlier one.\<close>

definition opOlder :: "OpSnapshot \<Rightarrow> OpSnapshot \<Rightarrow> bool" where
  "opOlder s s' \<longleftrightarrow>
     op_binding s' = op_binding s \<and> op_stepId s' = op_stepId s \<and>
     op_agentInstanceId s' = op_agentInstanceId s \<and> op_idempotencyKey s' = op_idempotencyKey s \<and>
     (\<forall>c. op_cancelRequestId s = Some c \<longrightarrow> op_cancelRequestId s' = Some c) \<and>
     (\<forall>c. op_processId s = Some c \<longrightarrow> op_processId s' = Some c) \<and>
     (isTerminalRuntimeOperationStatus (op_status s) \<longrightarrow> s' = s)"

lemma advance_older:
  assumes "advanceRuntimeOperation P s sig = Inr s'" "normalSnapshot P s"
  shows "opOlder s s'"
proof -
  have "isTerminalRuntimeOperationStatus (op_status s) \<Longrightarrow> s' = s"
    using advance_terminal [OF assms(1)] assms(2) by (simp add: normalSnapshot_def)
  moreover have "op_binding s' = op_binding s"
    using advance_frame(4) [OF assms(1)] normal_trim [OF assms(2)] by simp
  ultimately show ?thesis
    unfolding opOlder_def
    using advance_frame(1-3) [OF assms(1)] advance_cancel_kept [OF assms(1)]
      advance_process_kept [OF assms(1)] by auto
qed

interpretation op: step_machine "advanceRuntimeOperation P" "normalSnapshot P" opOlder
proof
  show "opOlder a b \<Longrightarrow> opOlder b c \<Longrightarrow> opOlder a c" for a b c
    by (auto simp: opOlder_def)
qed (auto simp: opOlder_def [of s s for s] intro: advance_normal advance_older)

interpretation dispatch: once_machine "advanceRuntimeOperation P" "\<lambda>s. \<not> preDispatch (op_status s)" SigDispatched
  by unfold_locales (auto dest: advance_preDispatch advance_dispatch simp: preDispatch_def)

lemma advanceAll_terminal:
  "advanceAll P s sigs = Inr s' \<Longrightarrow> isTerminalRuntimeOperationStatus (op_status s)
     \<Longrightarrow> set sigs \<subseteq> {SigTransportAck}"
proof (induction sigs arbitrary: s)
  case (Cons sig sigs)
  then obtain t where t: "advanceRuntimeOperation P s sig = Inr t" "advanceAll P t sigs = Inr s'"
    by (elim runAll_ConsE)
  have "op_status t = op_status s" "sig = SigTransportAck"
    using advance_terminal [OF t(1) Cons.prems(2)] by (auto dest: parse_all)
  then show ?case using Cons.IH [OF t(2)] Cons.prems by simp
qed simp

section \<open>Properties\<close>

definition sampleSnapshot :: OpSnapshot where
  "sampleSnapshot = \<lparr>op_binding = sampleBinding, op_stepId = None, op_agentInstanceId = None,
     op_processId = None, op_cancelRequestId = None, op_idempotencyKey = ''k1'',
     op_status = Op_planned, op_result = None\<rparr>"

lemma sampleSnapshot_normal: "normalSnapshot samplePlatform sampleSnapshot"
  by (simp add: normalSnapshot_def parseOpSnapshot_Inr_iff sampleSnapshot_def validOpSnapshot_def
      isTerminalRuntimeOperationStatus_def)

lemmas sample_run_simps = advanceRuntimeOperation_def parseOpSnapshot_def sampleSnapshot_def
  validOpSnapshot_def validOpResult_def preDispatch_def isTerminalRuntimeOperationStatus_def
  canTransitionRuntimeOperation_def

text \<open>
  (C5) Along any accepted sequence of signals an operation attempt keeps its identity (binding,
  step, agent instance, idempotency key), its first accepted cancellation intent and its process
  association; and once its status is terminal, nothing but transport acknowledgements is accepted
  and the snapshot, result evidence included, is unchanged.
\<close>

theorem operation_run_integrity:
  assumes "normalSnapshot P s" "advanceAll P s (before @ after) = Inr s'"
  shows "\<exists>m. advanceAll P s before = Inr m \<and>
    op_binding m = op_binding s \<and> op_stepId m = op_stepId s \<and>
    op_agentInstanceId m = op_agentInstanceId s \<and> op_idempotencyKey m = op_idempotencyKey s \<and>
    (\<forall>c. op_cancelRequestId m = Some c \<longrightarrow> op_cancelRequestId s' = Some c) \<and>
    (\<forall>c. op_processId m = Some c \<longrightarrow> op_processId s' = Some c) \<and>
    (isTerminalRuntimeOperationStatus (op_status m) \<longrightarrow> s' = m \<and> set after \<subseteq> {SigTransportAck})"
proof -
  obtain m where m: "advanceAll P s before = Inr m" "advanceAll P m after = Inr s'"
    using assms(2) by (auto simp: runAll_append)
  have "opOlder s m" "opOlder m s'"
    using op.run_older [OF m(1) assms(1)] op.run_older [OF m(2) op.run_inv [OF m(1) assms(1)]] by auto
  then show ?thesis
    using advanceAll_terminal [OF m(2)] m(1) unfolding opOlder_def by blast
qed

theorem operation_run_integrity_witness:
  "\<exists>m s'. advanceAll samplePlatform sampleSnapshot ([SigReady, SigDispatched, SigCancelRequested ''q1'']
      @ [SigStopped sampleEvidence Eff_none]) = Inr s' \<and>
     advanceAll samplePlatform sampleSnapshot [SigReady, SigDispatched, SigCancelRequested ''q1''] = Inr m \<and>
     op_cancelRequestId m = Some ''q1'' \<and> op_cancelRequestId s' = Some ''q1'' \<and> op_status s' = Op_canceled"
proof -
  let ?a = "[SigReady, SigDispatched, SigCancelRequested ''q1'']" and ?b = "[SigStopped sampleEvidence Eff_none]"
  have "\<exists>s'. advanceAll samplePlatform sampleSnapshot (?a @ ?b) = Inr s' \<and> op_status s' = Op_canceled"
    by (simp add: sample_run_simps)
  then obtain s' where s': "advanceAll samplePlatform sampleSnapshot (?a @ ?b) = Inr s'" "op_status s' = Op_canceled"
    by blast
  have "\<exists>m. advanceAll samplePlatform sampleSnapshot ?a = Inr m \<and> op_cancelRequestId m = Some ''q1''"
    by (simp add: sample_run_simps)
  then obtain m where m: "advanceAll samplePlatform sampleSnapshot ?a = Inr m" "op_cancelRequestId m = Some ''q1''"
    by blast
  from operation_run_integrity [OF sampleSnapshot_normal s'(1)] m have "op_cancelRequestId s' = Some ''q1''"
    by auto
  with s' m show ?thesis by blast
qed

text \<open>
  (C6) The dispatch signal is accepted at most once in the life of an attempt, and only in status
  \<open>ready\<close>: after it no accepted signal brings the attempt back to a state from which it can be
  dispatched.
\<close>

theorem operation_dispatched_once:
  assumes "advanceAll P s sigs = Inr s'"
  shows "length (filter (\<lambda>x. x = SigDispatched) sigs) \<le> 1 \<and>
    (SigDispatched \<in> set sigs \<longrightarrow> preDispatch (op_status s) \<and> \<not> preDispatch (op_status s'))"
  using dispatch.run_once [OF assms] by simp

theorem operation_dispatched_once_witness:
  "length (filter (\<lambda>x. x = SigDispatched) [SigReady, SigDispatched, SigStarted None]) \<le> 1 \<and>
   (\<exists>s'. advanceAll samplePlatform sampleSnapshot [SigReady, SigDispatched, SigStarted None] = Inr s' \<and>
     \<not> preDispatch (op_status s'))"
proof -
  have "\<exists>s'. advanceAll samplePlatform sampleSnapshot [SigReady, SigDispatched, SigStarted None] = Inr s'"
    by (simp add: sample_run_simps)
  then obtain s' where
    s': "advanceAll samplePlatform sampleSnapshot [SigReady, SigDispatched, SigStarted None] = Inr s'" by blast
  from operation_dispatched_once [OF this] s' show ?thesis by auto
qed

text \<open>
  (C24) On a snapshot and a signal that satisfy their schemas a step never throws a validation
  error: the only exceptions left are the ones thrown by name.  And an attempt becomes
  \<open>canceled\<close> only by a stop confirmation that reports no effects, out of \<open>cancel_requested\<close> or
  \<open>unknown\<close>, with that confirmation as its evidence.
\<close>

theorem operation_step_sound:
  assumes "validOpSnapshot P s" "validOpSignal P sig"
  shows "advanceRuntimeOperation P s sig \<noteq> Inl ZodError \<and>
    (\<forall>s'. advanceRuntimeOperation P s sig = Inr s' \<longrightarrow> validOpSnapshot P s' \<and>
       (op_status s' = op_status s \<or> canTransitionRuntimeOperation (op_status s) (op_status s')) \<and>
       (op_status s' = Op_canceled \<and> op_status s \<noteq> Op_canceled \<longrightarrow>
          (\<exists>e. sig = SigStopped e Eff_none \<and> op_status s \<in> {Op_cancel_requested, Op_unknown} \<and>
             op_result s' = Some \<lparr>or_status = Op_canceled, or_effects = Eff_none, or_evidence = e\<rparr>)))"
  using advance_no_zod_error [OF assms] advance_normal advance_status advance_to_canceled normal_valid
  by metis

theorem operation_step_sound_witness:
  "advanceRuntimeOperation samplePlatform sampleSnapshot SigReady \<noteq> Inl ZodError \<and>
   validOpSnapshot samplePlatform sampleSnapshot"
  using operation_step_sound [OF normal_valid [OF sampleSnapshot_normal], of SigReady]
    normal_valid [OF sampleSnapshot_normal] by simp


lemma advance_defined:
  assumes "validOpSnapshot P s" "validOpSignal P sig" "parseOpSnapshot P s = Inr p"
  shows "opSwitch p sig = MoveTo st pid cancel res \<Longrightarrow> canTransitionRuntimeOperation (op_status p) st \<Longrightarrow>
      \<exists>s'. advanceRuntimeOperation P s sig = Inr s' \<and> op_status s' = st"
    "opSwitch p sig = MoveReparse q \<Longrightarrow> \<exists>s'. advanceRuntimeOperation P s sig = Inr s' \<and> op_status s' = op_status q"
proof -
  have vp: "validOpSnapshot P p" using assms(3) by (rule valid_parsed)
  have ok: "validOpSnapshot P q \<Longrightarrow> \<exists>q'. parseOpSnapshot P q = Inr q' \<and> op_status q' = op_status q" for q
    by (simp add: parseOpSnapshot_def)
  show "opSwitch p sig = MoveTo st pid cancel res \<Longrightarrow> canTransitionRuntimeOperation (op_status p) st \<Longrightarrow>
      \<exists>s'. advanceRuntimeOperation P s sig = Inr s' \<and> op_status s' = st"
    using assms(2,3) ok [OF switch_move_valid [OF vp assms(2)]] by (simp add: advanceRuntimeOperation_def)
  show "opSwitch p sig = MoveReparse q \<Longrightarrow> \<exists>s'. advanceRuntimeOperation P s sig = Inr s' \<and> op_status s' = op_status q"
    using assms(2,3) ok [OF switch_reparse_valid [OF vp assms(2)]] by (simp add: advanceRuntimeOperation_def)
qed

text \<open>
  (C30) An operation can always be brought to an end: from every valid snapshot that is not
  terminal, a cancellation request followed by evidence that the execution stopped without
  effects is accepted and ends in canceled, whatever was dispatched, lost or requested before.
\<close>

theorem operation_can_always_stop:
  assumes "validOpSnapshot P s" "\<not> isTerminalRuntimeOperationStatus (op_status s)" "zUuid P request"
    "validRuntimeEvidenceRef P evidence"
  shows "\<exists>s'. advanceAll P s [SigCancelRequested request, SigStopped evidence Eff_none] = Inr s' \<and>
    op_status s' = Op_canceled"
proof -
  obtain p where p: "parseOpSnapshot P s = Inr p" "op_status p = op_status s"
    using assms(1) by (auto simp: parseOpSnapshot_def)
  note first = advance_defined [OF assms(1) _ p(1), of "SigCancelRequested request"]
  have "\<exists>t. advanceRuntimeOperation P s (SigCancelRequested request) = Inr t \<and>
      op_status t \<in> {Op_cancel_requested, Op_unknown}"
  proof (cases "op_status p = Op_unknown \<or> op_status p = Op_cancel_requested")
    case True
    then show ?thesis using first(2) assms(3) by (fastforce simp: Let_def)
  next
    case False
    then have "canTransitionRuntimeOperation (op_status p) Op_cancel_requested"
      using assms(2) p(2) by (cases "op_status s")
        (simp_all add: canTransitionRuntimeOperation_def isTerminalRuntimeOperationStatus_def)
    then show ?thesis using first(1) assms(3) False by (fastforce simp: Let_def)
  qed
  then obtain t where t: "advanceRuntimeOperation P s (SigCancelRequested request) = Inr t"
    "op_status t \<in> {Op_cancel_requested, Op_unknown}" by blast
  have n: "validOpSnapshot P t" using advance_normal [OF t(1)] by (rule normal_valid)
  obtain q where q: "parseOpSnapshot P t = Inr q" "op_status q = op_status t"
    using n by (auto simp: parseOpSnapshot_def)
  have "canTransitionRuntimeOperation (op_status q) Op_canceled"
    using t(2) q(2) by (auto simp: canTransitionRuntimeOperation_def)
  then have "\<exists>s'. advanceRuntimeOperation P t (SigStopped evidence Eff_none) = Inr s' \<and> op_status s' = Op_canceled"
    using advance_defined(1) [OF n _ q(1), of "SigStopped evidence Eff_none"] assms(4) by (simp add: Let_def)
  then show ?thesis using t(1) by auto
qed

theorem operation_can_always_stop_witness:
  "\<exists>s'. advanceAll samplePlatform sampleSnapshot [SigCancelRequested ''c9'', SigStopped sampleEvidence Eff_none] = Inr s' \<and>
     op_status s' = Op_canceled"
  using operation_can_always_stop [OF normal_valid [OF sampleSnapshot_normal], of "''c9''" sampleEvidence]
  by (simp add: sampleSnapshot_def isTerminalRuntimeOperationStatus_def)

end
