(* ===== verification/Replay.thy ===== *)
theory Replay
  imports Operations Decode
begin

text \<open>
  packages/contracts/src/runtime-v2/events.ts: the event envelope of an operation attempt, its
  decoding from an unknown value, and the bounded replay of an event sequence onto the snapshot.
  Decoders return None where \<open>safeParse\<close> fails.  Shown: decoding inverts the encoding of every
  valid event; a replay is exactly the run of the signals of the applied events, whose sequence
  numbers are 0, 1, 2, ...; redelivering an applied event changes nothing but the duplicate
  counter; and the reports account for every input.
\<close>

section \<open>Signals on the wire\<close>

definition resultStatusTable :: "(string \<times> OpStatus) list" where
  "resultStatusTable = [(''succeeded'', Op_succeeded), (''failed'', Op_failed), (''canceled'', Op_canceled),
     (''partial'', Op_partial)]"

definition effectsTable :: "(string \<times> OpEffects) list" where
  "effectsTable = [(''none'', Eff_none), (''applied'', Eff_applied), (''partial'', Eff_partial)]"

fun effectsStr :: "OpEffects \<Rightarrow> string" where
  "effectsStr Eff_none = ''none''" | "effectsStr Eff_applied = ''applied''" | "effectsStr Eff_partial = ''partial''"

definition waitTable :: "(string \<times> WaitReason) list" where
  "waitTable = [(''user'', Wait_user), (''device'', Wait_device), (''dependency'', Wait_dependency)]"

fun waitStr :: "WaitReason \<Rightarrow> string" where
  "waitStr Wait_user = ''user''" | "waitStr Wait_device = ''device''" | "waitStr Wait_dependency = ''dependency''"

definition uncertainTable :: "(string \<times> UncertainReason) list" where
  "uncertainTable = [(''connection_lost'', Lost_connection), (''lease_lost'', Lost_lease),
     (''receipt_missing'', Missing_receipt)]"

fun uncertainStr :: "UncertainReason \<Rightarrow> string" where
  "uncertainStr Lost_connection = ''connection_lost''" | "uncertainStr Lost_lease = ''lease_lost''"
| "uncertainStr Missing_receipt = ''receipt_missing''"

definition resultJson :: "OpResult \<Rightarrow> jsval" where
  "resultJson r = JObj [(''status'', JStr (opStatusStr (or_status r))),
     (''effects'', JStr (effectsStr (or_effects r))), (''evidence'', evidenceJson (or_evidence r))]"

definition decResult :: "platform \<Rightarrow> jsval \<Rightarrow> OpResult option" where
  "decResult P v = do {
     shape [''status'', ''effects'', ''evidence''] v;
     s \<leftarrow> decEnum resultStatusTable (jget ''status'' v);
     e \<leftarrow> decEnum effectsTable (jget ''effects'' v);
     d \<leftarrow> decEvidence P (jget ''evidence'' v);
     accept (validOpResult P) \<lparr>or_status = s, or_effects = e, or_evidence = d\<rparr> }"

fun signalType :: "OpSignal \<Rightarrow> string" where
  "signalType (SigWaiting _) = ''operation.waiting''"
| "signalType SigReady = ''operation.ready''"
| "signalType SigDispatched = ''operation.dispatched''"
| "signalType (SigStarted _) = ''operation.started''"
| "signalType SigTransportAck = ''operation.transport_ack''"
| "signalType (SigCancelRequested _) = ''operation.cancel_requested''"
| "signalType (SigUncertain _) = ''operation.uncertain''"
| "signalType (SigOutcome _) = ''operation.outcome''"
| "signalType (SigStopped _ _) = ''operation.stopped''"

fun signalFields :: "OpSignal \<Rightarrow> (string \<times> jsval) list" where
  "signalFields (SigWaiting r) = [(''reason'', JStr (waitStr r))]"
| "signalFields (SigStarted p) = [(''processId'', jOpt JStr p)]"
| "signalFields (SigCancelRequested r) = [(''requestId'', JStr r)]"
| "signalFields (SigUncertain r) = [(''reason'', JStr (uncertainStr r))]"
| "signalFields (SigOutcome r) = [(''result'', resultJson r)]"
| "signalFields (SigStopped e eff) = [(''evidence'', evidenceJson e), (''effects'', JStr (effectsStr eff))]"
| "signalFields _ = []"

definition signalJson :: "OpSignal \<Rightarrow> jsval" where
  "signalJson s = JObj ((''type'', JStr (signalType s)) # signalFields s)"

text \<open>The literals of the union's options, and the option a literal selects.\<close>

definition signalTypes :: "string list" where
  "signalTypes = [''operation.waiting'', ''operation.ready'', ''operation.dispatched'', ''operation.started'',
     ''operation.transport_ack'', ''operation.cancel_requested'', ''operation.uncertain'',
     ''operation.outcome'', ''operation.stopped'']"

definition decSignalFields :: "platform \<Rightarrow> string \<Rightarrow> jsval \<Rightarrow> OpSignal option" where
  "decSignalFields P t v =
     (if t = ''operation.waiting'' then do {
        shape [''type'', ''reason''] v; r \<leftarrow> decEnum waitTable (jget ''reason'' v); Some (SigWaiting r) }
      else if t = ''operation.ready'' then do { shape [''type''] v; Some SigReady }
      else if t = ''operation.dispatched'' then do { shape [''type''] v; Some SigDispatched }
      else if t = ''operation.started'' then do {
        shape [''type'', ''processId''] v; p \<leftarrow> decNullable decStr (jget ''processId'' v); Some (SigStarted p) }
      else if t = ''operation.transport_ack'' then do { shape [''type''] v; Some SigTransportAck }
      else if t = ''operation.cancel_requested'' then do {
        shape [''type'', ''requestId''] v; r \<leftarrow> decStr (jget ''requestId'' v); Some (SigCancelRequested r) }
      else if t = ''operation.uncertain'' then do {
        shape [''type'', ''reason''] v; r \<leftarrow> decEnum uncertainTable (jget ''reason'' v); Some (SigUncertain r) }
      else if t = ''operation.outcome'' then do {
        shape [''type'', ''result''] v; r \<leftarrow> decResult P (jget ''result'' v); Some (SigOutcome r) }
      else if t = ''operation.stopped'' then do {
        shape [''type'', ''evidence'', ''effects''] v; e \<leftarrow> decEvidence P (jget ''evidence'' v);
        f \<leftarrow> decEnum effectsTable (jget ''effects'' v); Some (SigStopped e f) }
      else None)"

definition decSignal :: "platform \<Rightarrow> jsval \<Rightarrow> OpSignal option" where
  "decSignal P v = do {
     t \<leftarrow> decStr (jget ''type'' v);
     s \<leftarrow> decSignalFields P t v;
     accept (validOpSignal P) s }"

definition opSnapshotJson :: "OpSnapshot \<Rightarrow> jsval" where
  "opSnapshotJson s = JObj [(''contractVersion'', JNum 1), (''binding'', bindingJson (op_binding s)),
     (''stepId'', jOpt JStr (op_stepId s)), (''agentInstanceId'', jOpt JStr (op_agentInstanceId s)),
     (''processId'', jOpt JStr (op_processId s)), (''cancelRequestId'', jOpt JStr (op_cancelRequestId s)),
     (''idempotencyKey'', JStr (op_idempotencyKey s)), (''status'', JStr (opStatusStr (op_status s))),
     (''result'', jOpt resultJson (op_result s))]"

section \<open>Events\<close>

record OpEvent =
  oe_eventId :: string
  oe_task :: RuntimeTaskRef
  oe_attempt :: RuntimeAttemptRef
  oe_execution :: RuntimeExecutionScope
  oe_sequence :: int
  oe_occurredAt :: string
  oe_signal :: OpSignal

definition validOpEvent :: "platform \<Rightarrow> OpEvent \<Rightarrow> bool" where
  "validOpEvent P e \<longleftrightarrow>
     zUuid P (oe_eventId e) \<and> validRuntimeTaskRef P (oe_task e) \<and> validRuntimeAttemptRef P (oe_attempt e) \<and>
     validRuntimeExecutionScope P (oe_execution e) \<and> zNonneg (oe_sequence e) \<and>
     zDatetime P (oe_occurredAt e) \<and> validOpSignal P (oe_signal e)"

definition opEventJson :: "OpEvent \<Rightarrow> jsval" where
  "opEventJson e = JObj [(''family'', JStr ''allrice.runtime.operation''), (''contractVersion'', JNum 1),
     (''eventId'', JStr (oe_eventId e)), (''task'', taskJson (oe_task e)),
     (''attempt'', attemptJson (oe_attempt e)), (''execution'', executionJson (oe_execution e)),
     (''sequence'', JNum (oe_sequence e)), (''occurredAt'', JStr (oe_occurredAt e)),
     (''signal'', signalJson (oe_signal e))]"

text \<open>The envelope: every field checked but the version only positive and the signal unknown.\<close>

record OpHeader =
  oh_contractVersion :: int
  oh_eventId :: string
  oh_task :: RuntimeTaskRef
  oh_attempt :: RuntimeAttemptRef
  oh_execution :: RuntimeExecutionScope
  oh_sequence :: int
  oh_occurredAt :: string
  oh_signal :: jsval

definition decHeader :: "platform \<Rightarrow> jsval \<Rightarrow> OpHeader option" where
  "decHeader P v = do {
     shape [''family'', ''contractVersion'', ''eventId'', ''task'', ''attempt'', ''execution'', ''sequence'',
       ''occurredAt'', ''signal''] v;
     accept (\<lambda>x. x = JStr ''allrice.runtime.operation'') (jget ''family'' v);
     n \<leftarrow> Option.bind (decInt (jget ''contractVersion'' v)) (accept zPositive);
     i \<leftarrow> Option.bind (decStr (jget ''eventId'' v)) (accept (zUuid P));
     t \<leftarrow> decTask P (jget ''task'' v);
     a \<leftarrow> decAttempt P (jget ''attempt'' v);
     x \<leftarrow> decExecution P (jget ''execution'' v);
     q \<leftarrow> Option.bind (decInt (jget ''sequence'' v)) (accept zNonneg);
     w \<leftarrow> Option.bind (decStr (jget ''occurredAt'' v)) (accept (zDatetime P));
     Some \<lparr>oh_contractVersion = n, oh_eventId = i, oh_task = t, oh_attempt = a, oh_execution = x,
       oh_sequence = q, oh_occurredAt = w, oh_signal = jget ''signal'' v\<rparr> }"

datatype OpReplayFailure =
    F_invalid_event | F_unsupported_version | F_unsupported_type
  | F_task_mismatch | F_operation_mismatch | F_attempt_mismatch | F_execution_scope_mismatch
  | F_event_id_conflict | F_sequence_conflict | F_sequence_gap | F_illegal_transition
  | F_invalid_initial_state | F_replay_limit

definition decodeRuntimeOperationEvent :: "platform \<Rightarrow> jsval \<Rightarrow> OpReplayFailure + OpEvent" where
  "decodeRuntimeOperationEvent P input =
     (case decHeader P input of
        None \<Rightarrow> Inl F_invalid_event
      | Some h \<Rightarrow>
          if oh_contractVersion h \<noteq> 1 then Inl F_unsupported_version
          else case Option.bind (decStr (jget ''type'' (oh_signal h))) (accept (lenIn 1 160)) of
              None \<Rightarrow> Inl F_invalid_event
            | Some t \<Rightarrow>
                if t \<notin> set signalTypes then Inl F_unsupported_type
                else case decSignal P (oh_signal h) of
                    None \<Rightarrow> Inl F_invalid_event
                  | Some s \<Rightarrow> Inr \<lparr>oe_eventId = oh_eventId h, oe_task = oh_task h, oe_attempt = oh_attempt h,
                      oe_execution = oh_execution h, oe_sequence = oh_sequence h,
                      oe_occurredAt = oh_occurredAt h, oe_signal = s\<rparr>)"

section \<open>Replay\<close>

record ReplayState =
  rs_snapshot :: OpSnapshot
  rs_nextSequence :: int
  rs_applied :: nat
  rs_duplicates :: nat
  rs_byId :: "string \<rightharpoonup> OpEvent"
  rs_bySequence :: "int \<rightharpoonup> string"

record ReplayResult =
  rr_snapshot :: OpSnapshot
  rr_nextSequence :: int
  rr_applied :: nat
  rr_duplicates :: nat
  rr_blocked :: "(nat \<times> OpReplayFailure) option"

definition replayReport :: "ReplayState \<Rightarrow> (nat \<times> OpReplayFailure) option \<Rightarrow> ReplayResult" where
  "replayReport st b = \<lparr>rr_snapshot = rs_snapshot st, rr_nextSequence = rs_nextSequence st,
     rr_applied = rs_applied st, rr_duplicates = rs_duplicates st, rr_blocked = b\<rparr>"

text \<open>One iteration of the loop on a decoded event: a block reason, or the next state.\<close>

definition replayEvent :: "platform \<Rightarrow> OpEvent \<Rightarrow> ReplayState \<Rightarrow> OpReplayFailure + ReplayState" where
  "replayEvent P event st = (let b = op_binding (rs_snapshot st) in
     if \<not> runtimeContractEqual P (taskJson (oe_task event)) (taskJson (ab_task b)) then Inl F_task_mismatch
     else if at_operationId (oe_attempt event) \<noteq> at_operationId (ab_attempt b) then Inl F_operation_mismatch
     else if \<not> runtimeContractEqual P (attemptJson (oe_attempt event)) (attemptJson (ab_attempt b))
       then Inl F_attempt_mismatch
     else if \<not> runtimeContractEqual P (executionJson (oe_execution event)) (executionJson (ab_execution b))
       then Inl F_execution_scope_mismatch
     else case rs_byId st (oe_eventId event) of
         Some previous \<Rightarrow>
           if \<not> runtimeContractEqual P (opEventJson event) (opEventJson previous) then Inl F_event_id_conflict
           else Inr (st\<lparr>rs_duplicates := rs_duplicates st + 1\<rparr>)
       | None \<Rightarrow>
           if rs_bySequence st (oe_sequence event) \<noteq> None then Inl F_sequence_conflict
           else if oe_sequence event \<noteq> rs_nextSequence st then Inl F_sequence_gap
           else case advanceRuntimeOperation P (rs_snapshot st) (oe_signal event) of
               Inl _ \<Rightarrow> Inl F_illegal_transition
             | Inr snapshot \<Rightarrow> Inr (st\<lparr>rs_snapshot := snapshot,
                 rs_byId := (rs_byId st)(oe_eventId event \<mapsto> event),
                 rs_bySequence := (rs_bySequence st)(oe_sequence event \<mapsto> oe_eventId event),
                 rs_nextSequence := rs_nextSequence st + 1, rs_applied := rs_applied st + 1\<rparr>))"

definition replayInput :: "platform \<Rightarrow> jsval \<Rightarrow> ReplayState \<Rightarrow> OpReplayFailure + ReplayState" where
  "replayInput P input st = (case decodeRuntimeOperationEvent P input of
     Inl reason \<Rightarrow> Inl reason | Inr event \<Rightarrow> replayEvent P event st)"

fun replayLoop :: "platform \<Rightarrow> nat \<Rightarrow> jsval list \<Rightarrow> ReplayState \<Rightarrow> ReplayResult" where
  "replayLoop P index [] st = replayReport st None"
| "replayLoop P index (input # inputs) st = (case replayInput P input st of
     Inl reason \<Rightarrow> replayReport st (Some (index, reason))
   | Inr st' \<Rightarrow> replayLoop P (index + 1) inputs st')"

definition replayStart :: "OpSnapshot \<Rightarrow> ReplayState" where
  "replayStart snapshot = \<lparr>rs_snapshot = snapshot, rs_nextSequence = 0, rs_applied = 0, rs_duplicates = 0,
     rs_byId = Map.empty, rs_bySequence = Map.empty\<rparr>"

definition replayRuntimeOperationEvents :: "platform \<Rightarrow> OpSnapshot \<Rightarrow> jsval list \<Rightarrow> ReplayResult result" where
  "replayRuntimeOperationEvents P initial inputs =
     andThen (parseOpSnapshot P initial) (\<lambda>snapshot. let st = replayStart snapshot in
       if op_status initial \<noteq> Op_planned \<or> op_processId initial \<noteq> None
         then Inr (replayReport st (Some (0, F_invalid_initial_state)))
       else if length inputs > 10000 then Inr (replayReport st (Some (0, F_replay_limit)))
       else Inr (replayLoop P 0 inputs st))"

section \<open>Decoding inverts encoding\<close>

lemma decEnum_signal_tables [simp]:
  "decEnum waitTable (JStr (waitStr r)) = Some r"
  "decEnum uncertainTable (JStr (uncertainStr u)) = Some u"
  "decEnum effectsTable (JStr (effectsStr f)) = Some f"
proof -
  show "decEnum waitTable (JStr (waitStr r)) = Some r"
    by (cases r) (simp_all add: decEnum_def waitTable_def)
  show "decEnum uncertainTable (JStr (uncertainStr u)) = Some u"
    by (cases u) (simp_all add: decEnum_def uncertainTable_def)
  show "decEnum effectsTable (JStr (effectsStr f)) = Some f"
    by (cases f) (simp_all add: decEnum_def effectsTable_def)
qed

lemma decResult_enc [simp]:
  assumes "validOpResult P r"
  shows "decResult P (resultJson r) = Some r"
proof -
  have "decEnum resultStatusTable (JStr (opStatusStr (or_status r))) = Some (or_status r)"
    using assms by (auto simp: validOpResult_def decEnum_def resultStatusTable_def)
  moreover have "validRuntimeEvidenceRef P (or_evidence r)" using assms by (simp add: validOpResult_def)
  ultimately show ?thesis using assms by (cases r) (simp add: decResult_def resultJson_def)
qed

lemma decSignalFields_enc:
  "validOpSignal P s \<Longrightarrow> decSignalFields P (signalType s) (signalJson s) = Some s"
  by (cases s) (simp_all add: decSignalFields_def signalJson_def)

lemma decSignal_enc [simp]: "validOpSignal P s \<Longrightarrow> decSignal P (signalJson s) = Some s"
  using decSignalFields_enc [of P s] by (simp add: decSignal_def signalJson_def)

lemma signal_tag: "lenIn 1 160 (signalType s)" "signalType s \<in> set signalTypes"
  by (cases s; simp add: lenIn_def signalTypes_def)+

lemma decode_enc: "validOpEvent P e \<Longrightarrow> decodeRuntimeOperationEvent P (opEventJson e) = Inr e"
proof -
  assume v: "validOpEvent P e"
  have "decHeader P (opEventJson e) = Some \<lparr>oh_contractVersion = 1, oh_eventId = oe_eventId e,
      oh_task = oe_task e, oh_attempt = oe_attempt e, oh_execution = oe_execution e,
      oh_sequence = oe_sequence e, oh_occurredAt = oe_occurredAt e, oh_signal = signalJson (oe_signal e)\<rparr>"
    using v by (simp add: decHeader_def opEventJson_def validOpEvent_def zPositive_def isSafeInteger_def)
  moreover have "jget ''type'' (signalJson s) = JStr (signalType s)" for s
    by (simp add: signalJson_def)
  ultimately show ?thesis
    using v by (cases e) (simp add: decodeRuntimeOperationEvent_def signal_tag [simplified] validOpEvent_def)
qed

text \<open>Whatever the decoder accepts satisfies the schema.\<close>

lemma decode_valid: "decodeRuntimeOperationEvent P v = Inr e \<Longrightarrow> validOpEvent P e"
  by (auto simp: decodeRuntimeOperationEvent_def validOpEvent_def decHeader_def bind_accept
      Option.bind_eq_Some_conv decTask_def decAttempt_def decExecution_def decSignal_def
      split: option.splits if_splits)

lemma faithful_result: "jsonOk (resultJson r)" "jeq (resultJson r) (resultJson r') \<Longrightarrow> r = r'"
proof -
  have s: "opStatusStr a = opStatusStr b \<Longrightarrow> a = b" for a b by (cases a; cases b) simp_all
  have f: "effectsStr a = effectsStr b \<Longrightarrow> a = b" for a b by (cases a; cases b) simp_all
  show "jsonOk (resultJson r)" by (simp add: resultJson_def faithful_ok [OF faithful_evidence])
  show "jeq (resultJson r) (resultJson r') \<Longrightarrow> r = r'"
    by (cases r; cases r') (auto simp: resultJson_def faithful_jeq [OF faithful_evidence] dest: s f)
qed

lemma faithful_signal: "faithful signalJson"
proof -
  have w: "waitStr a = waitStr b \<longleftrightarrow> a = b" for a b by (cases a; cases b) simp_all
  have u: "uncertainStr a = uncertainStr b \<longleftrightarrow> a = b" for a b by (cases a; cases b) simp_all
  have f: "effectsStr a = effectsStr b \<longleftrightarrow> a = b" for a b by (cases a; cases b) simp_all
  have "jsonOk (signalJson s)" for s
    by (cases s) (auto simp: signalJson_def faithful_result faithful_ok [OF faithful_evidence])
  moreover have "jeq (signalJson s) (signalJson s') \<Longrightarrow> s = s'" for s s'
    by (cases s; cases s')
      (auto simp: signalJson_def w u f faithful_jeq [OF faithful_evidence] dest: faithful_result(2))
  ultimately show ?thesis by (simp add: faithful_def)
qed

lemma faithful_event: "faithful opEventJson"
proof -
  note parts = faithful_task faithful_attempt faithful_execution faithful_signal
  show ?thesis
    using parts [THEN faithful_ok] parts [THEN faithful_jeq]
    by (auto simp: faithful_def [of opEventJson] opEventJson_def)
qed

lemmas event_contractEqual [simp] = faithful_contractEqual [OF faithful_event]

section \<open>The loop\<close>

text \<open>
  What the loop state says, with the applied events \<open>evs\<close> as a ghost variable: they are
  numbered 0, 1, 2, ..., their identities are distinct and are those of the attempt, the two maps
  index exactly them, and the snapshot is the run of their signals from the initial one.
\<close>

definition replayInv :: "platform \<Rightarrow> OpSnapshot \<Rightarrow> OpEvent list \<Rightarrow> ReplayState \<Rightarrow> bool" where
  "replayInv P s0 evs st \<longleftrightarrow>
     advanceAll P s0 (map oe_signal evs) = Inr (rs_snapshot st) \<and>
     rs_applied st = length evs \<and> rs_nextSequence st = int (length evs) \<and>
     map oe_sequence evs = map int [0..<length evs] \<and> distinct (map oe_eventId evs) \<and>
     (\<forall>k e. rs_byId st k = Some e \<longleftrightarrow> e \<in> set evs \<and> oe_eventId e = k) \<and>
     (\<forall>e \<in> set evs. oe_task e = ab_task (op_binding s0) \<and> oe_attempt e = ab_attempt (op_binding s0) \<and>
        oe_execution e = ab_execution (op_binding s0))"

lemma replayInv_start: "replayInv P s0 [] (replayStart s0)"
  by (simp add: replayInv_def replayStart_def)

lemma replayInv_binding:
  "replayInv P s0 evs st \<Longrightarrow> normalSnapshot P s0 \<Longrightarrow> op_binding (rs_snapshot st) = op_binding s0"
  using op.run_older [of P s0 "map oe_signal evs"] by (auto simp: replayInv_def opOlder_def)

lemma replayEvent_cases:
  assumes "replayEvent P e st = Inr st'"
  obtains (dup) "rs_byId st (oe_eventId e) = Some e" "st' = st\<lparr>rs_duplicates := rs_duplicates st + 1\<rparr>"
  | (new) s where "rs_byId st (oe_eventId e) = None" "oe_sequence e = rs_nextSequence st"
      "oe_task e = ab_task (op_binding (rs_snapshot st))" "oe_attempt e = ab_attempt (op_binding (rs_snapshot st))"
      "oe_execution e = ab_execution (op_binding (rs_snapshot st))"
      "advanceRuntimeOperation P (rs_snapshot st) (oe_signal e) = Inr s"
      "st' = st\<lparr>rs_snapshot := s, rs_byId := (rs_byId st)(oe_eventId e \<mapsto> e),
         rs_bySequence := (rs_bySequence st)(oe_sequence e \<mapsto> oe_eventId e),
         rs_nextSequence := rs_nextSequence st + 1, rs_applied := rs_applied st + 1\<rparr>"
  using assms by (auto simp: replayEvent_def Let_def split: if_splits option.splits sum.splits)

lemma replayEvent_inv:
  assumes "replayEvent P e st = Inr st'" "replayInv P s0 evs st" "normalSnapshot P s0"
  shows "\<exists>evs'. replayInv P s0 evs' st' \<and> set evs' = insert e (set evs) \<and>
    rs_applied st' + rs_duplicates st' = rs_applied st + rs_duplicates st + 1"
  using assms(1)
proof (cases rule: replayEvent_cases)
  case dup
  then have "e \<in> set evs" using assms(2) by (simp add: replayInv_def)
  then show ?thesis using assms(2) dup by (intro exI [of _ evs]) (auto simp: replayInv_def)
next
  case (new s)
  have i: "advanceAll P s0 (map oe_signal evs) = Inr (rs_snapshot st)"
    "\<And>k x. rs_byId st k = Some x \<longleftrightarrow> x \<in> set evs \<and> oe_eventId x = k"
    using assms(2) by (simp_all add: replayInv_def)
  have fresh: "oe_eventId e \<notin> oe_eventId ` set evs"
  proof
    assume "oe_eventId e \<in> oe_eventId ` set evs"
    then obtain x where "x \<in> set evs" "oe_eventId x = oe_eventId e" by auto
    then show False using i(2) [of "oe_eventId e" x] new(1) by simp
  qed
  have run: "advanceAll P s0 (map oe_signal (evs @ [e])) = Inr s"
    using new(6) i(1) by (simp add: runAll_append)
  have ids: "((rs_byId st)(oe_eventId e \<mapsto> e)) k = Some x \<longleftrightarrow> x \<in> set (evs @ [e]) \<and> oe_eventId x = k" for k x
    using i(2) [of k x] fresh new(1) by auto
  have "replayInv P s0 (evs @ [e]) st'"
    using assms(2) fresh replayInv_binding [OF assms(2,3)] run ids new(2-5)
    unfolding replayInv_def new(7) by (simp del: fun_upd_apply)
  then show ?thesis using new(7) by (intro exI [of _ "evs @ [e]"]) auto
qed

lemma replayInput_Inr:
  "replayInput P v st = Inr st' \<longleftrightarrow>
     (\<exists>e. decodeRuntimeOperationEvent P v = Inr e \<and> replayEvent P e st = Inr st')"
  by (auto simp: replayInput_def split: sum.splits)

text \<open>The loop is the run of its body, stopped at the first block.\<close>

lemma replayLoop_run:
  assumes "runAll (\<lambda>st v. replayInput P v st) st xs = Inr st'"
  shows "replayLoop P i (xs @ ys) st = replayLoop P (i + length xs) ys st'"
  using assms by (induction xs arbitrary: i st) (auto split: sum.splits elim!: runAll_ConsE)

lemma replayLoop_cases:
  "(\<exists>st'. runAll (\<lambda>st v. replayInput P v st) st xs = Inr st' \<and> replayLoop P i xs st = replayReport st' None) \<or>
   (\<exists>ys v zs st' reason. xs = ys @ v # zs \<and> runAll (\<lambda>st v. replayInput P v st) st ys = Inr st' \<and>
      replayLoop P i xs st = replayReport st' (Some (i + length ys, reason)))"
proof (induction xs arbitrary: i st)
  case (Cons v vs)
  show ?case
  proof (cases "replayInput P v st")
    case (Inl reason)
    then show ?thesis by (intro disjI2 exI [of _ "[]"] exI [of _ v] exI [of _ vs]) auto
  next
    case (Inr t)
    from Cons.IH [of t "i + 1"] show ?thesis
    proof (elim disjE exE conjE)
      fix ys u zs st' reason
      assume a: "vs = ys @ u # zs" "runAll (\<lambda>st v. replayInput P v st) t ys = Inr st'"
        "replayLoop P (i + 1) vs t = replayReport st' (Some (i + 1 + length ys, reason))"
      show ?thesis
        by (intro disjI2 exI [of _ "v # ys"] exI [of _ u] exI [of _ zs]) (use a Inr in auto)
    qed (use Inr in auto)
  qed
qed simp

text \<open>
  The invariant as the client of a run sees it: \<open>vs\<close> are the inputs consumed so far, every one of
  them an applied event or a repetition of one.
\<close>

definition replayInvOf :: "platform \<Rightarrow> OpSnapshot \<Rightarrow> jsval list \<Rightarrow> OpEvent list \<Rightarrow> ReplayState \<Rightarrow> bool" where
  "replayInvOf P s0 vs evs st \<longleftrightarrow> replayInv P s0 evs st \<and>
     rs_applied st + rs_duplicates st = length vs \<and>
     (\<forall>e \<in> set evs. \<exists>v \<in> set vs. decodeRuntimeOperationEvent P v = Inr e) \<and>
     (\<forall>v \<in> set vs. \<exists>e \<in> set evs. decodeRuntimeOperationEvent P v = Inr e)"

lemma replayInvOf_start: "replayInvOf P s0 [] [] (replayStart s0)"
  by (simp add: replayInvOf_def replayInv_start) (simp add: replayStart_def)

lemma replay_run_inv:
  assumes "normalSnapshot P s0"
  shows "runAll (\<lambda>st v. replayInput P v st) (replayStart s0) vs = Inr st \<Longrightarrow> \<exists>evs. replayInvOf P s0 vs evs st"
proof (induction vs arbitrary: st rule: rev_induct)
  case Nil
  then show ?case using replayInvOf_start by auto
next
  case (snoc v vs)
  then obtain t e where t: "runAll (\<lambda>st v. replayInput P v st) (replayStart s0) vs = Inr t"
    "decodeRuntimeOperationEvent P v = Inr e" "replayEvent P e t = Inr st"
    by (auto simp: runAll_append andThen_Inr_iff replayInput_Inr)
  from snoc.IH [OF t(1)] obtain evs where evs: "replayInvOf P s0 vs evs t" by blast
  then have "replayInv P s0 evs t" by (simp add: replayInvOf_def)
  from replayEvent_inv [OF t(3) this assms] obtain evs' where e: "replayInv P s0 evs' st"
    "set evs' = insert e (set evs)" "rs_applied st + rs_duplicates st = rs_applied t + rs_duplicates t + 1"
    by blast
  have "replayInvOf P s0 (vs @ [v]) evs' st"
    using e evs t(2) by (auto simp: replayInvOf_def)
  then show ?case by blast
qed

lemma replay_parse:
  assumes "replayRuntimeOperationEvents P initial inputs = Inr r"
  obtains s0 where "parseOpSnapshot P initial = Inr s0" "normalSnapshot P s0"
    "r = replayReport (replayStart s0) (rr_blocked r) \<and> (\<exists>reason. rr_blocked r = Some (0, reason)) \<or>
     op_status initial = Op_planned \<and> op_processId initial = None \<and> length inputs \<le> 10000 \<and>
     r = replayLoop P 0 inputs (replayStart s0)"
proof -
  from assms obtain s0 where s0: "parseOpSnapshot P initial = Inr s0"
    by (auto simp: replayRuntimeOperationEvents_def andThen_Inr_iff)
  show thesis
    by (rule that [OF s0 normal_parsed [OF s0]])
      (use assms s0 in \<open>auto simp: replayRuntimeOperationEvents_def Let_def replayReport_def split: if_splits\<close>)
qed

lemma replay_state:
  assumes "replayRuntimeOperationEvents P initial inputs = Inr r"
  shows "\<exists>s0 vs ws evs st. parseOpSnapshot P initial = Inr s0 \<and> inputs = vs @ ws \<and>
    replayInvOf P s0 vs evs st \<and> r = replayReport st (rr_blocked r) \<and>
    (case rr_blocked r of None \<Rightarrow> ws = [] | Some (i, _) \<Rightarrow> i = length vs)"
  using assms
proof (rule replay_parse)
  fix s0 assume s0: "parseOpSnapshot P initial = Inr s0" "normalSnapshot P s0"
  note start = replayInvOf_start [of P s0]
  assume "r = replayReport (replayStart s0) (rr_blocked r) \<and> (\<exists>reason. rr_blocked r = Some (0, reason)) \<or>
     op_status initial = Op_planned \<and> op_processId initial = None \<and> length inputs \<le> 10000 \<and>
     r = replayLoop P 0 inputs (replayStart s0)"
  then show ?thesis
  proof (elim disjE conjE exE)
    fix reason assume "r = replayReport (replayStart s0) (rr_blocked r)" "rr_blocked r = Some (0, reason)"
    then show ?thesis using s0 start by fastforce
  next
    assume "r = replayLoop P 0 inputs (replayStart s0)"
    with replayLoop_cases [of P "replayStart s0" inputs 0] show ?thesis
    proof (elim disjE exE conjE)
      fix st' assume a: "runAll (\<lambda>st v. replayInput P v st) (replayStart s0) inputs = Inr st'"
        "replayLoop P 0 inputs (replayStart s0) = replayReport st' None" "r = replayLoop P 0 inputs (replayStart s0)"
      obtain evs where "replayInvOf P s0 inputs evs st'" using replay_run_inv [OF s0(2) a(1)] by blast
      then show ?thesis using s0 a by (auto simp: replayReport_def)
    next
      fix ys v zs st' reason
      assume a: "inputs = ys @ v # zs" "runAll (\<lambda>st v. replayInput P v st) (replayStart s0) ys = Inr st'"
        "replayLoop P 0 inputs (replayStart s0) = replayReport st' (Some (0 + length ys, reason))"
        "r = replayLoop P 0 inputs (replayStart s0)"
      obtain evs where "replayInvOf P s0 ys evs st'" using replay_run_inv [OF s0(2) a(2)] by blast
      then show ?thesis using s0 a by (fastforce simp: replayReport_def)
    qed
  qed
qed

section \<open>Redelivery\<close>

text \<open>An input that has been consumed is consumed again as a duplicate.\<close>

lemma replayInput_again:
  assumes "replayInvOf P s0 vs evs st" "normalSnapshot P s0" "v \<in> set vs"
  shows "replayInput P v st = Inr (st\<lparr>rs_duplicates := rs_duplicates st + 1\<rparr>)"
proof -
  obtain e where e: "e \<in> set evs" "decodeRuntimeOperationEvent P v = Inr e"
    using assms(1,3) by (auto simp: replayInvOf_def)
  have i: "replayInv P s0 evs st" using assms(1) by (simp add: replayInvOf_def)
  then have "rs_byId st (oe_eventId e) = Some e"
    "oe_task e = ab_task (op_binding s0) \<and> oe_attempt e = ab_attempt (op_binding s0) \<and>
     oe_execution e = ab_execution (op_binding s0)"
    using e(1) by (simp_all add: replayInv_def)
  then show ?thesis
    using e(2) replayInv_binding [OF i assms(2)] by (simp add: replayInput_def replayEvent_def Let_def)
qed

lemma replay_again:
  assumes "replayRuntimeOperationEvents P initial vs = Inr r" "rr_blocked r = None" "v \<in> set vs"
    "length vs < 10000"
  shows "replayRuntimeOperationEvents P initial (vs @ [v]) = Inr (r\<lparr>rr_duplicates := rr_duplicates r + 1\<rparr>)"
  using assms(1)
proof (rule replay_parse)
  fix s0 assume s0: "parseOpSnapshot P initial = Inr s0" "normalSnapshot P s0"
    and "r = replayReport (replayStart s0) (rr_blocked r) \<and> (\<exists>reason. rr_blocked r = Some (0, reason)) \<or>
     op_status initial = Op_planned \<and> op_processId initial = None \<and> length vs \<le> 10000 \<and>
     r = replayLoop P 0 vs (replayStart s0)"
  with assms(2) have p: "op_status initial = Op_planned" "op_processId initial = None"
    and r: "r = replayLoop P 0 vs (replayStart s0)" by auto
  from replayLoop_cases [of P "replayStart s0" vs 0] r assms(2) obtain st where
    st: "runAll (\<lambda>st v. replayInput P v st) (replayStart s0) vs = Inr st" "r = replayReport st None"
    by (auto simp: replayReport_def)
  obtain evs where "replayInvOf P s0 vs evs st" using replay_run_inv [OF s0(2) st(1)] by blast
  from replayInput_again [OF this s0(2) assms(3)]
  have "replayLoop P 0 (vs @ [v]) (replayStart s0) = r\<lparr>rr_duplicates := rr_duplicates r + 1\<rparr>"
    using replayLoop_run [OF st(1), of 0 "[v]"] st(2) by (simp add: replayReport_def)
  then show ?thesis
    using s0(1) p assms(4) by (simp add: replayRuntimeOperationEvents_def Let_def)
qed

section \<open>Properties\<close>

definition sampleEvent :: "string \<Rightarrow> int \<Rightarrow> OpSignal \<Rightarrow> OpEvent" where
  "sampleEvent i n sig = \<lparr>oe_eventId = i, oe_task = sampleTask, oe_attempt = sampleAttempt,
     oe_execution = sampleExecution, oe_sequence = n, oe_occurredAt = ''2026-01-01T00:00:00Z'', oe_signal = sig\<rparr>"

lemma sampleEvent_valid:
  "length i = 2 \<Longrightarrow> zNonneg n \<Longrightarrow> validOpSignal samplePlatform sig \<Longrightarrow> validOpEvent samplePlatform (sampleEvent i n sig)"
  using sampleBinding_ok
  by (simp add: validOpEvent_def sampleEvent_def validRuntimeActionBinding_def sampleBinding_def)

lemma sample_parts [simp]:
  "ab_task sampleBinding = sampleTask" "ab_attempt sampleBinding = sampleAttempt"
  "ab_execution sampleBinding = sampleExecution"
  by (simp_all add: sampleBinding_def)

lemma sample_replay:
  "\<exists>r. replayRuntimeOperationEvents samplePlatform sampleSnapshot
     [opEventJson (sampleEvent ''e0'' 0 SigReady), opEventJson (sampleEvent ''e1'' 1 SigDispatched)] = Inr r \<and>
     rr_blocked r = None \<and> rr_applied r = 2 \<and> op_status (rr_snapshot r) = Op_dispatched"
proof -
  have d: "decodeRuntimeOperationEvent samplePlatform (opEventJson (sampleEvent ''e0'' 0 SigReady))
      = Inr (sampleEvent ''e0'' 0 SigReady)"
    "decodeRuntimeOperationEvent samplePlatform (opEventJson (sampleEvent ''e1'' 1 SigDispatched))
      = Inr (sampleEvent ''e1'' 1 SigDispatched)"
    by (simp_all add: decode_enc sampleEvent_valid zNonneg_def isSafeInteger_def)
  have f: "oe_eventId (sampleEvent i n s) = i" "oe_task (sampleEvent i n s) = sampleTask"
    "oe_attempt (sampleEvent i n s) = sampleAttempt" "oe_execution (sampleEvent i n s) = sampleExecution"
    "oe_sequence (sampleEvent i n s) = n" "oe_signal (sampleEvent i n s) = s" for i n s
    by (simp_all add: sampleEvent_def)
  show ?thesis
    by (simp add: replayRuntimeOperationEvents_def sample_run_simps replayInput_def replayEvent_def
        d f replayStart_def replayReport_def Let_def)
qed

text \<open>
  (C25) Decoding inverts encoding: every event that satisfies the schema, written out as the
  envelope of the code, decodes to itself; and whatever the decoder accepts satisfies the schema.
\<close>

theorem event_decode_roundtrip:
  "(validOpEvent P e \<longrightarrow> decodeRuntimeOperationEvent P (opEventJson e) = Inr e) \<and>
   (decodeRuntimeOperationEvent P v = Inr e' \<longrightarrow> validOpEvent P e')"
  using decode_enc decode_valid by blast

theorem event_decode_roundtrip_witness:
  "decodeRuntimeOperationEvent samplePlatform (opEventJson (sampleEvent ''e0'' 0 SigReady))
     = Inr (sampleEvent ''e0'' 0 SigReady)"
  using event_decode_roundtrip [of samplePlatform "sampleEvent ''e0'' 0 SigReady"]
  by (simp add: sampleEvent_valid zNonneg_def isSafeInteger_def)

text \<open>
  (C12) A replay that returns is the run of the signals of the events it applied: they decode from
  the inputs, carry the task, attempt and execution of the snapshot, have distinct identities and
  the sequence numbers 0, 1, 2, ...; the report counts them, and applied events and duplicates
  together account for every input up to the one that blocked, or for all of them.
\<close>

theorem replay_is_ordered_run:
  assumes "replayRuntimeOperationEvents P initial inputs = Inr r"
  shows "\<exists>s0 evs. parseOpSnapshot P initial = Inr s0 \<and>
    advanceAll P s0 (map oe_signal evs) = Inr (rr_snapshot r) \<and>
    rr_applied r = length evs \<and> rr_nextSequence r = int (length evs) \<and>
    map oe_sequence evs = map int [0..<length evs] \<and> distinct (map oe_eventId evs) \<and>
    (\<forall>e \<in> set evs. oe_task e = ab_task (op_binding s0) \<and> oe_attempt e = ab_attempt (op_binding s0) \<and>
       oe_execution e = ab_execution (op_binding s0) \<and>
       (\<exists>v \<in> set inputs. decodeRuntimeOperationEvent P v = Inr e)) \<and>
    rr_applied r + rr_duplicates r = (case rr_blocked r of None \<Rightarrow> length inputs | Some (i, _) \<Rightarrow> i)"
proof -
  from replay_state [OF assms] obtain s0 vs ws evs st where
    s: "parseOpSnapshot P initial = Inr s0" "inputs = vs @ ws" "replayInvOf P s0 vs evs st"
    "r = replayReport st (rr_blocked r)" "case rr_blocked r of None \<Rightarrow> ws = [] | Some (i, _) \<Rightarrow> i = length vs"
    by blast
  have f: "rr_snapshot r = rs_snapshot st \<and> rr_applied r = rs_applied st \<and> rr_duplicates r = rs_duplicates st
    \<and> rr_nextSequence r = rs_nextSequence st"
    using s(4) by (metis ReplayResult.select_convs replayReport_def)
  have "rr_applied r + rr_duplicates r = (case rr_blocked r of None \<Rightarrow> length inputs | Some (i, _) \<Rightarrow> i)"
    using s(2,3,5) f by (auto simp: replayInvOf_def split: option.splits)
  then show ?thesis
    using s(1,2,3) f by (intro exI [of _ s0] exI [of _ evs]) (auto simp: replayInvOf_def replayInv_def)
qed

theorem replay_is_ordered_run_witness:
  "\<exists>r s0. replayRuntimeOperationEvents samplePlatform sampleSnapshot
     [opEventJson (sampleEvent ''e0'' 0 SigReady), opEventJson (sampleEvent ''e1'' 1 SigDispatched)] = Inr r \<and>
     parseOpSnapshot samplePlatform sampleSnapshot = Inr s0 \<and> rr_nextSequence r = 2"
proof -
  obtain r where r: "replayRuntimeOperationEvents samplePlatform sampleSnapshot
     [opEventJson (sampleEvent ''e0'' 0 SigReady), opEventJson (sampleEvent ''e1'' 1 SigDispatched)] = Inr r"
     "rr_applied r = 2"
    using sample_replay by blast
  from replay_is_ordered_run [OF r(1)] obtain s0 and evs :: "OpEvent list" where
    "parseOpSnapshot samplePlatform sampleSnapshot = Inr s0" "rr_applied r = length evs"
    "rr_nextSequence r = int (length evs)" by blast
  then show ?thesis using r by auto
qed

text \<open>
  Redelivery is harmless: when a replay has consumed all its inputs, giving it any one of
  them once more returns the same report with one more duplicate.
\<close>

theorem replay_redelivery_idempotent:
  assumes "replayRuntimeOperationEvents P initial vs = Inr r" "rr_blocked r = None" "v \<in> set vs"
    "length vs < 10000"
  shows "replayRuntimeOperationEvents P initial (vs @ [v]) = Inr (r\<lparr>rr_duplicates := rr_duplicates r + 1\<rparr>)"
  by (rule replay_again [OF assms])

theorem replay_redelivery_idempotent_witness:
  "\<exists>r. replayRuntimeOperationEvents samplePlatform sampleSnapshot
     ([opEventJson (sampleEvent ''e0'' 0 SigReady), opEventJson (sampleEvent ''e1'' 1 SigDispatched)]
      @ [opEventJson (sampleEvent ''e0'' 0 SigReady)]) = Inr r \<and> op_status (rr_snapshot r) = Op_dispatched"
proof -
  obtain r where r: "replayRuntimeOperationEvents samplePlatform sampleSnapshot
     [opEventJson (sampleEvent ''e0'' 0 SigReady), opEventJson (sampleEvent ''e1'' 1 SigDispatched)] = Inr r"
     "rr_blocked r = None" "op_status (rr_snapshot r) = Op_dispatched"
    using sample_replay by blast
  from replay_redelivery_idempotent [OF r(1,2), of "opEventJson (sampleEvent ''e0'' 0 SigReady)"] r(3)
  show ?thesis by auto
qed

end
