(* ===== verification/Usage.thy ===== *)
theory Usage
  imports Replay IsoTime
begin

text \<open>
  packages/contracts/src/runtime-v2/usage.ts: usage observations, and the policy of
  packages/database/src/execution-usage-policy.ts.  Shown: the encoding tells different observations
  apart, and the meaning of an accepted one.
\<close>

datatype UsageSourceKind = Src_provider | Src_harness | Src_worker | Src_bridge | Src_cloud_runner | Src_estimator

fun sourceKindStr :: "UsageSourceKind \<Rightarrow> string" where
  "sourceKindStr Src_provider = ''provider''"
| "sourceKindStr Src_harness = ''harness''"
| "sourceKindStr Src_worker = ''worker''"
| "sourceKindStr Src_bridge = ''bridge''"
| "sourceKindStr Src_cloud_runner = ''cloud_runner''"
| "sourceKindStr Src_estimator = ''estimator''"

record UsageSource =
  us_kind :: UsageSourceKind
  us_sourceId :: string

definition usageSourceJson :: "UsageSource \<Rightarrow> jsval" where
  "usageSourceJson s = JObj [(''kind'', JStr (sourceKindStr (us_kind s))), (''sourceId'', JStr (us_sourceId s))]"

datatype UsageBoundary =
    Boundary_root_run string
  | Boundary_run string
  | Boundary_operation RuntimeAttemptRef

fun boundaryJson :: "UsageBoundary \<Rightarrow> jsval" where
  "boundaryJson (Boundary_root_run runId) = JObj [(''kind'', JStr ''root_run''), (''runId'', JStr runId)]"
| "boundaryJson (Boundary_run runId) = JObj [(''kind'', JStr ''run''), (''runId'', JStr runId)]"
| "boundaryJson (Boundary_operation attempt) = JObj [(''kind'', JStr ''operation''), (''attempt'', attemptJson attempt)]"

fun validBoundary :: "platform \<Rightarrow> UsageBoundary \<Rightarrow> bool" where
  "validBoundary P (Boundary_root_run runId) = zUuid P runId"
| "validBoundary P (Boundary_run runId) = zUuid P runId"
| "validBoundary P (Boundary_operation attempt) = validRuntimeAttemptRef P attempt"

datatype UsageMetric =
    Metric_input_tokens | Metric_cached_input_tokens | Metric_output_tokens | Metric_model_calls
  | Metric_tool_calls | Metric_wall_time | Metric_output_bytes | Metric_cost

fun metricStr :: "UsageMetric \<Rightarrow> string" where
  "metricStr Metric_input_tokens = ''input_tokens''"
| "metricStr Metric_cached_input_tokens = ''cached_input_tokens''"
| "metricStr Metric_output_tokens = ''output_tokens''"
| "metricStr Metric_model_calls = ''model_calls''"
| "metricStr Metric_tool_calls = ''tool_calls''"
| "metricStr Metric_wall_time = ''wall_time''"
| "metricStr Metric_output_bytes = ''output_bytes''"
| "metricStr Metric_cost = ''cost''"

datatype UsageUnit = Unit_tokens | Unit_calls | Unit_milliseconds | Unit_bytes | Unit_currency_microunits

fun unitStr :: "UsageUnit \<Rightarrow> string" where
  "unitStr Unit_tokens = ''tokens''"
| "unitStr Unit_calls = ''calls''"
| "unitStr Unit_milliseconds = ''milliseconds''"
| "unitStr Unit_bytes = ''bytes''"
| "unitStr Unit_currency_microunits = ''currency_microunits''"

fun metricUnits :: "UsageMetric \<Rightarrow> UsageUnit" where
  "metricUnits Metric_input_tokens = Unit_tokens"
| "metricUnits Metric_cached_input_tokens = Unit_tokens"
| "metricUnits Metric_output_tokens = Unit_tokens"
| "metricUnits Metric_model_calls = Unit_calls"
| "metricUnits Metric_tool_calls = Unit_calls"
| "metricUnits Metric_wall_time = Unit_milliseconds"
| "metricUnits Metric_output_bytes = Unit_bytes"
| "metricUnits Metric_cost = Unit_currency_microunits"

datatype UsageAggregation = Aggregate_self_only | Aggregate_includes_descendants
datatype UsageMode = Mode_delta | Mode_cumulative
datatype UsageQuality = Quality_measured | Quality_estimated | Quality_unknown
datatype UsageState = Usage_reserved | Usage_spent | Usage_settled

fun aggregationStr :: "UsageAggregation \<Rightarrow> string" where
  "aggregationStr Aggregate_self_only = ''self_only''"
| "aggregationStr Aggregate_includes_descendants = ''includes_descendants''"

fun modeStr :: "UsageMode \<Rightarrow> string" where
  "modeStr Mode_delta = ''delta''"
| "modeStr Mode_cumulative = ''cumulative''"

fun qualityStr :: "UsageQuality \<Rightarrow> string" where
  "qualityStr Quality_measured = ''measured''"
| "qualityStr Quality_estimated = ''estimated''"
| "qualityStr Quality_unknown = ''unknown''"

fun usageStateStr :: "UsageState \<Rightarrow> string" where
  "usageStateStr Usage_reserved = ''reserved''"
| "usageStateStr Usage_spent = ''spent''"
| "usageStateStr Usage_settled = ''settled''"

record UsageObservation =
  uo_observationId :: string
  uo_accountingId :: string
  uo_task :: RuntimeTaskRef
  uo_source :: UsageSource
  uo_boundary :: UsageBoundary
  uo_aggregation :: UsageAggregation
  uo_metric :: UsageMetric
  uo_unit :: UsageUnit
  uo_currency :: "string option"
  uo_mode :: UsageMode
  uo_quality :: UsageQuality
  uo_amount :: "int option"
  uo_state :: UsageState
  uo_windowId :: string
  uo_startedAt :: string
  uo_endedAt :: string
  uo_observedAt :: string

definition currencyOk :: "string \<Rightarrow> bool" where
  "currencyOk s \<longleftrightarrow> length s = 3 \<and> list_all (\<lambda>c. 65 \<le> (of_char c :: nat) \<and> (of_char c :: nat) \<le> 90) s"

text \<open>\<open>Date.parse a < Date.parse b\<close>, false when either is NaN.\<close>

definition before :: "string \<Rightarrow> string \<Rightarrow> bool" where
  "before a b \<longleftrightarrow> (case (dateParse a, dateParse b) of (Some t, Some u) \<Rightarrow> t < u | _ \<Rightarrow> False)"

definition validUsageObservation :: "platform \<Rightarrow> UsageObservation \<Rightarrow> bool" where
  "validUsageObservation P v \<longleftrightarrow>
     zUuid P (uo_observationId v) \<and> zUuid P (uo_accountingId v) \<and> validRuntimeTaskRef P (uo_task v) \<and>
     lenIn 1 240 (trim (us_sourceId (uo_source v))) \<and> validBoundary P (uo_boundary v) \<and> optAll currencyOk (uo_currency v) \<and>
     optAll zNonneg (uo_amount v) \<and> zUuid P (uo_windowId v) \<and> zDatetime P (uo_startedAt v) \<and> zDatetime P (uo_endedAt v) \<and>
     zDatetime P (uo_observedAt v) \<and>
     (uo_quality v = Quality_unknown) = (uo_amount v = None) \<and> metricUnits (uo_metric v) = uo_unit v \<and>
     (uo_metric v = Metric_cost) = (uo_currency v \<noteq> None) \<and>
     (case uo_boundary v of Boundary_root_run runId \<Rightarrow> runId = tk_rootRunId (uo_task v)
      | Boundary_run runId \<Rightarrow> runId = tk_runId (uo_task v)
      | Boundary_operation _ \<Rightarrow> uo_aggregation v = Aggregate_self_only) \<and>
     \<not> before (uo_endedAt v) (uo_startedAt v) \<and> \<not> before (uo_observedAt v) (uo_endedAt v)"

definition parseUsageObservation :: "platform \<Rightarrow> UsageObservation \<Rightarrow> UsageObservation result" where
  "parseUsageObservation P v =
     (if validUsageObservation P v
      then Inr (v\<lparr>uo_source := (uo_source v)\<lparr>us_sourceId := trim (us_sourceId (uo_source v))\<rparr>\<rparr>) else Inl ZodError)"

definition usageObservationJson :: "UsageObservation \<Rightarrow> jsval" where
  "usageObservationJson v = JObj [(''contractVersion'', JNum 1), (''observationId'', JStr (uo_observationId v)),
     (''accountingId'', JStr (uo_accountingId v)), (''task'', taskJson (uo_task v)), (''source'', usageSourceJson (uo_source v)),
     (''accountingBoundary'', boundaryJson (uo_boundary v)), (''aggregation'', JStr (aggregationStr (uo_aggregation v))),
     (''metric'', JStr (metricStr (uo_metric v))), (''unit'', JStr (unitStr (uo_unit v))),
     (''currency'', jOpt JStr (uo_currency v)), (''mode'', JStr (modeStr (uo_mode v))),
     (''quality'', JStr (qualityStr (uo_quality v))), (''amount'', jOpt JNum (uo_amount v)),
     (''state'', JStr (usageStateStr (uo_state v))),
     (''window'', JObj [(''id'', JStr (uo_windowId v)), (''startedAt'', JStr (uo_startedAt v)), (''endedAt'', JStr (uo_endedAt v))]),
     (''observedAt'', JStr (uo_observedAt v))]"

definition isObservedExecutionMetric :: "UsageMetric \<Rightarrow> bool" where
  "isObservedExecutionMetric m \<longleftrightarrow> m \<in> {Metric_input_tokens, Metric_cached_input_tokens, Metric_output_tokens,
     Metric_model_calls, Metric_tool_calls, Metric_cost}"

definition isTokenMetric :: "UsageMetric \<Rightarrow> bool" where
  "isTokenMetric m \<longleftrightarrow> m \<in> {Metric_input_tokens, Metric_cached_input_tokens, Metric_output_tokens}"

definition isCallMetric :: "UsageMetric \<Rightarrow> bool" where
  "isCallMetric m \<longleftrightarrow> m = Metric_model_calls \<or> m = Metric_tool_calls"

section \<open>Encodings\<close>

lemma usage_tables [simp]:
  "sourceKindStr a = sourceKindStr b \<longleftrightarrow> a = b" "metricStr m = metricStr n \<longleftrightarrow> m = n" "unitStr u = unitStr v \<longleftrightarrow> u = v"
  "aggregationStr x = aggregationStr y \<longleftrightarrow> x = y" "modeStr c = modeStr d \<longleftrightarrow> c = d" "qualityStr p = qualityStr q \<longleftrightarrow> p = q"
  "usageStateStr s = usageStateStr t \<longleftrightarrow> s = t"
proof -
  show "sourceKindStr a = sourceKindStr b \<longleftrightarrow> a = b" by (cases a; cases b) simp_all
  show "metricStr m = metricStr n \<longleftrightarrow> m = n" by (cases m; cases n) simp_all
  show "unitStr u = unitStr v \<longleftrightarrow> u = v" by (cases u; cases v) simp_all
  show "aggregationStr x = aggregationStr y \<longleftrightarrow> x = y" by (cases x; cases y) simp_all
  show "modeStr c = modeStr d \<longleftrightarrow> c = d" by (cases c; cases d) simp_all
  show "qualityStr p = qualityStr q \<longleftrightarrow> p = q" by (cases p; cases q) simp_all
  show "usageStateStr s = usageStateStr t \<longleftrightarrow> s = t" by (cases s; cases t) simp_all
qed

lemma faithful_usageSource: "faithful usageSourceJson"
  by (auto simp: faithful_def usageSourceJson_def)

lemma faithful_boundary: "faithful boundaryJson"
proof -
  have "jsonOk (boundaryJson b)" for b by (cases b) (simp_all add: faithful_ok [OF faithful_attempt])
  moreover have "jeq (boundaryJson b) (boundaryJson c) \<Longrightarrow> b = c" for b c
    by (cases b; cases c) (simp_all add: faithful_jeq [OF faithful_attempt])
  ultimately show ?thesis by (simp add: faithful_def)
qed

lemma jeq_jOpt_JNum [simp]: "jeq (jOpt JNum x) (jOpt JNum y) \<longleftrightarrow> x = y"
  by (cases x; cases y; simp add: jOpt_def)

lemma faithful_usageObservation: "faithful usageObservationJson"
proof -
  note parts = faithful_task faithful_usageSource faithful_boundary
  show ?thesis
    using parts [THEN faithful_ok] parts [THEN faithful_jeq]
    by (auto simp: faithful_def [of usageObservationJson] usageObservationJson_def)
qed

lemma parse_usage_idem: "parseUsageObservation P v = Inr w \<Longrightarrow> parseUsageObservation P w = Inr w"
  by (cases "uo_boundary v") (auto simp: parseUsageObservation_def validUsageObservation_def split: if_splits)
end
