(* ===== verification/Sandbox.thy ===== *)
theory Sandbox
  imports Decode
begin

text \<open>
  packages/contracts/src/runtime-v2/sandbox-execution.ts: the execution policy of a sandbox, the
  budget derived from it, and the clock of a running execution, started once and then renewed.
  Times are milliseconds.  \<open>startSandboxExecutionBudget\<close> and \<open>renewSandboxExecutionBudget\<close> are
  modelled whole, with the schema parse at both ends.  Shown: the closing parse never fails, the
  deadline never passes the hard deadline fixed at the start and never moves back, the work
  granted is bounded by the number of renewals, and a retried request changes nothing.
\<close>

section \<open>Policy and budget\<close>

definition defaultSandboxExecutionMs :: int where
  "defaultSandboxExecutionMs = 600000"

definition validLimitMs :: "int \<Rightarrow> bool" where
  "validLimitMs n \<longleftrightarrow> n = 600000 \<or> n = 1800000 \<or> n = 3600000"

datatype SandboxScope = Scope_tenant | Scope_user
datatype SandboxSource = Source_tenant_override | Source_platform_override

record SandboxPolicySource =
  so_scope :: SandboxScope
  so_scopeId :: string
  so_source :: SandboxSource
  so_maxExecutionMs :: int

record SandboxPolicy =
  sy_maxExecutionMs :: int
  sy_sources :: "SandboxPolicySource list"

definition validSandboxPolicySource :: "platform \<Rightarrow> SandboxPolicySource \<Rightarrow> bool" where
  "validSandboxPolicySource P s \<longleftrightarrow> zUuid P (so_scopeId s) \<and> validLimitMs (so_maxExecutionMs s)"

text \<open>\<open>Math.min(...xs)\<close> of the explicit limits, or the default when there is none.\<close>

definition sandboxLimit :: "SandboxPolicySource list \<Rightarrow> int" where
  "sandboxLimit sources = (case map so_maxExecutionMs sources of
     [] \<Rightarrow> defaultSandboxExecutionMs | x # xs \<Rightarrow> foldl min x xs)"

definition validSandboxPolicy :: "platform \<Rightarrow> SandboxPolicy \<Rightarrow> bool" where
  "validSandboxPolicy P p \<longleftrightarrow> validLimitMs (sy_maxExecutionMs p) \<and>
     list_all (validSandboxPolicySource P) (sy_sources p) \<and> length (sy_sources p) \<le> 2 \<and>
     distinct (map so_scope (sy_sources p)) \<and> sy_maxExecutionMs p = sandboxLimit (sy_sources p)"

definition resolveSandboxExecutionPolicy :: "platform \<Rightarrow> SandboxPolicySource list \<Rightarrow> SandboxPolicy result" where
  "resolveSandboxExecutionPolicy P sources =
     (let p = \<lparr>sy_maxExecutionMs = sandboxLimit sources, sy_sources = sources\<rparr> in
      if validSandboxPolicy P p then Inr p else Inl ZodError)"

datatype SandboxWork = Work_compute | Work_install | Work_build

record SandboxBudgetSpec =
  bs_kind :: SandboxWork
  bs_policy :: SandboxPolicy
  bs_initialBudgetMs :: int

definition validSandboxBudgetSpec :: "platform \<Rightarrow> SandboxBudgetSpec \<Rightarrow> bool" where
  "validSandboxBudgetSpec P s \<longleftrightarrow> validSandboxPolicy P (bs_policy s) \<and>
     (bs_initialBudgetMs s = 60000 \<or> bs_initialBudgetMs s = 120000) \<and>
     bs_initialBudgetMs s = (if bs_kind s = Work_compute then 60000 else 120000)"

definition sandboxExecutionBudgetSpec :: "platform \<Rightarrow> SandboxWork \<Rightarrow> SandboxPolicy \<Rightarrow> SandboxBudgetSpec result" where
  "sandboxExecutionBudgetSpec P request policy =
     (let s = \<lparr>bs_kind = request, bs_policy = policy,
        bs_initialBudgetMs = (if request = Work_compute then 60000 else 120000)\<rparr> in
      if validSandboxBudgetSpec P s then Inr s else Inl ZodError)"

section \<open>The clock\<close>

definition validCounter :: "int \<Rightarrow> bool" where
  "validCounter n \<longleftrightarrow> 0 \<le> n \<and> n \<le> MAX_SAFE_INTEGER"

record SandboxProgress =
  sg_cpuNanos :: int
  sg_readBytes :: int
  sg_writtenBytes :: int

definition validSandboxProgress :: "SandboxProgress \<Rightarrow> bool" where
  "validSandboxProgress p \<longleftrightarrow> validCounter (sg_cpuNanos p) \<and> validCounter (sg_readBytes p) \<and>
     validCounter (sg_writtenBytes p)"

definition progressJson :: "SandboxProgress \<Rightarrow> jsval" where
  "progressJson p = JObj [(''cpuNanos'', JNum (sg_cpuNanos p)), (''readBytes'', JNum (sg_readBytes p)),
     (''writtenBytes'', JNum (sg_writtenBytes p))]"

record SandboxRenewal =
  sr_requestId :: string
  sr_sequence :: int
  sr_progress :: SandboxProgress

definition validSandboxRenewal :: "platform \<Rightarrow> SandboxRenewal \<Rightarrow> bool" where
  "validSandboxRenewal P r \<longleftrightarrow> zUuid P (sr_requestId r) \<and> 1 \<le> sr_sequence r \<and> sr_sequence r \<le> 60 \<and>
     validSandboxProgress (sr_progress r)"

record SandboxGrant =
  gr_request :: SandboxRenewal
  gr_grantedAt :: int
  gr_deadlineAt :: int

record SandboxBudgetState =
  sb_spec :: SandboxBudgetSpec
  sb_startedAt :: int
  sb_hardDeadlineAt :: int
  sb_deadlineAt :: int
  sb_lastProgressAt :: int
  sb_progress :: SandboxProgress
  sb_sequence :: int
  sb_renewals :: "SandboxGrant list"

definition validSandboxGrant :: "platform \<Rightarrow> SandboxGrant \<Rightarrow> bool" where
  "validSandboxGrant P g \<longleftrightarrow> validSandboxRenewal P (gr_request g) \<and> validCounter (gr_grantedAt g) \<and>
     validCounter (gr_deadlineAt g)"

definition validSandboxBudgetState :: "platform \<Rightarrow> SandboxBudgetState \<Rightarrow> bool" where
  "validSandboxBudgetState P v \<longleftrightarrow>
     validSandboxBudgetSpec P (sb_spec v) \<and> validCounter (sb_startedAt v) \<and> validCounter (sb_hardDeadlineAt v) \<and>
     validCounter (sb_deadlineAt v) \<and> validCounter (sb_lastProgressAt v) \<and> validSandboxProgress (sb_progress v) \<and>
     0 \<le> sb_sequence v \<and> sb_sequence v \<le> 60 \<and> list_all (validSandboxGrant P) (sb_renewals v) \<and>
     length (sb_renewals v) \<le> 60 \<and>
     sb_startedAt v < sb_deadlineAt v \<and> sb_deadlineAt v \<le> sb_hardDeadlineAt v \<and>
     sb_hardDeadlineAt v \<le> sb_startedAt v + sy_maxExecutionMs (bs_policy (sb_spec v)) \<and>
     sb_startedAt v \<le> sb_lastProgressAt v \<and> sb_lastProgressAt v < sb_hardDeadlineAt v \<and>
     int (length (sb_renewals v)) = sb_sequence v \<and>
     list_all (\<lambda>(i, r). sr_sequence (gr_request r) = int i + 1 \<and> sb_startedAt v \<le> gr_grantedAt r \<and>
        gr_grantedAt r < gr_deadlineAt r \<and> gr_deadlineAt r \<le> sb_hardDeadlineAt v)
       (zip [0..<length (sb_renewals v)] (sb_renewals v)) \<and>
     distinct (map (sr_requestId \<circ> gr_request) (sb_renewals v))"

definition startSandboxExecutionBudget ::
  "platform \<Rightarrow> SandboxBudgetSpec \<Rightarrow> int \<Rightarrow> int \<Rightarrow> SandboxBudgetState result" where
  "startSandboxExecutionBudget P spec now rootDeadlineAt =
     (if \<not> validSandboxBudgetSpec P spec then Inl ZodError
      else if \<not> validCounter now then Inl ZodError
      else if \<not> validCounter rootDeadlineAt then Inl ZodError
      else if rootDeadlineAt \<le> now then Inl (JsError ''SANDBOX_EXECUTION_DEADLINE'')
      else let hardDeadlineAt = min rootDeadlineAt (now + sy_maxExecutionMs (bs_policy spec));
          s = \<lparr>sb_spec = spec, sb_startedAt = now, sb_hardDeadlineAt = hardDeadlineAt,
            sb_deadlineAt = min hardDeadlineAt (now + bs_initialBudgetMs spec), sb_lastProgressAt = now,
            sb_progress = \<lparr>sg_cpuNanos = 0, sg_readBytes = 0, sg_writtenBytes = 0\<rparr>,
            sb_sequence = 0, sb_renewals = []\<rparr>
        in if validSandboxBudgetState P s then Inr s else Inl ZodError)"

definition renewSandboxExecutionBudget ::
  "platform \<Rightarrow> SandboxBudgetState \<Rightarrow> SandboxRenewal \<Rightarrow> int \<Rightarrow> int \<Rightarrow> SandboxBudgetState result" where
  "renewSandboxExecutionBudget P state request now rootDeadlineAt =
     (if \<not> validSandboxBudgetState P state then Inl ZodError
      else if \<not> validSandboxRenewal P request then Inl ZodError
      else if \<not> validCounter now then Inl ZodError
      else if \<not> validCounter rootDeadlineAt then Inl ZodError
      else if now < sb_startedAt state \<or> min (sb_deadlineAt state) rootDeadlineAt \<le> now
        then Inl (JsError ''SANDBOX_EXECUTION_DEADLINE'')
      else case find (\<lambda>r. sr_requestId (gr_request r) = sr_requestId request) (sb_renewals state) of
        Some prior \<Rightarrow>
          if sr_sequence (gr_request prior) \<noteq> sr_sequence request \<or>
             stringify (progressJson (sr_progress (gr_request prior))) \<noteq> stringify (progressJson (sr_progress request))
          then Inl (JsError ''SANDBOX_EXECUTION_RENEWAL_CONFLICT'')
          else Inr state
      | None \<Rightarrow>
        if sr_sequence request \<noteq> sb_sequence state + 1 then Inl (JsError ''SANDBOX_EXECUTION_RENEWAL_CONFLICT'')
        else if sb_deadlineAt state - now > 15000 then Inl (JsError ''SANDBOX_EXECUTION_RENEWAL_EARLY'')
        else let new = sr_progress request; old = sb_progress state in
        if sg_cpuNanos new < sg_cpuNanos old \<or> sg_readBytes new < sg_readBytes old \<or>
           sg_writtenBytes new < sg_writtenBytes old
          then Inl (JsError ''SANDBOX_EXECUTION_PROGRESS_CHANGED'')
        else let advanced = sg_cpuNanos new - sg_cpuNanos old \<ge> 1000000 \<or>
              sg_readBytes new > sg_readBytes old \<or> sg_writtenBytes new > sg_writtenBytes old;
            lastProgressAt = (if advanced then now else sb_lastProgressAt state) in
        if now - lastProgressAt \<ge> 120000 then Inl (JsError ''SANDBOX_EXECUTION_NO_PROGRESS'')
        else let deadlineAt = min (sb_hardDeadlineAt state) (min rootDeadlineAt (sb_deadlineAt state + 60000)) in
        if deadlineAt \<le> sb_deadlineAt state then Inl (JsError ''SANDBOX_EXECUTION_LIMIT'')
        else let s = state\<lparr>sb_deadlineAt := deadlineAt, sb_lastProgressAt := lastProgressAt,
            sb_progress := new, sb_sequence := sr_sequence request,
            sb_renewals := sb_renewals state @
              [\<lparr>gr_request = request, gr_grantedAt = now, gr_deadlineAt = deadlineAt\<rparr>]\<rparr>
        in if validSandboxBudgetState P s then Inr s else Inl ZodError)"

section \<open>Policies\<close>

lemma sandboxLimit_Min: "sources \<noteq> [] \<Longrightarrow> sandboxLimit sources = Min (so_maxExecutionMs ` set sources)"
proof -
  have i: "Min (insert (min x a) S) = Min (insert x (insert a S))" if "finite S" for x a :: int and S
    using that by (cases "S = {}") (simp_all add: min.assoc)
  have "foldl min x xs = Min (set (x # xs))" for x :: int and xs
    by (induction xs arbitrary: x) (simp_all add: i)
  then show "sources \<noteq> [] \<Longrightarrow> ?thesis"
    by (cases sources) (simp_all add: sandboxLimit_def)
qed

lemma sandboxLimit_valid: "list_all (validSandboxPolicySource P) sources \<Longrightarrow> validLimitMs (sandboxLimit sources)"
proof (cases "sources = []")
  case True
  then show ?thesis by (simp add: sandboxLimit_def validLimitMs_def defaultSandboxExecutionMs_def)
next
  case False
  assume v: "list_all (validSandboxPolicySource P) sources"
  have "Min (so_maxExecutionMs ` set sources) \<in> so_maxExecutionMs ` set sources" using False by (intro Min_in) auto
  then obtain s where "s \<in> set sources" "Min (so_maxExecutionMs ` set sources) = so_maxExecutionMs s" by auto
  then show ?thesis
    using v False by (simp add: sandboxLimit_Min list_all_iff validSandboxPolicySource_def)
qed

lemma resolve_ok_iff:
  "(\<exists>p. resolveSandboxExecutionPolicy P sources = Inr p) \<longleftrightarrow>
     list_all (validSandboxPolicySource P) sources \<and> length sources \<le> 2 \<and> distinct (map so_scope sources)"
  using sandboxLimit_valid [of P sources]
  by (auto simp: resolveSandboxExecutionPolicy_def Let_def validSandboxPolicy_def)

lemma limit_positive: "validSandboxBudgetSpec P s \<Longrightarrow> 0 < sy_maxExecutionMs (bs_policy s) \<and> 0 < bs_initialBudgetMs s"
  by (auto simp: validSandboxBudgetSpec_def validSandboxPolicy_def validLimitMs_def)

section \<open>Starting and renewing\<close>

lemma start_valid:
  assumes "validSandboxBudgetSpec P spec" "validCounter now" "validCounter root" "now < root"
  shows "\<exists>s. startSandboxExecutionBudget P spec now root = Inr s \<and> validSandboxBudgetState P s \<and>
    sb_startedAt s = now \<and> sb_hardDeadlineAt s \<le> root \<and> sb_sequence s = 0 \<and> sb_renewals s = [] \<and>
    sb_spec s = spec \<and> sb_deadlineAt s \<le> now + bs_initialBudgetMs spec"
proof -
  have "0 < sy_maxExecutionMs (bs_policy spec)" "0 < bs_initialBudgetMs spec"
    using limit_positive [OF assms(1)] by auto
  then show ?thesis
    using assms by (auto simp: startSandboxExecutionBudget_def Let_def validSandboxBudgetState_def
        validCounter_def validSandboxProgress_def)
qed

lemma progress_text_inj: "stringify (progressJson p) = stringify (progressJson q) \<longleftrightarrow> p = q"
proof
  assume "stringify (progressJson p) = stringify (progressJson q)"
  then have "progressJson p = progressJson q" by (intro stringify_inj) (auto simp: progressJson_def)
  then show "p = q" by (cases p; cases q) (simp add: progressJson_def)
qed simp

text \<open>The state a granted renewal leads to.\<close>

definition grantedState ::
  "SandboxBudgetState \<Rightarrow> SandboxRenewal \<Rightarrow> int \<Rightarrow> int \<Rightarrow> int \<Rightarrow> SandboxBudgetState" where
  "grantedState s req now d l = s\<lparr>sb_deadlineAt := d, sb_lastProgressAt := l, sb_progress := sr_progress req,
     sb_sequence := sr_sequence req, sb_renewals := sb_renewals s @
       [\<lparr>gr_request = req, gr_grantedAt = now, gr_deadlineAt = d\<rparr>]\<rparr>"

definition progressLe :: "SandboxProgress \<Rightarrow> SandboxProgress \<Rightarrow> bool" where
  "progressLe a b \<longleftrightarrow> sg_cpuNanos a \<le> sg_cpuNanos b \<and> sg_readBytes a \<le> sg_readBytes b \<and>
     sg_writtenBytes a \<le> sg_writtenBytes b"

lemma granted_valid:
  assumes "validSandboxBudgetState P s" "validSandboxRenewal P req" "validCounter now"
    "sb_startedAt s \<le> now" "now < sb_deadlineAt s"
    "\<forall>r \<in> set (sb_renewals s). sr_requestId (gr_request r) \<noteq> sr_requestId req"
    "sr_sequence req = sb_sequence s + 1" "l = now \<or> l = sb_lastProgressAt s"
    "sb_deadlineAt s < d" "d \<le> sb_hardDeadlineAt s"
  shows "validSandboxBudgetState P (grantedState s req now d l)"
proof -
  let ?rs = "sb_renewals s"
  have z: "zip [0..<length (?rs @ [g])] (?rs @ [g]) = zip [0..<length ?rs] ?rs @ [(length ?rs, g)]" for g
    by simp
  have n: "int (length ?rs) = sb_sequence s" using assms(1) by (simp add: validSandboxBudgetState_def)
  show ?thesis
    using assms n
    unfolding validSandboxBudgetState_def grantedState_def SandboxBudgetState.simps z
    by (auto simp: validSandboxGrant_def validCounter_def validSandboxRenewal_def image_iff)
qed

lemma renew_cases:
  assumes "renewSandboxExecutionBudget P s req now root = Inr s'"
  obtains (retry) g where "g \<in> set (sb_renewals s)" "gr_request g = req" "s' = s"
  | (grant) d l where "s' = grantedState s req now d l" "validSandboxBudgetState P s'"
      "sr_sequence req = sb_sequence s + 1" "progressLe (sb_progress s) (sr_progress req)"
      "sb_deadlineAt s < d" "d \<le> sb_hardDeadlineAt s" "d \<le> root" "d \<le> sb_deadlineAt s + 60000"
      "\<forall>r \<in> set (sb_renewals s). sr_requestId (gr_request r) \<noteq> sr_requestId req"
      "sb_deadlineAt s - now \<le> 15000" "sb_startedAt s \<le> now" "now < sb_deadlineAt s"
proof (cases "find (\<lambda>r. sr_requestId (gr_request r) = sr_requestId req) (sb_renewals s)")
  case None
  then have n: "\<forall>r \<in> set (sb_renewals s). sr_requestId (gr_request r) \<noteq> sr_requestId req"
    by (simp add: find_None_iff)
  define d where "d = min (sb_hardDeadlineAt s) (min root (sb_deadlineAt s + 60000))"
  define l where "l = (if sg_cpuNanos (sr_progress req) - sg_cpuNanos (sb_progress s) \<ge> 1000000 \<or>
      sg_readBytes (sr_progress req) > sg_readBytes (sb_progress s) \<or>
      sg_writtenBytes (sr_progress req) > sg_writtenBytes (sb_progress s) then now else sb_lastProgressAt s)"
  have "s' = grantedState s req now d l \<and> validSandboxBudgetState P s' \<and>
    sr_sequence req = sb_sequence s + 1 \<and> progressLe (sb_progress s) (sr_progress req) \<and>
    sb_deadlineAt s < d \<and> sb_deadlineAt s - now \<le> 15000 \<and> sb_startedAt s \<le> now \<and> now < sb_deadlineAt s"
    using assms unfolding renewSandboxExecutionBudget_def None Let_def option.case
      l_def [symmetric] d_def [symmetric] grantedState_def [symmetric]
    by (simp add: progressLe_def not_less split: if_split_asm)
  moreover have "d \<le> sb_hardDeadlineAt s" "d \<le> root" "d \<le> sb_deadlineAt s + 60000"
    by (simp_all add: d_def)
  ultimately show thesis
    by (intro grant [of d l] n) blast+
next
  case (Some g)
  then have "g \<in> set (sb_renewals s)" "sr_requestId (gr_request g) = sr_requestId req"
    by (auto simp: find_Some_iff)
  then show thesis
    using assms Some
    by (intro retry [of g])
      (auto simp: renewSandboxExecutionBudget_def progress_text_inj intro: SandboxRenewal.equality split: if_splits)
qed

lemma renew_no_zod_error:
  assumes "validSandboxBudgetState P s" "validSandboxRenewal P req" "validCounter now" "validCounter root"
  shows "renewSandboxExecutionBudget P s req now root \<noteq> Inl ZodError"
proof (cases "find (\<lambda>r. sr_requestId (gr_request r) = sr_requestId req) (sb_renewals s)")
  case None
  then have n: "\<forall>r \<in> set (sb_renewals s). sr_requestId (gr_request r) \<noteq> sr_requestId req"
    by (simp add: find_None_iff)
  define d where "d = min (sb_hardDeadlineAt s) (min root (sb_deadlineAt s + 60000))"
  define l where "l = (if sg_cpuNanos (sr_progress req) - sg_cpuNanos (sb_progress s) \<ge> 1000000 \<or>
      sg_readBytes (sr_progress req) > sg_readBytes (sb_progress s) \<or>
      sg_writtenBytes (sr_progress req) > sg_writtenBytes (sb_progress s) then now else sb_lastProgressAt s)"
  show ?thesis
  proof
    assume "renewSandboxExecutionBudget P s req now root = Inl ZodError"
    then have "\<not> validSandboxBudgetState P (grantedState s req now d l) \<and> sr_sequence req = sb_sequence s + 1 \<and>
      sb_deadlineAt s < d \<and> sb_startedAt s \<le> now \<and> now < sb_deadlineAt s"
      using assms unfolding renewSandboxExecutionBudget_def None Let_def option.case
        l_def [symmetric] d_def [symmetric] grantedState_def [symmetric]
      by (simp add: min_le_iff_disj not_less split: if_split_asm)
    moreover have "d \<le> sb_hardDeadlineAt s" "l = now \<or> l = sb_lastProgressAt s" by (auto simp: d_def l_def)
    ultimately show False using granted_valid [OF assms(1-3) _ _ n] by blast
  qed
qed (use assms in \<open>simp add: renewSandboxExecutionBudget_def\<close>)

lemma find_unique:
  assumes "distinct (map f xs)" "x \<in> set xs"
  shows "find (\<lambda>y. f y = f x) xs = Some x"
  using assms by (induction xs) (auto simp: image_iff)

lemma retry_same:
  assumes "validSandboxBudgetState P s" "validSandboxRenewal P req" "validCounter now" "validCounter root"
    "sb_startedAt s \<le> now" "now < min (sb_deadlineAt s) root" "\<exists>g \<in> set (sb_renewals s). gr_request g = req"
  shows "renewSandboxExecutionBudget P s req now root = Inr s"
proof -
  obtain g where g: "g \<in> set (sb_renewals s)" "gr_request g = req" using assms(7) by blast
  have "distinct (map (\<lambda>r. sr_requestId (gr_request r)) (sb_renewals s))"
    using assms(1) by (simp add: validSandboxBudgetState_def comp_def)
  from find_unique [OF this g(1)]
  have "find (\<lambda>r. sr_requestId (gr_request r) = sr_requestId req) (sb_renewals s) = Some g" using g(2) by simp
  then show ?thesis using assms g(2) by (simp add: renewSandboxExecutionBudget_def min_le_iff_disj)
qed

text \<open>Renewals as a state machine: an input is the request with the clock and the root deadline.\<close>

definition sandboxStep :: "platform \<Rightarrow> SandboxBudgetState \<Rightarrow> SandboxRenewal \<times> int \<times> int \<Rightarrow> SandboxBudgetState result" where
  "sandboxStep P s i = (case i of (req, now, root) \<Rightarrow> renewSandboxExecutionBudget P s req now root)"

definition sandboxInv :: "platform \<Rightarrow> SandboxBudgetState \<Rightarrow> bool" where
  "sandboxInv P s \<longleftrightarrow> validSandboxBudgetState P s \<and>
     sb_deadlineAt s \<le> sb_startedAt s + bs_initialBudgetMs (sb_spec s) + 60000 * sb_sequence s"

definition sandboxOlder :: "SandboxBudgetState \<Rightarrow> SandboxBudgetState \<Rightarrow> bool" where
  "sandboxOlder s s' \<longleftrightarrow> sb_spec s' = sb_spec s \<and> sb_startedAt s' = sb_startedAt s \<and>
     sb_hardDeadlineAt s' = sb_hardDeadlineAt s \<and> sb_deadlineAt s \<le> sb_deadlineAt s' \<and>
     sb_sequence s \<le> sb_sequence s' \<and> progressLe (sb_progress s) (sb_progress s') \<and>
     (\<exists>more. sb_renewals s' = sb_renewals s @ more)"

lemma sandboxStep_inv: "sandboxStep P s i = Inr s' \<Longrightarrow> sandboxInv P s \<Longrightarrow> sandboxInv P s' \<and> sandboxOlder s s'"
proof -
  assume s: "sandboxStep P s i = Inr s'" and i: "sandboxInv P s"
  obtain req now root where "i = (req, now, root)" by (cases i)
  then have "renewSandboxExecutionBudget P s req now root = Inr s'" using s by (simp add: sandboxStep_def)
  then show ?thesis
  proof (cases rule: renew_cases)
    case (grant d l)
    then show ?thesis using i by (auto simp: sandboxInv_def sandboxOlder_def grantedState_def)
  qed (use i in \<open>auto simp: sandboxOlder_def progressLe_def\<close>)
qed

interpretation sandbox: step_machine "sandboxStep P" "sandboxInv P" sandboxOlder
  by unfold_locales (auto dest: sandboxStep_inv, auto simp: sandboxOlder_def progressLe_def)

section \<open>Properties\<close>

text \<open>
  The resolved policy is the smallest explicit limit, and the default only when no limit is
  configured; resolution fails exactly when a source is malformed, there are more than two, or two
  share a scope.
\<close>

theorem sandbox_policy_is_minimum:
  "(isOk (resolveSandboxExecutionPolicy P sources) \<longleftrightarrow>
      list_all (validSandboxPolicySource P) sources \<and> length sources \<le> 2 \<and> distinct (map so_scope sources)) \<and>
   (resolveSandboxExecutionPolicy P sources = Inr p \<longrightarrow> sy_sources p = sources \<and>
      sy_maxExecutionMs p = (if sources = [] then 600000 else Min (so_maxExecutionMs ` set sources)))"
  using resolve_ok_iff [of P sources] sandboxLimit_Min [of sources]
  by (auto simp: isOk_iff resolveSandboxExecutionPolicy_def Let_def sandboxLimit_def
      defaultSandboxExecutionMs_def split: if_splits)

theorem sandbox_policy_is_minimum_witness:
  "\<exists>p. resolveSandboxExecutionPolicy samplePlatform [\<lparr>so_scope = Scope_tenant, so_scopeId = ''o1'',
     so_source = Source_tenant_override, so_maxExecutionMs = 3600000\<rparr>] = Inr p \<and> sy_maxExecutionMs p = 3600000"
proof -
  let ?s = "[\<lparr>so_scope = Scope_tenant, so_scopeId = ''o1'', so_source = Source_tenant_override,
    so_maxExecutionMs = 3600000\<rparr>]"
  have "list_all (validSandboxPolicySource samplePlatform) ?s"
    by (simp add: validSandboxPolicySource_def validLimitMs_def)
  then show ?thesis using sandbox_policy_is_minimum [of samplePlatform ?s] by (auto simp: isOk_iff)
qed

text \<open>
  (C15) Whatever renewals follow a start, the deadline stays within the hard deadline fixed at the
  start (itself within the root deadline and the policy's limit), never moves back, is bounded by
  the initial budget plus one minute per granted renewal, and at most sixty renewals are granted;
  the clock's start is never reset.
\<close>

theorem sandbox_budget_bounded:
  assumes "startSandboxExecutionBudget P spec now root = Inr s" "runAll (sandboxStep P) s inputs = Inr s'"
  shows "sb_startedAt s' = now \<and> sb_hardDeadlineAt s' = sb_hardDeadlineAt s \<and> sb_hardDeadlineAt s' \<le> root \<and>
    sb_hardDeadlineAt s' \<le> now + sy_maxExecutionMs (bs_policy spec) \<and>
    sb_deadlineAt s \<le> sb_deadlineAt s' \<and> sb_deadlineAt s' \<le> sb_hardDeadlineAt s' \<and>
    sb_deadlineAt s' \<le> now + bs_initialBudgetMs spec + 60000 * int (length (sb_renewals s')) \<and>
    length (sb_renewals s') \<le> 60"
proof -
  have "validSandboxBudgetSpec P spec" "validCounter now" "validCounter root" "now < root"
    using assms(1) by (auto simp: startSandboxExecutionBudget_def split: if_splits)
  from start_valid [OF this] assms(1) have s: "validSandboxBudgetState P s" "sb_startedAt s = now"
    "sb_hardDeadlineAt s \<le> root" "sb_spec s = spec" "sandboxInv P s"
    by (auto simp: sandboxInv_def)
  have o: "sandboxOlder s s'" and i: "sandboxInv P s'"
    using sandbox.run_older [OF assms(2) s(5)] sandbox.run_inv [OF assms(2) s(5)] by auto
  show ?thesis
    using s o i by (auto simp: sandboxOlder_def sandboxInv_def validSandboxBudgetState_def)
qed

definition sampleSpec :: SandboxBudgetSpec where
  "sampleSpec = \<lparr>bs_kind = Work_compute, bs_policy = \<lparr>sy_maxExecutionMs = 600000, sy_sources = []\<rparr>,
     bs_initialBudgetMs = 60000\<rparr>"

lemma sampleSpec_valid: "validSandboxBudgetSpec samplePlatform sampleSpec"
  by (simp add: validSandboxBudgetSpec_def sampleSpec_def validSandboxPolicy_def validLimitMs_def
      sandboxLimit_def defaultSandboxExecutionMs_def)

theorem sandbox_budget_bounded_witness:
  "\<exists>s. startSandboxExecutionBudget samplePlatform sampleSpec 0 3600000 = Inr s \<and> sb_deadlineAt s \<le> 60000"
proof -
  obtain s where s: "startSandboxExecutionBudget samplePlatform sampleSpec 0 3600000 = Inr s" "sb_renewals s = []"
    using start_valid [OF sampleSpec_valid, of 0 3600000] by (auto simp: validCounter_def)
  from sandbox_budget_bounded [OF s(1), of "[]" s] s show ?thesis by (auto simp: sampleSpec_def)
qed

text \<open>
  On schema-valid arguments renewing never fails a validation: it grants or throws by name.
  A request that was granted can be retried, with any clock before the deadline: the state comes
  back unchanged, so a retry neither extends the deadline nor counts as a renewal.
\<close>

theorem sandbox_renewal_retry:
  assumes "validSandboxBudgetState P s" "validSandboxRenewal P req" "validCounter now" "validCounter root"
  shows "renewSandboxExecutionBudget P s req now root \<noteq> Inl ZodError \<and>
    (\<forall>s'. renewSandboxExecutionBudget P s req now root = Inr s' \<longrightarrow> validSandboxBudgetState P s' \<and>
      (\<forall>now' root'. validCounter now' \<and> validCounter root' \<and> sb_startedAt s' \<le> now' \<and>
         now' < min (sb_deadlineAt s') root' \<longrightarrow>
         renewSandboxExecutionBudget P s' req now' root' = Inr s'))"
proof (intro conjI allI impI; (elim conjE)?)
  show "renewSandboxExecutionBudget P s req now root \<noteq> Inl ZodError"
    by (rule renew_no_zod_error [OF assms])
  fix s' assume r: "renewSandboxExecutionBudget P s req now root = Inr s'"
  then show v: "validSandboxBudgetState P s'" using assms(1) by (cases rule: renew_cases) auto
  have g: "\<exists>g \<in> set (sb_renewals s'). gr_request g = req"
    using r by (cases rule: renew_cases) (auto simp: grantedState_def)
  fix now' root'
  assume c: "validCounter now'" "validCounter root'" "sb_startedAt s' \<le> now'" "now' < min (sb_deadlineAt s') root'"
  show "renewSandboxExecutionBudget P s' req now' root' = Inr s'"
    using retry_same [OF v assms(2) c g] .
qed

definition sampleRenewal :: SandboxRenewal where
  "sampleRenewal = \<lparr>sr_requestId = ''r1'', sr_sequence = 1,
     sr_progress = \<lparr>sg_cpuNanos = 2000000, sg_readBytes = 0, sg_writtenBytes = 0\<rparr>\<rparr>"

theorem sandbox_renewal_retry_witness:
  "\<exists>s s'. startSandboxExecutionBudget samplePlatform sampleSpec 0 3600000 = Inr s \<and>
     renewSandboxExecutionBudget samplePlatform s sampleRenewal 50000 3600000 = Inr s' \<and> sb_deadlineAt s' = 120000 \<and>
     renewSandboxExecutionBudget samplePlatform s' sampleRenewal 55000 3600000 = Inr s'"
proof -
  let ?s = "\<lparr>sb_spec = sampleSpec, sb_startedAt = 0, sb_hardDeadlineAt = 600000, sb_deadlineAt = 60000,
    sb_lastProgressAt = 0, sb_progress = \<lparr>sg_cpuNanos = 0, sg_readBytes = 0, sg_writtenBytes = 0\<rparr>,
    sb_sequence = 0, sb_renewals = []\<rparr>"
  have c: "validCounter 50000" "validCounter 55000" "validCounter 3600000" "validCounter 0"
    by (simp_all add: validCounter_def)
  have s: "startSandboxExecutionBudget samplePlatform sampleSpec 0 3600000 = Inr ?s"
    and v: "validSandboxBudgetState samplePlatform ?s"
    using start_valid [OF sampleSpec_valid c(4,3)]
    by (auto simp: startSandboxExecutionBudget_def Let_def sampleSpec_def split: if_splits)
  have r: "validSandboxRenewal samplePlatform sampleRenewal"
    by (simp add: validSandboxRenewal_def sampleRenewal_def validSandboxProgress_def validCounter_def)
  let ?s' = "grantedState ?s sampleRenewal 50000 120000 50000"
  have "validSandboxBudgetState samplePlatform ?s'"
    by (rule granted_valid [OF v r c(1)]) (simp_all add: sampleRenewal_def)
  then have s': "renewSandboxExecutionBudget samplePlatform ?s sampleRenewal 50000 3600000 = Inr ?s'"
    using v r c by (simp add: renewSandboxExecutionBudget_def grantedState_def) (simp add: sampleRenewal_def Let_def)
  have "renewSandboxExecutionBudget samplePlatform ?s' sampleRenewal 55000 3600000 = Inr ?s'"
    using sandbox_renewal_retry [OF v r c(1,3)] s' c by (simp add: grantedState_def)
  then show ?thesis using s s' by (intro exI [of _ ?s] exI [of _ ?s']) (simp add: grantedState_def)
qed

end
