(* ===== verification/LocalService.thy ===== *)
theory LocalService
  imports Replay
begin

text \<open>
  packages/contracts/src/runtime-v2/local-service.ts: the requests, inputs and lifecycle events of a
  service that a bridge runs for a Run, with their encodings as JSON.  Shown: the encodings tell
  different values apart, so that equal canonical texts mean equal events.
\<close>

text \<open>\<open>z.iso.datetime()\<close> takes the UTC designator only, \<open>TimestampSchema\<close> any offset.\<close>

definition zIsoUtc :: "platform \<Rightarrow> string \<Rightarrow> bool" where
  "zIsoUtc P s \<longleftrightarrow> zDatetime P s \<and> s \<noteq> [] \<and> last s = CHR ''Z''"

definition hex64 :: "string \<Rightarrow> bool" where
  "hex64 s \<longleftrightarrow> length s = 64 \<and> list_all isHexLower s"

text \<open>\<open>Buffer.byteLength\<close> and the length of \<open>TextEncoder.encode\<close>.\<close>

definition byteLength :: "string \<Rightarrow> nat" where
  "byteLength s = length (utf8 s)"

record RuntimeLocalServiceRequest =
  lr_requestId :: string
  lr_sequence :: int
  lr_prompt :: string
  lr_expiresAt :: string
  lr_maxBytes :: int

definition validServiceRequest :: "platform \<Rightarrow> RuntimeLocalServiceRequest \<Rightarrow> bool" where
  "validServiceRequest P r \<longleftrightarrow> zUuid P (lr_requestId r) \<and> 0 \<le> lr_sequence r \<and> lr_sequence r \<le> 15 \<and>
     lenIn 1 500 (lr_prompt r) \<and> zIsoUtc P (lr_expiresAt r) \<and> 1 \<le> lr_maxBytes r \<and> lr_maxBytes r \<le> 4096"

definition serviceRequestJson :: "RuntimeLocalServiceRequest \<Rightarrow> jsval" where
  "serviceRequestJson r = JObj [(''requestId'', JStr (lr_requestId r)), (''sequence'', JNum (lr_sequence r)),
     (''prompt'', JStr (lr_prompt r)), (''expiresAt'', JStr (lr_expiresAt r)), (''maxBytes'', JNum (lr_maxBytes r))]"

datatype InputKind = Input_text | Input_eof

fun inputKindStr :: "InputKind \<Rightarrow> string" where
  "inputKindStr Input_text = ''text''"
| "inputKindStr Input_eof = ''eof''"

record RuntimeLocalServiceInput =
  li_inputId :: string
  li_requestId :: string
  li_sequence :: int
  li_expiresAt :: string
  li_digest :: string
  li_kind :: InputKind
  li_text :: string

definition validServiceInput :: "platform \<Rightarrow> RuntimeLocalServiceInput \<Rightarrow> bool" where
  "validServiceInput P v \<longleftrightarrow> zUuid P (li_inputId v) \<and> zUuid P (li_requestId v) \<and> 0 \<le> li_sequence v \<and>
     li_sequence v \<le> 15 \<and> zIsoUtc P (li_expiresAt v) \<and> checksumOk (li_digest v) \<and> length (li_text v) \<le> 4096 \<and>
     CHR 0x00 \<notin> set (li_text v) \<and> \<not> ((li_kind v = Input_eof \<and> li_text v \<noteq> []) \<or> 4096 < byteLength (li_text v))"

definition serviceInputJson :: "RuntimeLocalServiceInput \<Rightarrow> jsval" where
  "serviceInputJson v = JObj [(''inputId'', JStr (li_inputId v)), (''requestId'', JStr (li_requestId v)),
     (''sequence'', JNum (li_sequence v)), (''expiresAt'', JStr (li_expiresAt v)), (''digest'', JStr (li_digest v)),
     (''kind'', JStr (inputKindStr (li_kind v))), (''text'', JStr (li_text v))]"

datatype ServiceEventBody =
    Event_starting string string
  | Event_ready int
  | Event_input_request RuntimeLocalServiceRequest
  | Event_input_delivered string string int string InputKind

record RuntimeLocalServiceEvent =
  le_processId :: string
  le_attemptId :: string
  le_sequence :: int
  le_body :: ServiceEventBody

fun validServiceEventBody :: "platform \<Rightarrow> ServiceEventBody \<Rightarrow> bool" where
  "validServiceEventBody P (Event_starting containerId hardDeadlineAt) = (hex64 containerId \<and> zIsoUtc P hardDeadlineAt)"
| "validServiceEventBody P (Event_ready port) = (1024 \<le> port \<and> port \<le> 65535)"
| "validServiceEventBody P (Event_input_request r) = validServiceRequest P r"
| "validServiceEventBody P (Event_input_delivered inputId requestId inputSequence digest kind) =
     (zUuid P inputId \<and> zUuid P requestId \<and> 0 \<le> inputSequence \<and> inputSequence \<le> 15 \<and> checksumOk digest)"

definition validServiceEvent :: "platform \<Rightarrow> RuntimeLocalServiceEvent \<Rightarrow> bool" where
  "validServiceEvent P e \<longleftrightarrow> zUuid P (le_processId e) \<and> zUuid P (le_attemptId e) \<and> 0 \<le> le_sequence e \<and>
     le_sequence e \<le> 63 \<and> validServiceEventBody P (le_body e)"

fun serviceEventFields :: "ServiceEventBody \<Rightarrow> (string \<times> jsval) list" where
  "serviceEventFields (Event_starting containerId hardDeadlineAt) = [(''type'', JStr ''starting''),
     (''containerId'', JStr containerId), (''hardDeadlineAt'', JStr hardDeadlineAt)]"
| "serviceEventFields (Event_ready port) = [(''type'', JStr ''ready''), (''port'', JNum port),
     (''visibility'', JStr ''container_only'')]"
| "serviceEventFields (Event_input_request r) = [(''type'', JStr ''input_request''), (''request'', serviceRequestJson r)]"
| "serviceEventFields (Event_input_delivered inputId requestId inputSequence digest kind) =
     [(''type'', JStr ''input_delivered''), (''inputId'', JStr inputId), (''requestId'', JStr requestId),
      (''inputSequence'', JNum inputSequence), (''digest'', JStr digest), (''kind'', JStr (inputKindStr kind))]"

definition serviceEventJson :: "RuntimeLocalServiceEvent \<Rightarrow> jsval" where
  "serviceEventJson e = JObj ([(''processId'', JStr (le_processId e)), (''attemptId'', JStr (le_attemptId e)),
     (''sequence'', JNum (le_sequence e))] @ serviceEventFields (le_body e))"

lemma inputKindStr_inj [simp]: "inputKindStr a = inputKindStr b \<longleftrightarrow> a = b"
  by (cases a; cases b) simp_all

lemma faithful_serviceInput: "faithful serviceInputJson"
  by (auto simp: faithful_def serviceInputJson_def)

lemma faithful_serviceRequest: "faithful serviceRequestJson"
  by (auto simp: faithful_def serviceRequestJson_def)

lemma faithful_serviceEvent: "faithful serviceEventJson"
proof -
  have "jsonOk (serviceEventJson e)" for e
    by (cases "le_body e") (auto simp: serviceEventJson_def faithful_ok [OF faithful_serviceRequest])
  moreover have "jeq (serviceEventJson e) (serviceEventJson f) \<Longrightarrow> e = f" for e f
    by (cases e; cases f; cases "le_body e"; cases "le_body f")
      (auto simp: serviceEventJson_def faithful_jeq [OF faithful_serviceRequest])
  ultimately show ?thesis by (simp add: faithful_def)
qed

end
