(* ===== verification/Ledger.thy ===== *)
theory Ledger
  imports Usage Sandbox LocalService
begin

text \<open>
  packages/database/src/runtime-ledger/ledger.ts: the ledger of the operations of one root Run.  The
  tables that belong to the root are the state; a transaction is a function that returns its value and
  the next tables or throws, and a throw leaves the tables as they were (root and operation rows are
  locked before anything is read, so transactions on a root run one after the other).  What other
  modules answer in the middle of a transaction (the clock, fresh identifiers, the states of runs and
  targets, the admission policy, the comparison of evidence with payloads) is the record \<open>LedgerEnv\<close>.
\<close>

section \<open>Tables\<close>

record LedgerRoot =
  rt_task :: RuntimeTaskRef
  rt_deadlineAt :: int
  rt_cancelRequestId :: "string option"
  rt_cancelReason :: "string option"

record LedgerRow =
  lw_id :: string
  lw_snapshot :: OpSnapshot
  lw_initial :: OpSnapshot
  lw_nextSequence :: int
  lw_payload :: "jsval option"
  lw_leaseOwner :: "string option"
  lw_leaseTokenHash :: "string option"
  lw_leaseExpiresAt :: "int option"
  lw_budget :: "SandboxBudgetState option"

datatype ReceiptContent =
    Content_receipt RuntimeAttemptRef OpSignal "int option" jsval
  | Content_preflight RuntimeAttemptRef

datatype Disposition = Disp_applied | Disp_stale | Disp_conflict | Disp_duplicate

record LedgerReceiptRow =
  lx_receiptId :: string
  lx_operationId :: string
  lx_content :: ReceiptContent
  lx_disposition :: Disposition

record LedgerOutputRow =
  lo_operationId :: string
  lo_sequence :: int
  lo_stream :: string
  lo_content :: string

record LedgerBudget =
  lb_metric :: UsageMetric
  lb_unit :: UsageUnit
  lb_currency :: "string option"
  lb_capacity :: int
  lb_reserved :: int
  lb_spent :: int
  lb_source :: UsageSource

record LedgerReservation =
  lv_operationId :: string
  lv_metric :: UsageMetric
  lv_accountingId :: string
  lv_amount :: int
  lv_settled :: "int option"
  lv_observation :: "UsageObservation option"

record LedgerDb =
  ld_root :: "LedgerRoot option"
  ld_links :: "(string \<times> RuntimeTaskRef) list"
  ld_rows :: "LedgerRow list"
  ld_events :: "(string \<times> OpEvent) list"
  ld_receipts :: "LedgerReceiptRow list"
  ld_outputs :: "LedgerOutputRow list"
  ld_budgets :: "LedgerBudget list"
  ld_reservations :: "LedgerReservation list"

section \<open>Surroundings\<close>

record LedgerConfig =
  lc_platform :: platform
  lc_payload :: "jsval \<Rightarrow> jsval option"
  lc_browser :: "jsval \<Rightarrow> jsval option"
  lc_notExecuted :: jsval

text \<open>
  What one transaction meets.  \<open>ne_clock i k\<close> and \<open>ne_uuid i k\<close> are the readings of the clock (in
  milliseconds) and the identifiers of point \<open>k\<close>, in round \<open>i\<close> of a loop over rows; \<open>ne_deadline\<close> is the
  deadline the task clock computes when the root is locked, None without such a clock; \<open>ne_admission k\<close>
  answers the policy's decision, True for \<open>waiting_user\<close>.  What a transaction returns of the rows it
  changed beside its answer (the snapshots after a cancellation or expiry) is read off the tables.
\<close>

record LedgerEnv =
  ne_clock :: "nat \<Rightarrow> nat \<Rightarrow> int"
  ne_uuid :: "nat \<Rightarrow> nat \<Rightarrow> string"
  ne_deadline :: "int option"
  ne_rootRun :: "nat \<Rightarrow> unit result"
  ne_run :: "nat \<Rightarrow> unit result"
  ne_admission :: "nat \<Rightarrow> bool result"
  ne_target :: "nat \<Rightarrow> unit result"
  ne_replayAuthority :: "unit result"
  ne_browserRegistered :: bool
  ne_persistLease :: "unit result"
  ne_continuing :: "string list"
  ne_cloudService :: bool
  ne_evidence :: "unit result"
  ne_stopEvidence :: "unit result"
  ne_budgetSpec :: "SandboxBudgetSpec result"

abbreviation ledgerError :: "string \<Rightarrow> exn" where
  "ledgerError \<equiv> RuntimeLedgerError"

definition runtimeLedgerInputDigest :: "jsval \<Rightarrow> string result" where
  "runtimeLedgerInputDigest v =
     (case canonical v of Inr t \<Rightarrow> Inr (''sha256:'' @ sha256hex t) | Inl _ \<Rightarrow> Inl (ledgerError ''invalid_state''))"

definition ledgerInteger :: "int \<Rightarrow> bool" where
  "ledgerInteger n \<longleftrightarrow> 0 \<le> n \<and> n \<le> MAX_SAFE_INTEGER"

definition leaseDurationOk :: "int \<Rightarrow> bool" where
  "leaseDurationOk n \<longleftrightarrow> 1000 \<le> n \<and> n \<le> 300000"

definition maxPayloadBytes :: nat where "maxPayloadBytes = 512000"

definition ledgerBounded :: "jsval \<Rightarrow> unit result" where
  "ledgerBounded v = need (byteLength (stringify v) \<le> maxPayloadBytes) (ledgerError ''invalid_state'')"

section \<open>Locks, events and leases\<close>

definition lockRoot :: "LedgerConfig \<Rightarrow> LedgerEnv \<Rightarrow> RuntimeScope \<Rightarrow> string \<Rightarrow> LedgerDb \<Rightarrow> LedgerRoot result" where
  "lockRoot C E scope rootRunId db =
     andThen (need (validRuntimeScope (lc_platform C) scope) ZodError) (\<lambda>_.
     andThen (need (zUuid (lc_platform C) rootRunId) ZodError) (\<lambda>_.
     case ld_root db of
       None \<Rightarrow> Inl (ledgerError ''scope_mismatch'')
     | Some root \<Rightarrow>
         let own = tk_scope (rt_task root) in
         if tk_rootRunId (rt_task root) \<noteq> rootRunId \<or> sc_organizationId own \<noteq> sc_organizationId scope \<or>
            sc_workspaceId own \<noteq> sc_workspaceId scope
         then Inl (ledgerError ''scope_mismatch'')
         else andThen (matchesRuntimeScope (lc_platform C) own scope) (\<lambda>same.
           if \<not> same then Inl (ledgerError ''scope_mismatch'')
           else Inr (case ne_deadline E of None \<Rightarrow> root | Some d \<Rightarrow> root\<lparr>rt_deadlineAt := d\<rparr>))))"

definition rowOf :: "LedgerDb \<Rightarrow> string \<Rightarrow> LedgerRow option" where
  "rowOf db pid = List.find (\<lambda>r. lw_id r = pid) (ld_rows db)"

text \<open>The rows of a root are in its organization and workspace, so the scope is checked on the root.\<close>

definition lockOperation :: "LedgerConfig \<Rightarrow> LedgerEnv \<Rightarrow> RuntimeScope \<Rightarrow> string \<Rightarrow> LedgerDb \<Rightarrow> (LedgerRoot \<times> LedgerRow) result" where
  "lockOperation C E scope pid db =
     andThen (need (validRuntimeScope (lc_platform C) scope) ZodError) (\<lambda>_.
     andThen (need (zUuid (lc_platform C) pid) ZodError) (\<lambda>_.
     case rowOf db pid of
       None \<Rightarrow> Inl (ledgerError ''scope_mismatch'')
     | Some row \<Rightarrow>
         andThen (lockRoot C E scope (tk_rootRunId (ab_task (op_binding (lw_snapshot row)))) db) (\<lambda>root.
         andThen (matchesRuntimeScope (lc_platform C) (tk_scope (ab_task (op_binding (lw_snapshot row)))) scope) (\<lambda>same.
         if \<not> same then Inl (ledgerError ''scope_mismatch'')
         else andThen (parseOpSnapshot (lc_platform C) (lw_snapshot row)) (\<lambda>s. Inr (root, row\<lparr>lw_snapshot := s\<rparr>))))))"

definition ensureRootAdmits :: "LedgerRoot \<Rightarrow> int \<Rightarrow> unit result" where
  "ensureRootAdmits root at =
     (if rt_cancelRequestId root \<noteq> None then Inl (ledgerError ''root_canceled'')
      else if rt_deadlineAt root \<le> at then Inl (ledgerError ''deadline_exceeded'') else Inr ())"

definition linkRun :: "LedgerConfig \<Rightarrow> RuntimeTaskRef \<Rightarrow> LedgerDb \<Rightarrow> LedgerDb result" where
  "linkRun C task db = (case map_of (ld_links db) (tk_runId task) of
     Some previous \<Rightarrow>
       if runtimeContractEqual (lc_platform C) (taskJson task) (taskJson previous) then Inr db
       else Inl (ledgerError ''scope_mismatch'')
   | None \<Rightarrow>
       let linked = db\<lparr>ld_links := ld_links db @ [(tk_runId task, task)]\<rparr> in
       (case tk_parentRunId task of
          None \<Rightarrow> Inr linked
        | Some parentRunId \<Rightarrow> (case map_of (ld_links db) parentRunId of
              None \<Rightarrow> Inl (ledgerError ''scope_mismatch'')
            | Some parent \<Rightarrow>
                if tk_rootRunId parent \<noteq> tk_rootRunId task then Inl (ledgerError ''scope_mismatch'')
                else andThen (matchesRuntimeScope (lc_platform C) (tk_scope parent) (tk_scope task)) (\<lambda>same.
                  if same then Inr linked else Inl (ledgerError ''scope_mismatch'')))))"

definition updateRow :: "string \<Rightarrow> (LedgerRow \<Rightarrow> LedgerRow) \<Rightarrow> LedgerDb \<Rightarrow> LedgerDb" where
  "updateRow pid f db = db\<lparr>ld_rows := map (\<lambda>r. if lw_id r = pid then f r else r) (ld_rows db)\<rparr>"

definition appendSignal ::
  "LedgerConfig \<Rightarrow> LedgerEnv \<Rightarrow> nat \<Rightarrow> nat \<Rightarrow> LedgerRow \<Rightarrow> OpSignal \<Rightarrow> LedgerDb \<Rightarrow> (LedgerRow \<times> LedgerDb) result" where
  "appendSignal C E i k row sig db =
     andThen (advanceRuntimeOperation (lc_platform C) (lw_snapshot row) sig) (\<lambda>s.
     case toISOString (ne_clock E i k) of
       None \<Rightarrow> Inl RangeError
     | Some at \<Rightarrow>
         let event = \<lparr>oe_eventId = ne_uuid E i k, oe_task = ab_task (op_binding s), oe_attempt = ab_attempt (op_binding s),
               oe_execution = ab_execution (op_binding s), oe_sequence = lw_nextSequence row, oe_occurredAt = at, oe_signal = sig\<rparr> in
         andThen (need (validOpEvent (lc_platform C) event) ZodError) (\<lambda>_.
         if oe_eventId event \<in> (oe_eventId \<circ> snd) ` set (ld_events db) then Inl (JsError ''unique_violation'')
         else Inr (row\<lparr>lw_snapshot := s, lw_nextSequence := lw_nextSequence row + 1\<rparr>,
           updateRow (lw_id row) (\<lambda>r. r\<lparr>lw_snapshot := s, lw_nextSequence := lw_nextSequence r + 1\<rparr>)
             (db\<lparr>ld_events := ld_events db @ [(lw_id row, event)]\<rparr>))))"

definition verifyLease :: "LedgerConfig \<Rightarrow> LedgerRow \<Rightarrow> string \<Rightarrow> unit result" where
  "verifyLease C row token =
     andThen (need (zUuid (lc_platform C) token) ZodError) (\<lambda>_.
     need (lw_leaseTokenHash row = Some (sha256hex token)) (ledgerError ''lease_lost''))"

fun receiptContentJson :: "ReceiptContent \<Rightarrow> jsval" where
  "receiptContentJson (Content_receipt attempt sig seq evidence) = JObj [(''attempt'', attemptJson attempt),
     (''signal'', signalJson sig), (''deviceSequence'', jOpt JNum seq), (''evidence'', evidence)]"
| "receiptContentJson (Content_preflight attempt) = JObj [(''attempt'', attemptJson attempt), (''kind'', JStr ''execution_preflight'')]"

definition insertReceipt :: "string \<Rightarrow> string \<Rightarrow> ReceiptContent \<Rightarrow> Disposition \<Rightarrow> LedgerDb \<Rightarrow> LedgerDb result" where
  "insertReceipt receiptId pid content disposition db =
     (if receiptId \<in> lx_receiptId ` set (ld_receipts db) then Inl (JsError ''unique_violation'')
      else Inr (db\<lparr>ld_receipts := ld_receipts db @
        [\<lparr>lx_receiptId = receiptId, lx_operationId = pid, lx_content = content, lx_disposition = disposition\<rparr>]\<rparr>))"

section \<open>Cancellation\<close>

definition jstrings :: "string list \<Rightarrow> jsval set" where
  "jstrings xs = JStr ` set xs"

text \<open>Work of which no lease was ever issued, and which only a lease could have started.\<close>

definition neverExecuted :: "LedgerRow \<Rightarrow> bool" where
  "neverExecuted row \<longleftrightarrow> op_status (lw_snapshot row) = Op_cancel_requested \<and> lw_leaseTokenHash row = None \<and>
     (op_agentInstanceId (lw_snapshot row) \<noteq> None \<and> ab_action (op_binding (lw_snapshot row)) = ''cloud.mcp.call'' \<and>
        ex_targetKind (ab_execution (op_binding (lw_snapshot row))) = TK_cloud_mcp \<or>
      (case lw_payload row of None \<Rightarrow> False | Some p \<Rightarrow> jget ''capability'' p \<in> jstrings
        [''local.process.execute'', ''local.python.execute'', ''local.fs.changeset'', ''local.mcp.discover'', ''local.mcp.call'']))"

text \<open>The settlement of the reservations of an operation that consumed nothing.\<close>

definition idleObservation :: "LedgerEnv \<Rightarrow> nat \<Rightarrow> nat \<Rightarrow> LedgerRow \<Rightarrow> LedgerBudget \<Rightarrow> LedgerReservation \<Rightarrow> string \<Rightarrow> UsageObservation" where
  "idleObservation E i k row budget reservation at =
     \<lparr>uo_observationId = ne_uuid E i k, uo_accountingId = lv_accountingId reservation,
      uo_task = ab_task (op_binding (lw_snapshot row)), uo_source = lb_source budget,
      uo_boundary = Boundary_operation (ab_attempt (op_binding (lw_snapshot row))), uo_aggregation = Aggregate_self_only,
      uo_metric = lv_metric reservation, uo_unit = lb_unit budget, uo_currency = lb_currency budget, uo_mode = Mode_cumulative,
      uo_quality = Quality_measured, uo_amount = Some 0, uo_state = Usage_settled, uo_windowId = ne_uuid E i (k + 1),
      uo_startedAt = at, uo_endedAt = at, uo_observedAt = at\<rparr>"

definition settleReservation :: "string \<Rightarrow> UsageMetric \<Rightarrow> int \<Rightarrow> UsageObservation \<Rightarrow> LedgerDb \<Rightarrow> LedgerDb" where
  "settleReservation pid metric amount observation db = db\<lparr>ld_reservations := map (\<lambda>v.
     if lv_operationId v = pid \<and> lv_metric v = metric then v\<lparr>lv_settled := Some amount, lv_observation := Some observation\<rparr> else v)
     (ld_reservations db)\<rparr>"

definition updateBudget :: "UsageMetric \<Rightarrow> (LedgerBudget \<Rightarrow> LedgerBudget) \<Rightarrow> LedgerDb \<Rightarrow> LedgerDb" where
  "updateBudget metric f db = db\<lparr>ld_budgets := map (\<lambda>b. if lb_metric b = metric then f b else b) (ld_budgets db)\<rparr>"

definition budgetOf :: "LedgerDb \<Rightarrow> UsageMetric \<Rightarrow> LedgerBudget option" where
  "budgetOf db metric = List.find (\<lambda>b. lb_metric b = metric) (ld_budgets db)"

text \<open>The join with the budgets; a reservation without its budget is not in it.\<close>

fun settleIdle :: "LedgerConfig \<Rightarrow> LedgerEnv \<Rightarrow> nat \<Rightarrow> nat \<Rightarrow> LedgerRow \<Rightarrow> LedgerReservation list \<Rightarrow> LedgerDb \<Rightarrow> LedgerDb result" where
  "settleIdle C E i k row [] db = Inr db"
| "settleIdle C E i k row (reservation # rest) db = (case budgetOf db (lv_metric reservation) of
     None \<Rightarrow> settleIdle C E i k row rest db
   | Some budget \<Rightarrow> (case toISOString (ne_clock E i k) of
       None \<Rightarrow> Inl RangeError
     | Some at \<Rightarrow> andThen (parseUsageObservation (lc_platform C) (idleObservation E i k row budget reservation at)) (\<lambda>observation.
         settleIdle C E i (k + 2) row rest
           (updateBudget (lv_metric reservation) (\<lambda>b. b\<lparr>lb_reserved := lb_reserved b - lv_amount reservation\<rparr>)
             (settleReservation (lw_id row) (lv_metric reservation) 0 observation db)))))"

definition unsettledOf :: "string \<Rightarrow> LedgerDb \<Rightarrow> LedgerReservation list" where
  "unsettledOf pid db = filter (\<lambda>v. lv_operationId v = pid \<and> lv_settled v = None) (ld_reservations db)"

definition proveNotExecuted :: "LedgerConfig \<Rightarrow> LedgerEnv \<Rightarrow> nat \<Rightarrow> LedgerRow \<Rightarrow> LedgerDb \<Rightarrow> LedgerDb result" where
  "proveNotExecuted C E i row db =
     (case toISOString (ne_clock E i 1) of
       None \<Rightarrow> Inl RangeError
     | Some at \<Rightarrow> andThen (runtimeLedgerInputDigest (lc_notExecuted C)) (\<lambda>digest.
         let sig = SigStopped \<lparr>ev_id = ne_uuid E i 1, ev_recordedAt = at, ev_digest = digest\<rparr> Eff_none in
         andThen (appendSignal C E i 2 row sig db) (\<lambda>(row', db').
         andThen (insertReceipt (ne_uuid E i 3) (lw_id row)
           (Content_receipt (ab_attempt (op_binding (lw_snapshot row'))) sig None (lc_notExecuted C)) Disp_applied db') (\<lambda>db''.
         if op_agentInstanceId (lw_snapshot row') = None then Inr db''
         else settleIdle C E i 4 row' (unsettledOf (lw_id row) db'') db''))))"

definition cancelRow :: "LedgerConfig \<Rightarrow> LedgerEnv \<Rightarrow> nat \<Rightarrow> string \<Rightarrow> LedgerRow \<Rightarrow> LedgerDb \<Rightarrow> LedgerDb result" where
  "cancelRow C E i acceptedId row db =
     andThen (if \<not> isTerminalRuntimeOperationStatus (op_status (lw_snapshot row)) \<and> op_cancelRequestId (lw_snapshot row) = None
       then appendSignal C E i 0 row (SigCancelRequested acceptedId) db else Inr (row, db)) (\<lambda>(row', db').
     if neverExecuted row' then proveNotExecuted C E i row' db' else Inr db')"

fun cancelOperationRows :: "LedgerConfig \<Rightarrow> LedgerEnv \<Rightarrow> nat \<Rightarrow> string \<Rightarrow> LedgerRow list \<Rightarrow> LedgerDb \<Rightarrow> LedgerDb result" where
  "cancelOperationRows C E i acceptedId [] db = Inr db"
| "cancelOperationRows C E i acceptedId (row # rows) db =
     andThen (cancelRow C E i acceptedId row db) (cancelOperationRows C E (i + 1) acceptedId rows)"

text \<open>
  \<open>ne_continuing\<close> are the services that may outlive a deadline; the rows are taken in the order of
  their identifiers, which decides nothing here.
\<close>

definition cancelLocked :: "LedgerConfig \<Rightarrow> LedgerEnv \<Rightarrow> nat \<Rightarrow> LedgerRoot \<Rightarrow> string \<Rightarrow> string \<Rightarrow> LedgerDb \<Rightarrow> LedgerDb result" where
  "cancelLocked C E i root requestId reason db =
     (let acceptedId = orElse (rt_cancelRequestId root) requestId;
        continuing = (if reason = ''deadline'' then ne_continuing E else []);
        db' = db\<lparr>ld_root := map_option (\<lambda>r. r\<lparr>rt_cancelRequestId := Some acceptedId,
          rt_cancelReason := Some (orElse (rt_cancelReason r) reason)\<rparr>) (ld_root db)\<rparr> in
      cancelOperationRows C E i acceptedId (filter (\<lambda>r. lw_id r \<notin> set continuing) (ld_rows db')) db')"

definition cancelRoot :: "LedgerConfig \<Rightarrow> LedgerEnv \<Rightarrow> RuntimeScope \<Rightarrow> string \<Rightarrow> string \<Rightarrow> LedgerDb \<Rightarrow> (unit \<times> LedgerDb) result" where
  "cancelRoot C E scope rootRunId requestId db =
     andThen (need (zUuid (lc_platform C) requestId) ZodError) (\<lambda>_.
     andThen (lockRoot C E scope rootRunId db) (\<lambda>root.
     andThen (cancelLocked C E 0 root requestId ''user_request'' db) (\<lambda>db'. Inr ((), db'))))"

fun loseLeases :: "LedgerConfig \<Rightarrow> LedgerEnv \<Rightarrow> nat \<Rightarrow> LedgerRow list \<Rightarrow> LedgerDb \<Rightarrow> LedgerDb result" where
  "loseLeases C E i [] db = Inr db"
| "loseLeases C E i (row # rows) db =
     andThen (appendSignal C E i 0 row (SigUncertain Lost_lease) db) (\<lambda>(row', db'). loseLeases C E (i + 1) rows db')"

definition leaseExpired :: "int \<Rightarrow> LedgerRow \<Rightarrow> bool" where
  "leaseExpired at row \<longleftrightarrow> (case lw_leaseExpiresAt row of None \<Rightarrow> False | Some t \<Rightarrow> t \<le> at) \<and>
     op_status (lw_snapshot row) \<in> {Op_dispatched, Op_running, Op_cancel_requested}"

definition expireLeases :: "LedgerConfig \<Rightarrow> LedgerEnv \<Rightarrow> RuntimeScope \<Rightarrow> string \<Rightarrow> LedgerDb \<Rightarrow> (unit \<times> LedgerDb) result" where
  "expireLeases C E scope rootRunId db =
     andThen (lockRoot C E scope rootRunId db) (\<lambda>root.
     andThen (if rt_deadlineAt root \<le> ne_clock E 0 9 then cancelLocked C E 1 root (ne_uuid E 0 9) ''deadline'' db else Inr db) (\<lambda>db'.
     andThen (loseLeases C E (1 + length (ld_rows db')) (filter (leaseExpired (ne_clock E 0 10)) (ld_rows db')) db') (\<lambda>db''. Inr ((), db''))))"

section \<open>Leases\<close>

definition payloadMatches :: "RuntimeActionBinding \<Rightarrow> jsval \<Rightarrow> bool result" where
  "payloadMatches b p =
     (if jget ''capability'' p \<noteq> JStr (ab_action b) then Inr False
      else andThen (runtimeLedgerInputDigest p) (\<lambda>digest. Inr (digest = ab_inputDigest b)))"

text \<open>Current authority for the operation; the stored payload parses to itself.\<close>

definition admit :: "LedgerEnv \<Rightarrow> nat \<Rightarrow> LedgerRow \<Rightarrow> unit result" where
  "admit E k row =
     andThen (case lw_payload row of None \<Rightarrow> Inr True | Some p \<Rightarrow> payloadMatches (op_binding (lw_snapshot row)) p) (\<lambda>ok.
     andThen (need ok (ledgerError ''scope_mismatch'')) (\<lambda>_.
     andThen (ne_run E k) (\<lambda>_.
     andThen (ne_admission E k) (\<lambda>waiting.
     andThen (ne_target E k) (\<lambda>_. need (\<not> waiting) (ledgerError ''unavailable''))))))"

record LedgerLease =
  le_snapshot :: OpSnapshot
  le_leaseToken :: string
  le_leaseExpiresAt :: int
  le_bridgePayload :: "jsval option"

definition leaseLive :: "LedgerRow \<Rightarrow> int \<Rightarrow> bool" where
  "leaseLive row at \<longleftrightarrow> (case lw_leaseExpiresAt row of None \<Rightarrow> False | Some t \<Rightarrow> at < t)"

text \<open>A dispatched operation whose lease token can be recomputed: the same lease again.\<close>

definition recoverLease :: "LedgerConfig \<Rightarrow> LedgerEnv \<Rightarrow> LedgerRoot \<Rightarrow> LedgerRow \<Rightarrow> string \<Rightarrow> string \<Rightarrow> int \<Rightarrow> LedgerDb \<Rightarrow> (LedgerLease \<times> LedgerDb) result" where
  "recoverLease C E root row owner token at db =
     andThen (need (zUuid (lc_platform C) token) ZodError) (\<lambda>_.
     andThen (need (lw_leaseOwner row = Some owner \<and> leaseLive row at) (ledgerError ''lease_lost'')) (\<lambda>_.
     andThen (verifyLease C row token) (\<lambda>_.
     andThen (admit E 0 row) (\<lambda>_.
     andThen (ensureRootAdmits root (ne_clock E 0 1)) (\<lambda>_.
     andThen (need (leaseLive row (ne_clock E 0 1)) (ledgerError ''lease_lost'')) (\<lambda>_.
     Inr (\<lparr>le_snapshot = lw_snapshot row, le_leaseToken = token, le_leaseExpiresAt = the (lw_leaseExpiresAt row),
       le_bridgePayload = lw_payload row\<rparr>, db)))))))"

definition unreserved :: "LedgerDb \<Rightarrow> string \<Rightarrow> bool" where
  "unreserved db pid \<longleftrightarrow> list_ex (\<lambda>b. \<not> list_ex (\<lambda>v. lv_operationId v = pid \<and> lv_metric v = lb_metric b \<and> lv_observation v = None)
     (ld_reservations db)) (ld_budgets db)"

definition grantLease ::
  "LedgerConfig \<Rightarrow> LedgerEnv \<Rightarrow> LedgerRoot \<Rightarrow> LedgerRow \<Rightarrow> string \<Rightarrow> int \<Rightarrow> string option \<Rightarrow> int \<Rightarrow> LedgerDb \<Rightarrow> (LedgerLease \<times> LedgerDb) result" where
  "grantLease C E root row owner duration recovered at db =
     andThen (need (op_status (lw_snapshot row) \<in> {Op_ready, Op_waiting_user, Op_waiting_device, Op_waiting_dependency} \<and>
       lw_leaseTokenHash row = None) (ledgerError ''invalid_state'')) (\<lambda>_.
     andThen (need (\<not> unreserved db (lw_id row)) (ledgerError ''budget_exhausted'')) (\<lambda>_.
     andThen (admit E 0 row) (\<lambda>_.
     andThen (ensureRootAdmits root (ne_clock E 0 1)) (\<lambda>_.
     andThen (if op_status (lw_snapshot row) \<noteq> Op_ready then appendSignal C E 0 2 row SigReady db else Inr (row, db)) (\<lambda>(row1, db1).
     andThen (appendSignal C E 0 3 row1 SigDispatched db1) (\<lambda>(row2, db2).
     let token = orElse recovered (ne_uuid E 0 4); expiresAt = min (ne_clock E 0 1 + duration) (rt_deadlineAt root);
       db3 = updateRow (lw_id row) (\<lambda>r. r\<lparr>lw_leaseOwner := Some owner, lw_leaseTokenHash := Some (sha256hex token),
         lw_leaseExpiresAt := Some expiresAt\<rparr>) db2 in
     andThen (need (zUuid (lc_platform C) token) ZodError) (\<lambda>_.
     andThen (ne_persistLease E) (\<lambda>_.
     andThen (admit E 1 row2) (\<lambda>_.
     andThen (ensureRootAdmits root (ne_clock E 0 5)) (\<lambda>_.
     andThen (need (ne_clock E 0 5 < expiresAt) (ledgerError ''lease_lost'')) (\<lambda>_.
     Inr (\<lparr>le_snapshot = lw_snapshot row2, le_leaseToken = token, le_leaseExpiresAt = expiresAt,
       le_bridgePayload = lw_payload row2\<rparr>, db3))))))))))))"

definition dispatchLocked ::
  "LedgerConfig \<Rightarrow> LedgerEnv \<Rightarrow> LedgerRoot \<Rightarrow> LedgerRow \<Rightarrow> string \<Rightarrow> int \<Rightarrow> string option \<Rightarrow> LedgerDb \<Rightarrow> (LedgerLease \<times> LedgerDb) result" where
  "dispatchLocked C E root row owner duration recovered db =
     (let at = ne_clock E 0 0 in
     andThen (ensureRootAdmits root at) (\<lambda>_.
     andThen (ne_rootRun E 0) (\<lambda>_.
     case (op_status (lw_snapshot row), recovered) of
       (Op_dispatched, Some token) \<Rightarrow> recoverLease C E root row owner token at db
     | _ \<Rightarrow> grantLease C E root row owner duration recovered at db)))"

definition dispatchOperation ::
  "LedgerConfig \<Rightarrow> LedgerEnv \<Rightarrow> RuntimeScope \<Rightarrow> string \<Rightarrow> string \<Rightarrow> int \<Rightarrow> LedgerDb \<Rightarrow> (LedgerLease \<times> LedgerDb) result" where
  "dispatchOperation C E scope pid owner duration db =
     andThen (need (zUuid (lc_platform C) owner \<and> leaseDurationOk duration) ZodError) (\<lambda>_.
     andThen (lockOperation C E scope pid db) (\<lambda>(root, row). dispatchLocked C E root row owner duration None db))"

text \<open>
  A bridge asks for its next operation: the candidates of the query one after the other, each in its own
  transaction, with the token \<open>recover\<close> computes from a binding.
\<close>

definition skippable :: "exn \<Rightarrow> bool" where
  "skippable e \<longleftrightarrow> e \<in> ledgerError ` {''invalid_state'', ''unavailable'', ''root_canceled'', ''deadline_exceeded'',
     ''budget_exhausted'', ''lease_lost''}"

fun claimCandidates ::
  "LedgerConfig \<Rightarrow> (nat \<Rightarrow> LedgerEnv) \<Rightarrow> RuntimeScope \<Rightarrow> string \<Rightarrow> int \<Rightarrow> (RuntimeActionBinding \<Rightarrow> string) option \<Rightarrow> string list \<Rightarrow>
   LedgerDb \<Rightarrow> (LedgerLease option \<times> LedgerDb) result" where
  "claimCandidates C Es scope device duration recover [] db = Inr (None, db)"
| "claimCandidates C Es scope device duration recover (pid # pids) db =
     (case andThen (lockOperation C (Es 0) scope pid db) (\<lambda>(root, row). dispatchLocked C (Es 0) root row device duration
         (map_option (\<lambda>f. f (op_binding (lw_snapshot row))) recover) db) of
       Inr (lease, db') \<Rightarrow> Inr (Some lease, db')
     | Inl e \<Rightarrow> if skippable e then claimCandidates C (\<lambda>k. Es (Suc k)) scope device duration recover pids db else Inl e)"

definition claimNextBridgeOperation ::
  "LedgerConfig \<Rightarrow> (nat \<Rightarrow> LedgerEnv) \<Rightarrow> RuntimeScope \<Rightarrow> string \<Rightarrow> int \<Rightarrow> (RuntimeActionBinding \<Rightarrow> string) option \<Rightarrow> string list \<Rightarrow>
   LedgerDb \<Rightarrow> (LedgerLease option \<times> LedgerDb) result" where
  "claimNextBridgeOperation C Es scope device duration recover candidates db =
     andThen (need (validRuntimeScope (lc_platform C) scope \<and> zUuid (lc_platform C) device \<and> leaseDurationOk duration) ZodError)
       (\<lambda>_. claimCandidates C Es scope device duration recover candidates db)"

definition attemptEqual :: "LedgerConfig \<Rightarrow> RuntimeAttemptRef \<Rightarrow> LedgerRow \<Rightarrow> bool" where
  "attemptEqual C attempt row \<longleftrightarrow>
     runtimeContractEqual (lc_platform C) (attemptJson attempt) (attemptJson (ab_attempt (op_binding (lw_snapshot row))))"

definition startOperation ::
  "LedgerConfig \<Rightarrow> LedgerEnv \<Rightarrow> RuntimeScope \<Rightarrow> string \<Rightarrow> string \<Rightarrow> string \<Rightarrow> RuntimeAttemptRef \<Rightarrow> LedgerDb \<Rightarrow> ((OpSnapshot \<times> bool) \<times> LedgerDb) result" where
  "startOperation C E scope pid token receiptId attempt db =
     andThen (need (zUuid (lc_platform C) receiptId \<and> validRuntimeAttemptRef (lc_platform C) attempt) ZodError) (\<lambda>_.
     andThen (lockOperation C E scope pid db) (\<lambda>(root, row).
     andThen (verifyLease C row token) (\<lambda>_.
     case List.find (\<lambda>x. lx_receiptId x = receiptId) (ld_receipts db) of
       Some prior \<Rightarrow>
         if lx_operationId prior \<noteq> lw_id row \<or> 
            \<not> runtimeContractEqual (lc_platform C) (receiptContentJson (lx_content prior)) (receiptContentJson (Content_preflight attempt))
         then Inl (ledgerError ''receipt_conflict'') else Inr ((lw_snapshot row, False), db)
     | None \<Rightarrow>
         andThen (need (attemptEqual C attempt row) (ledgerError ''lease_lost'')) (\<lambda>_.
         andThen (ensureRootAdmits root (ne_clock E 0 0)) (\<lambda>_.
         andThen (ne_rootRun E 0) (\<lambda>_.
         andThen (need (leaseLive row (ne_clock E 0 0) \<and> op_status (lw_snapshot row) = Op_dispatched) (ledgerError ''lease_lost'')) (\<lambda>_.
         andThen (admit E 0 row) (\<lambda>_.
         andThen (ensureRootAdmits root (ne_clock E 0 1)) (\<lambda>_.
         andThen (need (leaseLive row (ne_clock E 0 1)) (ledgerError ''lease_lost'')) (\<lambda>_.
         andThen (appendSignal C E 0 2 row (SigStarted None) db) (\<lambda>(row1, db1).
         andThen (insertReceipt receiptId (lw_id row) (Content_preflight attempt) Disp_applied db1) (\<lambda>db2.
         andThen (admit E 1 row1) (\<lambda>_.
         andThen (ensureRootAdmits root (ne_clock E 0 3)) (\<lambda>_.
         andThen (need (leaseLive row1 (ne_clock E 0 3)) (ledgerError ''lease_lost'')) (\<lambda>_.
         Inr ((lw_snapshot row1, True), db2))))))))))))))))"

definition heartbeat ::
  "LedgerConfig \<Rightarrow> LedgerEnv \<Rightarrow> RuntimeScope \<Rightarrow> string \<Rightarrow> string \<Rightarrow> int \<Rightarrow> LedgerDb \<Rightarrow> ((OpSnapshot \<times> int) \<times> LedgerDb) result" where
  "heartbeat C E scope pid token duration db =
     andThen (need (leaseDurationOk duration) ZodError) (\<lambda>_.
     andThen (lockOperation C E scope pid db) (\<lambda>(root, row).
     andThen (verifyLease C row token) (\<lambda>_.
     andThen (ensureRootAdmits root (ne_clock E 0 0)) (\<lambda>_.
     andThen (ne_rootRun E 0) (\<lambda>_.
     andThen (need (leaseLive row (ne_clock E 0 0) \<and> op_status (lw_snapshot row) \<in> {Op_dispatched, Op_running})
       (ledgerError ''lease_lost'')) (\<lambda>_.
     andThen (admit E 0 row) (\<lambda>_.
     andThen (ensureRootAdmits root (ne_clock E 0 1)) (\<lambda>_.
     andThen (need (leaseLive row (ne_clock E 0 1)) (ledgerError ''lease_lost'')) (\<lambda>_.
     let expiresAt = min (ne_clock E 0 1 + duration) (rt_deadlineAt root) in
     andThen (admit E 1 row) (\<lambda>_.
     andThen (ensureRootAdmits root (ne_clock E 0 2)) (\<lambda>_.
     andThen (need (ne_clock E 0 2 < expiresAt \<and> leaseLive row (ne_clock E 0 2)) (ledgerError ''lease_lost'')) (\<lambda>_.
     Inr ((lw_snapshot row, expiresAt), updateRow (lw_id row) (\<lambda>r. r\<lparr>lw_leaseExpiresAt := Some expiresAt\<rparr>) db)))))))))))))"

section \<open>Execution budget and output\<close>

text \<open>Specifications are values of one schema, deeply equal exactly when the records are equal.\<close>

definition exchangeSandboxExecutionBudget ::
  "LedgerConfig \<Rightarrow> LedgerEnv \<Rightarrow> RuntimeScope \<Rightarrow> string \<Rightarrow> string \<Rightarrow> RuntimeAttemptRef \<Rightarrow> SandboxRenewal option \<Rightarrow> LedgerDb \<Rightarrow>
   (SandboxBudgetState \<times> LedgerDb) result" where
  "exchangeSandboxExecutionBudget C E scope pid token attempt renewal db = (let P = lc_platform C in
     andThen (need (validRuntimeAttemptRef P attempt \<and> optAll (validSandboxRenewal P) renewal) ZodError) (\<lambda>_.
     andThen (lockOperation C E scope pid db) (\<lambda>(root, row).
     andThen (verifyLease C row token) (\<lambda>_.
     andThen (need (attemptEqual C attempt row) (ledgerError ''lease_lost'')) (\<lambda>_.
     andThen (ensureRootAdmits root (ne_clock E 0 0)) (\<lambda>_.
     andThen (ne_rootRun E 0) (\<lambda>_.
     andThen (need (op_status (lw_snapshot row) = Op_running \<and> leaseLive row (ne_clock E 0 0)) (ledgerError ''lease_lost'')) (\<lambda>_.
     andThen (admit E 0 row) (\<lambda>_.
     andThen (ne_budgetSpec E) (\<lambda>spec.
     andThen (need (validSandboxBudgetSpec P spec) ZodError) (\<lambda>_.
     let beganAt = ne_clock E 0 1 in
     andThen (need (optAll (validSandboxBudgetState P) (lw_budget row)) ZodError) (\<lambda>_.
     andThen (need (optAll (\<lambda>prior. sb_spec prior = spec) (lw_budget row)) (JsError ''SANDBOX_EXECUTION_POLICY_CHANGED'')) (\<lambda>_.
     andThen (need (optAll (\<lambda>prior. beganAt < sb_deadlineAt prior) (lw_budget row)) (JsError ''SANDBOX_EXECUTION_DEADLINE'')) (\<lambda>_.
     andThen (case (lw_budget row, renewal) of
         (None, Some _) \<Rightarrow> Inl (JsError ''SANDBOX_EXECUTION_NOT_STARTED'')
       | (None, None) \<Rightarrow> startSandboxExecutionBudget P spec beganAt (rt_deadlineAt root)
       | (Some prior, None) \<Rightarrow> Inr prior
       | (Some prior, Some r) \<Rightarrow> renewSandboxExecutionBudget P prior r beganAt (rt_deadlineAt root)) (\<lambda>state.
     andThen (admit E 1 row) (\<lambda>_.
     andThen (ensureRootAdmits root (ne_clock E 0 2)) (\<lambda>_.
     andThen (need (leaseLive row (ne_clock E 0 2) \<and> ne_clock E 0 2 < sb_deadlineAt state) (ledgerError ''lease_lost'')) (\<lambda>_.
     Inr (state, updateRow (lw_id row) (\<lambda>r. r\<lparr>lw_budget := Some state\<rparr>) db)))))))))))))))))))"

definition ledgerOutputsOf :: "LedgerDb \<Rightarrow> string \<Rightarrow> LedgerOutputRow list" where
  "ledgerOutputsOf db pid = filter (\<lambda>x. lo_operationId x = pid) (ld_outputs db)"

definition recordLedgerOutput ::
  "LedgerConfig \<Rightarrow> LedgerEnv \<Rightarrow> RuntimeScope \<Rightarrow> string \<Rightarrow> string \<Rightarrow> RuntimeAttemptRef \<Rightarrow> int \<Rightarrow> string \<Rightarrow> string \<Rightarrow> LedgerDb \<Rightarrow> (unit \<times> LedgerDb) result" where
  "recordLedgerOutput C E scope pid token attempt seq stream text db =
     andThen (need (0 \<le> seq \<and> seq \<le> 255 \<and> stream \<in> {''stdout'', ''stderr''} \<and> length text \<le> 65536) ZodError) (\<lambda>_.
     andThen (lockOperation C E scope pid db) (\<lambda>(root, row).
     andThen (verifyLease C row token) (\<lambda>_.
     andThen (need (attemptEqual C attempt row \<and> ab_action (op_binding (lw_snapshot row)) = ''local.process.execute'')
       (ledgerError ''scope_mismatch'')) (\<lambda>_.
     let out = ledgerOutputsOf db (lw_id row) in
     case List.find (\<lambda>x. lo_sequence x = seq) out of
       Some prior \<Rightarrow>
         if lo_stream prior \<noteq> stream \<or> lo_content prior \<noteq> text then Inl (ledgerError ''receipt_conflict'') else Inr ((), db)
     | None \<Rightarrow>
         if seq \<noteq> foldr (\<lambda>x m. max (lo_sequence x + 1) m) out 0 \<or>
            65536 < sum_list (map (byteLength \<circ> lo_content) out) + byteLength text
         then Inl (ledgerError ''receipt_conflict'')
         else Inr ((), db\<lparr>ld_outputs := ld_outputs db @
           [\<lparr>lo_operationId = lw_id row, lo_sequence = seq, lo_stream = stream, lo_content = text\<rparr>]\<rparr>)))))"

section \<open>Receipts\<close>

definition receiptContent :: "LedgerConfig \<Rightarrow> RuntimeAttemptRef \<Rightarrow> OpSignal \<Rightarrow> int option \<Rightarrow> jsval \<Rightarrow> ReceiptContent result" where
  "receiptContent C attempt sig seq evidence =
     (if validRuntimeAttemptRef (lc_platform C) attempt \<and> validOpSignal (lc_platform C) sig \<and> optAll ledgerInteger seq
      then Inr (Content_receipt attempt sig seq (case evidence of JUndefined \<Rightarrow> JNull | v \<Rightarrow> v)) else Inl ZodError)"

text \<open>The signals a device may report.\<close>

fun factSignal :: "OpSignal \<Rightarrow> bool" where
  "factSignal (SigStarted _) = True"
| "factSignal SigTransportAck = True"
| "factSignal (SigUncertain _) = True"
| "factSignal (SigOutcome _) = True"
| "factSignal (SigStopped _ _) = True"
| "factSignal _ = False"

fun isStopped :: "OpSignal \<Rightarrow> bool" where
  "isStopped (SigStopped _ _) = True"
| "isStopped _ = False"

text \<open>
  A running operation that reports that it was stopped without anyone having asked: where the evidence
  allows it, the identifier of the request that is recorded before.
\<close>

definition stopIntent :: "LedgerEnv \<Rightarrow> LedgerRow \<Rightarrow> OpSignal \<Rightarrow> string \<Rightarrow> string option result" where
  "stopIntent E row sig receiptId =
     (if \<not> isStopped sig \<or> op_status (lw_snapshot row) \<noteq> Op_running then Inr None
      else if ab_action (op_binding (lw_snapshot row)) = ''cloud.process.execute'' then
        (if ne_cloudService E then Inr (Some (ne_uuid E 0 0)) else andThen (ne_stopEvidence E) (\<lambda>_. Inr (Some receiptId)))
      else case lw_payload row of
          None \<Rightarrow> Inr None
        | Some p \<Rightarrow>
            if jget ''capability'' p \<in> jstrings [''local.process.execute'', ''local.python.execute'', ''local.pdf.read'']
            then andThen (ne_stopEvidence E) (\<lambda>_. Inr (Some receiptId)) else Inr None)"

definition applyReceipt ::
  "LedgerConfig \<Rightarrow> LedgerEnv \<Rightarrow> LedgerRow \<Rightarrow> OpSignal \<Rightarrow> string \<Rightarrow> LedgerDb \<Rightarrow> (Disposition \<times> LedgerRow \<times> LedgerDb) result" where
  "applyReceipt C E row sig receiptId db =
     andThen (ne_evidence E) (\<lambda>_.
     andThen (stopIntent E row sig receiptId) (\<lambda>intent.
     andThen (case intent of None \<Rightarrow> Inr (row, db) | Some rid \<Rightarrow> appendSignal C E 0 1 row (SigCancelRequested rid) db) (\<lambda>(row1, db1).
     case advanceRuntimeOperation (lc_platform C) (lw_snapshot row1) sig of
       Inl _ \<Rightarrow> Inr (Disp_conflict, row1, db1)
     | Inr _ \<Rightarrow> andThen (appendSignal C E 0 2 row1 sig db1) (\<lambda>(row2, db2). Inr (Disp_applied, row2, db2)))))"

definition recordReceipt ::
  "LedgerConfig \<Rightarrow> LedgerEnv \<Rightarrow> RuntimeScope \<Rightarrow> string \<Rightarrow> string \<Rightarrow> string \<Rightarrow> RuntimeAttemptRef \<Rightarrow> OpSignal \<Rightarrow> int option \<Rightarrow> jsval \<Rightarrow>
   LedgerDb \<Rightarrow> ((OpSnapshot \<times> Disposition) \<times> LedgerDb) result" where
  "recordReceipt C E scope pid token receiptId attempt sig seq evidence db =
     andThen (need (zUuid (lc_platform C) receiptId) ZodError) (\<lambda>_.
     andThen (receiptContent C attempt sig seq evidence) (\<lambda>content.
     andThen (ledgerBounded (receiptContentJson content)) (\<lambda>_.
     andThen (runtimeLedgerInputDigest (receiptContentJson content)) (\<lambda>_.
     andThen (need (factSignal sig) (ledgerError ''invalid_state'')) (\<lambda>_.
     andThen (lockOperation C E scope pid db) (\<lambda>(root, row).
     andThen (verifyLease C row token) (\<lambda>_.
     case List.find (\<lambda>x. lx_receiptId x = receiptId) (ld_receipts db) of
       Some previous \<Rightarrow>
         if lx_operationId previous \<noteq> lw_id row \<or>
            \<not> runtimeContractEqual (lc_platform C) (receiptContentJson (lx_content previous)) (receiptContentJson content)
         then Inl (ledgerError ''receipt_conflict'')
         else Inr ((lw_snapshot row, if lx_disposition previous = Disp_applied then Disp_duplicate else lx_disposition previous), db)
     | None \<Rightarrow>
         andThen (if attemptEqual C attempt row then applyReceipt C E row sig receiptId db else Inr (Disp_stale, row, db))
           (\<lambda>(disposition, row', db').
         andThen (insertReceipt receiptId (lw_id row) content disposition db') (\<lambda>db''.
         Inr ((lw_snapshot row', disposition), db''))))))))))"

section \<open>Usage\<close>

definition reservationOf :: "LedgerDb \<Rightarrow> string \<Rightarrow> UsageMetric \<Rightarrow> LedgerReservation option" where
  "reservationOf db pid metric = List.find (\<lambda>v. lv_operationId v = pid \<and> lv_metric v = metric) (ld_reservations db)"

definition usageMatches :: "LedgerConfig \<Rightarrow> LedgerRow \<Rightarrow> UsageObservation \<Rightarrow> LedgerReservation \<Rightarrow> LedgerBudget \<Rightarrow> bool" where
  "usageMatches C row v reservation budget \<longleftrightarrow>
     runtimeContractEqual (lc_platform C) (taskJson (uo_task v)) (taskJson (ab_task (op_binding (lw_snapshot row)))) \<and>
     (case uo_boundary v of Boundary_operation attempt \<Rightarrow> attemptEqual C attempt row | _ \<Rightarrow> False) \<and>
     uo_accountingId v = lv_accountingId reservation \<and>
     runtimeContractEqual (lc_platform C) (usageSourceJson (uo_source v)) (usageSourceJson (lb_source budget)) \<and>
     uo_unit v = lb_unit budget \<and> uo_currency v = lb_currency budget \<and> uo_aggregation v = Aggregate_self_only \<and>
     uo_state v = Usage_settled \<and> uo_mode v = Mode_cumulative \<and> uo_quality v = Quality_measured \<and> uo_amount v \<noteq> None"

definition settleUsage ::
  "LedgerConfig \<Rightarrow> LedgerEnv \<Rightarrow> RuntimeScope \<Rightarrow> string \<Rightarrow> string \<Rightarrow> UsageObservation \<Rightarrow> LedgerDb \<Rightarrow> (bool \<times> LedgerDb) result" where
  "settleUsage C E scope pid token observation db =
     andThen (parseUsageObservation (lc_platform C) observation) (\<lambda>v.
     andThen (lockOperation C E scope pid db) (\<lambda>(root, row).
     andThen (verifyLease C row token) (\<lambda>_.
     case (reservationOf db (lw_id row) (uo_metric v), budgetOf db (uo_metric v)) of
       (Some reservation, Some budget) \<Rightarrow>
         if \<not> usageMatches C row v reservation budget then Inl (ledgerError ''invalid_usage'')
         else (case lv_observation reservation of
             Some prior \<Rightarrow>
               if \<not> runtimeContractEqual (lc_platform C) (usageObservationJson prior) (usageObservationJson v)
               then Inl (ledgerError ''receipt_conflict'') else Inr (True, db)
           | None \<Rightarrow>
               if \<not> isTerminalRuntimeOperationStatus (op_status (lw_snapshot row)) then Inl (ledgerError ''invalid_state'')
               else let amount = the (uo_amount v); reserved = lb_reserved budget - lv_amount reservation;
                   spent = lb_spent budget + amount;
                   db' = updateBudget (uo_metric v) (\<lambda>b. b\<lparr>lb_reserved := reserved, lb_spent := spent\<rparr>)
                     (settleReservation (lw_id row) (uo_metric v) amount v db) in
                 if MAX_SAFE_INTEGER < reserved + spent then Inl (ledgerError ''invalid_usage'')
                 else if \<not> isObservedExecutionMetric (uo_metric v) \<and> lb_capacity budget < reserved + spent
                 then andThen (cancelLocked C E 1 root (ne_uuid E 0 0) ''budget_exhausted'' db') (\<lambda>db''. Inr (False, db''))
                 else Inr (False, db'))
     | _ \<Rightarrow> Inl (ledgerError ''invalid_usage''))))"

section \<open>Roots\<close>

record BudgetLimit =
  bl_metric :: UsageMetric
  bl_unit :: UsageUnit
  bl_currency :: "string option"
  bl_capacity :: int
  bl_source :: UsageSource

definition budgetLimitJson :: "BudgetLimit \<Rightarrow> jsval" where
  "budgetLimitJson b = JObj [(''metric'', JStr (metricStr (bl_metric b))), (''unit'', JStr (unitStr (bl_unit b))),
     (''currency'', jOpt JStr (bl_currency b)), (''capacity'', JNum (bl_capacity b)), (''source'', usageSourceJson (bl_source b))]"

definition budgetSample :: "LedgerEnv \<Rightarrow> nat \<Rightarrow> RuntimeTaskRef \<Rightarrow> string \<Rightarrow> BudgetLimit \<Rightarrow> UsageObservation" where
  "budgetSample E i task deadlineAt b =
     \<lparr>uo_observationId = ne_uuid E i 0, uo_accountingId = ne_uuid E i 1, uo_task = task, uo_source = bl_source b,
      uo_boundary = Boundary_root_run (tk_runId task), uo_aggregation = Aggregate_self_only, uo_metric = bl_metric b,
      uo_unit = bl_unit b, uo_currency = bl_currency b, uo_mode = Mode_delta, uo_quality = Quality_measured,
      uo_amount = Some (bl_capacity b), uo_state = Usage_reserved, uo_windowId = ne_uuid E i 2, uo_startedAt = deadlineAt,
      uo_endedAt = deadlineAt, uo_observedAt = deadlineAt\<rparr>"

text \<open>\<open>sort\<close> by a key under localeCompare, stable.\<close>

definition sortByMetric :: "LedgerConfig \<Rightarrow> ('a \<Rightarrow> UsageMetric) \<Rightarrow> 'a list \<Rightarrow> 'a list" where
  "sortByMetric C key xs =
     map snd (sortBy (localeLe (lc_platform C)) (map (\<lambda>x. (metricStr (key x), x)) xs))"

definition limitOf :: "LedgerBudget \<Rightarrow> BudgetLimit" where
  "limitOf b = \<lparr>bl_metric = lb_metric b, bl_unit = lb_unit b, bl_currency = lb_currency b, bl_capacity = lb_capacity b, bl_source = lb_source b\<rparr>"

definition newBudget :: "BudgetLimit \<Rightarrow> LedgerBudget" where
  "newBudget b = \<lparr>lb_metric = bl_metric b, lb_unit = bl_unit b, lb_currency = bl_currency b, lb_capacity = bl_capacity b,
     lb_reserved = 0, lb_spent = 0, lb_source = bl_source b\<rparr>"

definition createRoot ::
  "LedgerConfig \<Rightarrow> LedgerEnv \<Rightarrow> RuntimeTaskRef \<Rightarrow> string \<Rightarrow> BudgetLimit list \<Rightarrow> LedgerDb \<Rightarrow> (unit \<times> LedgerDb) result" where
  "createRoot C E task deadlineAt limits db = (let P = lc_platform C in
     andThen (need (validRuntimeTaskRef P task) ZodError) (\<lambda>_.
     andThen (need (tk_runId task = tk_rootRunId task) (ledgerError ''scope_mismatch'')) (\<lambda>_.
     andThen (need (zIsoUtc P deadlineAt) ZodError) (\<lambda>_.
     andThen (need (list_all (\<lambda>(i, b). ledgerInteger (bl_capacity b) \<and> validUsageObservation P (budgetSample E i task deadlineAt b))
       (zip [0..<length limits] limits)) ZodError) (\<lambda>_.
     let budgets = sortByMetric C bl_metric limits in
     andThen (need (budgets \<noteq> [] \<and> distinct (map bl_metric budgets)) (ledgerError ''invalid_usage'')) (\<lambda>_.
     andThen (ne_rootRun E 0) (\<lambda>_.
     case ld_root db of
       Some prior \<Rightarrow>
         andThen (need (runtimeContractEqual P (taskJson (rt_task prior)) (taskJson task) \<and>
           (ne_deadline E \<noteq> None \<or> toISOString (rt_deadlineAt prior) = Some deadlineAt) \<and>
           runtimeContractEqual P (JArr (map (budgetLimitJson \<circ> limitOf) (ld_budgets db))) (JArr (map budgetLimitJson budgets)))
           (ledgerError ''idempotency_conflict'')) (\<lambda>_. Inr ((), db))
     | None \<Rightarrow> (case dateParse deadlineAt of
           None \<Rightarrow> Inl RangeError
         | Some t \<Rightarrow>
             if t \<le> ne_clock E 0 0 then Inl (ledgerError ''deadline_exceeded'')
             else andThen (linkRun C task db) (\<lambda>db'. Inr ((), db'\<lparr>ld_root := Some \<lparr>rt_task = task, rt_deadlineAt = t,
               rt_cancelRequestId = None, rt_cancelReason = None\<rparr>, ld_budgets := map newBudget budgets\<rparr>))))))))))"

section \<open>Operations\<close>

record ReservationInput =
  ri_metric :: UsageMetric
  ri_accountingId :: string
  ri_amount :: int

definition reservationInputJson :: "ReservationInput \<Rightarrow> jsval" where
  "reservationInputJson r = JObj [(''metric'', JStr (metricStr (ri_metric r))), (''accountingId'', JStr (ri_accountingId r)),
     (''amount'', JNum (ri_amount r))]"

record OperationInput =
  cp_snapshot :: OpSnapshot
  cp_payload :: "jsval option"
  cp_browser :: "jsval option"
  cp_reservations :: "ReservationInput list"

text \<open>Who may carry which payload.\<close>

definition payloadsAgree :: "RuntimeActionBinding \<Rightarrow> jsval option \<Rightarrow> jsval option \<Rightarrow> bool result" where
  "payloadsAgree b payload browser =
     (let localBrowser = ab_action b \<in> {''local.browser.act'', ''local.browser.observe''} in
      if (ex_targetKind (ab_execution b) = TK_rice_bridge) \<noteq> (payload \<noteq> None \<or> browser \<noteq> None) then Inr False
      else andThen (case browser of
          None \<Rightarrow> Inr (\<not> localBrowser)
        | Some v \<Rightarrow>
            if \<not> localBrowser \<or> payload \<noteq> None then Inr False
            else andThen (runtimeLedgerInputDigest v) (\<lambda>digest. Inr (digest = ab_inputDigest b \<and>
              (jget ''type'' (jget ''action'' v) = JStr ''observe'') = (ab_action b = ''local.browser.observe''))))
        (\<lambda>ok. if \<not> ok then Inr False
          else case payload of None \<Rightarrow> Inr True | Some p \<Rightarrow> payloadMatches b p))"

definition freshOperation :: "OpSnapshot \<Rightarrow> bool" where
  "freshOperation s \<longleftrightarrow> op_status s = Op_planned \<and> op_processId s = None \<and> op_cancelRequestId s = None \<and>
     at_attemptNumber (ab_attempt (op_binding s)) = 1 \<and> at_fence (ab_attempt (op_binding s)) = 1"

definition operationInputJson :: "OpSnapshot \<Rightarrow> jsval option \<Rightarrow> jsval option \<Rightarrow> ReservationInput list \<Rightarrow> jsval" where
  "operationInputJson s payload browser reservations = JObj [(''snapshot'', opSnapshotJson s), (''payload'', jOpt (\<lambda>v. v) payload),
     (''browserPayload'', jOpt (\<lambda>v. v) browser), (''reservations'', JArr (map reservationInputJson reservations))]"

text \<open>Every budget of the root has its reservation, and resource bounds are kept.\<close>

definition budgetsAdmit :: "LedgerDb \<Rightarrow> ReservationInput list \<Rightarrow> unit result" where
  "budgetsAdmit db reservations =
     andThen (need (length reservations = length (ld_budgets db) \<and>
       length (remdups (map ri_metric reservations)) = length (ld_budgets db)) (ledgerError ''invalid_usage'')) (\<lambda>_.
     foldl (\<lambda>acc b. andThen acc (\<lambda>_. case List.find (\<lambda>r. ri_metric r = lb_metric b) reservations of
         None \<Rightarrow> Inl (ledgerError ''invalid_usage'')
       | Some r \<Rightarrow>
           need (isObservedExecutionMetric (lb_metric b) \<or> lb_reserved b + lb_spent b + ri_amount r \<le> lb_capacity b)
             (ledgerError ''budget_exhausted''))) (Inr ()) (ld_budgets db))"

definition newRow :: "OpSnapshot \<Rightarrow> jsval option \<Rightarrow> LedgerRow" where
  "newRow s payload = \<lparr>lw_id = at_operationId (ab_attempt (op_binding s)), lw_snapshot = s, lw_initial = s, lw_nextSequence = 0,
     lw_payload = payload, lw_leaseOwner = None, lw_leaseTokenHash = None, lw_leaseExpiresAt = None, lw_budget = None\<rparr>"

text \<open>The new row with its reservations.\<close>

definition insertOperation :: "OpSnapshot \<Rightarrow> jsval option \<Rightarrow> ReservationInput list \<Rightarrow> LedgerDb \<Rightarrow> LedgerDb" where
  "insertOperation s payload reservations db = foldl (\<lambda>db r.
      updateBudget (ri_metric r) (\<lambda>b. b\<lparr>lb_reserved := lb_reserved b + ri_amount r\<rparr>)
        (db\<lparr>ld_reservations := ld_reservations db @ [\<lparr>lv_operationId = at_operationId (ab_attempt (op_binding s)),
          lv_metric = ri_metric r, lv_accountingId = ri_accountingId r, lv_amount = ri_amount r, lv_settled = None,
          lv_observation = None\<rparr>]\<rparr>))
     (db\<lparr>ld_rows := ld_rows db @ [newRow s payload]\<rparr>) reservations"

definition priorOperation ::
  "LedgerConfig \<Rightarrow> LedgerEnv \<Rightarrow> OpSnapshot \<Rightarrow> jsval option \<Rightarrow> ReservationInput list \<Rightarrow> LedgerRow \<Rightarrow> LedgerDb \<Rightarrow> (OpSnapshot \<times> LedgerDb) result" where
  "priorOperation C E s payload reservations prior db = (let P = lc_platform C;
       reserved = map (\<lambda>v. \<lparr>ri_metric = lv_metric v, ri_accountingId = lv_accountingId v, ri_amount = lv_amount v\<rparr>)
         (filter (\<lambda>v. lv_operationId v = lw_id prior) (ld_reservations db)) in
     andThen (need (runtimeContractEqual P (opSnapshotJson (lw_initial prior)) (opSnapshotJson s) \<and>
       runtimeContractEqual P (jOpt (\<lambda>v. v) (lw_payload prior)) (jOpt (\<lambda>v. v) payload) \<and>
       runtimeContractEqual P (JArr (map reservationInputJson (sortByMetric C ri_metric reservations)))
         (JArr (map reservationInputJson (sortByMetric C ri_metric reserved)))) (ledgerError ''idempotency_conflict'')) (\<lambda>_.
     andThen (ne_replayAuthority E) (\<lambda>_.
     andThen (parseOpSnapshot P (lw_snapshot prior)) (\<lambda>snapshot. Inr (snapshot, db)))))"

definition admitNew ::
  "LedgerConfig \<Rightarrow> LedgerEnv \<Rightarrow> OpSnapshot \<Rightarrow> jsval option \<Rightarrow> ReservationInput list \<Rightarrow> LedgerRoot \<Rightarrow> LedgerDb \<Rightarrow> (OpSnapshot \<times> LedgerDb) result" where
  "admitNew C E s payload reservations root db =
     andThen (ensureRootAdmits root (ne_clock E 0 0)) (\<lambda>_.
     andThen (ne_rootRun E 0) (\<lambda>_.
     andThen (ne_run E 0) (\<lambda>_.
     andThen (ne_admission E 0) (\<lambda>waiting.
     andThen (ne_target E 0) (\<lambda>_.
     andThen (ensureRootAdmits root (ne_clock E 0 1)) (\<lambda>_.
     andThen (linkRun C (ab_task (op_binding s)) db) (\<lambda>db1.
     andThen (budgetsAdmit db1 reservations) (\<lambda>_.
     andThen (need (at_operationId (ab_attempt (op_binding s)) \<notin> lw_id ` set (ld_rows db1)) (JsError ''unique_violation'')) (\<lambda>_.
     andThen (appendSignal C E 0 2 (newRow s payload) (if waiting then SigWaiting Wait_user else SigReady)
       (insertOperation s payload reservations db1)) (\<lambda>(row, db2).
     andThen (ne_admission E 1) (\<lambda>waiting'.
     andThen (need (waiting' = waiting) (ledgerError ''unavailable'')) (\<lambda>_.
     andThen (ensureRootAdmits root (ne_clock E 0 3)) (\<lambda>_. Inr (lw_snapshot row, db2))))))))))))))"

definition createOperation :: "LedgerConfig \<Rightarrow> LedgerEnv \<Rightarrow> OperationInput \<Rightarrow> LedgerDb \<Rightarrow> (OpSnapshot \<times> LedgerDb) result" where
  "createOperation C E input db = (let P = lc_platform C in
     andThen (parseOpSnapshot P (cp_snapshot input)) (\<lambda>s.
     andThen (need (freshOperation s) (ledgerError ''invalid_state'')) (\<lambda>_.
     andThen (need (optAll (\<lambda>v. lc_payload C v \<noteq> None) (cp_payload input) \<and> optAll (\<lambda>v. lc_browser C v \<noteq> None) (cp_browser input)) ZodError) (\<lambda>_.
     let payload = Option.bind (cp_payload input) (lc_payload C); browser = Option.bind (cp_browser input) (lc_browser C) in
     andThen (payloadsAgree (op_binding s) payload browser) (\<lambda>agree.
     andThen (need agree (ledgerError ''scope_mismatch'')) (\<lambda>_.
     let reservations = cp_reservations input in
     andThen (need (list_all (\<lambda>r. zUuid P (ri_accountingId r) \<and> ledgerInteger (ri_amount r)) reservations) ZodError) (\<lambda>_.
     andThen (ledgerBounded (operationInputJson s payload browser reservations)) (\<lambda>_.
     andThen (need (browser = None \<or> ne_browserRegistered E) (ledgerError ''scope_mismatch'')) (\<lambda>_.
     andThen (lockRoot C E (tk_scope (ab_task (op_binding s))) (tk_rootRunId (ab_task (op_binding s))) db) (\<lambda>root.
     case List.find (\<lambda>r. op_idempotencyKey (lw_initial r) = op_idempotencyKey s) (ld_rows db) of
       Some prior \<Rightarrow> priorOperation C E s payload reservations prior db
     | None \<Rightarrow> admitNew C E s payload reservations root db))))))))))"

text \<open>The ledger of a root that does not exist yet.\<close>

definition emptyLedger :: LedgerDb where
  "emptyLedger = \<lparr>ld_root = None, ld_links = [], ld_rows = [], ld_events = [], ld_receipts = [], ld_outputs = [],
     ld_budgets = [], ld_reservations = []\<rparr>"

end
