(* ===== verification/LedgerMoves.thy ===== *)
theory LedgerMoves
  imports Ledger
begin

text \<open>
  The elementary moves of the operation ledger: a signal is appended to the log of an operation, a receipt
  or an output is filed, a run is linked, a lease or budget of a row changes, a root is opened or canceled, a
  reservation is settled, an operation is added.  The invariant of the tables and what no move takes back
  are shown here, once per move; LedgerTransactions shows that every transaction is a sequence of moves.
\<close>

section \<open>What holds of the tables\<close>

definition eventsIn :: "(string \<times> OpEvent) list \<Rightarrow> string \<Rightarrow> OpEvent list" where
  "eventsIn evs pid = map snd (filter (\<lambda>p. fst p = pid) evs)"

text \<open>
  The log of a row: from its initial snapshot its events, numbered from 0, lead to its snapshot.
\<close>

definition rowLogOk :: "platform \<Rightarrow> OpEvent list \<Rightarrow> LedgerRow \<Rightarrow> bool" where
  "rowLogOk P evs row \<longleftrightarrow> normalSnapshot P (lw_initial row) \<and> freshOperation (lw_initial row) \<and>
     lw_id row = at_operationId (ab_attempt (op_binding (lw_initial row))) \<and>
     advanceAll P (lw_initial row) (map oe_signal evs) = Inr (lw_snapshot row) \<and> lw_nextSequence row = int (length evs) \<and>
     map oe_sequence evs = map int [0..<length evs] \<and>
     (\<forall>e \<in> set evs. validOpEvent P e \<and> oe_task e = ab_task (op_binding (lw_initial row)) \<and>
        oe_attempt e = ab_attempt (op_binding (lw_initial row)) \<and> oe_execution e = ab_execution (op_binding (lw_initial row)))"

definition logOk :: "platform \<Rightarrow> LedgerRow list \<Rightarrow> (string \<times> OpEvent) list \<Rightarrow> bool" where
  "logOk P rows evs \<longleftrightarrow> distinct (map lw_id rows) \<and> distinct (map (oe_eventId \<circ> snd) evs) \<and> fst ` set evs \<subseteq> lw_id ` set rows \<and>
     (\<forall>row \<in> set rows. rowLogOk P (eventsIn evs (lw_id row)) row)"

definition reservedSum :: "LedgerReservation list \<Rightarrow> UsageMetric \<Rightarrow> int" where
  "reservedSum vs m = (\<Sum>v\<leftarrow>vs. if lv_metric v = m \<and> lv_settled v = None then lv_amount v else 0)"

definition spentSum :: "LedgerReservation list \<Rightarrow> UsageMetric \<Rightarrow> int" where
  "spentSum vs m = (\<Sum>v\<leftarrow>vs. if lv_metric v = m then orElse (lv_settled v) 0 else 0)"

text \<open>A budget holds what its reservations say, and keeps its bound unless it is only observed or the root is canceled.\<close>

definition budgetOk :: "bool \<Rightarrow> LedgerReservation list \<Rightarrow> LedgerBudget \<Rightarrow> bool" where
  "budgetOk canceled vs b \<longleftrightarrow> lb_reserved b = reservedSum vs (lb_metric b) \<and> lb_spent b = spentSum vs (lb_metric b) \<and>
     (isObservedExecutionMetric (lb_metric b) \<or> canceled \<or> lb_reserved b + lb_spent b \<le> lb_capacity b)"

definition accountsOk :: "string set \<Rightarrow> bool \<Rightarrow> LedgerReservation list \<Rightarrow> LedgerBudget list \<Rightarrow> bool" where
  "accountsOk ids canceled vs bs \<longleftrightarrow> distinct (map lb_metric bs) \<and> distinct (map (\<lambda>v. (lv_operationId v, lv_metric v)) vs) \<and>
     (\<forall>v \<in> set vs. lv_operationId v \<in> ids \<and> 0 \<le> lv_amount v \<and> (lv_settled v = None) = (lv_observation v = None)) \<and>
     (\<forall>b \<in> set bs. budgetOk canceled vs b)"

definition isCanceled :: "LedgerRoot option \<Rightarrow> bool" where
  "isCanceled root \<longleftrightarrow> (case root of None \<Rightarrow> False | Some r \<Rightarrow> rt_cancelRequestId r \<noteq> None)"

definition ledgerOk :: "LedgerConfig \<Rightarrow> LedgerDb \<Rightarrow> bool" where
  "ledgerOk C db \<longleftrightarrow> logOk (lc_platform C) (ld_rows db) (ld_events db) \<and>
     accountsOk (lw_id ` set (ld_rows db)) (isCanceled (ld_root db)) (ld_reservations db) (ld_budgets db) \<and>
     (ld_root db = None \<longrightarrow> ld_rows db = [] \<and> ld_reservations db = [])"

text \<open>
  What a later ledger keeps: every row with its identity, payload, lease and snapshot history, every
  event, receipt, output, link and settlement; a canceled root stays so and gets no new operation.
\<close>

definition startable :: "OpStatus \<Rightarrow> bool" where
  "startable s \<longleftrightarrow> preDispatch s \<or> s = Op_dispatched"

definition rowOlder :: "LedgerRow \<Rightarrow> LedgerRow \<Rightarrow> bool" where
  "rowOlder a b \<longleftrightarrow> lw_id b = lw_id a \<and> lw_initial b = lw_initial a \<and> lw_payload b = lw_payload a \<and>
     opOlder (lw_snapshot a) (lw_snapshot b) \<and> (\<forall>h. lw_leaseTokenHash a = Some h \<longrightarrow> lw_leaseTokenHash b = Some h) \<and>
     (startable (op_status (lw_snapshot b)) \<longrightarrow> startable (op_status (lw_snapshot a)))"

definition reservationOlder :: "LedgerReservation \<Rightarrow> LedgerReservation \<Rightarrow> bool" where
  "reservationOlder a b \<longleftrightarrow> lv_operationId b = lv_operationId a \<and> lv_metric b = lv_metric a \<and>
     lv_accountingId b = lv_accountingId a \<and> lv_amount b = lv_amount a \<and> (lv_settled a \<noteq> None \<longrightarrow> b = a)"

definition rootOlder :: "LedgerRoot option \<Rightarrow> LedgerRoot option \<Rightarrow> bool" where
  "rootOlder a b \<longleftrightarrow> (case a of None \<Rightarrow> True | Some r \<Rightarrow> (case b of None \<Rightarrow> False | Some r' \<Rightarrow>
     rt_task r' = rt_task r \<and> rt_deadlineAt r' = rt_deadlineAt r \<and>
     (rt_cancelRequestId r \<noteq> None \<longrightarrow> rt_cancelRequestId r' = rt_cancelRequestId r)))"

definition ledgerOlder :: "LedgerDb \<Rightarrow> LedgerDb \<Rightarrow> bool" where
  "ledgerOlder a b \<longleftrightarrow> grows rowOlder (ld_rows a) (ld_rows b) \<and> grows (=) (ld_events a) (ld_events b) \<and>
     grows (=) (ld_receipts a) (ld_receipts b) \<and> grows (=) (ld_outputs a) (ld_outputs b) \<and> grows (=) (ld_links a) (ld_links b) \<and>
     grows reservationOlder (ld_reservations a) (ld_reservations b) \<and> rootOlder (ld_root a) (ld_root b) \<and>
     (isCanceled (ld_root a) \<longrightarrow> map lw_id (ld_rows b) = map lw_id (ld_rows a))"

lemma rowOlder_refl [simp]: "rowOlder r r"
  by (simp add: rowOlder_def op.older_refl)

lemma rowOlder_trans: "rowOlder a b \<Longrightarrow> rowOlder b c \<Longrightarrow> rowOlder a c"
  unfolding rowOlder_def using op.older_trans by metis

lemma reservationOlder_refl [simp]: "reservationOlder v v"
  by (simp add: reservationOlder_def)

lemma reservationOlder_trans: "reservationOlder a b \<Longrightarrow> reservationOlder b c \<Longrightarrow> reservationOlder a c"
  by (auto simp: reservationOlder_def)

lemma rootOlder_refl [simp]: "rootOlder r r"
  by (simp add: rootOlder_def split: option.split)

lemma rootOlder_trans: "rootOlder a b \<Longrightarrow> rootOlder b c \<Longrightarrow> rootOlder a c"
  by (auto simp: rootOlder_def split: option.splits)

lemma rootOlder_canceled: "rootOlder a b \<Longrightarrow> isCanceled a \<Longrightarrow> isCanceled b"
  by (auto simp: rootOlder_def isCanceled_def split: option.splits)

lemma ledgerOlder_refl: "ledgerOlder db db"
  by (simp add: ledgerOlder_def grows_refl)

lemma same_growing: "grows (=) xs ys \<Longrightarrow> grows (=) ys zs \<Longrightarrow> grows (=) xs zs"
  by (rule grows_trans [of "(=)"]) auto

lemma ledgerOlder_trans:
  assumes "ledgerOlder a b" "ledgerOlder b c"
  shows "ledgerOlder a c"
proof -
  note ab = assms(1) [unfolded ledgerOlder_def] and bc = assms(2) [unfolded ledgerOlder_def]
  have rows: "grows rowOlder (ld_rows a) (ld_rows c)"
    using ab bc by (blast intro: grows_trans [of rowOlder] rowOlder_trans)
  have vs: "grows reservationOlder (ld_reservations a) (ld_reservations c)"
    using ab bc by (blast intro: grows_trans [of reservationOlder] reservationOlder_trans)
  show ?thesis
    unfolding ledgerOlder_def
    using ab bc rows vs
      rootOlder_trans [of "ld_root a" "ld_root b" "ld_root c"] rootOlder_canceled [of "ld_root a" "ld_root b"]
    by (simp add: same_growing [of "ld_events a" "ld_events b"] same_growing [of "ld_receipts a" "ld_receipts b"]
      same_growing [of "ld_outputs a" "ld_outputs b"] same_growing [of "ld_links a" "ld_links b"])
qed

section \<open>Moves\<close>

definition withRoot :: "LedgerRoot option \<Rightarrow> LedgerDb \<Rightarrow> LedgerDb" where
  "withRoot root db = db\<lparr>ld_root := root\<rparr>"

definition canceledRoot :: "string \<Rightarrow> string \<Rightarrow> LedgerRoot \<Rightarrow> LedgerRoot" where
  "canceledRoot acceptedId reason r = r\<lparr>rt_cancelRequestId := Some acceptedId, rt_cancelReason := Some (orElse (rt_cancelReason r) reason)\<rparr>"

text \<open>The move from a root to the same root, canceled: an identifier accepted before is kept.\<close>

definition cancels :: "LedgerRoot option \<Rightarrow> LedgerRoot option \<Rightarrow> bool" where
  "cancels a b \<longleftrightarrow> (\<exists>r acceptedId reason. a = Some r \<and> acceptedId = orElse (rt_cancelRequestId r) acceptedId \<and>
     b = Some (canceledRoot acceptedId reason r))"

definition leaseChange :: "(LedgerRow \<Rightarrow> LedgerRow) \<Rightarrow> bool" where
  "leaseChange f \<longleftrightarrow> (\<forall>r. lw_id (f r) = lw_id r \<and> lw_snapshot (f r) = lw_snapshot r \<and> lw_initial (f r) = lw_initial r \<and>
     lw_nextSequence (f r) = lw_nextSequence r \<and> lw_payload (f r) = lw_payload r)"

definition settleMove :: "LedgerReservation \<Rightarrow> int \<Rightarrow> UsageObservation \<Rightarrow> LedgerDb \<Rightarrow> LedgerDb" where
  "settleMove v used observation db =
     updateBudget (lv_metric v) (\<lambda>b. b\<lparr>lb_reserved := lb_reserved b - lv_amount v, lb_spent := lb_spent b + used\<rparr>)
       (settleReservation (lv_operationId v) (lv_metric v) used observation db)"

inductive ledgerMove :: "LedgerConfig \<Rightarrow> LedgerDb \<Rightarrow> LedgerDb \<Rightarrow> bool" for C where
  Move_signal: "row \<in> set (ld_rows db) \<Longrightarrow> appendSignal C E i k row sig db = Inr (row', db') \<Longrightarrow> ledgerMove C db db'"
| Move_receipt: "insertReceipt receiptId pid content disposition db = Inr db' \<Longrightarrow> ledgerMove C db db'"
| Move_output: "ledgerMove C db (db\<lparr>ld_outputs := ld_outputs db @ [x]\<rparr>)"
| Move_link: "ledgerMove C db (db\<lparr>ld_links := ld_links db @ [l]\<rparr>)"
| Move_lease: "leaseChange f \<Longrightarrow>
     (\<And>r. r \<in> set (ld_rows db) \<Longrightarrow> lw_id r = pid \<Longrightarrow> lw_leaseTokenHash r = None \<or> lw_leaseTokenHash (f r) = lw_leaseTokenHash r) \<Longrightarrow>
     ledgerMove C db (updateRow pid f db)"
| Move_cancel: "cancels (ld_root db) root \<Longrightarrow> ledgerMove C db (withRoot root db)"
| Move_settle: "v \<in> set (ld_reservations db) \<Longrightarrow> lv_settled v = None \<Longrightarrow> b \<in> set (ld_budgets db) \<Longrightarrow> lb_metric b = lv_metric v \<Longrightarrow>
     root = ld_root db \<or> cancels (ld_root db) root \<Longrightarrow>
     isObservedExecutionMetric (lv_metric v) \<or> used \<le> lv_amount v \<or> isCanceled root \<or>
       lb_reserved b - lv_amount v + (lb_spent b + used) \<le> lb_capacity b \<Longrightarrow>
     ledgerMove C db (withRoot root (settleMove v used observation db))"
| Move_root: "ld_root db = None \<Longrightarrow> rt_cancelRequestId root = None \<Longrightarrow> distinct (map bl_metric limits) \<Longrightarrow>
     (\<And>b. b \<in> set limits \<Longrightarrow> 0 \<le> bl_capacity b) \<Longrightarrow>
     ledgerMove C db (db\<lparr>ld_root := Some root, ld_budgets := map newBudget limits\<rparr>)"
| Move_operation: "normalSnapshot (lc_platform C) s \<Longrightarrow> freshOperation s \<Longrightarrow>
     at_operationId (ab_attempt (op_binding s)) \<notin> lw_id ` set (ld_rows db) \<Longrightarrow> ld_root db \<noteq> None \<Longrightarrow> \<not> isCanceled (ld_root db) \<Longrightarrow>
     budgetsAdmit db reservations = Inr u \<Longrightarrow> (\<And>r. r \<in> set reservations \<Longrightarrow> 0 \<le> ri_amount r) \<Longrightarrow>
     ledgerMove C db (insertOperation s payload reservations db)"

abbreviation ledgerMoves :: "LedgerConfig \<Rightarrow> LedgerDb \<Rightarrow> LedgerDb \<Rightarrow> bool" where
  "ledgerMoves C \<equiv> (ledgerMove C)\<^sup>*\<^sup>*"

lemma appendSignal_Inr:
  assumes "appendSignal C E i k row sig db = Inr (row', db')"
  obtains s at e where "advanceRuntimeOperation (lc_platform C) (lw_snapshot row) sig = Inr s"
    "e = \<lparr>oe_eventId = ne_uuid E i k, oe_task = ab_task (op_binding s), oe_attempt = ab_attempt (op_binding s),
       oe_execution = ab_execution (op_binding s), oe_sequence = lw_nextSequence row, oe_occurredAt = at, oe_signal = sig\<rparr>"
    "validOpEvent (lc_platform C) e" "oe_eventId e \<notin> (oe_eventId \<circ> snd) ` set (ld_events db)"
    "row' = row\<lparr>lw_snapshot := s, lw_nextSequence := lw_nextSequence row + 1\<rparr>"
    "db' = updateRow (lw_id row) (\<lambda>r. r\<lparr>lw_snapshot := s, lw_nextSequence := lw_nextSequence r + 1\<rparr>)
       (db\<lparr>ld_events := ld_events db @ [(lw_id row, e)]\<rparr>)"
  using assms by (auto simp: appendSignal_def andThen_Inr_iff Let_def split: option.splits if_splits)

lemma updateRow_ids [simp]:
  "(\<And>r. lw_id (f r) = lw_id r) \<Longrightarrow> map lw_id (ld_rows (updateRow pid f db)) = map lw_id (ld_rows db)"
  by (auto simp: updateRow_def)

lemma updateRow_other [simp]:
  "ld_root (updateRow pid f db) = ld_root db" "ld_links (updateRow pid f db) = ld_links db"
  "ld_events (updateRow pid f db) = ld_events db" "ld_receipts (updateRow pid f db) = ld_receipts db"
  "ld_outputs (updateRow pid f db) = ld_outputs db" "ld_budgets (updateRow pid f db) = ld_budgets db"
  "ld_reservations (updateRow pid f db) = ld_reservations db"
  by (simp_all add: updateRow_def)

lemma same_row: "distinct (map lw_id rows) \<Longrightarrow> row \<in> set rows \<Longrightarrow> x \<in> set rows \<Longrightarrow> lw_id x = lw_id row \<Longrightarrow> x = row"
  by (metis distinct_map inj_onD)

lemma eventsIn_append: "eventsIn (evs @ fs) pid = eventsIn evs pid @ eventsIn fs pid"
  by (simp add: eventsIn_def)

lemma rowLog_normal: "rowLogOk P evs row \<Longrightarrow> normalSnapshot P (lw_snapshot row)"
  by (auto simp: rowLogOk_def dest: op.run_inv)

lemma rowLog_binding: "rowLogOk P evs row \<Longrightarrow> op_binding (lw_snapshot row) = op_binding (lw_initial row)"
  by (auto simp: rowLogOk_def opOlder_def dest: op.run_older)

lemma rowLog_append:
  assumes "rowLogOk P evs row" "advanceRuntimeOperation P (lw_snapshot row) sig = Inr s"
    "e = \<lparr>oe_eventId = eid, oe_task = ab_task (op_binding s), oe_attempt = ab_attempt (op_binding s),
       oe_execution = ab_execution (op_binding s), oe_sequence = lw_nextSequence row, oe_occurredAt = at, oe_signal = sig\<rparr>"
    "validOpEvent P e"
  shows "rowLogOk P (evs @ [e]) (row\<lparr>lw_snapshot := s, lw_nextSequence := lw_nextSequence row + 1\<rparr>)"
proof -
  have "op_binding s = op_binding (lw_snapshot row)"
    using advance_older [OF assms(2) rowLog_normal [OF assms(1)]] by (simp add: opOlder_def)
  then have b: "op_binding s = op_binding (lw_initial row)" using rowLog_binding [OF assms(1)] by simp
  have "advanceAll P (lw_initial row) (map oe_signal (evs @ [e])) = Inr s"
    using assms(1-3) by (simp add: rowLogOk_def runAll_append)
  then show ?thesis using assms(1,3,4) b by (simp add: rowLogOk_def)
qed

lemma startable_back:
  assumes "advanceRuntimeOperation P s sig = Inr s'" "startable (op_status s')"
  shows "startable (op_status s)"
proof -
  have "canTransitionRuntimeOperation a b \<Longrightarrow> startable b \<Longrightarrow> startable a" for a b
    by (cases a) (auto simp: canTransitionRuntimeOperation_def startable_def preDispatch_def)
  then show ?thesis using advance_status [OF assms(1)] assms(2) by auto
qed

lemma signal_ok:
  assumes "appendSignal C E i k row sig db = Inr (row', db')" "row \<in> set (ld_rows db)" "ledgerOk C db"
  shows "ledgerOk C db' \<and> ledgerOlder db db'"
  using assms(1)
proof (rule appendSignal_Inr)
  fix s at e
  assume a: "advanceRuntimeOperation (lc_platform C) (lw_snapshot row) sig = Inr s"
    "e = \<lparr>oe_eventId = ne_uuid E i k, oe_task = ab_task (op_binding s), oe_attempt = ab_attempt (op_binding s),
       oe_execution = ab_execution (op_binding s), oe_sequence = lw_nextSequence row, oe_occurredAt = at, oe_signal = sig\<rparr>"
    "validOpEvent (lc_platform C) e" "oe_eventId e \<notin> (oe_eventId \<circ> snd) ` set (ld_events db)"
  define f :: "LedgerRow \<Rightarrow> LedgerRow" where "f = (\<lambda>r. r\<lparr>lw_snapshot := s, lw_nextSequence := lw_nextSequence r + 1\<rparr>)"
  assume "db' = updateRow (lw_id row) (\<lambda>r. r\<lparr>lw_snapshot := s, lw_nextSequence := lw_nextSequence r + 1\<rparr>)
       (db\<lparr>ld_events := ld_events db @ [(lw_id row, e)]\<rparr>)"
  then have d: "db' = updateRow (lw_id row) f (db\<lparr>ld_events := ld_events db @ [(lw_id row, e)]\<rparr>)" by (simp add: f_def)
  have fid: "lw_id (f r) = lw_id r" for r by (simp add: f_def)
  have log: "logOk (lc_platform C) (ld_rows db) (ld_events db)" using assms(3) by (simp add: ledgerOk_def)
  have rows: "ld_rows db' = map (\<lambda>r. if lw_id r = lw_id row then f r else r) (ld_rows db)" by (simp add: d updateRow_def)
  have ids: "map lw_id (ld_rows db') = map lw_id (ld_rows db)" by (simp add: d fid)
  have iset: "lw_id ` set (ld_rows db') = lw_id ` set (ld_rows db)" using ids by (metis list.set_map)
  have only: "x = row" if "x \<in> set (ld_rows db)" "lw_id x = lw_id row" for x
    using same_row [OF _ assms(2) that] log by (simp add: logOk_def)
  have mine: "rowLogOk (lc_platform C) (eventsIn (ld_events db) (lw_id row)) row" using log assms(2) by (simp add: logOk_def)
  have older: "rowOlder x (if lw_id x = lw_id row then f x else x)" if "x \<in> set (ld_rows db)" for x
    using only [OF that] advance_older [OF a(1) rowLog_normal [OF mine]] startable_back [OF a(1)]
    by (auto simp: rowOlder_def f_def op.older_refl)
  have each: "rowLogOk (lc_platform C) (eventsIn (ld_events db') (lw_id r)) r" if r: "r \<in> set (ld_rows db')" for r
  proof -
    obtain x where x: "x \<in> set (ld_rows db)" "r = (if lw_id x = lw_id row then f x else x)" using r rows by auto
    show ?thesis
    proof (cases "lw_id x = lw_id row")
      case True
      then show ?thesis using only [OF x(1) True] x(2) rowLog_append [OF mine a(1-3)] fid
        by (simp add: d eventsIn_append) (simp add: eventsIn_def f_def)
    next
      case False
      then show ?thesis using x log by (simp add: d eventsIn_append logOk_def) (simp add: eventsIn_def)
    qed
  qed
  have "distinct (map (oe_eventId \<circ> snd) (ld_events db'))" using log a(4) by (simp add: d logOk_def)
  moreover have "fst ` set (ld_events db') \<subseteq> lw_id ` set (ld_rows db')"
    using log assms(2) unfolding iset by (simp add: d logOk_def)
  ultimately have "logOk (lc_platform C) (ld_rows db') (ld_events db')" using log each ids by (simp add: logOk_def)
  moreover have "ld_rows db = [] \<longleftrightarrow> ld_rows db' = []" using rows by simp
  ultimately have "ledgerOk C db'" using assms(3) iset by (simp add: ledgerOk_def) (simp add: d)
  moreover have "grows rowOlder (ld_rows db) (ld_rows db')" unfolding rows by (intro grows_map older)
  ultimately show ?thesis using ids by (simp add: ledgerOlder_def) (simp add: d grows_refl)
qed

section \<open>Moves keep the invariant\<close>

lemma grows_eq_append [simp]: "grows (=) xs (xs @ ys)"
  by simp

lemma lease_ok:
  assumes "leaseChange f" "ledgerOk C db"
    "\<And>r. r \<in> set (ld_rows db) \<Longrightarrow> lw_id r = pid \<Longrightarrow> lw_leaseTokenHash r = None \<or> lw_leaseTokenHash (f r) = lw_leaseTokenHash r"
  shows "ledgerOk C (updateRow pid f db) \<and> ledgerOlder db (updateRow pid f db)"
proof -
  have fid: "lw_id (f r) = lw_id r" for r using assms(1) by (simp add: leaseChange_def)
  have ids: "map lw_id (ld_rows (updateRow pid f db)) = map lw_id (ld_rows db)" using fid by simp
  then have iset: "lw_id ` set (ld_rows (updateRow pid f db)) = lw_id ` set (ld_rows db)" by (metis list.set_map)
  have same: "rowLogOk P evs (f r) = rowLogOk P evs r" for P evs r using assms(1) by (simp add: leaseChange_def rowLogOk_def)
  have log: "logOk (lc_platform C) (ld_rows (updateRow pid f db)) (ld_events db)"
    using assms(2) ids iset by (simp add: ledgerOk_def logOk_def) (auto simp: updateRow_def same fid)
  have "rowOlder r (f r)" if "r \<in> set (ld_rows db)" "lw_id r = pid" for r
    using assms(1) assms(3) [OF that] by (auto simp: rowOlder_def leaseChange_def op.older_refl)
  then have "grows rowOlder (ld_rows db) (ld_rows (updateRow pid f db))" by (auto simp: updateRow_def intro: grows_map)
  moreover have "ld_rows db = [] \<longleftrightarrow> ld_rows (updateRow pid f db) = []" by (simp add: updateRow_def)
  ultimately show ?thesis using assms(2) log ids iset by (simp add: ledgerOk_def ledgerOlder_def grows_refl)
qed

lemma cancels_older: "cancels a b \<Longrightarrow> rootOlder a b \<and> isCanceled b \<and> a \<noteq> None \<and> b \<noteq> None"
  by (auto simp: cancels_def rootOlder_def isCanceled_def canceledRoot_def orElse_def split: option.splits)

lemma accounts_canceled: "accountsOk ids c vs bs \<Longrightarrow> accountsOk ids True vs bs"
  by (auto simp: accountsOk_def budgetOk_def)

lemma cancel_ok:
  assumes "cancels (ld_root db) root" "ledgerOk C db"
  shows "ledgerOk C (withRoot root db) \<and> ledgerOlder db (withRoot root db)"
  using assms(2) cancels_older [OF assms(1)]
  by (auto simp: ledgerOk_def ledgerOlder_def withRoot_def grows_refl dest: accounts_canceled)

text \<open>Settling one reservation moves its amount from what is reserved to what is spent.\<close>

lemma sums_settled:
  assumes "distinct (map (\<lambda>v. (lv_operationId v, lv_metric v)) vs)" "v \<in> set vs" "lv_settled v = None"
    "ws = map (\<lambda>w. if lv_operationId w = lv_operationId v \<and> lv_metric w = lv_metric v
       then w\<lparr>lv_settled := Some used, lv_observation := Some observation\<rparr> else w) vs"
  shows "reservedSum ws m = reservedSum vs m - (if m = lv_metric v then lv_amount v else 0)"
    "spentSum ws m = spentSum vs m + (if m = lv_metric v then used else 0)"
proof -
  obtain ys zs where vs: "vs = ys @ v # zs" using assms(2) by (metis split_list)
  let ?f = "\<lambda>w. if lv_operationId w = lv_operationId v \<and> lv_metric w = lv_metric v
       then w\<lparr>lv_settled := Some used, lv_observation := Some observation\<rparr> else w"
  have "map ?f ys = ys" "map ?f zs = zs" using assms(1) unfolding vs by (auto intro!: map_idI simp: image_iff)
  then have ws: "ws = ys @ v\<lparr>lv_settled := Some used, lv_observation := Some observation\<rparr> # zs" using assms(4) vs by simp
  show "reservedSum ws m = reservedSum vs m - (if m = lv_metric v then lv_amount v else 0)"
    unfolding ws vs using assms(3) by (auto simp: reservedSum_def)
  show "spentSum ws m = spentSum vs m + (if m = lv_metric v then used else 0)"
    unfolding ws vs using assms(3) by (auto simp: spentSum_def)
qed

lemma settleMove_ok:
  assumes v: "v \<in> set (ld_reservations db)" "lv_settled v = None"
    and b: "b \<in> set (ld_budgets db)" "lb_metric b = lv_metric v"
    and root: "root = ld_root db \<or> cancels (ld_root db) root"
    and bound: "isObservedExecutionMetric (lv_metric v) \<or> used \<le> lv_amount v \<or> isCanceled root \<or>
       lb_reserved b - lv_amount v + (lb_spent b + used) \<le> lb_capacity b"
    and ok: "ledgerOk C db"
  shows "ledgerOk C (withRoot root (settleMove v used observation db)) \<and>
    ledgerOlder db (withRoot root (settleMove v used observation db))"
proof -
  let ?g = "\<lambda>w. if lv_operationId w = lv_operationId v \<and> lv_metric w = lv_metric v
       then w\<lparr>lv_settled := Some used, lv_observation := Some observation\<rparr> else w"
  let ?ws = "map ?g (ld_reservations db)"
  let ?h = "\<lambda>x. if lb_metric x = lv_metric v then x\<lparr>lb_reserved := lb_reserved x - lv_amount v, lb_spent := lb_spent x + used\<rparr> else x"
  have db': "withRoot root (settleMove v used observation db) =
      db\<lparr>ld_root := root, ld_reservations := ?ws, ld_budgets := map ?h (ld_budgets db)\<rparr>"
    by (simp add: withRoot_def settleMove_def updateBudget_def settleReservation_def)
  let ?ids = "lw_id ` set (ld_rows db)"
  have acc: "accountsOk ?ids (isCanceled (ld_root db)) (ld_reservations db) (ld_budgets db)" using ok by (simp add: ledgerOk_def)
  then have dv: "distinct (map (\<lambda>v. (lv_operationId v, lv_metric v)) (ld_reservations db))" and db: "distinct (map lb_metric (ld_budgets db))"
    by (simp_all add: accountsOk_def)
  note sums = sums_settled [OF dv v refl, where used = used and observation = observation]
  have c: "isCanceled (ld_root db) \<Longrightarrow> isCanceled root" using root cancels_older by auto
  have only: "x = b" if "x \<in> set (ld_budgets db)" "lb_metric x = lv_metric v" for x
    using db b that by (metis distinct_map inj_onD)
  have budget: "budgetOk (isCanceled root) ?ws (?h x)" if "x \<in> set (ld_budgets db)" for x
  proof -
    have "budgetOk (isCanceled (ld_root db)) (ld_reservations db) x" using acc that by (simp add: accountsOk_def)
    then show ?thesis using only [OF that] bound c by (auto simp: budgetOk_def sums)
  qed
  have keys: "map (\<lambda>v. (lv_operationId v, lv_metric v)) ?ws = map (\<lambda>v. (lv_operationId v, lv_metric v)) (ld_reservations db)"
    "map lb_metric (map ?h (ld_budgets db)) = map lb_metric (ld_budgets db)" by simp_all
  have "\<forall>w \<in> set ?ws. lv_operationId w \<in> ?ids \<and> 0 \<le> lv_amount w \<and> (lv_settled w = None) = (lv_observation w = None)"
    using acc v(1) by (auto simp: accountsOk_def)
  moreover have "\<forall>x \<in> set (map ?h (ld_budgets db)). budgetOk (isCanceled root) ?ws x"
    using budget by (metis (no_types, lifting) imageE list.set_map)
  ultimately have "accountsOk ?ids (isCanceled root) ?ws (map ?h (ld_budgets db))"
    using dv db unfolding accountsOk_def keys by blast
  moreover have "reservationOlder w (?g w)" if "w \<in> set (ld_reservations db)" for w
  proof -
    have "lv_operationId w = lv_operationId v \<Longrightarrow> lv_metric w = lv_metric v \<Longrightarrow> w = v"
      using dv v(1) that by (metis (mono_tags, lifting) distinct_map inj_onD)
    then show ?thesis using v(2) by (auto simp: reservationOlder_def)
  qed
  then have "grows reservationOlder (ld_reservations db) ?ws" by (intro grows_map)
  moreover have "rootOlder (ld_root db) root" "root = None \<longrightarrow> ld_root db = None" using root cancels_older by auto
  ultimately show ?thesis using ok unfolding db' by (auto simp: ledgerOk_def ledgerOlder_def grows_refl)
qed

lemma root_ok:
  assumes "ld_root db = None" "rt_cancelRequestId root = None" "distinct (map bl_metric limits)"
    "\<And>b. b \<in> set limits \<Longrightarrow> 0 \<le> bl_capacity b" "ledgerOk C db"
  shows "ledgerOk C (db\<lparr>ld_root := Some root, ld_budgets := map newBudget limits\<rparr>) \<and>
    ledgerOlder db (db\<lparr>ld_root := Some root, ld_budgets := map newBudget limits\<rparr>)"
proof -
  have "map lb_metric (map newBudget limits) = map bl_metric limits" by (simp add: newBudget_def)
  moreover have "\<forall>b \<in> set limits. budgetOk c [] (newBudget b)" for c
    using assms(4) by (simp add: budgetOk_def newBudget_def reservedSum_def spentSum_def)
  ultimately show ?thesis
    using assms(1-3,5) by (auto simp: ledgerOk_def ledgerOlder_def grows_refl accountsOk_def isCanceled_def rootOlder_def simp del: map_map)
qed

text \<open>A new operation reserves of every budget of the root.\<close>

definition reservationRow :: "string \<Rightarrow> ReservationInput \<Rightarrow> LedgerReservation" where
  "reservationRow pid r = \<lparr>lv_operationId = pid, lv_metric = ri_metric r, lv_accountingId = ri_accountingId r,
     lv_amount = ri_amount r, lv_settled = None, lv_observation = None\<rparr>"

definition reserveAll :: "ReservationInput list \<Rightarrow> LedgerBudget \<Rightarrow> LedgerBudget" where
  "reserveAll rs b = b\<lparr>lb_reserved := lb_reserved b + (\<Sum>r\<leftarrow>rs. if ri_metric r = lb_metric b then ri_amount r else 0)\<rparr>"

lemma insertOperation_eq:
  "insertOperation s payload rs db =
     db\<lparr>ld_rows := ld_rows db @ [newRow s payload],
        ld_reservations := ld_reservations db @ map (reservationRow (at_operationId (ab_attempt (op_binding s)))) rs,
        ld_budgets := map (reserveAll rs) (ld_budgets db)\<rparr>"
proof (induction rs rule: rev_induct)
  case Nil
  then show ?case by (simp add: insertOperation_def reserveAll_def)
next
  case (snoc r rs)
  have "(\<lambda>b. if lb_metric b = ri_metric r then b\<lparr>lb_reserved := lb_reserved b + ri_amount r\<rparr> else b) \<circ> reserveAll rs = reserveAll (rs @ [r])"
    by (auto simp: reserveAll_def)
  then show ?case using snoc by (simp add: insertOperation_def updateBudget_def reservationRow_def)
qed

lemma budgetsAdmit_each:
  assumes "budgetsAdmit db rs = Inr u"
  shows "distinct (map ri_metric rs) \<and> (\<forall>b \<in> set (ld_budgets db). \<exists>r. List.find (\<lambda>r. ri_metric r = lb_metric b) rs = Some r \<and>
    (isObservedExecutionMetric (lb_metric b) \<or> lb_reserved b + lb_spent b + ri_amount r \<le> lb_capacity b))"
proof -
  let ?step = "\<lambda>acc b. andThen acc (\<lambda>_. case List.find (\<lambda>r. ri_metric r = lb_metric b) rs of
         None \<Rightarrow> Inl (ledgerError ''invalid_usage'')
       | Some r \<Rightarrow> need (isObservedExecutionMetric (lb_metric b) \<or> lb_reserved b + lb_spent b + ri_amount r \<le> lb_capacity b)
             (ledgerError ''budget_exhausted''))"
  let ?fits = "\<lambda>b. \<exists>r. List.find (\<lambda>r. ri_metric r = lb_metric b) rs = Some r \<and>
      (isObservedExecutionMetric (lb_metric b) \<or> lb_reserved b + lb_spent b + ri_amount r \<le> lb_capacity b)"
  have one: "?step acc b = Inr v \<Longrightarrow> ?fits b \<and> isOk acc" for acc b v
    by (cases acc) (auto split: option.splits)
  have "foldl ?step acc bs = Inr v \<Longrightarrow> isOk acc \<and> (\<forall>b \<in> set bs. ?fits b)" for acc v bs
  proof (induction bs arbitrary: acc)
    case (Cons b bs)
    have f: "foldl ?step (?step acc b) bs = Inr v" using Cons.prems by simp
    note rest = Cons.IH [OF f]
    then obtain w where "?step acc b = Inr w" by (auto simp only: isOk_iff)
    from one [OF this] rest show ?case by simp
  qed (simp add: isOk_iff)
  moreover have "distinct (map ri_metric rs)"
    using assms by (intro card_distinct) (auto simp: budgetsAdmit_def length_remdups_card_conv)
  ultimately show ?thesis using assms by (auto simp: budgetsAdmit_def)
qed

lemma reserved_none: "\<forall>x \<in> set rs. ri_metric x \<noteq> m \<Longrightarrow> (\<Sum>x\<leftarrow>rs. if ri_metric x = m then ri_amount x else 0) = 0"
  by (induction rs) auto

lemma reserved_once:
  assumes "distinct (map ri_metric rs)" "List.find (\<lambda>r. ri_metric r = m) rs = Some r"
  shows "(\<Sum>x\<leftarrow>rs. if ri_metric x = m then ri_amount x else 0) = ri_amount r"
proof -
  have r: "r \<in> set rs" "ri_metric r = m" using assms(2) by (auto simp: find_Some_iff)
  then obtain ys zs where rs: "rs = ys @ r # zs" by (metis split_list)
  have "\<forall>x \<in> set ys. ri_metric x \<noteq> m" "\<forall>x \<in> set zs. ri_metric x \<noteq> m" using assms(1) r(2) unfolding rs by (auto simp: image_iff)
  then show ?thesis using r(2) unfolding rs by (simp add: reserved_none)
qed

lemma sums_reserved:
  "reservedSum (vs @ map (reservationRow pid) rs) m = reservedSum vs m + (\<Sum>x\<leftarrow>rs. if ri_metric x = m then ri_amount x else 0)"
  "spentSum (vs @ map (reservationRow pid) rs) m = spentSum vs m"
proof -
  have "spentSum (map (reservationRow pid) rs) m = 0" by (induction rs) (auto simp: spentSum_def reservationRow_def)
  then show "spentSum (vs @ map (reservationRow pid) rs) m = spentSum vs m" by (simp add: spentSum_def)
  have "reservedSum (map (reservationRow pid) rs) m = (\<Sum>x\<leftarrow>rs. if ri_metric x = m then ri_amount x else 0)"
    by (induction rs) (auto simp: reservedSum_def reservationRow_def)
  then show "reservedSum (vs @ map (reservationRow pid) rs) m = reservedSum vs m + (\<Sum>x\<leftarrow>rs. if ri_metric x = m then ri_amount x else 0)"
    by (simp add: reservedSum_def)
qed

lemma operation_ok:
  assumes s: "normalSnapshot (lc_platform C) s" "freshOperation s" "at_operationId (ab_attempt (op_binding s)) \<notin> lw_id ` set (ld_rows db)"
    and root: "ld_root db \<noteq> None" "\<not> isCanceled (ld_root db)"
    and rs: "budgetsAdmit db rs = Inr u" "\<And>r. r \<in> set rs \<Longrightarrow> 0 \<le> ri_amount r" and ok: "ledgerOk C db"
  shows "ledgerOk C (insertOperation s payload rs db) \<and> ledgerOlder db (insertOperation s payload rs db)"
proof -
  let ?pid = "at_operationId (ab_attempt (op_binding s))" and ?row = "newRow s payload"
  let ?new = "map (reservationRow ?pid) rs"
  let ?ids = "lw_id ` set (ld_rows db @ [?row])"
  have row: "lw_id ?row = ?pid" by (simp add: newRow_def)
  note log = ok [unfolded ledgerOk_def, THEN conjunct1, unfolded logOk_def]
  have none: "eventsIn (ld_events db) ?pid = []" using log s(3) by (auto simp: eventsIn_def filter_empty_conv)
  have "rowLogOk (lc_platform C) [] ?row" using s by (simp add: rowLogOk_def newRow_def)
  then have "logOk (lc_platform C) (ld_rows db @ [?row]) (ld_events db)" using log s(3) row none by (auto simp: logOk_def)
  moreover have acc: "accountsOk (lw_id ` set (ld_rows db)) False (ld_reservations db) (ld_budgets db)"
    using ok root by (simp add: ledgerOk_def)
  note each = budgetsAdmit_each [OF rs(1)]
  have "budgetOk False (ld_reservations db @ ?new) (reserveAll rs b)" if b: "b \<in> set (ld_budgets db)" for b
  proof -
    obtain r where r: "List.find (\<lambda>r. ri_metric r = lb_metric b) rs = Some r"
      "isObservedExecutionMetric (lb_metric b) \<or> lb_reserved b + lb_spent b + ri_amount r \<le> lb_capacity b" using each b by blast
    have "budgetOk False (ld_reservations db) b" using acc b by (simp add: accountsOk_def)
    then show ?thesis using r(2) reserved_once [OF _ r(1)] each by (auto simp: budgetOk_def reserveAll_def sums_reserved)
  qed
  then have "\<forall>b \<in> set (map (reserveAll rs) (ld_budgets db)). budgetOk False (ld_reservations db @ ?new) b" by simp
  moreover have "map lb_metric (map (reserveAll rs) (ld_budgets db)) = map lb_metric (ld_budgets db)" by (simp add: reserveAll_def)
  moreover have "map (\<lambda>v. (lv_operationId v, lv_metric v)) (ld_reservations db @ ?new) =
      map (\<lambda>v. (lv_operationId v, lv_metric v)) (ld_reservations db) @ map (Pair ?pid) (map ri_metric rs)"
    by (simp add: reservationRow_def comp_def)
  moreover have "distinct (map (Pair ?pid) (map ri_metric rs))" using each by (simp add: distinct_map inj_on_def)
  moreover have "\<forall>v \<in> set (ld_reservations db @ ?new). lv_operationId v \<in> ?ids \<and> 0 \<le> lv_amount v \<and> (lv_settled v = None) = (lv_observation v = None)"
    using acc rs(2) row by (auto simp: accountsOk_def reservationRow_def)
  moreover have "set (map (\<lambda>v. (lv_operationId v, lv_metric v)) (ld_reservations db)) \<inter> set (map (Pair ?pid) (map ri_metric rs)) = {}"
  proof -
    have "lv_operationId v \<noteq> ?pid" if "v \<in> set (ld_reservations db)" for v
      using acc s(3) that unfolding accountsOk_def by metis
    then show ?thesis by auto
  qed
  moreover have "distinct (map lb_metric (ld_budgets db)) \<and> distinct (map (\<lambda>v. (lv_operationId v, lv_metric v)) (ld_reservations db))"
    using acc by (simp add: accountsOk_def)
  ultimately have "accountsOk ?ids False (ld_reservations db @ ?new) (map (reserveAll rs) (ld_budgets db))"
    unfolding accountsOk_def by (simp only: distinct_append)
  moreover have "ledgerOlder db (insertOperation s payload rs db)"
    using root by (simp add: insertOperation_eq ledgerOlder_def grows_refl)
  ultimately show ?thesis
    using root \<open>logOk (lc_platform C) (ld_rows db @ [?row]) (ld_events db)\<close> by (simp add: ledgerOk_def insertOperation_eq)
qed

lemma move_ok: "ledgerMove C db db' \<Longrightarrow> ledgerOk C db \<Longrightarrow> ledgerOk C db' \<and> ledgerOlder db db'"
proof (induction rule: ledgerMove.induct)
  case (Move_receipt receiptId pid content disposition db db')
  then show ?case by (auto simp: insertReceipt_def ledgerOk_def ledgerOlder_def grows_refl split: if_splits)
next
  case (Move_output db x)
  then show ?case by (simp add: ledgerOk_def ledgerOlder_def grows_refl)
next
  case (Move_link db l)
  then show ?case by (simp add: ledgerOk_def ledgerOlder_def grows_refl)
next
  case (Move_signal row db E i k sig row' db')
  then show ?case using signal_ok by metis
next
  case (Move_lease f db pid)
  then show ?case using lease_ok by metis
next
  case (Move_cancel db root)
  then show ?case using cancel_ok by metis
next
  case (Move_settle v db b root used observation)
  then show ?case using settleMove_ok by metis
next
  case (Move_root db root limits)
  then show ?case using root_ok by metis
next
  case (Move_operation s db reservations u payload)
  then show ?case using operation_ok by metis
qed

lemma moves_ok: "ledgerMoves C db db' \<Longrightarrow> ledgerOk C db \<Longrightarrow> ledgerOk C db' \<and> ledgerOlder db db'"
  by (induction rule: rtranclp_induct) (blast intro: ledgerOlder_refl ledgerOlder_trans dest: move_ok)+

end
