(* ===== verification/LedgerTransactions.thy ===== *)
theory LedgerTransactions
  imports LedgerMoves
begin

text \<open>
  Every transaction of the operation ledger that returns is a sequence of the moves of LedgerMoves, and what
  its answer says of the tables before and after: a lease, a start, a heartbeat or a budget is granted only
  under an open root, a cancellation reaches every operation.  Then the calls of a ledger as one datatype,
  an instance of the locale \<open>call_machine\<close>.
\<close>

section \<open>Transactions are sequences of moves\<close>

lemma one_move: "ledgerMove C db db' \<Longrightarrow> ledgerMoves C db db'"
  by (rule r_into_rtranclp)

lemma row_locked:
  assumes "lockOperation C E scope pid db = Inr (root, row)" "ledgerOk C db"
  shows "row \<in> set (ld_rows db) \<and> lw_id row = pid \<and> rowOf db pid = Some row \<and>
    (\<exists>r. ld_root db = Some r \<and> rt_cancelRequestId root = rt_cancelRequestId r \<and> rt_cancelReason root = rt_cancelReason r)"
proof -
  obtain x s where x: "rowOf db pid = Some x" "lockRoot C E scope (tk_rootRunId (ab_task (op_binding (lw_snapshot x)))) db = Inr root"
    "parseOpSnapshot (lc_platform C) (lw_snapshot x) = Inr s" "row = x\<lparr>lw_snapshot := s\<rparr>"
    using assms(1) by (auto simp: lockOperation_def andThen_Inr_iff split: option.splits if_splits)
  then have m: "x \<in> set (ld_rows db)" "lw_id x = pid" by (auto simp: rowOf_def find_Some_iff)
  then have "normalSnapshot (lc_platform C) (lw_snapshot x)" using assms(2) rowLog_normal by (auto simp: ledgerOk_def logOk_def)
  then have "row = x" using x(3,4) by (simp add: normalSnapshot_def)
  moreover have "\<exists>r. ld_root db = Some r \<and> rt_cancelRequestId root = rt_cancelRequestId r \<and> rt_cancelReason root = rt_cancelReason r"
    using x(2) by (auto simp: lockRoot_def Let_def andThen_Inr_iff split: option.splits if_splits)
  ultimately show ?thesis using x(1) m by simp
qed

lemma root_locked:
  assumes "lockRoot C E scope rootRunId db = Inr root"
  shows "\<exists>r. ld_root db = Some r \<and> rt_cancelRequestId root = rt_cancelRequestId r \<and> rt_cancelReason root = rt_cancelReason r"
  using assms by (auto simp: lockRoot_def Let_def andThen_Inr_iff split: option.splits if_splits)

text \<open>What a change of some rows leaves of the others.\<close>

definition otherRows :: "string set \<Rightarrow> LedgerDb \<Rightarrow> LedgerDb \<Rightarrow> bool" where
  "otherRows ids db db' \<longleftrightarrow> (\<forall>x. lw_id x \<notin> ids \<longrightarrow> (x \<in> set (ld_rows db') \<longleftrightarrow> x \<in> set (ld_rows db)))"

lemma otherRows_trans: "otherRows A a b \<Longrightarrow> otherRows B b c \<Longrightarrow> A \<union> B \<subseteq> D \<Longrightarrow> otherRows D a c"
  by (auto simp: otherRows_def)

lemma otherRows_same [simp]: "ld_rows db' = ld_rows db \<Longrightarrow> otherRows ids db db'"
  by (simp add: otherRows_def)

lemma otherRows_update: "(\<And>r. lw_id (f r) = lw_id r) \<Longrightarrow> otherRows {pid} db (updateRow pid f db)"
  by (auto simp: otherRows_def updateRow_def image_iff)

lemma signal_move:
  assumes "appendSignal C E i k row sig db = Inr (row', db')" "row \<in> set (ld_rows db)" "ledgerOk C db"
  shows "ledgerMoves C db db'" "ledgerOk C db'" "row' \<in> set (ld_rows db')" "lw_id row' = lw_id row"
    "lw_leaseTokenHash row' = lw_leaseTokenHash row" "lw_leaseExpiresAt row' = lw_leaseExpiresAt row"
    "otherRows {lw_id row} db db'" "ld_root db' = ld_root db" "ld_reservations db' = ld_reservations db"
    "ld_budgets db' = ld_budgets db" "map lw_id (ld_rows db') = map lw_id (ld_rows db)"
    "advanceRuntimeOperation (lc_platform C) (lw_snapshot row) sig = Inr (lw_snapshot row')"
proof -
  show "ledgerMoves C db db'" by (intro one_move Move_signal [OF assms(2,1)])
  show "ledgerOk C db'" using signal_ok [OF assms] by simp
  obtain s e where d: "advanceRuntimeOperation (lc_platform C) (lw_snapshot row) sig = Inr s"
    "row' = row\<lparr>lw_snapshot := s, lw_nextSequence := lw_nextSequence row + 1\<rparr>"
    "db' = updateRow (lw_id row) (\<lambda>r. r\<lparr>lw_snapshot := s, lw_nextSequence := lw_nextSequence r + 1\<rparr>)
       (db\<lparr>ld_events := ld_events db @ [(lw_id row, e)]\<rparr>)"
    by (rule appendSignal_Inr [OF assms(1)])
  show "row' \<in> set (ld_rows db')" using assms(2) by (auto simp: d updateRow_def image_iff intro!: bexI [of _ row])
  show "otherRows {lw_id row} db db'"
    unfolding d using otherRows_update [of _ "lw_id row" "db\<lparr>ld_events := ld_events db @ [(lw_id row, e)]\<rparr>"] by (simp add: otherRows_def)
  show "lw_id row' = lw_id row" "lw_leaseTokenHash row' = lw_leaseTokenHash row"
    "lw_leaseExpiresAt row' = lw_leaseExpiresAt row" "ld_root db' = ld_root db"
    "ld_reservations db' = ld_reservations db" "ld_budgets db' = ld_budgets db" "map lw_id (ld_rows db') = map lw_id (ld_rows db)"
    "advanceRuntimeOperation (lc_platform C) (lw_snapshot row) sig = Inr (lw_snapshot row')"
    by (simp_all add: d)
qed

text \<open>The settlement of what an operation that never ran had reserved.\<close>

lemma settleIdle_moves:
  assumes "settleIdle C E i k row vs db = Inr db'" "ledgerOk C db" "distinct (map lv_metric vs)"
    "\<And>v. v \<in> set vs \<Longrightarrow> v \<in> set (ld_reservations db) \<and> lv_settled v = None \<and> lv_operationId v = lw_id row"
  shows "ledgerMoves C db db' \<and> ld_rows db' = ld_rows db"
  using assms
proof (induction vs arbitrary: k db)
  case (Cons v vs)
  show ?case
  proof (cases "budgetOf db (lv_metric v)")
    case None
    then show ?thesis using Cons.prems by (intro Cons.IH) auto
  next
    case (Some b)
    then have b: "b \<in> set (ld_budgets db)" "lb_metric b = lv_metric v" by (auto simp: budgetOf_def find_Some_iff)
    have v: "v \<in> set (ld_reservations db)" "lv_settled v = None" "lv_operationId v = lw_id row" using Cons.prems(4) by auto
    obtain observation where o: "settleIdle C E i (k + 2) row vs
        (updateBudget (lv_metric v) (\<lambda>b. b\<lparr>lb_reserved := lb_reserved b - lv_amount v\<rparr>)
          (settleReservation (lw_id row) (lv_metric v) 0 observation db)) = Inr db'"
      using Cons.prems(1) Some by (auto simp: andThen_Inr_iff split: option.splits)
    let ?db = "settleMove v 0 observation db"
    have "(\<lambda>b. b\<lparr>lb_reserved := lb_reserved b - lv_amount v, lb_spent := lb_spent b + 0\<rparr>) = (\<lambda>b. b\<lparr>lb_reserved := lb_reserved b - lv_amount v\<rparr>)"
      by (rule ext) simp
    then have d: "settleIdle C E i (k + 2) row vs ?db = Inr db'" using o v(3) by (simp add: settleMove_def)
    have "0 \<le> lv_amount v" using Cons.prems(2) v(1) by (auto simp: ledgerOk_def accountsOk_def)
    then have move: "ledgerMove C db (withRoot (ld_root db) ?db)" by (intro Move_settle [OF v(1,2) b]) auto
    have w: "withRoot (ld_root db) ?db = ?db" by (simp add: withRoot_def settleMove_def updateBudget_def settleReservation_def)
    have ok: "ledgerOk C ?db" using move_ok [OF move Cons.prems(2)] w by simp
    have "w' \<in> set (ld_reservations ?db)" if "w' \<in> set vs" for w'
    proof -
      have "w' \<in> set (ld_reservations db)" using Cons.prems(4) that by simp
      moreover have "lv_metric w' \<noteq> lv_metric v" using Cons.prems(3) that by (metis distinct.simps(2) image_eqI list.set_map list.simps(9))
      ultimately show ?thesis
        by (auto simp: settleMove_def updateBudget_def settleReservation_def image_iff intro!: bexI [of _ w'])
    qed
    then have "ledgerMoves C ?db db' \<and> ld_rows db' = ld_rows ?db" using Cons.prems(3,4) by (intro Cons.IH [OF d ok]) auto
    then show ?thesis using move w
      by (auto simp: settleMove_def updateBudget_def settleReservation_def intro: converse_rtranclp_into_rtranclp)
  qed
qed simp

definition cancelSettled :: "LedgerRow \<Rightarrow> bool" where
  "cancelSettled row \<longleftrightarrow> isTerminalRuntimeOperationStatus (op_status (lw_snapshot row)) \<or> op_cancelRequestId (lw_snapshot row) \<noteq> None"

lemma cancelSettled_advance:
  assumes "advanceRuntimeOperation P (lw_snapshot row) sig = Inr (lw_snapshot row')" "normalSnapshot P (lw_snapshot row)" "cancelSettled row"
  shows "cancelSettled row'"
  using advance_older [OF assms(1,2)] assms(3) by (auto simp: cancelSettled_def opOlder_def)

lemma cancel_signal_settles:
  assumes "advanceRuntimeOperation P s (SigCancelRequested rid) = Inr s'"
  shows "op_cancelRequestId s' \<noteq> None"
  by (rule advance_cases [OF assms]) (auto simp: Let_def dest!: parse_all split: if_splits)

lemma row_normal: "ledgerOk C db \<Longrightarrow> row \<in> set (ld_rows db) \<Longrightarrow> normalSnapshot (lc_platform C) (lw_snapshot row)"
  using rowLog_normal by (auto simp: ledgerOk_def logOk_def)

lemma row_unique: "ledgerOk C db \<Longrightarrow> row \<in> set (ld_rows db) \<Longrightarrow> x \<in> set (ld_rows db) \<Longrightarrow> lw_id x = lw_id row \<Longrightarrow> x = row"
  using same_row by (auto simp: ledgerOk_def logOk_def)

lemma insertReceipt_rows:
  "insertReceipt receiptId pid content disposition db = Inr db' \<Longrightarrow> ld_rows db' = ld_rows db \<and> ld_reservations db' = ld_reservations db \<and>
     ld_root db' = ld_root db \<and> ld_budgets db' = ld_budgets db"
  by (auto simp: insertReceipt_def split: if_splits)

lemma prove_moves:
  assumes "proveNotExecuted C E i row db = Inr db'" "row \<in> set (ld_rows db)" "ledgerOk C db" "cancelSettled row"
  shows "ledgerMoves C db db' \<and> otherRows {lw_id row} db db' \<and> (\<forall>x \<in> set (ld_rows db'). lw_id x = lw_id row \<longrightarrow> cancelSettled x)"
proof -
  obtain sig row1 db1 rid content db2 where p: "appendSignal C E i 2 row sig db = Inr (row1, db1)"
    "insertReceipt rid (lw_id row) content Disp_applied db1 = Inr db2"
    "db' = db2 \<or> settleIdle C E i 4 row1 (unsettledOf (lw_id row) db2) db2 = Inr db'"
    using assms(1) by (auto simp: proveNotExecuted_def andThen_Inr_iff Let_def split: option.splits if_splits)
  note s = signal_move [OF p(1) assms(2,3)]
  have m2: "ledgerMoves C db db2" using s(1) Move_receipt [OF p(2)] by (rule rtranclp.rtrancl_into_rtrancl)
  then have ok2: "ledgerOk C db2" using moves_ok assms(3) by blast
  have "distinct (map (\<lambda>v. (lv_operationId v, lv_metric v)) (unsettledOf (lw_id row) db2))"
    using ok2 by (simp add: ledgerOk_def accountsOk_def unsettledOf_def distinct_map_filter)
  then have "distinct (map lv_metric (unsettledOf (lw_id row) db2))"
    by (auto simp: distinct_map inj_on_def unsettledOf_def)
  note idle = settleIdle_moves [OF _ ok2 this]
  from p(3) have "ledgerMoves C db2 db' \<and> ld_rows db' = ld_rows db2"
  proof
    assume i: "settleIdle C E i 4 row1 (unsettledOf (lw_id row) db2) db2 = Inr db'"
    show ?thesis by (rule idle [OF i]) (simp add: unsettledOf_def s(4))
  qed simp
  then have m: "ledgerMoves C db db'" "ld_rows db' = ld_rows db1" using m2 insertReceipt_rows [OF p(2)] by (auto intro: rtranclp_trans)
  have "cancelSettled row1" by (rule cancelSettled_advance [OF s(12) row_normal [OF assms(3,2)] assms(4)])
  then show ?thesis using m s(7) row_unique [OF s(2,3)] s(4) by (auto simp: otherRows_def)
qed

lemma cancelRow_moves:
  assumes "cancelRow C E i acceptedId row db = Inr db'" "row \<in> set (ld_rows db)" "ledgerOk C db"
  shows "ledgerMoves C db db' \<and> otherRows {lw_id row} db db' \<and> (\<forall>x \<in> set (ld_rows db'). lw_id x = lw_id row \<longrightarrow> cancelSettled x)"
proof -
  obtain row1 db1 where c: "(if \<not> cancelSettled row then appendSignal C E i 0 row (SigCancelRequested acceptedId) db else Inr (row, db)) = Inr (row1, db1)"
    "(if neverExecuted row1 then proveNotExecuted C E i row1 db1 else Inr db1) = Inr db'"
    using assms(1) by (auto simp: cancelRow_def cancelSettled_def andThen_Inr_iff)
  have one: "ledgerMoves C db db1 \<and> ledgerOk C db1 \<and> row1 \<in> set (ld_rows db1) \<and> lw_id row1 = lw_id row \<and> otherRows {lw_id row} db db1 \<and> cancelSettled row1"
  proof (cases "cancelSettled row")
    case True
    then show ?thesis using c(1) assms(2,3) by simp
  next
    case False
    with c(1) have s: "appendSignal C E i 0 row (SigCancelRequested acceptedId) db = Inr (row1, db1)" by simp
    note m = signal_move [OF s assms(2,3)]
    show ?thesis using m(1-4,7) cancel_signal_settles [OF m(12)] by (simp add: cancelSettled_def)
  qed
  show ?thesis
  proof (cases "neverExecuted row1")
    case True
    with c(2) have "proveNotExecuted C E i row1 db1 = Inr db'" by simp
    from prove_moves [OF this] one show ?thesis by (auto intro: rtranclp_trans otherRows_trans)
  next
    case False
    then have "db' = db1" using c(2) by simp
    then show ?thesis using one row_unique [of C db1 row1] by metis
  qed
qed

lemma cancelOperationRows_moves:
  assumes "cancelOperationRows C E i acceptedId rows db = Inr db'" "set rows \<subseteq> set (ld_rows db)" "distinct (map lw_id rows)" "ledgerOk C db"
  shows "ledgerMoves C db db' \<and> otherRows (lw_id ` set rows) db db' \<and>
    (\<forall>x \<in> set (ld_rows db'). lw_id x \<in> lw_id ` set rows \<longrightarrow> cancelSettled x)"
  using assms
proof (induction rows arbitrary: i db)
  case (Cons row rows)
  then obtain db1 where c: "cancelRow C E i acceptedId row db = Inr db1" "cancelOperationRows C E (i + 1) acceptedId rows db1 = Inr db'"
    by (auto simp: andThen_Inr_iff)
  have row: "row \<in> set (ld_rows db)" using Cons.prems(2) by simp
  note m = cancelRow_moves [OF c(1) row Cons.prems(4)]
  have "x \<in> set (ld_rows db1)" if "x \<in> set rows" for x
  proof -
    have "lw_id x \<noteq> lw_id row" "x \<in> set (ld_rows db)" using Cons.prems(2,3) that by (auto simp: image_iff)
    then show ?thesis using m by (simp add: otherRows_def)
  qed
  then have "set rows \<subseteq> set (ld_rows db1)" by blast
  then have r: "ledgerMoves C db1 db' \<and> otherRows (lw_id ` set rows) db1 db' \<and>
      (\<forall>x \<in> set (ld_rows db'). lw_id x \<in> lw_id ` set rows \<longrightarrow> cancelSettled x)"
    using Cons.IH [OF c(2)] Cons.prems(3) moves_ok [OF conjunct1 [OF m] Cons.prems(4)] by simp
  have "cancelSettled x" if "x \<in> set (ld_rows db')" "lw_id x = lw_id row" for x
    using that r m Cons.prems(3) by (auto simp: otherRows_def)
  then show ?case using m r by (auto intro: rtranclp_trans otherRows_trans)
qed simp

lemma cancelLocked_eq:
  assumes "ld_root db = Some r" "rt_cancelRequestId root = rt_cancelRequestId r"
  shows "\<exists>acceptedId rows. cancels (ld_root db) (Some (canceledRoot acceptedId reason r)) \<and>
    rows = filter (\<lambda>x. lw_id x \<notin> set (if reason = ''deadline'' then ne_continuing E else [])) (ld_rows db) \<and>
    cancelLocked C E i root requestId reason db =
      cancelOperationRows C E i acceptedId rows (withRoot (Some (canceledRoot acceptedId reason r)) db)"
  by (rule exI [of _ "orElse (rt_cancelRequestId root) requestId"])
    (auto simp: cancelLocked_def Let_def withRoot_def canceledRoot_def cancels_def assms orElse_def split: option.splits)

lemma cancelLocked_moves:
  assumes "cancelLocked C E i root requestId reason db = Inr db'" "ld_root db = Some r" "rt_cancelRequestId root = rt_cancelRequestId r"
    and step: "\<And>root. cancels (ld_root db) root \<Longrightarrow> ledgerMoves C db0 (withRoot root db)" and ok: "ledgerOk C db0"
  shows "ledgerMoves C db0 db' \<and> (reason \<noteq> ''deadline'' \<longrightarrow> (\<forall>x \<in> set (ld_rows db'). cancelSettled x))"
proof -
  obtain acceptedId rows where c: "cancels (ld_root db) (Some (canceledRoot acceptedId reason r))"
    "rows = filter (\<lambda>x. lw_id x \<notin> set (if reason = ''deadline'' then ne_continuing E else [])) (ld_rows db)"
    "cancelOperationRows C E i acceptedId rows (withRoot (Some (canceledRoot acceptedId reason r)) db) = Inr db'"
    using cancelLocked_eq [OF assms(2,3), of reason E C i requestId] assms(1) by auto
  let ?db = "withRoot (Some (canceledRoot acceptedId reason r)) db"
  note m = step [OF c(1)]
  have ok': "ledgerOk C ?db" using moves_ok [OF m ok] by simp
  have rows: "ld_rows ?db = ld_rows db" by (simp add: withRoot_def)
  have "set rows \<subseteq> set (ld_rows ?db)" "distinct (map lw_id rows)"
    using ok' rows by (auto simp: c(2) ledgerOk_def logOk_def distinct_map_filter)
  note r = cancelOperationRows_moves [OF c(3) this ok']
  have all: "rows = ld_rows db" if "reason \<noteq> ''deadline''" using c(2) that by simp
  have "cancelSettled x" if "reason \<noteq> ''deadline''" "x \<in> set (ld_rows db')" for x
    using r that rows unfolding all [OF that(1)] otherRows_def by (metis image_eqI)
  then show ?thesis using m r by (auto intro: rtranclp_trans)
qed

lemma cancel_from:
  assumes "cancelLocked C E i root requestId reason db = Inr db'" "ld_root db = Some r" "rt_cancelRequestId root = rt_cancelRequestId r"
    "ledgerOk C db"
  shows "ledgerMoves C db db' \<and> (reason \<noteq> ''deadline'' \<longrightarrow> (\<forall>x \<in> set (ld_rows db'). cancelSettled x)) \<and> isCanceled (ld_root db')"
proof -
  have step: "ledgerMoves C db (withRoot root db)" if "cancels (ld_root db) root" for root
    by (rule one_move [OF Move_cancel [OF that]])
  obtain acceptedId rows where c: "cancels (ld_root db) (Some (canceledRoot acceptedId reason r))"
    "cancelOperationRows C E i acceptedId rows (withRoot (Some (canceledRoot acceptedId reason r)) db) = Inr db'"
    "rows = filter (\<lambda>x. lw_id x \<notin> set (if reason = ''deadline'' then ne_continuing E else [])) (ld_rows db)"
    using cancelLocked_eq [OF assms(2,3), of reason E C i requestId] assms(1) by auto
  have ok': "ledgerOk C (withRoot (Some (canceledRoot acceptedId reason r)) db)" using moves_ok [OF step [OF c(1)] assms(4)] by simp
  have "ledgerMoves C (withRoot (Some (canceledRoot acceptedId reason r)) db) db'"
    by (rule conjunct1 [OF cancelOperationRows_moves [OF c(2) _ _ ok']])
      (use ok' in \<open>auto simp: c(3) withRoot_def ledgerOk_def logOk_def distinct_map_filter\<close>)
  then have "rootOlder (ld_root (withRoot (Some (canceledRoot acceptedId reason r)) db)) (ld_root db')"
    using moves_ok ok' by (simp add: ledgerOlder_def)
  then have "isCanceled (ld_root db')"
    by (rule rootOlder_canceled) (simp add: withRoot_def isCanceled_def canceledRoot_def)
  then show ?thesis using cancelLocked_moves [OF assms(1-3) step assms(4)] by blast
qed

lemma cancelRoot_moves:
  assumes "cancelRoot C E scope rootRunId requestId db = Inr (u, db')" "ledgerOk C db"
  shows "ledgerMoves C db db' \<and> (\<forall>x \<in> set (ld_rows db'). cancelSettled x) \<and> isCanceled (ld_root db')"
proof -
  obtain root where r: "lockRoot C E scope rootRunId db = Inr root" "cancelLocked C E 0 root requestId ''user_request'' db = Inr db'"
    using assms(1) by (auto simp: cancelRoot_def andThen_Inr_iff)
  from root_locked [OF r(1)] cancel_from [OF r(2) _ _ assms(2)] show ?thesis by auto
qed

lemma loseLeases_moves:
  assumes "loseLeases C E i rows db = Inr db'" "set rows \<subseteq> set (ld_rows db)" "distinct (map lw_id rows)" "ledgerOk C db"
  shows "ledgerMoves C db db'"
  using assms
proof (induction rows arbitrary: i db)
  case (Cons row rows)
  then obtain row1 db1 where s: "appendSignal C E i 0 row (SigUncertain Lost_lease) db = Inr (row1, db1)" "loseLeases C E (i + 1) rows db1 = Inr db'"
    by (auto simp: andThen_Inr_iff)
  have row: "row \<in> set (ld_rows db)" using Cons.prems(2) by simp
  note m = signal_move [OF s(1) row Cons.prems(4)]
  have "x \<in> set (ld_rows db1)" if "x \<in> set rows" for x
  proof -
    have "lw_id x \<noteq> lw_id row" "x \<in> set (ld_rows db)" using Cons.prems(2,3) that by (auto simp: image_iff)
    then show ?thesis using m(7) by (simp add: otherRows_def)
  qed
  then have "ledgerMoves C db1 db'" using Cons.IH [OF s(2) _ _ m(2)] Cons.prems(3) by auto
  then show ?case using m(1) by (rule rtranclp_trans [rotated])
qed simp

lemma expireLeases_moves:
  assumes "expireLeases C E scope rootRunId db = Inr (u, db')" "ledgerOk C db"
  shows "ledgerMoves C db db'"
proof -
  obtain root db1 where r: "lockRoot C E scope rootRunId db = Inr root"
    "(if rt_deadlineAt root \<le> ne_clock E 0 9 then cancelLocked C E 1 root (ne_uuid E 0 9) ''deadline'' db else Inr db) = Inr db1"
    "loseLeases C E (1 + length (ld_rows db1)) (filter (leaseExpired (ne_clock E 0 10)) (ld_rows db1)) db1 = Inr db'"
    using assms(1) by (auto simp: expireLeases_def andThen_Inr_iff)
  have m: "ledgerMoves C db db1"
    using root_locked [OF r(1)] cancel_from [OF _ _ _ assms(2)] r(2) by (cases "rt_deadlineAt root \<le> ne_clock E 0 9") auto
  then have ok: "ledgerOk C db1" using moves_ok assms(2) by blast
  have "ledgerMoves C db1 db'"
    by (rule loseLeases_moves [OF r(3) _ _ ok]) (use ok in \<open>auto simp: ledgerOk_def logOk_def distinct_map_filter\<close>)
  then show ?thesis using m by (rule rtranclp_trans [rotated])
qed

text \<open>The transactions of a lease.\<close>

definition operationOf :: "OpSnapshot \<Rightarrow> string" where
  "operationOf s = at_operationId (ab_attempt (op_binding s))"

lemma row_operation: "ledgerOk C db \<Longrightarrow> row \<in> set (ld_rows db) \<Longrightarrow> operationOf (lw_snapshot row) = lw_id row"
  using rowLog_binding [of "lc_platform C" "eventsIn (ld_events db) (lw_id row)" row]
  by (auto simp: operationOf_def ledgerOk_def logOk_def rowLogOk_def)

lemma recover_same: "recoverLease C E root row owner token at db = Inr (lease, db') \<Longrightarrow> db' = db \<and> rt_cancelRequestId root = None \<and>
    le_leaseToken lease = token \<and> lw_leaseTokenHash row = Some (sha256hex token) \<and> le_snapshot lease = lw_snapshot row"
  by (auto simp: recoverLease_def andThen_Inr_iff ensureRootAdmits_def verifyLease_def split: if_splits)

lemma updated_row: "r \<in> set (ld_rows db) \<Longrightarrow> lw_id r = pid \<Longrightarrow> f r \<in> set (ld_rows (updateRow pid f db))"
  by (auto simp: updateRow_def image_iff intro!: bexI [of _ r])

lemma grant_moves:
  assumes "grantLease C E root row owner duration recovered at db = Inr (lease, db')" "row \<in> set (ld_rows db)" "ledgerOk C db"
  shows "ledgerMoves C db db' \<and> rt_cancelRequestId root = None \<and> lw_leaseTokenHash row = None \<and>
    (\<exists>x \<in> set (ld_rows db'). lw_id x = lw_id row \<and> lw_leaseTokenHash x = Some (sha256hex (le_leaseToken lease))) \<and>
    operationOf (le_snapshot lease) = lw_id row"
proof -
  obtain row1 db1 row2 db2 expiresAt where g: "lw_leaseTokenHash row = None" "rt_cancelRequestId root = None"
    "(if op_status (lw_snapshot row) \<noteq> Op_ready then appendSignal C E 0 2 row SigReady db else Inr (row, db)) = Inr (row1, db1)"
    "appendSignal C E 0 3 row1 SigDispatched db1 = Inr (row2, db2)"
    "db' = updateRow (lw_id row) (\<lambda>r. r\<lparr>lw_leaseOwner := Some owner, lw_leaseTokenHash := Some (sha256hex (le_leaseToken lease)),
       lw_leaseExpiresAt := Some expiresAt\<rparr>) db2" "le_snapshot lease = lw_snapshot row2"
    using assms(1) by (auto simp: grantLease_def andThen_Inr_iff Let_def ensureRootAdmits_def split: if_splits)
  have one: "ledgerMoves C db db1 \<and> ledgerOk C db1 \<and> row1 \<in> set (ld_rows db1) \<and> lw_id row1 = lw_id row \<and> lw_leaseTokenHash row1 = None"
  proof (cases "op_status (lw_snapshot row) = Op_ready")
    case False
    then have "appendSignal C E 0 2 row SigReady db = Inr (row1, db1)" using g(3) by simp
    from signal_move [OF this assms(2,3)] g(1) show ?thesis by simp
  qed (use g assms(2,3) in simp)
  then have one': "row1 \<in> set (ld_rows db1)" "ledgerOk C db1" by auto
  note two = signal_move [OF g(4) one']
  have only: "r = row2" if "r \<in> set (ld_rows db2)" "lw_id r = lw_id row" for r
    using row_unique [OF two(2,3) that(1)] that(2) two(4) one by simp
  have "ledgerMove C db2 db'"
    unfolding g(5) by (rule Move_lease) (use only two(5) one in \<open>auto simp: leaseChange_def\<close>)
  moreover have "\<exists>x \<in> set (ld_rows db'). lw_id x = lw_id row \<and> lw_leaseTokenHash x = Some (sha256hex (le_leaseToken lease))"
    unfolding g(5) using two(4) one by (intro bexI [OF _ updated_row [OF two(3)]]) auto
  moreover have "operationOf (le_snapshot lease) = lw_id row" using row_operation [OF two(2,3)] two(4) one g(6) by simp
  ultimately show ?thesis using one two(1) g(1,2) by (auto intro: rtranclp_trans rtranclp.rtrancl_into_rtrancl)
qed

lemma recovery_cases:
  "(case (s, recovered) of (Op_dispatched, Some token) \<Rightarrow> A token | _ \<Rightarrow> B) = X \<Longrightarrow> (\<exists>token. A token = X) \<or> B = X"
  by (cases s; cases recovered) auto

text \<open>A lease that is answered: fresh for an operation that had none, or the one it has.\<close>

lemma dispatchLocked_moves:
  assumes "dispatchLocked C E root row owner duration recovered db = Inr (lease, db')" "row \<in> set (ld_rows db)" "ledgerOk C db"
  shows "ledgerMoves C db db' \<and> rt_cancelRequestId root = None \<and>
    (\<forall>h. lw_leaseTokenHash row = Some h \<longrightarrow> h = sha256hex (le_leaseToken lease)) \<and>
    (\<exists>x \<in> set (ld_rows db'). lw_id x = lw_id row \<and> lw_leaseTokenHash x = Some (sha256hex (le_leaseToken lease))) \<and>
    operationOf (le_snapshot lease) = lw_id row"
proof -
  have "(\<exists>token at. recoverLease C E root row owner token at db = Inr (lease, db')) \<or>
      (\<exists>at. grantLease C E root row owner duration recovered at db = Inr (lease, db'))"
  proof -
    let ?at = "ne_clock E 0 0"
    have "(case (op_status (lw_snapshot row), recovered) of
       (Op_dispatched, Some token) \<Rightarrow> recoverLease C E root row owner token ?at db
     | _ \<Rightarrow> grantLease C E root row owner duration recovered ?at db) = Inr (lease, db')"
      using assms(1) by (simp add: dispatchLocked_def Let_def andThen_Inr_iff)
    from recovery_cases [OF this] show ?thesis by blast
  qed
  then show ?thesis
  proof (elim disjE exE)
    fix token at assume "recoverLease C E root row owner token at db = Inr (lease, db')"
    note same = recover_same [OF this]
    then have "operationOf (le_snapshot lease) = lw_id row" using row_operation [OF assms(3,2)] by metis
    then show ?thesis using same assms(2) by auto
  next
    fix at assume "grantLease C E root row owner duration recovered at db = Inr (lease, db')"
    from grant_moves [OF this assms(2,3)] show ?thesis by simp
  qed
qed

definition rowWith :: "LedgerDb \<Rightarrow> string \<Rightarrow> (LedgerRow \<Rightarrow> bool) \<Rightarrow> bool" where
  "rowWith db pid Q \<longleftrightarrow> (\<exists>row \<in> set (ld_rows db). lw_id row = pid \<and> Q row)"

lemma locked_canceled:
  assumes "lockOperation C E scope pid db = Inr (root, row)" "ledgerOk C db" "rt_cancelRequestId root = None"
  shows "\<not> isCanceled (ld_root db)"
  using row_locked [OF assms(1,2)] assms(3) by (auto simp: isCanceled_def)

text \<open>What a transaction that grants the lease \<open>lease\<close> of the operation \<open>pid\<close> has done.\<close>

definition leaseGranted :: "LedgerConfig \<Rightarrow> string \<Rightarrow> LedgerLease \<Rightarrow> LedgerDb \<Rightarrow> LedgerDb \<Rightarrow> bool" where
  "leaseGranted C pid lease db db' \<longleftrightarrow> ledgerMoves C db db' \<and> \<not> isCanceled (ld_root db) \<and>
     rowWith db' pid (\<lambda>r. lw_leaseTokenHash r = Some (sha256hex (le_leaseToken lease))) \<and>
     operationOf (le_snapshot lease) = pid"

lemma dispatchOperation_moves:
  assumes "dispatchOperation C E scope pid owner duration db = Inr (lease, db')" "ledgerOk C db"
  shows "leaseGranted C pid lease db db'"
proof -
  obtain root row where l: "lockOperation C E scope pid db = Inr (root, row)" "dispatchLocked C E root row owner duration None db = Inr (lease, db')"
    using assms(1) by (auto simp: dispatchOperation_def andThen_Inr_iff)
  have row: "row \<in> set (ld_rows db)" "lw_id row = pid" using row_locked [OF l(1) assms(2)] by auto
  from dispatchLocked_moves [OF l(2) row(1) assms(2)] locked_canceled [OF l(1) assms(2)] row(2) show ?thesis
    by (auto simp: leaseGranted_def rowWith_def)
qed

lemma claimCandidates_moves:
  "claimCandidates C Es scope device duration recover pids db = Inr (lease, db') \<Longrightarrow> ledgerOk C db \<Longrightarrow>
     (case lease of None \<Rightarrow> db' = db | Some l \<Rightarrow> \<exists>pid. leaseGranted C pid l db db')"
proof (induction pids arbitrary: Es)
  case (Cons pid pids)
  let ?claim = "andThen (lockOperation C (Es 0) scope pid db) (\<lambda>(root, row). dispatchLocked C (Es 0) root row device duration
         (map_option (\<lambda>f. f (op_binding (lw_snapshot row))) recover) db)"
  show ?case
  proof (cases ?claim)
    case (Inl e)
    then show ?thesis using Cons.prems Cons.IH [of "\<lambda>k. Es (Suc k)"] by (auto split: if_splits)
  next
    case (Inr p)
    then obtain l where p: "?claim = Inr (l, db')" "lease = Some l" using Cons.prems(1) by (cases p) auto
    then obtain root row where l: "lockOperation C (Es 0) scope pid db = Inr (root, row)"
      "dispatchLocked C (Es 0) root row device duration (map_option (\<lambda>f. f (op_binding (lw_snapshot row))) recover) db = Inr (l, db')"
      by (auto simp: andThen_Inr_iff)
    have row: "row \<in> set (ld_rows db)" "lw_id row = pid" using row_locked [OF l(1) Cons.prems(2)] by auto
    from dispatchLocked_moves [OF l(2) row(1) Cons.prems(2)] locked_canceled [OF l(1) Cons.prems(2)] row(2) p(2) show ?thesis
      by (auto simp: leaseGranted_def rowWith_def)
  qed
qed simp

lemma lease_move:
  assumes "\<And>r. lw_leaseTokenHash (f r) = lw_leaseTokenHash r" "leaseChange f"
  shows "ledgerMoves C db (updateRow pid f db)"
  by (rule one_move [OF Move_lease]) (use assms in auto)

lemma startOperation_moves:
  assumes "startOperation C E scope pid token receiptId attempt db = Inr ((s, may), db')" "ledgerOk C db"
  shows "ledgerMoves C db db' \<and> (may \<longrightarrow> \<not> isCanceled (ld_root db) \<and>
    rowWith db pid (\<lambda>r. op_status (lw_snapshot r) = Op_dispatched \<and> lw_leaseTokenHash r = Some (sha256hex token)) \<and>
    rowWith db' pid (\<lambda>r. op_status (lw_snapshot r) = Op_running))"
proof -
  obtain root row where l: "lockOperation C E scope pid db = Inr (root, row)" "verifyLease C row token = Inr ()"
    using assms(1) by (auto simp: startOperation_def andThen_Inr_iff)
  have row: "row \<in> set (ld_rows db)" "lw_id row = pid" using row_locked [OF l(1) assms(2)] by auto
  show ?thesis
  proof (cases "List.find (\<lambda>x. lx_receiptId x = receiptId) (ld_receipts db)")
    case (Some prior)
    then show ?thesis using assms(1) l by (auto simp: startOperation_def andThen_Inr_iff split: if_splits)
  next
    case None
    then obtain row1 db1 where s: "rt_cancelRequestId root = None" "op_status (lw_snapshot row) = Op_dispatched"
      "appendSignal C E 0 2 row (SigStarted None) db = Inr (row1, db1)"
      "insertReceipt receiptId (lw_id row) (Content_preflight attempt) Disp_applied db1 = Inr db'"
      using assms(1) l by (auto simp: startOperation_def andThen_Inr_iff ensureRootAdmits_def split: if_splits)
    note m = signal_move [OF s(3) row(1) assms(2)]
    have "op_status (lw_snapshot row1) = Op_running"
      using m(12) row_normal [OF assms(2) row(1)] s(2)
      by (auto simp: advanceRuntimeOperation_def normalSnapshot_def andThen_Inr_iff split: if_splits dest!: parse_all)
    then have "rowWith db' pid (\<lambda>r. op_status (lw_snapshot r) = Op_running)"
      using m(3,4) row(2) insertReceipt_rows [OF s(4)] by (auto simp: rowWith_def)
    moreover have "ledgerMoves C db db'" using m(1) Move_receipt [OF s(4)] by (rule rtranclp.rtrancl_into_rtrancl)
    moreover have "lw_leaseTokenHash row = Some (sha256hex token)" using l(2) by (auto simp: verifyLease_def)
    ultimately show ?thesis using locked_canceled [OF l(1) assms(2) s(1)] row s(2) by (auto simp: rowWith_def)
  qed
qed

lemma heartbeat_moves:
  assumes "heartbeat C E scope pid token duration db = Inr (x, db')" "ledgerOk C db"
  shows "ledgerMoves C db db' \<and> \<not> isCanceled (ld_root db)"
proof -
  obtain root row expiresAt where h: "lockOperation C E scope pid db = Inr (root, row)" "rt_cancelRequestId root = None"
    "db' = updateRow (lw_id row) (\<lambda>r. r\<lparr>lw_leaseExpiresAt := Some expiresAt\<rparr>) db"
    using assms(1) by (auto simp: heartbeat_def andThen_Inr_iff Let_def ensureRootAdmits_def split: if_splits)
  have "ledgerMoves C db db'" unfolding h(3) by (rule lease_move) (simp_all add: leaseChange_def)
  then show ?thesis using locked_canceled [OF h(1) assms(2) h(2)] by simp
qed

lemma exchange_moves:
  assumes "exchangeSandboxExecutionBudget C E scope pid token attempt renewal db = Inr (x, db')" "ledgerOk C db"
  shows "ledgerMoves C db db' \<and> \<not> isCanceled (ld_root db)"
proof -
  obtain root row state where h: "lockOperation C E scope pid db = Inr (root, row)" "ensureRootAdmits root (ne_clock E 0 0) = Inr ()"
    "db' = updateRow (lw_id row) (\<lambda>r. r\<lparr>lw_budget := Some state\<rparr>) db"
    using assms(1) unfolding exchangeSandboxExecutionBudget_def Let_def by (fastforce elim!: andThen_InrE)
  have "ledgerMoves C db db'" unfolding h(3) by (rule lease_move) (simp_all add: leaseChange_def)
  moreover have "rt_cancelRequestId root = None" using h(2) by (auto simp: ensureRootAdmits_def split: if_splits)
  ultimately show ?thesis using locked_canceled [OF h(1) assms(2)] by simp
qed

lemma output_moves:
  assumes "recordLedgerOutput C E scope pid token attempt seq stream text db = Inr (u, db')"
  shows "ledgerMoves C db db'"
proof -
  have "db' = db \<or> (\<exists>x. db' = db\<lparr>ld_outputs := ld_outputs db @ [x]\<rparr>)"
    using assms by (auto simp: recordLedgerOutput_def andThen_Inr_iff Let_def split: option.splits if_splits)
  then show ?thesis using one_move [OF Move_output] by auto
qed

lemma applyReceipt_moves:
  assumes "applyReceipt C E row sig receiptId db = Inr (disposition, row', db')" "row \<in> set (ld_rows db)" "ledgerOk C db"
  shows "ledgerMoves C db db'" "row' \<in> set (ld_rows db')" "lw_id row' = lw_id row" "ledgerOk C db'"
proof -
  obtain intent row1 db1 where a: "(case intent of None \<Rightarrow> Inr (row, db) | Some rid \<Rightarrow> appendSignal C E 0 1 row (SigCancelRequested rid) db) = Inr (row1, db1)"
    "(case advanceRuntimeOperation (lc_platform C) (lw_snapshot row1) sig of
       Inl _ \<Rightarrow> Inr (Disp_conflict, row1, db1)
     | Inr _ \<Rightarrow> andThen (appendSignal C E 0 2 row1 sig db1) (\<lambda>(row2, db2). Inr (Disp_applied, row2, db2))) = Inr (disposition, row', db')"
    using assms(1) by (auto simp: applyReceipt_def andThen_Inr_iff)
  have one: "ledgerMoves C db db1 \<and> ledgerOk C db1 \<and> row1 \<in> set (ld_rows db1) \<and> lw_id row1 = lw_id row"
  proof (cases intent)
    case (Some rid)
    then have "appendSignal C E 0 1 row (SigCancelRequested rid) db = Inr (row1, db1)" using a(1) by simp
    from signal_move [OF this assms(2,3)] show ?thesis by simp
  qed (use a(1) assms(2,3) in simp)
  have two: "(row' = row1 \<and> db' = db1) \<or> appendSignal C E 0 2 row1 sig db1 = Inr (row', db')"
    using a(2) by (auto simp: andThen_Inr_iff split: sum.splits)
  have "ledgerMoves C db1 db' \<and> ledgerOk C db' \<and> row' \<in> set (ld_rows db') \<and> lw_id row' = lw_id row1"
    using two
  proof
    assume s: "appendSignal C E 0 2 row1 sig db1 = Inr (row', db')"
    have r: "row1 \<in> set (ld_rows db1)" "ledgerOk C db1" using one by auto
    from signal_move [OF s r] show ?thesis by simp
  qed (use one in simp)
  then show "ledgerMoves C db db'" "row' \<in> set (ld_rows db')" "lw_id row' = lw_id row" "ledgerOk C db'"
    using one by (auto intro: rtranclp_trans)
qed

lemma recordReceipt_moves:
  assumes "recordReceipt C E scope pid token receiptId attempt sig seq evidence db = Inr (x, db')" "ledgerOk C db"
  shows "ledgerMoves C db db'"
proof -
  obtain root row content where l: "lockOperation C E scope pid db = Inr (root, row)" "receiptContent C attempt sig seq evidence = Inr content"
    using assms(1) by (auto simp: recordReceipt_def andThen_Inr_iff)
  have row: "row \<in> set (ld_rows db)" using row_locked [OF l(1) assms(2)] by simp
  show ?thesis
  proof (cases "List.find (\<lambda>x. lx_receiptId x = receiptId) (ld_receipts db)")
    case (Some previous)
    then have "db' = db" using assms(1) l by (auto simp: recordReceipt_def andThen_Inr_iff split: if_splits)
    then show ?thesis by simp
  next
    case None
    then obtain disposition row' db1 where r:
      "(if attemptEqual C attempt row then applyReceipt C E row sig receiptId db else Inr (Disp_stale, row, db)) = Inr (disposition, row', db1)"
      "insertReceipt receiptId (lw_id row) content disposition db1 = Inr db'"
      using assms(1) l by (auto simp: recordReceipt_def andThen_Inr_iff)
    have "ledgerMoves C db db1"
      using r(1) applyReceipt_moves(1) [OF _ row assms(2)] by (cases "attemptEqual C attempt row") auto
    then show ?thesis using Move_receipt [OF r(2)] by (rule rtranclp.rtrancl_into_rtrancl)
  qed
qed

lemma settle_values:
  assumes "distinct (map lb_metric (ld_budgets db))" "b \<in> set (ld_budgets db)" "lb_metric b = m"
  shows "updateBudget m (\<lambda>x. x\<lparr>lb_reserved := lb_reserved b - a, lb_spent := lb_spent b + u\<rparr>) db =
    updateBudget m (\<lambda>x. x\<lparr>lb_reserved := lb_reserved x - a, lb_spent := lb_spent x + u\<rparr>) db"
proof -
  have "x = b" if "x \<in> set (ld_budgets db)" "lb_metric x = m" for x using assms that by (metis distinct_map inj_onD)
  then have "map (\<lambda>x. if lb_metric x = m then x\<lparr>lb_reserved := lb_reserved b - a, lb_spent := lb_spent b + u\<rparr> else x) (ld_budgets db) =
      map (\<lambda>x. if lb_metric x = m then x\<lparr>lb_reserved := lb_reserved x - a, lb_spent := lb_spent x + u\<rparr> else x) (ld_budgets db)"
    by (intro map_cong) auto
  then show ?thesis by (simp only: updateBudget_def)
qed

lemma settleUsage_moves:
  assumes "settleUsage C E scope pid token observation db = Inr (duplicate, db')" "ledgerOk C db"
  shows "ledgerMoves C db db'"
proof -
  obtain v root row where l: "parseUsageObservation (lc_platform C) observation = Inr v" "lockOperation C E scope pid db = Inr (root, row)"
    using assms(1) by (auto simp: settleUsage_def andThen_Inr_iff)
  obtain reservation budget where f: "reservationOf db (lw_id row) (uo_metric v) = Some reservation" "budgetOf db (uo_metric v) = Some budget"
    using assms(1) l by (auto simp: settleUsage_def andThen_Inr_iff split: option.splits)
  have rs: "reservation \<in> set (ld_reservations db)" "lv_operationId reservation = lw_id row" "lv_metric reservation = uo_metric v"
    using f(1) by (auto simp: reservationOf_def find_Some_iff)
  have bs: "budget \<in> set (ld_budgets db)" "lb_metric budget = lv_metric reservation" using f(2) rs(3) by (auto simp: budgetOf_def find_Some_iff)
  show ?thesis
  proof (cases "lv_observation reservation")
    case (Some prior)
    then have "db' = db" using assms(1) l f by (auto simp: settleUsage_def andThen_Inr_iff split: if_splits)
    then show ?thesis by simp
  next
    case None
    have acc: "accountsOk (lw_id ` set (ld_rows db)) (isCanceled (ld_root db)) (ld_reservations db) (ld_budgets db)"
      using assms(2) by (simp add: ledgerOk_def)
    then have open_: "lv_settled reservation = None" using None rs(1) by (auto simp: accountsOk_def)
    define used where "used = the (uo_amount v)"
    define db1 where "db1 = settleMove reservation used v db"
    define over where "over \<longleftrightarrow> \<not> isObservedExecutionMetric (uo_metric v) \<and>
      lb_capacity budget < lb_reserved budget - lv_amount reservation + (lb_spent budget + used)"
    have d: "updateBudget (uo_metric v) (\<lambda>b. b\<lparr>lb_reserved := lb_reserved budget - lv_amount reservation, lb_spent := lb_spent budget + used\<rparr>)
        (settleReservation (lw_id row) (uo_metric v) used v db) = db1"
      unfolding db1_def settleMove_def rs(2,3)
      by (rule settle_values) (use acc bs rs(3) in \<open>auto simp: accountsOk_def settleReservation_def\<close>)
    have r: "(if over then andThen (cancelLocked C E 1 root (ne_uuid E 0 0) ''budget_exhausted'' db1) (\<lambda>db''. Inr (False, db'')) else Inr (False, db1))
        = Inr (duplicate, db')"
      using assms(1) l f None d by (auto simp: settleUsage_def andThen_Inr_iff Let_def used_def over_def split: if_splits)
    have settle: "ledgerMove C db (withRoot root' db1)"
      if "root' = ld_root db \<and> \<not> over \<or> cancels (ld_root db) root'" for root'
      unfolding db1_def
      by (rule Move_settle [OF rs(1) open_ bs]) (use that cancels_older rs(3) in \<open>auto simp: over_def\<close>)
    have same: "withRoot (ld_root db) db1 = db1" "ld_root db1 = ld_root db"
      by (simp_all add: db1_def withRoot_def settleMove_def updateBudget_def settleReservation_def)
    show ?thesis
    proof (cases over)
      case False
      then show ?thesis using r one_move [OF settle [of "ld_root db"]] same by simp
    next
      case True
      then have c: "cancelLocked C E 1 root (ne_uuid E 0 0) ''budget_exhausted'' db1 = Inr db'" using r by (auto simp: andThen_Inr_iff)
      obtain x where x: "ld_root db = Some x" "rt_cancelRequestId root = rt_cancelRequestId x" using row_locked [OF l(2) assms(2)] by auto
      show ?thesis
        by (rule conjunct1 [OF cancelLocked_moves [OF c _ x(2) _ assms(2)]])
          (use x(1) same(2) one_move [OF settle] in auto)
    qed
  qed
qed

lemma linkRun_moves:
  assumes "linkRun C task db = Inr db'"
  shows "ledgerMoves C db db' \<and> (\<exists>links. db' = db\<lparr>ld_links := links\<rparr>)"
proof -
  have "db' = db \<or> (\<exists>l. db' = db\<lparr>ld_links := ld_links db @ [l]\<rparr>)"
    using assms by (auto simp: linkRun_def Let_def andThen_Inr_iff split: option.splits if_splits)
  then show ?thesis
  proof (elim disjE exE)
    assume "db' = db"
    then have "db' = db\<lparr>ld_links := ld_links db\<rparr>" "ledgerMoves C db db'" by simp_all
    then show ?thesis by blast
  next
    fix l assume d: "db' = db\<lparr>ld_links := ld_links db @ [l]\<rparr>"
    show ?thesis unfolding d using one_move [OF Move_link] by blast
  qed
qed

lemma createRoot_moves:
  assumes "createRoot C E task deadlineAt limits db = Inr (u, db')"
  shows "ledgerMoves C db db'"
proof (cases "ld_root db")
  case (Some prior)
  then have "db' = db" using assms by (auto simp: createRoot_def Let_def andThen_Inr_iff)
  then show ?thesis by simp
next
  case None
  let ?bs = "sortByMetric C bl_metric limits"
  obtain t db1 where r: "list_all (\<lambda>(i, b). ledgerInteger (bl_capacity b) \<and> validUsageObservation (lc_platform C) (budgetSample E i task deadlineAt b))
      (zip [0..<length limits] limits)" "distinct (map bl_metric ?bs)" "linkRun C task db = Inr db1"
    "db' = db1\<lparr>ld_root := Some \<lparr>rt_task = task, rt_deadlineAt = t, rt_cancelRequestId = None, rt_cancelReason = None\<rparr>, ld_budgets := map newBudget ?bs\<rparr>"
    using assms None by (auto simp: createRoot_def Let_def andThen_Inr_iff split: option.splits if_splits)
  have "set ?bs = set limits" by (simp add: sortByMetric_def image_image)
  moreover have "0 \<le> bl_capacity b" if b: "b \<in> set limits" for b
  proof -
    obtain i where i: "i < length limits" "limits ! i = b" using b by (auto simp: in_set_conv_nth)
    then have "(i, b) \<in> set (zip [0..<length limits] limits)" by (auto simp: in_set_zip intro!: exI [of _ i])
    then show ?thesis using r(1) by (auto simp: list_all_iff ledgerInteger_def)
  qed
  moreover obtain links where d: "ledgerMoves C db db1" "db1 = db\<lparr>ld_links := links\<rparr>" using linkRun_moves [OF r(3)] by auto
  ultimately have "ledgerMove C db1 db'" unfolding r(4) using None by (intro Move_root r(2)) auto
  with d(1) show ?thesis by (rule rtranclp.rtrancl_into_rtrancl)
qed

lemma admitNew_moves:
  assumes "admitNew C E s payload reservations root db = Inr (x, db')" "normalSnapshot (lc_platform C) s" "freshOperation s"
    "\<And>r. r \<in> set reservations \<Longrightarrow> 0 \<le> ri_amount r" "ld_root db = Some r0" "rt_cancelRequestId root = rt_cancelRequestId r0" "ledgerOk C db"
  shows "ledgerMoves C db db'"
proof -
  obtain db1 row waiting where a: "ensureRootAdmits root (ne_clock E 0 0) = Inr ()" "linkRun C (ab_task (op_binding s)) db = Inr db1"
    "budgetsAdmit db1 reservations = Inr ()" "at_operationId (ab_attempt (op_binding s)) \<notin> lw_id ` set (ld_rows db1)"
    "appendSignal C E 0 2 (newRow s payload) (if waiting then SigWaiting Wait_user else SigReady) (insertOperation s payload reservations db1) = Inr (row, db')"
    using assms(1) by (auto simp: admitNew_def elim!: andThen_InrE)
  obtain links where d: "ledgerMoves C db db1" "db1 = db\<lparr>ld_links := links\<rparr>" using linkRun_moves [OF a(2)] by auto
  have ok1: "ledgerOk C db1" using moves_ok [OF d(1) assms(7)] by simp
  have "rt_cancelRequestId r0 = None" using a(1) assms(6) by (auto simp: ensureRootAdmits_def split: if_splits)
  then have move: "ledgerMove C db1 (insertOperation s payload reservations db1)"
    using assms(5) d(2) by (intro Move_operation [OF assms(2,3) a(4) _ _ a(3) assms(4)]) (auto simp: isCanceled_def)
  have ok2: "ledgerOk C (insertOperation s payload reservations db1)" using move_ok [OF move ok1] by simp
  have "newRow s payload \<in> set (ld_rows (insertOperation s payload reservations db1))" by (simp add: insertOperation_eq)
  from signal_move(1) [OF a(5) this ok2] move d(1) show ?thesis by (meson rtranclp.rtrancl_into_rtrancl rtranclp_trans)
qed

lemma createOperation_moves:
  assumes "createOperation C E input db = Inr (x, db')" "ledgerOk C db"
  shows "ledgerMoves C db db'"
proof -
  obtain s root where c: "parseOpSnapshot (lc_platform C) (cp_snapshot input) = Inr s" "freshOperation s"
    "list_all (\<lambda>r. zUuid (lc_platform C) (ri_accountingId r) \<and> ledgerInteger (ri_amount r)) (cp_reservations input)"
    "lockRoot C E (tk_scope (ab_task (op_binding s))) (tk_rootRunId (ab_task (op_binding s))) db = Inr root"
    using assms(1) by (auto simp: createOperation_def Let_def elim!: andThen_InrE)
  let ?payload = "Option.bind (cp_payload input) (lc_payload C)"
  obtain r0 where r0: "ld_root db = Some r0" "rt_cancelRequestId root = rt_cancelRequestId r0" using root_locked [OF c(4)] by auto
  have amounts: "0 \<le> ri_amount r" if "r \<in> set (cp_reservations input)" for r using c(3) that by (auto simp: list_all_iff ledgerInteger_def)
  show ?thesis
  proof (cases "List.find (\<lambda>r. op_idempotencyKey (lw_initial r) = op_idempotencyKey s) (ld_rows db)")
    case (Some prior)
    then have "priorOperation C E s ?payload (cp_reservations input) prior db = Inr (x, db')"
      using assms(1) c by (auto simp: createOperation_def Let_def elim!: andThen_InrE)
    then have "db' = db" by (auto simp: priorOperation_def Let_def elim!: andThen_InrE)
    then show ?thesis by simp
  next
    case None
    then have "admitNew C E s ?payload (cp_reservations input) root db = Inr (x, db')"
      using assms(1) c by (auto simp: createOperation_def Let_def elim!: andThen_InrE)
    from admitNew_moves [OF this normal_parsed [OF c(1)] c(2) amounts r0 assms(2)] show ?thesis .
  qed
qed

section \<open>Calls\<close>

datatype LedgerCall =
    Lcall_createRoot RuntimeTaskRef string "BudgetLimit list"
  | Lcall_createOperation OperationInput
  | Lcall_dispatch RuntimeScope string string int
  | Lcall_claim RuntimeScope string int "(RuntimeActionBinding \<Rightarrow> string) option" "string list"
  | Lcall_start RuntimeScope string string string RuntimeAttemptRef
  | Lcall_heartbeat RuntimeScope string string int
  | Lcall_exchange RuntimeScope string string RuntimeAttemptRef "SandboxRenewal option"
  | Lcall_output RuntimeScope string string RuntimeAttemptRef int string string
  | Lcall_receipt RuntimeScope string string string RuntimeAttemptRef OpSignal "int option" jsval
  | Lcall_settle RuntimeScope string string UsageObservation
  | Lcall_cancel RuntimeScope string string
  | Lcall_expire RuntimeScope string

datatype LedgerReply =
    Lreply_done
  | Lreply_operation OpSnapshot
  | Lreply_lease "LedgerLease option"
  | Lreply_start OpSnapshot bool
  | Lreply_heartbeat OpSnapshot int
  | Lreply_budget SandboxBudgetState
  | Lreply_receipt OpSnapshot Disposition
  | Lreply_settled bool

definition answered :: "('a \<Rightarrow> LedgerReply) \<Rightarrow> ('a \<times> LedgerDb) result \<Rightarrow> (LedgerReply \<times> LedgerDb) result" where
  "answered f r = andThen r (\<lambda>(x, db). Inr (f x, db))"

text \<open>A call with the surroundings it meets, one per transaction it opens.\<close>

fun ledgerCall :: "LedgerConfig \<Rightarrow> (nat \<Rightarrow> LedgerEnv) \<times> LedgerCall \<Rightarrow> LedgerDb \<Rightarrow> (LedgerReply \<times> LedgerDb) result" where
  "ledgerCall C (Es, Lcall_createRoot task deadlineAt limits) db = answered (\<lambda>_. Lreply_done) (createRoot C (Es 0) task deadlineAt limits db)"
| "ledgerCall C (Es, Lcall_createOperation input) db = answered Lreply_operation (createOperation C (Es 0) input db)"
| "ledgerCall C (Es, Lcall_dispatch scope pid owner duration) db =
     answered (Lreply_lease \<circ> Some) (dispatchOperation C (Es 0) scope pid owner duration db)"
| "ledgerCall C (Es, Lcall_claim scope device duration recover candidates) db =
     answered Lreply_lease (claimNextBridgeOperation C Es scope device duration recover candidates db)"
| "ledgerCall C (Es, Lcall_start scope pid token receiptId attempt) db =
     answered (\<lambda>(s, may). Lreply_start s may) (startOperation C (Es 0) scope pid token receiptId attempt db)"
| "ledgerCall C (Es, Lcall_heartbeat scope pid token duration) db =
     answered (\<lambda>(s, t). Lreply_heartbeat s t) (heartbeat C (Es 0) scope pid token duration db)"
| "ledgerCall C (Es, Lcall_exchange scope pid token attempt renewal) db =
     answered Lreply_budget (exchangeSandboxExecutionBudget C (Es 0) scope pid token attempt renewal db)"
| "ledgerCall C (Es, Lcall_output scope pid token attempt seq stream text) db =
     answered (\<lambda>_. Lreply_done) (recordLedgerOutput C (Es 0) scope pid token attempt seq stream text db)"
| "ledgerCall C (Es, Lcall_receipt scope pid token receiptId attempt sig seq evidence) db =
     answered (\<lambda>(s, d). Lreply_receipt s d) (recordReceipt C (Es 0) scope pid token receiptId attempt sig seq evidence db)"
| "ledgerCall C (Es, Lcall_settle scope pid token observation) db = answered Lreply_settled (settleUsage C (Es 0) scope pid token observation db)"
| "ledgerCall C (Es, Lcall_cancel scope rootRunId requestId) db = answered (\<lambda>_. Lreply_done) (cancelRoot C (Es 0) scope rootRunId requestId db)"
| "ledgerCall C (Es, Lcall_expire scope rootRunId) db = answered (\<lambda>_. Lreply_done) (expireLeases C (Es 0) scope rootRunId db)"

abbreviation runLedger ::
  "LedgerConfig \<Rightarrow> ((nat \<Rightarrow> LedgerEnv) \<times> LedgerCall) list \<Rightarrow> LedgerDb \<Rightarrow> (((nat \<Rightarrow> LedgerEnv) \<times> LedgerCall) \<times> LedgerReply result) list \<times> LedgerDb" where
  "runLedger C \<equiv> runCalls (ledgerCall C)"

lemma answered_Inr: "answered f r = Inr (y, db') \<longleftrightarrow> (\<exists>x. r = Inr (x, db') \<and> y = f x)"
  by (auto simp: answered_def andThen_Inr_iff)

lemma claim_moves:
  assumes "claimNextBridgeOperation C Es scope device duration recover candidates db = Inr (lease, db')" "ledgerOk C db"
  shows "case lease of None \<Rightarrow> db' = db | Some l \<Rightarrow> \<exists>pid. leaseGranted C pid l db db'"
  using assms claimCandidates_moves by (auto simp: claimNextBridgeOperation_def)

lemma call_moves:
  assumes "ledgerCall C ec db = Inr (r, db')" "ledgerOk C db"
  shows "ledgerMoves C db db'"
proof -
  obtain Es call where ec: "ec = (Es, call)" by (cases ec)
  show ?thesis
  proof (cases call)
    case (Lcall_claim scope device duration recover candidates)
    then obtain lease where "claimNextBridgeOperation C Es scope device duration recover candidates db = Inr (lease, db')"
      using assms(1) ec by (auto simp: answered_Inr)
    from claim_moves [OF this assms(2)] show ?thesis by (auto simp: leaseGranted_def split: option.splits)
  next
    case (Lcall_start scope pid token receiptId attempt)
    then obtain s may where "startOperation C (Es 0) scope pid token receiptId attempt db = Inr ((s, may), db')"
      using assms(1) ec by (auto simp: answered_Inr)
    from startOperation_moves [OF this assms(2)] show ?thesis by simp
  qed (use assms ec in \<open>auto simp: answered_Inr leaseGranted_def dest: createRoot_moves createOperation_moves dispatchOperation_moves
      heartbeat_moves exchange_moves output_moves recordReceipt_moves settleUsage_moves cancelRoot_moves expireLeases_moves\<close>)
qed

interpretation ledger: call_machine "ledgerCall C" "ledgerOk C" ledgerOlder for C
proof unfold_locales
  show "ledgerOk C s' \<and> ledgerOlder s s'" if "ledgerCall C c s = Inr (r, s')" "ledgerOk C s" for c s r s'
    using call_moves [OF that] moves_ok that(2) by blast
qed (use ledgerOlder_refl ledgerOlder_trans in blast)+

lemma emptyLedger_ok: "ledgerOk C emptyLedger"
  by (simp add: ledgerOk_def emptyLedger_def logOk_def accountsOk_def)

end
