(* ===== verification/LedgerRuns.thy ===== *)
theory LedgerRuns
  imports LedgerTransactions
begin

text \<open>
  Runs of the operation ledger: any sequence of calls, each with its own clock, identifiers and surroundings,
  from the ledger of a root that does not exist yet.
\<close>

section \<open>Replaying the log\<close>

text \<open>A bounded replay of events that a row logged gives the row's snapshot.\<close>

lemma replayLoop_log:
  assumes "normalSnapshot P s0" "advanceAll P s0 (map oe_signal evs) = Inr s"
    "map oe_sequence evs = map int [0..<length evs]" "distinct (map oe_eventId evs)"
    "\<forall>e \<in> set evs. validOpEvent P e \<and> oe_task e = ab_task (op_binding s0) \<and>
       oe_attempt e = ab_attempt (op_binding s0) \<and> oe_execution e = ab_execution (op_binding s0)"
  shows "\<exists>st. runAll (\<lambda>st v. replayInput P v st) (replayStart s0) (map opEventJson evs) = Inr st \<and>
    rs_snapshot st = s \<and> rs_nextSequence st = int (length evs) \<and> rs_applied st = length evs \<and> rs_duplicates st = 0 \<and>
    dom (rs_byId st) = oe_eventId ` set evs \<and> dom (rs_bySequence st) = oe_sequence ` set evs"
  using assms(2-)
proof (induction evs arbitrary: s rule: rev_induct)
  case Nil
  then show ?case by (simp add: replayStart_def)
next
  case (snoc e evs)
  obtain s1 where s1: "advanceAll P s0 (map oe_signal evs) = Inr s1" "advanceRuntimeOperation P s1 (oe_signal e) = Inr s"
    using snoc.prems(1) by (auto simp: runAll_append andThen_Inr_iff)
  from snoc.IH [OF s1(1)] snoc.prems obtain st where st:
    "runAll (\<lambda>st v. replayInput P v st) (replayStart s0) (map opEventJson evs) = Inr st" "rs_snapshot st = s1"
    "rs_nextSequence st = int (length evs)" "rs_applied st = length evs" "rs_duplicates st = 0"
    "dom (rs_byId st) = oe_eventId ` set evs" "dom (rs_bySequence st) = oe_sequence ` set evs" by auto
  have b: "op_binding s1 = op_binding s0" using op.run_older [OF s1(1) assms(1)] by (simp add: opOlder_def)
  have e: "oe_eventId e \<notin> dom (rs_byId st)" "oe_sequence e = int (length evs)" using snoc.prems(2,3) st(6) by auto
  have "map oe_sequence evs = map int [0..<length evs]" using snoc.prems(2) by simp
  from arg_cong [OF this, of set] have "oe_sequence e \<notin> dom (rs_bySequence st)" using st(7) e(2) by auto
  then have "replayInput P (opEventJson e) st = Inr (st\<lparr>rs_snapshot := s, rs_byId := (rs_byId st)(oe_eventId e \<mapsto> e),
      rs_bySequence := (rs_bySequence st)(oe_sequence e \<mapsto> oe_eventId e), rs_nextSequence := rs_nextSequence st + 1,
      rs_applied := rs_applied st + 1\<rparr>)"
    using snoc.prems(4) e s1(2) st(2,3) b
    by (simp add: replayInput_def decode_enc replayEvent_def Let_def domIff)
  then show ?case using st by (simp add: runAll_append)
qed

lemma replay_of_log:
  assumes "rowLogOk P evs row" "distinct (map oe_eventId evs)"
  shows "replayRuntimeOperationEvents P (lw_initial row) (map opEventJson evs) =
    Inr (if length evs \<le> 10000
      then \<lparr>rr_snapshot = lw_snapshot row, rr_nextSequence = lw_nextSequence row, rr_applied = length evs, rr_duplicates = 0, rr_blocked = None\<rparr>
      else \<lparr>rr_snapshot = lw_initial row, rr_nextSequence = 0, rr_applied = 0, rr_duplicates = 0, rr_blocked = Some (0, F_replay_limit)\<rparr>)"
proof -
  have n: "normalSnapshot P (lw_initial row)" and f: "freshOperation (lw_initial row)" using assms(1) by (auto simp: rowLogOk_def)
  have p: "parseOpSnapshot P (lw_initial row) = Inr (lw_initial row)" using n by (simp add: normalSnapshot_def)
  show ?thesis
  proof (cases "length evs \<le> 10000")
    case False
    then show ?thesis using p f by (simp add: replayRuntimeOperationEvents_def Let_def freshOperation_def replayReport_def replayStart_def)
  next
    case True
    obtain st where st: "runAll (\<lambda>st v. replayInput P v st) (replayStart (lw_initial row)) (map opEventJson evs) = Inr st"
      "rs_snapshot st = lw_snapshot row" "rs_nextSequence st = int (length evs)" "rs_applied st = length evs" "rs_duplicates st = 0"
      using replayLoop_log [OF n _ _ assms(2), of "lw_snapshot row"] assms(1) by (auto simp: rowLogOk_def)
    have "replayLoop P 0 (map opEventJson evs) (replayStart (lw_initial row)) = replayReport st None"
      using replayLoop_run [OF st(1), of 0 "[]"] by simp
    then show ?thesis
      using p f True st assms(1) by (simp add: replayRuntimeOperationEvents_def Let_def freshOperation_def replayReport_def rowLogOk_def)
  qed
qed

lemma eventsIn_distinct: "distinct (map (oe_eventId \<circ> snd) evs) \<Longrightarrow> distinct (map oe_eventId (eventsIn evs pid))"
  by (simp add: eventsIn_def distinct_map_filter)

section \<open>Grants\<close>

text \<open>The answer that lets an execution of \<open>pid\<close> begin.\<close>

fun grantsStart :: "string \<Rightarrow> (nat \<Rightarrow> LedgerEnv) \<times> LedgerCall \<Rightarrow> LedgerReply \<Rightarrow> bool" where
  "grantsStart pid (Es, Lcall_start scope pid' token receiptId attempt) (Lreply_start s may) = (may \<and> pid' = pid)"
| "grantsStart pid _ _ = False"

definition beyondStart :: "string \<Rightarrow> LedgerDb \<Rightarrow> bool" where
  "beyondStart pid db \<longleftrightarrow> rowWith db pid (\<lambda>r. \<not> startable (op_status (lw_snapshot r)))"

lemma rowWith_older:
  assumes "rowWith a pid Q" "ledgerOlder a b" "\<And>x y. rowOlder x y \<Longrightarrow> Q x \<Longrightarrow> R y"
  shows "rowWith b pid R"
proof -
  obtain x where x: "x \<in> set (ld_rows a)" "lw_id x = pid" "Q x" using assms(1) by (auto simp: rowWith_def)
  obtain y where "y \<in> set (ld_rows b)" "rowOlder x y" using grows_member [OF _ x(1)] assms(2) by (auto simp: ledgerOlder_def)
  then show ?thesis using x assms(3) by (auto simp: rowWith_def rowOlder_def)
qed

lemma rowWith_both: "ledgerOk C db \<Longrightarrow> rowWith db pid Q \<Longrightarrow> rowWith db pid R \<Longrightarrow> rowWith db pid (\<lambda>r. Q r \<and> R r)"
  unfolding rowWith_def using row_unique by metis

interpretation start_grant: grant_machine "ledgerCall C" "ledgerOk C" ledgerOlder "grantsStart pid" "beyondStart pid" for C pid
proof unfold_locales
  show "\<not> beyondStart pid s \<and> beyondStart pid s'" if g: "ledgerCall C c s = Inr (r, s')" "ledgerOk C s" "grantsStart pid c r" for c s r s'
  proof -
    from g(3) obtain Es scope token receiptId attempt snap where c: "c = (Es, Lcall_start scope pid token receiptId attempt)" "r = Lreply_start snap True"
      by (auto elim: grantsStart.elims)
    then have "startOperation C (Es 0) scope pid token receiptId attempt s = Inr ((snap, True), s')" using g(1) by (auto simp: answered_Inr)
    from startOperation_moves [OF this g(2)]
    have w: "rowWith s pid (\<lambda>r. op_status (lw_snapshot r) = Op_dispatched)" "rowWith s' pid (\<lambda>r. op_status (lw_snapshot r) = Op_running)"
      by (auto simp: rowWith_def)
    have "rowWith s pid (\<lambda>r. False)" if "beyondStart pid s"
      using rowWith_both [OF g(2) w(1) that [unfolded beyondStart_def]] by (auto simp: rowWith_def startable_def)
    then show ?thesis using w(2) by (auto simp: beyondStart_def rowWith_def startable_def preDispatch_def)
  qed
  show "beyondStart pid s'" if "ledgerOlder s s'" "beyondStart pid s" for s s'
    using rowWith_older [OF that(2) [unfolded beyondStart_def] that(1)] by (auto simp: beyondStart_def rowOlder_def)
qed

text \<open>What the calls that need an open root answer when they are granted.\<close>

fun grantsWork :: "(nat \<Rightarrow> LedgerEnv) \<times> LedgerCall \<Rightarrow> LedgerReply \<Rightarrow> bool" where
  "grantsWork _ (Lreply_lease (Some lease)) = True"
| "grantsWork _ (Lreply_start s may) = may"
| "grantsWork _ (Lreply_heartbeat s t) = True"
| "grantsWork _ (Lreply_budget b) = True"
| "grantsWork _ _ = False"

lemma work_open:
  assumes "ledgerCall C ec db = Inr (r, db')" "ledgerOk C db" "grantsWork ec r"
  shows "\<not> isCanceled (ld_root db)"
proof -
  obtain Es call where ec: "ec = (Es, call)" by (cases ec)
  show ?thesis
  proof (cases call)
    case (Lcall_claim scope device duration recover candidates)
    then obtain lease where l: "claimNextBridgeOperation C Es scope device duration recover candidates db = Inr (lease, db')" "r = Lreply_lease lease"
      using assms(1) ec by (auto simp: answered_Inr)
    then obtain x where "lease = Some x" using assms(3) by (cases lease) auto
    with claim_moves [OF l(1) assms(2)] show ?thesis by (auto simp: leaseGranted_def)
  next
    case (Lcall_start scope pid token receiptId attempt)
    then obtain s where "startOperation C (Es 0) scope pid token receiptId attempt db = Inr ((s, True), db')"
      using assms(1,3) ec by (auto simp: answered_Inr)
    from startOperation_moves [OF this assms(2)] show ?thesis by simp
  next
    case (Lcall_dispatch scope pid owner duration)
    then obtain lease where "dispatchOperation C (Es 0) scope pid owner duration db = Inr (lease, db')" using assms(1) ec by (auto simp: answered_Inr)
    from dispatchOperation_moves [OF this assms(2)] show ?thesis by (simp add: leaseGranted_def)
  next
    case (Lcall_heartbeat scope pid token duration)
    then obtain x where "heartbeat C (Es 0) scope pid token duration db = Inr (x, db')" using assms(1) ec by (auto simp: answered_Inr)
    from heartbeat_moves [OF this assms(2)] show ?thesis by simp
  next
    case (Lcall_exchange scope pid token attempt renewal)
    then obtain x where "exchangeSandboxExecutionBudget C (Es 0) scope pid token attempt renewal db = Inr (x, db')" using assms(1) ec by (auto simp: answered_Inr)
    from exchange_moves [OF this assms(2)] show ?thesis by simp
  qed (use assms ec in \<open>auto simp: answered_Inr\<close>)
qed

lemma no_work_when_canceled:
  assumes "ledgerOk C db" "isCanceled (ld_root db)"
  shows "grantsIn grantsWork (fst (runLedger C calls db)) = 0"
proof -
  have "\<not> grantsWork c r" if m: "(c, Inr r) \<in> set (fst (runLedger C calls db))" for c r
  proof -
    obtain a b where a: "ledgerOk C a" "ledgerOlder db a" "ledgerCall C c a = Inr (r, b)" using ledger.run_answer [OF assms(1) m] by blast
    have "isCanceled (ld_root a)" using rootOlder_canceled assms(2) a(2) by (auto simp: ledgerOlder_def)
    then show ?thesis using work_open [OF a(3,1)] by blast
  qed
  then show ?thesis by (auto simp: grantsIn_def filter_empty_conv split: sum.splits)
qed

text \<open>The hashes of the tokens of the leases a run has answered for an operation.\<close>

definition leaseHashes :: "string \<Rightarrow> ('c \<times> LedgerReply result) list \<Rightarrow> string list" where
  "leaseHashes pid log = concat (map (\<lambda>(c, a). case a of
     Inr (Lreply_lease (Some l)) \<Rightarrow> if operationOf (le_snapshot l) = pid then [sha256hex (le_leaseToken l)] else [] | _ \<Rightarrow> []) log)"

lemma lease_answer:
  assumes "ledgerCall C ec db = Inr (Lreply_lease (Some l), db')" "ledgerOk C db"
  shows "rowWith db' (operationOf (le_snapshot l)) (\<lambda>r. lw_leaseTokenHash r = Some (sha256hex (le_leaseToken l)))"
proof -
  obtain Es call where ec: "ec = (Es, call)" by (cases ec)
  have "\<exists>pid. leaseGranted C pid l db db'"
  proof (cases call)
    case (Lcall_claim scope device duration recover candidates)
    then have "claimNextBridgeOperation C Es scope device duration recover candidates db = Inr (Some l, db')"
      using assms(1) ec by (auto simp: answered_Inr)
    from claim_moves [OF this assms(2)] show ?thesis by simp
  next
    case (Lcall_dispatch scope pid owner duration)
    then have "dispatchOperation C (Es 0) scope pid owner duration db = Inr (l, db')" using assms(1) ec by (auto simp: answered_Inr)
    from dispatchOperation_moves [OF this assms(2)] show ?thesis by blast
  qed (use assms ec in \<open>auto simp: answered_Inr\<close>)
  then show ?thesis by (auto simp: leaseGranted_def)
qed

lemma lease_hash_kept:
  assumes "ledgerOk C db" "h \<in> set (leaseHashes pid (fst (runLedger C calls db)))"
  shows "rowWith (snd (runLedger C calls db)) pid (\<lambda>r. lw_leaseTokenHash r = Some h)"
proof -
  obtain c l where m: "(c, Inr (Lreply_lease (Some l))) \<in> set (fst (runLedger C calls db))" "operationOf (le_snapshot l) = pid"
    "h = sha256hex (le_leaseToken l)"
    using assms(2) by (auto simp: leaseHashes_def split: sum.splits LedgerReply.splits option.splits if_splits)
  obtain a b where a: "ledgerOk C a" "ledgerCall C c a = Inr (Lreply_lease (Some l), b)" "ledgerOlder b (snd (runLedger C calls db))"
    using ledger.run_answer [OF assms(1) m(1)] by blast
  show ?thesis
    by (rule rowWith_older [OF lease_answer [OF a(2,1), unfolded m(2)] a(3)]) (auto simp: rowOlder_def m(3))
qed

lemma one_hash:
  assumes "ledgerOk C db"
  shows "length (remdups (leaseHashes pid (fst (runLedger C calls db)))) \<le> 1"
proof -
  have "h = k" if "h \<in> set (leaseHashes pid (fst (runLedger C calls db)))" "k \<in> set (leaseHashes pid (fst (runLedger C calls db)))" for h k
    using rowWith_both [OF ledger.run_inv [OF assms] lease_hash_kept [OF assms that(1)] lease_hash_kept [OF assms that(2)]]
    by (auto simp: rowWith_def)
  then have "card (set (leaseHashes pid (fst (runLedger C calls db)))) \<le> 1" by (auto simp: card_le_Suc0_iff_eq)
  then show ?thesis by (simp add: length_remdups_card_conv)
qed

section \<open>Redelivery\<close>

lemma lockRoot_again:
  assumes "lockRoot C E scope rootRunId db = Inr root" "rootOlder (ld_root db) (ld_root db')"
  shows "\<exists>root'. lockRoot C E' scope rootRunId db' = Inr root'"
proof -
  obtain r where r: "ld_root db = Some r" using assms(1) by (auto simp: lockRoot_def split: option.splits)
  then obtain r' where r': "ld_root db' = Some r'" "rt_task r' = rt_task r" using assms(2) by (auto simp: rootOlder_def split: option.splits)
  show ?thesis using assms(1) by (auto simp: lockRoot_def Let_def andThen_Inr_iff r r' split: if_splits)
qed

lemma lock_again:
  assumes "lockOperation C E scope pid db = Inr (root, row)" "ledgerOk C db" "ledgerOk C db'" "ledgerOlder db db'"
  shows "\<exists>root' row'. lockOperation C E' scope pid db' = Inr (root', row') \<and> rowOlder row row'"
proof -
  have row: "row \<in> set (ld_rows db)" "lw_id row = pid" "rowOf db pid = Some row" using row_locked [OF assms(1,2)] by auto
  obtain row' where r: "row' \<in> set (ld_rows db')" "rowOlder row row'" using grows_member [OF _ row(1)] assms(4) by (auto simp: ledgerOlder_def)
  have id': "lw_id row' = pid" "op_binding (lw_snapshot row') = op_binding (lw_snapshot row)" using r(2) row(2) by (auto simp: rowOlder_def opOlder_def)
  obtain x where x: "rowOf db' pid = Some x" using r(1) id' unfolding rowOf_def by (cases "List.find (\<lambda>r. lw_id r = pid) (ld_rows db')") (auto simp: find_None_iff)
  then have "x = row'" using row_unique [OF assms(3) r(1)] id' by (auto simp: rowOf_def find_Some_iff)
  then have found: "rowOf db' pid = Some row'" using x by simp
  have n: "parseOpSnapshot (lc_platform C) (lw_snapshot row') = Inr (lw_snapshot row')" using row_normal [OF assms(3) r(1)] by (simp add: normalSnapshot_def)
  obtain root0 where "lockRoot C E scope (tk_rootRunId (ab_task (op_binding (lw_snapshot row)))) db = Inr root0"
    using assms(1) row(3) by (auto simp: lockOperation_def andThen_Inr_iff)
  then obtain root' where "lockRoot C E' scope (tk_rootRunId (ab_task (op_binding (lw_snapshot row')))) db' = Inr root'"
    using lockRoot_again assms(4) id'(2) by (fastforce simp: ledgerOlder_def)
  then have "lockOperation C E' scope pid db' = Inr (root', row')"
    using assms(1) row(3) found id'(2) n by (auto simp: lockOperation_def andThen_Inr_iff split: if_splits)
  then show ?thesis using r(2) by blast
qed

lemma find_grows: "grows (=) xs ys \<Longrightarrow> List.find P xs = Some x \<Longrightarrow> List.find P ys = Some x"
proof -
  assume g: "grows (=) xs ys" and f: "List.find P xs = Some x"
  obtain zs where "ys = xs @ zs" using g unfolding grows_def list.rel_eq by (metis append_take_drop_id)
  moreover have "List.find P (xs @ zs) = Some x" using f by (induction xs) auto
  ultimately show ?thesis by simp
qed

lemma find_append: "List.find P xs = None \<Longrightarrow> List.find P (xs @ ys) = List.find P ys"
  by (induction xs) (auto split: if_splits)

lemma signal_receipts: "appendSignal C E i k row sig db = Inr (row', db') \<Longrightarrow> ld_receipts db' = ld_receipts db"
  by (erule appendSignal_Inr) simp

lemma applyReceipt_receipts:
  assumes "applyReceipt C E row sig receiptId db = Inr (disposition, row', db')"
  shows "ld_receipts db' = ld_receipts db"
proof -
  obtain intent row1 db1 where a: "(case intent of None \<Rightarrow> Inr (row, db) | Some rid \<Rightarrow> appendSignal C E 0 1 row (SigCancelRequested rid) db) = Inr (row1, db1)"
    "(case advanceRuntimeOperation (lc_platform C) (lw_snapshot row1) sig of
       Inl _ \<Rightarrow> Inr (Disp_conflict, row1, db1)
     | Inr _ \<Rightarrow> andThen (appendSignal C E 0 2 row1 sig db1) (\<lambda>(row2, db2). Inr (Disp_applied, row2, db2))) = Inr (disposition, row', db')"
    using assms by (auto simp: applyReceipt_def andThen_Inr_iff)
  have "ld_receipts db1 = ld_receipts db" using a(1) by (cases intent) (auto dest: signal_receipts)
  moreover have "ld_receipts db' = ld_receipts db1" using a(2) by (auto simp: andThen_Inr_iff split: sum.splits dest: signal_receipts)
  ultimately show ?thesis by simp
qed

definition redelivered :: "Disposition \<Rightarrow> Disposition" where
  "redelivered d = (if d = Disp_applied then Disp_duplicate else d)"

text \<open>A receipt that was accepted is on file, with its content and what became of it.\<close>

lemma receipt_filed:
  assumes "recordReceipt C E scope pid token receiptId attempt sig seq evidence db = Inr ((s, d), db')" "ledgerOk C db"
  shows "\<exists>root row content x. lockOperation C E scope pid db = Inr (root, row) \<and> verifyLease C row token = Inr () \<and>
    receiptContent C attempt sig seq evidence = Inr content \<and> List.find (\<lambda>x. lx_receiptId x = receiptId) (ld_receipts db') = Some x \<and>
    lx_operationId x = pid \<and> runtimeContractEqual (lc_platform C) (receiptContentJson (lx_content x)) (receiptContentJson content) \<and>
    redelivered (lx_disposition x) = redelivered d"
proof -
  obtain root row content where l: "lockOperation C E scope pid db = Inr (root, row)" "verifyLease C row token = Inr ()"
    "receiptContent C attempt sig seq evidence = Inr content"
    using assms(1) by (auto simp: recordReceipt_def andThen_Inr_iff)
  have row: "lw_id row = pid" using row_locked [OF l(1) assms(2)] by simp
  show ?thesis
  proof (cases "List.find (\<lambda>x. lx_receiptId x = receiptId) (ld_receipts db)")
    case (Some x)
    then have "db' = db \<and> lx_operationId x = pid \<and> runtimeContractEqual (lc_platform C) (receiptContentJson (lx_content x)) (receiptContentJson content) \<and>
        d = redelivered (lx_disposition x)"
      using assms(1) l row by (auto simp: recordReceipt_def andThen_Inr_iff redelivered_def split: if_splits)
    then show ?thesis using l Some by (auto simp: redelivered_def)
  next
    case None
    then obtain row' db1 where r:
      "(if attemptEqual C attempt row then applyReceipt C E row sig receiptId db else Inr (Disp_stale, row, db)) = Inr (d, row', db1)"
      "insertReceipt receiptId (lw_id row) content d db1 = Inr db'"
      using assms(1) l by (auto simp: recordReceipt_def andThen_Inr_iff)
    have "ld_receipts db1 = ld_receipts db" using r(1) applyReceipt_receipts by (auto split: if_splits)
    then have "ld_receipts db' = ld_receipts db @ [\<lparr>lx_receiptId = receiptId, lx_operationId = pid, lx_content = content, lx_disposition = d\<rparr>]"
      using r(2) row by (auto simp: insertReceipt_def split: if_splits)
    then show ?thesis using l None by (auto simp: find_append)
  qed
qed

lemma receipt_again:
  assumes r: "recordReceipt C E scope pid token receiptId attempt sig seq evidence db = Inr ((s, d), db1)" and ok: "ledgerOk C db"
    and later: "ledgerOk C db2" "ledgerOlder db1 db2"
  shows "\<exists>s'. recordReceipt C E' scope pid token receiptId attempt sig seq evidence db2 = Inr ((s', redelivered d), db2)"
proof -
  obtain root row content x where f: "lockOperation C E scope pid db = Inr (root, row)" "verifyLease C row token = Inr ()"
    "receiptContent C attempt sig seq evidence = Inr content" "List.find (\<lambda>x. lx_receiptId x = receiptId) (ld_receipts db1) = Some x"
    "lx_operationId x = pid" "runtimeContractEqual (lc_platform C) (receiptContentJson (lx_content x)) (receiptContentJson content)"
    "redelivered (lx_disposition x) = redelivered d"
    using receipt_filed [OF r ok] by blast
  have older: "ledgerOlder db db2" using moves_ok [OF recordReceipt_moves [OF r ok] ok] later(2) ledgerOlder_trans by blast
  obtain root' row' where l: "lockOperation C E' scope pid db2 = Inr (root', row')" "rowOlder row row'"
    using lock_again [OF f(1) ok later(1) older] by blast
  have "verifyLease C row' token = Inr ()" using f(2) l(2) by (auto simp: verifyLease_def rowOlder_def)
  moreover have "lw_id row' = pid" using row_locked [OF l(1) later(1)] by simp
  moreover have "List.find (\<lambda>x. lx_receiptId x = receiptId) (ld_receipts db2) = Some x"
    using find_grows [OF _ f(4)] later(2) by (simp add: ledgerOlder_def)
  ultimately show ?thesis
    using r f(3,5-7) l(1) by (auto simp: recordReceipt_def andThen_Inr_iff redelivered_def)
qed

section \<open>A stop that comes too early\<close>

text \<open>
  A device may learn of a cancellation, or be paused, between receiving an operation and starting it, and
  report that nothing was executed.  The ledger's operation is still dispatched then, and the
  transition table has no way from there to canceled: the report is filed as a conflict and the
  operation stays as it was.
\<close>

lemma stop_before_start_conflicts:
  assumes "op_status (lw_snapshot row) = Op_dispatched"
    "applyReceipt C E row (SigStopped evidence Eff_none) receiptId db = Inr (disposition, row', db')"
  shows "disposition = Disp_conflict \<and> row' = row \<and> db' = db"
proof -
  have "\<exists>e. advanceRuntimeOperation P (lw_snapshot row) (SigStopped evidence Eff_none) = Inl e" for P
  proof (cases "advanceRuntimeOperation P (lw_snapshot row) (SigStopped evidence Eff_none)")
    case (Inr s)
    then show ?thesis
      by (rule advance_cases) (use assms(1) in \<open>auto simp: canTransitionRuntimeOperation_def dest!: parse_all\<close>)
  qed simp
  then obtain e where "advanceRuntimeOperation (lc_platform C) (lw_snapshot row) (SigStopped evidence Eff_none) = Inl e" by blast
  then show ?thesis using assms by (auto simp: applyReceipt_def stopIntent_def andThen_Inr_iff)
qed

section \<open>Properties\<close>

text \<open>
  (C2) The log is the truth: after any sequence of calls, replaying the events of an operation with the
  replay of events.ts from the snapshot it was created with gives its stored snapshot and its next sequence
  number, with every event applied and none left over (or the report of the replay limit).
\<close>

theorem ledger_log_replays:
  "list_all (\<lambda>row. let evs = eventsIn (ld_events (snd (runLedger C calls emptyLedger))) (lw_id row) in
     replayRuntimeOperationEvents (lc_platform C) (lw_initial row) (map opEventJson evs) =
       Inr (if length evs \<le> 10000
         then \<lparr>rr_snapshot = lw_snapshot row, rr_nextSequence = lw_nextSequence row, rr_applied = length evs, rr_duplicates = 0, rr_blocked = None\<rparr>
         else \<lparr>rr_snapshot = lw_initial row, rr_nextSequence = 0, rr_applied = 0, rr_duplicates = 0, rr_blocked = Some (0, F_replay_limit)\<rparr>))
     (ld_rows (snd (runLedger C calls emptyLedger)))"
proof -
  have "logOk (lc_platform C) (ld_rows (snd (runLedger C calls emptyLedger))) (ld_events (snd (runLedger C calls emptyLedger)))"
    using ledger.run_inv [OF emptyLedger_ok, of C calls] by (simp add: ledgerOk_def)
  then show ?thesis by (simp add: list_all_iff Let_def logOk_def replay_of_log eventsIn_distinct)
qed

text \<open>
  (C1) An operation is started at most once: whatever calls devices, workers and users make, with
  whatever tokens and receipts, at most one answer of the ledger says that its execution may begin.
\<close>

theorem ledger_starts_once:
  "grantsIn (grantsStart pid) (fst (runLedger C calls emptyLedger)) \<le> 1"
  by (rule start_grant.at_most_once [OF emptyLedger_ok])

text \<open>
  (C22) One lease per operation: all the leases the ledger ever answers for an operation, granted, claimed
  or recovered, carry tokens of one and the same hash.
\<close>

theorem ledger_one_lease:
  "length (remdups (leaseHashes pid (fst (runLedger C calls emptyLedger)))) \<le> 1"
  by (rule one_hash [OF emptyLedger_ok])

text \<open>
  (C4) The books balance: after any sequence of calls every budget has reserved exactly the amounts of its
  unsettled reservations and spent exactly the settled amounts, and unless its metric is only observed it is
  within its capacity or its root is canceled.
\<close>

theorem ledger_books_balance:
  "let db = snd (runLedger C calls emptyLedger) in
   list_all (\<lambda>b. lb_reserved b = (\<Sum>v\<leftarrow>ld_reservations db. if lv_metric v = lb_metric b \<and> lv_settled v = None then lv_amount v else 0) \<and>
     lb_spent b = (\<Sum>v\<leftarrow>ld_reservations db. if lv_metric v = lb_metric b then orElse (lv_settled v) 0 else 0) \<and>
     (isObservedExecutionMetric (lb_metric b) \<or> isCanceled (ld_root db) \<or> lb_reserved b + lb_spent b \<le> lb_capacity b))
   (ld_budgets db)"
proof -
  have "accountsOk (lw_id ` set (ld_rows db)) (isCanceled (ld_root db)) (ld_reservations db) (ld_budgets db)"
    if "db = snd (runLedger C calls emptyLedger)" for db
    using ledger.run_inv [OF emptyLedger_ok, of C calls] that by (simp add: ledgerOk_def)
  then show ?thesis
    unfolding Let_def list_all_iff accountsOk_def budgetOk_def reservedSum_def spentSum_def by blast
qed

text \<open>
  (C3) Cancellation is final: when a root is canceled, every operation it has is terminal or carries the
  request, and from then on no call is answered with a lease, a start, a heartbeat or an execution
  budget, and the root gets no new operation.
\<close>

theorem ledger_cancellation_final:
  "case cancelRoot C E scope rootRunId requestId (snd (runLedger C calls emptyLedger)) of
     Inl _ \<Rightarrow> True
   | Inr (_, db) \<Rightarrow> list_all cancelSettled (ld_rows db) \<and> grantsIn grantsWork (fst (runLedger C later db)) = 0 \<and>
       map lw_id (ld_rows (snd (runLedger C later db))) = map lw_id (ld_rows db)"
proof (cases "cancelRoot C E scope rootRunId requestId (snd (runLedger C calls emptyLedger))")
  case (Inr p)
  then obtain u db where r: "cancelRoot C E scope rootRunId requestId (snd (runLedger C calls emptyLedger)) = Inr (u, db)" by (cases p) auto
  note ok = ledger.run_inv [OF emptyLedger_ok, of C calls]
  note m = cancelRoot_moves [OF r ok]
  then have ok': "ledgerOk C db" using moves_ok ok by blast
  have "map lw_id (ld_rows (snd (runLedger C later db))) = map lw_id (ld_rows db)"
    using ledger.run_older [OF ok', of later] m by (simp add: ledgerOlder_def)
  then show ?thesis using r m no_work_when_canceled [OF ok'] by (simp add: list_all_iff)
qed simp

text \<open>
  (C23) Receipts are idempotent: a receipt that was recorded, sent again at any later time and whatever
  happened in between, is answered with the same disposition (a duplicate if it was applied) and changes
  nothing.
\<close>

theorem ledger_receipt_redelivery:
  "case recordReceipt C E scope pid token receiptId attempt sig seq evidence (snd (runLedger C calls emptyLedger)) of
     Inl _ \<Rightarrow> True
   | Inr ((s, d), db) \<Rightarrow> \<exists>s'. recordReceipt C E' scope pid token receiptId attempt sig seq evidence (snd (runLedger C later db)) =
       Inr ((s', if d = Disp_applied then Disp_duplicate else d), snd (runLedger C later db))"
proof (cases "recordReceipt C E scope pid token receiptId attempt sig seq evidence (snd (runLedger C calls emptyLedger))")
  case (Inr p)
  then obtain s d db where r: "recordReceipt C E scope pid token receiptId attempt sig seq evidence (snd (runLedger C calls emptyLedger)) = Inr ((s, d), db)"
    by (cases p) auto
  note ok = ledger.run_inv [OF emptyLedger_ok, of C calls]
  have ok': "ledgerOk C db" using moves_ok [OF recordReceipt_moves [OF r ok] ok] by simp
  from receipt_again [OF r ok ledger.run_inv [OF ok'] ledger.run_older [OF ok'], of E' later] r
  show ?thesis by (simp add: redelivered_def)
qed simp

end
