(* ===== verification/BridgeJournal.thy ===== *)
theory BridgeJournal
  imports LocalService
begin

text \<open>
  apps/rice-bridge/src/journal.ts: the durable journal of the desktop bridge, one SQLite database per
  device.  A table is the list of its rows in rowid order; a JSON column is the value it is the text
  of, together with the text where the code compares or measures it.  An action runs in a transaction:
  it returns the next database or throws, and a throw leaves the database as it was.  The schemas of
  payloads and of results (local-command.ts and its siblings describe data only) are fields of
  \<open>JournalConfig\<close>, as are the texts of fixed summaries, which lie outside the code units modelled here.
  Shown here: the pages of unknown operations leave none out; the runs of a journal are in JournalRuns.
\<close>

section \<open>Dispatches and receipts (contracts/src/runtime-v2/bridge-journal.ts)\<close>

record RuntimeBridgeDispatch =
  bd_snapshot :: OpSnapshot
  bd_payload :: jsval
  bd_leaseToken :: string
  bd_leaseExpiresAt :: string
  bd_grantRootFingerprint :: string

definition validBridgeDispatch :: "platform \<Rightarrow> (jsval \<Rightarrow> jsval option) \<Rightarrow> RuntimeBridgeDispatch \<Rightarrow> bool" where
  "validBridgeDispatch P payloadSchema d \<longleftrightarrow>
     validOpSnapshot P (bd_snapshot d) \<and> payloadSchema (bd_payload d) \<noteq> None \<and> zUuid P (bd_leaseToken d) \<and>
     zDatetime P (bd_leaseExpiresAt d) \<and> hex64 (bd_grantRootFingerprint d) \<and>
     (let s = bd_snapshot d; b = op_binding s; e = ab_execution b in
       \<not> (ex_targetKind e \<noteq> TK_rice_bridge \<or> ex_deviceId e = None \<or>
          ex_scopeDigest e \<noteq> ''sha256:'' @ bd_grantRootFingerprint d \<or>
          JStr (trim (ab_action b)) \<noteq> jget ''capability'' (the (payloadSchema (bd_payload d))) \<or>
          op_status s \<noteq> Op_dispatched \<or> op_processId s \<noteq> None \<or> op_cancelRequestId s \<noteq> None))"

definition parseBridgeDispatch ::
  "platform \<Rightarrow> (jsval \<Rightarrow> jsval option) \<Rightarrow> RuntimeBridgeDispatch \<Rightarrow> RuntimeBridgeDispatch result" where
  "parseBridgeDispatch P payloadSchema d =
     (if validBridgeDispatch P payloadSchema d
      then andThen (parseOpSnapshot P (bd_snapshot d))
        (\<lambda>s. Inr (d\<lparr>bd_snapshot := s, bd_payload := the (payloadSchema (bd_payload d))\<rparr>))
      else Inl ZodError)"

definition bridgeDispatchJson :: "RuntimeBridgeDispatch \<Rightarrow> jsval" where
  "bridgeDispatchJson d = JObj [(''contractVersion'', JNum 1), (''snapshot'', opSnapshotJson (bd_snapshot d)),
     (''payload'', bd_payload d), (''leaseToken'', JStr (bd_leaseToken d)),
     (''leaseExpiresAt'', JStr (bd_leaseExpiresAt d)),
     (''grantRootFingerprint'', JStr (bd_grantRootFingerprint d))]"

text \<open>The body of evidence; \<open>output\<close> is absent, or any value (undefined included).\<close>

record BridgeEvidence =
  be_summary :: string
  be_output :: "jsval option"
  be_errorCode :: "string option"

definition validBridgeEvidence :: "BridgeEvidence \<Rightarrow> bool" where
  "validBridgeEvidence e \<longleftrightarrow> lenIn 1 500 (be_summary e) \<and> optAll (lenIn 1 120) (be_errorCode e)"

definition bridgeEvidenceJson :: "BridgeEvidence \<Rightarrow> jsval" where
  "bridgeEvidenceJson e = JObj ((''summary'', JStr (be_summary e)) # optProp ''output'' (be_output e) @
     optProp ''errorCode'' (map_option JStr (be_errorCode e)))"

record RuntimeBridgeReceipt =
  br_receiptId :: string
  br_attempt :: RuntimeAttemptRef
  br_leaseToken :: string
  br_deviceSequence :: int
  br_signal :: OpSignal
  br_evidence :: "BridgeEvidence option"

fun deviceSignal :: "OpSignal \<Rightarrow> bool" where
  "deviceSignal (SigStarted _) = True"
| "deviceSignal (SigUncertain _) = True"
| "deviceSignal (SigOutcome _) = True"
| "deviceSignal (SigStopped _ _) = True"
| "deviceSignal _ = False"

fun knownOutcome :: "OpSignal \<Rightarrow> bool" where
  "knownOutcome (SigOutcome _) = True"
| "knownOutcome (SigStopped _ _) = True"
| "knownOutcome _ = False"

definition validBridgeReceipt :: "platform \<Rightarrow> RuntimeBridgeReceipt \<Rightarrow> bool" where
  "validBridgeReceipt P r \<longleftrightarrow>
     zUuid P (br_receiptId r) \<and> validRuntimeAttemptRef P (br_attempt r) \<and> zUuid P (br_leaseToken r) \<and>
     0 \<le> br_deviceSequence r \<and> br_deviceSequence r \<le> 100 \<and> validOpSignal P (br_signal r) \<and>
     optAll validBridgeEvidence (br_evidence r) \<and> deviceSignal (br_signal r) \<and>
     (knownOutcome (br_signal r) \<longrightarrow> br_evidence r \<noteq> None)"

definition receiptJson :: "RuntimeBridgeReceipt \<Rightarrow> jsval" where
  "receiptJson r = JObj ([(''contractVersion'', JNum 1), (''receiptId'', JStr (br_receiptId r)),
     (''attempt'', attemptJson (br_attempt r)), (''leaseToken'', JStr (br_leaseToken r)),
     (''deviceSequence'', JNum (br_deviceSequence r)), (''signal'', signalJson (br_signal r))] @
     optProp ''evidence'' (map_option bridgeEvidenceJson (br_evidence r)))"

definition canonicalRuntimeBridgeJson :: "jsval \<Rightarrow> string result" where
  "canonicalRuntimeBridgeJson v =
     (case canonical v of Inr t \<Rightarrow> Inr t | Inl _ \<Rightarrow> Inl (JsError ''Non-JSON Bridge value''))"

definition bridgeDigest :: "jsval \<Rightarrow> string result" where
  "bridgeDigest v = andThen (canonicalRuntimeBridgeJson v) (\<lambda>t. Inr (''sha256:'' @ sha256hex t))"

definition maximumReceiptBytes :: nat where "maximumReceiptBytes = 500000"

definition reservePerEntry :: nat where "reservePerEntry = maximumReceiptBytes + 32768 + 512000"

definition reservePerService :: nat where "reservePerService = 1024 * 1024"

section \<open>The tables\<close>

datatype EntryState = Entry_received | Entry_executing | Entry_completed | Entry_unknown

record EntryRow =
  en_operationId :: string
  en_fingerprint :: string
  en_dispatch :: RuntimeBridgeDispatch
  en_state :: EntryState
  en_startReceiptId :: string

record OutboxRow =
  rx_receipt :: RuntimeBridgeReceipt
  rx_operationId :: string
  rx_delivered :: bool

record RuntimeBridgeOutput =
  bo_attempt :: RuntimeAttemptRef
  bo_leaseToken :: string
  bo_sequence :: int
  bo_stream :: string
  bo_content :: string

record OutputRow =
  ox_operationId :: string
  ox_output :: RuntimeBridgeOutput
  ox_bytes :: nat
  ox_delivered :: bool

text \<open>
  The tables of local-service-journal.ts, in the same database; \<open>sv_event\<close>, \<open>si_input\<close> and
  \<open>so_update\<close> are the values whose canonical text is the column \<open>body\<close>.
\<close>

record ServiceEventRow =
  sv_operationId :: string
  sv_event :: RuntimeLocalServiceEvent
  sv_acknowledged :: bool

record ServiceInputRow =
  si_operationId :: string
  si_input :: RuntimeLocalServiceInput
  si_delivered :: bool

record SourceReceipt =
  sr_updateId :: string
  sr_sourceDigest :: string

record ServiceSourceRow =
  so_operationId :: string
  so_update :: jsval
  so_delivered :: bool
  so_receipt :: "SourceReceipt option"
  so_acknowledged :: bool

record JournalDb =
  db_entries :: "EntryRow list"
  db_outbox :: "OutboxRow list"
  db_output :: "OutputRow list"
  db_mcp :: "(string \<times> string \<times> string) list"
  db_changeset :: "((string \<times> nat) \<times> jsval) list"
  db_events :: "ServiceEventRow list"
  db_inputs :: "ServiceInputRow list"
  db_sources :: "ServiceSourceRow list"

record FileStat =
  fs_secure :: bool
  fs_identity :: "int \<times> int"

record BridgeJournal =
  bj_db :: JournalDb
  bj_closed :: bool
  bj_poisoned :: bool

text \<open>
  What a journal is opened with, and what it relies on.  \<open>jc_payload\<close> to \<open>jc_changesetFile\<close> are the
  \<open>parse\<close> functions of schemas; \<open>jc_pdfMatches\<close> and \<open>jc_pythonMatches\<close> compare a payload with a
  result, \<open>jc_changesetMatches\<close> a file of a changeset with its result, and \<open>jc_initialFiles\<close> is
  \<open>initialChangesetResults\<close>.
\<close>

record JournalConfig =
  jc_platform :: platform
  jc_deviceId :: string
  jc_directory :: "int \<times> int"
  jc_file :: "int \<times> int"
  jc_limitEntries :: nat
  jc_limitBytes :: nat
  jc_payload :: "jsval \<Rightarrow> jsval option"
  jc_pdfResult :: "jsval \<Rightarrow> jsval option"
  jc_pythonResult :: "jsval \<Rightarrow> jsval option"
  jc_commandResult :: "jsval \<Rightarrow> jsval option"
  jc_changesetFile :: "jsval \<Rightarrow> jsval option"
  jc_pdfMatches :: "jsval \<Rightarrow> jsval \<Rightarrow> bool"
  jc_pythonMatches :: "jsval \<Rightarrow> jsval \<Rightarrow> bool"
  jc_changesetMatches :: "jsval \<Rightarrow> jsval \<Rightarrow> bool"
  jc_initialFiles :: "jsval \<Rightarrow> jsval list"
  jc_sourceUpdate :: "jsval \<Rightarrow> jsval option"
  jc_summary :: "string \<Rightarrow> jsval \<Rightarrow> string"

section \<open>Guard and transaction\<close>

text \<open>
  \<open>guard\<close>: the directory and the file are still those that were opened.  The argument is what
  \<open>lstat\<close> finds, or the error it throws.
\<close>

definition guardJournal :: "JournalConfig \<Rightarrow> FileStat result \<times> FileStat result \<Rightarrow> BridgeJournal \<Rightarrow> unit result \<times> BridgeJournal" where
  "guardJournal C ob j =
     (if bj_closed j \<or> bj_poisoned j then (Inl (BridgeJournalError ''JOURNAL_UNAVAILABLE''), j)
      else case fst ob of
          Inl e \<Rightarrow> (Inl e, j)
        | Inr d \<Rightarrow>
            if \<not> fs_secure d then (Inl (BridgeJournalError ''JOURNAL_UNSAFE_PATH''), j)
            else if fs_identity d \<noteq> jc_directory C
            then (Inl (BridgeJournalError ''JOURNAL_DIRECTORY_CHANGED''), j\<lparr>bj_poisoned := True\<rparr>)
            else case snd ob of
                Inl e \<Rightarrow> (Inl e, j)
              | Inr f \<Rightarrow>
                  if \<not> fs_secure f then (Inl (BridgeJournalError ''JOURNAL_UNSAFE_PATH''), j)
                  else if fs_identity f \<noteq> jc_file C
                  then (Inl (BridgeJournalError ''JOURNAL_FILE_CHANGED''), j\<lparr>bj_poisoned := True\<rparr>)
                  else (Inr (), j))"

fun expectedConflict :: "exn \<Rightarrow> bool" where
  "expectedConflict (BridgeJournalError _) = True"
| "expectedConflict _ = False"

definition transaction :: "(JournalDb \<Rightarrow> ('a \<times> JournalDb) result) \<Rightarrow> BridgeJournal \<Rightarrow> 'a result \<times> BridgeJournal" where
  "transaction action j = (case action (bj_db j) of
     Inr (x, db) \<Rightarrow> (Inr x, j\<lparr>bj_db := db\<rparr>)
   | Inl e \<Rightarrow> (Inl e, if expectedConflict e then j else j\<lparr>bj_poisoned := True\<rparr>))"

definition guarded ::
  "JournalConfig \<Rightarrow> FileStat result \<times> FileStat result \<Rightarrow> (BridgeJournal \<Rightarrow> 'a result \<times> BridgeJournal) \<Rightarrow>
   BridgeJournal \<Rightarrow> 'a result \<times> BridgeJournal" where
  "guarded C ob action j = (case guardJournal C ob j of (Inl e, j') \<Rightarrow> (Inl e, j') | (Inr _, j') \<Rightarrow> action j')"

section \<open>Receiving and claiming\<close>

definition entryOf :: "JournalDb \<Rightarrow> string \<Rightarrow> EntryRow result" where
  "entryOf db pid = (case List.find (\<lambda>r. en_operationId r = pid) (db_entries db) of
     None \<Rightarrow> Inl (BridgeJournalError ''JOURNAL_OPERATION_MISSING'') | Some r \<Rightarrow> Inr r)"

definition setState :: "string \<Rightarrow> EntryState \<Rightarrow> JournalDb \<Rightarrow> JournalDb" where
  "setState pid st db = db\<lparr>db_entries :=
     map (\<lambda>r. if en_operationId r = pid then r\<lparr>en_state := st\<rparr> else r) (db_entries db)\<rparr>"

definition capabilityOf :: "RuntimeBridgeDispatch \<Rightarrow> jsval" where
  "capabilityOf d = jget ''capability'' (bd_payload d)"

definition argumentsOf :: "RuntimeBridgeDispatch \<Rightarrow> jsval" where
  "argumentsOf d = jget ''arguments'' (bd_payload d)"

definition operationIdOf :: "RuntimeBridgeDispatch \<Rightarrow> string" where
  "operationIdOf d = at_operationId (ab_attempt (op_binding (bd_snapshot d)))"

text \<open>\<open>json_type(dispatch, '$.payload.arguments.background') = 'object'\<close> for a local process.\<close>

definition serviceDispatch :: "RuntimeBridgeDispatch \<Rightarrow> bool" where
  "serviceDispatch d \<longleftrightarrow> capabilityOf d = JStr ''local.process.execute'' \<and>
     (case jget ''background'' (argumentsOf d) of JObj _ \<Rightarrow> True | _ \<Rightarrow> False)"

definition newService :: "RuntimeBridgeDispatch \<Rightarrow> bool" where
  "newService d \<longleftrightarrow> capabilityOf d = JStr ''local.process.execute'' \<and> jtruthy (jget ''background'' (argumentsOf d))"

definition activeEntry :: "EntryRow \<Rightarrow> bool" where
  "activeEntry r \<longleftrightarrow> en_state r \<in> {Entry_received, Entry_executing}"

text \<open>
  \<open>receive\<close>: \<open>used\<close> is the size of the database file (pages times page size), \<open>fresh\<close> the new UUID of
  the start receipt.
\<close>

definition receiveDispatch ::
  "JournalConfig \<Rightarrow> nat \<Rightarrow> string \<Rightarrow> RuntimeBridgeDispatch \<Rightarrow> string \<Rightarrow> JournalDb \<Rightarrow> (bool \<times> JournalDb) result" where
  "receiveDispatch C used fresh d fingerprint db =
     (case List.find (\<lambda>r. en_operationId r = operationIdOf d) (db_entries db) of
        Some previous \<Rightarrow>
          if en_fingerprint previous \<noteq> fingerprint then Inl (BridgeJournalError ''JOURNAL_DISPATCH_CONFLICT'')
          else Inr (False, db)
      | None \<Rightarrow>
          let active = filter activeEntry (db_entries db) in
          andThen (canonicalRuntimeBridgeJson (bridgeDispatchJson d)) (\<lambda>body.
          if maximumReceiptBytes < byteLength body \<or> jc_limitEntries C \<le> length (db_entries db) \<or>
             jc_limitBytes C < used + (length active + 1) * reservePerEntry +
               (length (filter (serviceDispatch \<circ> en_dispatch) active) + (if newService d then 1 else 0)) * reservePerService +
               byteLength body
          then Inl (BridgeJournalError ''JOURNAL_CAPACITY_REACHED'')
          else if fresh \<in> en_startReceiptId ` set (db_entries db) then Inl (JsError ''UNIQUE constraint failed'')
          else Inr (True, db\<lparr>db_entries := db_entries db @
            [\<lparr>en_operationId = operationIdOf d, en_fingerprint = fingerprint, en_dispatch = d,
              en_state = Entry_received, en_startReceiptId = fresh\<rparr>]\<rparr>)))"

definition receive ::
  "JournalConfig \<Rightarrow> FileStat result \<times> FileStat result \<Rightarrow> nat \<Rightarrow> string \<Rightarrow> RuntimeBridgeDispatch \<Rightarrow>
   BridgeJournal \<Rightarrow> bool result \<times> BridgeJournal" where
  "receive C ob used fresh input j = (case parseBridgeDispatch (jc_platform C) (jc_payload C) input of
     Inl e \<Rightarrow> (Inl e, j)
   | Inr d \<Rightarrow> guarded C ob (\<lambda>j.
       let b = op_binding (bd_snapshot d) in
       if ex_deviceId (ab_execution b) \<noteq> Some (jc_deviceId C) then (Inl (BridgeJournalError ''JOURNAL_DEVICE_MISMATCH''), j)
       else case bridgeDigest (bd_payload d) of
           Inl e \<Rightarrow> (Inl e, j)
         | Inr digest \<Rightarrow>
             if ab_inputDigest b \<noteq> digest then (Inl (BridgeJournalError ''JOURNAL_PAYLOAD_MISMATCH''), j)
             else case bridgeDigest (bridgeDispatchJson d) of
                 Inl e \<Rightarrow> (Inl e, j)
               | Inr fingerprint \<Rightarrow> transaction (receiveDispatch C used fresh d fingerprint) j) j)"

definition beginExecution :: "string \<Rightarrow> JournalDb \<Rightarrow> (string \<times> JournalDb) result" where
  "beginExecution pid db =
     andThen (entryOf db pid) (\<lambda>row.
     if en_state row \<noteq> Entry_received then Inl (BridgeJournalError ''JOURNAL_EXECUTION_ALREADY_CLAIMED'')
     else Inr (en_startReceiptId row, setState pid Entry_executing db))"

definition mcpIdChar :: "char \<Rightarrow> bool" where
  "mcpIdChar c \<longleftrightarrow> (let n = (of_char c :: nat) in
     isDigitChar c \<or> 65 \<le> n \<and> n \<le> 90 \<or> 97 \<le> n \<and> n \<le> 122 \<or> c \<in> set ''_.:-'')"

definition prepareMcpCall :: "string \<Rightarrow> string \<Rightarrow> string \<Rightarrow> JournalDb \<Rightarrow> (unit \<times> JournalDb) result" where
  "prepareMcpCall pid requestId digest db =
     andThen (entryOf db pid) (\<lambda>row.
     if en_state row \<noteq> Entry_executing \<or> capabilityOf (en_dispatch row) \<noteq> JStr ''local.mcp.call''
     then Inl (BridgeJournalError ''MCP_UNKNOWN'')
     else if pid \<in> fst ` set (db_mcp db) then Inl (BridgeJournalError ''MCP_UNKNOWN'')
     else Inr ((), db\<lparr>db_mcp := db_mcp db @ [(pid, requestId, digest)]\<rparr>))"

section \<open>Receipts\<close>

text \<open>The values an action makes up: two UUIDs and the time.\<close>

record Fresh =
  fr_receiptId :: string
  fr_evidenceId :: string
  fr_now :: string

definition appendReceipt ::
  "JournalConfig \<Rightarrow> Fresh \<Rightarrow> EntryRow \<Rightarrow> OpSignal \<Rightarrow> BridgeEvidence option \<Rightarrow> JournalDb \<Rightarrow>
   (RuntimeBridgeReceipt \<times> JournalDb) result" where
  "appendReceipt C fr row signal evidence db =
     (let d = en_dispatch row;
        r = \<lparr>br_receiptId = fr_receiptId fr, br_attempt = ab_attempt (op_binding (bd_snapshot d)),
             br_leaseToken = bd_leaseToken d, br_deviceSequence = 0, br_signal = signal, br_evidence = evidence\<rparr> in
      andThen (need (validBridgeReceipt (jc_platform C) r) ZodError) (\<lambda>_.
      andThen (canonicalRuntimeBridgeJson (receiptJson r)) (\<lambda>body.
      if maximumReceiptBytes < byteLength body then Inl (BridgeJournalError ''JOURNAL_RESULT_TOO_LARGE'')
      else if br_receiptId r \<in> (\<lambda>x. br_receiptId (rx_receipt x)) ` set (db_outbox db)
      then Inl (JsError ''UNIQUE constraint failed'')
      else Inr (r, db\<lparr>db_outbox := db_outbox db @
        [\<lparr>rx_receipt = r, rx_operationId = en_operationId row, rx_delivered = False\<rparr>]\<rparr>))))"

text \<open>Evidence with its reference, the receipt that carries it, and the new state of the entry.\<close>

definition finish ::
  "JournalConfig \<Rightarrow> Fresh \<Rightarrow> EntryRow \<Rightarrow> BridgeEvidence \<Rightarrow> (RuntimeEvidenceRef \<Rightarrow> OpSignal) \<Rightarrow> JournalDb \<Rightarrow>
   (RuntimeBridgeReceipt \<times> JournalDb) result" where
  "finish C fr row evidence signal db =
     andThen (bridgeDigest (bridgeEvidenceJson evidence)) (\<lambda>digest.
     andThen (appendReceipt C fr row
       (signal \<lparr>ev_id = fr_evidenceId fr, ev_recordedAt = fr_now fr, ev_digest = digest\<rparr>) (Some evidence) db)
       (\<lambda>(r, db'). Inr (r, setState (en_operationId row) Entry_completed db')))"

record OutcomeInput =
  oc_status :: OpStatus
  oc_effects :: OpEffects
  oc_summary :: string
  oc_output :: "jsval option"
  oc_errorCode :: "string option"

text \<open>The summary is cut to 500 code units; the surrogate pairs the code repairs do not occur here.\<close>

definition outcomeEvidence :: "OutcomeInput \<Rightarrow> BridgeEvidence" where
  "outcomeEvidence r =
     \<lparr>be_summary = (let s = take 500 (trim (oc_summary r)) in if s = [] then ''Operation result recorded'' else s),
      be_output = oc_output r,
      be_errorCode = (case oc_errorCode r of Some [] \<Rightarrow> None | c \<Rightarrow> c)\<rparr>"

definition outcome :: "JournalConfig \<Rightarrow> Fresh \<Rightarrow> string \<Rightarrow> OutcomeInput \<Rightarrow> JournalDb \<Rightarrow> (RuntimeBridgeReceipt \<times> JournalDb) result" where
  "outcome C fr pid r db =
     andThen (entryOf db pid) (\<lambda>row.
     if \<not> activeEntry row then Inl (BridgeJournalError ''JOURNAL_RESULT_ALREADY_FINAL'')
     else finish C fr row (outcomeEvidence r)
       (\<lambda>ref. SigOutcome \<lparr>or_status = oc_status r, or_effects = oc_effects r, or_evidence = ref\<rparr>) db)"

definition stopped :: "JournalConfig \<Rightarrow> Fresh \<Rightarrow> string \<Rightarrow> jsval \<Rightarrow> string \<Rightarrow> JournalDb \<Rightarrow> (RuntimeBridgeReceipt \<times> JournalDb) result" where
  "stopped C fr pid output summary db =
     andThen (entryOf db pid) (\<lambda>row.
     if \<not> activeEntry row then Inl (BridgeJournalError ''JOURNAL_RESULT_ALREADY_FINAL'')
     else finish C fr row \<lparr>be_summary = take 500 summary, be_output = Some output, be_errorCode = None\<rparr>
       (\<lambda>ref. SigStopped ref Eff_none) db)"

definition uncertain ::
  "JournalConfig \<Rightarrow> Fresh \<Rightarrow> string \<Rightarrow> UncertainReason \<Rightarrow> BridgeEvidence option \<Rightarrow> JournalDb \<Rightarrow>
   (RuntimeBridgeReceipt \<times> JournalDb) result" where
  "uncertain C fr pid reason evidence db =
     andThen (entryOf db pid) (\<lambda>row.
     if \<not> activeEntry row then Inl (BridgeJournalError ''JOURNAL_RESULT_ALREADY_FINAL'')
     else andThen (appendReceipt C fr row (SigUncertain reason) evidence db)
       (\<lambda>(r, db'). Inr (r, setState pid Entry_unknown db')))"

section \<open>Output\<close>

definition validBridgeOutput :: "platform \<Rightarrow> RuntimeBridgeOutput \<Rightarrow> bool" where
  "validBridgeOutput P o' \<longleftrightarrow> validRuntimeAttemptRef P (bo_attempt o') \<and> zUuid P (bo_leaseToken o') \<and>
     0 \<le> bo_sequence o' \<and> bo_sequence o' \<le> 255 \<and> bo_stream o' \<in> {''stdout'', ''stderr''} \<and>
     length (bo_content o') \<le> 65536"

definition bridgeOutputJson :: "RuntimeBridgeOutput \<Rightarrow> jsval" where
  "bridgeOutputJson o' = JObj [(''contractVersion'', JNum 1), (''attempt'', attemptJson (bo_attempt o')),
     (''leaseToken'', JStr (bo_leaseToken o')), (''sequence'', JNum (bo_sequence o')),
     (''stream'', JStr (bo_stream o')), (''content'', JStr (bo_content o'))]"

definition outputsOf :: "JournalDb \<Rightarrow> string \<Rightarrow> OutputRow list" where
  "outputsOf db pid = filter (\<lambda>x. ox_operationId x = pid) (db_output db)"

text \<open>\<open>coalesce(max(sequence) + 1, 0)\<close> and \<open>coalesce(sum(content_bytes), 0)\<close>.\<close>

definition nextSequence :: "OutputRow list \<Rightarrow> int" where
  "nextSequence rows = foldr (\<lambda>x m. max (bo_sequence (ox_output x) + 1) m) rows 0"

definition contentBytes :: "OutputRow list \<Rightarrow> nat" where
  "contentBytes rows = sum_list (map ox_bytes rows)"

definition recordOutput ::
  "JournalConfig \<Rightarrow> string \<Rightarrow> int \<Rightarrow> string \<Rightarrow> string \<Rightarrow> JournalDb \<Rightarrow> (RuntimeBridgeOutput \<times> JournalDb) result" where
  "recordOutput C pid seq stream text db =
     andThen (entryOf db pid) (\<lambda>row.
     if capabilityOf (en_dispatch row) \<noteq> JStr ''local.process.execute'' then Inl (BridgeJournalError ''JOURNAL_OUTPUT_INVALID'')
     else
       let d = en_dispatch row;
         o' = \<lparr>bo_attempt = ab_attempt (op_binding (bd_snapshot d)), bo_leaseToken = bd_leaseToken d,
               bo_sequence = seq, bo_stream = stream, bo_content = text\<rparr> in
       andThen (need (validBridgeOutput (jc_platform C) o') ZodError) (\<lambda>_.
       andThen (canonicalRuntimeBridgeJson (bridgeOutputJson o')) (\<lambda>body.
       case List.find (\<lambda>x. ox_operationId x = pid \<and> bo_sequence (ox_output x) = seq) (db_output db) of
         Some prior \<Rightarrow>
           if canonicalRuntimeBridgeJson (bridgeOutputJson (ox_output prior)) \<noteq> Inr body
           then Inl (BridgeJournalError ''JOURNAL_OUTPUT_CONFLICT'') else Inr (o', db)
       | None \<Rightarrow>
           if en_state row \<noteq> Entry_executing then Inl (BridgeJournalError ''JOURNAL_OUTPUT_ALREADY_FINAL'')
           else if nextSequence (outputsOf db pid) \<noteq> seq \<or> 65536 < contentBytes (outputsOf db pid) + byteLength text
           then Inl (BridgeJournalError ''JOURNAL_OUTPUT_LIMIT'')
           else Inr (o', db\<lparr>db_output := db_output db @
             [\<lparr>ox_operationId = pid, ox_output = o', ox_bytes = byteLength text, ox_delivered = False\<rparr>]\<rparr>))))"

definition acknowledgeOutput :: "string \<Rightarrow> int \<Rightarrow> JournalDb \<Rightarrow> (unit \<times> JournalDb) result" where
  "acknowledgeOutput pid seq db = Inr ((), db\<lparr>db_output := map (\<lambda>x.
     if ox_operationId x = pid \<and> bo_sequence (ox_output x) = seq then x\<lparr>ox_delivered := True\<rparr> else x) (db_output db)\<rparr>)"

section \<open>Delivery\<close>

definition boundedLimit :: "int \<Rightarrow> nat" where
  "boundedLimit limit = nat (min 32 (max 1 limit))"

text \<open>\<open>ORDER BY operation_id, sequence\<close>; the order of the texts of two UUIDs is that of their bytes.\<close>

definition outputLe :: "OutputRow \<Rightarrow> OutputRow \<Rightarrow> bool" where
  "outputLe x y \<longleftrightarrow> (if ox_operationId x = ox_operationId y then bo_sequence (ox_output x) \<le> bo_sequence (ox_output y)
     else ox_operationId x \<le> ox_operationId y)"

fun insOutput :: "OutputRow \<Rightarrow> OutputRow list \<Rightarrow> OutputRow list" where
  "insOutput x [] = [x]"
| "insOutput x (y # ys) = (if outputLe x y then x # y # ys else y # insOutput x ys)"

definition pendingOutput :: "int \<Rightarrow> JournalDb \<Rightarrow> RuntimeBridgeOutput list" where
  "pendingOutput limit db =
     map ox_output (take (boundedLimit limit) (foldr insOutput (filter (\<lambda>x. \<not> ox_delivered x) (db_output db)) []))"

definition pendingReceipts :: "int \<Rightarrow> JournalDb \<Rightarrow> RuntimeBridgeReceipt list" where
  "pendingReceipts limit db = map rx_receipt (take (boundedLimit limit) (filter (\<lambda>x. \<not> rx_delivered x) (db_outbox db)))"

definition pendingForDelivery :: "int \<Rightarrow> JournalDb \<Rightarrow> RuntimeBridgeReceipt list" where
  "pendingForDelivery limit db = map rx_receipt (take (boundedLimit limit) (filter (\<lambda>x. \<not> rx_delivered x \<and>
     \<not> list_ex (\<lambda>p. ox_operationId p = rx_operationId x \<and> \<not> ox_delivered p) (db_output db) \<and>
     \<not> list_ex (\<lambda>s. sv_operationId s = rx_operationId x \<and> \<not> sv_acknowledged s) (db_events db)) (db_outbox db)))"

definition acknowledgeReceipt :: "string \<Rightarrow> JournalDb \<Rightarrow> (unit \<times> JournalDb) result" where
  "acknowledgeReceipt receiptId db = Inr ((), db\<lparr>db_outbox := map (\<lambda>x.
     if br_receiptId (rx_receipt x) = receiptId then x\<lparr>rx_delivered := True\<rparr> else x) (db_outbox db)\<rparr>)"

section \<open>Changesets and reconciliation\<close>

definition jarr :: "jsval \<Rightarrow> jsval list" where
  "jarr v = (case v of JArr xs \<Rightarrow> xs | _ \<Rightarrow> [])"

definition changesetCheckpoint :: "JournalConfig \<Rightarrow> string \<Rightarrow> nat \<Rightarrow> jsval \<Rightarrow> JournalDb \<Rightarrow> (unit \<times> JournalDb) result" where
  "changesetCheckpoint C pid index result db =
     andThen (entryOf db pid) (\<lambda>row.
     let files = jarr (jget ''files'' (argumentsOf (en_dispatch row))) in
     if en_state row \<noteq> Entry_executing \<or> capabilityOf (en_dispatch row) \<noteq> JStr ''local.fs.changeset'' \<or> length files \<le> index
     then Inl (BridgeJournalError ''JOURNAL_CHANGESET_INVALID'')
     else if \<not> jc_changesetMatches C (files ! index) result then Inl (BridgeJournalError ''JOURNAL_CHANGESET_INVALID'')
     else andThen (canonicalRuntimeBridgeJson result) (\<lambda>_. case map_of (db_changeset db) (pid, index) of
         Some previous \<Rightarrow>
           if jget ''status'' previous \<noteq> JStr ''prepared'' then Inl (BridgeJournalError ''JOURNAL_CHANGESET_ALREADY_FINAL'')
           else Inr ((), db\<lparr>db_changeset := map (\<lambda>(k, v). if k = (pid, index) then (k, result) else (k, v)) (db_changeset db)\<rparr>)
       | None \<Rightarrow> Inr ((), db\<lparr>db_changeset := db_changeset db @ [((pid, index), result)]\<rparr>)))"

text \<open>What a reconciled process reports: it was stopped, or it ran to an end with a status.\<close>

definition reconciledSignal :: "bool \<Rightarrow> bool \<Rightarrow> RuntimeEvidenceRef \<Rightarrow> OpSignal" where
  "reconciledSignal canceled succeeded ref =
     (if canceled then SigStopped ref Eff_none
      else SigOutcome \<lparr>or_status = (if succeeded then Op_succeeded else Op_failed), or_effects = Eff_none, or_evidence = ref\<rparr>)"

definition reconcileLocalPdf :: "JournalConfig \<Rightarrow> Fresh \<Rightarrow> string \<Rightarrow> jsval \<Rightarrow> JournalDb \<Rightarrow> (RuntimeBridgeReceipt \<times> JournalDb) result" where
  "reconcileLocalPdf C fr pid result db =
     andThen (entryOf db pid) (\<lambda>row.
     if en_state row \<noteq> Entry_unknown \<or> capabilityOf (en_dispatch row) \<noteq> JStr ''local.pdf.read'' \<or>
        \<not> jtruthy (jget ''stopped'' (jget ''process'' result)) \<or> \<not> jc_pdfMatches C (bd_payload (en_dispatch row)) result
     then Inl (BridgeJournalError ''JOURNAL_RECOVERY_MISMATCH'')
     else finish C fr row \<lparr>be_summary = jc_summary C ''pdf'' result, be_output = Some result, be_errorCode = None\<rparr>
       (reconciledSignal (jget ''reason'' (jget ''process'' result) = JStr ''canceled'') (jget ''document'' result \<noteq> JNull)) db)"

definition processCanceled :: "jsval \<Rightarrow> bool" where
  "processCanceled result \<longleftrightarrow> jget ''reason'' result \<in> {JStr ''canceled'', JStr ''lease_lost''}"

definition processSucceeded :: "jsval \<Rightarrow> bool" where
  "processSucceeded result \<longleftrightarrow> jget ''reason'' result = JStr ''exited'' \<and> jget ''exitCode'' result = JNum 0"

definition reconcileProcess :: "JournalConfig \<Rightarrow> Fresh \<Rightarrow> EntryRow \<Rightarrow> string \<Rightarrow> jsval \<Rightarrow> JournalDb \<Rightarrow> (RuntimeBridgeReceipt \<times> JournalDb) result" where
  "reconcileProcess C fr row kind result db =
     (if jget ''network'' (argumentsOf (en_dispatch row)) \<noteq> JStr ''none''
      then Inl (BridgeJournalError ''JOURNAL_NETWORK_RECONCILIATION_REQUIRED'')
      else finish C fr row \<lparr>be_summary = jc_summary C kind result, be_output = Some result, be_errorCode = None\<rparr>
        (reconciledSignal (processCanceled result) (processSucceeded result)) db)"

definition reconcileLocalPython :: "JournalConfig \<Rightarrow> Fresh \<Rightarrow> string \<Rightarrow> jsval \<Rightarrow> JournalDb \<Rightarrow> (RuntimeBridgeReceipt \<times> JournalDb) result" where
  "reconcileLocalPython C fr pid result db =
     andThen (entryOf db pid) (\<lambda>row.
     if en_state row \<noteq> Entry_unknown \<or> capabilityOf (en_dispatch row) \<noteq> JStr ''local.python.execute'' \<or>
        \<not> jc_pythonMatches C (bd_payload (en_dispatch row)) result
     then Inl (BridgeJournalError ''JOURNAL_RECOVERY_MISMATCH'')
     else reconcileProcess C fr row ''python'' result db)"

definition reconcileLocalCommand :: "JournalConfig \<Rightarrow> Fresh \<Rightarrow> string \<Rightarrow> jsval \<Rightarrow> JournalDb \<Rightarrow> (RuntimeBridgeReceipt \<times> JournalDb) result" where
  "reconcileLocalCommand C fr pid result db =
     andThen (entryOf db pid) (\<lambda>row.
     if en_state row \<noteq> Entry_unknown \<or> capabilityOf (en_dispatch row) \<noteq> JStr ''local.process.execute'' \<or>
        jget ''imageDigest'' (argumentsOf (en_dispatch row)) \<noteq> jget ''imageDigest'' result
     then Inl (BridgeJournalError ''JOURNAL_RECOVERY_MISMATCH'')
     else reconcileProcess C fr row ''command'' result db)"

section \<open>Recovery\<close>

text \<open>The files of an interrupted changeset: a file that was prepared is unknown.\<close>

definition recoveredFile :: "jsval \<Rightarrow> jsval" where
  "recoveredFile result = (case result of
     JObj kvs \<Rightarrow> if jget ''status'' result = JStr ''prepared''
       then JObj (map (\<lambda>(k, v). if k = ''status'' then (k, JStr ''unknown'') else (k, v)) kvs) else result
   | _ \<Rightarrow> result)"

definition recoveredFiles :: "JournalConfig \<Rightarrow> EntryRow \<Rightarrow> JournalDb \<Rightarrow> jsval list" where
  "recoveredFiles C row db = foldl (\<lambda>files ((pid, index), result).
     if pid = en_operationId row then files[index := recoveredFile result] else files)
     (jc_initialFiles C (bd_payload (en_dispatch row))) (db_changeset db)"

definition recoverChangeset :: "JournalConfig \<Rightarrow> Fresh \<Rightarrow> EntryRow \<Rightarrow> JournalDb \<Rightarrow> (RuntimeBridgeReceipt \<times> JournalDb) result" where
  "recoverChangeset C fr row db =
     (let files = recoveredFiles C row db;
        output = JObj [(''contractVersion'', JNum 1), (''files'', JArr files)];
        applied = length (filter (\<lambda>f. jget ''status'' f = JStr ''applied'') files) in
      if list_ex (\<lambda>f. jget ''status'' f = JStr ''unknown'') files
      then uncertain C fr (en_operationId row) Missing_receipt
        (Some \<lparr>be_summary = jc_summary C ''changeset_unknown'' output, be_output = Some output, be_errorCode = None\<rparr>) db
      else outcome C fr (en_operationId row)
        \<lparr>oc_status = (if applied = length files then Op_succeeded else if applied \<noteq> 0 then Op_partial else Op_failed),
         oc_effects = (if applied = length files then Eff_applied else if applied \<noteq> 0 then Eff_partial else Eff_none),
         oc_summary = jc_summary C ''changeset'' output, oc_output = Some output, oc_errorCode = None\<rparr> db)"

definition recoverEntry :: "JournalConfig \<Rightarrow> Fresh \<Rightarrow> EntryRow \<Rightarrow> JournalDb \<Rightarrow> (RuntimeBridgeReceipt \<times> JournalDb) result" where
  "recoverEntry C fr row db =
     (if en_state row = Entry_executing then
        (if capabilityOf (en_dispatch row) = JStr ''local.fs.changeset'' then recoverChangeset C fr row db
         else uncertain C fr (en_operationId row) Missing_receipt None db)
      else outcome C fr (en_operationId row)
        \<lparr>oc_status = Op_failed, oc_effects = Eff_none,
         oc_summary = ''Previous Bridge exited before execution was started'', oc_output = None,
         oc_errorCode = Some ''NOT_STARTED_BEFORE_RESTART''\<rparr> db)"

text \<open>
  The loop over the entries that were active when the journal was opened, each in its own transaction;
  an exception closes the database, what was committed stays.
\<close>

fun recoverEntries :: "JournalConfig \<Rightarrow> (nat \<Rightarrow> Fresh) \<Rightarrow> EntryRow list \<Rightarrow> JournalDb \<Rightarrow> unit result \<times> JournalDb" where
  "recoverEntries C fr [] db = (Inr (), db)"
| "recoverEntries C fr (row # rows) db = (case recoverEntry C (fr 0) row db of
     Inl e \<Rightarrow> (Inl e, db)
   | Inr (_, db') \<Rightarrow> recoverEntries C (\<lambda>k. fr (Suc k)) rows db')"

definition reopen :: "JournalConfig \<Rightarrow> (nat \<Rightarrow> Fresh) \<Rightarrow> BridgeJournal \<Rightarrow> unit result \<times> BridgeJournal" where
  "reopen C fr j = (case recoverEntries C fr (filter activeEntry (db_entries (bj_db j))) (bj_db j) of
     (r, db) \<Rightarrow> (r, \<lparr>bj_db = db, bj_closed = (case r of Inl _ \<Rightarrow> True | Inr _ \<Rightarrow> False), bj_poisoned = False\<rparr>))"

section \<open>Reads\<close>

text \<open>
  The unknown operations of some capabilities, 16 at a time: those after the cursor, and from the start
  when there are none; the new cursor is the rowid of the last one.  Rows are never deleted, so a rowid
  is a position.
\<close>

definition unknownAfter :: "string list \<Rightarrow> nat \<Rightarrow> JournalDb \<Rightarrow> (nat \<times> EntryRow) list" where
  "unknownAfter capabilities cursor db = take 16 (filter (\<lambda>(rowid, row). cursor < rowid \<and> en_state row = Entry_unknown \<and>
     capabilityOf (en_dispatch row) \<in> JStr ` set capabilities) (zip [1..<Suc (length (db_entries db))] (db_entries db)))"

definition unknownPage :: "string list \<Rightarrow> nat \<Rightarrow> JournalDb \<Rightarrow> RuntimeBridgeDispatch list \<times> nat" where
  "unknownPage capabilities cursor db =
     (let after = unknownAfter capabilities cursor db; rows = (if after = [] then unknownAfter capabilities 0 db else after) in
      (map (en_dispatch \<circ> snd) rows, if rows = [] then 0 else fst (last rows)))"

text \<open>
  Paging is fair: a page shows every unknown operation up to its new cursor, so repeated pages reach
  all of them although each holds at most 16.
\<close>

lemma sorted_zip_rows: "sorted_wrt (\<lambda>x y. fst x < fst y) (zip [m..<m + length xs] xs)"
  by (simp add: sorted_wrt_iff_nth_less)

lemma take_complete:
  assumes "sorted_wrt (\<lambda>x y. fst x < (fst y :: nat)) xs" "x \<in> set xs" "take n xs \<noteq> []" "fst x \<le> fst (last (take n xs))"
  shows "x \<in> set (take n xs)"
proof (rule ccontr)
  assume a: "x \<notin> set (take n xs)"
  have "xs = take n xs @ drop n xs" by simp
  then have "x \<in> set (drop n xs)" using a assms(2) by (metis Un_iff set_append)
  moreover have "sorted_wrt (\<lambda>x y. fst x < fst y) (take n xs @ drop n xs)" using assms(1) by simp
  ultimately have "fst (last (take n xs)) < fst x" using assms(3) last_in_set unfolding sorted_wrt_append by blast
  then show False using assms(4) by simp
qed

lemma unknownAfter_complete:
  assumes "i < length (db_entries db)" "cursor < Suc i" "en_state (db_entries db ! i) = Entry_unknown"
    "capabilityOf (en_dispatch (db_entries db ! i)) \<in> JStr ` set capabilities"
    "unknownAfter capabilities cursor db \<noteq> []" "Suc i \<le> fst (last (unknownAfter capabilities cursor db))"
  shows "(Suc i, db_entries db ! i) \<in> set (unknownAfter capabilities cursor db)"
  unfolding unknownAfter_def
proof (rule take_complete)
  let ?rows = "zip [1..<Suc (length (db_entries db))] (db_entries db)"
  show "sorted_wrt (\<lambda>x y. fst x < fst y) (filter (\<lambda>(rowid, row). cursor < rowid \<and> en_state row = Entry_unknown \<and>
     capabilityOf (en_dispatch row) \<in> JStr ` set capabilities) ?rows)"
    using sorted_zip_rows [of 1 "db_entries db"] by (intro sorted_wrt_filter) simp
  have "?rows ! i = (Suc i, db_entries db ! i)" "i < length ?rows" using assms(1) by (simp_all del: upt_Suc)
  then have "(Suc i, db_entries db ! i) \<in> set ?rows" by (metis nth_mem)
  then show "(Suc i, db_entries db ! i) \<in> set (filter (\<lambda>(rowid, row). cursor < rowid \<and> en_state row = Entry_unknown \<and>
     capabilityOf (en_dispatch row) \<in> JStr ` set capabilities) ?rows)" using assms(2-4) by simp
qed (use assms(5,6) in \<open>simp_all add: unknownAfter_def\<close>)
definition unknownLocalMcpOperations :: "nat \<Rightarrow> JournalDb \<Rightarrow> RuntimeBridgeDispatch list \<times> nat" where
  "unknownLocalMcpOperations = unknownPage [''local.mcp.call'', ''local.mcp.discover'']"

definition unknownLocalCommands :: "nat \<Rightarrow> JournalDb \<Rightarrow> RuntimeBridgeDispatch list \<times> nat" where
  "unknownLocalCommands = unknownPage [''local.process.execute'']"

definition unknownLocalPdfOperations :: "JournalDb \<Rightarrow> RuntimeBridgeDispatch list" where
  "unknownLocalPdfOperations db = map (en_dispatch \<circ> snd) (unknownAfter [''local.pdf.read''] 0 db)"

definition unknownLocalPythonOperations :: "JournalDb \<Rightarrow> RuntimeBridgeDispatch list" where
  "unknownLocalPythonOperations db = map (en_dispatch \<circ> snd) (unknownAfter [''local.python.execute''] 0 db)"

definition pendingServiceDispatches :: "JournalDb \<Rightarrow> RuntimeBridgeDispatch list" where
  "pendingServiceDispatches db = map en_dispatch (take 4 (filter (\<lambda>e. en_state e \<in> {Entry_completed, Entry_unknown} \<and>
     (list_ex (\<lambda>s. sv_operationId s = en_operationId e \<and> \<not> sv_acknowledged s) (db_events db) \<or>
      list_ex (\<lambda>s. so_operationId s = en_operationId e \<and> so_delivered s \<and> \<not> so_acknowledged s) (db_sources db))) (db_entries db)))"

end
