(* ===== verification/ServiceJournal.thy ===== *)
theory ServiceJournal
  imports BridgeJournal IsoTime
begin

text \<open>
  apps/rice-bridge/src/local-service-journal.ts: the lifecycle events, inputs and source updates of the
  services of a bridge, in the tables of BridgeJournal.  \<open>access\<close> is the function that
  \<open>BridgeJournal.serviceJournal\<close> passes in: it opens the transaction and checks the entry.
\<close>

definition serviceAccess :: "string \<Rightarrow> (EntryRow \<Rightarrow> JournalDb \<Rightarrow> ('a \<times> JournalDb) result) \<Rightarrow> JournalDb \<Rightarrow> ('a \<times> JournalDb) result" where
  "serviceAccess pid action db =
     andThen (entryOf db pid) (\<lambda>row.
     if en_state row = Entry_received \<or> capabilityOf (en_dispatch row) \<noteq> JStr ''local.process.execute'' \<or>
        \<not> jtruthy (jget ''background'' (argumentsOf (en_dispatch row)))
     then Inl (BridgeJournalError ''JOURNAL_SERVICE_MISMATCH'')
     else action row db)"

definition eventsOf :: "JournalDb \<Rightarrow> string \<Rightarrow> ServiceEventRow list" where
  "eventsOf db pid = filter (\<lambda>x. sv_operationId x = pid) (db_events db)"

definition inputsOf :: "JournalDb \<Rightarrow> string \<Rightarrow> ServiceInputRow list" where
  "inputsOf db pid = filter (\<lambda>x. si_operationId x = pid) (db_inputs db)"

definition sourcesOf :: "JournalDb \<Rightarrow> string \<Rightarrow> ServiceSourceRow list" where
  "sourcesOf db pid = filter (\<lambda>x. so_operationId x = pid) (db_sources db)"

section \<open>Events\<close>

text \<open>An \<open>input_delivered\<close> event settles the input it names.\<close>

definition deliverInput :: "string \<Rightarrow> ServiceEventBody \<Rightarrow> JournalDb \<Rightarrow> JournalDb result" where
  "deliverInput pid body db = (case body of
     Event_input_delivered inputId requestId inputSequence digest kind \<Rightarrow>
       (case List.find (\<lambda>x. li_inputId (si_input x) = inputId) (inputsOf db pid) of
          None \<Rightarrow> Inl (BridgeJournalError ''SERVICE_INPUT_UNPREPARED'')
        | Some row \<Rightarrow>
            let saved = si_input row in
            if li_requestId saved \<noteq> requestId \<or> li_sequence saved \<noteq> inputSequence \<or> li_digest saved \<noteq> digest \<or>
               li_kind saved \<noteq> kind
            then Inl (BridgeJournalError ''SERVICE_INPUT_CONFLICT'')
            else Inr (db\<lparr>db_inputs := map (\<lambda>x. if si_operationId x = pid \<and> li_inputId (si_input x) = inputId
              then x\<lparr>si_delivered := True\<rparr> else x) (db_inputs db)\<rparr>))
   | _ \<Rightarrow> Inr db)"

definition serviceEvent :: "string \<Rightarrow> RuntimeLocalServiceEvent \<Rightarrow> EntryRow \<Rightarrow> JournalDb \<Rightarrow> (unit \<times> JournalDb) result" where
  "serviceEvent pid event row db =
     (if le_attemptId event \<noteq> at_attemptId (ab_attempt (op_binding (bd_snapshot (en_dispatch row))))
      then Inl (BridgeJournalError ''SERVICE_JOURNAL_ATTEMPT'')
      else case List.find (\<lambda>x. le_sequence (sv_event x) = le_sequence event) (eventsOf db pid) of
          Some prior \<Rightarrow>
            if canonicalRuntimeBridgeJson (serviceEventJson (sv_event prior)) \<noteq> canonicalRuntimeBridgeJson (serviceEventJson event)
            then Inl (BridgeJournalError ''SERVICE_EVENT_CONFLICT'') else Inr ((), db)
        | None \<Rightarrow>
            if int (length (eventsOf db pid)) \<noteq> le_sequence event then Inl (BridgeJournalError ''SERVICE_EVENT_SEQUENCE'')
            else andThen (deliverInput pid (le_body event) db) (\<lambda>db'.
              Inr ((), db'\<lparr>db_events := db_events db' @
                [\<lparr>sv_operationId = pid, sv_event = event, sv_acknowledged = False\<rparr>]\<rparr>)))"

definition insEvent :: "ServiceEventRow \<Rightarrow> ServiceEventRow list \<Rightarrow> ServiceEventRow list" where
  "insEvent x ys = takeWhile (\<lambda>y. le_sequence (sv_event y) < le_sequence (sv_event x)) ys @ x #
     dropWhile (\<lambda>y. le_sequence (sv_event y) < le_sequence (sv_event x)) ys"

definition pendingEvents :: "string \<Rightarrow> JournalDb \<Rightarrow> RuntimeLocalServiceEvent list" where
  "pendingEvents pid db =
     map sv_event (take 16 (foldr insEvent (filter (\<lambda>x. \<not> sv_acknowledged x) (eventsOf db pid)) []))"

definition acknowledgeEvents :: "string \<Rightarrow> int \<Rightarrow> EntryRow \<Rightarrow> JournalDb \<Rightarrow> (unit \<times> JournalDb) result" where
  "acknowledgeEvents pid seq row db =
     (let top = foldr (\<lambda>x m. max (le_sequence (sv_event x)) m) (eventsOf db pid) (-1) in
      if top < seq then Inl (BridgeJournalError ''SERVICE_ACK_INVALID'')
      else Inr ((), db\<lparr>db_events := map (\<lambda>x. if sv_operationId x = pid \<and> le_sequence (sv_event x) \<le> seq
        then x\<lparr>sv_acknowledged := True\<rparr> else x) (db_events db)\<rparr>))"

section \<open>Inputs\<close>

text \<open>The request an input answers, among the \<open>input_request\<close> events in insertion order.\<close>

definition requestOf :: "JournalDb \<Rightarrow> string \<Rightarrow> string \<Rightarrow> RuntimeLocalServiceRequest option" where
  "requestOf db pid requestId = List.find (\<lambda>r. lr_requestId r = requestId)
     (concat (map (\<lambda>x. case le_body (sv_event x) of Event_input_request r \<Rightarrow> [r] | _ \<Rightarrow> []) (eventsOf db pid)))"

definition inputDigest :: "RuntimeLocalServiceInput \<Rightarrow> string result" where
  "inputDigest input = bridgeDigest (JObj [(''kind'', JStr (inputKindStr (li_kind input))), (''text'', JStr (li_text input))])"

definition prepareInput ::
  "string \<Rightarrow> RuntimeLocalServiceInput \<Rightarrow> int \<Rightarrow> EntryRow \<Rightarrow> JournalDb \<Rightarrow> (bool \<times> JournalDb) result" where
  "prepareInput pid input now row db =
     (case List.find (\<lambda>x. li_requestId (si_input x) = li_requestId input) (inputsOf db pid) of
        Some prior \<Rightarrow>
          if canonicalRuntimeBridgeJson (serviceInputJson (si_input prior)) \<noteq> canonicalRuntimeBridgeJson (serviceInputJson input)
          then Inl (BridgeJournalError ''SERVICE_INPUT_CONFLICT'')
          else if \<not> si_delivered prior then Inl (BridgeJournalError ''SERVICE_INPUT_EFFECT_UNKNOWN'')
          else Inr (False, db)
      | None \<Rightarrow>
          let count = length (inputsOf db pid) in
          (case requestOf db pid (li_requestId input) of
             None \<Rightarrow> Inl (BridgeJournalError ''SERVICE_INPUT_REQUEST_MISMATCH'')
           | Some r \<Rightarrow>
               if lr_sequence r \<noteq> li_sequence input \<or> li_sequence input \<noteq> int count \<or> lr_expiresAt r \<noteq> li_expiresAt input \<or>
                  (case dateParse (li_expiresAt input) of Some t \<Rightarrow> t \<le> now | None \<Rightarrow> False) \<or>
                  lr_maxBytes r < int (byteLength (li_text input)) \<or> 16 \<le> count
               then Inl (BridgeJournalError ''SERVICE_INPUT_REQUEST_MISMATCH'')
               else if li_inputId input \<in> (\<lambda>x. li_inputId (si_input x)) ` set (db_inputs db)
               then Inl (JsError ''UNIQUE constraint failed'')
               else Inr (True, db\<lparr>db_inputs := db_inputs db @
                 [\<lparr>si_operationId = pid, si_input = input, si_delivered = False\<rparr>]\<rparr>)))"

section \<open>Source updates\<close>

definition updateIdOf :: "jsval \<Rightarrow> string" where
  "updateIdOf u = strOf (jget ''updateId'' u)"

definition prepareSource :: "string \<Rightarrow> jsval \<Rightarrow> EntryRow \<Rightarrow> JournalDb \<Rightarrow> (bool \<times> JournalDb) result" where
  "prepareSource pid update row db =
     andThen (canonicalRuntimeBridgeJson update) (\<lambda>body.
     case List.find (\<lambda>x. updateIdOf (so_update x) = updateIdOf update) (sourcesOf db pid) of
       Some prior \<Rightarrow>
         if canonicalRuntimeBridgeJson (so_update prior) \<noteq> Inr body then Inl (BridgeJournalError ''SERVICE_SOURCE_CONFLICT'')
         else if \<not> so_delivered prior then Inl (BridgeJournalError ''SERVICE_SOURCE_EFFECT_UNKNOWN'')
         else Inr (False, db)
     | None \<Rightarrow>
         let a = argumentsOf (en_dispatch row) in
         if capabilityOf (en_dispatch row) \<noteq> JStr ''local.process.execute'' \<or>
            \<not> jtruthy (jget ''projectService'' (jget ''background'' a)) \<or>
            jget ''projectId'' (jget ''project'' (jget ''projectSource'' a)) \<noteq> jget ''projectId'' (jget ''project'' update) \<or>
            8 \<le> length (sourcesOf db pid)
         then Inl (BridgeJournalError ''SERVICE_SOURCE_IDENTITY'')
         else Inr (True, db\<lparr>db_sources := db_sources db @
           [\<lparr>so_operationId = pid, so_update = update, so_delivered = False, so_receipt = None, so_acknowledged = False\<rparr>]\<rparr>))"

definition validSourceReceipt :: "platform \<Rightarrow> SourceReceipt \<Rightarrow> bool" where
  "validSourceReceipt P r \<longleftrightarrow> zUuid P (sr_updateId r) \<and> checksumOk (sr_sourceDigest r)"

definition sourceApplied :: "string \<Rightarrow> SourceReceipt \<Rightarrow> EntryRow \<Rightarrow> JournalDb \<Rightarrow> (unit \<times> JournalDb) result" where
  "sourceApplied pid receipt row db =
     (case List.find (\<lambda>x. updateIdOf (so_update x) = sr_updateId receipt) (sourcesOf db pid) of
        None \<Rightarrow> Inl (BridgeJournalError ''SERVICE_SOURCE_CONFLICT'')
      | Some prior \<Rightarrow>
          if jget ''sourceDigest'' (jget ''snapshot'' (so_update prior)) \<noteq> JStr (sr_sourceDigest receipt) \<or>
             (so_receipt prior \<noteq> None \<and> so_receipt prior \<noteq> Some receipt)
          then Inl (BridgeJournalError ''SERVICE_SOURCE_CONFLICT'')
          else Inr ((), db\<lparr>db_sources := map (\<lambda>x. if so_operationId x = pid \<and> updateIdOf (so_update x) = sr_updateId receipt
            then x\<lparr>so_delivered := True, so_receipt := Some receipt\<rparr> else x) (db_sources db)\<rparr>))"

definition pendingSources :: "string \<Rightarrow> JournalDb \<Rightarrow> SourceReceipt option list" where
  "pendingSources pid db = map so_receipt (take 1 (filter (\<lambda>x. so_delivered x \<and> \<not> so_acknowledged x) (sourcesOf db pid)))"

fun acknowledgeSources :: "platform \<Rightarrow> string \<Rightarrow> SourceReceipt list \<Rightarrow> EntryRow \<Rightarrow> JournalDb \<Rightarrow> (unit \<times> JournalDb) result" where
  "acknowledgeSources P pid [] row db = Inr ((), db)"
| "acknowledgeSources P pid (receipt # rs) row db =
     andThen (need (validSourceReceipt P receipt) ZodError) (\<lambda>_. case List.find (\<lambda>x. updateIdOf (so_update x) = sr_updateId receipt \<and> so_delivered x) (sourcesOf db pid) of
        None \<Rightarrow> Inl (BridgeJournalError ''SERVICE_SOURCE_ACK'')
      | Some r \<Rightarrow>
          if so_receipt r \<noteq> Some receipt then Inl (BridgeJournalError ''SERVICE_SOURCE_ACK'')
          else acknowledgeSources P pid rs row (db\<lparr>db_sources := map (\<lambda>x. if so_operationId x = pid \<and>
            updateIdOf (so_update x) = sr_updateId receipt then x\<lparr>so_acknowledged := True\<rparr> else x) (db_sources db)\<rparr>))"

end
