(* ===== verification/JournalRuns.thy ===== *)
theory JournalRuns
  imports ServiceJournal
begin

text \<open>
  Runs of the bridge journal: any sequence of calls of the two classes, of crashes and of reopenings.
  A crash ends the process between two transactions; a disk failure inside one rolls it back and
  poisons the journal, which is the same to the tables.  Shown for every run: the shape of the receipts
  of each operation, that nothing recorded is lost or rewritten, and that a permission to act (to begin
  an execution, to call a tool, to write an input, to apply a source) is given at most once.
\<close>

datatype JournalCall =
    Call_receive nat string RuntimeBridgeDispatch
  | Call_begin string
  | Call_mcp string string string
  | Call_outcome Fresh string OutcomeInput
  | Call_stopped Fresh string jsval string
  | Call_uncertain Fresh string UncertainReason "BridgeEvidence option"
  | Call_output string int string string
  | Call_ackOutput string int
  | Call_ackReceipt string
  | Call_changeset string nat jsval
  | Call_reconcilePdf Fresh string jsval
  | Call_reconcilePython Fresh string jsval
  | Call_reconcileCommand Fresh string jsval
  | Call_event string RuntimeLocalServiceEvent
  | Call_ackEvents string int
  | Call_input string RuntimeLocalServiceInput int
  | Call_source string jsval
  | Call_sourceApplied string SourceReceipt
  | Call_ackSources string "SourceReceipt list"
  | Call_diskFailure
  | Call_close
  | Call_reopen "nat \<Rightarrow> Fresh"

datatype JournalReply =
    Reply_done
  | Reply_new bool
  | Reply_start string
  | Reply_receipt RuntimeBridgeReceipt
  | Reply_output RuntimeBridgeOutput

definition replyWith :: "('a \<Rightarrow> JournalReply) \<Rightarrow> ('a \<times> JournalDb) result \<Rightarrow> (JournalReply \<times> JournalDb) result" where
  "replyWith f r = andThen r (\<lambda>(x, db). Inr (f x, db))"

definition parsed :: "('a \<Rightarrow> 'b option) \<Rightarrow> 'a \<Rightarrow> ('b \<Rightarrow> (JournalReply \<times> JournalDb) result) \<Rightarrow> (JournalReply \<times> JournalDb) result" where
  "parsed schema x f = (case schema x of None \<Rightarrow> Inl ZodError | Some y \<Rightarrow> f y)"

text \<open>
  The tests a method makes before the guard, and those between the guard and the transaction.  An error
  of theirs leaves the journal as it is.
\<close>

fun journalBefore :: "JournalConfig \<Rightarrow> JournalCall \<Rightarrow> unit result" where
  "journalBefore C (Call_event pid event) =
     andThen (need (validServiceEvent (jc_platform C) event) ZodError) (\<lambda>_.
     need (le_processId event = pid) (BridgeJournalError ''SERVICE_JOURNAL_IDENTITY''))"
| "journalBefore C (Call_ackEvents pid seq) = need (-1 \<le> seq \<and> seq \<le> 63) (BridgeJournalError ''SERVICE_ACK_INVALID'')"
| "journalBefore C (Call_input pid input now) =
     andThen (need (validServiceInput (jc_platform C) input) ZodError) (\<lambda>_.
     andThen (inputDigest input) (\<lambda>digest. need (li_digest input = digest) (BridgeJournalError ''SERVICE_INPUT_DIGEST'')))"
| "journalBefore C (Call_source pid update) = need (jc_sourceUpdate C update \<noteq> None) ZodError"
| "journalBefore C (Call_sourceApplied pid receipt) = need (validSourceReceipt (jc_platform C) receipt) ZodError"
| "journalBefore C _ = Inr ()"

fun journalWithin :: "JournalConfig \<Rightarrow> JournalCall \<Rightarrow> unit result" where
  "journalWithin C (Call_mcp pid requestId digest) =
     need (lenIn 1 128 requestId \<and> list_all mcpIdChar requestId \<and> checksumOk digest) (BridgeJournalError ''MCP_INVALID_CALL_INTENT'')"
| "journalWithin C (Call_changeset pid index result) = need (jc_changesetFile C result \<noteq> None) ZodError"
| "journalWithin C (Call_reconcilePdf fr pid result) = need (jc_pdfResult C result \<noteq> None) ZodError"
| "journalWithin C (Call_reconcilePython fr pid result) = need (jc_pythonResult C result \<noteq> None) ZodError"
| "journalWithin C (Call_reconcileCommand fr pid result) = need (jc_commandResult C result \<noteq> None) ZodError"
| "journalWithin C _ = Inr ()"

text \<open>The action of a call, inside its transaction.\<close>

fun journalAction :: "JournalConfig \<Rightarrow> JournalCall \<Rightarrow> JournalDb \<Rightarrow> (JournalReply \<times> JournalDb) result" where
  "journalAction C (Call_begin pid) db = replyWith Reply_start (beginExecution pid db)"
| "journalAction C (Call_mcp pid requestId digest) db = replyWith (\<lambda>_. Reply_done) (prepareMcpCall pid requestId digest db)"
| "journalAction C (Call_outcome fr pid r) db = replyWith Reply_receipt (outcome C fr pid r db)"
| "journalAction C (Call_stopped fr pid out summary) db = replyWith Reply_receipt (stopped C fr pid out summary db)"
| "journalAction C (Call_uncertain fr pid reason evidence) db = replyWith Reply_receipt (uncertain C fr pid reason evidence db)"
| "journalAction C (Call_output pid seq stream txt) db = replyWith Reply_output (recordOutput C pid seq stream txt db)"
| "journalAction C (Call_ackOutput pid seq) db = replyWith (\<lambda>_. Reply_done) (acknowledgeOutput pid seq db)"
| "journalAction C (Call_ackReceipt receiptId) db = replyWith (\<lambda>_. Reply_done) (acknowledgeReceipt receiptId db)"
| "journalAction C (Call_changeset pid index result) db =
     parsed (jc_changesetFile C) result (\<lambda>v. replyWith (\<lambda>_. Reply_done) (changesetCheckpoint C pid index v db))"
| "journalAction C (Call_reconcilePdf fr pid result) db =
     parsed (jc_pdfResult C) result (\<lambda>v. replyWith Reply_receipt (reconcileLocalPdf C fr pid v db))"
| "journalAction C (Call_reconcilePython fr pid result) db =
     parsed (jc_pythonResult C) result (\<lambda>v. replyWith Reply_receipt (reconcileLocalPython C fr pid v db))"
| "journalAction C (Call_reconcileCommand fr pid result) db =
     parsed (jc_commandResult C) result (\<lambda>v. replyWith Reply_receipt (reconcileLocalCommand C fr pid v db))"
| "journalAction C (Call_event pid event) db = replyWith (\<lambda>_. Reply_done) (serviceAccess pid (serviceEvent pid event) db)"
| "journalAction C (Call_ackEvents pid seq) db = replyWith (\<lambda>_. Reply_done) (serviceAccess pid (acknowledgeEvents pid seq) db)"
| "journalAction C (Call_input pid input now) db = replyWith Reply_new (serviceAccess pid (prepareInput pid input now) db)"
| "journalAction C (Call_source pid update) db =
     parsed (jc_sourceUpdate C) update (\<lambda>v. replyWith Reply_new (serviceAccess pid (prepareSource pid v) db))"
| "journalAction C (Call_sourceApplied pid receipt) db = replyWith (\<lambda>_. Reply_done) (serviceAccess pid (sourceApplied pid receipt) db)"
| "journalAction C (Call_ackSources pid receipts) db =
     replyWith (\<lambda>_. Reply_done) (serviceAccess pid (acknowledgeSources (jc_platform C) pid receipts) db)"
| "journalAction C _ db = Inr (Reply_done, db)"

definition mapReply :: "('a \<Rightarrow> 'b) \<Rightarrow> 'a result \<times> BridgeJournal \<Rightarrow> 'b result \<times> BridgeJournal" where
  "mapReply f r = (andThen (fst r) (\<lambda>x. Inr (f x)), snd r)"

text \<open>A method with its tests, its guard and its transaction.\<close>

definition methodCall ::
  "JournalConfig \<Rightarrow> FileStat result \<times> FileStat result \<Rightarrow> JournalCall \<Rightarrow> BridgeJournal \<Rightarrow> JournalReply result \<times> BridgeJournal" where
  "methodCall C ob call j = (case journalBefore C call of
     Inl e \<Rightarrow> (Inl e, j)
   | Inr _ \<Rightarrow> guarded C ob (\<lambda>j. case journalWithin C call of
         Inl e \<Rightarrow> (Inl e, j) | Inr _ \<Rightarrow> transaction (journalAction C call) j) j)"

text \<open>One call; \<open>ob\<close> is what the guard finds on the disk.\<close>

fun journalCall ::
  "JournalConfig \<Rightarrow> FileStat result \<times> FileStat result \<Rightarrow> JournalCall \<Rightarrow> BridgeJournal \<Rightarrow> JournalReply result \<times> BridgeJournal" where
  "journalCall C ob (Call_receive used fresh d) j = mapReply Reply_new (receive C ob used fresh d j)"
| "journalCall C ob Call_diskFailure j = (Inl (JsError ''SQLITE_ERROR''), j\<lparr>bj_poisoned := True\<rparr>)"
| "journalCall C ob Call_close j = (Inr Reply_done, j\<lparr>bj_closed := True\<rparr>)"
| "journalCall C ob (Call_reopen fr) j = mapReply (\<lambda>_. Reply_done) (reopen C fr j)"
| "journalCall C ob call j = methodCall C ob call j"

fun runJournal ::
  "JournalConfig \<Rightarrow> ((FileStat result \<times> FileStat result) \<times> JournalCall) list \<Rightarrow> BridgeJournal \<Rightarrow>
   (JournalCall \<times> JournalReply result) list \<times> BridgeJournal" where
  "runJournal C [] j = ([], j)"
| "runJournal C ((ob, call) # calls) j = (case journalCall C ob call j of
     (r, j') \<Rightarrow> (case runJournal C calls j' of (rs, j'') \<Rightarrow> ((call, r) # rs, j'')))"

text \<open>A new, empty journal.\<close>

definition emptyJournal :: BridgeJournal where
  "emptyJournal = \<lparr>bj_db = \<lparr>db_entries = [], db_outbox = [], db_output = [], db_mcp = [], db_changeset = [],
     db_events = [], db_inputs = [], db_sources = []\<rparr>, bj_closed = False, bj_poisoned = False\<rparr>"

section \<open>What holds of the tables\<close>

definition receiptsFor :: "OutboxRow list \<Rightarrow> string \<Rightarrow> RuntimeBridgeReceipt list" where
  "receiptsFor rows pid = map rx_receipt (filter (\<lambda>x. rx_operationId x = pid) rows)"

fun isUncertain :: "OpSignal \<Rightarrow> bool" where
  "isUncertain (SigUncertain _) = True"
| "isUncertain _ = False"

text \<open>
  What an entry has reported: nothing while it is active, one uncertainty while it is unknown, and when
  it is completed one known outcome, possibly after one uncertainty.
\<close>

fun reported :: "EntryState \<Rightarrow> OpSignal list \<Rightarrow> bool" where
  "reported Entry_received sigs = (sigs = [])"
| "reported Entry_executing sigs = (sigs = [])"
| "reported Entry_unknown sigs = (\<exists>u. sigs = [u] \<and> isUncertain u)"
| "reported Entry_completed sigs = (\<exists>f. knownOutcome f \<and> (sigs = [f] \<or> (\<exists>u. isUncertain u \<and> sigs = [u, f])))"

definition receiptFrom :: "JournalConfig \<Rightarrow> EntryRow \<Rightarrow> RuntimeBridgeReceipt \<Rightarrow> bool" where
  "receiptFrom C row r \<longleftrightarrow> validBridgeReceipt (jc_platform C) r \<and>
     br_attempt r = ab_attempt (op_binding (bd_snapshot (en_dispatch row))) \<and> br_leaseToken r = bd_leaseToken (en_dispatch row)"

definition entriesOk :: "JournalConfig \<Rightarrow> EntryRow list \<Rightarrow> OutboxRow list \<Rightarrow> bool" where
  "entriesOk C entries outbox \<longleftrightarrow> distinct (map en_operationId entries) \<and>
     distinct (map (\<lambda>x. br_receiptId (rx_receipt x)) outbox) \<and> rx_operationId ` set outbox \<subseteq> en_operationId ` set entries \<and>
     (\<forall>row \<in> set entries. reported (en_state row) (map br_signal (receiptsFor outbox (en_operationId row))) \<and>
        (\<forall>r \<in> set (receiptsFor outbox (en_operationId row)). receiptFrom C row r))"

definition outputOk :: "OutputRow list \<Rightarrow> bool" where
  "outputOk rows \<longleftrightarrow> (\<forall>pid. let out = filter (\<lambda>x. ox_operationId x = pid) rows in
     map (\<lambda>x. bo_sequence (ox_output x)) out = map int [0..<length out] \<and> contentBytes out \<le> 65536 \<and> length out \<le> 256)"

definition eventsOk :: "ServiceEventRow list \<Rightarrow> bool" where
  "eventsOk rows \<longleftrightarrow> (\<forall>pid. let ev = filter (\<lambda>x. sv_operationId x = pid) rows in
     map (\<lambda>x. le_sequence (sv_event x)) ev = map int [0..<length ev] \<and> length ev \<le> 64)"

definition inputsOk :: "ServiceInputRow list \<Rightarrow> bool" where
  "inputsOk rows \<longleftrightarrow> distinct (map (\<lambda>x. li_inputId (si_input x)) rows) \<and> (\<forall>pid. let inp = filter (\<lambda>x. si_operationId x = pid) rows in
     distinct (map (\<lambda>x. li_requestId (si_input x)) inp) \<and>
     map (\<lambda>x. li_sequence (si_input x)) inp = map int [0..<length inp] \<and> length inp \<le> 16)"

definition sourcesOk :: "ServiceSourceRow list \<Rightarrow> bool" where
  "sourcesOk rows \<longleftrightarrow> (\<forall>pid. let src = filter (\<lambda>x. so_operationId x = pid) rows in
     distinct (map (\<lambda>x. updateIdOf (so_update x)) src) \<and> length src \<le> 8)"

definition journalOk :: "JournalConfig \<Rightarrow> JournalDb \<Rightarrow> bool" where
  "journalOk C db \<longleftrightarrow> entriesOk C (db_entries db) (db_outbox db) \<and> outputOk (db_output db) \<and> distinct (map fst (db_mcp db)) \<and>
     distinct (map fst (db_changeset db)) \<and>
     eventsOk (db_events db) \<and> inputsOk (db_inputs db) \<and> sourcesOk (db_sources db)"

text \<open>
  What a later database keeps of an earlier one: in every table the rows grow, a row differing only as
  the relation of the table allows.
\<close>

fun stateRank :: "EntryState \<Rightarrow> nat" where
  "stateRank Entry_received = 0"
| "stateRank Entry_executing = 1"
| "stateRank Entry_unknown = 2"
| "stateRank Entry_completed = 3"

definition laterEntry :: "EntryRow \<Rightarrow> EntryRow \<Rightarrow> bool" where
  "laterEntry a b \<longleftrightarrow> (\<exists>st. b = a\<lparr>en_state := st\<rparr> \<and> stateRank (en_state a) \<le> stateRank st)"

definition laterReceipt :: "OutboxRow \<Rightarrow> OutboxRow \<Rightarrow> bool" where
  "laterReceipt a b \<longleftrightarrow> (\<exists>d. b = a\<lparr>rx_delivered := d\<rparr> \<and> (rx_delivered a \<longrightarrow> d))"

definition laterOutput :: "OutputRow \<Rightarrow> OutputRow \<Rightarrow> bool" where
  "laterOutput a b \<longleftrightarrow> (\<exists>d. b = a\<lparr>ox_delivered := d\<rparr> \<and> (ox_delivered a \<longrightarrow> d))"

definition laterEvent :: "ServiceEventRow \<Rightarrow> ServiceEventRow \<Rightarrow> bool" where
  "laterEvent a b \<longleftrightarrow> (\<exists>d. b = a\<lparr>sv_acknowledged := d\<rparr> \<and> (sv_acknowledged a \<longrightarrow> d))"

definition laterInput :: "ServiceInputRow \<Rightarrow> ServiceInputRow \<Rightarrow> bool" where
  "laterInput a b \<longleftrightarrow> (\<exists>d. b = a\<lparr>si_delivered := d\<rparr> \<and> (si_delivered a \<longrightarrow> d))"

definition laterSource :: "ServiceSourceRow \<Rightarrow> ServiceSourceRow \<Rightarrow> bool" where
  "laterSource a b \<longleftrightarrow> so_operationId b = so_operationId a \<and> so_update b = so_update a \<and> (so_delivered a \<longrightarrow> so_delivered b) \<and>
     (so_acknowledged a \<longrightarrow> so_acknowledged b) \<and> (so_receipt a \<noteq> None \<longrightarrow> so_receipt b = so_receipt a)"

text \<open>The checkpoint of a changeset file is replaced only as long as it is prepared.\<close>

definition laterFile :: "(string \<times> nat) \<times> jsval \<Rightarrow> (string \<times> nat) \<times> jsval \<Rightarrow> bool" where
  "laterFile a b \<longleftrightarrow> fst b = fst a \<and> (jget ''status'' (snd a) \<noteq> JStr ''prepared'' \<longrightarrow> snd b = snd a)"

definition journalOlder :: "JournalDb \<Rightarrow> JournalDb \<Rightarrow> bool" where
  "journalOlder a b \<longleftrightarrow> grows laterEntry (db_entries a) (db_entries b) \<and> grows laterReceipt (db_outbox a) (db_outbox b) \<and>
     grows laterOutput (db_output a) (db_output b) \<and> grows (=) (db_mcp a) (db_mcp b) \<and>
     grows laterFile (db_changeset a) (db_changeset b) \<and>
     grows laterEvent (db_events a) (db_events b) \<and> grows laterInput (db_inputs a) (db_inputs b) \<and>
     grows laterSource (db_sources a) (db_sources b)"

named_theorems later_defs

lemmas later_all [later_defs] = laterEntry_def laterReceipt_def laterOutput_def laterEvent_def laterInput_def laterSource_def
  laterFile_def

lemma later_refl [simp]:
  "laterEntry a a" "laterReceipt b b" "laterOutput c c" "laterEvent d d" "laterInput e e" "laterSource f f" "laterFile g g"
  by (auto simp: later_defs intro: exI [of _ "en_state a"] exI [of _ "rx_delivered b"] exI [of _ "ox_delivered c"]
    exI [of _ "sv_acknowledged d"] exI [of _ "si_delivered e"])

lemma later_marked [simp]:
  "laterReceipt b (b\<lparr>rx_delivered := True\<rparr>)" "laterOutput c (c\<lparr>ox_delivered := True\<rparr>)"
  "laterEvent d (d\<lparr>sv_acknowledged := True\<rparr>)" "laterInput e (e\<lparr>si_delivered := True\<rparr>)"
  "laterSource f (f\<lparr>so_acknowledged := True\<rparr>)"
  by (auto simp: later_defs)

lemma later_trans:
  "laterEntry a b \<Longrightarrow> laterEntry b c \<Longrightarrow> laterEntry a c" "laterReceipt a' b' \<Longrightarrow> laterReceipt b' c' \<Longrightarrow> laterReceipt a' c'"
  "laterOutput x y \<Longrightarrow> laterOutput y z \<Longrightarrow> laterOutput x z" "laterEvent d e \<Longrightarrow> laterEvent e f \<Longrightarrow> laterEvent d f"
  "laterInput u v \<Longrightarrow> laterInput v w \<Longrightarrow> laterInput u w" "laterSource p q \<Longrightarrow> laterSource q r \<Longrightarrow> laterSource p r"
  "laterFile k l \<Longrightarrow> laterFile l m \<Longrightarrow> laterFile k m"
  by (auto simp: later_defs)

lemma older_refl [simp]: "journalOlder db db"
  by (simp add: journalOlder_def grows_refl)

lemma older_trans: "journalOlder a b \<Longrightarrow> journalOlder b c \<Longrightarrow> journalOlder a c"
  unfolding journalOlder_def by (blast intro: grows_trans later_trans grows_trans [of "(=)"])

section \<open>Every action keeps it\<close>

text \<open>An accepted action keeps the invariant, and its result is a later database.\<close>

definition fine :: "JournalConfig \<Rightarrow> (JournalDb \<Rightarrow> ('a \<times> JournalDb) result) \<Rightarrow> bool" where
  "fine C action \<longleftrightarrow> (\<forall>db x db'. action db = Inr (x, db') \<longrightarrow> journalOk C db \<longrightarrow> journalOk C db' \<and> journalOlder db db')"

lemma fineI: "(\<And>db x db'. action db = Inr (x, db') \<Longrightarrow> journalOk C db \<Longrightarrow> journalOk C db' \<and> journalOlder db db') \<Longrightarrow> fine C action"
  by (simp add: fine_def)

lemma fineD: "fine C action \<Longrightarrow> action db = Inr (x, db') \<Longrightarrow> journalOk C db \<Longrightarrow> journalOk C db' \<and> journalOlder db db'"
  by (simp add: fine_def)

lemma find_Some: "List.find P xs = Some x \<Longrightarrow> x \<in> set xs \<and> P x"
  by (auto simp: find_Some_iff)

lemma entryOf_ok: "entryOf db pid = Inr row \<Longrightarrow> row \<in> set (db_entries db) \<and> en_operationId row = pid"
  by (auto simp: entryOf_def split: option.splits dest: find_Some)

lemma same_entry: "distinct (map en_operationId E) \<Longrightarrow> row \<in> set E \<Longrightarrow> x \<in> set E \<Longrightarrow> en_operationId x = en_operationId row \<Longrightarrow> x = row"
  by (metis distinct_map inj_onD)

lemma receiptsFor_append: "receiptsFor (xs @ ys) pid = receiptsFor xs pid @ receiptsFor ys pid"
  by (simp add: receiptsFor_def)

text \<open>One entry changes its state, and possibly reports something.\<close>

definition movedTo :: "string \<Rightarrow> EntryState \<Rightarrow> EntryRow list \<Rightarrow> EntryRow list" where
  "movedTo pid st entries = map (\<lambda>x. if en_operationId x = pid then x\<lparr>en_state := st\<rparr> else x) entries"

lemma movedTo_ids [simp]: "map en_operationId (movedTo pid st E) = map en_operationId E"
  by (simp add: movedTo_def)

lemma movedTo_set [simp]: "en_operationId ` set (movedTo pid st E) = en_operationId ` set E"
  by (metis list.set_map movedTo_ids)

lemma setState_movedTo: "setState pid st db = db\<lparr>db_entries := movedTo pid st (db_entries db)\<rparr>"
  by (simp add: setState_def movedTo_def)

lemma grows_movedTo:
  assumes "distinct (map en_operationId E)" "row \<in> set E" "stateRank (en_state row) \<le> stateRank st"
  shows "grows laterEntry E (movedTo (en_operationId row) st E)"
proof -
  have "laterEntry (E ! i) (movedTo (en_operationId row) st E ! i)" if "i < length E" for i
    using same_entry [OF assms(1,2), of "E ! i"] assms(3) that
    by (cases "en_operationId (E ! i) = en_operationId row") (auto simp: movedTo_def laterEntry_def [of row])
  then show ?thesis by (simp add: grows_def list_all2_conv_all_nth) (simp add: movedTo_def)
qed

lemma receiptFrom_state [simp]: "receiptFrom C (row\<lparr>en_state := st\<rparr>) r = receiptFrom C row r"
  by (simp add: receiptFrom_def)

lemma entries_move:
  assumes ok: "entriesOk C E R" and row: "row \<in> set E"
    and extra: "extra = [] \<or> (\<exists>r. extra = [\<lparr>rx_receipt = r, rx_operationId = en_operationId row, rx_delivered = False\<rparr>] \<and>
      receiptFrom C row r \<and> br_receiptId r \<notin> (\<lambda>x. br_receiptId (rx_receipt x)) ` set R)"
    and rep: "reported st (map br_signal (receiptsFor (R @ extra) (en_operationId row)))"
  shows "entriesOk C (movedTo (en_operationId row) st E) (R @ extra)"
proof -
  have d: "distinct (map en_operationId E)" using ok by (simp add: entriesOk_def)
  have other: "receiptsFor extra pid = []" if "pid \<noteq> en_operationId row" for pid
    using extra that by (auto simp: receiptsFor_def)
  have mine: "receiptFrom C row r" if "r \<in> set (receiptsFor extra (en_operationId row))" for r
    using extra that by (auto simp: receiptsFor_def)
  have "reported (en_state x) (map br_signal (receiptsFor (R @ extra) (en_operationId x))) \<and>
      (\<forall>r \<in> set (receiptsFor (R @ extra) (en_operationId x)). receiptFrom C x r)"
    if x: "x \<in> set (movedTo (en_operationId row) st E)" for x
  proof -
    from x obtain y where y: "y \<in> set E" "x = (if en_operationId y = en_operationId row then y\<lparr>en_state := st\<rparr> else y)"
      by (auto simp: movedTo_def)
    show ?thesis
    proof (cases "en_operationId y = en_operationId row")
      case True
      then have "y = row" using same_entry [OF d row y(1)] by simp
      then show ?thesis using y(2) rep ok row mine by (auto simp: entriesOk_def receiptsFor_append)
    next
      case False
      then show ?thesis using y ok other by (auto simp: entriesOk_def receiptsFor_append)
    qed
  qed
  moreover have "distinct (map (\<lambda>x. br_receiptId (rx_receipt x)) (R @ extra))"
    using extra ok by (auto simp: entriesOk_def image_iff)
  moreover have "rx_operationId ` set (R @ extra) \<subseteq> en_operationId ` set E" using extra ok row by (auto simp: entriesOk_def)
  ultimately show ?thesis using d by (auto simp: entriesOk_def)
qed

lemma entries_new:
  assumes "entriesOk C E R" "en_operationId row \<notin> en_operationId ` set E" "en_state row = Entry_received"
  shows "entriesOk C (E @ [row]) R"
proof -
  have "rx_operationId x \<noteq> en_operationId row" if "x \<in> set R" for x
    using assms(1,2) that by (metis entriesOk_def image_eqI in_mono)
  then have "receiptsFor R (en_operationId row) = []" by (simp add: receiptsFor_def filter_empty_conv)
  then show ?thesis using assms by (auto simp: entriesOk_def)
qed

lemma appendReceipt_ok:
  assumes "appendReceipt C fr row signal evidence db = Inr (r, db')"
  shows "receiptFrom C row r \<and> br_signal r = signal \<and> br_receiptId r \<notin> (\<lambda>x. br_receiptId (rx_receipt x)) ` set (db_outbox db) \<and>
    db' = db\<lparr>db_outbox := db_outbox db @ [\<lparr>rx_receipt = r, rx_operationId = en_operationId row, rx_delivered = False\<rparr>]\<rparr>"
  using assms by (auto simp: appendReceipt_def Let_def andThen_Inr_iff receiptFrom_def need_def split: if_splits)

text \<open>Reporting: the receipt is appended and the entry moves to a state of higher rank.\<close>

lemma report_fine:
  assumes "appendReceipt C fr row signal evidence db = Inr (r, db1)" "row \<in> set (db_entries db)" "journalOk C db"
    "\<And>sigs. reported (en_state row) sigs \<Longrightarrow> reported st (sigs @ [signal])" "stateRank (en_state row) \<le> stateRank st"
  shows "journalOk C (setState (en_operationId row) st db1) \<and> journalOlder db (setState (en_operationId row) st db1)"
proof -
  note a = appendReceipt_ok [OF assms(1)]
  have ok: "entriesOk C (db_entries db) (db_outbox db)" using assms(3) by (simp add: journalOk_def)
  then have rep: "reported (en_state row) (map br_signal (receiptsFor (db_outbox db) (en_operationId row)))"
    using assms(2) by (simp add: entriesOk_def)
  have "entriesOk C (movedTo (en_operationId row) st (db_entries db))
      (db_outbox db @ [\<lparr>rx_receipt = r, rx_operationId = en_operationId row, rx_delivered = False\<rparr>])"
    by (rule entries_move [OF ok assms(2)]) (use a assms(4) [OF rep] in \<open>auto simp: receiptsFor_append receiptsFor_def\<close>)
  moreover have "grows laterEntry (db_entries db) (movedTo (en_operationId row) st (db_entries db))"
    by (rule grows_movedTo) (use ok assms(2,5) in \<open>auto simp: entriesOk_def\<close>)
  ultimately show ?thesis using assms(3) a by (simp add: setState_movedTo journalOk_def journalOlder_def grows_refl)
qed

lemma reported_known: "knownOutcome f \<Longrightarrow> reported st sigs \<Longrightarrow> st \<noteq> Entry_completed \<Longrightarrow> reported Entry_completed (sigs @ [f])"
  by (cases st) auto

lemma finish_fine:
  assumes "finish C fr row evidence signal db = Inr (r, db')" "row \<in> set (db_entries db)" "journalOk C db"
    "en_state row \<noteq> Entry_completed" "\<And>ref. knownOutcome (signal ref)"
  shows "journalOk C db' \<and> journalOlder db db'"
proof -
  obtain digest db1 where d: "appendReceipt C fr row (signal \<lparr>ev_id = fr_evidenceId fr, ev_recordedAt = fr_now fr, ev_digest = digest\<rparr>)
      (Some evidence) db = Inr (r, db1)" "db' = setState (en_operationId row) Entry_completed db1"
    using assms(1) by (auto simp: finish_def andThen_Inr_iff)
  have "stateRank (en_state row) \<le> stateRank Entry_completed" by (cases "en_state row") auto
  then show ?thesis
    unfolding d(2) by (intro report_fine [OF d(1) assms(2,3)]) (use assms(4,5) reported_known in blast)+
qed

lemma active_open: "activeEntry row \<Longrightarrow> en_state row \<noteq> Entry_completed"
  by (auto simp: activeEntry_def)

lemma finish_action:
  assumes "\<And>db x db'. action db = Inr (x, db') \<Longrightarrow> \<exists>row evidence signal. finish C fr row evidence signal db = Inr (x, db') \<and>
    row \<in> set (db_entries db) \<and> en_state row \<noteq> Entry_completed \<and> (\<forall>ref. knownOutcome (signal ref))"
  shows "fine C action"
proof (rule fineI)
  fix db x db' assume a: "action db = Inr (x, db')" "journalOk C db"
  from assms [OF a(1)] obtain row evidence signal where f: "finish C fr row evidence signal db = Inr (x, db')"
    "row \<in> set (db_entries db)" "en_state row \<noteq> Entry_completed" "\<And>ref. knownOutcome (signal ref)" by blast
  show "journalOk C db' \<and> journalOlder db db'" by (rule finish_fine [OF f(1,2) a(2) f(3,4)])
qed

lemma outcome_fine: "fine C (outcome C fr pid r)"
  by (rule finish_action) (fastforce simp: outcome_def andThen_Inr_iff split: if_splits dest: entryOf_ok active_open)

lemma stopped_fine: "fine C (stopped C fr pid out summary)"
  by (rule finish_action) (fastforce simp: stopped_def andThen_Inr_iff split: if_splits dest: entryOf_ok active_open)

lemma uncertain_fine: "fine C (uncertain C fr pid reason evidence)"
proof (rule fineI)
  fix db x db' assume u: "uncertain C fr pid reason evidence db = Inr (x, db')" "journalOk C db"
  then obtain row db1 where r: "entryOf db pid = Inr row" "activeEntry row"
    "appendReceipt C fr row (SigUncertain reason) evidence db = Inr (x, db1)" "db' = setState pid Entry_unknown db1"
    by (auto simp: uncertain_def andThen_Inr_iff split: if_splits)
  note e = entryOf_ok [OF r(1)]
  have "reported Entry_unknown (sigs @ [SigUncertain reason])" if "reported (en_state row) sigs" for sigs
    using that r(2) by (auto simp: activeEntry_def)
  moreover have "stateRank (en_state row) \<le> stateRank Entry_unknown" using r(2) by (auto simp: activeEntry_def)
  ultimately show "journalOk C db' \<and> journalOlder db db'"
    using report_fine [OF r(3) _ u(2)] e unfolding r(4) by blast
qed

lemma reconciled_known [simp]: "knownOutcome (reconciledSignal c s ref)"
  by (simp add: reconciledSignal_def)

lemma reconcile_fine: "fine C (reconcileLocalPdf C fr pid v)" "fine C (reconcileLocalPython C fr pid v)" "fine C (reconcileLocalCommand C fr pid v)"
  by (rule finish_action, fastforce simp: reconcileLocalPdf_def reconcileLocalPython_def reconcileLocalCommand_def reconcileProcess_def
    andThen_Inr_iff split: if_splits dest: entryOf_ok)+

lemma receive_fine: "fine C (receiveDispatch C used fresh d fingerprint)"
proof (rule fineI)
  fix db x db' assume r: "receiveDispatch C used fresh d fingerprint db = Inr (x, db')" "journalOk C db"
  show "journalOk C db' \<and> journalOlder db db'"
  proof (cases "List.find (\<lambda>r. en_operationId r = operationIdOf d) (db_entries db)")
    case None
    then have "operationIdOf d \<notin> en_operationId ` set (db_entries db)" by (auto simp: find_None_iff)
    then show ?thesis
      using r None entries_new [of C "db_entries db" "db_outbox db"]
      by (auto simp: receiveDispatch_def Let_def andThen_Inr_iff journalOk_def journalOlder_def grows_refl split: if_splits)
  qed (use r in \<open>auto simp: receiveDispatch_def split: if_splits\<close>)
qed

lemma begin_fine: "fine C (beginExecution pid)"
proof (rule fineI)
  fix db x db' assume b: "beginExecution pid db = Inr (x, db')" "journalOk C db"
  then obtain row where r: "entryOf db pid = Inr row" "en_state row = Entry_received" "db' = setState pid Entry_executing db"
    by (auto simp: beginExecution_def andThen_Inr_iff split: if_splits)
  note e = entryOf_ok [OF r(1)]
  have ok: "entriesOk C (db_entries db) (db_outbox db)" using b(2) by (simp add: journalOk_def)
  then have "receiptsFor (db_outbox db) pid = []" using e r(2) by (auto simp: entriesOk_def)
  then have "entriesOk C (movedTo pid Entry_executing (db_entries db)) (db_outbox db)"
    using entries_move [OF ok, of row "[]" Entry_executing] e by simp
  moreover have "grows laterEntry (db_entries db) (movedTo pid Entry_executing (db_entries db))"
    using grows_movedTo [of "db_entries db" row Entry_executing] e r(2) ok by (auto simp: entriesOk_def)
  ultimately show "journalOk C db' \<and> journalOlder db db'"
    using b(2) unfolding r(3) by (simp add: setState_movedTo journalOk_def journalOlder_def grows_refl)
qed

lemma mcp_fine: "fine C (prepareMcpCall pid requestId digest)"
  by (rule fineI) (auto simp: prepareMcpCall_def andThen_Inr_iff journalOk_def journalOlder_def grows_refl split: if_splits)

lemma rewrite_prepared:
  assumes "distinct (map fst rows)" "map_of rows key = Some previous" "jget ''status'' previous = JStr ''prepared''"
  shows "grows laterFile rows (map (\<lambda>(k, v). if k = key then (k, result) else (k, v)) rows) \<and>
    distinct (map fst (map (\<lambda>(k, v). if k = key then (k, result) else (k, v)) rows))"
proof -
  have "laterFile (k, v) (if k = key then (k, result) else (k, v))" if "(k, v) \<in> set rows" for k v
    using map_of_is_SomeI [OF assms(1) that] assms(2,3) by (cases "k = key") (simp_all add: laterFile_def)
  then have "grows laterFile rows (map (\<lambda>(k, v). if k = key then (k, result) else (k, v)) rows)"
    by (auto intro!: grows_map)
  moreover have "map fst (map (\<lambda>(k, v). if k = key then (k, result) else (k, v)) rows) = map fst rows" by auto
  ultimately show ?thesis using assms(1) by metis
qed

lemma changeset_fine: "fine C (changesetCheckpoint C pid index result)"
proof (rule fineI)
  fix db x db' assume r: "changesetCheckpoint C pid index result db = Inr (x, db')" "journalOk C db"
  then have d: "distinct (map fst (db_changeset db))" by (simp add: journalOk_def)
  show "journalOk C db' \<and> journalOlder db db'"
  proof (cases "map_of (db_changeset db) (pid, index)")
    case None
    then have "(pid, index) \<notin> fst ` set (db_changeset db)" by (simp add: map_of_eq_None_iff)
    then show ?thesis using r None
      by (auto simp: changesetCheckpoint_def andThen_Inr_iff Let_def journalOk_def journalOlder_def grows_refl split: if_splits)
  next
    case (Some previous)
    then have p: "jget ''status'' previous = JStr ''prepared''" "db' = db\<lparr>db_changeset :=
        map (\<lambda>(k, v). if k = (pid, index) then (k, result) else (k, v)) (db_changeset db)\<rparr>"
      using r(1) by (auto simp: changesetCheckpoint_def andThen_Inr_iff Let_def split: if_splits)
    from rewrite_prepared [OF d Some p(1), of result] show ?thesis
      using r(2) unfolding p(2) by (simp add: journalOk_def journalOlder_def grows_refl del: map_map)
  qed
qed

text \<open>Rows that are numbered from 0 in order.\<close>

lemma next_numbered: "map (\<lambda>x. bo_sequence (ox_output x)) rows = map int [0..<length rows] \<Longrightarrow> nextSequence rows = int (length rows)"
proof (induction rows rule: rev_induct)
  case (snoc x xs)
  have m: "nextSequence (ys @ [y]) = max (nextSequence ys) (max (bo_sequence (ox_output y) + 1) 0)" for ys y
    by (induction ys) (auto simp: nextSequence_def)
  have "map (\<lambda>x. bo_sequence (ox_output x)) xs = map int [0..<length xs]" "bo_sequence (ox_output x) = int (length xs)"
    using snoc.prems by simp_all
  then show ?case using snoc.IH by (simp add: m)
qed (simp add: nextSequence_def)

lemma contentBytes_append [simp]: "contentBytes (xs @ ys) = contentBytes xs + contentBytes ys"
  by (simp add: contentBytes_def)

lemma output_append:
  assumes "outputOk rows" "out = filter (\<lambda>x. ox_operationId x = pid) rows" "ox_operationId x = pid"
    "bo_sequence (ox_output x) = int (length out)" "length out \<le> 255" "contentBytes out + ox_bytes x \<le> 65536"
  shows "outputOk (rows @ [x])"
  using assms by (auto simp: outputOk_def Let_def contentBytes_def)

lemma output_fine: "fine C (recordOutput C pid seq stream txt)"
proof (rule fineI)
  fix db x db' assume r: "recordOutput C pid seq stream txt db = Inr (x, db')" "journalOk C db"
  show "journalOk C db' \<and> journalOlder db db'"
  proof (cases "db' = db")
    case False
    let ?out = "filter (\<lambda>x. ox_operationId x = pid) (db_output db)"
    obtain o' where o: "db' = db\<lparr>db_output := db_output db @ [\<lparr>ox_operationId = pid, ox_output = o', ox_bytes = byteLength txt, ox_delivered = False\<rparr>]\<rparr>"
      "bo_sequence o' = seq" "nextSequence ?out = seq" "seq \<le> 255" "contentBytes ?out + byteLength txt \<le> 65536"
      using r(1) False
      by (fastforce simp: recordOutput_def Let_def andThen_Inr_iff need_def validBridgeOutput_def outputsOf_def split: if_splits option.splits)
    have ok: "outputOk (db_output db)" using r(2) by (simp add: journalOk_def)
    then have "nextSequence ?out = int (length ?out)" by (intro next_numbered) (simp add: outputOk_def Let_def)
    then have "outputOk (db_output db')" unfolding o(1) using o by (auto intro!: output_append [OF ok refl])
    then show ?thesis using r(2) unfolding o(1) by (simp add: journalOk_def journalOlder_def grows_refl)
  qed (use r in simp)
qed

text \<open>Marking rows changes nothing that the invariant reads.\<close>

lemma filter_mark: "(\<And>x. P (f x) = P x) \<Longrightarrow> filter P (map f rows) = map f (filter P rows)"
  by (simp add: filter_map comp_def)

lemma outputOk_mark:
  assumes "\<And>x. ox_operationId (f x) = ox_operationId x" "\<And>x. ox_output (f x) = ox_output x" "\<And>x. ox_bytes (f x) = ox_bytes x"
  shows "outputOk (map f rows) = outputOk rows"
  using assms by (simp add: outputOk_def filter_mark contentBytes_def comp_def Let_def)

lemma eventsOk_mark:
  assumes "\<And>x. sv_operationId (f x) = sv_operationId x" "\<And>x. sv_event (f x) = sv_event x"
  shows "eventsOk (map f rows) = eventsOk rows"
  using assms by (simp add: eventsOk_def filter_mark comp_def Let_def)

lemma inputsOk_mark:
  assumes "\<And>x. si_operationId (f x) = si_operationId x" "\<And>x. si_input (f x) = si_input x"
  shows "inputsOk (map f rows) = inputsOk rows"
  using assms by (simp add: inputsOk_def filter_mark comp_def Let_def)

lemma sourcesOk_mark:
  assumes "\<And>x. so_operationId (f x) = so_operationId x" "\<And>x. so_update (f x) = so_update x"
  shows "sourcesOk (map f rows) = sourcesOk rows"
  using assms by (simp add: sourcesOk_def filter_mark comp_def Let_def)

lemma entriesOk_mark:
  assumes "\<And>x. rx_operationId (f x) = rx_operationId x" "\<And>x. rx_receipt (f x) = rx_receipt x"
  shows "entriesOk C E (map f rows) = entriesOk C E rows"
  using assms by (simp add: entriesOk_def receiptsFor_def filter_mark comp_def image_comp)

lemma ack_fine: "fine C (acknowledgeOutput pid seq)" "fine C (acknowledgeReceipt receiptId)"
  by (rule fineI, auto simp: acknowledgeOutput_def acknowledgeReceipt_def journalOk_def journalOlder_def grows_refl
    outputOk_mark entriesOk_mark intro!: grows_map)+

lemma access_fine: "(\<And>row. fine C (action row)) \<Longrightarrow> fine C (serviceAccess pid action)"
  by (rule fineI) (auto simp: serviceAccess_def andThen_Inr_iff split: if_splits dest: fineD)

lemma deliver_ok:
  assumes "deliverInput pid body db = Inr db'" "journalOk C db"
  shows "journalOk C db' \<and> journalOlder db db' \<and> db_events db' = db_events db"
  using assms
  by (auto simp: deliverInput_def Let_def journalOk_def journalOlder_def grows_refl inputsOk_mark intro!: grows_map
    split: ServiceEventBody.splits option.splits if_splits)

lemma events_append:
  assumes "eventsOk rows" "ev = filter (\<lambda>x. sv_operationId x = sv_operationId y) rows"
    "le_sequence (sv_event y) = int (length ev)" "length ev \<le> 63"
  shows "eventsOk (rows @ [y])"
  using assms by (auto simp: eventsOk_def Let_def)

lemma event_fine: "validServiceEvent P event \<Longrightarrow> fine C (serviceEvent pid event row)"
proof (rule fineI)
  fix db x db' assume v: "validServiceEvent P event" and r: "serviceEvent pid event row db = Inr (x, db')" "journalOk C db"
  show "journalOk C db' \<and> journalOlder db db'"
  proof (cases "db' = db")
    case False
    then obtain db1 where d: "deliverInput pid (le_body event) db = Inr db1" "int (length (eventsOf db pid)) = le_sequence event"
      "db' = db1\<lparr>db_events := db_events db1 @ [\<lparr>sv_operationId = pid, sv_event = event, sv_acknowledged = False\<rparr>]\<rparr>"
      using r(1) by (auto simp: serviceEvent_def andThen_Inr_iff split: if_splits option.splits)
    note ok = deliver_ok [OF d(1) r(2)]
    have "eventsOk (db_events db')"
      unfolding d(3) using ok d(2) v
      by (auto intro!: events_append [OF _ refl] simp: journalOk_def eventsOf_def validServiceEvent_def)
    moreover have "journalOlder db1 db'" unfolding d(3) by (simp add: journalOlder_def grows_refl)
    ultimately show ?thesis using ok older_trans unfolding d(3) by (auto simp: journalOk_def)
  qed (use r in simp)
qed

lemma ackEvents_fine: "fine C (acknowledgeEvents pid seq row)"
  by (rule fineI) (auto simp: acknowledgeEvents_def Let_def journalOk_def journalOlder_def grows_refl eventsOk_mark
    intro!: grows_map split: if_splits)

lemma inputs_append:
  assumes "inputsOk rows" "inp = filter (\<lambda>x. si_operationId x = si_operationId y) rows"
    "li_inputId (si_input y) \<notin> (\<lambda>x. li_inputId (si_input x)) ` set rows"
    "li_requestId (si_input y) \<notin> (\<lambda>x. li_requestId (si_input x)) ` set inp"
    "li_sequence (si_input y) = int (length inp)" "length inp \<le> 15"
  shows "inputsOk (rows @ [y])"
  using assms by (auto simp: inputsOk_def Let_def)

lemma input_fine: "fine C (prepareInput pid input now row)"
proof (rule fineI)
  fix db x db' assume r: "prepareInput pid input now row db = Inr (x, db')" "journalOk C db"
  show "journalOk C db' \<and> journalOlder db db'"
  proof (cases "List.find (\<lambda>x. li_requestId (si_input x) = li_requestId input) (inputsOf db pid)")
    case None
    then obtain q where q: "requestOf db pid (li_requestId input) = Some q" using r(1)
      by (cases "requestOf db pid (li_requestId input)") (auto simp: prepareInput_def Let_def)
    have n: "li_requestId input \<notin> (\<lambda>x. li_requestId (si_input x)) ` set (inputsOf db pid)" using None by (auto simp: find_None_iff)
    have d: "db' = db\<lparr>db_inputs := db_inputs db @ [\<lparr>si_operationId = pid, si_input = input, si_delivered = False\<rparr>]\<rparr>"
      "li_sequence input = int (length (inputsOf db pid))" "length (inputsOf db pid) \<le> 15"
      "li_inputId input \<notin> (\<lambda>x. li_inputId (si_input x)) ` set (db_inputs db)"
      using r(1) None q by (auto simp: prepareInput_def Let_def split: if_splits)
    have "inputsOk (db_inputs db')"
      unfolding d(1) using r(2) d(2-4) n by (auto intro!: inputs_append [OF _ refl] simp: journalOk_def inputsOf_def)
    then show ?thesis using r(2) unfolding d(1) by (simp add: journalOk_def journalOlder_def grows_refl)
  qed (use r in \<open>auto simp: prepareInput_def split: if_splits\<close>)
qed

lemma source_fine: "fine C (prepareSource pid update row)"
proof (rule fineI)
  fix db x db' assume r: "prepareSource pid update row db = Inr (x, db')" "journalOk C db"
  show "journalOk C db' \<and> journalOlder db db'"
  proof (cases "List.find (\<lambda>x. updateIdOf (so_update x) = updateIdOf update) (sourcesOf db pid)")
    case None
    have n: "updateIdOf update \<notin> (\<lambda>x. updateIdOf (so_update x)) ` set (sourcesOf db pid)" using None by (auto simp: find_None_iff)
    have d: "db' = db\<lparr>db_sources := db_sources db @
        [\<lparr>so_operationId = pid, so_update = update, so_delivered = False, so_receipt = None, so_acknowledged = False\<rparr>]\<rparr>"
      "length (sourcesOf db pid) \<le> 7"
      using r(1) None by (auto simp: prepareSource_def Let_def andThen_Inr_iff split: if_splits)
    have "sourcesOk (db_sources db')"
      unfolding d(1) using r(2) d(2) n by (auto simp: journalOk_def sourcesOf_def sourcesOk_def Let_def)
    then show ?thesis using r(2) unfolding d(1) by (simp add: journalOk_def journalOlder_def grows_refl)
  qed (use r in \<open>auto simp: prepareSource_def andThen_Inr_iff split: if_splits\<close>)
qed

lemma source_at:
  assumes "sourcesOk rows" "x \<in> set rows" "y \<in> set rows" "so_operationId x = so_operationId y"
    "updateIdOf (so_update x) = updateIdOf (so_update y)"
  shows "x = y"
proof -
  have "distinct (map (\<lambda>x. updateIdOf (so_update x)) (filter (\<lambda>x. so_operationId x = so_operationId y) rows))"
    using assms(1) by (simp add: sourcesOk_def Let_def)
  then show ?thesis using assms(2-) by (auto simp: distinct_map inj_on_def)
qed

lemma applied_fine: "fine C (sourceApplied pid receipt row)"
proof (rule fineI)
  fix db x db' assume r: "sourceApplied pid receipt row db = Inr (x, db')" "journalOk C db"
  then obtain prior where p: "prior \<in> set (db_sources db)" "so_operationId prior = pid" "updateIdOf (so_update prior) = sr_updateId receipt"
    "so_receipt prior = None \<or> so_receipt prior = Some receipt"
    "db' = db\<lparr>db_sources := map (\<lambda>x. if so_operationId x = pid \<and> updateIdOf (so_update x) = sr_updateId receipt
      then x\<lparr>so_delivered := True, so_receipt := Some receipt\<rparr> else x) (db_sources db)\<rparr>"
    by (auto simp: sourceApplied_def sourcesOf_def split: option.splits if_splits dest!: find_Some)
  have ok: "sourcesOk (db_sources db)" using r(2) by (simp add: journalOk_def)
  have "grows laterSource (db_sources db) (db_sources db')"
    unfolding p(5) grows_def
    using source_at [OF ok nth_mem p(1)] p(2-4) by (force simp: list_all2_conv_all_nth laterSource_def)
  then show "journalOk C db' \<and> journalOlder db db'"
    using r(2) unfolding p(5) by (simp add: journalOk_def journalOlder_def grows_refl sourcesOk_mark)
qed

lemma ackSources_fine: "fine C (acknowledgeSources P pid receipts row)"
proof (rule fineI)
  fix db x db' assume "acknowledgeSources P pid receipts row db = Inr (x, db')" "journalOk C db"
  then show "journalOk C db' \<and> journalOlder db db'"
  proof (induction receipts arbitrary: db)
    case (Cons receipt rs)
    let ?db = "db\<lparr>db_sources := map (\<lambda>x. if so_operationId x = pid \<and> updateIdOf (so_update x) = sr_updateId receipt
      then x\<lparr>so_acknowledged := True\<rparr> else x) (db_sources db)\<rparr>"
    have "acknowledgeSources P pid rs row ?db = Inr (x, db')"
      using Cons.prems(1) by (auto simp: andThen_Inr_iff split: option.splits if_splits)
    moreover have "journalOk C ?db" "journalOlder db ?db"
      using Cons.prems(2) by (auto simp: journalOk_def journalOlder_def grows_refl sourcesOk_mark intro!: grows_map)
    ultimately show ?case using Cons.IH [of ?db] older_trans [of db ?db db'] by blast
  qed simp
qed

section \<open>Runs\<close>

lemmas actions_fine = begin_fine mcp_fine outcome_fine stopped_fine uncertain_fine output_fine ack_fine changeset_fine reconcile_fine
  access_fine [OF event_fine] access_fine [OF ackEvents_fine] access_fine [OF input_fine] access_fine [OF source_fine]
  access_fine [OF applied_fine] access_fine [OF ackSources_fine]

lemma action_fine:
  assumes "journalBefore C call = Inr ()"
  shows "fine C (journalAction C call)"
proof (rule fineI)
  fix db x db' assume a: "journalAction C call db = Inr (x, db')" "journalOk C db"
  show "journalOk C db' \<and> journalOlder db db'"
  proof (cases call)
    case (Call_event pid event)
    then have "validServiceEvent (jc_platform C) event" using assms by (auto simp: andThen_Inr_iff need_def split: if_splits)
    then have "fine C (serviceAccess pid (serviceEvent pid event))" by (intro access_fine event_fine)
    from fineD [OF this] a Call_event show ?thesis by (auto simp: replyWith_def andThen_Inr_iff)
  qed (use a in \<open>auto simp: replyWith_def parsed_def andThen_Inr_iff split: option.splits dest!: actions_fine [THEN fineD]\<close>)
qed

lemma transaction_fine:
  "fine C action \<Longrightarrow> transaction action j = (r, j') \<Longrightarrow> journalOk C (bj_db j) \<Longrightarrow> journalOk C (bj_db j') \<and> journalOlder (bj_db j) (bj_db j')"
  by (auto simp: transaction_def split: sum.splits if_splits dest: fineD)

lemma guard_db: "guardJournal C ob j = (r, j') \<Longrightarrow> bj_db j' = bj_db j"
  by (auto simp: guardJournal_def split: if_splits sum.splits)

lemma guarded_fine:
  assumes "\<And>j r j'. action j = (r, j') \<Longrightarrow> journalOk C (bj_db j) \<Longrightarrow> journalOk C (bj_db j') \<and> journalOlder (bj_db j) (bj_db j')"
    "guarded C ob action j = (r, j')" "journalOk C (bj_db j)"
  shows "journalOk C (bj_db j') \<and> journalOlder (bj_db j) (bj_db j')"
proof -
  obtain x j1 where g: "guardJournal C ob j = (x, j1)" by (cases "guardJournal C ob j")
  show ?thesis using assms(2,3) assms(1) [of j1 r j'] guard_db [OF g] by (cases x) (auto simp: guarded_def g)
qed

lemma recoverEntry_fine: "fine C (recoverEntry C fr row)"
  by (rule fineI) (auto simp: recoverEntry_def recoverChangeset_def Let_def split: if_splits
    dest: fineD [OF outcome_fine] fineD [OF uncertain_fine])

lemma recover_fine:
  "recoverEntries C fr rows db = (r, db') \<Longrightarrow> journalOk C db \<Longrightarrow> journalOk C db' \<and> journalOlder db db'"
proof (induction rows arbitrary: fr db)
  case (Cons row rows)
  show ?case
  proof (cases "recoverEntry C (fr 0) row db")
    case (Inr p)
    then obtain x db1 where p: "recoverEntry C (fr 0) row db = Inr (x, db1)" by (cases p) auto
    then have "recoverEntries C (\<lambda>k. fr (Suc k)) rows db1 = (r, db')" using Cons.prems(1) by simp
    then show ?thesis using Cons.IH fineD [OF recoverEntry_fine p Cons.prems(2)] older_trans by blast
  qed (use Cons.prems in simp)
qed simp

lemma receive_call_fine:
  "receive C ob used fresh d j = (r, j') \<Longrightarrow> journalOk C (bj_db j) \<Longrightarrow> journalOk C (bj_db j') \<and> journalOlder (bj_db j) (bj_db j')"
  unfolding receive_def
  by (split sum.split_asm, simp, elim guarded_fine [rotated])
    (auto simp: Let_def split: if_splits sum.splits dest: transaction_fine [OF receive_fine])

lemma method_fine:
  assumes "methodCall C ob call j = (r, j')" "journalOk C (bj_db j)"
  shows "journalOk C (bj_db j') \<and> journalOlder (bj_db j) (bj_db j')"
proof (cases "journalBefore C call")
  case (Inr u)
  then have f: "fine C (journalAction C call)" by (intro action_fine) simp
  show ?thesis using assms Inr unfolding methodCall_def
    by (auto elim!: guarded_fine [rotated] split: sum.splits dest: transaction_fine [OF f])
qed (use assms in \<open>simp add: methodCall_def\<close>)

lemma call_fine:
  assumes "journalCall C ob call j = (r, j')" "journalOk C (bj_db j)"
  shows "journalOk C (bj_db j') \<and> journalOlder (bj_db j) (bj_db j')"
proof (cases call)
  case (Call_receive used fresh d)
  then show ?thesis using assms receive_call_fine [of C ob used fresh d j]
    by (cases "receive C ob used fresh d j") (auto simp: mapReply_def)
next
  case (Call_reopen fr)
  then show ?thesis using assms by (auto simp: mapReply_def reopen_def split: prod.splits dest: recover_fine)
qed (use assms method_fine in \<open>auto intro: method_fine\<close>)

lemma run_fine:
  "runJournal C calls j = (rs, j') \<Longrightarrow> journalOk C (bj_db j) \<Longrightarrow> journalOk C (bj_db j') \<and> journalOlder (bj_db j) (bj_db j')"
proof (induction calls arbitrary: j rs)
  case (Cons c calls)
  obtain ob call where c: "c = (ob, call)" by (cases c)
  obtain r j1 rs1 where s: "journalCall C ob call j = (r, j1)" "runJournal C calls j1 = (rs1, j')"
    using Cons.prems(1) unfolding c by (auto split: prod.splits)
  show ?case using Cons.IH [OF s(2)] call_fine [OF s(1) Cons.prems(2)] older_trans by blast
qed simp

lemma empty_ok [simp]: "journalOk C (bj_db emptyJournal)"
  by (simp add: emptyJournal_def journalOk_def entriesOk_def outputOk_def eventsOk_def inputsOk_def sourcesOk_def contentBytes_def)

section \<open>Permissions are given once\<close>

text \<open>
  The contract of a permission: a mark in the tables that no later database loses, absent when the
  permission is given and present afterwards.  Then no run gives it twice, whatever else happens,
  restarts included.
\<close>

locale journal_permit =
  fixes C :: JournalConfig
    and granted :: "JournalCall \<Rightarrow> JournalReply result \<Rightarrow> bool"
    and spent :: "JournalDb \<Rightarrow> bool"
  assumes keeps: "journalOlder a b \<Longrightarrow> spent a \<Longrightarrow> spent b"
    and grants: "journalCall C ob call j = (r, j') \<Longrightarrow> journalOk C (bj_db j) \<Longrightarrow> granted call r \<Longrightarrow>
      \<not> spent (bj_db j) \<and> spent (bj_db j')"
begin

lemma granted_once:
  "runJournal C calls j = (rs, j') \<Longrightarrow> journalOk C (bj_db j) \<Longrightarrow>
     length (filter (\<lambda>(c, r). granted c r) rs) \<le> (if spent (bj_db j) then 0 else 1)"
proof (induction calls arbitrary: j rs)
  case (Cons c calls)
  obtain ob call where c: "c = (ob, call)" by (cases c)
  obtain r j1 rs1 where s: "journalCall C ob call j = (r, j1)" "runJournal C calls j1 = (rs1, j')" "rs = (call, r) # rs1"
    using Cons.prems(1) unfolding c by (auto split: prod.splits)
  note f = call_fine [OF s(1) Cons.prems(2)]
  have "spent (bj_db j) \<Longrightarrow> spent (bj_db j1)" using f keeps by blast
  then show ?case using Cons.IH [OF s(2)] f grants [OF s(1) Cons.prems(2)] unfolding s(3) by (auto split: if_splits)
qed simp

end

lemma method_ok:
  "methodCall C ob call j = (Inr x, j') \<Longrightarrow> \<exists>db. journalBefore C call = Inr () \<and> journalWithin C call = Inr () \<and>
     journalAction C call (bj_db j) = Inr (x, db) \<and> bj_db j' = db"
  by (auto simp: methodCall_def guarded_def transaction_def split: sum.splits prod.splits dest!: guard_db)

lemma older_entry:
  "journalOlder a b \<Longrightarrow> row \<in> set (db_entries a) \<Longrightarrow>
     \<exists>st. row\<lparr>en_state := st\<rparr> \<in> set (db_entries b) \<and> stateRank (en_state row) \<le> stateRank st"
  using grows_member [of laterEntry "db_entries a" "db_entries b" row] by (auto simp: journalOlder_def laterEntry_def)

lemma rank_zero: "stateRank st = 0 \<longleftrightarrow> st = Entry_received"
  by (cases st) auto

definition claimed :: "string \<Rightarrow> JournalDb \<Rightarrow> bool" where
  "claimed pid db \<longleftrightarrow> (\<exists>row \<in> set (db_entries db). en_operationId row = pid \<and> en_state row \<noteq> Entry_received)"

definition grantsBegin :: "string \<Rightarrow> JournalCall \<Rightarrow> JournalReply result \<Rightarrow> bool" where
  "grantsBegin pid call r \<longleftrightarrow> call = Call_begin pid \<and> isOk r"

interpretation begin_permit: journal_permit C "grantsBegin pid" "claimed pid" for C pid
proof unfold_locales
  fix a b assume ab: "journalOlder a b" "claimed pid a"
  then obtain row where row: "row \<in> set (db_entries a)" "en_operationId row = pid" "en_state row \<noteq> Entry_received"
    by (auto simp: claimed_def)
  from older_entry [OF ab(1) row(1)] obtain st where st: "row\<lparr>en_state := st\<rparr> \<in> set (db_entries b)"
    "stateRank (en_state row) \<le> stateRank st" by blast
  then have "st \<noteq> Entry_received" using row(3) rank_zero by (metis le_zero_eq)
  then show "claimed pid b"
    unfolding claimed_def using st(1) row(2) by (intro bexI [of _ "row\<lparr>en_state := st\<rparr>"]) simp_all
next
  fix ob call j r j' assume j: "journalCall C ob call j = (r, j')" "journalOk C (bj_db j)" "grantsBegin pid call r"
  then obtain s where "methodCall C ob (Call_begin pid) j = (Inr s, j')" by (auto simp: grantsBegin_def isOk_iff)
  from method_ok [OF this] obtain row where row: "entryOf (bj_db j) pid = Inr row" "en_state row = Entry_received"
    "bj_db j' = setState pid Entry_executing (bj_db j)"
    by (auto simp: replyWith_def beginExecution_def andThen_Inr_iff split: if_splits)
  have "distinct (map en_operationId (db_entries (bj_db j)))" using j(2) by (simp add: journalOk_def entriesOk_def)
  note same = same_entry [OF this entryOf_ok [OF row(1), THEN conjunct1]]
  have "row\<lparr>en_state := Entry_executing\<rparr> \<in> set (db_entries (bj_db j'))"
    using entryOf_ok [OF row(1)] by (force simp: row(3) setState_def)
  then have "claimed pid (bj_db j')"
    unfolding claimed_def using entryOf_ok [OF row(1)] by (intro bexI [of _ "row\<lparr>en_state := Entry_executing\<rparr>"]) simp_all
  then show "\<not> claimed pid (bj_db j) \<and> claimed pid (bj_db j')"
    using row(2) entryOf_ok [OF row(1)] same by (auto simp: claimed_def)
qed

text \<open>Receiving a dispatch as new, calling a tool, writing an input, applying a source update.\<close>

definition grantsReceive :: "string \<Rightarrow> JournalCall \<Rightarrow> JournalReply result \<Rightarrow> bool" where
  "grantsReceive pid call r \<longleftrightarrow> (\<exists>used fresh d. call = Call_receive used fresh d \<and> operationIdOf d = pid) \<and> r = Inr (Reply_new True)"

definition grantsMcp :: "string \<Rightarrow> JournalCall \<Rightarrow> JournalReply result \<Rightarrow> bool" where
  "grantsMcp pid call r \<longleftrightarrow> (\<exists>requestId digest. call = Call_mcp pid requestId digest) \<and> isOk r"

definition grantsInput :: "string \<Rightarrow> string \<Rightarrow> JournalCall \<Rightarrow> JournalReply result \<Rightarrow> bool" where
  "grantsInput pid requestId call r \<longleftrightarrow>
     (\<exists>input now. call = Call_input pid input now \<and> li_requestId input = requestId) \<and> r = Inr (Reply_new True)"

definition grantsSource :: "JournalConfig \<Rightarrow> string \<Rightarrow> string \<Rightarrow> JournalCall \<Rightarrow> JournalReply result \<Rightarrow> bool" where
  "grantsSource C pid updateId call r \<longleftrightarrow>
     (\<exists>u v. call = Call_source pid u \<and> jc_sourceUpdate C u = Some v \<and> updateIdOf v = updateId) \<and> r = Inr (Reply_new True)"

lemma parsed_operation: "parseBridgeDispatch P schema d = Inr d' \<Longrightarrow> operationIdOf d' = operationIdOf d"
  by (auto simp: parseBridgeDispatch_def operationIdOf_def andThen_Inr_iff parseOpSnapshot_def split: if_splits)

lemma dispatch_new:
  "receiveDispatch C used fresh d fingerprint db = Inr (True, db') \<Longrightarrow>
     operationIdOf d \<notin> en_operationId ` set (db_entries db) \<and> operationIdOf d \<in> en_operationId ` set (db_entries db')"
  by (cases "List.find (\<lambda>r. en_operationId r = operationIdOf d) (db_entries db)")
    (auto simp: receiveDispatch_def Let_def andThen_Inr_iff find_None_iff split: if_splits)

lemma receive_new:
  assumes "receive C ob used fresh d j = (Inr True, j')"
  shows "operationIdOf d \<notin> en_operationId ` set (db_entries (bj_db j)) \<and> operationIdOf d \<in> en_operationId ` set (db_entries (bj_db j'))"
proof -
  from assms obtain d' j1 fingerprint where d: "parseBridgeDispatch (jc_platform C) (jc_payload C) d = Inr d'"
    "guardJournal C ob j = (Inr (), j1)" "receiveDispatch C used fresh d' fingerprint (bj_db j1) = Inr (True, bj_db j')"
    by (auto simp: receive_def guarded_def transaction_def Let_def split: sum.splits prod.splits if_splits)
  show ?thesis using dispatch_new [OF d(3)] guard_db [OF d(2)] parsed_operation [OF d(1)] by simp
qed

interpretation receive_permit: journal_permit C "grantsReceive pid" "\<lambda>db. pid \<in> en_operationId ` set (db_entries db)" for C pid
proof unfold_locales
  fix a b assume "journalOlder a b" "pid \<in> en_operationId ` set (db_entries a)"
  then show "pid \<in> en_operationId ` set (db_entries b)"
    by - (rule grows_image [of laterEntry "db_entries a"], auto simp: journalOlder_def laterEntry_def)
next
  fix ob call j r j' assume j: "journalCall C ob call j = (r, j')" "grantsReceive pid call r"
  then obtain used fresh d where "receive C ob used fresh d j = (Inr True, j')" "operationIdOf d = pid"
    by (auto simp: grantsReceive_def mapReply_def andThen_Inr_iff prod_eq_iff)
  then show "pid \<notin> en_operationId ` set (db_entries (bj_db j)) \<and> pid \<in> en_operationId ` set (db_entries (bj_db j'))"
    using receive_new by blast
qed

lemma mcp_new: "prepareMcpCall pid requestId digest db = Inr ((), db') \<Longrightarrow> pid \<notin> fst ` set (db_mcp db) \<and> pid \<in> fst ` set (db_mcp db')"
  by (auto simp: prepareMcpCall_def andThen_Inr_iff split: if_splits)

interpretation mcp_permit: journal_permit C "grantsMcp pid" "\<lambda>db. pid \<in> fst ` set (db_mcp db)" for C pid
proof unfold_locales
  fix a b assume "journalOlder a b" "pid \<in> fst ` set (db_mcp a)"
  then show "pid \<in> fst ` set (db_mcp b)" 
    by - (rule grows_image [of "(=)" "db_mcp a"], auto simp: journalOlder_def)
next
  fix ob call j r j' assume j: "journalCall C ob call j = (r, j')" "grantsMcp pid call r"
  then obtain requestId digest s where "methodCall C ob (Call_mcp pid requestId digest) j = (Inr s, j')"
    by (auto simp: grantsMcp_def isOk_iff)
  from method_ok [OF this] have "prepareMcpCall pid requestId digest (bj_db j) = Inr ((), bj_db j')"
    by (auto simp: replyWith_def andThen_Inr_iff)
  then show "pid \<notin> fst ` set (db_mcp (bj_db j)) \<and> pid \<in> fst ` set (db_mcp (bj_db j'))" by (rule mcp_new)
qed

definition inputKeys :: "JournalDb \<Rightarrow> (string \<times> string) set" where
  "inputKeys db = (\<lambda>x. (si_operationId x, li_requestId (si_input x))) ` set (db_inputs db)"

definition sourceKeys :: "JournalDb \<Rightarrow> (string \<times> string) set" where
  "sourceKeys db = (\<lambda>x. (so_operationId x, updateIdOf (so_update x))) ` set (db_sources db)"

lemma input_new:
  "prepareInput pid input now row db = Inr (True, db') \<Longrightarrow>
     (pid, li_requestId input) \<notin> inputKeys db \<and> (pid, li_requestId input) \<in> inputKeys db'"
  by (cases "List.find (\<lambda>x. li_requestId (si_input x) = li_requestId input) (inputsOf db pid)")
    (auto simp: prepareInput_def Let_def inputsOf_def inputKeys_def find_None_iff split: if_splits option.splits)

lemma source_new:
  assumes "prepareSource pid update row db = Inr (True, db')"
  shows "(pid, updateIdOf update) \<notin> sourceKeys db \<and> (pid, updateIdOf update) \<in> sourceKeys db'"
proof (cases "List.find (\<lambda>x. updateIdOf (so_update x) = updateIdOf update) (sourcesOf db pid)")
  case None
  then have "(pid, updateIdOf update) \<notin> sourceKeys db" by (auto simp: find_None_iff sourcesOf_def sourceKeys_def)
  then show ?thesis using assms None by (auto simp: prepareSource_def Let_def andThen_Inr_iff sourceKeys_def split: if_splits)
qed (use assms in \<open>auto simp: prepareSource_def andThen_Inr_iff split: if_splits\<close>)

interpretation input_permit: journal_permit C "grantsInput pid requestId" "\<lambda>db. (pid, requestId) \<in> inputKeys db" for C pid requestId
proof unfold_locales
  fix a b assume "journalOlder a b" "(pid, requestId) \<in> inputKeys a"
  then show "(pid, requestId) \<in> inputKeys b"
    unfolding inputKeys_def by - (rule grows_image [of laterInput "db_inputs a"], auto simp: journalOlder_def laterInput_def)
next
  fix ob call j r j' assume j: "journalCall C ob call j = (r, j')" "grantsInput pid requestId call r"
  then obtain input now where i: "methodCall C ob (Call_input pid input now) j = (Inr (Reply_new True), j')" "li_requestId input = requestId"
    by (auto simp: grantsInput_def)
  from method_ok [OF i(1)] obtain row where "prepareInput pid input now row (bj_db j) = Inr (True, bj_db j')"
    by (auto simp: replyWith_def serviceAccess_def andThen_Inr_iff split: if_splits)
  then show "(pid, requestId) \<notin> inputKeys (bj_db j) \<and> (pid, requestId) \<in> inputKeys (bj_db j')" using input_new i(2) by blast
qed

interpretation source_permit: journal_permit C "grantsSource C pid updateId" "\<lambda>db. (pid, updateId) \<in> sourceKeys db" for C pid updateId
proof unfold_locales
  fix a b assume "journalOlder a b" "(pid, updateId) \<in> sourceKeys a"
  then show "(pid, updateId) \<in> sourceKeys b"
    unfolding sourceKeys_def by - (rule grows_image [of laterSource "db_sources a"], auto simp: journalOlder_def laterSource_def)
next
  fix ob call j r j' assume j: "journalCall C ob call j = (r, j')" "grantsSource C pid updateId call r"
  then obtain u v where u: "methodCall C ob (Call_source pid u) j = (Inr (Reply_new True), j')" "jc_sourceUpdate C u = Some v"
    "updateIdOf v = updateId" by (auto simp: grantsSource_def)
  from method_ok [OF u(1)] obtain row where "prepareSource pid v row (bj_db j) = Inr (True, bj_db j')"
    using u(2) by (auto simp: parsed_def replyWith_def serviceAccess_def andThen_Inr_iff split: if_splits)
  then show "(pid, updateId) \<notin> sourceKeys (bj_db j) \<and> (pid, updateId) \<in> sourceKeys (bj_db j')" using source_new u(3) by blast
qed

section \<open>A restart\<close>

text \<open>
  What the entry that was active at a crash reports after it: an entry that had not begun was not
  executed, one that had begun is uncertain, except that the files of a changeset tell what was applied.
\<close>

fun restartReport :: "EntryRow \<Rightarrow> OpSignal list \<Rightarrow> bool" where
  "restartReport row [SigOutcome r] =
     (if en_state row = Entry_received then or_status r = Op_failed \<and> or_effects r = Eff_none
      else en_state row = Entry_executing \<and> capabilityOf (en_dispatch row) = JStr ''local.fs.changeset'')"
| "restartReport row [SigUncertain reason] = (en_state row = Entry_executing \<and> reason = Missing_receipt)"
| "restartReport row _ = False"

lemma entryOf_here:
  assumes "distinct (map en_operationId (db_entries db))" "row \<in> set (db_entries db)"
  shows "entryOf db (en_operationId row) = Inr row"
proof (cases "List.find (\<lambda>r. en_operationId r = en_operationId row) (db_entries db)")
  case None
  then show ?thesis using assms(2) by (auto simp: find_None_iff)
next
  case (Some x)
  then show ?thesis using same_entry [OF assms, of x] by (auto simp: entryOf_def dest: find_Some)
qed

lemma recoverEntry_moves:
  assumes "recoverEntry C fr row db = Inr (x, db')" "row \<in> set (db_entries db)" "activeEntry row"
    "distinct (map en_operationId (db_entries db))"
  shows "\<exists>st r. st \<in> {Entry_unknown, Entry_completed} \<and> restartReport row [br_signal r] \<and>
     db_entries db' = movedTo (en_operationId row) st (db_entries db) \<and>
     db_outbox db' = db_outbox db @ [\<lparr>rx_receipt = r, rx_operationId = en_operationId row, rx_delivered = False\<rparr>]"
proof -
  note here = entryOf_here [OF assms(4,2)]
  note parts = outcome_def uncertain_def finish_def here andThen_Inr_iff setState_movedTo
  show ?thesis
  proof (cases "en_state row = Entry_executing")
    case True
    then show ?thesis using assms(1,3)
      by (auto simp: recoverEntry_def recoverChangeset_def Let_def parts split: if_splits dest!: appendReceipt_ok)
  next
    case False
    then have "en_state row = Entry_received" using assms(3) by (auto simp: activeEntry_def)
    then show ?thesis using assms(1,3) False by (auto simp: recoverEntry_def parts split: if_splits dest!: appendReceipt_ok)
  qed
qed

text \<open>What one settled entry looks like in the database.\<close>

definition settled :: "EntryRow \<Rightarrow> JournalDb \<Rightarrow> bool" where
  "settled row db \<longleftrightarrow> (\<exists>st. row\<lparr>en_state := st\<rparr> \<in> set (db_entries db) \<and> st \<in> {Entry_unknown, Entry_completed}) \<and>
     restartReport row (map br_signal (receiptsFor (db_outbox db) (en_operationId row)))"

definition untouched :: "EntryRow \<Rightarrow> JournalDb \<Rightarrow> JournalDb \<Rightarrow> bool" where
  "untouched row db db' \<longleftrightarrow> row \<in> set (db_entries db') \<and>
     receiptsFor (db_outbox db') (en_operationId row) = receiptsFor (db_outbox db) (en_operationId row)"

lemma recoverEntry_settles:
  assumes "recoverEntry C fr row db = Inr (x, db')" "row \<in> set (db_entries db)" "activeEntry row" "journalOk C db"
  shows "settled row db' \<and> (\<forall>other \<in> set (db_entries db). en_operationId other \<noteq> en_operationId row \<longrightarrow> untouched other db db') \<and>
     en_operationId ` set (db_entries db') = en_operationId ` set (db_entries db)"
proof -
  have ok: "entriesOk C (db_entries db) (db_outbox db)" using assms(4) by (simp add: journalOk_def)
  then have none: "receiptsFor (db_outbox db) (en_operationId row) = []"
    using assms(2,3) by (auto simp: entriesOk_def activeEntry_def dest!: bspec)
  obtain st r where m: "st \<in> {Entry_unknown, Entry_completed}" "restartReport row [br_signal r]"
    "db_entries db' = movedTo (en_operationId row) st (db_entries db)"
    "db_outbox db' = db_outbox db @ [\<lparr>rx_receipt = r, rx_operationId = en_operationId row, rx_delivered = False\<rparr>]"
    using recoverEntry_moves [OF assms(1-3)] ok unfolding entriesOk_def by blast
  have "row\<lparr>en_state := st\<rparr> \<in> set (db_entries db')" using assms(2) by (force simp: m(3) movedTo_def)
  then have "settled row db'" using m(1,2) none by (auto simp: settled_def m(4) receiptsFor_append) (simp_all add: receiptsFor_def)
  then show ?thesis
    by (auto simp: untouched_def m(3,4) receiptsFor_append) (auto simp: movedTo_def receiptsFor_def)
qed

lemma recoverEntries_settle:
  "recoverEntries C fr rows db = (Inr (), db') \<Longrightarrow> journalOk C db \<Longrightarrow> set rows \<subseteq> set (db_entries db) \<Longrightarrow>
     distinct (map en_operationId rows) \<Longrightarrow> list_all activeEntry rows \<Longrightarrow>
     list_all (\<lambda>row. settled row db') rows \<and>
     (\<forall>other \<in> set (db_entries db). en_operationId other \<notin> en_operationId ` set rows \<longrightarrow> untouched other db db') \<and>
     en_operationId ` set (db_entries db') = en_operationId ` set (db_entries db)"
proof (induction rows arbitrary: fr db)
  case (Cons row rows)
  obtain x db1 where s: "recoverEntry C (fr 0) row db = Inr (x, db1)" "recoverEntries C (\<lambda>k. fr (Suc k)) rows db1 = (Inr (), db')"
    using Cons.prems(1) by (auto split: sum.splits prod.splits)
  note one = recoverEntry_settles [OF s(1) _ _ Cons.prems(2)]
  have later: "untouched other db db1" if "other \<in> set rows" for other
  proof -
    have "other \<in> set (db_entries db)" "en_operationId other \<noteq> en_operationId row"
      using Cons.prems(3,4) that by (auto simp: image_iff)
    then show ?thesis using one Cons.prems(3,5) by simp
  qed
  have ih: "list_all (\<lambda>row. settled row db') rows \<and>
     (\<forall>other \<in> set (db_entries db1). en_operationId other \<notin> en_operationId ` set rows \<longrightarrow> untouched other db1 db') \<and>
     en_operationId ` set (db_entries db') = en_operationId ` set (db_entries db1)"
    by (rule Cons.IH [OF s(2)]) (use fineD [OF recoverEntry_fine s(1) Cons.prems(2)] later Cons.prems(4,5) in \<open>auto simp: untouched_def\<close>)
  have first: "settled row db1" "en_operationId row \<notin> en_operationId ` set rows" using one Cons.prems(3-5) by auto
  then obtain st where st: "row\<lparr>en_state := st\<rparr> \<in> set (db_entries db1)" "st \<in> {Entry_unknown, Entry_completed}" by (auto simp: settled_def)
  then have "untouched (row\<lparr>en_state := st\<rparr>) db1 db'" using ih first(2) by auto
  then have "settled row db'" using first(1) st(2) by (auto simp: settled_def untouched_def)
  moreover have "untouched other db db'" if "other \<in> set (db_entries db)" "en_operationId other \<notin> en_operationId ` set (row # rows)" for other
  proof -
    have "untouched other db db1" using one Cons.prems(3,5) that by auto
    then show ?thesis using ih that by (auto simp: untouched_def)
  qed
  ultimately show ?case using ih one Cons.prems(3,5) by auto
qed (auto simp: untouched_def)

lemma reopen_settles:
  assumes "reopen C fr j = (Inr u, j')" "journalOk C (bj_db j)"
  shows "\<not> bj_closed j' \<and> \<not> list_ex activeEntry (db_entries (bj_db j')) \<and>
     list_all (\<lambda>row. restartReport row (map br_signal (receiptsFor (db_outbox (bj_db j')) (en_operationId row))))
       (filter activeEntry (db_entries (bj_db j))) \<and>
     list_all (\<lambda>row. receiptsFor (db_outbox (bj_db j')) (en_operationId row) = receiptsFor (db_outbox (bj_db j)) (en_operationId row))
       (filter (\<lambda>row. \<not> activeEntry row) (db_entries (bj_db j)))"
proof -
  let ?E = "db_entries (bj_db j)" and ?E' = "db_entries (bj_db j')"
  have r: "recoverEntries C fr (filter activeEntry ?E) (bj_db j) = (Inr (), bj_db j')" "\<not> bj_closed j'"
    using assms(1) by (auto simp: reopen_def split: prod.splits)
  have d: "distinct (map en_operationId ?E)" using assms(2) by (simp add: journalOk_def entriesOk_def)
  have d': "distinct (map en_operationId ?E')" using recover_fine [OF r(1) assms(2)] by (simp add: journalOk_def entriesOk_def)
  note rec = recoverEntries_settle [OF r(1) assms(2)]
  have s: "settled row (bj_db j')" if "row \<in> set ?E" "activeEntry row" for row
    using rec d that by (auto simp: distinct_map_filter list_all_iff)
  have u: "untouched row (bj_db j) (bj_db j')" if "row \<in> set ?E" "\<not> activeEntry row" for row
  proof -
    have "en_operationId row \<notin> en_operationId ` set (filter activeEntry ?E)" using that same_entry [OF d] by auto
    then show ?thesis using rec d that by (auto simp: distinct_map_filter list_all_iff)
  qed
  have "\<not> activeEntry x" if x: "x \<in> set ?E'" for x
  proof -
    have "en_operationId x \<in> en_operationId ` set ?E" using rec d x by (auto simp: distinct_map_filter list_all_iff)
    then obtain row where row: "row \<in> set ?E" "en_operationId row = en_operationId x" by auto
    show ?thesis
    proof (cases "activeEntry row")
      case True
      from s [OF row(1) True] obtain st where st: "row\<lparr>en_state := st\<rparr> \<in> set ?E'" "st \<in> {Entry_unknown, Entry_completed}"
        unfolding settled_def by blast
      then have "x = row\<lparr>en_state := st\<rparr>" using same_entry [OF d' st(1) x] row(2) by simp
      then show ?thesis using st(2) by (auto simp: activeEntry_def)
    next
      case False
      then have "x = row" using u [OF row(1)] same_entry [OF d' _ x, of row] row(2) by (auto simp: untouched_def)
      then show ?thesis using False by simp
    qed
  qed
  then show ?thesis using s u r(2) by (auto simp: list_all_iff list_ex_iff settled_def untouched_def)
qed

section \<open>Properties\<close>

text \<open>(C7)
  Whatever the calls, the crashes and the restarts, a journal that started empty accepts an operation as
  new at most once, permits its execution to begin at most once, permits its remote tool call at most
  once, and permits the writing of each requested input and the application of each source update to
  its service at most once.
\<close>

lemma journal_permission_once:
  "case runJournal C calls emptyJournal of (rs, j) \<Rightarrow>
     (let granted = (\<lambda>g. length (filter (\<lambda>(call, r). g call r) rs)) in
      granted (grantsReceive pid) \<le> 1 \<and> granted (grantsBegin pid) \<le> 1 \<and> granted (grantsMcp pid) \<le> 1 \<and>
      granted (grantsInput pid requestId) \<le> 1 \<and> granted (grantsSource C pid updateId) \<le> 1)"
proof -
  obtain rs j where run: "runJournal C calls emptyJournal = (rs, j)" by (cases "runJournal C calls emptyJournal")
  note once = receive_permit.granted_once [OF run empty_ok] begin_permit.granted_once [OF run empty_ok]
    mcp_permit.granted_once [OF run empty_ok] input_permit.granted_once [OF run empty_ok] source_permit.granted_once [OF run empty_ok]
  show ?thesis unfolding run Let_def prod.case by (intro conjI once [THEN order_trans]) simp_all
qed

text \<open>(C37)
  In every reachable journal an operation has reported nothing while it is received or executing, one
  uncertainty while it is unknown, and once it is completed one known outcome after at most one
  uncertainty; each of its receipts is a valid receipt of the attempt and the lease of its dispatch, no
  receipt belongs to an operation that was never received, and receipt identifiers are distinct.
\<close>

lemma journal_reports_shape:
  "case runJournal C calls emptyJournal of (rs, j) \<Rightarrow>
     distinct (map (\<lambda>x. br_receiptId (rx_receipt x)) (db_outbox (bj_db j))) \<and>
     (case entryOf (bj_db j) pid of
        Inl e \<Rightarrow> receiptsFor (db_outbox (bj_db j)) pid = []
      | Inr row \<Rightarrow> reported (en_state row) (map br_signal (receiptsFor (db_outbox (bj_db j)) pid)) \<and>
          list_all (receiptFrom C row) (receiptsFor (db_outbox (bj_db j)) pid))"
proof -
  obtain rs j where run: "runJournal C calls emptyJournal = (rs, j)" by (cases "runJournal C calls emptyJournal")
  have ok: "entriesOk C (db_entries (bj_db j)) (db_outbox (bj_db j))" using run_fine [OF run empty_ok] by (simp add: journalOk_def)
  have "receiptsFor (db_outbox (bj_db j)) pid = []" if "entryOf (bj_db j) pid = Inl e" for e
  proof -
    have "pid \<notin> en_operationId ` set (db_entries (bj_db j))"
      using that by (auto simp: entryOf_def find_None_iff split: option.splits)
    then have "rx_operationId x \<noteq> pid" if "x \<in> set (db_outbox (bj_db j))" for x using ok that by (auto simp: entriesOk_def)
    then show ?thesis by (simp add: receiptsFor_def filter_empty_conv)
  qed
  then show ?thesis
    using ok unfolding run by (auto simp: entriesOk_def list_all_iff split: sum.splits dest!: entryOf_ok)
qed

text \<open>(C38)
  Nothing recorded is lost or rewritten: continuing any run, restarts included, keeps every row in its
  place.  Operations only move forward, receipts, outputs, events and inputs change only by being
  delivered, tool calls do not change, a source update keeps the receipt it was given, and the
  checkpoint of a changeset file is replaced only while its status is \<open>prepared\<close>, the one outcome that
  is not final.
\<close>

lemma journal_keeps_records:
  "case runJournal C calls emptyJournal of (rs, j) \<Rightarrow> case runJournal C later j of (rs', j') \<Rightarrow>
     journalOlder (bj_db j) (bj_db j')"
proof -
  obtain rs j where run: "runJournal C calls emptyJournal = (rs, j)" by (cases "runJournal C calls emptyJournal")
  obtain rs' j' where cont: "runJournal C later j = (rs', j')" by (cases "runJournal C later j")
  show ?thesis unfolding run prod.case cont using run_fine [OF cont] run_fine [OF run empty_ok] by simp
qed

text \<open>
  In every reachable journal the output chunks of an operation are numbered without gap from 0, are at
  most 256 and together hold at most 65536 bytes; the lifecycle events of a service are numbered without
  gap and at most 64; its inputs are numbered without gap and at most 16, one per request; its source
  updates are distinct and at most 8.
\<close>

lemma journal_streams_bounded:
  "case runJournal C calls emptyJournal of (rs, j) \<Rightarrow>
     (let db = bj_db j; out = outputsOf db pid; ev = eventsOf db pid; inp = inputsOf db pid; src = sourcesOf db pid in
      map (\<lambda>x. bo_sequence (ox_output x)) out = map int [0..<length out] \<and> length out \<le> 256 \<and> contentBytes out \<le> 65536 \<and>
      map (\<lambda>x. le_sequence (sv_event x)) ev = map int [0..<length ev] \<and> length ev \<le> 64 \<and>
      map (\<lambda>x. li_sequence (si_input x)) inp = map int [0..<length inp] \<and> length inp \<le> 16 \<and>
      distinct (map (\<lambda>x. li_requestId (si_input x)) inp) \<and>
      distinct (map (\<lambda>x. updateIdOf (so_update x)) src) \<and> length src \<le> 8)"
proof -
  obtain rs j where run: "runJournal C calls emptyJournal = (rs, j)" by (cases "runJournal C calls emptyJournal")
  have "journalOk C (bj_db j)" using run_fine [OF run empty_ok] by simp
  then show ?thesis unfolding run
    by (simp add: journalOk_def outputOk_def eventsOk_def inputsOk_def sourcesOk_def Let_def outputsOf_def eventsOf_def inputsOf_def sourcesOf_def)
qed

text \<open>(C39)
  Reopening the journal after any run either fails and leaves it closed, or leaves no operation active.
  Then every operation that was active has exactly one receipt: a failure without effects when it had
  not begun, a missing receipt when it had (a changeset may know its outcome); and the others have the
  receipts they had.
\<close>

lemma journal_restart_settles:
  "case runJournal C calls emptyJournal of (rs, j) \<Rightarrow> (case reopen C fr j of
     (Inl e, j') \<Rightarrow> bj_closed j'
   | (Inr u, j') \<Rightarrow> \<not> bj_closed j' \<and> \<not> list_ex activeEntry (db_entries (bj_db j')) \<and>
       list_all (\<lambda>row. restartReport row (map br_signal (receiptsFor (db_outbox (bj_db j')) (en_operationId row))))
         (filter activeEntry (db_entries (bj_db j))) \<and>
       list_all (\<lambda>row. receiptsFor (db_outbox (bj_db j')) (en_operationId row) = receiptsFor (db_outbox (bj_db j)) (en_operationId row))
         (filter (\<lambda>row. \<not> activeEntry row) (db_entries (bj_db j))))"
proof -
  obtain rs j where run: "runJournal C calls emptyJournal = (rs, j)" by (cases "runJournal C calls emptyJournal")
  obtain r j' where re: "reopen C fr j = (r, j')" by (cases "reopen C fr j")
  have ok: "journalOk C (bj_db j)" using run_fine [OF run empty_ok] by simp
  show ?thesis
  proof (cases r)
    case (Inl e)
    then show ?thesis using re unfolding run by (auto simp: reopen_def split: prod.splits)
  next
    case (Inr u)
    then show ?thesis using reopen_settles [OF _ ok, of fr u j'] re unfolding run prod.case by simp
  qed
qed

section \<open>Redelivery, and a run\<close>

lemma dispatch_entry:
  "receiveDispatch C used fresh d fp db = Inr (b, db') \<Longrightarrow>
     \<exists>row. row \<in> set (db_entries db') \<and> en_operationId row = operationIdOf d \<and> en_fingerprint row = fp"
  by (cases "List.find (\<lambda>r. en_operationId r = operationIdOf d) (db_entries db)")
    (auto simp: receiveDispatch_def Let_def andThen_Inr_iff split: if_splits dest!: find_Some)

lemma receive_entry:
  assumes "receive C ob used fresh d j = (Inr b, j1)"
  shows "\<exists>d' fp row. parseBridgeDispatch (jc_platform C) (jc_payload C) d = Inr d' \<and>
     ex_deviceId (ab_execution (op_binding (bd_snapshot d'))) = Some (jc_deviceId C) \<and>
     bridgeDigest (bd_payload d') = Inr (ab_inputDigest (op_binding (bd_snapshot d'))) \<and> bridgeDigest (bridgeDispatchJson d') = Inr fp \<and>
     row \<in> set (db_entries (bj_db j1)) \<and> en_operationId row = operationIdOf d' \<and> en_fingerprint row = fp"
proof -
  from assms obtain d' db0 fp where d: "parseBridgeDispatch (jc_platform C) (jc_payload C) d = Inr d'"
    "ex_deviceId (ab_execution (op_binding (bd_snapshot d'))) = Some (jc_deviceId C)"
    "bridgeDigest (bd_payload d') = Inr (ab_inputDigest (op_binding (bd_snapshot d')))" "bridgeDigest (bridgeDispatchJson d') = Inr fp"
    "receiveDispatch C used fresh d' fp db0 = Inr (b, bj_db j1)"
    by (auto simp: receive_def guarded_def transaction_def Let_def split: sum.splits prod.splits if_splits)
  show ?thesis using dispatch_entry [OF d(5)] d(1-4) by blast
qed

text \<open>(C40)
  Redelivery is harmless: a dispatch that was accepted, whether as new or as known, is accepted as known
  at every later moment of the journal's life, restarts included, and changes nothing, provided only
  that the journal is then open and its file and directory are unchanged.
\<close>

lemma journal_redelivery:
  assumes "runJournal C calls emptyJournal = (rs, j)" "receive C ob used fresh d j = (Inr b, j1)"
    "runJournal C later j1 = (rs', j2)" "guardJournal C ob' j2 = (Inr (), j3)"
  shows "receive C ob' used' fresh' d j2 = (Inr False, j2)"
proof -
  obtain d' fp row where d: "parseBridgeDispatch (jc_platform C) (jc_payload C) d = Inr d'"
    "ex_deviceId (ab_execution (op_binding (bd_snapshot d'))) = Some (jc_deviceId C)"
    "bridgeDigest (bd_payload d') = Inr (ab_inputDigest (op_binding (bd_snapshot d')))" "bridgeDigest (bridgeDispatchJson d') = Inr fp"
    and row: "row \<in> set (db_entries (bj_db j1))" "en_operationId row = operationIdOf d'" "en_fingerprint row = fp"
    using receive_entry [OF assms(2)] by blast
  have ok1: "journalOk C (bj_db j1)"
    using receive_call_fine [OF assms(2)] run_fine [OF assms(1) empty_ok] by blast
  have ok2: "journalOk C (bj_db j2)" "journalOlder (bj_db j1) (bj_db j2)" using run_fine [OF assms(3) ok1] by auto
  obtain st where st: "row\<lparr>en_state := st\<rparr> \<in> set (db_entries (bj_db j2))" using older_entry [OF ok2(2) row(1)] by blast
  have "entryOf (bj_db j2) (operationIdOf d') = Inr (row\<lparr>en_state := st\<rparr>)"
    using entryOf_here [OF _ st] ok2(1) row(2) by (simp add: journalOk_def entriesOk_def)
  then have "receiveDispatch C used' fresh' d' fp (bj_db j2) = Inr (False, bj_db j2)"
    using row(3) by (auto simp: receiveDispatch_def entryOf_def split: option.splits)
  moreover have "j3 = j2" using assms(4) by (auto simp: guardJournal_def split: if_splits sum.splits)
  ultimately show ?thesis
    using assms(4) d by (simp add: receive_def guarded_def transaction_def Let_def)
qed

text \<open>A bound on the length of a text that does not need its digests.\<close>

fun jsonSize :: "jsval \<Rightarrow> nat" and jsonSizeArr :: "jsval list \<Rightarrow> nat" and jsonSizeObj :: "(string \<times> jsval) list \<Rightarrow> nat" where
  "jsonSize (JNum i) = 2 * length (intStr i)"
| "jsonSize (JStr s) = 6 * length s + 2"
| "jsonSize (JArr xs) = jsonSizeArr xs + 2"
| "jsonSize (JObj kvs) = jsonSizeObj kvs + 2"
| "jsonSize _ = 5"
| "jsonSizeArr [] = 0"
| "jsonSizeArr (x # xs) = jsonSize x + 1 + jsonSizeArr xs"
| "jsonSizeObj [] = 0"
| "jsonSizeObj ((k, v) # kvs) = 6 * length k + 4 + jsonSize v + jsonSizeObj kvs"

lemma byteLength_Nil [simp]: "byteLength [] = 0"
  by (simp add: byteLength_def utf8_def)

lemma byteLength_append [simp]: "byteLength (s @ t) = byteLength s + byteLength t"
  by (simp add: byteLength_def utf8_def)

lemma byteLength_Cons: "byteLength (c # s) = byteLength [c] + byteLength s"
  by (metis append_Cons append_Nil byteLength_append)

lemma byteLength_char: "byteLength [c] \<le> 2"
  by (simp add: byteLength_def utf8_def Let_def)

lemma byteLength_twice: "byteLength s \<le> 2 * length s"
proof (induction s)
  case (Cons c s)
  then show ?case using byteLength_char [of c] byteLength_Cons [of c s] by simp
qed simp

lemma byteLength_ascii: "of_char c < (128 :: nat) \<Longrightarrow> byteLength (c # s) = Suc (byteLength s)"
  by (simp add: byteLength_def utf8_def)

lemma hexChar_ascii: "n < 16 \<Longrightarrow> of_char (hexChar n) < (128 :: nat)"
proof -
  have "list_all (\<lambda>c. of_char c < (128 :: nat)) ''0123456789abcdef''" by simp
  then show "n < 16 \<Longrightarrow> of_char (hexChar n) < (128 :: nat)" unfolding hexChar_def list_all_length by simp
qed

lemma byteLength_esc: "byteLength (escChar c) \<le> 6"
proof -
  have "byteLength [c] \<le> 6" using byteLength_char [of c] by simp
  then show ?thesis
    by (auto simp: escChar_def Let_def byteLength_ascii hexChar_ascii)
qed

lemma byteLength_quote: "byteLength (quote s) \<le> 6 * length s + 2"
proof -
  have "byteLength (concat (map escChar s)) \<le> 6 * length s"
  proof (induction s)
    case (Cons c s)
    then show ?case using byteLength_esc [of c] by simp
  qed simp
  then show ?thesis by (simp add: quote_def byteLength_ascii)
qed

lemma byteLength_stringify:
  "byteLength (stringify v) \<le> jsonSize v" "byteLength (stringifyElems xs) \<le> jsonSizeArr xs"
  "byteLength (stringifyProps kvs) \<le> jsonSizeObj kvs"
proof (induction v and xs and kvs rule: stringify_stringifyElems_stringifyProps.induct)
  case (4 i)
  then show ?case using byteLength_twice [of "intStr i"] by simp
next
  case (6 s)
  then show ?case using byteLength_quote [of s] by simp
next
  case (12 k v kvs)
  then show ?case using byteLength_quote [of k] by (auto simp: byteLength_ascii Let_def)
qed (auto simp: byteLength_ascii)

lemma jsonSizeObj_sort [simp]: "jsonSizeObj (sortBy le kvs) = jsonSizeObj kvs"
proof -
  have "jsonSizeObj (insBy le kv xs) = jsonSizeObj (kv # xs)" for kv xs
    by (cases kv; induction xs) auto
  then show ?thesis by (induction kvs) (auto simp: sortBy_def split_paired_all)
qed

lemma jsonSize_sort [simp]:
  "jsonSize (sortKeysBy le v) = jsonSize v" "jsonSizeArr (sortKeysArr le xs) = jsonSizeArr xs"
  "jsonSizeObj (sortKeysProps le kvs) = jsonSizeObj kvs"
  by (induction le v and le xs and le kvs rule: sortKeysBy_sortKeysArr_sortKeysProps.induct) auto

lemma canonical_size: "jsonOk v \<Longrightarrow> \<exists>t. canonicalRuntimeBridgeJson v = Inr t \<and> byteLength t \<le> jsonSize v"
  using byteLength_stringify(1) [of "sortKeysBy (\<le>) v"] by (simp add: canonicalRuntimeBridgeJson_def canonical_stringify)

text \<open>A concrete run: a file is to be read, the bridge crashes after it has begun.\<close>

definition samplePayload :: jsval where
  "samplePayload = JObj [(''capability'', JStr ''local.fs.read''), (''arguments'', JObj [])]"

definition sampleInputDigest :: string where
  "sampleInputDigest = ''sha256:'' @ sha256hex (stringify (sortKeysBy (\<le>) samplePayload))"

definition sampleConfig :: JournalConfig where
  "sampleConfig = \<lparr>jc_platform = samplePlatform, jc_deviceId = ''d1'', jc_directory = (1, 1), jc_file = (1, 2),
     jc_limitEntries = 10, jc_limitBytes = 10000000, jc_payload = Some, jc_pdfResult = Some, jc_pythonResult = Some,
     jc_commandResult = Some, jc_changesetFile = Some, jc_pdfMatches = (\<lambda>_ _. True), jc_pythonMatches = (\<lambda>_ _. True),
     jc_changesetMatches = (\<lambda>_ _. True), jc_initialFiles = (\<lambda>_. []), jc_sourceUpdate = Some, jc_summary = (\<lambda>_ _. ''done'')\<rparr>"

definition sampleBridgeDispatch :: RuntimeBridgeDispatch where
  "sampleBridgeDispatch = \<lparr>bd_snapshot = sampleSnapshot\<lparr>op_status := Op_dispatched, op_binding := sampleBinding\<lparr>
       ab_execution := sampleExecution\<lparr>ex_targetKind := TK_rice_bridge, ex_deviceId := Some ''d1''\<rparr>,
       ab_action := ''local.fs.read'', ab_inputDigest := sampleInputDigest\<rparr>\<rparr>,
     bd_payload = samplePayload, bd_leaseToken = ''l1'', bd_leaseExpiresAt = ''2026-01-01T00:00:00Z'',
     bd_grantRootFingerprint = replicate 64 CHR ''0''\<rparr>"

definition sampleDisk :: "FileStat result \<times> FileStat result" where
  "sampleDisk = (Inr \<lparr>fs_secure = True, fs_identity = (1, 1)\<rparr>, Inr \<lparr>fs_secure = True, fs_identity = (1, 2)\<rparr>)"

definition sampleFresh :: "nat \<Rightarrow> Fresh" where
  "sampleFresh k = \<lparr>fr_receiptId = ''r'' @ intStr (int k), fr_evidenceId = ''e1'', fr_now = ''2026-01-01T00:00:00Z''\<rparr>"

lemma sampleInputDigest_props: "checksumOk sampleInputDigest" "length sampleInputDigest = 71"
  by (simp_all add: sampleInputDigest_def checksumOk_def sha256hex_props)

lemma samplePayload_digest: "bridgeDigest samplePayload = Inr sampleInputDigest"
proof -
  have "jsonOk samplePayload" by (simp add: samplePayload_def)
  from canonical_stringify(1) [OF this] show ?thesis
    by (simp add: bridgeDigest_def canonicalRuntimeBridgeJson_def sampleInputDigest_def)
qed

definition sampleBridgeBinding :: RuntimeActionBinding where
  "sampleBridgeBinding = op_binding (bd_snapshot sampleBridgeDispatch)"

lemmas sample_bridge = sampleBridgeBinding_def sampleBridgeDispatch_def sampleBinding_def sampleSnapshot_def sampleExecution_def

lemma sampleBridgeBinding_ok: "validRuntimeActionBinding samplePlatform sampleBridgeBinding"
  using sampleTask_ok sampleInputDigest_props(1)
  by (simp add: validRuntimeActionBinding_def sample_bridge validRuntimeAttemptRef_def sampleAttempt_def zPositive_def
    zNonneg_def isSafeInteger_def validRuntimeExecutionScope_def lenIn_def trim_def isWhite_def)

lemma sampleSnapshot_bridge:
  "validOpSnapshot samplePlatform (bd_snapshot sampleBridgeDispatch)"
  using sampleBridgeBinding_ok
  by (simp add: validOpSnapshot_def sampleBridgeBinding_def) (simp add: sampleBridgeDispatch_def sampleSnapshot_def isTerminalRuntimeOperationStatus_def)

lemma sampleDispatch_parsed: "parseBridgeDispatch samplePlatform Some sampleBridgeDispatch = Inr sampleBridgeDispatch"
proof -
  have "hex64 (replicate 64 CHR ''0'')" by (simp add: hex64_def list_all_iff isHexLower_def)
  moreover have "sampleDigest = ''sha256:'' @ replicate 64 CHR ''0''" by (simp add: sampleDigest_def numeral_eq_Suc)
  moreover have "trim ''local.fs.read'' = ''local.fs.read''" by (simp add: trim_def isWhite_def)
  moreover have "jget ''capability'' samplePayload = JStr ''local.fs.read''" by (simp add: samplePayload_def)
  ultimately have "validBridgeDispatch samplePlatform Some sampleBridgeDispatch"
    using sampleSnapshot_bridge by (simp add: validBridgeDispatch_def) (simp add: sample_bridge)
  moreover have "parseOpSnapshot samplePlatform (bd_snapshot sampleBridgeDispatch) = Inr (bd_snapshot sampleBridgeDispatch)"
    using sampleSnapshot_bridge \<open>trim _ = _\<close> by (simp add: parseOpSnapshot_def) (simp add: sample_bridge)
  ultimately show ?thesis by (simp add: parseBridgeDispatch_def andThen_def)
qed

lemma sampleDispatch_fingerprint: "\<exists>t. canonicalRuntimeBridgeJson (bridgeDispatchJson sampleBridgeDispatch) = Inr t \<and> byteLength t \<le> 20000"
proof -
  have i: "intStr 0 = ''0''" "intStr 1 = ''1''" by code_simp+
  have s: "jsonSize (bridgeDispatchJson sampleBridgeDispatch) \<le> 20000"
    using sampleInputDigest_props(2)
    by (simp add: bridgeDispatchJson_def opSnapshotJson_def sample_bridge bindingJson_def sampleTask_def sampleAttempt_def samplePayload_def i taskJson_def scopeJson_def attemptJson_def executionJson_def sampleScope_def sampleDigest_def jOpt_def)
  have "jsonOk (bridgeDispatchJson sampleBridgeDispatch)"
    by (simp add: bridgeDispatchJson_def opSnapshotJson_def sample_bridge bindingJson_def sampleTask_def sampleAttempt_def samplePayload_def taskJson_def scopeJson_def attemptJson_def executionJson_def)
  from canonical_size [OF this] s show ?thesis using order_trans by blast
qed

definition sampleJournal :: "string \<Rightarrow> EntryState \<Rightarrow> OutboxRow list \<Rightarrow> BridgeJournal" where
  "sampleJournal fp st outbox = emptyJournal\<lparr>bj_db := (bj_db emptyJournal)\<lparr>db_entries := [\<lparr>en_operationId = ''p1'',
     en_fingerprint = fp, en_dispatch = sampleBridgeDispatch, en_state = st, en_startReceiptId = ''s1''\<rparr>], db_outbox := outbox\<rparr>\<rparr>"

definition sampleBridgeReceipt :: RuntimeBridgeReceipt where
  "sampleBridgeReceipt = \<lparr>br_receiptId = ''r0'', br_attempt = sampleAttempt, br_leaseToken = ''l1'', br_deviceSequence = 0,
     br_signal = SigUncertain Missing_receipt, br_evidence = None\<rparr>"

lemma sampleDisk_guard: "guardJournal sampleConfig sampleDisk (sampleJournal fp st outbox) = (Inr (), sampleJournal fp st outbox)"
  "guardJournal sampleConfig sampleDisk emptyJournal = (Inr (), emptyJournal)"
  by (simp_all add: guardJournal_def sampleConfig_def sampleDisk_def sampleJournal_def emptyJournal_def)

lemma sample_received: "\<exists>fp. receive sampleConfig sampleDisk 0 ''s1'' sampleBridgeDispatch emptyJournal = (Inr True, sampleJournal fp Entry_received [])"
proof -
  obtain t where t: "canonicalRuntimeBridgeJson (bridgeDispatchJson sampleBridgeDispatch) = Inr t" "byteLength t \<le> 20000"
    using sampleDispatch_fingerprint by blast
  let ?fp = "''sha256:'' @ sha256hex t"
  have own: "operationIdOf sampleBridgeDispatch = ''p1''" "ab_inputDigest (op_binding (bd_snapshot sampleBridgeDispatch)) = sampleInputDigest"
    "bd_payload sampleBridgeDispatch = samplePayload" "ex_deviceId (ab_execution (op_binding (bd_snapshot sampleBridgeDispatch))) = Some ''d1''"
    by (simp_all add: operationIdOf_def sample_bridge sampleAttempt_def)
  have "receiveDispatch sampleConfig 0 ''s1'' sampleBridgeDispatch ?fp (bj_db emptyJournal) = Inr (True, bj_db (sampleJournal ?fp Entry_received []))"
    using t by (simp add: receiveDispatch_def own newService_def capabilityOf_def samplePayload_def emptyJournal_def sampleJournal_def
      sampleConfig_def maximumReceiptBytes_def reservePerEntry_def reservePerService_def)
  moreover have "jc_platform sampleConfig = samplePlatform" "jc_payload sampleConfig = Some" "jc_deviceId sampleConfig = ''d1''"
    by (simp_all add: sampleConfig_def)
  ultimately have "receive sampleConfig sampleDisk 0 ''s1'' sampleBridgeDispatch emptyJournal = (Inr True, sampleJournal ?fp Entry_received [])"
    using sampleDispatch_parsed samplePayload_digest t(1)
    by (simp add: receive_def guarded_def sampleDisk_guard transaction_def own bridgeDigest_def [of "bridgeDispatchJson sampleBridgeDispatch"])
      (simp add: sampleJournal_def)
  then show ?thesis by blast
qed

lemma sample_begun:
  "journalCall sampleConfig sampleDisk (Call_begin ''p1'') (sampleJournal fp Entry_received []) =
     (Inr (Reply_start ''s1''), sampleJournal fp Entry_executing [])"
  by (simp add: methodCall_def guarded_def sampleDisk_guard transaction_def beginExecution_def entryOf_def replyWith_def)
    (simp add: sampleJournal_def setState_def)

lemma sample_recovered:
  "journalCall sampleConfig sampleDisk (Call_reopen sampleFresh) (sampleJournal fp Entry_executing []) =
     (Inr Reply_done, sampleJournal fp Entry_unknown [\<lparr>rx_receipt = sampleBridgeReceipt, rx_operationId = ''p1'', rx_delivered = False\<rparr>])"
proof -
  have ok: "jsonOk (receiptJson sampleBridgeReceipt)" by (simp add: receiptJson_def sampleBridgeReceipt_def attemptJson_def sampleAttempt_def optProp_def signalJson_def)
  have i: "intStr 0 = ''0''" "intStr 1 = ''1''" by code_simp+
  have "jsonSize (receiptJson sampleBridgeReceipt) \<le> 20000"
    by (simp add: receiptJson_def sampleBridgeReceipt_def attemptJson_def sampleAttempt_def i optProp_def signalJson_def)
  then obtain t where t: "canonicalRuntimeBridgeJson (receiptJson sampleBridgeReceipt) = Inr t" "byteLength t \<le> 20000"
    using canonical_size [OF ok] order_trans by blast
  have v: "validBridgeReceipt samplePlatform sampleBridgeReceipt"
    by (simp add: validBridgeReceipt_def sampleBridgeReceipt_def validRuntimeAttemptRef_def sampleAttempt_def zPositive_def zNonneg_def isSafeInteger_def)
  have r: "\<lparr>br_receiptId = fr_receiptId (sampleFresh 0), br_attempt = ab_attempt (op_binding (bd_snapshot sampleBridgeDispatch)),
     br_leaseToken = bd_leaseToken sampleBridgeDispatch, br_deviceSequence = 0, br_signal = SigUncertain Missing_receipt, br_evidence = None\<rparr> = sampleBridgeReceipt"
    by (simp add: sampleBridgeReceipt_def sampleFresh_def sample_bridge i)
  have c: "capabilityOf sampleBridgeDispatch \<noteq> JStr ''local.fs.changeset''" by (simp add: capabilityOf_def sampleBridgeDispatch_def samplePayload_def)
  show ?thesis
    using t v c by (simp add: reopen_def mapReply_def sampleJournal_def emptyJournal_def activeEntry_def recoverEntry_def uncertain_def
      entryOf_def appendReceipt_def Let_def r) (simp add: sampleConfig_def need_def sampleBridgeReceipt_def maximumReceiptBytes_def setState_def)
qed

lemma journal_redelivery_witness:
  "\<exists>j. snd (runJournal sampleConfig [(sampleDisk, Call_receive 0 ''s1'' sampleBridgeDispatch), (sampleDisk, Call_begin ''p1''),
       (sampleDisk, Call_reopen sampleFresh)] emptyJournal) = j \<and> entryOf (bj_db j) ''p1'' \<noteq> entryOf (bj_db emptyJournal) ''p1'' \<and>
     receive sampleConfig sampleDisk 0 ''s2'' sampleBridgeDispatch j = (Inr False, j)"
proof -
  obtain fp where fp: "receive sampleConfig sampleDisk 0 ''s1'' sampleBridgeDispatch emptyJournal = (Inr True, sampleJournal fp Entry_received [])"
    using sample_received by blast
  let ?later = "[(sampleDisk, Call_begin ''p1''), (sampleDisk, Call_reopen sampleFresh)]"
  let ?j = "sampleJournal fp Entry_unknown [\<lparr>rx_receipt = sampleBridgeReceipt, rx_operationId = ''p1'', rx_delivered = False\<rparr>]"
  note steps = sample_begun [simplified] sample_recovered [simplified]
  have run: "runJournal sampleConfig ?later (sampleJournal fp Entry_received []) =
     ([(Call_begin ''p1'', Inr (Reply_start ''s1'')), (Call_reopen sampleFresh, Inr Reply_done)], ?j)"
    using sample_begun sample_recovered by (simp del: journalCall.simps)
  have "receive sampleConfig sampleDisk 0 ''s2'' sampleBridgeDispatch ?j = (Inr False, ?j)"
    by (rule journal_redelivery [OF runJournal.simps(1) fp run sampleDisk_guard(1)])
  moreover have "entryOf (bj_db ?j) ''p1'' \<noteq> entryOf (bj_db emptyJournal) ''p1''"
    by (simp add: sampleJournal_def emptyJournal_def entryOf_def)
  moreover have "snd (runJournal sampleConfig ((sampleDisk, Call_receive 0 ''s1'' sampleBridgeDispatch) # ?later) emptyJournal) = ?j"
    using run by (simp add: fp mapReply_def andThen_def del: journalCall.simps(2-))
  ultimately show ?thesis by blast
qed

end
