(* ===== verification/LedgerSample.thy ===== *)
theory LedgerSample
  imports LedgerRuns JournalRuns
begin

text \<open>
  A concrete run of the operation ledger: a root is opened, an operation created, leased and started.  It
  shows that the calls the properties of LedgerRuns bound are granted in the model.
\<close>

definition sampleLedgerEnv :: "char \<Rightarrow> LedgerEnv" where
  "sampleLedgerEnv c = \<lparr>ne_clock = (\<lambda>_ _. 0), ne_uuid = (\<lambda>_ k. [c, hexChar k]), ne_deadline = None, ne_rootRun = (\<lambda>_. Inr ()),
     ne_run = (\<lambda>_. Inr ()), ne_admission = (\<lambda>_. Inr False), ne_target = (\<lambda>_. Inr ()), ne_replayAuthority = Inr (),
     ne_browserRegistered = False, ne_persistLease = Inr (), ne_continuing = [], ne_cloudService = False, ne_evidence = Inr (),
     ne_stopEvidence = Inr (), ne_budgetSpec = Inl ZodError\<rparr>"
definition sampleLedgerConfig :: LedgerConfig where
  "sampleLedgerConfig = \<lparr>lc_platform = samplePlatform, lc_payload = Some, lc_browser = Some, lc_notExecuted = JNull\<rparr>"
definition sampleLimit :: BudgetLimit where
  "sampleLimit = \<lparr>bl_metric = Metric_wall_time, bl_unit = Unit_milliseconds, bl_currency = None, bl_capacity = 10,
     bl_source = \<lparr>us_kind = Src_worker, us_sourceId = ''worker''\<rparr>\<rparr>"
definition sampleReservation :: ReservationInput where
  "sampleReservation = \<lparr>ri_metric = Metric_wall_time, ri_accountingId = ''b1'', ri_amount = 5\<rparr>"
definition sampleOperation :: OperationInput where
  "sampleOperation = \<lparr>cp_snapshot = sampleSnapshot, cp_payload = None, cp_browser = None, cp_reservations = [sampleReservation]\<rparr>"

lemma sample_date: "dateParse ''2026-01-01T00:00:00Z'' = Some 1767225600000"
  by code_simp

lemma sample_clock: "\<exists>at. toISOString 0 = Some at \<and> at \<noteq> []"
  by (simp add: toISOString_def maxTime_def Let_def case_prod_unfold)

lemma sample_bounded: "ledgerBounded (operationInputJson sampleSnapshot None None [sampleReservation]) = Inr ()"
proof -
  have i: "intStr 0 = ''0''" "intStr 1 = ''1''" "intStr 5 = ''5''" by code_simp+
  have "jsonSize (operationInputJson sampleSnapshot None None [sampleReservation]) \<le> maxPayloadBytes"
    by (simp add: operationInputJson_def opSnapshotJson_def sampleSnapshot_def sampleBinding_def sampleExecution_def bindingJson_def
      sampleTask_def sampleAttempt_def taskJson_def scopeJson_def attemptJson_def executionJson_def sampleScope_def sampleDigest_def
      jOpt_def i reservationInputJson_def sampleReservation_def maxPayloadBytes_def)
  from order_trans [OF byteLength_stringify(1) this] show ?thesis by (simp add: ledgerBounded_def)
qed

lemma sample_limit_valid: "validUsageObservation samplePlatform (budgetSample (sampleLedgerEnv c) i sampleTask ''2026-01-01T00:00:00Z'' sampleLimit)"
  by (simp add: validUsageObservation_def budgetSample_def sampleLimit_def sampleLedgerEnv_def before_def zNonneg_def isSafeInteger_def
    lenIn_def trim_def isWhite_def split: option.split) (simp add: sampleTask_def)

text \<open>The states of the run.\<close>

definition sampleRoot :: LedgerDb where
  "sampleRoot = emptyLedger\<lparr>ld_root := Some \<lparr>rt_task = sampleTask, rt_deadlineAt = 1767225600000, rt_cancelRequestId = None, rt_cancelReason = None\<rparr>,
     ld_links := [(''r1'', sampleTask)], ld_budgets := [newBudget sampleLimit]\<rparr>"

lemma sample_root:
  "createRoot sampleLedgerConfig (sampleLedgerEnv c) sampleTask ''2026-01-01T00:00:00Z'' [sampleLimit] emptyLedger = Inr ((), sampleRoot)"
proof -
  have "zIsoUtc samplePlatform ''2026-01-01T00:00:00Z''" by (simp add: zIsoUtc_def)
  moreover have "ledgerInteger (bl_capacity sampleLimit)" by (simp add: ledgerInteger_def sampleLimit_def)
  ultimately show ?thesis
    using sample_limit_valid [of c 0] sample_date
    by (simp add: createRoot_def sampleLedgerConfig_def sortByMetric_def sortBy_def linkRun_def emptyLedger_def sampleRoot_def)
      (simp add: sampleTask_def sampleLedgerEnv_def)
qed

definition sampleNow :: string where "sampleNow = the (toISOString 0)"

lemma sampleNow_ok: "toISOString 0 = Some sampleNow" "sampleNow \<noteq> []"
  using sample_clock by (auto simp: sampleNow_def)

definition sampleStateOf :: "(string \<times> OpEvent) list \<Rightarrow> LedgerRow \<Rightarrow> LedgerReceiptRow list \<Rightarrow> LedgerDb" where
  "sampleStateOf evs row rs = sampleRoot\<lparr>ld_rows := [row], ld_events := evs, ld_receipts := rs,
     ld_budgets := [(newBudget sampleLimit)\<lparr>lb_reserved := 5\<rparr>], ld_reservations := [reservationRow ''p1'' sampleReservation]\<rparr>"

definition sampleLogged :: "char \<Rightarrow> nat \<Rightarrow> int \<Rightarrow> OpSignal \<Rightarrow> OpEvent" where
  "sampleLogged c k n sig = \<lparr>oe_eventId = [c, hexChar k], oe_task = sampleTask, oe_attempt = sampleAttempt,
     oe_execution = sampleExecution, oe_sequence = n, oe_occurredAt = sampleNow, oe_signal = sig\<rparr>"

lemma sample_append:
  assumes "advanceRuntimeOperation samplePlatform (lw_snapshot row) sig = Inr s" "op_binding s = sampleBinding" "validOpSignal samplePlatform sig"
    "zNonneg (lw_nextSequence row)" "lw_id row = ''p1''" "[c, hexChar k] \<notin> (oe_eventId \<circ> snd) ` set evs"
  shows "appendSignal sampleLedgerConfig (sampleLedgerEnv c) 0 k row sig (sampleStateOf evs row rs) =
    Inr (row\<lparr>lw_snapshot := s, lw_nextSequence := lw_nextSequence row + 1\<rparr>,
      sampleStateOf (evs @ [(''p1'', sampleLogged c k (lw_nextSequence row) sig)]) (row\<lparr>lw_snapshot := s, lw_nextSequence := lw_nextSequence row + 1\<rparr>) rs)"
proof -
  have "validOpEvent samplePlatform (sampleLogged c k (lw_nextSequence row) sig)"
    using assms(3,4) sampleBinding_ok sampleNow_ok(2)
    by (simp add: validOpEvent_def sampleLogged_def validRuntimeActionBinding_def sampleBinding_def)
  then show ?thesis
    using assms sampleNow_ok(1)
    by (simp add: appendSignal_def sampleLedgerConfig_def sampleLedgerEnv_def sampleLogged_def sampleStateOf_def updateRow_def)
qed

abbreviation sampleStep :: "OpStatus \<Rightarrow> OpSnapshot" where
  "sampleStep st \<equiv> sampleSnapshot\<lparr>op_status := st\<rparr>"

lemma sample_advance:
  "advanceRuntimeOperation samplePlatform sampleSnapshot SigReady = Inr (sampleStep Op_ready)"
  "advanceRuntimeOperation samplePlatform (sampleStep Op_ready) SigDispatched = Inr (sampleStep Op_dispatched)"
  "advanceRuntimeOperation samplePlatform (sampleStep Op_dispatched) (SigStarted None) = Inr (sampleStep Op_running)"
  by (simp_all add: sample_run_simps)

lemma sample_scope: "validRuntimeScope samplePlatform sampleScope" "matchesRuntimeScope samplePlatform sampleScope sampleScope = Inr True"
  by (simp_all add: validRuntimeScope_def sampleScope_def matchesRuntimeScope_def)

lemma sample_locked:
  "lockRoot sampleLedgerConfig (sampleLedgerEnv c) sampleScope ''r1'' (sampleStateOf evs row rs) = Inr (the (ld_root sampleRoot))"
  "lockRoot sampleLedgerConfig (sampleLedgerEnv c) sampleScope ''r1'' sampleRoot = Inr (the (ld_root sampleRoot))"
  using sample_scope by (simp_all add: lockRoot_def sampleLedgerConfig_def sampleStateOf_def sampleRoot_def) (simp_all add: sampleTask_def sampleLedgerEnv_def)

definition sampleLedgerRow :: "OpStatus \<Rightarrow> int \<Rightarrow> LedgerRow" where
  "sampleLedgerRow st n = (newRow sampleSnapshot None)\<lparr>lw_snapshot := sampleStep st, lw_nextSequence := n\<rparr>"

definition sampleLeased :: "OpStatus \<Rightarrow> int \<Rightarrow> LedgerRow" where
  "sampleLeased st n = (sampleLedgerRow st n)\<lparr>lw_leaseOwner := Some ''d1'', lw_leaseTokenHash := Some (sha256hex ''b4''),
     lw_leaseExpiresAt := Some 1000\<rparr>"

abbreviation sampleLog1 :: "(string \<times> OpEvent) list" where "sampleLog1 \<equiv> [(''p1'', sampleLogged CHR ''a'' 2 0 SigReady)]"
abbreviation sampleLog2 :: "(string \<times> OpEvent) list" where "sampleLog2 \<equiv> sampleLog1 @ [(''p1'', sampleLogged CHR ''b'' 3 1 SigDispatched)]"
abbreviation sampleLog3 :: "(string \<times> OpEvent) list" where "sampleLog3 \<equiv> sampleLog2 @ [(''p1'', sampleLogged CHR ''c'' 2 2 (SigStarted None))]"

lemma sampleSnapshot_binding [simp]: "op_binding sampleSnapshot = sampleBinding" "at_operationId sampleAttempt = ''p1''"
  "lc_platform sampleLedgerConfig = samplePlatform"
  by (simp_all add: sampleSnapshot_def sampleAttempt_def sampleLedgerConfig_def)

lemma sample_planned: "sampleStep Op_planned = sampleSnapshot"
  by (simp add: sampleSnapshot_def)

lemma sample_row_id [simp]: "lw_id (sampleLedgerRow st n) = ''p1''" "lw_id (sampleLeased st n) = ''p1''"
  by (simp_all add: sampleLeased_def sampleLedgerRow_def newRow_def sampleSnapshot_def sampleBinding_def sampleAttempt_def)

lemma sample_inserted:
  "insertOperation sampleSnapshot None [sampleReservation] sampleRoot = sampleStateOf [] (newRow sampleSnapshot None) []"
  by (simp add: insertOperation_eq sampleStateOf_def reserveAll_def sampleRoot_def emptyLedger_def)
    (simp add: sampleReservation_def newBudget_def sampleLimit_def sampleSnapshot_def sampleBinding_def sampleAttempt_def)

lemma sample_created:
  "createOperation sampleLedgerConfig (sampleLedgerEnv CHR ''a'') sampleOperation sampleRoot =
     Inr (sampleStep Op_ready, sampleStateOf sampleLog1 (sampleLedgerRow Op_ready 1) [])"
proof -
  have parse: "parseOpSnapshot samplePlatform sampleSnapshot = Inr sampleSnapshot" using sampleSnapshot_normal by (simp add: normalSnapshot_def)
  have fresh: "freshOperation sampleSnapshot" by (simp add: freshOperation_def sampleSnapshot_def sampleBinding_def sampleAttempt_def)
  have task: "ab_task (op_binding sampleSnapshot) = sampleTask" "at_operationId (ab_attempt (op_binding sampleSnapshot)) = ''p1''"
    by (simp_all add: sampleSnapshot_def sampleBinding_def sampleAttempt_def)
  have agree: "payloadsAgree (op_binding sampleSnapshot) None None = Inr True"
    by (simp add: payloadsAgree_def sampleSnapshot_def sampleBinding_def sampleExecution_def)
  have root: "tk_scope sampleTask = sampleScope" "tk_rootRunId sampleTask = ''r1''" "tk_runId sampleTask = ''r1''" by (simp_all add: sampleTask_def)
  have link: "linkRun sampleLedgerConfig sampleTask sampleRoot = Inr sampleRoot" by (simp add: linkRun_def sampleRoot_def root)
  have budgets: "budgetsAdmit sampleRoot [sampleReservation] = Inr ()"
    by (simp add: budgetsAdmit_def sampleRoot_def sampleReservation_def newBudget_def sampleLimit_def)
  let ?new = "newRow sampleSnapshot None"
  have row: "lw_snapshot ?new = sampleSnapshot" "lw_nextSequence ?new = 0" "lw_id ?new = ''p1''" by (simp_all add: newRow_def task)
  have "?new\<lparr>lw_snapshot := sampleStep Op_ready, lw_nextSequence := 1\<rparr> = sampleLedgerRow Op_ready 1" by (simp add: sampleLedgerRow_def)
  then have "appendSignal sampleLedgerConfig (sampleLedgerEnv CHR ''a'') 0 2 ?new SigReady (sampleStateOf [] ?new []) =
      Inr (sampleLedgerRow Op_ready 1, sampleStateOf sampleLog1 (sampleLedgerRow Op_ready 1) [])"
    using sample_append [of ?new SigReady "sampleStep Op_ready" "CHR ''a''" 2 "[]" "[]"] sample_advance(1)
    by (simp add: row zNonneg_def isSafeInteger_def)
  moreover have "ld_rows sampleRoot = []" by (simp add: sampleRoot_def emptyLedger_def)
  moreover have "zUuid samplePlatform (ri_accountingId sampleReservation) \<and> ledgerInteger (ri_amount sampleReservation)"
    by (simp add: sampleReservation_def ledgerInteger_def)
  moreover have "ensureRootAdmits (the (ld_root sampleRoot)) 0 = Inr ()" by (simp add: sampleRoot_def ensureRootAdmits_def)
  moreover note env = sampleLedgerEnv_def [of "CHR ''a''"]
  moreover have "lc_platform sampleLedgerConfig = samplePlatform" by (simp add: sampleLedgerConfig_def)
  moreover have "ne_clock (sampleLedgerEnv CHR ''a'') = (\<lambda>_ _. 0)" "ne_rootRun (sampleLedgerEnv CHR ''a'') = (\<lambda>_. Inr ())"
    "ne_run (sampleLedgerEnv CHR ''a'') = (\<lambda>_. Inr ())" "ne_admission (sampleLedgerEnv CHR ''a'') = (\<lambda>_. Inr False)"
    "ne_target (sampleLedgerEnv CHR ''a'') = (\<lambda>_. Inr ())" by (simp_all add: env)
  ultimately show ?thesis
    using parse fresh agree link budgets sample_bounded sample_locked(2) [of "CHR ''a''"] sample_inserted
    by (simp add: createOperation_def sampleOperation_def admitNew_def task root) (simp add: sampleLedgerRow_def)
qed

lemma sample_row_locked:
  "lockOperation sampleLedgerConfig (sampleLedgerEnv c) sampleScope ''p1'' (sampleStateOf evs (sampleLedgerRow Op_ready n) rs) =
     Inr (the (ld_root sampleRoot), sampleLedgerRow Op_ready n)"
  "lockOperation sampleLedgerConfig (sampleLedgerEnv c) sampleScope ''p1'' (sampleStateOf evs (sampleLeased Op_dispatched n) rs) =
     Inr (the (ld_root sampleRoot), sampleLeased Op_dispatched n)"
proof -
  have parse: "parseOpSnapshot samplePlatform (sampleStep Op_ready) = Inr (sampleStep Op_ready)"
    "parseOpSnapshot samplePlatform (sampleStep Op_dispatched) = Inr (sampleStep Op_dispatched)" by (simp_all add: sample_run_simps)
  have b: "ab_task (op_binding (sampleStep st)) = sampleTask" for st by (simp add: sampleSnapshot_def sampleBinding_def)
  have root: "tk_scope sampleTask = sampleScope" "tk_rootRunId sampleTask = ''r1''" by (simp_all add: sampleTask_def)
  have rows: "rowOf (sampleStateOf evs row rs) ''p1'' = Some row" if "lw_id row = ''p1''" for row
    using that by (simp add: rowOf_def sampleStateOf_def)
  have snap: "lw_snapshot (sampleLedgerRow st n) = sampleStep st" "lw_snapshot (sampleLeased st n) = sampleStep st" for st
    by (simp_all add: sampleLeased_def sampleLedgerRow_def)
  have same: "sampleLedgerRow st n\<lparr>lw_snapshot := sampleStep st\<rparr> = sampleLedgerRow st n"
    "sampleLeased st n\<lparr>lw_snapshot := sampleStep st\<rparr> = sampleLeased st n" for st
    by (simp_all add: sampleLeased_def sampleLedgerRow_def)
  have P: "lc_platform sampleLedgerConfig = samplePlatform" by (simp add: sampleLedgerConfig_def)
  show "lockOperation sampleLedgerConfig (sampleLedgerEnv c) sampleScope ''p1'' (sampleStateOf evs (sampleLedgerRow Op_ready n) rs) =
     Inr (the (ld_root sampleRoot), sampleLedgerRow Op_ready n)"
    "lockOperation sampleLedgerConfig (sampleLedgerEnv c) sampleScope ''p1'' (sampleStateOf evs (sampleLeased Op_dispatched n) rs) =
     Inr (the (ld_root sampleRoot), sampleLeased Op_dispatched n)"
    using sample_scope parse by (simp_all add: lockOperation_def P rows snap b root sample_locked same)
qed

lemma sample_env [simp]:
  "ne_clock (sampleLedgerEnv c) = (\<lambda>_ _. 0)" "ne_rootRun (sampleLedgerEnv c) = (\<lambda>_. Inr ())" "ne_run (sampleLedgerEnv c) = (\<lambda>_. Inr ())"
  "ne_admission (sampleLedgerEnv c) = (\<lambda>_. Inr False)" "ne_target (sampleLedgerEnv c) = (\<lambda>_. Inr ())"
  "ne_persistLease (sampleLedgerEnv c) = Inr ()" "ne_uuid (sampleLedgerEnv c) = (\<lambda>_ k. [c, hexChar k])"
  by (simp_all add: sampleLedgerEnv_def)

lemma sample_admits: "ensureRootAdmits (the (ld_root sampleRoot)) 0 = Inr ()" "rt_deadlineAt (the (ld_root sampleRoot)) = 1767225600000"
  by (simp_all add: sampleRoot_def ensureRootAdmits_def)

definition sampleLedgerLease :: LedgerLease where
  "sampleLedgerLease = \<lparr>le_snapshot = sampleStep Op_dispatched, le_leaseToken = ''b4'', le_leaseExpiresAt = 1000, le_bridgePayload = None\<rparr>"

lemma sample_dispatched:
  "dispatchOperation sampleLedgerConfig (sampleLedgerEnv CHR ''b'') sampleScope ''p1'' ''d1'' 1000 (sampleStateOf sampleLog1 (sampleLedgerRow Op_ready 1) []) =
     Inr (sampleLedgerLease, sampleStateOf sampleLog2 (sampleLeased Op_dispatched 2) [])"
proof -
  let ?row = "sampleLedgerRow Op_ready 1"
  have row: "lw_snapshot ?row = sampleStep Op_ready" "lw_payload ?row = None" "lw_leaseTokenHash ?row = None" "lw_nextSequence ?row = 1"
    by (simp_all add: sampleLedgerRow_def newRow_def)
  have h: "hexChar 2 = CHR ''2''" "hexChar 3 = CHR ''3''" "hexChar 4 = CHR ''4''" by code_simp+
  have sig: "appendSignal sampleLedgerConfig (sampleLedgerEnv CHR ''b'') 0 3 ?row SigDispatched (sampleStateOf sampleLog1 ?row []) =
      Inr (sampleLedgerRow Op_dispatched 2, sampleStateOf sampleLog2 (sampleLedgerRow Op_dispatched 2) [])"
    using sample_append [of ?row SigDispatched "sampleStep Op_dispatched" "CHR ''b''" 3 sampleLog1 "[]"] sample_advance(2)
    by (simp add: row zNonneg_def isSafeInteger_def sampleLogged_def) (simp add: sampleSnapshot_def sampleLedgerRow_def)
  have reserved: "\<not> unreserved (sampleStateOf sampleLog1 ?row []) ''p1''"
    by (simp add: unreserved_def sampleStateOf_def reservationRow_def newBudget_def sampleReservation_def sampleLimit_def)
  have after: "lw_snapshot (sampleLedgerRow Op_dispatched 2) = sampleStep Op_dispatched" "lw_payload (sampleLedgerRow Op_dispatched 2) = None"
    by (simp_all add: sampleLedgerRow_def newRow_def)
  have grant: "grantLease sampleLedgerConfig (sampleLedgerEnv CHR ''b'') (the (ld_root sampleRoot)) ?row ''d1'' 1000 None 0 (sampleStateOf sampleLog1 ?row []) =
      Inr (sampleLedgerLease, sampleStateOf sampleLog2 (sampleLeased Op_dispatched 2) [])"
    using sig reserved sample_admits
    by (simp add: grantLease_def row admit_def after h sampleLedgerLease_def Let_def updateRow_def)
      (simp add: sampleStateOf_def sampleLeased_def sampleLedgerConfig_def)
  show ?thesis
    using grant sample_row_locked(1) [of "CHR ''b''" sampleLog1 1 "[]"] sample_admits
    by (simp add: dispatchOperation_def dispatchLocked_def leaseDurationOk_def row)
qed

lemma sample_started:
  "startOperation sampleLedgerConfig (sampleLedgerEnv CHR ''c'') sampleScope ''p1'' ''b4'' ''s1'' sampleAttempt
       (sampleStateOf sampleLog2 (sampleLeased Op_dispatched 2) []) =
     Inr ((sampleStep Op_running, True), sampleStateOf sampleLog3 (sampleLeased Op_running 3)
       [\<lparr>lx_receiptId = ''s1'', lx_operationId = ''p1'', lx_content = Content_preflight sampleAttempt, lx_disposition = Disp_applied\<rparr>])"
proof -
  let ?row = "sampleLeased Op_dispatched 2"
  have row: "lw_snapshot ?row = sampleStep Op_dispatched" "lw_payload ?row = None" "lw_leaseTokenHash ?row = Some (sha256hex ''b4'')"
    "lw_leaseExpiresAt ?row = Some 1000" "lw_nextSequence ?row = 2"
    "lw_snapshot (sampleLeased Op_running 3) = sampleStep Op_running" "lw_payload (sampleLeased Op_running 3) = None"
    "lw_leaseExpiresAt (sampleLeased Op_running 3) = Some 1000"
    by (simp_all add: sampleLeased_def sampleLedgerRow_def newRow_def)
  have h: "hexChar 2 = CHR ''2''" "hexChar 3 = CHR ''3''" by code_simp+
  have "?row\<lparr>lw_snapshot := sampleStep Op_running, lw_nextSequence := 3\<rparr> = sampleLeased Op_running 3"
    by (simp add: sampleLeased_def sampleLedgerRow_def)
  then have sig: "appendSignal sampleLedgerConfig (sampleLedgerEnv CHR ''c'') 0 2 ?row (SigStarted None) (sampleStateOf sampleLog2 ?row []) =
      Inr (sampleLeased Op_running 3, sampleStateOf sampleLog3 (sampleLeased Op_running 3) [])"
    using sample_append [of ?row "SigStarted None" "sampleStep Op_running" "CHR ''c''" 2 sampleLog2 "[]"] sample_advance(3)
    by (simp add: row zNonneg_def isSafeInteger_def sampleLogged_def)
  have attempt: "validRuntimeAttemptRef samplePlatform sampleAttempt" "ab_attempt sampleBinding = sampleAttempt"
    by (simp_all add: validRuntimeAttemptRef_def sampleAttempt_def zPositive_def zNonneg_def isSafeInteger_def sampleBinding_def)
  have receipts: "ld_receipts (sampleStateOf evs r rs) = rs" for evs r rs by (simp add: sampleStateOf_def)
  have "insertReceipt ''s1'' ''p1'' (Content_preflight sampleAttempt) Disp_applied (sampleStateOf sampleLog3 (sampleLeased Op_running 3) []) =
      Inr (sampleStateOf sampleLog3 (sampleLeased Op_running 3)
        [\<lparr>lx_receiptId = ''s1'', lx_operationId = ''p1'', lx_content = Content_preflight sampleAttempt, lx_disposition = Disp_applied\<rparr>])"
    by (simp add: insertReceipt_def receipts) (simp add: sampleStateOf_def)
  then show ?thesis
    using sig sample_row_locked(2) [of "CHR ''c''" sampleLog2 2 "[]"] sample_admits attempt
    by (simp add: startOperation_def verifyLease_def row receipts attemptEqual_def leaseLive_def admit_def)
qed

text \<open>The four calls, from nothing to an execution that may begin: one start, one lease.\<close>

definition sampleCalls :: "((nat \<Rightarrow> LedgerEnv) \<times> LedgerCall) list" where
  "sampleCalls = [(\<lambda>_. sampleLedgerEnv CHR ''a'', Lcall_createRoot sampleTask ''2026-01-01T00:00:00Z'' [sampleLimit]),
     (\<lambda>_. sampleLedgerEnv CHR ''a'', Lcall_createOperation sampleOperation),
     (\<lambda>_. sampleLedgerEnv CHR ''b'', Lcall_dispatch sampleScope ''p1'' ''d1'' 1000),
     (\<lambda>_. sampleLedgerEnv CHR ''c'', Lcall_start sampleScope ''p1'' ''b4'' ''s1'' sampleAttempt)]"

lemma sample_ledger_run:
  "grantsIn (grantsStart ''p1'') (fst (runLedger sampleLedgerConfig sampleCalls emptyLedger)) = 1 \<and>
   leaseHashes ''p1'' (fst (runLedger sampleLedgerConfig sampleCalls emptyLedger)) = [sha256hex ''b4''] \<and>
   map (op_status \<circ> lw_snapshot) (ld_rows (snd (runLedger sampleLedgerConfig sampleCalls emptyLedger))) = [Op_running] \<and>
   map lb_reserved (ld_budgets (snd (runLedger sampleLedgerConfig sampleCalls emptyLedger))) = [5]"
proof -
  have "operationOf (sampleStep Op_dispatched) = ''p1''" by (simp add: operationOf_def)
  then show ?thesis
    using sample_root sample_created sample_dispatched sample_started
    by (simp add: sampleCalls_def answered_def grantsIn_def leaseHashes_def sampleLedgerLease_def)
      (simp add: sampleStateOf_def sampleLeased_def sampleLedgerRow_def)
qed

end
