(* ===== verification/Spec2Isabelle.thy ===== *)
theory Spec2Isabelle
  imports Authorization LeaseRetry RunEvents CalendarState Interactions WorkspaceState SandboxSession LedgerSample
begin

text \<open>
  AllRice: the decision core of the runtime.

  AllRice runs digital employees: a web application and a desktop bridge create work, a worker
  executes it in sandboxes or on a user's machine, and a database package keeps the state.  The
  decisions that must not go wrong are pure TypeScript functions in packages/contracts/src and
  packages/database/src, called by SQL services inside one transaction, and the small stateful parts
  that stand between a sandbox and the outside.  This development models those.  A model function returns what the TypeScript function returns; \<open>Inl\<close> is a thrown
  error, \<open>Inr\<close> a returned value, None a returned null.  Schemas (zod) are predicates or parse
  functions, records are records, unions are datatypes, unknown values are \<open>jsval\<close> trees.

  Parts and theories, in the order they build on each other.

  \<^item> Prelude: errors, results, JavaScript numbers and strings, runs of a step function; the
    locales \<open>step_machine\<close> (an invariant and a preorder that every accepted step keeps, for whole
    runs), \<open>once_machine\<close> (an input accepted at most once) and \<open>versioned_store\<close> (writes under an
    expected version), interpreted by Operations, Sandbox, QueuePolicy, OnceWriter, OnceState,
    RecurringState, CalendarState and WorkspaceState; \<open>call_machine\<close> and \<open>grant_machine\<close> (a store under
    calls that answer, a grant given at most once), interpreted by LedgerTransactions and LedgerRuns.
  \<^item> JsonValue: JavaScript values, JSON.stringify, deep equality, canonical text and SHA-256
    (database/src/runtime-policy-digest.ts).  Its input is any JavaScript value (\<open>JsValue\<close>, with holes
    and objects of other prototypes); what the schemas let through is \<open>jsval\<close>, a part of it.  Shown:
    canonical text decides deep equality, and the digest throws exactly on a value with a part that
    JSON has no text for, and has the checksum format otherwise.
  \<^item> Identity, Decode: the references of runtime-v2/identity.ts and sandbox-network.ts, their
    encodings and decoders, \<open>runtimeContractEqual\<close> and \<open>matchesRuntimeScope\<close>.
  \<^item> Operations: the operation state machine of runtime-v2/operations.ts.  Shown: identity and first
    decisions are kept, terminal states are final, one dispatch per attempt, no schema error on a
    legal move, and every operation can be stopped.
  \<^item> Replay: event decoding and bounded replay of runtime-v2/events.ts.  Shown: a replay is the run
    of its signals in sequence order, redelivery changes nothing, decoding inverts encoding.
  \<^item> IsoTime: Date.parse and toISOString on the ISO profile the schemas accept.
  \<^item> Authorization: authorization.ts, runtime-v2/policy.ts, work-automation.ts and the visibility
    part of common.ts.  Shown: the exact conditions of each decision, and that relative paths stay below.
  \<^item> Sandbox: policy, budget and renewal of runtime-v2/sandbox-execution.ts.
  \<^item> QueuePolicy: queue.ts, database/src/queue/policy.ts and receipt-drain.ts.
  \<^item> RunEvents: statuses, events, canonical events and the sequence check of runs.ts.
  \<^item> LeaseRetry: the lock retry of database/src/queue/lease-lock-retry.ts.  The loop of the model
    carries the attempt number and stops at the code's own bound of four attempts, so no fuel is
    needed; the database and the abort signal are an environment that answers each attempt.  Shown: the
    number of attempts, the lock wait of each, the backoffs between them, and what is returned.
  \<^item> OnceWriter, OnceState: native-schedule-once-state.ts.  The writer row is the state of the first,
    with acquire, renew and close as steps; the snapshot (control and native task) is the state of
    the second, with one branch per mutation, the occurrence and outbox entry of a delivery, the
    journal, and the verification of a commit.  The locale \<open>fenced_client\<close> states what a component
    owes the row; OnceState, RecurringState and CalendarState are its interpretations.
  \<^item> RecurringState: native-schedule-recurring-state.ts and the fixed rules of recurring-schedule.ts.
    The step function logs the revision and scheduled time of each occurrence, and the invariant
    relates the log to the target time of the stored task.
  \<^item> ScheduleTime: the wall-clock functions of execution/automation.ts, the schedule schema of
    contracts/src/automation.ts and native-schedule-monthly-time.ts.  Shown: how a wall time is
    resolved around one change of the offset; that the next target is the least due instant where the
    offset is steady; that the search for the latest missed month never runs out of its four rounds in
    any zone, and what it returns; and concrete overlaps in which the next target lies in the past, or
    the monthly search throws because the clock went back over the start of a month.
  \<^item> CalendarState: native-schedule-calendar-state.ts.  The period and its current arm are the state,
    a task put is the step.  Shown: the binding stays valid, one occurrence per period, admission.
  \<^item> WorkspaceState: native-schedule-workspace-state.ts.  Shown: an applied write refines one update
    of an abstract workspace (revision, table as a map, global value), one write per revision.
  \<^item> UserQuestions, Interactions: user-questions.ts and runtime-v2/interactions.ts.  Shown: exactly which
    answer batches match, with the question ids different or not, and what an approval is bound to.
  \<^item> SandboxTls: the client hello check of project-runtime/src/sandbox-network-policy.ts.  Shown: what is
    accepted is exactly the encoding of a hello that names the host, and a verdict is final.
  \<^item> SandboxNetwork: the rest of that file and public-address.ts, with the lease schema of
    runtime-v2/sandbox-network.ts.  Shown: the address check by ranges, what a resolved destination
    satisfies, the bound of the cache.
  \<^item> SandboxSession: sandbox-network-session.ts as a step relation, one step per handler and per stretch
    between two awaits, so that all peers, sockets and timers interleave freely.  Shown by rule
    induction over the reachable states: authorized egress, limits, order of the relayed bytes.
  \<^item> LocalService, BridgeJournal, ServiceJournal: the journal of the desktop bridge
    (apps/rice-bridge/src/journal.ts and local-service-journal.ts, with the schemas of
    runtime-v2/bridge-journal.ts and local-service.ts).  The tables are the state, a method is its tests,
    the guard and an action in a transaction that commits or leaves the tables as they were.
  \<^item> JournalRuns: any sequence of calls, crashes and reopenings of a journal.  The locale
    \<open>journal_permit\<close> states what makes a permission one that is given once and is interpreted on the five
    the journal gives; further that no row of any table is lost and which of its parts may change (of a
    changeset file, its result while it is prepared), the shape of the receipts, the bounds of the streams, what a restart
    reports, and a concrete run.
  \<^item> Usage: the usage observations of runtime-v2/usage.ts and database/src/execution-usage-policy.ts.
  \<^item> Ledger: the operation ledger of one root (database/src/runtime-ledger/ledger.ts).  The tables that belong
    to the root are the state, a transaction is a function that returns its answer with the next tables or
    throws.
  \<^item> LedgerMoves, LedgerTransactions, LedgerRuns: every transaction is a sequence of elementary moves, which
    keep the invariant (logs, books) and what was recorded; the calls are an instance of the locale
    \<open>call_machine\<close> of Prelude, the permission to start one of \<open>grant_machine\<close>.  Shown for every run: the
    log of an operation replays to its snapshot, one start and one lease per operation, the books balance,
    cancellation is final, receipts are idempotent.  LedgerSample: a concrete run.
  \<^item> This theory: the property that spans the writer row and the three schedules.

  Parameters.  Zod's UUID and datetime formats, localeCompare and the URL parser are the record
  \<open>platform\<close>; the native task decoders and the resolution of time zone names (to an offset per
  instant, in ScheduleTime) are arguments of the schedule functions; the system's DNS, the answer of
  the public resolver, JSON.parse of a line and the addresses of the host are arguments of the
  sandbox network; the payload and result schemas of the bridge, the fixed texts of its summaries, fresh
  identifiers, the size of the database file and what lstat finds are arguments of the journal; the payload schemas
  and what the other modules answer in a transaction (\<open>LedgerConfig\<close>, \<open>LedgerEnv\<close>) are arguments of the ledger; the database clock and the rows
  read under lock are arguments everywhere.  Hypotheses about them are named: \<open>jsonDecoder\<close> and
  \<open>jsonDecoding\<close> (a decoder returns JSON), \<open>consistentRevisions\<close> (a revision is stored under its
  number), \<open>oneTransition\<close>, \<open>calmAround\<close> and \<open>calmSearch\<close> (the offset of a zone changes at most once,
  or not at all, in the days looked at), \<open>plainSearch\<close> (it is whole minutes of at most a day there).  A destroyed socket reports nothing further, and queries of the
  public resolver that share one answer are modelled as separate queries.

  Bounds.  Numbers are mathematical integers, with the safe-integer tests of the code written out;
  strings are code units below 256.  The recursion of every function is structural, or bounded by
  the input, so all functions are total; the limits of the code (10000 events, 200 receipts, 32
  levels and 20000 nodes of JSON, 65536 bytes, 300000 ms, 64 cached names, 10000 peers of a session, two months ahead, four months back) are in
  the definitions.

  Not modelled, and why.  The other SQL services (execution/queue.ts, workspace/service.ts,
  the schedule products, employees) are statements against PostgreSQL around the decisions above.
  Of the ledger the comparison of receipt evidence with payloads is a parameter, and the
  exchanges with local and project services, the cancellation of the operations of child runs, the readers
  and the query that selects candidates are left out.
  The business plans of the calendar (native-schedule-calendar-business-state.ts) are pure and are the next
  candidate.  Of the bridge journal the older file commands,
  workspace selections and folder triggers, and the creation and locking of its file, are left out; a
  dispatch read back from it is the one that was stored.  The web application, the rest of the desktop bridge, the worker harness, the
  sandbox backend, storage, office rendering and archives are input and output, rendering or
  process control.  The remaining schemas of packages/contracts only describe data.
\<close>

section \<open>Components together\<close>

text \<open>
  (C21) One fence for every schedule: once a new writer has acquired a partition, no mutation of a
  one-shot control, no mutation of a recurring control and no task put of a calendar control is
  accepted from a writer of an earlier epoch, whatever renewals, closes and further acquisitions the
  row has seen since, and whatever the mutation, the time and the evidence it carries.
\<close>

theorem stale_writer_changes_nothing:
  assumes "planNativeOnceAcquire row a = Inr (Some acq)" "runAll writerStep (ac_row acq) changes = Inr row'"
    "oi_writerRow i = row'" "wr_epoch (oi_writer i) \<le> ww_epoch row"
    "ri_writerRow j = row'" "wr_epoch (ri_writer j) \<le> ww_epoch row"
    "cn_writerRow k = row'" "wr_epoch (cn_writer k) \<le> ww_epoch row"
  shows "(\<exists>e. prepareNativeOnceMutation decode i = Inl e) \<and> (\<exists>e. prepareNativeRecurringMutation P zone decode' j = Inl e) \<and>
    (\<exists>e. prepareNativeCalendarTaskPut P zones decode'' k = Inl e)"
  using once_client.stale_refused [OF assms(1), of changes i] recurring_client.stale_refused [OF assms(1), of changes j]
    calendar_client.stale_refused [OF assms(1), of changes k] assms
  by simp

theorem stale_writer_changes_nothing_witness:
  "\<exists>acq i j k. planNativeOnceAcquire sampleRow sampleAcquire = Inr (Some acq) \<and>
     oi_writerRow i = ac_row acq \<and> ri_writerRow j = ac_row acq \<and> cn_writerRow k = ac_row acq \<and>
     (\<exists>e. prepareNativeOnceMutation jsonOnly i = Inl e) \<and>
     (\<exists>e. prepareNativeRecurringMutation samplePlatform noZone Inr j = Inl e) \<and>
     (\<exists>e. prepareNativeCalendarTaskPut samplePlatform sampleZones jsonTask k = Inl e)"
proof -
  obtain acq where a: "planNativeOnceAcquire sampleRow sampleAcquire = Inr (Some acq)" using sample_acquire by blast
  have r: "runAll writerStep (ac_row acq) [] = Inr (ac_row acq)" by simp
  define old where "old = \<lparr>wr_partitionId = ''part'', wr_ownerId = ''old'', wr_epoch = 0, wr_token = ''x''\<rparr>"
  define i where "i = \<lparr>oi_readiness = Some sampleReady, oi_writerRow = ac_row acq, oi_writer = old, oi_dbNowMs = 1000,
    oi_before = \<lparr>os_control = sampleControl, os_task = JNull\<rparr>,
    oi_write = \<lparr>ow_writeId = ''w1'', ow_digest = sampleDigest, ow_mutation = sampleMutation\<rparr>,
    oi_admission = Some sampleFacts, oi_existingOccurrence = None\<rparr>"
  define j where "j = \<lparr>ri_readiness = sampleReady, ri_reference = sampleReference, ri_writerRow = ac_row acq,
    ri_writer = old, ri_dbNowMs = 1000, ri_before = sampleBeforeSnapshot,
    ri_write = \<lparr>ow_writeId = ''w1'', ow_digest = sampleDigest, ow_mutation = samplePut\<rparr>,
    ri_revisions = sampleRevisions, ri_admission = Some sampleAdmission\<rparr>"
  define k where "k = \<lparr>cn_readiness = sampleReady, cn_reference = sampleReference, cn_writerRow = ac_row acq, cn_writer = old,
    cn_dbNowMs = 1000, cn_control = calControl, cn_period = calPeriod, cn_arm = calArm sampleDigest,
    cn_revision = RevisionExperience calRevision,
    cn_write = \<lparr>cw_writeId = ''w1'', cw_digest = sampleDigest, cw_mutation = calMutation sampleDigest\<rparr>,
    cn_admission = Some calAdmission\<rparr>"
  have "oi_writerRow i = ac_row acq" "wr_epoch (oi_writer i) \<le> ww_epoch sampleRow"
    "ri_writerRow j = ac_row acq" "wr_epoch (ri_writer j) \<le> ww_epoch sampleRow"
    "cn_writerRow k = ac_row acq" "wr_epoch (cn_writer k) \<le> ww_epoch sampleRow"
    by (simp_all add: i_def j_def k_def old_def sampleRow_def)
  from stale_writer_changes_nothing [OF a r this, of jsonOnly samplePlatform noZone Inr sampleZones jsonTask] this a
  show ?thesis by blast
qed

end
